(* ===== verification/Helm_Prelude.thy ===== *)
theory Helm_Prelude
  imports Main "HOL-Library.Word" "HOL-Library.AList"
begin

text \<open>
  Shared vocabulary of the development: results of fallible Go functions, the parts of the Go
  standard library the modelled packages rely on (decimal and hexadecimal formatting,
  \<^verbatim>\<open>strings.TrimSpace\<close>, \<^verbatim>\<open>strings.ToLower\<close>, \<^verbatim>\<open>time\<close> arithmetic), finite maps as association
  lists, and the generic lemmas on lists and maps the components share.
\<close>

section \<open>Results, times, maps\<close>

text \<open>
  A Go function with an error result is a function into \<open>('e, 'a) res\<close>; \<open>Err\<close> is the error return.
  Instants (\<^verbatim>\<open>time.Time\<close>) and durations (\<^verbatim>\<open>time.Duration\<close>) are nanosecond counts; the zero
  \<^verbatim>\<open>time.Time\<close> is instant 0. A Go map with comparable keys is an association list without
  duplicate keys, read with \<open>map_of\<close> and written with \<open>AList.update\<close> and \<open>AList.delete\<close>.
\<close>

type_synonym ('e, 'a) res = "'e + 'a"
type_synonym gotime = int
type_synonym godur = int
type_synonym byte = "8 word"
type_synonym ('k, 'v) gomap = "('k \<times> 'v) list"

abbreviation Err :: "'e \<Rightarrow> ('e, 'a) res" where "Err \<equiv> Inl"
abbreviation Ok :: "'a \<Rightarrow> ('e, 'a) res" where "Ok \<equiv> Inr"

named_theorems go_lib \<open>unfolding rules for the Go library functions of the prelude\<close>
named_theorems op_frame \<open>what an operation leaves unchanged\<close>

definition is_ok :: "('e, 'a) res \<Rightarrow> bool" where
  "is_ok r = (case r of Inl _ \<Rightarrow> False | Inr _ \<Rightarrow> True)"

lemma is_ok_simps [simp]: "is_ok (Ok a)" "\<not> is_ok (Err e)"
  by (simp_all add: is_ok_def)

lemma is_ok_iff: "is_ok r \<longleftrightarrow> (\<exists>a. r = Ok a)"
  by (cases r) simp_all

text \<open>A guard that returns an error: the call succeeds when the guard is passed and the rest succeeds.\<close>

lemma guard_ok: "((if c then Err e else r) = Ok a) \<longleftrightarrow> \<not> c \<and> r = Ok a"
  by simp

definition nsec :: godur where "nsec = 1"
definition second :: godur where "second = 1000000000"
definition minute :: godur where "minute = 60000000000"
definition max_int64 :: int where "max_int64 = 9223372036854775807"
definition min_int64 :: int where "min_int64 = - 9223372036854775808"

text \<open>Arithmetic on \<^verbatim>\<open>int64\<close> (and \<^verbatim>\<open>int\<close> on 64-bit targets) wraps to this range.\<close>

definition wrap64 :: "int \<Rightarrow> int" where
  "wrap64 x = (x + 9223372036854775808) mod 18446744073709551616 - 9223372036854775808"

definition int64 :: "int \<Rightarrow> bool" where
  "int64 x \<longleftrightarrow> min_int64 \<le> x \<and> x \<le> max_int64"

lemma wrap64_id [simp]: "int64 x \<Longrightarrow> wrap64 x = x"
  by (simp add: wrap64_def int64_def min_int64_def max_int64_def)

lemma wrap64_range [simp]: "int64 (wrap64 x)"
  by (simp add: wrap64_def int64_def min_int64_def max_int64_def)

lemma wrap64_add_left: "wrap64 (wrap64 a + b) = wrap64 (a + b)"
proof -
  have "wrap64 (wrap64 a + b) = ((a + 9223372036854775808) mod 18446744073709551616 + b) mod 18446744073709551616 - 9223372036854775808"
    by (simp add: wrap64_def)
  also have "\<dots> = wrap64 (a + b)"
    by (simp only: mod_add_left_eq wrap64_def) (simp add: algebra_simps)
  finally show ?thesis .
qed

text \<open>
  The calendar date in UTC of an instant, with instant 0 at the start of 1 January of year 1 (the
  zero \<^verbatim>\<open>time.Time\<close>): days are counted from 1 March of year 0 in 400-year cycles.
\<close>

definition day_ns :: godur where "day_ns = 86400000000000"

definition civil :: "gotime \<Rightarrow> int \<times> int \<times> int" where
  "civil t =
     (let z = t div day_ns + 306;
          era = z div 146097;
          doe = z mod 146097;
          yoe = (doe - doe div 1460 + doe div 36524 - doe div 146096) div 365;
          doy = doe - (365 * yoe + yoe div 4 - yoe div 100);
          mp = (5 * doy + 2) div 153;
          d = doy - (153 * mp + 2) div 5 + 1;
          m = (if mp < 10 then mp + 3 else mp - 9)
      in (era * 400 + yoe + (if m \<le> 2 then 1 else 0), m, d))"

definition year_month :: "int \<times> int \<times> int \<Rightarrow> int \<times> int" where
  "year_month c = (case c of (y, m, _) \<Rightarrow> (y, m))"

text \<open>\<^verbatim>\<open>t.Sub(u)\<close> saturates at the bounds of \<^verbatim>\<open>time.Duration\<close> (an \<^verbatim>\<open>int64\<close>).\<close>

definition time_sub :: "gotime \<Rightarrow> gotime \<Rightarrow> godur" where
  "time_sub t u = max min_int64 (min max_int64 (t - u))"

lemma time_sub_in_range [simp]:
  "min_int64 \<le> t - u \<Longrightarrow> t - u \<le> max_int64 \<Longrightarrow> time_sub t u = t - u"
  by (simp add: time_sub_def)

lemma time_sub_le: "0 \<le> d \<Longrightarrow> d \<le> time_sub t u \<Longrightarrow> d \<le> t - u"
  by (auto simp: time_sub_def min_int64_def max_int64_def min_def max_def split: if_splits)

lemma map_of_alist_update [simp]: "map_of (AList.update k v m) = (map_of m)(k \<mapsto> v)"
  by (rule update_conv')

lemma map_of_alist_delete [simp]: "map_of (AList.delete k m) = (map_of m)(k := None)"
  by (rule delete_conv')

lemma map_of_filter_key:
  "map_of (filter (\<lambda>(k, _). P k) m) k = (if P k then map_of m k else None)"
  by (induction m) auto

section \<open>Strings\<close>

text \<open>
  A Go string is a sequence of bytes, here a \<open>char list\<close>. \<^verbatim>\<open>fmt.Sprintf("%d", n)\<close> for a
  non-negative \<open>n\<close>, its digits most significant first.
\<close>

definition digit_char :: "nat \<Rightarrow> char" where
  "digit_char d = char_of (48 + d)"

fun dec_of_nat :: "nat \<Rightarrow> string" where
  "dec_of_nat n = (if n < 10 then [digit_char n] else dec_of_nat (n div 10) @ [digit_char (n mod 10)])"

declare dec_of_nat.simps [simp del]

definition dec_of_int :: "int \<Rightarrow> string" where
  "dec_of_int i = (if i < 0 then CHR ''-'' # dec_of_nat (nat (- i)) else dec_of_nat (nat i))"

text \<open>
  \<^verbatim>\<open>strings.ToLower\<close> lowers an ASCII-only string byte by byte and any other string through the
  Unicode case tables, which are the parameter \<open>ul\<close>.
\<close>

definition is_ascii :: "string \<Rightarrow> bool" where
  "is_ascii s = list_all (\<lambda>c. of_char c < (128::nat)) s"

definition ascii_lower :: "char \<Rightarrow> char" where
  "ascii_lower c = (let n = of_char c :: nat in if 65 \<le> n \<and> n \<le> 90 then char_of (n + 32) else c)"

definition ToLower :: "(string \<Rightarrow> string) \<Rightarrow> string \<Rightarrow> string" where
  "ToLower ul s = (if is_ascii s then map ascii_lower s else ul s)"

text \<open>\<^verbatim>\<open>strings.ToUpper\<close>, likewise.\<close>

definition ascii_upper :: "char \<Rightarrow> char" where
  "ascii_upper c = (let n = of_char c :: nat in if 97 \<le> n \<and> n \<le> 122 then char_of (n - 32) else c)"

definition ToUpper :: "(string \<Rightarrow> string) \<Rightarrow> string \<Rightarrow> string" where
  "ToUpper uu s = (if is_ascii s then map ascii_upper s else uu s)"

text \<open>
  \<^verbatim>\<open>strings.TrimSpace\<close>: the encodings of the code points for which \<^verbatim>\<open>unicode.IsSpace\<close> holds are
  removed at both ends. They are the six ASCII spaces and the UTF-8 encodings of U+0085, U+00A0,
  U+1680, U+2000 to U+200A, U+2028, U+2029, U+202F, U+205F and U+3000.
\<close>

definition space_seqs :: "string list" where
  "space_seqs =
     map (\<lambda>n. [char_of n]) [9, 10, 11, 12, 13, 32 :: nat]
     @ map (map char_of) [[0xC2, 0x85], [0xC2, 0xA0 :: nat]]
     @ map (map char_of) [[0xE1, 0x9A, 0x80], [0xE2, 0x80, 0xA8], [0xE2, 0x80, 0xA9],
          [0xE2, 0x80, 0xAF], [0xE2, 0x81, 0x9F], [0xE3, 0x80, 0x80 :: nat]]
     @ map (\<lambda>n. map char_of [0xE2, 0x80, n]) [0x80, 0x81, 0x82, 0x83, 0x84, 0x85, 0x86, 0x87,
          0x88, 0x89, 0x8A :: nat]"

definition strip_prefix :: "string \<Rightarrow> string \<Rightarrow> string option" where
  "strip_prefix p s = (if take (length p) s = p \<and> length p \<le> length s then Some (drop (length p) s) else None)"

fun first_some :: "('a \<Rightarrow> 'b option) \<Rightarrow> 'a list \<Rightarrow> 'b option" where
  "first_some f [] = None"
| "first_some f (x # xs) = (case f x of None \<Rightarrow> first_some f xs | Some y \<Rightarrow> Some y)"

lemma first_some_SomeD: "first_some f xs = Some y \<Longrightarrow> \<exists>x \<in> set xs. f x = Some y"
  by (induction xs) (auto split: option.splits)

lemma first_some_None: "first_some f xs = None \<longleftrightarrow> (\<forall>x \<in> set xs. f x = None)"
  by (induction xs) (auto split: option.splits)

lemma space_seqs_nonempty: "p \<in> set space_seqs \<Longrightarrow> p \<noteq> []"
  by (auto simp: space_seqs_def)

lemma strip_prefix_length: "strip_prefix p s = Some t \<Longrightarrow> p \<noteq> [] \<Longrightarrow> length t < length s"
  by (cases p) (auto simp: strip_prefix_def split: if_splits)

function trim_left :: "string list \<Rightarrow> string \<Rightarrow> string" where
  "trim_left seqs s =
     (case first_some (\<lambda>p. if p = [] then None else strip_prefix p s) seqs of
        None \<Rightarrow> s
      | Some t \<Rightarrow> trim_left seqs t)"
  by pat_completeness auto
termination
  by (relation "measure (\<lambda>(seqs, s). length s)")
    (auto dest!: first_some_SomeD dest: strip_prefix_length split: if_splits)

declare trim_left.simps [simp del]

definition TrimSpace :: "string \<Rightarrow> string" where
  "TrimSpace s = rev (trim_left (map rev space_seqs) (rev (trim_left space_seqs s)))"

definition blank :: "string \<Rightarrow> bool" where
  "blank s = (TrimSpace s = [])"

text \<open>A string that starts with a visible ASCII character is not blank.\<close>

definition visible :: "char \<Rightarrow> bool" where
  "visible c \<longleftrightarrow> 33 \<le> (of_char c :: nat) \<and> (of_char c :: nat) < 127"

lemma space_seqs_invisible: "p \<in> set space_seqs \<Longrightarrow> \<not> visible (hd p)"
  by (auto simp: space_seqs_def visible_def)

lemma trim_left_visible: "visible c \<Longrightarrow> trim_left space_seqs (c # s) = c # s"
proof -
  assume "visible c"
  then have "strip_prefix p (c # s) = None" if "p \<in> set space_seqs" "p \<noteq> []" for p
    using space_seqs_invisible [OF that(1)] that(2) by (cases p) (auto simp: strip_prefix_def)
  then have "first_some (\<lambda>p. if p = [] then None else strip_prefix p (c # s)) space_seqs = None"
    unfolding first_some_None by simp
  then show ?thesis by (subst trim_left.simps) simp
qed

lemma trim_left_keeps:
  assumes "s \<noteq> []" "\<And>p. p \<in> set seqs \<Longrightarrow> p \<noteq> [] \<Longrightarrow> last p \<noteq> last s"
  shows "trim_left seqs s \<noteq> []"
  using assms
proof (induction "length s" arbitrary: s rule: less_induct)
  case less
  show ?case
  proof (cases "first_some (\<lambda>p. if p = [] then None else strip_prefix p s) seqs")
    case None
    then show ?thesis using less.prems by (subst trim_left.simps) simp
  next
    case (Some t)
    then obtain p where p: "p \<in> set seqs" "p \<noteq> []" "strip_prefix p s = Some t"
      by (auto dest!: first_some_SomeD split: if_splits)
    then have st: "s = p @ t" by (auto simp: strip_prefix_def split: if_splits) (metis append_take_drop_id)
    then have "t \<noteq> []" using less.prems(2) [OF p(1,2)] by auto
    then have "trim_left seqs t \<noteq> []" using less.hyps [of t] less.prems(2) st p(2) by simp
    then show ?thesis using Some by (subst trim_left.simps) simp
  qed
qed

lemma visible_not_blank: "visible c \<Longrightarrow> \<not> blank (c # s)"
proof -
  assume c: "visible c"
  have "trim_left (map rev space_seqs) (rev (c # s)) \<noteq> []"
    by (rule trim_left_keeps) (use c space_seqs_invisible in \<open>force simp: last_rev\<close>)+
  then show ?thesis by (simp only: blank_def TrimSpace_def trim_left_visible [OF c] rev_is_Nil_conv not_False_eq_True)
qed

lemma space_seqs_end_invisible: "p \<in> set space_seqs \<Longrightarrow> \<not> visible (last p)"
  by (auto simp: space_seqs_def visible_def)

lemma trim_right_visible: "visible c \<Longrightarrow> trim_left (map rev space_seqs) (c # s) = c # s"
proof -
  assume c: "visible c"
  have "strip_prefix p (c # s) = None" if mem: "p \<in> set (map rev space_seqs)" and ne: "p \<noteq> []" for p
  proof -
    obtain a l where p: "p = a # l" using ne by (cases p) auto
    obtain q where q: "q \<in> set space_seqs" "p = rev q" using mem by auto
    have "a = last q" using p q(2) by (metis hd_rev list.sel(1))
    then show ?thesis using c space_seqs_end_invisible [OF q(1)] by (auto simp: strip_prefix_def p)
  qed
  then have "first_some (\<lambda>p. if p = [] then None else strip_prefix p (c # s)) (map rev space_seqs) = None"
    unfolding first_some_None by simp
  then show ?thesis by (subst trim_left.simps) simp
qed

lemma TrimSpace_visible:
  assumes "s \<noteq> []" "visible (hd s)" "visible (last s)"
  shows "TrimSpace s = s"
proof -
  obtain c t where s: "s = c # t" using assms(1) by (cases s) auto
  obtain d u where r: "rev s = d # u" "d = last s" using assms(1) by (metis hd_rev list.exhaust_sel rev_is_Nil_conv)
  have "trim_left space_seqs s = s" using trim_left_visible assms(2) s by simp
  moreover have "trim_left (map rev space_seqs) (rev s) = rev s" unfolding r using assms(3) by (intro trim_right_visible) simp
  ultimately show ?thesis by (simp add: TrimSpace_def)
qed

text \<open>Trimming is idempotent.\<close>

lemma trim_left_fixed:
  "(\<forall>p \<in> set seqs. p \<noteq> [] \<longrightarrow> strip_prefix p s = None) \<longleftrightarrow> first_some (\<lambda>p. if p = [] then None else strip_prefix p s) seqs = None"
  by (auto simp: first_some_None)

lemma trim_left_result: "(\<exists>x. s = x @ trim_left seqs s) \<and> (\<forall>p \<in> set seqs. p \<noteq> [] \<longrightarrow> strip_prefix p (trim_left seqs s) = None)"
proof (induction "length s" arbitrary: s rule: less_induct)
  case less
  show ?case
  proof (cases "first_some (\<lambda>p. if p = [] then None else strip_prefix p s) seqs")
    case None
    then have "trim_left seqs s = s" by (subst trim_left.simps) simp
    then show ?thesis using None by (simp add: trim_left_fixed)
  next
    case (Some t)
    then obtain p where p: "p \<noteq> []" "strip_prefix p s = Some t" by (auto dest!: first_some_SomeD split: if_splits)
    then have st: "s = p @ t" by (auto simp: strip_prefix_def split: if_splits) (metis append_take_drop_id)
    have "trim_left seqs s = trim_left seqs t" using Some by (subst trim_left.simps) simp
    moreover obtain x where "t = x @ trim_left seqs t" "\<forall>p \<in> set seqs. p \<noteq> [] \<longrightarrow> strip_prefix p (trim_left seqs t) = None"
      using less.hyps [of t] st p(1) by auto
    ultimately show ?thesis using st by (metis append.assoc)
  qed
qed

lemma trim_left_stays: "\<forall>p \<in> set seqs. p \<noteq> [] \<longrightarrow> strip_prefix p s = None \<Longrightarrow> trim_left seqs s = s"
  by (subst trim_left.simps) (simp add: trim_left_fixed)

lemma strip_prefix_shorter: "strip_prefix p (s @ t) = None \<Longrightarrow> strip_prefix p s = None"
  by (auto simp: strip_prefix_def split: if_splits)

lemma TrimSpace_idem [simp]: "TrimSpace (TrimSpace s) = TrimSpace s"
proof -
  define w where "w = trim_left space_seqs s"
  define x where "x = trim_left (map rev space_seqs) (rev w)"
  obtain y where "rev w = y @ x" using trim_left_result [of "rev w" "map rev space_seqs"] by (auto simp: x_def)
  then have w: "w = rev x @ rev y" by (metis rev_append rev_rev_ident)
  have "\<forall>p \<in> set space_seqs. p \<noteq> [] \<longrightarrow> strip_prefix p w = None" using trim_left_result [of s space_seqs] by (simp add: w_def)
  then have "\<forall>p \<in> set space_seqs. p \<noteq> [] \<longrightarrow> strip_prefix p (rev x) = None" unfolding w using strip_prefix_shorter by blast
  then have l: "trim_left space_seqs (rev x) = rev x" by (rule trim_left_stays)
  have "trim_left (map rev space_seqs) x = x" using trim_left_result [of "rev w" "map rev space_seqs"] by (intro trim_left_stays) (simp add: x_def)
  then show ?thesis by (simp add: TrimSpace_def w_def [symmetric] x_def [symmetric] l)
qed

text \<open>\<^verbatim>\<open>strings.Split\<close> at one character.\<close>

fun split_on :: "char \<Rightarrow> string \<Rightarrow> string list" where
  "split_on d [] = [[]]"
| "split_on d (c # s) =
     (if c = d then [] # split_on d s
      else case split_on d s of [] \<Rightarrow> [[c]] | w # ws \<Rightarrow> (c # w) # ws)"

section \<open>Hexadecimal\<close>

definition hex_digit :: "nat \<Rightarrow> char" where
  "hex_digit n = (if n < 10 then char_of (48 + n) else char_of (87 + n))"

definition from_hex_char :: "char \<Rightarrow> nat option" where
  "from_hex_char c = (let n = of_char c :: nat in
     if 48 \<le> n \<and> n \<le> 57 then Some (n - 48)
     else if 97 \<le> n \<and> n \<le> 102 then Some (n - 87)
     else if 65 \<le> n \<and> n \<le> 70 then Some (n - 55)
     else None)"

definition hex_byte :: "byte \<Rightarrow> string" where
  "hex_byte b = [hex_digit (unat b div 16), hex_digit (unat b mod 16)]"

definition hex_EncodeToString :: "byte list \<Rightarrow> string" where
  "hex_EncodeToString bs = concat (map hex_byte bs)"

fun hex_DecodeString :: "string \<Rightarrow> byte list option" where
  "hex_DecodeString [] = Some []"
| "hex_DecodeString [c] = None"
| "hex_DecodeString (c # d # s) =
     (case (from_hex_char c, from_hex_char d) of
        (Some a, Some b) \<Rightarrow> map_option (\<lambda>bs. of_nat (16 * a + b) # bs) (hex_DecodeString s)
      | _ \<Rightarrow> None)"

section \<open>Lemmas on the library functions\<close>

lemma digit_char_inj: "a < 10 \<Longrightarrow> b < 10 \<Longrightarrow> digit_char a = digit_char b \<Longrightarrow> a = b"
  by (auto simp: digit_char_def dest!: arg_cong [where f = "of_char :: char \<Rightarrow> nat"])

lemma dec_of_nat_nonempty [simp]: "dec_of_nat n \<noteq> []" "[] \<noteq> dec_of_nat n"
  by (subst dec_of_nat.simps, simp)+

lemma dec_of_nat_inj: "dec_of_nat a = dec_of_nat b \<Longrightarrow> a = b"
proof (induction a arbitrary: b rule: dec_of_nat.induct)
  case (1 a)
  show ?case
  proof (cases "a < 10")
    case True
    with 1(2) show ?thesis
      by (subst (asm) dec_of_nat.simps [of a], subst (asm) dec_of_nat.simps [of b])
        (auto split: if_splits dest: digit_char_inj)
  next
    case False
    with 1(2) have b: "\<not> b < 10" and eq: "dec_of_nat (a div 10) = dec_of_nat (b div 10)"
      and d: "digit_char (a mod 10) = digit_char (b mod 10)"
      by (subst (asm) dec_of_nat.simps [of a], subst (asm) dec_of_nat.simps [of b], auto split: if_splits)+
    from 1(1) [OF False eq] digit_char_inj [OF _ _ d] show ?thesis
      by (metis div_mult_mod_eq mod_less_divisor zero_less_numeral)
  qed
qed

lemma from_hex_digit [simp]: "n < 16 \<Longrightarrow> from_hex_char (hex_digit n) = Some n"
  by (auto simp: from_hex_char_def hex_digit_def Let_def)

lemma hex_roundtrip [simp]: "hex_DecodeString (hex_EncodeToString bs) = Some bs"
proof (induction bs)
  case Nil
  show ?case by (simp add: hex_EncodeToString_def)
next
  case (Cons b bs)
  have "unat b < 256" using unsigned_less [of b, where 'a = nat] by simp
  then have "unat b div 16 < 16" by simp
  with Cons show ?case
    by (simp add: hex_EncodeToString_def hex_byte_def)
qed

lemma hex_encode_inj: "hex_EncodeToString a = hex_EncodeToString b \<Longrightarrow> a = b"
  by (metis hex_roundtrip option.inject)

lemma length_hex [simp]: "length (hex_EncodeToString bs) = 2 * length bs"
  by (induction bs) (auto simp: hex_EncodeToString_def hex_byte_def)

definition lower_hex_char :: "char \<Rightarrow> bool" where
  "lower_hex_char c = (let n = of_char c :: nat in (48 \<le> n \<and> n \<le> 57) \<or> (97 \<le> n \<and> n \<le> 102))"

lemma lower_hex_digit [simp]: "n < 16 \<Longrightarrow> lower_hex_char (hex_digit n)"
  by (auto simp: lower_hex_char_def hex_digit_def Let_def)

lemma lower_hex_encode: "list_all lower_hex_char (hex_EncodeToString bs)"
proof (induction bs)
  case Nil
  show ?case by (simp add: hex_EncodeToString_def)
next
  case (Cons b bs)
  have "unat b < 256" using unsigned_less [of b, where 'a = nat] by simp
  then have "unat b div 16 < 16" by simp
  with Cons show ?case by (simp add: hex_EncodeToString_def hex_byte_def)
qed

end
