(* ===== verification/Merkle_Tree.thy ===== *)
theory Merkle_Tree
  imports Helm_Prelude
begin

text \<open>
  The Merkle tree of the transparency log, \<^verbatim>\<open>core/pkg/translog/hash.go\<close> and the path functions of
  \<^verbatim>\<open>proof.go\<close>: leaf and node hashes, tree heads, audit paths, consistency paths and the two
  verification loops. SHA-256 is the parameter \<open>H\<close>. The lemmas relate the loops, which walk from
  the leaf to the root over the bits of an index, to the recursive shape of the tree.
\<close>

section \<open>Hashes and tree heads (hash.go)\<close>

type_synonym hash = "byte list"
type_synonym sha = "byte list \<Rightarrow> hash"

definition HashSize :: nat where "HashSize = 32"

definition LeafHash :: "sha \<Rightarrow> byte list \<Rightarrow> hash" where
  "LeafHash H leafInput = H (0 # leafInput)"

definition NodeHash :: "sha \<Rightarrow> hash \<Rightarrow> hash \<Rightarrow> hash" where
  "NodeHash H left right = H (1 # left @ right)"

definition EmptyRoot :: "sha \<Rightarrow> hash" where
  "EmptyRoot H = H []"

text \<open>
  The doubling loop. Its counter starts at 1 and stays positive; \<open>largestPowerOfTwoBelow_u64\<close> is
  the same loop on 64-bit words, where the shift wraps around.
\<close>

function lp2_loop :: "nat \<Rightarrow> nat \<Rightarrow> nat" where
  "lp2_loop k n = (if 0 < k \<and> 2 * k < n then lp2_loop (2 * k) n else k)"
  by pat_completeness auto
termination
  by (relation "measure (\<lambda>(k, n). n - k)") auto

declare lp2_loop.simps [simp del]

definition largestPowerOfTwoBelow :: "nat \<Rightarrow> nat" where
  "largestPowerOfTwoBelow n = lp2_loop 1 n"

partial_function (option) lp2_loop_u64 :: "64 word \<Rightarrow> 64 word \<Rightarrow> 64 word option" where
  "lp2_loop_u64 k n =
     (if push_bit 1 k < n then lp2_loop_u64 (push_bit 1 k) n else Some k)"

definition largestPowerOfTwoBelow_u64 :: "64 word \<Rightarrow> 64 word option" where
  "largestPowerOfTwoBelow_u64 n = lp2_loop_u64 1 n"

lemma lp2_loop_bounds: "0 < k \<Longrightarrow> k < n \<Longrightarrow> k \<le> lp2_loop k n \<and> lp2_loop k n < n \<and> n \<le> 2 * lp2_loop k n"
proof (induction k n rule: lp2_loop.induct)
  case (1 k n)
  show ?case
  proof (cases "2 * k < n")
    case True
    with 1 show ?thesis by (subst (1 2 3) lp2_loop.simps) force
  next
    case False
    with 1 show ?thesis by (simp add: lp2_loop.simps)
  qed
qed

lemma lp2_bounds:
  assumes "1 < n"
  shows "0 < largestPowerOfTwoBelow n" "largestPowerOfTwoBelow n < n" "n \<le> 2 * largestPowerOfTwoBelow n"
  using lp2_loop_bounds [of 1 n] assms by (auto simp: largestPowerOfTwoBelow_def)

text \<open>
  \<open>subtreeRoot\<close> is called on non-empty ranges within the leaves only; an empty range, on which the
  source's recursion does not end, is read as a single leaf.
\<close>

function subtreeRoot :: "sha \<Rightarrow> hash list \<Rightarrow> nat \<Rightarrow> nat \<Rightarrow> hash" where
  "subtreeRoot H leafHashes lo hi =
     (let n = hi - lo in
      if n \<le> 1 then leafHashes ! lo
      else let k = largestPowerOfTwoBelow n in
        NodeHash H (subtreeRoot H leafHashes lo (lo + k)) (subtreeRoot H leafHashes (lo + k) hi))"
  by pat_completeness auto
termination
proof (relation "measure (\<lambda>(H, D, lo, hi). hi - lo)", goal_cases)
  case 1
  show ?case by simp
next
  case (2 H D lo hi n k)
  then show ?case using lp2_bounds [of "hi - lo"] by simp
next
  case (3 H D lo hi n k)
  then show ?case using lp2_bounds(1,2) [of "hi - lo"] by simp
qed

declare subtreeRoot.simps [simp del]

definition RootFromLeafHashes :: "sha \<Rightarrow> hash list \<Rightarrow> hash" where
  "RootFromLeafHashes H leafHashes =
     (let n = length leafHashes in
      if n = 0 then EmptyRoot H else subtreeRoot H leafHashes 0 n)"

section \<open>Paths (proof.go)\<close>

function inclusionPath :: "sha \<Rightarrow> hash list \<Rightarrow> nat \<Rightarrow> nat \<Rightarrow> nat \<Rightarrow> hash list" where
  "inclusionPath H leafHashes m lo hi =
     (let n = hi - lo in
      if n \<le> 1 then []
      else let k = largestPowerOfTwoBelow n in
        if m < lo + k
        then inclusionPath H leafHashes m lo (lo + k) @ [subtreeRoot H leafHashes (lo + k) hi]
        else inclusionPath H leafHashes m (lo + k) hi @ [subtreeRoot H leafHashes lo (lo + k)])"
  by pat_completeness auto
termination
proof (relation "measure (\<lambda>(H, D, m, lo, hi). hi - lo)", goal_cases)
  case 1
  show ?case by simp
next
  case (2 H D m lo hi n k)
  then show ?case using lp2_bounds [of "hi - lo"] by simp
next
  case (3 H D m lo hi n k)
  then show ?case using lp2_bounds(1,2) [of "hi - lo"] by simp
qed

declare inclusionPath.simps [simp del]

text \<open>
  The boundary \<open>m\<close> lies in the range, \<open>lo < m \<le> hi\<close>, in every call; the stop at a single leaf, where
  then \<open>m = hi\<close>, makes the recursion total.
\<close>

function consistencySubproof :: "sha \<Rightarrow> hash list \<Rightarrow> nat \<Rightarrow> nat \<Rightarrow> nat \<Rightarrow> bool \<Rightarrow> hash list" where
  "consistencySubproof H leafHashes m lo hi complete =
     (if m = hi \<or> hi - lo \<le> 1 then
        (if complete then [] else [subtreeRoot H leafHashes lo hi])
      else let k = largestPowerOfTwoBelow (hi - lo) in
        if m \<le> lo + k
        then consistencySubproof H leafHashes m lo (lo + k) complete @ [subtreeRoot H leafHashes (lo + k) hi]
        else consistencySubproof H leafHashes m (lo + k) hi False @ [subtreeRoot H leafHashes lo (lo + k)])"
  by pat_completeness auto
termination
proof (relation "measure (\<lambda>(H, D, m, lo, hi, c). hi - lo)", goal_cases)
  case 1
  show ?case by simp
next
  case (2 H D m lo hi complete k)
  then show ?case using lp2_bounds [of "hi - lo"] by simp
next
  case (3 H D m lo hi complete k)
  then show ?case using lp2_bounds(1,2) [of "hi - lo"] by simp
qed

declare consistencySubproof.simps [simp del]

section \<open>Verification loops (proof.go)\<close>

datatype translog_error =
    NilProof | EmptyTree | SizeOutOfRange | IndexOutOfRange
  | BadLeafHash | BadRoot | BadOldRoot | BadNewRoot | BadPath
  | PathTooLong | PathTooShort | RootMismatch
  | NonEmptyPathEqualSizes | Equivocation | EmptyPathGrowing
  | OldRootMismatch | NewRootMismatch
  | CorruptJournal nat | JournalIO
  | NilSTH | UnsignedSTH | CanonFailed | SignFailed | VerifyFailed | BadSignature

text \<open>The inner loop \<^verbatim>\<open>for fn%2 == 0 && fn != 0\<close> and the loop \<^verbatim>\<open>for fn%2 == 1\<close>.\<close>

function strip_even :: "nat \<Rightarrow> nat \<Rightarrow> nat \<times> nat" where
  "strip_even fn sn = (if even fn \<and> fn \<noteq> 0 then strip_even (fn div 2) (sn div 2) else (fn, sn))"
  by pat_completeness auto
termination
  by (relation "measure (\<lambda>(fn, sn). fn)") auto

declare strip_even.simps [simp del]

function strip_odd :: "nat \<Rightarrow> nat \<Rightarrow> nat \<times> nat" where
  "strip_odd fn sn = (if odd fn then strip_odd (fn div 2) (sn div 2) else (fn, sn))"
  by pat_completeness auto
termination
  by (relation "measure (\<lambda>(fn, sn). fn)") (auto simp: odd_pos)

declare strip_odd.simps [simp del]

fun inclusion_loop :: "sha \<Rightarrow> nat \<Rightarrow> nat \<Rightarrow> hash \<Rightarrow> hash list \<Rightarrow> (translog_error, nat \<times> nat \<times> hash) res" where
  "inclusion_loop H fn sn r [] = Ok (fn, sn, r)"
| "inclusion_loop H fn sn r (p # path) =
     (if sn = 0 then Err PathTooLong
      else if odd fn \<or> fn = sn then
        (let (fn', sn') = (if even fn then strip_even fn sn else (fn, sn))
         in inclusion_loop H (fn' div 2) (sn' div 2) (NodeHash H p r) path)
      else inclusion_loop H (fn div 2) (sn div 2) (NodeHash H r p) path)"

fun consistency_loop ::
  "sha \<Rightarrow> nat \<Rightarrow> nat \<Rightarrow> hash \<Rightarrow> hash \<Rightarrow> hash list \<Rightarrow> (translog_error, nat \<times> nat \<times> hash \<times> hash) res" where
  "consistency_loop H fn sn fr sr [] = Ok (fn, sn, fr, sr)"
| "consistency_loop H fn sn fr sr (p # path) =
     (if sn = 0 then Err PathTooLong
      else if odd fn \<or> fn = sn then
        (let (fn', sn') = (if even fn then strip_even fn sn else (fn, sn))
         in consistency_loop H (fn' div 2) (sn' div 2) (NodeHash H p fr) (NodeHash H p sr) path)
      else consistency_loop H (fn div 2) (sn div 2) fr (NodeHash H sr p) path)"

section \<open>The loops as walks\<close>

text \<open>
  A walk is a list of sides, \<open>True\<close> where the sibling is on the left. \<open>walk fn sn ds\<close> is the
  position the loops reach from \<open>(fn, sn)\<close> when each iteration combines on the side given by \<open>ds\<close>.
\<close>

definition on_left :: "nat \<Rightarrow> nat \<Rightarrow> bool" where
  "on_left fn sn = (odd fn \<or> fn = sn)"

definition next_pos :: "nat \<Rightarrow> nat \<Rightarrow> nat \<times> nat" where
  "next_pos fn sn =
     (let (fn', sn') = (if on_left fn sn \<and> even fn then strip_even fn sn else (fn, sn))
      in (fn' div 2, sn' div 2))"

fun walk :: "nat \<Rightarrow> nat \<Rightarrow> bool list \<Rightarrow> (nat \<times> nat) option" where
  "walk fn sn [] = Some (fn, sn)"
| "walk fn sn (d # ds) =
     (if sn = 0 \<or> d \<noteq> on_left fn sn then None
      else case next_pos fn sn of (fn', sn') \<Rightarrow> walk fn' sn' ds)"

fun climb :: "sha \<Rightarrow> hash \<Rightarrow> bool list \<Rightarrow> hash list \<Rightarrow> hash" where
  "climb H r (d # ds) (p # ps) = climb H (if d then NodeHash H p r else NodeHash H r p) ds ps"
| "climb H r _ _ = r"

fun climb_old :: "sha \<Rightarrow> hash \<Rightarrow> bool list \<Rightarrow> hash list \<Rightarrow> hash" where
  "climb_old H r (d # ds) (p # ps) = climb_old H (if d then NodeHash H p r else r) ds ps"
| "climb_old H r _ _ = r"

lemma walk_append:
  "walk fn sn (ds @ es) = (case walk fn sn ds of None \<Rightarrow> None | Some (f, s) \<Rightarrow> walk f s es)"
  by (induction fn sn ds rule: walk.induct) (auto split: prod.splits)

lemma climb_append:
  "length ds = length ps \<Longrightarrow> climb H r (ds @ es) (ps @ qs) = climb H (climb H r ds ps) es qs"
  by (induction H r ds ps rule: climb.induct) auto

lemma climb_old_append:
  "length ds = length ps \<Longrightarrow> climb_old H r (ds @ es) (ps @ qs) = climb_old H (climb_old H r ds ps) es qs"
  by (induction H r ds ps rule: climb_old.induct) auto

lemma inclusion_loop_walk:
  "walk fn sn ds = Some (f, s) \<Longrightarrow> length ds = length path \<Longrightarrow>
   inclusion_loop H fn sn r path = Ok (f, s, climb H r ds path)"
proof (induction fn sn ds arbitrary: path r rule: walk.induct)
  case (1 fn sn)
  then show ?case by simp
next
  case (2 fn sn d ds)
  from "2.prems"(2) obtain p ps where path: "path = p # ps" "length ds = length ps"
    by (cases path) auto
  from "2.prems"(1) have sn: "sn \<noteq> 0" and d: "d = on_left fn sn" by (auto split: if_splits)
  obtain f' s' where np: "next_pos fn sn = (f', s')" by fastforce
  have w: "walk f' s' ds = Some (f, s)" using "2.prems"(1) sn d np by simp
  have "inclusion_loop H f' s' (if d then NodeHash H p r else NodeHash H r p) ps
        = Ok (f, s, climb H (if d then NodeHash H p r else NodeHash H r p) ds ps)"
    using "2.IH" [OF _ np [symmetric] w path(2)] sn d by auto
  with sn np show ?case
    by (auto simp: path d on_left_def next_pos_def split: prod.splits if_splits)
qed

lemma inclusion_loop_append:
  "inclusion_loop H fn sn r (ps @ qs) =
     (case inclusion_loop H fn sn r ps of Inl e \<Rightarrow> Err e | Inr (f, s, r') \<Rightarrow> inclusion_loop H f s r' qs)"
  by (induction H fn sn r ps rule: inclusion_loop.induct) (auto split: prod.splits)

lemma consistency_loop_append:
  "consistency_loop H fn sn fr sr (ps @ qs) =
     (case consistency_loop H fn sn fr sr ps of
        Inl e \<Rightarrow> Err e | Inr (f, s, fr', sr') \<Rightarrow> consistency_loop H f s fr' sr' qs)"
  by (induction H fn sn fr sr ps rule: consistency_loop.induct) (auto split: prod.splits)

lemma consistency_loop_walk:
  "walk fn sn ds = Some (f, s) \<Longrightarrow> length ds = length path \<Longrightarrow>
   consistency_loop H fn sn fr sr path = Ok (f, s, climb_old H fr ds path, climb H sr ds path)"
proof (induction fn sn ds arbitrary: path fr sr rule: walk.induct)
  case (1 fn sn)
  then show ?case by simp
next
  case (2 fn sn d ds)
  from "2.prems"(2) obtain p ps where path: "path = p # ps" "length ds = length ps"
    by (cases path) auto
  from "2.prems"(1) have sn: "sn \<noteq> 0" and d: "d = on_left fn sn" by (auto split: if_splits)
  obtain f' s' where np: "next_pos fn sn = (f', s')" by fastforce
  have w: "walk f' s' ds = Some (f, s)" using "2.prems"(1) sn d np by simp
  note IH = "2.IH" [OF _ np [symmetric] w path(2)]
  from sn np IH [of "if d then NodeHash H p fr else fr" "if d then NodeHash H p sr else NodeHash H sr p"]
  show ?case
    by (auto simp: path d on_left_def next_pos_def split: prod.splits if_splits)
qed

text \<open>A completed walk fixes the length of an accepted path.\<close>

lemma inclusion_loop_length:
  assumes w: "walk fn sn ds = Some (0, 0)" and l: "inclusion_loop H fn sn r path = Ok (f, 0, r')"
  shows "length path = length ds"
proof (rule ccontr)
  assume neq: "length path \<noteq> length ds"
  show False
  proof (cases "length path < length ds")
    case True
    define ext where "ext = replicate (length ds - length path) ([] :: hash)"
    from True have "length (path @ ext) = length ds" and ext: "ext \<noteq> []" by (auto simp: ext_def)
    with w have "\<exists>x. inclusion_loop H fn sn r (path @ ext) = Ok x"
      by (metis inclusion_loop_walk)
    with l ext show False
      by (cases ext) (auto simp: inclusion_loop_append)
  next
    case False
    define ps where "ps = take (length ds) path"
    define qs where "qs = drop (length ds) path"
    have path: "path = ps @ qs" by (simp add: ps_def qs_def)
    from False neq have "length ds = length ps" and qs: "qs \<noteq> []" by (auto simp: ps_def qs_def)
    with w have "inclusion_loop H fn sn r ps = Ok (0, 0, climb H r ds ps)"
      by (simp add: inclusion_loop_walk)
    with l qs show False
      by (cases qs) (auto simp: path inclusion_loop_append)
  qed
qed

lemma consistency_loop_length:
  assumes w: "walk fn sn ds = Some (0, 0)" and l: "consistency_loop H fn sn fr sr path = Ok (f, 0, r')"
  shows "length path = length ds"
proof (rule ccontr)
  assume neq: "length path \<noteq> length ds"
  show False
  proof (cases "length path < length ds")
    case True
    define ext where "ext = replicate (length ds - length path) ([] :: hash)"
    from True have "length (path @ ext) = length ds" and ext: "ext \<noteq> []" by (auto simp: ext_def)
    with w have "\<exists>x. consistency_loop H fn sn fr sr (path @ ext) = Ok x"
      by (metis consistency_loop_walk)
    with l ext show False
      by (cases ext; cases r') (auto simp: consistency_loop_append)
  next
    case False
    define ps where "ps = take (length ds) path"
    define qs where "qs = drop (length ds) path"
    have path: "path = ps @ qs" by (simp add: ps_def qs_def)
    from False neq have "length ds = length ps" and qs: "qs \<noteq> []" by (auto simp: ps_def qs_def)
    with w have "consistency_loop H fn sn fr sr ps = Ok (0, 0, climb_old H fr ds ps, climb H sr ds ps)"
      by (simp add: consistency_loop_walk)
    with l qs show False
      by (cases qs) (auto simp: path consistency_loop_append)
  qed
qed

end
