(* ===== verification/Merkle_Paths.thy ===== *)
theory Merkle_Paths
  imports Merkle_Tree
begin

text \<open>
  The sides of an audit path and of a consistency path, read off the recursive shape of the tree,
  and the proof that the verification loops of \<^verbatim>\<open>core/pkg/translog/proof.go\<close> walk exactly these
  sides. Completeness of the loops is a computation along the path; soundness is the injectivity
  of the node hash on the nodes that the tree and the loop hash.
\<close>

section \<open>Powers of two\<close>

lemma one_less_double_pow2 [simp]: "Suc 0 < 2 * 2 ^ d"
  by (induction d) auto

lemma lp2_loop_pow2: "k = 2 ^ d \<Longrightarrow> \<exists>e. lp2_loop k n = 2 ^ e"
proof (induction k n arbitrary: d rule: lp2_loop.induct)
  case (1 k n)
  show ?case
  proof (cases "0 < k \<and> 2 * k < n")
    case True
    then have "lp2_loop k n = lp2_loop (2 * k) n" by (simp add: lp2_loop.simps [of k n])
    with True "1.IH" [of "Suc d"] "1.prems" show ?thesis by simp
  next
    case False
    then have "lp2_loop k n = k" by (subst lp2_loop.simps) auto
    then show ?thesis using "1.prems" by blast
  qed
qed

lemma lp2_pow2: "\<exists>e. largestPowerOfTwoBelow n = 2 ^ e"
  using lp2_loop_pow2 [of 1 0 n] by (simp add: largestPowerOfTwoBelow_def)

lemma lp2_unique:
  assumes "1 < n" and "2 ^ d < n" and "n \<le> 2 ^ Suc d"
  shows "largestPowerOfTwoBelow n = 2 ^ d"
proof -
  obtain e where e: "largestPowerOfTwoBelow n = 2 ^ e" using lp2_pow2 by blast
  from lp2_bounds [OF assms(1)] e have b: "2 ^ e < n" "n \<le> 2 ^ Suc e" by simp_all
  from b(1) assms(3) have "(2::nat) ^ e < 2 ^ Suc d" by linarith
  then have "e \<le> d" by (simp only: power_strict_increasing_iff less_Suc_eq_le)
  moreover from b(2) assms(2) have "(2::nat) ^ d < 2 ^ Suc e" by linarith
  then have "d \<le> e" by (simp only: power_strict_increasing_iff less_Suc_eq_le)
  ultimately show ?thesis using e by simp
qed

lemma lp2_of_pow2: "largestPowerOfTwoBelow (2 ^ Suc d) = 2 ^ d"
  by (rule lp2_unique) simp_all

section \<open>Sides of an audit path\<close>

function sides :: "nat \<Rightarrow> nat \<Rightarrow> bool list" where
  "sides m n =
     (if n \<le> 1 then []
      else let k = largestPowerOfTwoBelow n in
        if m < k then sides m k @ [False] else sides (m - k) (n - k) @ [True])"
  by pat_completeness auto
termination
proof (relation "measure snd", goal_cases)
  case (2 m n k)
  then show ?case using lp2_bounds(2) [of n] by simp
next
  case (3 m n k)
  then show ?case using lp2_bounds(1) [of n] by simp
qed simp

declare sides.simps [simp del]

definition low_bits :: "nat \<Rightarrow> nat \<Rightarrow> bool list" where
  "low_bits d m = map (\<lambda>i. odd (m div 2 ^ i)) [0..<d]"

lemma low_bits_0 [simp]: "low_bits 0 m = []"
  by (simp add: low_bits_def)

lemma low_bits_Suc: "low_bits (Suc d) m = odd m # low_bits d (m div 2)"
  by (simp add: low_bits_def upt_conv_Cons map_Suc_upt [symmetric] div_mult2_eq del: upt_Suc)

lemma low_bits_snoc: "low_bits (Suc d) m = low_bits d m @ [odd (m div 2 ^ d)]"
  by (simp add: low_bits_def)

lemma low_bits_add: "low_bits d (m + 2 ^ d) = low_bits d m"
proof -
  have "odd ((m + 2 ^ d) div 2 ^ i) = odd (m div 2 ^ i)" if "i < d" for i
  proof -
    from that obtain j where d: "d = i + Suc j" using less_imp_Suc_add by auto
    have "(m + 2 ^ d) div 2 ^ i = m div 2 ^ i + 2 ^ Suc j"
      using div_mult_self2 [of "2 ^ i" m "2 ^ Suc j"] by (simp add: d power_add algebra_simps)
    then show ?thesis by simp
  qed
  then show ?thesis by (simp add: low_bits_def)
qed

lemma sides_complete: "m < 2 ^ d \<Longrightarrow> sides m (2 ^ d) = low_bits d m"
proof (induction d arbitrary: m)
  case 0
  then show ?case by (simp add: sides.simps)
next
  case (Suc d)
  have k: "largestPowerOfTwoBelow (2 * 2 ^ d) = 2 ^ d" using lp2_of_pow2 [of d] by simp
  have n: "\<not> (2 * 2 ^ d \<le> (1::nat))" by (simp add: not_le)
  show ?case
  proof (cases "m < 2 ^ d")
    case True
    with Suc.IH [of m] show ?thesis
      by (simp add: sides.simps [of m "2 * 2 ^ d"] k low_bits_snoc Let_def n)
  next
    case False
    define q where "q = m - 2 ^ d"
    have q: "m = q + 2 ^ d" "q < 2 ^ d" using False Suc.prems by (simp_all add: q_def)
    have "m div 2 ^ d = 1" by (rule div_nat_eqI) (use q in auto)
    then have "odd (m div 2 ^ d)" by simp
    moreover have "sides m (2 * 2 ^ d) = sides q (2 ^ d) @ [True]"
      using q by (subst sides.simps) (simp add: k Let_def n)
    ultimately show ?thesis using q Suc.IH [of q] by (simp add: low_bits_snoc low_bits_add)
  qed
qed

lemma walk_low_bits:
  "m < 2 ^ d \<Longrightarrow> 2 ^ d \<le> N \<Longrightarrow> N < 2 ^ Suc d \<Longrightarrow> walk m N (low_bits d m) = Some (0, 1)"
proof (induction d arbitrary: m N)
  case 0
  then show ?case by simp
next
  case (Suc d)
  from Suc.prems have neq: "m \<noteq> N" and pos: "N \<noteq> 0" by auto
  have np: "next_pos m N = (m div 2, N div 2)"
    using neq by (auto simp: next_pos_def on_left_def)
  from Suc.prems have "m div 2 < 2 ^ d" "2 ^ d \<le> N div 2" "N div 2 < 2 ^ Suc d" by auto
  then have "walk (m div 2) (N div 2) (low_bits d (m div 2)) = Some (0, 1)"
    by (rule Suc.IH)
  with neq pos np show ?case by (simp add: low_bits_Suc on_left_def)
qed

lemma strip_even_add:
  "0 < m \<Longrightarrow> m < 2 ^ d \<Longrightarrow>
   \<exists>z q. z < d \<and> q < 2 ^ (d - z) \<and> odd q \<and> strip_even m m = (q, q) \<and>
         strip_even (m + 2 ^ d) (m + 2 ^ d) = (q + 2 ^ (d - z), q + 2 ^ (d - z))"
proof (induction m arbitrary: d rule: less_induct)
  case (less m)
  then obtain e where d: "d = Suc e" by (cases d) auto
  show ?case
  proof (cases "odd m")
    case True
    with less.prems d show ?thesis
      by (intro exI [of _ 0] exI [of _ m]) (auto simp: strip_even.simps)
  next
    case False
    with less.prems have "0 < m div 2" "m div 2 < m" "m div 2 < 2 ^ e" by (auto simp: d elim: evenE)
    then obtain z q where zq: "z < e" "q < 2 ^ (e - z)" "odd q" "strip_even (m div 2) (m div 2) = (q, q)"
        "strip_even (m div 2 + 2 ^ e) (m div 2 + 2 ^ e) = (q + 2 ^ (e - z), q + 2 ^ (e - z))"
      using less.IH by blast
    have "(m + 2 ^ d) div 2 = m div 2 + 2 ^ e" using False by (simp add: d)
    with False less.prems zq show ?thesis
      by (intro exI [of _ "Suc z"] exI [of _ q])
        (auto simp: d strip_even.simps [of m] strip_even.simps [of "m + 2 * 2 ^ e"])
  qed
qed

lemma next_pos_add:
  assumes "m \<le> N" "N < 2 ^ d" "N \<noteq> 0"
  shows "\<exists>e f s. e < d \<and> next_pos m N = (f, s) \<and> f \<le> s \<and> s < 2 ^ e \<and>
           next_pos (m + 2 ^ d) (N + 2 ^ d) = (f + 2 ^ e, s + 2 ^ e) \<and>
           on_left (m + 2 ^ d) (N + 2 ^ d) = on_left m N"
proof -
  from assms obtain c where d: "d = Suc c" by (cases d) auto
  have ol: "on_left (m + 2 ^ d) (N + 2 ^ d) = on_left m N" by (auto simp: on_left_def d)
  show ?thesis
  proof (cases "m = N \<and> even m")
    case False
    then have "next_pos m N = (m div 2, N div 2)"
      by (auto simp: next_pos_def on_left_def)
    moreover from False have "next_pos (m + 2 ^ d) (N + 2 ^ d) = (m div 2 + 2 ^ c, N div 2 + 2 ^ c)"
      by (auto simp: next_pos_def on_left_def d)
    moreover have "m div 2 \<le> N div 2" "N div 2 < 2 ^ c" using assms by (auto simp: d div_le_mono)
    ultimately show ?thesis using ol d by blast
  next
    case True
    with assms have "0 < N" "N < 2 ^ d" by auto
    from strip_even_add [OF this] obtain z q where zq: "z < d" "q < 2 ^ (d - z)" "odd q"
        "strip_even N N = (q, q)"
        "strip_even (N + 2 ^ d) (N + 2 ^ d) = (q + 2 ^ (d - z), q + 2 ^ (d - z))" by blast
    define e where "e = d - Suc z"
    from zq(1) have dz: "d - z = Suc e" by (simp add: e_def)
    from True have mN: "m = N" "even N" by auto
    have half: "(q + 2 ^ (d - z)) div 2 = q div 2 + 2 ^ e" by (simp add: dz)
    from mN zq have "next_pos m N = (q div 2, q div 2)"
      by (simp add: next_pos_def on_left_def)
    moreover from mN zq have "next_pos (m + 2 ^ d) (N + 2 ^ d) = (q div 2 + 2 ^ e, q div 2 + 2 ^ e)"
      using half d by (simp add: next_pos_def on_left_def del: One_nat_def)
    moreover have "q div 2 < 2 ^ e" using zq(2) dz by auto
    moreover have "e < d" using zq(1) by (simp add: e_def)
    ultimately show ?thesis using ol by blast
  qed
qed

lemma walk_add:
  "walk m N ds = Some (f, s) \<Longrightarrow> m \<le> N \<Longrightarrow> N < 2 ^ d \<Longrightarrow>
   \<exists>e. f \<le> s \<and> s < 2 ^ e \<and> walk (m + 2 ^ d) (N + 2 ^ d) ds = Some (f + 2 ^ e, s + 2 ^ e)"
proof (induction ds arbitrary: m N d)
  case Nil
  then show ?case by auto
next
  case (Cons x ds)
  then have N: "N \<noteq> 0" and x: "x = on_left m N" by (auto split: if_splits)
  from next_pos_add [OF Cons.prems(2,3) N] obtain e f' s' where np:
    "next_pos m N = (f', s')" "f' \<le> s'" "s' < 2 ^ e"
    "next_pos (m + 2 ^ d) (N + 2 ^ d) = (f' + 2 ^ e, s' + 2 ^ e)"
    "on_left (m + 2 ^ d) (N + 2 ^ d) = on_left m N" by blast
  with Cons.prems(1) N x have "walk f' s' ds = Some (f, s)" by simp
  from Cons.IH [OF this np(2,3)] np N x show ?case by simp
qed

lemma walk_pow2: "walk (2 ^ e) (2 ^ e) [True] = Some (0, 0)"
proof -
  have "strip_even (2 ^ e) (2 ^ e) = (1, 1)"
    by (induction e) (auto simp: strip_even.simps)
  then show ?thesis by (auto simp: next_pos_def on_left_def)
qed

lemma walk_0_1: "walk 0 1 [False] = Some (0, 0)"
  by (simp add: next_pos_def on_left_def)

text \<open>The loop from leaf \<open>m\<close> of a tree of \<open>n\<close> leaves walks the sides of the audit path.\<close>

lemma walk_sides: "m < n \<Longrightarrow> walk m (n - 1) (sides m n) = Some (0, 0)"
proof (induction m n rule: sides.induct)
  case (1 m n)
  show ?case
  proof (cases "n \<le> 1")
    case True
    with "1.prems" show ?thesis by (auto simp: sides.simps)
  next
    case False
    define k where "k = largestPowerOfTwoBelow n"
    obtain d where kd: "k = 2 ^ d" using lp2_pow2 k_def by blast
    have b: "0 < k" "k < n" "n \<le> 2 * k" using lp2_bounds [of n] False by (auto simp: k_def)
    show ?thesis
    proof (cases "m < k")
      case True
      have "sides m n = low_bits d m @ [False]"
        using True False sides_complete [of m d] by (simp add: sides.simps [of m n] k_def [symmetric] kd)
      moreover have "walk m (n - 1) (low_bits d m) = Some (0, 1)"
        by (rule walk_low_bits) (use True b kd in auto)
      ultimately show ?thesis using walk_0_1 by (simp add: walk_append)
    next
      case m: False
      have IH: "walk (m - k) (n - k - 1) (sides (m - k) (n - k)) = Some (0, 0)"
        using "1.IH"(2) [OF False k_def m] "1.prems" m by simp
      have le: "m - k \<le> n - k - 1" "n - k - 1 < 2 ^ d" using "1.prems" m b kd by auto
      obtain e where "walk (m - k + 2 ^ d) (n - k - 1 + 2 ^ d) (sides (m - k) (n - k)) = Some (0 + 2 ^ e, 0 + 2 ^ e)"
        using walk_add [OF IH le] by blast
      moreover have "m - k + 2 ^ d = m" "n - k - 1 + 2 ^ d = n - 1" using m b kd "1.prems" by auto
      ultimately have "walk m (n - 1) (sides (m - k) (n - k)) = Some (2 ^ e, 2 ^ e)"
        by (simp only: add_0)
      then show ?thesis using False m walk_pow2 [of e]
        by (simp add: sides.simps [of m n] k_def [symmetric] walk_append)
    qed
  qed
qed

section \<open>Audit paths against the tree\<close>

text \<open>
  The pairs of child hashes that the tree over \<open>[lo, hi)\<close> hashes, and those that a climb hashes.
  \<open>collision_free\<close> says that the node hash does not collide on a set of such pairs.
\<close>

function tree_pairs :: "sha \<Rightarrow> hash list \<Rightarrow> nat \<Rightarrow> nat \<Rightarrow> (hash \<times> hash) set" where
  "tree_pairs H D lo hi =
     (if hi - lo \<le> 1 then {}
      else let k = largestPowerOfTwoBelow (hi - lo) in
        insert (subtreeRoot H D lo (lo + k), subtreeRoot H D (lo + k) hi)
          (tree_pairs H D lo (lo + k) \<union> tree_pairs H D (lo + k) hi))"
  by pat_completeness auto
termination
proof (relation "measure (\<lambda>(H, D, lo, hi). hi - lo)", goal_cases)
  case 1
  show ?case by simp
next
  case (2 H D lo hi k)
  then show ?case using lp2_bounds [of "hi - lo"] by simp
next
  case (3 H D lo hi k)
  then show ?case using lp2_bounds(1,2) [of "hi - lo"] by simp
qed

declare tree_pairs.simps [simp del]

fun climb_pairs :: "sha \<Rightarrow> hash \<Rightarrow> bool list \<Rightarrow> hash list \<Rightarrow> (hash \<times> hash) set" where
  "climb_pairs H r (d # ds) (p # ps) =
     insert (if d then (p, r) else (r, p))
       (climb_pairs H (if d then NodeHash H p r else NodeHash H r p) ds ps)"
| "climb_pairs H r _ _ = {}"

definition collision_free :: "sha \<Rightarrow> (hash \<times> hash) set \<Rightarrow> bool" where
  "collision_free H S = inj_on (\<lambda>(l, r). NodeHash H l r) S"

lemma collision_free_mono: "collision_free H S \<Longrightarrow> T \<subseteq> S \<Longrightarrow> collision_free H T"
  unfolding collision_free_def by (rule inj_on_subset)

lemma collision_freeD:
  "collision_free H S \<Longrightarrow> (a, b) \<in> S \<Longrightarrow> (c, d) \<in> S \<Longrightarrow> NodeHash H a b = NodeHash H c d \<Longrightarrow> a = c \<and> b = d"
  unfolding collision_free_def by (drule inj_onD [where x = "(a, b)" and y = "(c, d)"]) auto

lemma climb_pairs_snoc:
  "length ds = length ps \<Longrightarrow>
   climb_pairs H r (ds @ [d]) (ps @ [p]) =
     insert (if d then (p, climb H r ds ps) else (climb H r ds ps, p)) (climb_pairs H r ds ps)"
  by (induction H r ds ps rule: climb_pairs.induct) auto

lemma subtree_split:
  assumes "1 < hi - lo" "k = largestPowerOfTwoBelow (hi - lo)"
  shows "subtreeRoot H D lo hi = NodeHash H (subtreeRoot H D lo (lo + k)) (subtreeRoot H D (lo + k) hi)"
  using assms by (subst subtreeRoot.simps) (simp add: Let_def)

lemma tree_pairs_split:
  assumes "1 < hi - lo" "k = largestPowerOfTwoBelow (hi - lo)"
  shows "tree_pairs H D lo hi = insert (subtreeRoot H D lo (lo + k), subtreeRoot H D (lo + k) hi)
          (tree_pairs H D lo (lo + k) \<union> tree_pairs H D (lo + k) hi)"
  using assms by (subst tree_pairs.simps) (simp add: Let_def)

lemma subtree_leaf: "hi - lo \<le> 1 \<Longrightarrow> subtreeRoot H D lo hi = D ! lo"
  by (subst subtreeRoot.simps) simp

lemma sides_leaf: "n \<le> 1 \<Longrightarrow> sides m n = []"
  by (subst sides.simps) simp

lemma sides_left:
  "1 < n \<Longrightarrow> k = largestPowerOfTwoBelow n \<Longrightarrow> m < k \<Longrightarrow> sides m n = sides m k @ [False]"
  by (subst sides.simps) (simp add: Let_def)

lemma sides_right:
  "1 < n \<Longrightarrow> k = largestPowerOfTwoBelow n \<Longrightarrow> k \<le> m \<Longrightarrow> sides m n = sides (m - k) (n - k) @ [True]"
  by (subst sides.simps) (simp add: Let_def)

text \<open>
  Induction over the ranges of the tree: a proof about \<open>[lo, hi)\<close> treats the single leaf and the
  two halves at the split point.
\<close>

lemma range_induct [consumes 1, case_names leaf split]:
  assumes range: "lo < (hi :: nat)"
    and leaf: "\<And>lo hi. lo < hi \<Longrightarrow> hi - lo \<le> 1 \<Longrightarrow> P lo hi"
    and split: "\<And>lo hi k. 1 < hi - lo \<Longrightarrow> k = largestPowerOfTwoBelow (hi - lo) \<Longrightarrow> 0 < k \<Longrightarrow> lo + k < hi \<Longrightarrow>
                  P lo (lo + k) \<Longrightarrow> P (lo + k) hi \<Longrightarrow> P lo hi"
  shows "P lo hi"
  using range
proof (induction "hi - lo" arbitrary: lo hi rule: less_induct)
  case less
  show ?case
  proof (cases "hi - lo \<le> 1")
    case True
    with less.prems show ?thesis by (rule leaf)
  next
    case False
    define k where "k = largestPowerOfTwoBelow (hi - lo)"
    have b: "0 < k" "k < hi - lo" using lp2_bounds [of "hi - lo"] False by (auto simp: k_def)
    then have "P lo (lo + k)" "P (lo + k) hi" by (auto intro!: less.hyps)
    with b False show ?thesis by (intro split [of hi lo k]) (auto simp: k_def)
  qed
qed

lemma inclusionPath_left:
  "1 < hi - lo \<Longrightarrow> k = largestPowerOfTwoBelow (hi - lo) \<Longrightarrow> m < lo + k \<Longrightarrow>
   inclusionPath H D m lo hi = inclusionPath H D m lo (lo + k) @ [subtreeRoot H D (lo + k) hi]"
  by (subst inclusionPath.simps) (simp add: Let_def)

lemma inclusionPath_right:
  "1 < hi - lo \<Longrightarrow> k = largestPowerOfTwoBelow (hi - lo) \<Longrightarrow> lo + k \<le> m \<Longrightarrow>
   inclusionPath H D m lo hi = inclusionPath H D m (lo + k) hi @ [subtreeRoot H D lo (lo + k)]"
  by (subst inclusionPath.simps) (simp add: Let_def)

lemma inclusionPath_leaf: "hi - lo \<le> 1 \<Longrightarrow> inclusionPath H D m lo hi = []"
  by (subst inclusionPath.simps) simp

lemma inclusion_climb:
  assumes "lo < hi" "lo \<le> m" "m < hi"
  shows "length (inclusionPath H D m lo hi) = length (sides (m - lo) (hi - lo)) \<and>
         climb H (D ! m) (sides (m - lo) (hi - lo)) (inclusionPath H D m lo hi) = subtreeRoot H D lo hi"
  using assms
proof (induction lo hi rule: range_induct)
  case (leaf lo hi)
  then have "m = lo" by linarith
  with leaf show ?case by (simp add: inclusionPath_leaf sides_leaf subtree_leaf)
next
  case (split lo hi k)
  note s = split(1,2)
  have hk: "hi - lo - k = hi - (lo + k)" by simp
  show ?case
  proof (cases "m < lo + k")
    case True
    then have "m - lo < k" using split.prems by linarith
    with split True show ?thesis
      by (simp add: inclusionPath_left [OF s] sides_left [OF s] climb_append subtree_split [OF s])
  next
    case False
    then have "m - lo - k = m - (lo + k)" "k \<le> m - lo" by auto
    with split False hk show ?thesis
      by (simp add: inclusionPath_right [OF s] sides_right [OF s] climb_append subtree_split [OF s])
  qed
qed

lemma snocE: "length xs = length (ys @ [y]) \<Longrightarrow> (\<And>zs z. xs = zs @ [z] \<Longrightarrow> length zs = length ys \<Longrightarrow> P) \<Longrightarrow> P"
  by (cases xs rule: rev_cases) auto

lemma inclusion_unique:
  assumes "lo < hi" "lo \<le> m" "m < hi"
    and "length path = length (sides (m - lo) (hi - lo))"
    and "climb H r (sides (m - lo) (hi - lo)) path = subtreeRoot H D lo hi"
    and "collision_free H (tree_pairs H D lo hi \<union> climb_pairs H r (sides (m - lo) (hi - lo)) path)"
  shows "r = D ! m \<and> path = inclusionPath H D m lo hi"
  using assms
proof (induction lo hi arbitrary: path rule: range_induct)
  case (leaf lo hi)
  then have "m = lo" by linarith
  with leaf show ?case by (simp add: inclusionPath_leaf sides_leaf subtree_leaf)
next
  case (split lo hi k)
  note s = split(1,2)
  have hk: "hi - lo - k = hi - (lo + k)" by simp
  note cf = split.prems(5) [unfolded tree_pairs_split [OF s]]
  show ?case
  proof (cases "m < lo + k")
    case True
    then have sd: "sides (m - lo) (hi - lo) = sides (m - lo) k @ [False]"
      using split.prems by (intro sides_left [OF s]) linarith
    from split.prems(3) obtain ps p where path: "path = ps @ [p]" and len: "length ps = length (sides (m - lo) k)"
      unfolding sd by (rule snocE)
    define c where "c = climb H r (sides (m - lo) k) ps"
    from split.prems(4) have "NodeHash H c p = NodeHash H (subtreeRoot H D lo (lo + k)) (subtreeRoot H D (lo + k) hi)"
      by (simp add: sd path climb_append len subtree_split [OF s] c_def)
    then have eq: "c = subtreeRoot H D lo (lo + k) \<and> p = subtreeRoot H D (lo + k) hi"
      by (rule collision_freeD [OF cf, rotated 2]) (simp_all add: sd path climb_pairs_snoc len c_def)
    have "collision_free H (tree_pairs H D lo (lo + k) \<union> climb_pairs H r (sides (m - lo) k) ps)"
      by (rule collision_free_mono [OF cf]) (auto simp: sd path climb_pairs_snoc len)
    with split.IH(1) [of ps] True split.prems eq len show ?thesis
      by (simp add: path c_def inclusionPath_left [OF s])
  next
    case False
    then have sd: "sides (m - lo) (hi - lo) = sides (m - (lo + k)) (hi - (lo + k)) @ [True]"
      using split.prems sides_right [OF s, of "m - lo"] by (simp add: hk le_diff_conv2)
    from split.prems(3) obtain ps p where path: "path = ps @ [p]"
      and len: "length ps = length (sides (m - (lo + k)) (hi - (lo + k)))"
      unfolding sd by (rule snocE)
    define c where "c = climb H r (sides (m - (lo + k)) (hi - (lo + k))) ps"
    from split.prems(4) have "NodeHash H p c = NodeHash H (subtreeRoot H D lo (lo + k)) (subtreeRoot H D (lo + k) hi)"
      by (simp add: sd path climb_append len subtree_split [OF s] c_def)
    then have eq: "p = subtreeRoot H D lo (lo + k) \<and> c = subtreeRoot H D (lo + k) hi"
      by (rule collision_freeD [OF cf, rotated 2]) (simp_all add: sd path climb_pairs_snoc len c_def)
    have "collision_free H (tree_pairs H D (lo + k) hi \<union> climb_pairs H r (sides (m - (lo + k)) (hi - (lo + k))) ps)"
      by (rule collision_free_mono [OF cf]) (auto simp: sd path climb_pairs_snoc len)
    with split.IH(2) [of ps] False split.prems eq len show ?thesis
      by (simp add: path c_def inclusionPath_right [OF s])
  qed
qed

end
