(* ===== verification/Merkle_Consistency.thy ===== *)
theory Merkle_Consistency
  imports Merkle_Paths
begin

text \<open>
  The sides of a consistency path and the correspondence between \<open>consistencySubproof\<close>, the
  verification loop and the two tree heads.
\<close>

section \<open>Sides of a consistency path\<close>

function csides :: "nat \<Rightarrow> nat \<Rightarrow> bool list" where
  "csides m n =
     (if m = n \<or> n \<le> 1 then []
      else let k = largestPowerOfTwoBelow n in
        if m \<le> k then csides m k @ [False] else csides (m - k) (n - k) @ [True])"
  by pat_completeness auto
termination
proof (relation "measure snd", goal_cases)
  case (2 m n k)
  then show ?case using lp2_bounds(2) [of n] by simp
next
  case (3 m n k)
  then show ?case using lp2_bounds(1) [of n] by simp
qed simp

declare csides.simps [simp del]

function tones :: "nat \<Rightarrow> nat" where
  "tones m = (if odd m then Suc (tones (m div 2)) else 0)"
  by pat_completeness auto
termination
  by (relation "measure id") (auto simp: odd_pos)

declare tones.simps [simp del]

lemma csides_stop: "m = n \<or> n \<le> 1 \<Longrightarrow> csides m n = []"
  by (subst csides.simps) simp

lemma csides_left:
  "m \<noteq> n \<Longrightarrow> 1 < n \<Longrightarrow> k = largestPowerOfTwoBelow n \<Longrightarrow> m \<le> k \<Longrightarrow> csides m n = csides m k @ [False]"
  by (subst csides.simps) (simp add: Let_def)

lemma csides_right:
  "m \<noteq> n \<Longrightarrow> 1 < n \<Longrightarrow> k = largestPowerOfTwoBelow n \<Longrightarrow> k < m \<Longrightarrow> csides m n = csides (m - k) (n - k) @ [True]"
  by (subst csides.simps) (simp add: Let_def)

lemma tones_ones: "tones (2 ^ d - 1) = d"
proof (induction d)
  case 0
  show ?case by (simp add: tones.simps)
next
  case (Suc d)
  have "odd (2 ^ Suc d - 1 :: nat)" "(2 ^ Suc d - 1) div 2 = (2 ^ d - 1 :: nat)" by auto
  with Suc show ?case by (subst tones.simps) simp
qed

lemma tones_add: "Suc q < 2 ^ d \<Longrightarrow> tones (q + 2 ^ d) = tones q"
proof (induction q arbitrary: d rule: tones.induct)
  case (1 q)
  then obtain e where d: "d = Suc e" by (cases d) auto
  show ?case
  proof (cases "odd q")
    case True
    then obtain j where j: "q = 2 * j + 1" by (elim oddE)
    have "(q + 2 ^ d) div 2 = q div 2 + 2 ^ e" "Suc (q div 2) < 2 ^ e" "odd (q + 2 ^ d)"
      using "1.prems" by (auto simp: d j)
    with True "1.IH" [of e] show ?thesis by (simp add: tones.simps [of q] tones.simps [of "q + 2 ^ d"])
  next
    case False
    then have "even (q + 2 ^ d)" by (simp add: d)
    with False show ?thesis by (simp add: tones.simps [of q] tones.simps [of "q + 2 ^ d"])
  qed
qed

lemma low_bits_ones: "low_bits d (2 ^ d - 1) = replicate d True"
proof (induction d)
  case 0
  show ?case by simp
next
  case (Suc d)
  have "(2 ^ Suc d - 1) div 2 = (2 ^ d - 1 :: nat)" "odd (2 ^ Suc d - 1 :: nat)" by auto
  with Suc show ?case by (simp add: low_bits_Suc)
qed

text \<open>
  The audit path of the last leaf of the old tree starts with the levels inside the largest
  complete subtree that ends there; the rest are the sides of the consistency path.
\<close>

lemma sides_csides:
  "0 < m \<Longrightarrow> m \<le> n \<Longrightarrow> m < n \<or> (\<exists>j. n = 2 ^ j) \<Longrightarrow>
   sides (m - 1) n = replicate (tones (m - 1)) True @ csides m n"
proof (induction m n rule: csides.induct)
  case (1 m n)
  show ?case
  proof (cases "m = n")
    case True
    then obtain j where "n = 2 ^ j" using "1.prems" by blast
    with True show ?thesis
      using low_bits_ones [of j] tones_ones [of j] by (simp add: sides_complete csides_stop)
  next
    case False
    with "1.prems" have n: "1 < n" by linarith
    define k where "k = largestPowerOfTwoBelow n"
    obtain d where kd: "k = 2 ^ d" using lp2_pow2 k_def by blast
    have b: "0 < k" "k < n" "n \<le> 2 * k" using lp2_bounds [of n] n by (auto simp: k_def)
    show ?thesis
    proof (cases "m \<le> k")
      case True
      have "sides (m - 1) k = replicate (tones (m - 1)) True @ csides m k"
        using "1.IH"(1) [OF _ k_def True] False n "1.prems" True kd by auto
      moreover have "sides (m - 1) n = sides (m - 1) k @ [False]"
        by (rule sides_left [OF n k_def]) (use True "1.prems" in linarith)
      ultimately show ?thesis using csides_left [OF False n k_def True] by simp
    next
      case m: False
      have "sides (m - k - 1) (n - k) = replicate (tones (m - k - 1)) True @ csides (m - k) (n - k)"
      proof -
        have "0 < m - k" "m - k \<le> n - k" "m - k < n - k" using False "1.prems" m by auto
        with "1.IH"(2) [OF _ k_def m] False n show ?thesis by simp
      qed
      moreover have "tones (m - 1) = tones (m - k - 1)"
        using tones_add [of "m - k - 1" d] m b False "1.prems" kd by simp
      moreover have "sides (m - 1) n = sides (m - 1 - k) (n - k) @ [True]"
        by (rule sides_right [OF n k_def]) (use m in linarith)
      ultimately show ?thesis using csides_right [OF False n k_def] m by (simp add: diff_right_commute)
    qed
  qed
qed

lemma walk_tones: "fn \<le> sn \<Longrightarrow> walk fn sn (replicate (tones fn) True) = Some (strip_odd fn sn)"
proof (induction fn sn rule: strip_odd.induct)
  case (1 fn sn)
  show ?case
  proof (cases "odd fn")
    case True
    then have "sn \<noteq> 0" "next_pos fn sn = (fn div 2, sn div 2)" "on_left fn sn"
      using "1.prems" odd_pos [OF True] by (auto simp: next_pos_def on_left_def)
    with True 1 show ?thesis
      by (simp add: tones.simps [of fn] strip_odd.simps [of fn sn] div_le_mono)
  next
    case False
    then show ?thesis by (simp add: tones.simps [of fn] strip_odd.simps [of fn sn])
  qed
qed

lemma walk_csides:
  assumes "0 < m" "m < n" "strip_odd (m - 1) (n - 1) = (f, s)"
  shows "walk f s (csides m n) = Some (0, 0)"
proof -
  have "walk (m - 1) (n - 1) (replicate (tones (m - 1)) True @ csides m n) = Some (0, 0)"
    using walk_sides [of "m - 1" n] sides_csides [of m n] assms by simp
  with walk_tones [of "m - 1" "n - 1"] assms show ?thesis by (simp add: walk_append)
qed

lemma strip_odd_zero: "0 < m \<Longrightarrow> fst (strip_odd (m - 1) x) = 0 \<longleftrightarrow> (\<exists>e. m = 2 ^ e)"
proof (induction "m - 1" x arbitrary: m rule: strip_odd.induct)
  case (1 x)
  show ?case
  proof (cases "odd (m - 1)")
    case True
    then have "even m" using "1.prems" by (cases m) auto
    then obtain j where j: "m = 2 * j" "0 < j" using "1.prems" by (auto elim: evenE)
    then have half: "(m - 1) div 2 = j - 1" by auto
    have pow: "(\<exists>e. m = 2 ^ e) \<longleftrightarrow> (\<exists>e. j = 2 ^ e)"
    proof
      assume "\<exists>e. m = 2 ^ e"
      then obtain e where "m = 2 ^ e" by blast
      with j have "j = 2 ^ (e - 1)" by (cases e) auto
      then show "\<exists>e. j = 2 ^ e" by blast
    next
      assume "\<exists>e. j = 2 ^ e"
      then obtain e where "j = 2 ^ e" by blast
      with j have "m = 2 ^ Suc e" by simp
      then show "\<exists>e. m = 2 ^ e" by blast
    qed
    have "strip_odd (m - 1) x = strip_odd (j - 1) (x div 2)"
      using True half by (subst strip_odd.simps) simp
    with 1(1) [of j] True half j pow show ?thesis by simp
  next
    case False
    then have st: "strip_odd (m - 1) x = (m - 1, x)" by (subst strip_odd.simps) simp
    show ?thesis
    proof
      assume "fst (strip_odd (m - 1) x) = 0"
      with st "1.prems" have "m = 2 ^ 0" by simp
      then show "\<exists>e. m = 2 ^ e" by blast
    next
      assume "\<exists>e. m = 2 ^ e"
      then obtain e where "m = 2 ^ e" by blast
      with False st show "fst (strip_odd (m - 1) x) = 0" by (cases e) auto
    qed
  qed
qed

section \<open>Consistency paths against the tree\<close>

lemma subproof_left:
  "m \<noteq> hi \<Longrightarrow> 1 < hi - lo \<Longrightarrow> k = largestPowerOfTwoBelow (hi - lo) \<Longrightarrow> m \<le> lo + k \<Longrightarrow>
   consistencySubproof H D m lo hi c =
     consistencySubproof H D m lo (lo + k) c @ [subtreeRoot H D (lo + k) hi]"
  by (subst consistencySubproof.simps) (simp add: Let_def)

lemma subproof_right:
  "m \<noteq> hi \<Longrightarrow> 1 < hi - lo \<Longrightarrow> k = largestPowerOfTwoBelow (hi - lo) \<Longrightarrow> lo + k < m \<Longrightarrow>
   consistencySubproof H D m lo hi c =
     consistencySubproof H D m (lo + k) hi False @ [subtreeRoot H D lo (lo + k)]"
  by (subst consistencySubproof.simps) (simp add: Let_def)

lemma subproof_stop:
  "m = hi \<Longrightarrow> consistencySubproof H D m lo hi c = (if c then [] else [subtreeRoot H D lo hi])"
  by (subst consistencySubproof.simps) simp

text \<open>The split point of the old tree is that of the new one when the old tree reaches past it.\<close>

lemma old_root_split:
  assumes "1 < hi - lo" "k = largestPowerOfTwoBelow (hi - lo)" "lo + k < m" "m \<le> hi"
  shows "subtreeRoot H D lo m = NodeHash H (subtreeRoot H D lo (lo + k)) (subtreeRoot H D (lo + k) m)"
proof -
  obtain d where kd: "k = 2 ^ d" using lp2_pow2 assms(2) by blast
  have b: "0 < k" "hi - lo \<le> 2 * k" using lp2_bounds [of "hi - lo"] assms by auto
  then have "largestPowerOfTwoBelow (m - lo) = 2 ^ d"
    using assms kd by (intro lp2_unique) auto
  with assms b kd show ?thesis by (intro subtree_split) auto
qed

lemma not_pow2_between:
  assumes "2 ^ d < x" "x < 2 * 2 ^ d" shows "\<not> (\<exists>e. x = (2::nat) ^ e)"
proof
  assume "\<exists>e. x = 2 ^ e"
  then obtain e where e: "x = 2 ^ e" by blast
  have "d < e" using assms(1) e by (simp add: power_strict_increasing_iff)
  moreover have "e < Suc d" using assms(2) e by (metis power_Suc power_strict_increasing_iff one_less_numeral_iff semiring_norm(76))
  ultimately show False by simp
qed

lemma subproof_climb:
  assumes "lo < hi" "lo < m" "m \<le> hi" "m < hi \<or> (\<exists>j. hi - lo = 2 ^ j)"
  shows "if c \<and> (\<exists>e. m - lo = 2 ^ e)
         then length (consistencySubproof H D m lo hi c) = length (csides (m - lo) (hi - lo)) \<and>
              climb H (subtreeRoot H D lo m) (csides (m - lo) (hi - lo)) (consistencySubproof H D m lo hi c)
                = subtreeRoot H D lo hi \<and>
              climb_old H (subtreeRoot H D lo m) (csides (m - lo) (hi - lo)) (consistencySubproof H D m lo hi c)
                = subtreeRoot H D lo m
         else \<exists>seed rest. consistencySubproof H D m lo hi c = seed # rest \<and>
              length rest = length (csides (m - lo) (hi - lo)) \<and>
              climb H seed (csides (m - lo) (hi - lo)) rest = subtreeRoot H D lo hi \<and>
              climb_old H seed (csides (m - lo) (hi - lo)) rest = subtreeRoot H D lo m"
  using assms
proof (induction lo hi arbitrary: c rule: range_induct)
  case (leaf lo hi)
  then have m: "m = hi" "m - lo = 2 ^ 0" by simp_all
  then have "\<exists>e. m - lo = 2 ^ e" by blast
  with m(1) show ?case by (auto simp: subproof_stop csides_stop)
next
  case (split lo hi k)
  note s = split(1,2)
  obtain d where kd: "k = 2 ^ d" using lp2_pow2 s(2) by blast
  have hk: "hi - lo - k = hi - (lo + k)" by simp
  have b: "hi - lo \<le> 2 * k" using lp2_bounds(3) [of "hi - lo"] s by simp
  show ?case
  proof (cases "m = hi")
    case True
    then obtain j where "m - lo = 2 ^ j" using split.prems by auto
    then show ?thesis by (auto simp: True subproof_stop csides_stop)
  next
    case neq: False
    show ?thesis
    proof (cases "m \<le> lo + k")
      case True
      then have cs: "csides (m - lo) (hi - lo) = csides (m - lo) k @ [False]"
        using neq split.prems s by (intro csides_left) auto
      note IH = split.IH(1) [OF split.prems(1) True disjI2, of c]
      have sp: "consistencySubproof H D m lo hi c =
          consistencySubproof H D m lo (lo + k) c @ [subtreeRoot H D (lo + k) hi]"
        by (rule subproof_left [OF neq s True])
      show ?thesis
      proof (cases "c \<and> (\<exists>e. m - lo = 2 ^ e)")
        case True
        have "length (consistencySubproof H D m lo (lo + k) c) = length (csides (m - lo) k)"
          "climb H (subtreeRoot H D lo m) (csides (m - lo) k) (consistencySubproof H D m lo (lo + k) c)
             = subtreeRoot H D lo (lo + k)"
          "climb_old H (subtreeRoot H D lo m) (csides (m - lo) k) (consistencySubproof H D m lo (lo + k) c)
             = subtreeRoot H D lo m"
          using IH [unfolded if_P [OF True]] kd by auto
        then show ?thesis
          unfolding if_P [OF True] sp cs by (simp add: climb_append climb_old_append subtree_split [OF s])
      next
        case False
        then obtain seed rest where "consistencySubproof H D m lo (lo + k) c = seed # rest"
          "length rest = length (csides (m - lo) k)"
          "climb H seed (csides (m - lo) k) rest = subtreeRoot H D lo (lo + k)"
          "climb_old H seed (csides (m - lo) k) rest = subtreeRoot H D lo m"
          using IH [unfolded if_not_P [OF False]] kd by auto
        then show ?thesis
          unfolding if_not_P [OF False] sp cs
          by (simp add: climb_append climb_old_append subtree_split [OF s])
      qed
    next
      case m: False
      then have cs: "csides (m - lo) (hi - lo) = csides (m - (lo + k)) (hi - (lo + k)) @ [True]"
        using csides_right [of "m - lo" "hi - lo" k] neq split.prems s by (simp add: hk)
      have sp: "consistencySubproof H D m lo hi c =
          consistencySubproof H D m (lo + k) hi False @ [subtreeRoot H D lo (lo + k)]"
        using m by (intro subproof_right [OF neq s]) simp
      have "\<not> (\<exists>e. m - lo = 2 ^ e)"
        by (rule not_pow2_between [of d]) (use m neq split.prems b kd in auto)
      moreover obtain seed rest where "consistencySubproof H D m (lo + k) hi False = seed # rest"
          "length rest = length (csides (m - (lo + k)) (hi - (lo + k)))"
          "climb H seed (csides (m - (lo + k)) (hi - (lo + k))) rest = subtreeRoot H D (lo + k) hi"
          "climb_old H seed (csides (m - (lo + k)) (hi - (lo + k))) rest = subtreeRoot H D (lo + k) m"
        using split.IH(2) [of False] m neq split.prems by auto
      ultimately show ?thesis
        using m split.prems
        by (auto simp: cs sp climb_append climb_old_append subtree_split [OF s] old_root_split [OF s])
    qed
  qed
qed

lemma consistency_old_root:
  assumes "lo < hi" "lo < m" "m \<le> hi"
    and "length path = length (csides (m - lo) (hi - lo))"
    and "climb H r (csides (m - lo) (hi - lo)) path = subtreeRoot H D lo hi"
    and "collision_free H (tree_pairs H D lo hi \<union> climb_pairs H r (csides (m - lo) (hi - lo)) path)"
  shows "climb_old H r (csides (m - lo) (hi - lo)) path = subtreeRoot H D lo m"
  using assms
proof (induction lo hi arbitrary: path rule: range_induct)
  case (leaf lo hi)
  then have "m = hi" by simp
  with leaf show ?case by (simp add: csides_stop)
next
  case (split lo hi k)
  note s = split(1,2)
  have hk: "hi - lo - k = hi - (lo + k)" by simp
  note cf = split.prems(5) [unfolded tree_pairs_split [OF s]]
  show ?case
  proof (cases "m = hi")
    case True
    with split.prems show ?thesis by (simp add: csides_stop)
  next
    case neq: False
    show ?thesis
    proof (cases "m \<le> lo + k")
      case True
      then have cs: "csides (m - lo) (hi - lo) = csides (m - lo) k @ [False]"
        using neq split.prems s by (intro csides_left) auto
      from split.prems(3) obtain ps p where path: "path = ps @ [p]" and len: "length ps = length (csides (m - lo) k)"
        unfolding cs by (rule snocE)
      define x where "x = climb H r (csides (m - lo) k) ps"
      from split.prems(4) have "NodeHash H x p = NodeHash H (subtreeRoot H D lo (lo + k)) (subtreeRoot H D (lo + k) hi)"
        by (simp add: cs path climb_append len subtree_split [OF s] x_def)
      then have eq: "x = subtreeRoot H D lo (lo + k) \<and> p = subtreeRoot H D (lo + k) hi"
        by (rule collision_freeD [OF cf, rotated 2]) (simp_all add: cs path climb_pairs_snoc len x_def)
      have "collision_free H (tree_pairs H D lo (lo + k) \<union> climb_pairs H r (csides (m - lo) k) ps)"
        by (rule collision_free_mono [OF cf]) (auto simp: cs path climb_pairs_snoc len)
      with split.IH(1) [of ps] True split.prems eq len show ?thesis
        by (simp add: cs path x_def climb_old_append)
    next
      case False
      then have cs: "csides (m - lo) (hi - lo) = csides (m - (lo + k)) (hi - (lo + k)) @ [True]"
        using csides_right [of "m - lo" "hi - lo" k] neq split.prems s by (simp add: hk)
      from split.prems(3) obtain ps p where path: "path = ps @ [p]"
        and len: "length ps = length (csides (m - (lo + k)) (hi - (lo + k)))"
        unfolding cs by (rule snocE)
      define x where "x = climb H r (csides (m - (lo + k)) (hi - (lo + k))) ps"
      from split.prems(4) have "NodeHash H p x = NodeHash H (subtreeRoot H D lo (lo + k)) (subtreeRoot H D (lo + k) hi)"
        by (simp add: cs path climb_append len subtree_split [OF s] x_def)
      then have eq: "p = subtreeRoot H D lo (lo + k) \<and> x = subtreeRoot H D (lo + k) hi"
        by (rule collision_freeD [OF cf, rotated 2]) (simp_all add: cs path climb_pairs_snoc len x_def)
      have "collision_free H (tree_pairs H D (lo + k) hi \<union> climb_pairs H r (csides (m - (lo + k)) (hi - (lo + k))) ps)"
        by (rule collision_free_mono [OF cf]) (auto simp: cs path climb_pairs_snoc len)
      with split.IH(2) [of ps] False split.prems eq len show ?thesis
        using old_root_split [OF s, of m H D]
        by (simp add: cs path x_def climb_old_append)
    qed
  qed
qed

end
