(* ===== verification/Translog.thy ===== *)
theory Translog
  imports Merkle_Consistency
begin

text \<open>
  The receipt transparency log, \<^verbatim>\<open>core/pkg/translog\<close>: proof records with hexadecimal hashes,
  building and verifying them (\<^verbatim>\<open>proof.go\<close>), the file-backed log (\<^verbatim>\<open>log.go\<close>) and signed tree heads
  (\<^verbatim>\<open>sth.go\<close>). The journal is the content of the \<^verbatim>\<open>leaves\<close> file; the outcome of each file-system
  call is an argument. Signing, canonical JSON and RFC 3339 formatting are parameters.
\<close>

section \<open>Proof records (proof.go)\<close>

record InclusionProof =
  LeafIndex :: nat
  TreeSize :: nat
  LeafHashHex :: string
  RootHash :: string
  AuditPath :: "string list"

record ConsistencyProof =
  OldSize :: nat
  NewSize :: nat
  OldRoot :: string
  NewRoot :: string
  ConsistencyPath :: "string list"

definition decodeHash :: "string \<Rightarrow> hash option" where
  "decodeHash s =
     (case hex_DecodeString s of
        None \<Rightarrow> None
      | Some b \<Rightarrow> if length b \<noteq> HashSize then None else Some b)"

definition encodePath :: "hash list \<Rightarrow> string list" where
  "encodePath path = map hex_EncodeToString path"

fun decodePath :: "string list \<Rightarrow> hash list option" where
  "decodePath [] = Some []"
| "decodePath (s # path) =
     (case decodeHash s of
        None \<Rightarrow> None
      | Some h \<Rightarrow> map_option (\<lambda>out. h # out) (decodePath path))"

definition BuildInclusionProof :: "sha \<Rightarrow> hash list \<Rightarrow> nat \<Rightarrow> nat \<Rightarrow> (translog_error, InclusionProof) res" where
  "BuildInclusionProof H leafHashes leafIndex treeSize =
     (if treeSize = 0 \<or> treeSize > length leafHashes then Err SizeOutOfRange
      else if leafIndex \<ge> treeSize then Err IndexOutOfRange
      else Ok \<lparr>LeafIndex = leafIndex, TreeSize = treeSize,
               LeafHashHex = hex_EncodeToString (leafHashes ! leafIndex),
               RootHash = hex_EncodeToString (subtreeRoot H leafHashes 0 treeSize),
               AuditPath = encodePath (inclusionPath H leafHashes leafIndex 0 treeSize)\<rparr>)"

definition VerifyInclusion :: "sha \<Rightarrow> InclusionProof option \<Rightarrow> string \<Rightarrow> (translog_error, unit) res" where
  "VerifyInclusion H proof trustedRoot =
     (case proof of None \<Rightarrow> Err NilProof | Some p \<Rightarrow>
      if TreeSize p = 0 then Err EmptyTree
      else if LeafIndex p \<ge> TreeSize p then Err IndexOutOfRange
      else case decodeHash (LeafHashHex p) of None \<Rightarrow> Err BadLeafHash | Some leaf \<Rightarrow>
      case decodeHash trustedRoot of None \<Rightarrow> Err BadRoot | Some root \<Rightarrow>
      case decodePath (AuditPath p) of None \<Rightarrow> Err BadPath | Some path \<Rightarrow>
      case inclusion_loop H (LeafIndex p) (TreeSize p - 1) leaf path of
        Inl e \<Rightarrow> Err e
      | Inr (fn, sn, r) \<Rightarrow>
          if sn \<noteq> 0 then Err PathTooShort
          else if r \<noteq> root then Err RootMismatch
          else Ok ())"

definition BuildConsistencyProof :: "sha \<Rightarrow> hash list \<Rightarrow> nat \<Rightarrow> nat \<Rightarrow> (translog_error, ConsistencyProof) res" where
  "BuildConsistencyProof H leafHashes oldSize newSize =
     (if newSize > length leafHashes then Err SizeOutOfRange
      else if oldSize = 0 \<or> oldSize > newSize then Err SizeOutOfRange
      else Ok \<lparr>OldSize = oldSize, NewSize = newSize,
               OldRoot = hex_EncodeToString (subtreeRoot H leafHashes 0 oldSize),
               NewRoot = hex_EncodeToString (subtreeRoot H leafHashes 0 newSize),
               ConsistencyPath = encodePath
                 (if oldSize < newSize then consistencySubproof H leafHashes oldSize 0 newSize True else [])\<rparr>)"

definition VerifyConsistency :: "sha \<Rightarrow> ConsistencyProof option \<Rightarrow> (translog_error, unit) res" where
  "VerifyConsistency H proof =
     (case proof of None \<Rightarrow> Err NilProof | Some p \<Rightarrow>
      if OldSize p = 0 \<or> OldSize p > NewSize p then Err SizeOutOfRange
      else case decodeHash (OldRoot p) of None \<Rightarrow> Err BadOldRoot | Some oldRoot \<Rightarrow>
      case decodeHash (NewRoot p) of None \<Rightarrow> Err BadNewRoot | Some newRoot \<Rightarrow>
      case decodePath (ConsistencyPath p) of None \<Rightarrow> Err BadPath | Some path \<Rightarrow>
      if OldSize p = NewSize p then
        (if length path \<noteq> 0 then Err NonEmptyPathEqualSizes
         else if oldRoot \<noteq> newRoot then Err Equivocation
         else Ok ())
      else if length path = 0 then Err EmptyPathGrowing
      else let (fn, sn) = strip_odd (OldSize p - 1) (NewSize p - 1);
               (seed, rest) = (if fn \<noteq> 0 then (hd path, tl path) else (oldRoot, path))
        in case consistency_loop H fn sn seed seed rest of
             Inl e \<Rightarrow> Err e
           | Inr (fn', sn', fr, sr) \<Rightarrow>
               if sn' \<noteq> 0 then Err PathTooShort
               else if fr \<noteq> oldRoot then Err OldRootMismatch
               else if sr \<noteq> newRoot then Err NewRootMismatch
               else Ok ())"

section \<open>The log (log.go)\<close>

record Log =
  leafHashes :: "hash list"
  journal :: "string option"

text \<open>
  The outcome of the journal write of one append: the file cannot be opened, the write stops after
  \<open>k\<close> bytes, the sync fails after a complete write, or all succeed.
\<close>

datatype journal_io = OpenFails | WriteFails nat | SyncFails | IoOk

definition journal_line :: "hash \<Rightarrow> string" where
  "journal_line h = hex_EncodeToString h @ [CHR 0x0A]"

definition Append :: "sha \<Rightarrow> journal_io \<Rightarrow> Log \<Rightarrow> byte list \<Rightarrow> Log \<times> (translog_error, nat) res" where
  "Append H io l leafInput =
     (let leaf = LeafHash H leafInput;
          file = (case journal l of None \<Rightarrow> [] | Some f \<Rightarrow> f)
      in case io of
           OpenFails \<Rightarrow> (l, Err JournalIO)
         | WriteFails k \<Rightarrow> (l\<lparr>journal := Some (file @ take k (journal_line leaf))\<rparr>, Err JournalIO)
         | SyncFails \<Rightarrow> (l\<lparr>journal := Some (file @ journal_line leaf)\<rparr>, Err JournalIO)
         | IoOk \<Rightarrow> (l\<lparr>journal := Some (file @ journal_line leaf), leafHashes := leafHashes l @ [leaf]\<rparr>,
                   Ok (length (leafHashes l))))"

text \<open>
  \<^verbatim>\<open>bufio.Scanner\<close> with the default line split: lines end at a newline, a final line may lack one,
  and a line that does not fit the 64 KiB buffer ends the scan with an error.
\<close>

fun scan_lines :: "string \<Rightarrow> string \<Rightarrow> string list" where
  "scan_lines acc [] = (if acc = [] then [] else [rev acc])"
| "scan_lines acc (c # s) = (if c = CHR 0x0A then rev acc # scan_lines [] s else scan_lines (c # acc) s)"

definition MaxScanTokenSize :: nat where "MaxScanTokenSize = 65536"

fun read_leaves :: "nat \<Rightarrow> string list \<Rightarrow> (translog_error, hash list) res" where
  "read_leaves line [] = Ok []"
| "read_leaves line (l # ls) =
     (if length l \<ge> MaxScanTokenSize then Err JournalIO
      else let txt = TrimSpace l in
        if txt = [] then read_leaves (Suc line) ls
        else case decodeHash txt of
               None \<Rightarrow> Err (CorruptJournal (Suc line))
             | Some h \<Rightarrow> (case read_leaves (Suc line) ls of
                          Inl e \<Rightarrow> Err e
                        | Inr hs \<Rightarrow> Ok (h # hs)))"

definition Open :: "string option \<Rightarrow> (translog_error, Log) res" where
  "Open file =
     (case file of
        None \<Rightarrow> Ok \<lparr>leafHashes = [], journal = None\<rparr>
      | Some f \<Rightarrow> (case read_leaves 0 (scan_lines [] f) of
                     Inl e \<Rightarrow> Err e
                   | Inr hs \<Rightarrow> Ok \<lparr>leafHashes = hs, journal = Some f\<rparr>))"

definition Size :: "Log \<Rightarrow> nat" where
  "Size l = length (leafHashes l)"

definition Root :: "sha \<Rightarrow> Log \<Rightarrow> nat \<Rightarrow> (translog_error, hash) res" where
  "Root H l treeSize =
     (if treeSize > length (leafHashes l) then Err SizeOutOfRange
      else Ok (RootFromLeafHashes H (take treeSize (leafHashes l))))"

definition LeafHashAt :: "Log \<Rightarrow> nat \<Rightarrow> (translog_error, hash) res" where
  "LeafHashAt l i = (if i \<ge> length (leafHashes l) then Err IndexOutOfRange else Ok (leafHashes l ! i))"

definition Log_InclusionProof :: "sha \<Rightarrow> Log \<Rightarrow> nat \<Rightarrow> nat \<Rightarrow> (translog_error, InclusionProof) res" where
  "Log_InclusionProof H l leafIndex treeSize = BuildInclusionProof H (leafHashes l) leafIndex treeSize"

definition Log_ConsistencyProof :: "sha \<Rightarrow> Log \<Rightarrow> nat \<Rightarrow> nat \<Rightarrow> (translog_error, ConsistencyProof) res" where
  "Log_ConsistencyProof H l oldSize newSize = BuildConsistencyProof H (leafHashes l) oldSize newSize"

section \<open>Signed tree heads (sth.go)\<close>

record SignedTreeHead =
  sth_TreeSize :: nat
  sth_RootHash :: string
  sth_Timestamp :: string
  sth_LogID :: string
  sth_PublicKey :: string
  sth_Signature :: string

record sthSigningPayload =
  pl_LogID :: string
  pl_RootHash :: string
  pl_Timestamp :: string
  pl_TreeSize :: nat

type_synonym canonicalizer = "sthSigningPayload \<Rightarrow> byte list option"

definition SigningBytes :: "canonicalizer \<Rightarrow> SignedTreeHead \<Rightarrow> byte list option" where
  "SigningBytes canon s =
     canon \<lparr>pl_LogID = sth_LogID s, pl_RootHash = sth_RootHash s,
            pl_Timestamp = sth_Timestamp s, pl_TreeSize = sth_TreeSize s\<rparr>"

text \<open>A signer has a fallible \<^verbatim>\<open>Sign\<close> and a \<^verbatim>\<open>PublicKey\<close>; \<open>fmt\<close> is the RFC 3339 rendering.\<close>

definition SignTreeHead ::
  "canonicalizer \<Rightarrow> (gotime \<Rightarrow> string) \<Rightarrow> (byte list \<Rightarrow> string option) \<Rightarrow> string \<Rightarrow>
   string \<Rightarrow> nat \<Rightarrow> hash \<Rightarrow> gotime \<Rightarrow> (translog_error, SignedTreeHead) res" where
  "SignTreeHead canon fmt sign pub logID treeSize root now =
     (let sth = \<lparr>sth_TreeSize = treeSize, sth_RootHash = hex_EncodeToString root,
                 sth_Timestamp = fmt now, sth_LogID = logID, sth_PublicKey = [], sth_Signature = []\<rparr>
      in case SigningBytes canon sth of None \<Rightarrow> Err CanonFailed | Some payload \<Rightarrow>
         case sign payload of None \<Rightarrow> Err SignFailed | Some sig \<Rightarrow>
         Ok (sth\<lparr>sth_Signature := sig, sth_PublicKey := pub\<rparr>))"

definition VerifyTreeHead ::
  "canonicalizer \<Rightarrow> (string \<Rightarrow> string \<Rightarrow> byte list \<Rightarrow> bool option) \<Rightarrow> SignedTreeHead option \<Rightarrow> string \<Rightarrow>
   (translog_error, unit) res" where
  "VerifyTreeHead canon verify sth pubKeyHex =
     (case sth of None \<Rightarrow> Err NilSTH | Some s \<Rightarrow>
      if sth_Signature s = [] then Err UnsignedSTH
      else case SigningBytes canon s of None \<Rightarrow> Err CanonFailed | Some payload \<Rightarrow>
      case verify pubKeyHex (sth_Signature s) payload of
        None \<Rightarrow> Err VerifyFailed
      | Some ok \<Rightarrow> if ok then Ok () else Err BadSignature)"

definition LogIDFromPublicKey :: "sha \<Rightarrow> byte list \<Rightarrow> string" where
  "LogIDFromPublicKey H pubKey = hex_EncodeToString (H pubKey)"

definition DetectEquivocation :: "SignedTreeHead option \<Rightarrow> SignedTreeHead option \<Rightarrow> bool" where
  "DetectEquivocation a b =
     (case (a, b) of
        (Some a, Some b) \<Rightarrow>
          sth_LogID a = sth_LogID b \<and> sth_TreeSize a = sth_TreeSize b \<and> sth_RootHash a \<noteq> sth_RootHash b
      | _ \<Rightarrow> False)"

section \<open>Encoding\<close>

definition well_hashed :: "hash list \<Rightarrow> bool" where
  "well_hashed D = list_all (\<lambda>h. length h = HashSize) D"

definition hash_sized :: "sha \<Rightarrow> bool" where
  "hash_sized H = (\<forall>x. length (H x) = HashSize)"

lemma decode_encode [simp]: "length h = HashSize \<Longrightarrow> decodeHash (hex_EncodeToString h) = Some h"
  by (simp add: decodeHash_def)

lemma decodeHash_length: "decodeHash s = Some h \<Longrightarrow> length h = HashSize"
  by (auto simp: decodeHash_def split: option.splits if_splits)

lemma decodePath_encode: "well_hashed path \<Longrightarrow> decodePath (encodePath path) = Some path"
  by (induction path) (auto simp: encodePath_def well_hashed_def)

lemma subtreeRoot_length:
  assumes "lo < hi" "hash_sized H" "well_hashed D" "hi \<le> length D"
  shows "length (subtreeRoot H D lo hi) = HashSize"
  using assms
proof (induction lo hi rule: range_induct)
  case (leaf lo hi)
  then show ?case by (simp add: subtree_leaf well_hashed_def list_all_length)
next
  case (split lo hi k)
  then show ?case by (simp add: subtree_split [OF split(1,2)] NodeHash_def hash_sized_def)
qed

lemma inclusionPath_sized:
  assumes "lo < hi" "hash_sized H" "well_hashed D" "hi \<le> length D"
  shows "well_hashed (inclusionPath H D m lo hi)"
  using assms
proof (induction lo hi rule: range_induct)
  case (leaf lo hi)
  then show ?case by (simp add: inclusionPath_leaf well_hashed_def)
next
  case (split lo hi k)
  then show ?case
    using inclusionPath_left [OF split(1,2), of m H D] inclusionPath_right [OF split(1,2), of m H D]
    by (cases "m < lo + k") (simp_all add: well_hashed_def subtreeRoot_length)
qed

lemma consistencySubproof_sized:
  assumes "lo < hi" "hash_sized H" "well_hashed D" "hi \<le> length D"
  shows "well_hashed (consistencySubproof H D m lo hi c)"
  using assms
proof (induction lo hi arbitrary: c rule: range_induct)
  case (leaf lo hi)
  then show ?case
    by (subst consistencySubproof.simps) (simp add: well_hashed_def subtreeRoot_length)
next
  case (split lo hi k)
  then show ?case
    by (subst consistencySubproof.simps) (simp add: well_hashed_def subtreeRoot_length Let_def)
qed

lemma subtreeRoot_take:
  assumes "lo < hi" "hi \<le> n"
  shows "subtreeRoot H (take n D) lo hi = subtreeRoot H D lo hi"
  using assms
proof (induction lo hi rule: range_induct)
  case (leaf lo hi)
  then show ?case by (simp add: subtree_leaf)
next
  case (split lo hi k)
  then show ?case by (simp add: subtree_split [OF split(1,2)])
qed

lemma Root_subtree:
  "0 < n \<Longrightarrow> n \<le> length (leafHashes l) \<Longrightarrow> Root H l n = Ok (subtreeRoot H (leafHashes l) 0 n)"
  by (auto simp: Root_def RootFromLeafHashes_def Let_def subtreeRoot_take)

end
