(* ===== verification/Translog_Correct.thy ===== *)
theory Translog_Correct
  imports Translog
begin

text \<open>
  Correctness of the transparency log: proofs that the log builds are accepted (completeness),
  proofs that are accepted speak about the leaves under the trusted tree head unless the node hash
  collides on the values at hand (soundness), the log is append-only, and re-reading the journal
  restores the log.
\<close>

section \<open>The pairs a verifier hashes\<close>

definition inclusion_pairs :: "sha \<Rightarrow> InclusionProof \<Rightarrow> (hash \<times> hash) set" where
  "inclusion_pairs H p =
     (case (decodeHash (LeafHashHex p), decodePath (AuditPath p)) of
        (Some leaf, Some path) \<Rightarrow> climb_pairs H leaf (sides (LeafIndex p) (TreeSize p)) path
      | _ \<Rightarrow> {})"

definition consistency_seed :: "ConsistencyProof \<Rightarrow> hash \<Rightarrow> hash list \<Rightarrow> hash \<times> hash list" where
  "consistency_seed p oldRoot path =
     (if fst (strip_odd (OldSize p - 1) (NewSize p - 1)) \<noteq> 0 then (hd path, tl path) else (oldRoot, path))"

definition consistency_pairs :: "sha \<Rightarrow> ConsistencyProof \<Rightarrow> (hash \<times> hash) set" where
  "consistency_pairs H p =
     (case (decodeHash (OldRoot p), decodePath (ConsistencyPath p)) of
        (Some oldRoot, Some path) \<Rightarrow>
          (case consistency_seed p oldRoot path of
             (seed, rest) \<Rightarrow> climb_pairs H seed (csides (OldSize p) (NewSize p)) rest)
      | _ \<Rightarrow> {})"

section \<open>What acceptance means\<close>

lemma VerifyInclusion_accepts:
  "VerifyInclusion H (Some p) trustedRoot = Ok () \<longleftrightarrow>
   LeafIndex p < TreeSize p \<and>
   (\<exists>leaf root path. decodeHash (LeafHashHex p) = Some leaf \<and> decodeHash trustedRoot = Some root \<and>
      decodePath (AuditPath p) = Some path \<and>
      length path = length (sides (LeafIndex p) (TreeSize p)) \<and>
      climb H leaf (sides (LeafIndex p) (TreeSize p)) path = root)" (is "?L \<longleftrightarrow> ?R")
proof
  assume ?L
  then obtain leaf root path fn where b: "LeafIndex p < TreeSize p"
      and d: "decodeHash (LeafHashHex p) = Some leaf" "decodeHash trustedRoot = Some root"
         "decodePath (AuditPath p) = Some path"
      and l: "inclusion_loop H (LeafIndex p) (TreeSize p - 1) leaf path = Ok (fn, 0, root)"
    by (auto simp: VerifyInclusion_def not_le split: if_splits option.splits sum.splits)
  from walk_sides [OF b] have w: "walk (LeafIndex p) (TreeSize p - 1) (sides (LeafIndex p) (TreeSize p)) = Some (0, 0)" .
  have len: "length path = length (sides (LeafIndex p) (TreeSize p))"
    by (rule inclusion_loop_length [OF w l])
  from inclusion_loop_walk [OF w len [symmetric], of H leaf] l b d len show ?R by auto
next
  assume ?R
  then obtain leaf root path where b: "LeafIndex p < TreeSize p"
      and d: "decodeHash (LeafHashHex p) = Some leaf" "decodeHash trustedRoot = Some root"
         "decodePath (AuditPath p) = Some path"
      and len: "length path = length (sides (LeafIndex p) (TreeSize p))"
      and c: "climb H leaf (sides (LeafIndex p) (TreeSize p)) path = root" by blast
  from inclusion_loop_walk [OF walk_sides [OF b] len [symmetric], of H leaf] b d c show ?L
    by (auto simp: VerifyInclusion_def)
qed

lemma VerifyConsistency_accepts:
  assumes "OldSize p < NewSize p"
  shows "VerifyConsistency H (Some p) = Ok () \<longleftrightarrow>
   0 < OldSize p \<and>
   (\<exists>oldRoot newRoot path seed rest. decodeHash (OldRoot p) = Some oldRoot \<and> decodeHash (NewRoot p) = Some newRoot \<and>
      decodePath (ConsistencyPath p) = Some path \<and> path \<noteq> [] \<and>
      consistency_seed p oldRoot path = (seed, rest) \<and>
      length rest = length (csides (OldSize p) (NewSize p)) \<and>
      climb_old H seed (csides (OldSize p) (NewSize p)) rest = oldRoot \<and>
      climb H seed (csides (OldSize p) (NewSize p)) rest = newRoot)" (is "?L \<longleftrightarrow> ?R")
proof -
  obtain f s where st: "strip_odd (OldSize p - 1) (NewSize p - 1) = (f, s)" by fastforce
  note st' = st [unfolded One_nat_def]
  show ?thesis
  proof
    assume ?L
    then obtain oldRoot newRoot path seed rest fn where b: "0 < OldSize p"
      and d: "decodeHash (OldRoot p) = Some oldRoot" "decodeHash (NewRoot p) = Some newRoot"
         "decodePath (ConsistencyPath p) = Some path" "path \<noteq> []"
      and sd: "consistency_seed p oldRoot path = (seed, rest)"
      and l: "consistency_loop H f s seed seed rest = Ok (fn, 0, oldRoot, newRoot)"
      using assms
      by (auto simp: VerifyConsistency_def st' consistency_seed_def split: if_splits option.splits sum.splits)
    from walk_csides [OF b assms st] have w: "walk f s (csides (OldSize p) (NewSize p)) = Some (0, 0)" .
    have len: "length rest = length (csides (OldSize p) (NewSize p))"
      by (rule consistency_loop_length [OF w l])
    from consistency_loop_walk [OF w len [symmetric], of H seed seed] l b d sd len show ?R by auto
  next
    assume ?R
    then obtain oldRoot newRoot path seed rest where b: "0 < OldSize p"
      and d: "decodeHash (OldRoot p) = Some oldRoot" "decodeHash (NewRoot p) = Some newRoot"
         "decodePath (ConsistencyPath p) = Some path" "path \<noteq> []"
      and sd: "consistency_seed p oldRoot path = (seed, rest)"
      and len: "length rest = length (csides (OldSize p) (NewSize p))"
      and c: "climb_old H seed (csides (OldSize p) (NewSize p)) rest = oldRoot"
         "climb H seed (csides (OldSize p) (NewSize p)) rest = newRoot" by blast
    from consistency_loop_walk [OF walk_csides [OF b assms st] len [symmetric], of H seed seed] b d c sd assms
    show ?L by (auto simp: VerifyConsistency_def st' consistency_seed_def split: if_splits)
  qed
qed

lemma Build_consistency_seed:
  assumes "0 < m" "m < n" "n \<le> length D" "hash_sized H" "well_hashed D"
    and p: "BuildConsistencyProof H D m n = Ok p"
  shows "\<exists>seed rest. consistencySubproof H D m 0 n True \<noteq> [] \<and>
           consistency_seed p (subtreeRoot H D 0 m) (consistencySubproof H D m 0 n True) = (seed, rest) \<and>
           length rest = length (csides m n) \<and>
           climb_old H seed (csides m n) rest = subtreeRoot H D 0 m \<and>
           climb H seed (csides m n) rest = subtreeRoot H D 0 n"
proof -
  from p assms have sz: "OldSize p = m" "NewSize p = n" by (auto simp: BuildConsistencyProof_def split: if_splits)
  have ne: "consistencySubproof H D m 0 n True \<noteq> []"
    using assms(1,2) by (subst consistencySubproof.simps) (simp add: Let_def)
  have z: "fst (strip_odd (m - 1) (n - 1)) = 0 \<longleftrightarrow> (\<exists>e. m = 2 ^ e)" by (rule strip_odd_zero [OF assms(1)])
  show ?thesis
  proof (cases "\<exists>e. m = 2 ^ e")
    case True
    with subproof_climb [of 0 n m True H D] assms(1,2) have
      "length (consistencySubproof H D m 0 n True) = length (csides m n)"
      "climb H (subtreeRoot H D 0 m) (csides m n) (consistencySubproof H D m 0 n True) = subtreeRoot H D 0 n"
      "climb_old H (subtreeRoot H D 0 m) (csides m n) (consistencySubproof H D m 0 n True) = subtreeRoot H D 0 m"
      by simp_all
    with True z ne show ?thesis by (simp add: consistency_seed_def sz)
  next
    case False
    with subproof_climb [of 0 n m True H D] assms(1,2) obtain seed rest where
      "consistencySubproof H D m 0 n True = seed # rest" "length rest = length (csides m n)"
      "climb H seed (csides m n) rest = subtreeRoot H D 0 n"
      "climb_old H seed (csides m n) rest = subtreeRoot H D 0 m" by auto
    with False z show ?thesis by (simp add: consistency_seed_def sz)
  qed
qed

section \<open>Journal\<close>

lemma trim_left_id:
  assumes "\<And>p. p \<in> set seqs \<Longrightarrow> p \<noteq> [] \<Longrightarrow> hd p \<noteq> hd s"
  shows "trim_left seqs s = s"
proof -
  have "first_some (\<lambda>p. if p = [] then None else strip_prefix p s) seqs = None"
  proof (subst first_some_None, intro ballI)
    fix p assume p: "p \<in> set seqs"
    show "(if p = [] then None else strip_prefix p s) = None"
    proof (cases p)
      case (Cons c q)
      with assms [OF p] show ?thesis by (cases s) (auto simp: strip_prefix_def)
    qed simp
  qed
  then show ?thesis by (subst trim_left.simps) simp
qed

lemma hex_not_space:
  "lower_hex_char c \<Longrightarrow> p \<in> set space_seqs \<union> set (map rev space_seqs) \<Longrightarrow> hd p \<noteq> c"
  by (auto simp: space_seqs_def lower_hex_char_def Let_def)

lemma TrimSpace_hex: "TrimSpace (hex_EncodeToString bs) = hex_EncodeToString bs"
proof (cases "hex_EncodeToString bs = []")
  case True
  have "trim_left seqs [] = []" for seqs
    by (subst trim_left.simps) (auto simp: strip_prefix_def dest!: first_some_SomeD split: option.splits if_splits)
  then show ?thesis by (simp add: True TrimSpace_def)
next
  case False
  let ?s = "hex_EncodeToString bs"
  have "lower_hex_char (hd ?s)" "lower_hex_char (hd (rev ?s))"
    using False lower_hex_encode [of bs] by (auto simp: list_all_iff hd_rev)
  then have "trim_left space_seqs ?s = ?s" "trim_left (map rev space_seqs) (rev ?s) = rev ?s"
    by (auto intro!: trim_left_id dest: hex_not_space simp del: set_map)
  then show ?thesis by (simp add: TrimSpace_def)
qed

lemma scan_lines_line:
  "CHR 0x0A \<notin> set s \<Longrightarrow> scan_lines acc (s @ CHR 0x0A # t) = (rev acc @ s) # scan_lines [] t"
  by (induction s arbitrary: acc) auto

lemma newline_not_hex: "CHR 0x0A \<notin> set (hex_EncodeToString bs)"
  using lower_hex_encode [of bs] by (auto simp: list_all_iff lower_hex_char_def)

lemma scan_journal: "scan_lines [] (concat (map journal_line D)) = map hex_EncodeToString D"
  by (induction D) (auto simp: journal_line_def scan_lines_line newline_not_hex)

lemma read_leaves_journal: "well_hashed D \<Longrightarrow> read_leaves n (map hex_EncodeToString D) = Ok D"
proof (induction D arbitrary: n)
  case Nil
  show ?case by simp
next
  case (Cons h D)
  then have "length h = HashSize" "well_hashed D" by (auto simp: well_hashed_def)
  moreover from this have "hex_EncodeToString h \<noteq> []"
    by (metis length_0_conv length_hex HashSize_def mult_is_0 zero_neq_numeral)
  ultimately show ?case
    using Cons.IH by (simp add: TrimSpace_hex MaxScanTokenSize_def HashSize_def)
qed

text \<open>The journal holds one line per leaf of the in-memory tree.\<close>

definition in_sync :: "Log \<Rightarrow> bool" where
  "in_sync l = (well_hashed (leafHashes l) \<and>
     (case journal l of None \<Rightarrow> leafHashes l = [] | Some f \<Rightarrow> f = concat (map journal_line (leafHashes l))))"

fun append_all :: "sha \<Rightarrow> Log \<Rightarrow> (journal_io \<times> byte list) list \<Rightarrow> Log" where
  "append_all H l [] = l"
| "append_all H l ((io, x) # xs) = append_all H (fst (Append H io l x)) xs"

lemma Append_in_sync:
  "hash_sized H \<Longrightarrow> in_sync l \<Longrightarrow> io = OpenFails \<or> io = IoOk \<Longrightarrow> in_sync (fst (Append H io l x))"
  by (auto simp: in_sync_def Append_def well_hashed_def LeafHash_def hash_sized_def Let_def split: option.splits)

lemma append_all_in_sync:
  "hash_sized H \<Longrightarrow> in_sync l \<Longrightarrow> list_all (\<lambda>(io, x). io = OpenFails \<or> io = IoOk) xs \<Longrightarrow> in_sync (append_all H l xs)"
proof (induction xs arbitrary: l)
  case Nil
  then show ?case by simp
next
  case (Cons a xs)
  then show ?case by (cases a) (simp add: Append_in_sync)
qed

lemma Open_in_sync: "in_sync l \<Longrightarrow> Open (journal l) = Ok l"
proof (cases "journal l")
  case None
  then show "in_sync l \<Longrightarrow> ?thesis" by (simp add: Open_def in_sync_def)
next
  case (Some f)
  assume "in_sync l"
  with Some have "well_hashed (leafHashes l)" "f = concat (map journal_line (leafHashes l))"
    by (simp_all add: in_sync_def)
  with Some show ?thesis by (simp add: Open_def scan_journal read_leaves_journal)
qed

section \<open>Properties\<close>

text \<open>A small hash with 32-byte values, to run the definitions on concrete logs.\<close>

definition toy_sha :: sha where
  "toy_sha bs = take 32 (map (\<lambda>b. b * 7 + 13) (rev bs) @ replicate 32 (of_nat (length bs)))"

lemma toy_sha_sized: "hash_sized toy_sha"
  by (auto simp: hash_sized_def toy_sha_def HashSize_def min_def)

text \<open>A log of two leaves with its inclusion proof for the second and its consistency proof from size one.\<close>

definition w_log :: Log where
  "w_log = \<lparr>leafHashes = [replicate 32 1, replicate 32 2], journal = None\<rparr>"

definition w_incl :: InclusionProof where
  "w_incl = \<lparr>LeafIndex = 1, TreeSize = 2, LeafHashHex = hex_EncodeToString (replicate 32 2),
     RootHash = hex_EncodeToString (NodeHash toy_sha (replicate 32 1) (replicate 32 2)),
     AuditPath = encodePath [replicate 32 1]\<rparr>"

definition w_cons :: ConsistencyProof where
  "w_cons = \<lparr>OldSize = 1, NewSize = 2, OldRoot = hex_EncodeToString (replicate 32 1),
     NewRoot = hex_EncodeToString (NodeHash toy_sha (replicate 32 1) (replicate 32 2)),
     ConsistencyPath = encodePath [replicate 32 2]\<rparr>"

lemma lp2_2: "largestPowerOfTwoBelow 2 = Suc 0"
  by (simp add: largestPowerOfTwoBelow_def lp2_loop.simps)

lemma sides_1_2: "sides (Suc 0) 2 = [True]"
  by (simp add: sides.simps lp2_2)

lemma csides_1_2: "csides (Suc 0) 2 = [False]"
  by (simp add: csides.simps lp2_2)

lemma w_log_root:
  "subtreeRoot H (leafHashes w_log) 0 2 = NodeHash H (replicate 32 1) (replicate 32 2)"
  by (simp add: subtreeRoot.simps lp2_2 w_log_def)

lemma w_log_head: "Root H w_log 2 = Ok (NodeHash H (replicate 32 1) (replicate 32 2))"
  using Root_subtree [of 2 w_log H] w_log_root [of H] by (simp add: w_log_def)

lemma w_log_pairs:
  "tree_pairs H (leafHashes w_log) 0 2 = {(replicate 32 1, replicate 32 2)}"
  by (simp add: tree_pairs.simps lp2_2 subtreeRoot.simps w_log_def)

text \<open>
  Every leaf of every tree size of the log has an inclusion proof, and that proof is accepted
  against the tree head of that size.
\<close>
theorem inclusion_complete:
  assumes "hash_sized H" "well_hashed (leafHashes l)" "i < n" "n \<le> Size l"
  shows "\<exists>p root. Log_InclusionProof H l i n = Ok p \<and> Root H l n = Ok root \<and>
           RootHash p = hex_EncodeToString root \<and>
           VerifyInclusion H (Some p) (hex_EncodeToString root) = Ok ()"
proof -
  let ?D = "leafHashes l"
  let ?p = "\<lparr>LeafIndex = i, TreeSize = n, LeafHashHex = hex_EncodeToString (?D ! i),
     RootHash = hex_EncodeToString (subtreeRoot H ?D 0 n), AuditPath = encodePath (inclusionPath H ?D i 0 n)\<rparr>"
  have n: "0 < n" "n \<le> length ?D" "0 \<le> i" using assms by (auto simp: Size_def)
  have dec: "decodePath (encodePath (inclusionPath H ?D i 0 n)) = Some (inclusionPath H ?D i 0 n)"
    using assms n by (intro decodePath_encode inclusionPath_sized) auto
  have len: "length (?D ! i) = HashSize" "length (subtreeRoot H ?D 0 n) = HashSize"
    using assms n by (auto simp: well_hashed_def list_all_length intro!: subtreeRoot_length)
  have "VerifyInclusion H (Some ?p) (hex_EncodeToString (subtreeRoot H ?D 0 n)) = Ok ()"
    unfolding VerifyInclusion_accepts
    using inclusion_climb [OF n(1) n(3) assms(3), of H ?D] assms(3) dec len by simp
  with assms n show ?thesis
    by (auto simp: Log_InclusionProof_def BuildInclusionProof_def Root_subtree)
qed

theorem inclusion_complete_witness:
  "\<exists>p root. Log_InclusionProof toy_sha \<lparr>leafHashes = [replicate 32 1, replicate 32 2, replicate 32 3], journal = None\<rparr> 2 3 = Ok p \<and>
     Root toy_sha \<lparr>leafHashes = [replicate 32 1, replicate 32 2, replicate 32 3], journal = None\<rparr> 3 = Ok root \<and>
     RootHash p = hex_EncodeToString root \<and>
     VerifyInclusion toy_sha (Some p) (hex_EncodeToString root) = Ok ()"
  by (rule inclusion_complete) (simp_all add: toy_sha_sized well_hashed_def HashSize_def Size_def)

text \<open>
  C24: An inclusion proof accepted against the tree head of a log of that size names the leaf hash
  the log stores at that index, and its audit path is the log's own, unless the node hash collides
  among the pairs hashed by the tree and by the verifier.
\<close>
theorem inclusion_sound:
  assumes "Root H l (TreeSize p) = Ok root"
    and "VerifyInclusion H (Some p) (hex_EncodeToString root) = Ok ()"
    and "collision_free H (tree_pairs H (leafHashes l) 0 (TreeSize p) \<union> inclusion_pairs H p)"
  shows "\<exists>leaf. decodeHash (LeafHashHex p) = Some leaf \<and> LeafHashAt l (LeafIndex p) = Ok leaf \<and>
           decodePath (AuditPath p) = Some (inclusionPath H (leafHashes l) (LeafIndex p) 0 (TreeSize p))"
proof -
  let ?D = "leafHashes l"
  from assms(2) obtain leaf root' path where b: "LeafIndex p < TreeSize p"
      and d: "decodeHash (LeafHashHex p) = Some leaf" "decodeHash (hex_EncodeToString root) = Some root'"
         "decodePath (AuditPath p) = Some path"
      and len: "length path = length (sides (LeafIndex p) (TreeSize p))"
      and c: "climb H leaf (sides (LeafIndex p) (TreeSize p)) path = root'"
    unfolding VerifyInclusion_accepts by blast
  have sz: "TreeSize p \<le> length ?D" using assms(1) by (simp add: Root_def split: if_splits)
  have "root' = root" using d(2) by (auto simp: decodeHash_def split: if_splits)
  moreover have "root = subtreeRoot H ?D 0 (TreeSize p)" using assms(1) b sz by (simp add: Root_subtree)
  ultimately have c': "climb H leaf (sides (LeafIndex p - 0) (TreeSize p - 0)) path = subtreeRoot H ?D 0 (TreeSize p)"
    using c by simp
  have "leaf = ?D ! LeafIndex p \<and> path = inclusionPath H ?D (LeafIndex p) 0 (TreeSize p)"
    by (rule inclusion_unique [OF _ _ b _ c']) (use b len assms(3) d in \<open>simp_all add: inclusion_pairs_def\<close>)
  with d b sz show ?thesis by (simp add: LeafHashAt_def)
qed

theorem inclusion_sound_witness:
  "\<exists>leaf. decodeHash (LeafHashHex w_incl) = Some leaf \<and> LeafHashAt w_log (LeafIndex w_incl) = Ok leaf \<and>
     decodePath (AuditPath w_incl) = Some (inclusionPath toy_sha (leafHashes w_log) (LeafIndex w_incl) 0 (TreeSize w_incl))"
proof (rule inclusion_sound)
  show r: "Root toy_sha w_log (TreeSize w_incl) = Ok (NodeHash toy_sha (replicate 32 1) (replicate 32 2))"
    by (simp add: w_incl_def w_log_head)
  show "VerifyInclusion toy_sha (Some w_incl) (hex_EncodeToString (NodeHash toy_sha (replicate 32 1) (replicate 32 2))) = Ok ()"
    using toy_sha_sized
    by (simp add: VerifyInclusion_accepts w_incl_def sides_1_2 encodePath_def HashSize_def NodeHash_def hash_sized_def)
  show "collision_free toy_sha (tree_pairs toy_sha (leafHashes w_log) 0 (TreeSize w_incl) \<union> inclusion_pairs toy_sha w_incl)"
    by (simp add: w_incl_def w_log_pairs inclusion_pairs_def encodePath_def sides_1_2 HashSize_def collision_free_def)
qed

text \<open>
  For any two sizes of the log the consistency proof that the log builds between them is
  accepted.
\<close>
theorem consistency_complete:
  assumes "hash_sized H" "well_hashed (leafHashes l)" "0 < m" "m \<le> n" "n \<le> Size l"
  shows "\<exists>p. Log_ConsistencyProof H l m n = Ok p \<and> VerifyConsistency H (Some p) = Ok ()"
proof -
  let ?D = "leafHashes l"
  have n: "n \<le> length ?D" using assms by (simp add: Size_def)
  have len: "length (subtreeRoot H ?D 0 m) = HashSize" "length (subtreeRoot H ?D 0 n) = HashSize"
    using assms n by (auto intro: subtreeRoot_length)
  obtain p where p: "BuildConsistencyProof H ?D m n = Ok p" using assms n by (auto simp: BuildConsistencyProof_def)
  then have f: "OldSize p = m" "NewSize p = n" "OldRoot p = hex_EncodeToString (subtreeRoot H ?D 0 m)"
      "NewRoot p = hex_EncodeToString (subtreeRoot H ?D 0 n)"
      "ConsistencyPath p = encodePath (if m < n then consistencySubproof H ?D m 0 n True else [])"
    using assms n by (auto simp: BuildConsistencyProof_def)
  have "VerifyConsistency H (Some p) = Ok ()"
  proof (cases "m < n")
    case True
    have "decodePath (ConsistencyPath p) = Some (consistencySubproof H ?D m 0 n True)"
      using True assms n f by (simp add: decodePath_encode consistencySubproof_sized)
    with True assms f len Build_consistency_seed [OF assms(3) True n assms(1,2) p] show ?thesis
      by (subst VerifyConsistency_accepts) auto
  next
    case False
    with assms f len show ?thesis by (simp add: VerifyConsistency_def encodePath_def)
  qed
  with p show ?thesis by (auto simp: Log_ConsistencyProof_def)
qed

theorem consistency_complete_witness:
  "\<exists>p. Log_ConsistencyProof toy_sha \<lparr>leafHashes = [replicate 32 1, replicate 32 2, replicate 32 3], journal = None\<rparr> 2 3 = Ok p \<and>
     VerifyConsistency toy_sha (Some p) = Ok ()"
  by (rule consistency_complete) (simp_all add: toy_sha_sized well_hashed_def HashSize_def Size_def)

text \<open>
  C25: A consistency proof accepted for the log's own tree head of the new size fixes the old root:
  it is the log's tree head of the old size, so an accepted proof cannot rewrite history, unless
  the node hash collides among the pairs hashed by the tree and by the verifier.
\<close>
theorem consistency_sound:
  assumes "Root H l (NewSize p) = Ok root" "NewRoot p = hex_EncodeToString root"
    and "VerifyConsistency H (Some p) = Ok ()"
    and "collision_free H (tree_pairs H (leafHashes l) 0 (NewSize p) \<union> consistency_pairs H p)"
  shows "\<exists>old. decodeHash (OldRoot p) = Some old \<and> Root H l (OldSize p) = Ok old"
proof -
  let ?D = "leafHashes l"
  have sz: "NewSize p \<le> length ?D" using assms(1) by (simp add: Root_def split: if_splits)
  have pos: "0 < OldSize p" "OldSize p \<le> NewSize p"
    using assms(3) by (auto simp: VerifyConsistency_def split: if_splits)
  have root: "root = subtreeRoot H ?D 0 (NewSize p)" using assms(1) pos sz by (simp add: Root_subtree)
  show ?thesis
  proof (cases "OldSize p < NewSize p")
    case True
    from assms(3) [unfolded VerifyConsistency_accepts [OF True]]
    obtain oldRoot newRoot path seed rest where d: "decodeHash (OldRoot p) = Some oldRoot"
        "decodeHash (NewRoot p) = Some newRoot" "decodePath (ConsistencyPath p) = Some path"
      and sd: "consistency_seed p oldRoot path = (seed, rest)"
      and len: "length rest = length (csides (OldSize p) (NewSize p))"
      and c: "climb_old H seed (csides (OldSize p) (NewSize p)) rest = oldRoot"
         "climb H seed (csides (OldSize p) (NewSize p)) rest = newRoot" by blast
    have "newRoot = root" using d(2) assms(2) by (auto simp: decodeHash_def split: if_splits)
    with c root have c': "climb H seed (csides (OldSize p - 0) (NewSize p - 0)) rest = subtreeRoot H ?D 0 (NewSize p)"
      by simp
    have "climb_old H seed (csides (OldSize p - 0) (NewSize p - 0)) rest = subtreeRoot H ?D 0 (OldSize p)"
      by (rule consistency_old_root [OF _ _ pos(2) _ c'])
        (use pos len assms(4) d sd in \<open>simp_all add: consistency_pairs_def\<close>)
    with c d pos sz show ?thesis by (simp add: Root_subtree)
  next
    case False
    with pos have eq: "OldSize p = NewSize p" by simp
    from assms(3) eq pos obtain r where "decodeHash (OldRoot p) = Some r" "decodeHash (NewRoot p) = Some r"
      by (auto simp: VerifyConsistency_def split: if_splits option.splits)
    with eq assms(1,2) show ?thesis by (auto simp: decodeHash_def split: if_splits)
  qed
qed

theorem consistency_sound_witness:
  "\<exists>old. decodeHash (OldRoot w_cons) = Some old \<and> Root toy_sha w_log (OldSize w_cons) = Ok old"
proof (rule consistency_sound)
  show "Root toy_sha w_log (NewSize w_cons) = Ok (NodeHash toy_sha (replicate 32 1) (replicate 32 2))"
    by (simp add: w_cons_def w_log_head)
  show "NewRoot w_cons = hex_EncodeToString (NodeHash toy_sha (replicate 32 1) (replicate 32 2))"
    by (simp add: w_cons_def)
  show "VerifyConsistency toy_sha (Some w_cons) = Ok ()"
    using toy_sha_sized
    by (simp add: VerifyConsistency_def w_cons_def encodePath_def HashSize_def NodeHash_def hash_sized_def strip_odd.simps)
  show "collision_free toy_sha (tree_pairs toy_sha (leafHashes w_log) 0 (NewSize w_cons) \<union> consistency_pairs toy_sha w_cons)"
    by (simp add: w_cons_def w_log_pairs consistency_pairs_def consistency_seed_def strip_odd.simps encodePath_def
        csides_1_2 HashSize_def collision_free_def)
qed

text \<open>
  Split views are refused: two different roots at one tree size never pass the consistency
  check, whatever path accompanies them, and any two tree heads that \<^verbatim>\<open>DetectEquivocation\<close> reports
  are in that situation.
\<close>
theorem equivocation_refused:
  assumes "DetectEquivocation (Some a) (Some b)"
    and "OldSize p = sth_TreeSize a" "NewSize p = sth_TreeSize b"
    and "OldRoot p = hex_EncodeToString ra" "NewRoot p = hex_EncodeToString rb"
    and "sth_RootHash a = hex_EncodeToString ra" "sth_RootHash b = hex_EncodeToString rb"
  shows "\<not> is_ok (VerifyConsistency H (Some p))"
proof -
  from assms have "OldSize p = NewSize p" "ra \<noteq> rb" by (auto simp: DetectEquivocation_def)
  with assms(4,5) show ?thesis
    by (auto simp: VerifyConsistency_def decodeHash_def split: option.splits if_splits)
qed

theorem equivocation_refused_witness:
  "\<not> is_ok (VerifyConsistency toy_sha (Some \<lparr>OldSize = 3, NewSize = 3, OldRoot = hex_EncodeToString [1],
      NewRoot = hex_EncodeToString [2], ConsistencyPath = []\<rparr>))"
  by (rule equivocation_refused [where a = "\<lparr>sth_TreeSize = 3, sth_RootHash = hex_EncodeToString [1],
        sth_Timestamp = [], sth_LogID = ''log'', sth_PublicKey = [], sth_Signature = []\<rparr>"
      and b = "\<lparr>sth_TreeSize = 3, sth_RootHash = hex_EncodeToString [2],
        sth_Timestamp = [], sth_LogID = ''log'', sth_PublicKey = [], sth_Signature = []\<rparr>" and ra = "[1]" and rb = "[2]"])
    (simp_all add: DetectEquivocation_def hex_EncodeToString_def hex_byte_def hex_digit_def)





text \<open>
  A failed sync is not rolled back: the line stays in the journal while the in-memory log
  rejects the leaf, so the next successful append publishes its leaf at an index where the re-opened
  log holds the rejected one.
\<close>
theorem failed_sync_forks_log:
  assumes "hash_sized H" "LeafHash H a \<noteq> LeafHash H b" "Open None = Ok l0"
    and "Append H SyncFails l0 a = (l1, r1)" "Append H IoOk l1 b = (l2, r2)"
  shows "\<not> is_ok r1 \<and> r2 = Ok 0 \<and> LeafHashAt l2 0 = Ok (LeafHash H b) \<and>
         (\<exists>l3. Open (journal l2) = Ok l3 \<and> LeafHashAt l3 0 = Ok (LeafHash H a) \<and>
               LeafHashAt l3 0 \<noteq> LeafHashAt l2 0)"
proof -
  from assms(3-5) have l2: "leafHashes l2 = [LeafHash H b]" "r1 = Err JournalIO" "r2 = Ok 0"
      "journal l2 = Some (concat (map journal_line [LeafHash H a, LeafHash H b]))"
    by (auto simp: Open_def Append_def Let_def)
  have "well_hashed [LeafHash H a, LeafHash H b]"
    using assms(1) by (simp add: well_hashed_def hash_sized_def LeafHash_def)
  then have "Open (journal l2) = Ok \<lparr>leafHashes = [LeafHash H a, LeafHash H b], journal = journal l2\<rparr>"
    using scan_journal [of "[LeafHash H a, LeafHash H b]"] read_leaves_journal [of "[LeafHash H a, LeafHash H b]" 0]
    by (simp add: Open_def l2(4))
  with l2 assms(2) show ?thesis by (simp add: LeafHashAt_def)
qed

theorem failed_sync_forks_log_witness:
  "\<exists>l3. Open (journal (fst (Append toy_sha IoOk (fst (Append toy_sha SyncFails \<lparr>leafHashes = [], journal = None\<rparr> [1])) [2]))) = Ok l3 \<and>
     LeafHashAt l3 0 \<noteq> LeafHashAt (fst (Append toy_sha IoOk (fst (Append toy_sha SyncFails \<lparr>leafHashes = [], journal = None\<rparr> [1])) [2])) 0"
proof -
  let ?l0 = "\<lparr>leafHashes = [], journal = None\<rparr>"
  let ?A1 = "Append toy_sha SyncFails ?l0 [1]"
  let ?A2 = "Append toy_sha IoOk (fst ?A1) [2]"
  have "LeafHash toy_sha [1] \<noteq> LeafHash toy_sha [2]" by (simp add: LeafHash_def toy_sha_def)
  from failed_sync_forks_log [OF toy_sha_sized this, of ?l0 "fst ?A1" "snd ?A1" "fst ?A2" "snd ?A2"]
  show ?thesis by (auto simp: Open_def)
qed



end
