(* ===== verification/Receipted_Switch.thy ===== *)
theory Receipted_Switch
  imports Helm_Prelude
begin

text \<open>
  The contract shared by the kernel's stop controls (the global freeze and the per-agent kill
  switch): a two-state switch whose successful transitions, and only these, each add one receipt
  to the audit trail. The locale states what a provider promises; the lemmas derive what an
  auditor may conclude from the receipts of any history of commands.
\<close>

text \<open>Receipts alternate, starting with one that satisfies \<open>p\<close> exactly when \<open>b\<close>.\<close>

fun alternating :: "bool \<Rightarrow> ('r \<Rightarrow> bool) \<Rightarrow> 'r list \<Rightarrow> bool" where
  "alternating b p [] = True"
| "alternating b p (r # rs) = (p r = b \<and> alternating (\<not> b) p rs)"

definition last_is :: "('r \<Rightarrow> bool) \<Rightarrow> 'r list \<Rightarrow> bool" where
  "last_is p rs = (rs \<noteq> [] \<and> p (last rs))"

text \<open>Commands: switch on or off, each with its arguments.\<close>

datatype 'a switch_cmd = SwitchOn 'a | SwitchOff 'a

fun switch_step :: "('a \<Rightarrow> 's \<Rightarrow> 's) \<Rightarrow> ('a \<Rightarrow> 's \<Rightarrow> 's) \<Rightarrow> 'a switch_cmd \<Rightarrow> 's \<Rightarrow> 's" where
  "switch_step on off (SwitchOn a) s = on a s"
| "switch_step on off (SwitchOff a) s = off a s"

definition switch_run :: "('a \<Rightarrow> 's \<Rightarrow> 's) \<Rightarrow> ('a \<Rightarrow> 's \<Rightarrow> 's) \<Rightarrow> 'a switch_cmd list \<Rightarrow> 's \<Rightarrow> 's" where
  "switch_run on off cmds s = fold (switch_step on off) cmds s"

lemma alternating_snoc:
  "alternating b p (rs @ [r]) \<longleftrightarrow> alternating b p rs \<and> p r = (if even (length rs) then b else \<not> b)"
  by (induction b p rs rule: alternating.induct) auto

lemma alternating_last:
  "alternating b p rs \<Longrightarrow> rs \<noteq> [] \<Longrightarrow> p (last rs) = (if odd (length rs) then b else \<not> b)"
  by (cases rs rule: rev_cases) (auto simp: alternating_snoc)

locale receipted_switch =
  fixes is_on :: "'s \<Rightarrow> bool"
    and trail :: "'s \<Rightarrow> 'r list"
    and on :: "'a \<Rightarrow> 's \<Rightarrow> 's"
    and off :: "'a \<Rightarrow> 's \<Rightarrow> 's"
    and on_receipt :: "'r \<Rightarrow> bool"
  assumes on_step: "\<not> is_on s \<Longrightarrow> is_on (on a s) \<and> (\<exists>r. on_receipt r \<and> trail (on a s) = trail s @ [r])"
    and on_refused: "is_on s \<Longrightarrow> is_on (on a s) \<and> trail (on a s) = trail s"
    and off_step: "is_on s \<Longrightarrow> \<not> is_on (off a s) \<and> (\<exists>r. \<not> on_receipt r \<and> trail (off a s) = trail s @ [r])"
    and off_refused: "\<not> is_on s \<Longrightarrow> \<not> is_on (off a s) \<and> trail (off a s) = trail s"
begin

lemma step_inv:
  assumes "alternating True on_receipt (trail s)" "is_on s \<longleftrightarrow> last_is on_receipt (trail s)"
  shows "alternating True on_receipt (trail (switch_step on off c s)) \<and>
         (is_on (switch_step on off c s) \<longleftrightarrow> last_is on_receipt (trail (switch_step on off c s)))"
proof (cases c)
  case (SwitchOn a)
  show ?thesis
  proof (cases "is_on s")
    case True
    with SwitchOn assms on_refused [OF True, of a] show ?thesis by simp
  next
    case False
    from on_step [OF this, of a] obtain r where r: "is_on (on a s)" "on_receipt r" "trail (on a s) = trail s @ [r]"
      by blast
    have "even (length (trail s))"
      using False assms alternating_last [OF assms(1)] by (cases "trail s = []") (auto simp: last_is_def split: if_splits)
    with SwitchOn r assms(1) show ?thesis by (simp add: alternating_snoc last_is_def)
  qed
next
  case (SwitchOff a)
  show ?thesis
  proof (cases "is_on s")
    case False
    with SwitchOff assms off_refused [OF False, of a] show ?thesis by simp
  next
    case True
    from off_step [OF this, of a] obtain r where r: "\<not> is_on (off a s)" "\<not> on_receipt r" "trail (off a s) = trail s @ [r]"
      by blast
    have "odd (length (trail s))"
      using True assms alternating_last [OF assms(1)] by (auto simp: last_is_def split: if_splits)
    with SwitchOff r assms(1) show ?thesis by (simp add: alternating_snoc last_is_def)
  qed
qed

lemma run_inv:
  "alternating True on_receipt (trail s) \<Longrightarrow> is_on s \<longleftrightarrow> last_is on_receipt (trail s) \<Longrightarrow>
   alternating True on_receipt (trail (switch_run on off cmds s)) \<and>
   (is_on (switch_run on off cmds s) \<longleftrightarrow> last_is on_receipt (trail (switch_run on off cmds s)))"
  unfolding switch_run_def
proof (induction cmds arbitrary: s)
  case Nil
  then show ?case by simp
next
  case (Cons c cmds)
  from step_inv [OF Cons.prems, of c] Cons.IH [of "switch_step on off c s"] show ?case by simp
qed

end

end
