(* ===== verification/Stop_Plane.thy ===== *)
theory Stop_Plane
  imports Receipted_Switch
begin

text \<open>
  The kernel's stop controls: \<^verbatim>\<open>core/pkg/kernel/freeze.go\<close> (global freeze), \<^verbatim>\<open>agent_kill.go\<close>
  (per-agent kill switch) and \<^verbatim>\<open>context_guard.go\<close> (environment fingerprint). Parameters are the
  digest of the canonical receipt (SHA-256 of its JSON), the RFC 3339 rendering of an instant, and
  what the clock and the persisted freeze state answer at each call.
\<close>

section \<open>Global freeze (freeze.go)\<close>

record FreezeReceipt =
  fr_Action :: string
  fr_Principal :: string
  fr_Timestamp :: gotime
  fr_ContentHash :: string

record FreezeStateSnapshot =
  fs_Frozen :: bool
  fs_FrozenBy :: string
  fs_FrozenAt :: gotime

record FreezeController =
  frozen :: bool
  frozenBy :: string
  frozenAt :: gotime
  receipts :: "FreezeReceipt list"

datatype freeze_error = AlreadyFrozen string gotime | NotFrozen | SourceError string

text \<open>
  The state source of a controller: absent, or what it answers at this call. A source is an
  arbitrary function of the environment, so each operation that reads it takes its answer.
\<close>

type_synonym state_source = "(string, FreezeStateSnapshot) res option"
type_synonym receipt_digest = "string \<times> string \<times> string \<Rightarrow> string"

definition NewFreezeController :: FreezeController where
  "NewFreezeController = \<lparr>frozen = False, frozenBy = [], frozenAt = 0, receipts = []\<rparr>"

definition hashReceipt :: "receipt_digest \<Rightarrow> (gotime \<Rightarrow> string) \<Rightarrow> FreezeReceipt \<Rightarrow> string" where
  "hashReceipt h fmt r = h (fr_Action r, fr_Principal r, fmt (fr_Timestamp r))"

definition RefreshState :: "state_source \<Rightarrow> FreezeController \<Rightarrow> FreezeController \<times> (freeze_error, unit) res" where
  "RefreshState src fc =
     (case src of
        None \<Rightarrow> (fc, Ok ())
      | Some (Inl e) \<Rightarrow> (fc\<lparr>frozen := True\<rparr>, Err (SourceError e))
      | Some (Inr state) \<Rightarrow>
          (if fs_Frozen state
           then (fc\<lparr>frozen := True, frozenBy := fs_FrozenBy state, frozenAt := fs_FrozenAt state\<rparr>, Ok ())
           else (fc\<lparr>frozen := False, frozenBy := [], frozenAt := 0\<rparr>, Ok ())))"

definition IsFrozen :: "state_source \<Rightarrow> FreezeController \<Rightarrow> FreezeController \<times> bool" where
  "IsFrozen src fc =
     (case RefreshState src fc of
        (fc', Inl e) \<Rightarrow> (fc', True)
      | (fc', Inr _) \<Rightarrow> (fc', frozen fc'))"

definition FreezeState :: "state_source \<Rightarrow> FreezeController \<Rightarrow> FreezeController \<times> (bool \<times> string \<times> gotime)" where
  "FreezeState src fc =
     (let fc' = fst (RefreshState src fc) in (fc', (frozen fc', frozenBy fc', frozenAt fc')))"

definition Freeze ::
  "receipt_digest \<Rightarrow> (gotime \<Rightarrow> string) \<Rightarrow> gotime \<Rightarrow> string \<Rightarrow> FreezeController \<Rightarrow>
   FreezeController \<times> (freeze_error, FreezeReceipt) res" where
  "Freeze h fmt now who fc =
     (if frozen fc then (fc, Err (AlreadyFrozen (frozenBy fc) (frozenAt fc)))
      else let receipt = \<lparr>fr_Action = ''freeze'', fr_Principal = who, fr_Timestamp = now, fr_ContentHash = []\<rparr>;
               receipt = receipt\<lparr>fr_ContentHash := hashReceipt h fmt receipt\<rparr>
        in (fc\<lparr>frozen := True, frozenBy := who, frozenAt := now, receipts := receipts fc @ [receipt]\<rparr>,
            Ok receipt))"

definition Unfreeze ::
  "receipt_digest \<Rightarrow> (gotime \<Rightarrow> string) \<Rightarrow> gotime \<Rightarrow> string \<Rightarrow> FreezeController \<Rightarrow>
   FreezeController \<times> (freeze_error, FreezeReceipt) res" where
  "Unfreeze h fmt now who fc =
     (if \<not> frozen fc then (fc, Err NotFrozen)
      else let receipt = \<lparr>fr_Action = ''unfreeze'', fr_Principal = who, fr_Timestamp = now, fr_ContentHash = []\<rparr>;
               receipt = receipt\<lparr>fr_ContentHash := hashReceipt h fmt receipt\<rparr>
        in (fc\<lparr>frozen := False, receipts := receipts fc @ [receipt], frozenBy := [], frozenAt := 0\<rparr>,
            Ok receipt))"

section \<open>Per-agent kill switch (agent\_kill.go)\<close>

record agentKillState =
  KilledBy :: string
  KilledAt :: gotime
  KillReason :: string
  SagaRunID :: string

record AgentKillReceipt =
  kr_Action :: string
  kr_AgentID :: string
  kr_Principal :: string
  kr_Reason :: string
  kr_SagaRunID :: string
  kr_Timestamp :: gotime
  kr_ContentHash :: string

record AgentKillSwitch =
  killed :: "(string, agentKillState) gomap"
  kill_receipts :: "AgentKillReceipt list"

datatype kill_error = AlreadyKilled string | NotKilled string

type_synonym kill_digest = "string \<times> string \<times> string \<times> string \<times> string \<times> string \<Rightarrow> string"

definition NewAgentKillSwitch :: AgentKillSwitch where
  "NewAgentKillSwitch = \<lparr>killed = [], kill_receipts = []\<rparr>"

definition hashKillReceipt :: "kill_digest \<Rightarrow> (gotime \<Rightarrow> string) \<Rightarrow> AgentKillReceipt \<Rightarrow> string" where
  "hashKillReceipt h fmt r =
     h (kr_Action r, kr_AgentID r, kr_Principal r, kr_Reason r, kr_SagaRunID r, fmt (kr_Timestamp r))"

definition IsKilled :: "AgentKillSwitch \<Rightarrow> string \<Rightarrow> bool" where
  "IsKilled k agentID = (map_of (killed k) agentID \<noteq> None)"

definition Kill ::
  "kill_digest \<Rightarrow> (gotime \<Rightarrow> string) \<Rightarrow> gotime \<Rightarrow> string \<Rightarrow> string \<Rightarrow> string \<Rightarrow> AgentKillSwitch \<Rightarrow>
   AgentKillSwitch \<times> (kill_error, AgentKillReceipt) res" where
  "Kill h fmt now agentID who reason k =
     (if IsKilled k agentID then (k, Err (AlreadyKilled agentID))
      else let state = \<lparr>KilledBy = who, KilledAt = now, KillReason = reason, SagaRunID = []\<rparr>;
               receipt = \<lparr>kr_Action = ''KILL'', kr_AgentID = agentID, kr_Principal = who, kr_Reason = reason,
                          kr_SagaRunID = [], kr_Timestamp = now, kr_ContentHash = []\<rparr>;
               receipt = receipt\<lparr>kr_ContentHash := hashKillReceipt h fmt receipt\<rparr>
        in (k\<lparr>killed := AList.update agentID state (killed k), kill_receipts := kill_receipts k @ [receipt]\<rparr>,
            Ok receipt))"

definition Revive ::
  "kill_digest \<Rightarrow> (gotime \<Rightarrow> string) \<Rightarrow> gotime \<Rightarrow> string \<Rightarrow> string \<Rightarrow> AgentKillSwitch \<Rightarrow>
   AgentKillSwitch \<times> (kill_error, AgentKillReceipt) res" where
  "Revive h fmt now agentID who k =
     (if \<not> IsKilled k agentID then (k, Err (NotKilled agentID))
      else let receipt = \<lparr>kr_Action = ''REVIVE'', kr_AgentID = agentID, kr_Principal = who, kr_Reason = [],
                          kr_SagaRunID = [], kr_Timestamp = now, kr_ContentHash = []\<rparr>;
               receipt = receipt\<lparr>kr_ContentHash := hashKillReceipt h fmt receipt\<rparr>
        in (k\<lparr>killed := AList.delete agentID (killed k), kill_receipts := kill_receipts k @ [receipt]\<rparr>,
            Ok receipt))"

definition ListKilled :: "AgentKillSwitch \<Rightarrow> string list" where
  "ListKilled k = map fst (killed k)"

section \<open>Environment fingerprint (context\_guard.go)\<close>

record ContextGuard =
  bootFingerprint :: string
  bootTime :: gotime
  validationCount :: int
  mismatchCount :: int

record ContextMismatchError =
  cm_BootFingerprint :: string
  cm_CurrentFingerprint :: string
  cm_BootTime :: gotime
  cm_DetectedAt :: gotime

definition NewContextGuardWithFingerprint :: "gotime \<Rightarrow> string \<Rightarrow> ContextGuard" where
  "NewContextGuardWithFingerprint now fingerprint =
     \<lparr>bootFingerprint = fingerprint, bootTime = now, validationCount = 0, mismatchCount = 0\<rparr>"

text \<open>
  \<open>computeFingerprint\<close> hashes the platform, architecture, host name, executable and working
  directory, leaving out those the system does not report; \<open>h\<close> is the hexadecimal SHA-256.
\<close>

fun join_bar :: "string list \<Rightarrow> string" where
  "join_bar [] = []"
| "join_bar [s] = s"
| "join_bar (s # t # ss) = s @ CHR ''|'' # join_bar (t # ss)"

definition computeFingerprint ::
  "(string \<Rightarrow> string) \<Rightarrow> string \<Rightarrow> string \<Rightarrow> string option \<Rightarrow> string option \<Rightarrow> string option \<Rightarrow> string" where
  "computeFingerprint h goos goarch hostname exe wd =
     h (join_bar ([goos, goarch] @ concat (map (\<lambda>p. case p of None \<Rightarrow> [] | Some s \<Rightarrow> [s]) [hostname, exe, wd])))"

definition Validate :: "gotime \<Rightarrow> string \<Rightarrow> ContextGuard \<Rightarrow> ContextGuard \<times> (ContextMismatchError, unit) res" where
  "Validate now currentFingerprint cg =
     (let cg = cg\<lparr>validationCount := validationCount cg + 1\<rparr> in
      if bootFingerprint cg = [] then (cg, Ok ())
      else if currentFingerprint \<noteq> bootFingerprint cg then
        (cg\<lparr>mismatchCount := mismatchCount cg + 1\<rparr>,
         Err \<lparr>cm_BootFingerprint = bootFingerprint cg, cm_CurrentFingerprint = currentFingerprint,
              cm_BootTime = bootTime cg, cm_DetectedAt = now\<rparr>)
      else (cg, Ok ()))"

definition ValidateCurrent ::
  "(string \<Rightarrow> string) \<Rightarrow> string \<Rightarrow> string \<Rightarrow> string option \<Rightarrow> string option \<Rightarrow> string option \<Rightarrow> gotime \<Rightarrow>
   ContextGuard \<Rightarrow> ContextGuard \<times> (ContextMismatchError, unit) res" where
  "ValidateCurrent h goos goarch hostname exe wd now cg =
     Validate now (computeFingerprint h goos goarch hostname exe wd) cg"

text \<open>The error text slices both fingerprints to 12 bytes; Go panics on a shorter string (\<open>None\<close>).\<close>

definition ContextMismatch_Error :: "ContextMismatchError \<Rightarrow> string option" where
  "ContextMismatch_Error e =
     (if length (cm_BootFingerprint e) < 12 \<or> length (cm_CurrentFingerprint e) < 12 then None
      else Some (''CONTEXT_MISMATCH: boot='' @ take 12 (cm_BootFingerprint e) @ '' current='' @
                 take 12 (cm_CurrentFingerprint e)))"

section \<open>The controls as receipted switches\<close>

definition freeze_on :: "receipt_digest \<Rightarrow> (gotime \<Rightarrow> string) \<Rightarrow> gotime \<times> string \<Rightarrow> FreezeController \<Rightarrow> FreezeController" where
  "freeze_on h fmt a fc = fst (Freeze h fmt (fst a) (snd a) fc)"

definition freeze_off :: "receipt_digest \<Rightarrow> (gotime \<Rightarrow> string) \<Rightarrow> gotime \<times> string \<Rightarrow> FreezeController \<Rightarrow> FreezeController" where
  "freeze_off h fmt a fc = fst (Unfreeze h fmt (fst a) (snd a) fc)"

definition is_freeze_receipt :: "FreezeReceipt \<Rightarrow> bool" where
  "is_freeze_receipt r = (fr_Action r = ''freeze'')"

interpretation freeze: receipted_switch frozen receipts "freeze_on h fmt" "freeze_off h fmt" is_freeze_receipt for h fmt
  by unfold_locales (auto simp: freeze_on_def freeze_off_def Freeze_def Unfreeze_def is_freeze_receipt_def Let_def)

definition agent_trail :: "string \<Rightarrow> AgentKillSwitch \<Rightarrow> AgentKillReceipt list" where
  "agent_trail agentID k = filter (\<lambda>r. kr_AgentID r = agentID) (kill_receipts k)"

text \<open>Commands of one agent's switch may be interleaved with commands to other agents.\<close>

definition kill_on ::
  "kill_digest \<Rightarrow> (gotime \<Rightarrow> string) \<Rightarrow> string \<Rightarrow> gotime \<times> string \<times> string \<Rightarrow> AgentKillSwitch \<Rightarrow> AgentKillSwitch" where
  "kill_on h fmt agentID a k = (case a of (now, who, reason) \<Rightarrow> fst (Kill h fmt now agentID who reason k))"

definition kill_off ::
  "kill_digest \<Rightarrow> (gotime \<Rightarrow> string) \<Rightarrow> string \<Rightarrow> gotime \<times> string \<times> string \<Rightarrow> AgentKillSwitch \<Rightarrow> AgentKillSwitch" where
  "kill_off h fmt agentID a k = (case a of (now, who, _) \<Rightarrow> fst (Revive h fmt now agentID who k))"

definition is_kill_receipt :: "AgentKillReceipt \<Rightarrow> bool" where
  "is_kill_receipt r = (kr_Action r = ''KILL'')"

interpretation kill: receipted_switch "\<lambda>k. IsKilled k agentID" "agent_trail agentID" "kill_on h fmt agentID" "kill_off h fmt agentID"
    is_kill_receipt for h fmt agentID
  by unfold_locales
    (auto simp: kill_on_def kill_off_def Kill_def Revive_def is_kill_receipt_def agent_trail_def IsKilled_def Let_def)

lemma Kill_other: "b \<noteq> a \<Longrightarrow> IsKilled (fst (Kill h fmt now a p r k)) b = IsKilled k b"
  by (auto simp: Kill_def IsKilled_def Let_def)

lemma Revive_other: "b \<noteq> a \<Longrightarrow> IsKilled (fst (Revive h fmt now a p k)) b = IsKilled k b"
  by (auto simp: Revive_def IsKilled_def Let_def)

lemma Kill_other_trail: "b \<noteq> a \<Longrightarrow> agent_trail b (fst (Kill h fmt now a p r k)) = agent_trail b k"
  by (auto simp: Kill_def agent_trail_def Let_def)

lemma Revive_other_trail: "b \<noteq> a \<Longrightarrow> agent_trail b (fst (Revive h fmt now a p k)) = agent_trail b k"
  by (auto simp: Revive_def agent_trail_def Let_def)

lemmas [op_frame] = Kill_other Revive_other Kill_other_trail Revive_other_trail

text \<open>A history of the kill switch: commands to any agents, in any order.\<close>

datatype kill_cmd = CmdKill string gotime string string | CmdRevive string gotime string

fun kill_step :: "kill_digest \<Rightarrow> (gotime \<Rightarrow> string) \<Rightarrow> kill_cmd \<Rightarrow> AgentKillSwitch \<Rightarrow> AgentKillSwitch" where
  "kill_step h fmt (CmdKill a now p r) k = fst (Kill h fmt now a p r k)"
| "kill_step h fmt (CmdRevive a now p) k = fst (Revive h fmt now a p k)"

definition kill_history_ok :: "AgentKillSwitch \<Rightarrow> bool" where
  "kill_history_ok k = (\<forall>a. alternating True is_kill_receipt (agent_trail a k) \<and>
      (IsKilled k a \<longleftrightarrow> last_is is_kill_receipt (agent_trail a k)))"

lemma kill_step_agent: "kill_step h fmt (CmdKill a now p r) k = switch_step (kill_on h fmt a) (kill_off h fmt a) (SwitchOn (now, p, r)) k"
    "kill_step h fmt (CmdRevive a now p) k = switch_step (kill_on h fmt a) (kill_off h fmt a) (SwitchOff (now, p, r)) k"
  by (simp_all add: kill_on_def kill_off_def)

lemma kill_step_history: "kill_history_ok k \<Longrightarrow> kill_history_ok (kill_step h fmt c k)"
  unfolding kill_history_ok_def
proof (intro allI)
  fix a
  assume inv: "\<forall>a. alternating True is_kill_receipt (agent_trail a k) \<and> (IsKilled k a \<longleftrightarrow> last_is is_kill_receipt (agent_trail a k))"
  show "alternating True is_kill_receipt (agent_trail a (kill_step h fmt c k)) \<and>
        (IsKilled (kill_step h fmt c k) a \<longleftrightarrow> last_is is_kill_receipt (agent_trail a (kill_step h fmt c k)))"
  proof (cases c)
    case (CmdKill b now p r)
    show ?thesis
    proof (cases "a = b")
      case True
      show ?thesis unfolding CmdKill kill_step_agent True by (rule kill.step_inv) (use inv in auto)
    next
      case False
      with CmdKill inv show ?thesis by (simp add: op_frame)
    qed
  next
    case (CmdRevive b now p)
    show ?thesis
    proof (cases "a = b")
      case True
      show ?thesis unfolding CmdRevive kill_step_agent(2) [where r = "[]"] True
        by (rule kill.step_inv) (use inv in auto)
    next
      case False
      with CmdRevive inv show ?thesis by (simp add: op_frame)
    qed
  qed
qed

section \<open>Properties\<close>

text \<open>
  The freeze receipts are the history of the freeze: after any sequence of freeze and unfreeze
  commands on a new in-memory controller, the receipts alternate freeze, unfreeze, freeze, ...,
  and decisions are blocked exactly when the last receipt is a freeze.
\<close>
theorem freeze_receipts_tell_state:
  "alternating True is_freeze_receipt (receipts (switch_run (freeze_on h fmt) (freeze_off h fmt) cmds NewFreezeController)) \<and>
   (snd (IsFrozen None (switch_run (freeze_on h fmt) (freeze_off h fmt) cmds NewFreezeController)) \<longleftrightarrow>
    last_is is_freeze_receipt (receipts (switch_run (freeze_on h fmt) (freeze_off h fmt) cmds NewFreezeController)))"
  using freeze.run_inv [of NewFreezeController h fmt cmds]
  by (simp add: NewFreezeController_def last_is_def IsFrozen_def RefreshState_def)

text \<open>
  C29: An unreadable freeze state blocks: when the state source fails, \<^verbatim>\<open>IsFrozen\<close> answers true and
  latches it, so that the controller stays frozen for readers without the source and only an
  explicit unfreeze or a readable unfrozen state clears it.
\<close>
theorem unreadable_source_freezes:
  assumes "IsFrozen (Some (Inl e)) fc = (fc', b)"
  shows "b \<and> snd (IsFrozen None fc') \<and> snd (IsFrozen (Some (Inl e')) fc') \<and>
         (\<forall>h fmt now p. \<not> is_ok (snd (Freeze h fmt now p fc'))) \<and>
         (\<forall>st. snd (IsFrozen (Some (Inr st)) fc') = fs_Frozen st) \<and> receipts fc' = receipts fc"
  using assms by (auto simp: IsFrozen_def RefreshState_def Freeze_def)

theorem unreadable_source_freezes_witness:
  "snd (IsFrozen None (fst (IsFrozen (Some (Inl ''io'')) NewFreezeController)))"
  using unreadable_source_freezes [of "''io''" NewFreezeController "fst (IsFrozen (Some (Inl ''io'')) NewFreezeController)"
      "snd (IsFrozen (Some (Inl ''io'')) NewFreezeController)"]
  by simp

text \<open>
  Kill and revive act on one agent each: in any history of commands to any agents, each
  agent's own receipts alternate kill and revive, and the agent is blocked exactly when its last
  receipt is a kill.
\<close>
theorem kill_receipts_tell_state:
  "alternating True is_kill_receipt (agent_trail a (fold (kill_step h fmt) cmds NewAgentKillSwitch)) \<and>
   (IsKilled (fold (kill_step h fmt) cmds NewAgentKillSwitch) a \<longleftrightarrow>
    last_is is_kill_receipt (agent_trail a (fold (kill_step h fmt) cmds NewAgentKillSwitch)))"
proof -
  have "kill_history_ok NewAgentKillSwitch"
    by (simp add: kill_history_ok_def NewAgentKillSwitch_def agent_trail_def IsKilled_def last_is_def)
  then have "kill_history_ok (fold (kill_step h fmt) cmds NewAgentKillSwitch)"
    by (induction cmds arbitrary: rule: rev_induct) (auto intro: kill_step_history)
  then show ?thesis by (simp add: kill_history_ok_def)
qed

text \<open>
  The error text of a context mismatch panics for a fingerprint shorter than 12 bytes: a guard
  with such a boot fingerprint refuses every other fingerprint with an error whose text cannot be
  produced.
\<close>
theorem short_fingerprint_error_panics:
  assumes "bootFingerprint cg \<noteq> []" "length (bootFingerprint cg) < 12" "current \<noteq> bootFingerprint cg"
  shows "\<exists>e. snd (Validate now current cg) = Err e \<and> ContextMismatch_Error e = None"
  using assms by (auto simp: Validate_def ContextMismatch_Error_def)

theorem short_fingerprint_error_panics_witness:
  "\<exists>e. snd (Validate 5 ''other-fingerprint'' (NewContextGuardWithFingerprint 1 ''boot-fp'')) = Err e \<and>
       ContextMismatch_Error e = None"
  by (rule short_fingerprint_error_panics) (simp_all add: NewContextGuardWithFingerprint_def)

end
