(* ===== verification/Boundary_Checks.thy ===== *)
theory Boundary_Checks
  imports Helm_Prelude
begin

text \<open>
  Two checks of the decision boundary: credential isolation, \<^verbatim>\<open>core/pkg/identity/isolation.go\<close>, and
  the egress firewall, \<^verbatim>\<open>core/pkg/firewall/egress.go\<close>, with the tool firewall of
  \<^verbatim>\<open>core/pkg/firewall/firewall.go\<close>. The address library (\<^verbatim>\<open>net.ParseIP\<close>, \<^verbatim>\<open>net.ParseCIDR\<close>,
  \<^verbatim>\<open>Contains\<close>), the Unicode case tables, the JSON-schema validator and the downstream dispatcher
  are parameters.
\<close>

section \<open>Credential isolation (isolation.go)\<close>

record IsolationViolationRecord =
  iv_CredentialHash :: string
  iv_AttemptingPrincipal :: string
  iv_BoundPrincipal :: string
  iv_SessionID :: string
  iv_DetectedAt :: gotime

record IsolationChecker =
  bindings :: "(string, string) gomap"
  history :: "IsolationViolationRecord list"

record IsolationViolationError =
  ie_CredentialHash :: string
  ie_AttemptingPrincipal :: string
  ie_BoundPrincipal :: string

definition NewIsolationChecker :: IsolationChecker where
  "NewIsolationChecker = \<lparr>bindings = [], history = []\<rparr>"

definition ValidateAgentIdentity ::
  "gotime \<Rightarrow> string \<Rightarrow> string \<Rightarrow> string \<Rightarrow> IsolationChecker \<Rightarrow> IsolationChecker \<times> (IsolationViolationError, unit) res" where
  "ValidateAgentIdentity now principalID credentialHash sessionID ic =
     (case map_of (bindings ic) credentialHash of
        Some existing \<Rightarrow>
          (if existing \<noteq> principalID then
             (ic\<lparr>history := history ic @ [\<lparr>iv_CredentialHash = credentialHash, iv_AttemptingPrincipal = principalID,
                 iv_BoundPrincipal = existing, iv_SessionID = sessionID, iv_DetectedAt = now\<rparr>]\<rparr>,
              Err \<lparr>ie_CredentialHash = credentialHash, ie_AttemptingPrincipal = principalID, ie_BoundPrincipal = existing\<rparr>)
           else (ic, Ok ()))
      | None \<Rightarrow> (ic\<lparr>bindings := AList.update credentialHash principalID (bindings ic)\<rparr>, Ok ()))"

definition BindingCount :: "IsolationChecker \<Rightarrow> nat" where
  "BindingCount ic = length (bindings ic)"

text \<open>
  A history of requests, each a time, a principal, a credential and a session, and the abstract
  owner of a credential: the principal bound before, else the first to present it.
\<close>

record identity_request =
  rq_now :: gotime
  rq_principal :: string
  rq_credential :: string
  rq_session :: string

fun validate_all :: "IsolationChecker \<Rightarrow> identity_request list \<Rightarrow> IsolationChecker \<times> bool list" where
  "validate_all ic [] = (ic, [])"
| "validate_all ic (q # qs) =
     (case ValidateAgentIdentity (rq_now q) (rq_principal q) (rq_credential q) (rq_session q) ic of
        (ic', r) \<Rightarrow> (case validate_all ic' qs of (ic'', rs) \<Rightarrow> (ic'', is_ok r # rs)))"

definition owner :: "IsolationChecker \<Rightarrow> identity_request list \<Rightarrow> string \<Rightarrow> string option" where
  "owner ic qs c =
     (case map_of (bindings ic) c of
        Some p \<Rightarrow> Some p
      | None \<Rightarrow> map_option rq_principal (find (\<lambda>q. rq_credential q = c) qs))"

section \<open>Egress firewall (egress.go)\<close>

record EgressPolicy =
  AllowedDomains :: "string list"
  DeniedDomains :: "string list"
  AllowedCIDRs :: "string list"
  AllowedProtocols :: "string list"
  MaxPayloadBytes :: int

record EgressDecision =
  ed_Allowed :: bool
  ed_ReasonCode :: string
  ed_Destination :: string
  ed_PayloadBytes :: int
  ed_CheckedAt :: gotime

record ('ip, 'net) netlib =
  ParseIP :: "string \<Rightarrow> 'ip option"
  ParseCIDR :: "string \<Rightarrow> 'net option"
  Contains :: "'net \<Rightarrow> 'ip \<Rightarrow> bool"

record 'net EgressChecker =
  policy :: EgressPolicy
  allowedSet :: "string list"
  deniedSet :: "string list"
  protoSet :: "string list"
  parsedCIDRs :: "'net list"
  totalChecks :: int
  deniedCount :: int
  allowedCount :: int

definition empty_policy :: EgressPolicy where
  "empty_policy = \<lparr>AllowedDomains = [], DeniedDomains = [], AllowedCIDRs = [], AllowedProtocols = [], MaxPayloadBytes = 0\<rparr>"

text \<open>The lookup sets hold the lowered entries; an unparsable CIDR is skipped.\<close>

definition NewEgressChecker ::
  "(string \<Rightarrow> string) \<Rightarrow> ('ip, 'net) netlib \<Rightarrow> EgressPolicy option \<Rightarrow> 'net EgressChecker" where
  "NewEgressChecker ul nl pol =
     (let p = (case pol of None \<Rightarrow> empty_policy | Some p \<Rightarrow> p)
      in \<lparr>policy = p,
          allowedSet = remdups (map (ToLower ul) (AllowedDomains p)),
          deniedSet = remdups (map (ToLower ul) (DeniedDomains p)),
          protoSet = remdups (map (ToLower ul) (AllowedProtocols p)),
          parsedCIDRs = List.map_filter (ParseCIDR nl) (AllowedCIDRs p),
          totalChecks = 0, deniedCount = 0, allowedCount = 0\<rparr>)"

definition CheckEgress ::
  "(string \<Rightarrow> string) \<Rightarrow> ('ip, 'net) netlib \<Rightarrow> gotime \<Rightarrow> string \<Rightarrow> string \<Rightarrow> int \<Rightarrow> 'net EgressChecker \<Rightarrow>
   'net EgressChecker \<times> EgressDecision" where
  "CheckEgress ul nl now destination protocol payloadBytes ec =
     (let ec = ec\<lparr>totalChecks := totalChecks ec + 1\<rparr>;
          dest = ToLower ul destination;
          proto = ToLower ul protocol;
          deny = (ec\<lparr>deniedCount := deniedCount ec + 1\<rparr>,
                  \<lparr>ed_Allowed = False, ed_ReasonCode = ''DATA_EGRESS_BLOCKED'', ed_Destination = destination,
                   ed_PayloadBytes = payloadBytes, ed_CheckedAt = now\<rparr>);
          allow = (ec\<lparr>allowedCount := allowedCount ec + 1\<rparr>,
                  \<lparr>ed_Allowed = True, ed_ReasonCode = [], ed_Destination = destination,
                   ed_PayloadBytes = payloadBytes, ed_CheckedAt = now\<rparr>)
      in if dest \<in> set (deniedSet ec) then deny
         else if length (protoSet ec) > 0 \<and> proto \<notin> set (protoSet ec) then deny
         else if MaxPayloadBytes (policy ec) > 0 \<and> payloadBytes > MaxPayloadBytes (policy ec) then deny
         else if dest \<in> set (allowedSet ec) then allow
         else case ParseIP nl destination of
                Some ip \<Rightarrow> if list_ex (\<lambda>cidr. Contains nl cidr ip) (parsedCIDRs ec) then allow else deny
              | None \<Rightarrow> deny)"

definition Stats :: "'net EgressChecker \<Rightarrow> int \<times> int \<times> int" where
  "Stats ec = (totalChecks ec, allowedCount ec, deniedCount ec)"

text \<open>A run of checks, with the decisions handed out; the counters stay far below the range of \<^verbatim>\<open>int64\<close>.\<close>

fun egress_run ::
  "(string \<Rightarrow> string) \<Rightarrow> ('ip, 'net) netlib \<Rightarrow> 'net EgressChecker \<Rightarrow> (gotime \<times> string \<times> string \<times> int) list \<Rightarrow>
   'net EgressChecker \<times> EgressDecision list" where
  "egress_run ul nl ec [] = (ec, [])"
| "egress_run ul nl ec ((now, d, proto, n) # cs) =
     (case CheckEgress ul nl now d proto n ec of (ec', dec) \<Rightarrow>
        (case egress_run ul nl ec' cs of (ec'', decs) \<Rightarrow> (ec'', dec # decs)))"

section \<open>Tool firewall (firewall.go)\<close>

text \<open>
  A compiled schema is what its \<^verbatim>\<open>Validate\<close> does: a predicate on parameters; \<open>compile\<close> is the schema
  compiler. \<open>params = None\<close> is the nil map.
\<close>

type_synonym 'p schema = "'p \<Rightarrow> bool"

record 'p PolicyFirewall =
  allowedTools :: "string list"
  schemas :: "(string, 'p schema) gomap"

datatype 'e firewall_error =
    NotInAllowlist string | MissingParameters string | SchemaViolation string
  | NoDispatcher | SchemaCompileFailed string | DispatchError 'e

definition NewPolicyFirewall :: "'p PolicyFirewall" where
  "NewPolicyFirewall = \<lparr>allowedTools = [], schemas = []\<rparr>"

definition AllowTool ::
  "(string \<Rightarrow> 'p schema option) \<Rightarrow> string \<Rightarrow> string \<Rightarrow> 'p PolicyFirewall \<Rightarrow> 'p PolicyFirewall \<times> ('e firewall_error, unit) res" where
  "AllowTool compile name schema f =
     (let f = f\<lparr>allowedTools := List.insert name (allowedTools f)\<rparr> in
      if schema = [] then (f\<lparr>schemas := AList.delete name (schemas f)\<rparr>, Ok ())
      else case compile schema of
             None \<Rightarrow> (f, Err (SchemaCompileFailed name))
           | Some s \<Rightarrow> (f\<lparr>schemas := AList.update name s (schemas f)\<rparr>, Ok ()))"

definition CallTool ::
  "(string \<Rightarrow> 'p option \<Rightarrow> ('e, 'r) res) option \<Rightarrow> string \<Rightarrow> 'p option \<Rightarrow> 'p PolicyFirewall \<Rightarrow> ('e firewall_error, 'r) res" where
  "CallTool nxt toolName params f =
     (if toolName \<notin> set (allowedTools f) then Err (NotInAllowlist toolName)
      else case (case map_of (schemas f) toolName of
                   None \<Rightarrow> None
                 | Some schema \<Rightarrow> (case params of
                     None \<Rightarrow> Some (MissingParameters toolName)
                   | Some p \<Rightarrow> if schema p then None else Some (SchemaViolation toolName))) of
             Some e \<Rightarrow> Err e
           | None \<Rightarrow> (case nxt of
                         None \<Rightarrow> Err NoDispatcher
                       | Some d \<Rightarrow> (case d toolName params of Inl e \<Rightarrow> Err (DispatchError e) | Inr r \<Rightarrow> Ok r)))"

section \<open>Lemmas\<close>

lemma validate_binding:
  "map_of (bindings (fst (ValidateAgentIdentity now p c s ic))) =
   (case map_of (bindings ic) c of None \<Rightarrow> (map_of (bindings ic))(c \<mapsto> p) | Some _ \<Rightarrow> map_of (bindings ic))"
  by (auto simp: ValidateAgentIdentity_def split: option.splits)

lemma validate_ok:
  "is_ok (snd (ValidateAgentIdentity now p c s ic)) \<longleftrightarrow> map_of (bindings ic) c = None \<or> map_of (bindings ic) c = Some p"
  by (auto simp: ValidateAgentIdentity_def split: option.splits)

lemma validate_history:
  "length (history (fst (ValidateAgentIdentity now p c s ic))) =
   length (history ic) + (if is_ok (snd (ValidateAgentIdentity now p c s ic)) then 0 else 1)"
  by (auto simp: ValidateAgentIdentity_def split: option.splits)

lemma owner_step:
  "owner (fst (ValidateAgentIdentity (rq_now q) (rq_principal q) (rq_credential q) (rq_session q) ic)) qs c = owner ic (q # qs) c"
  by (auto simp: owner_def validate_binding split: option.splits)

lemma list_ex_map_filter: "list_ex P (List.map_filter f xs) \<longleftrightarrow> (\<exists>y \<in> set xs. \<exists>x. f y = Some x \<and> P x)"
  by (induction xs) (auto simp: List.map_filter_simps split: option.splits)

lemma check_egress_counts:
  "case CheckEgress ul nl now d proto n ec of (ec', dec) \<Rightarrow>
     totalChecks ec' = totalChecks ec + 1 \<and>
     allowedCount ec' = allowedCount ec + (if ed_Allowed dec then 1 else 0) \<and>
     deniedCount ec' = deniedCount ec + (if ed_Allowed dec then 0 else 1) \<and>
     policy ec' = policy ec"
  by (auto simp: CheckEgress_def Let_def split: option.splits)

lemma egress_run_counts:
  "case egress_run ul nl ec cs of (ec', ds) \<Rightarrow>
     totalChecks ec' = totalChecks ec + int (length cs) \<and>
     allowedCount ec' = allowedCount ec + int (length (filter ed_Allowed ds)) \<and>
     deniedCount ec' = deniedCount ec + int (length (filter (\<lambda>d. \<not> ed_Allowed d) ds)) \<and>
     length ds = length cs \<and> policy ec' = policy ec"
proof (induction ul nl ec cs rule: egress_run.induct)
  case (1 ul nl ec)
  show ?case by simp
next
  case (2 ul nl ec now d proto n cs)
  obtain ec' dec where ce: "CheckEgress ul nl now d proto n ec = (ec', dec)" by (cases "CheckEgress ul nl now d proto n ec")
  show ?case
    using 2 [OF ce [symmetric]] check_egress_counts [where ul = ul and nl = nl and now = now and d = d and proto = proto and n = n and ec = ec] by (auto simp: ce split: prod.splits)
qed

section \<open>Properties\<close>

text \<open>
  C30: A credential binds to one principal for good: in any history of requests, exactly those
  requests are accepted whose principal is the credential's owner (the principal bound first), and
  every other attempt is recorded as one violation.
\<close>
theorem isolation_first_binding_wins:
  "snd (validate_all ic qs) = map (\<lambda>q. owner ic qs (rq_credential q) = Some (rq_principal q)) qs \<and>
   length (history (fst (validate_all ic qs))) =
     length (history ic) + length (filter (\<lambda>q. owner ic qs (rq_credential q) \<noteq> Some (rq_principal q)) qs)"
proof (induction qs arbitrary: ic)
  case Nil
  show ?case by simp
next
  case (Cons q qs)
  obtain ic' r where v: "ValidateAgentIdentity (rq_now q) (rq_principal q) (rq_credential q) (rq_session q) ic = (ic', r)"
    by (metis prod.exhaust)
  have own: "owner ic' qs = owner ic (q # qs)"
    using owner_step [of q ic qs] by (auto simp: v)
  have ok: "is_ok r \<longleftrightarrow> owner ic (q # qs) (rq_credential q) = Some (rq_principal q)"
    using validate_ok [of "rq_now q" "rq_principal q" "rq_credential q" "rq_session q" ic]
    by (auto simp: v owner_def split: option.splits)
  have "length (history ic') = length (history ic) + (if is_ok r then 0 else 1)"
    using validate_history [of "rq_now q" "rq_principal q" "rq_credential q" "rq_session q" ic] by (simp add: v)
  with Cons.IH [of ic'] ok show ?case by (auto simp: v own split: prod.splits)
qed

text \<open>
  Egress is denied unless it is explicitly permitted: a checker made from a policy allows a
  transmission exactly when the destination is not on the deny list, the protocol and the payload
  size are within the policy, and the destination is an allowed domain or an address in an allowed
  block. Deny entries win over allow entries, and no policy allows nothing.
\<close>
theorem egress_allows_iff:
  "(ed_Allowed (snd (CheckEgress ul nl now d proto n (NewEgressChecker ul nl (Some p)))) \<longleftrightarrow>
     ToLower ul d \<notin> ToLower ul ` set (DeniedDomains p) \<and>
     (AllowedProtocols p = [] \<or> ToLower ul proto \<in> ToLower ul ` set (AllowedProtocols p)) \<and>
     (MaxPayloadBytes p \<le> 0 \<or> n \<le> MaxPayloadBytes p) \<and>
     (ToLower ul d \<in> ToLower ul ` set (AllowedDomains p) \<or>
      (\<exists>ip cidr net. ParseIP nl d = Some ip \<and> cidr \<in> set (AllowedCIDRs p) \<and>
         ParseCIDR nl cidr = Some net \<and> Contains nl net ip))) \<and>
   \<not> ed_Allowed (snd (CheckEgress ul nl now d proto n (NewEgressChecker ul nl None)))"
proof -
  have "\<not> ed_Allowed (snd (CheckEgress ul nl now d proto n (NewEgressChecker ul nl None)))"
    by (simp add: CheckEgress_def NewEgressChecker_def Let_def empty_policy_def List.map_filter_simps split: option.split)
  moreover have "0 < length (remdups (map (ToLower ul) xs)) \<longleftrightarrow> xs \<noteq> []" for xs
    by (cases xs) auto
  ultimately show ?thesis
    by (cases "ParseIP nl d") (simp_all add: CheckEgress_def NewEgressChecker_def Let_def list_ex_map_filter,
        (auto simp: not_less)[2])
qed

text \<open>
  The statistics account for every check: after any sequence of checks by a fresh checker, the
  total is the number of checks, the allowed and denied counts are the numbers of decisions handed
  out that allow and that deny, and the policy in force has not changed.
\<close>
theorem egress_stats_consistent:
  "case egress_run ul nl (NewEgressChecker ul nl pol) checks of (ec, ds) \<Rightarrow>
     Stats ec = (int (length checks), int (length (filter ed_Allowed ds)), int (length (filter (\<lambda>d. \<not> ed_Allowed d) ds))) \<and>
     length ds = length checks \<and>
     policy ec = policy (NewEgressChecker ul nl pol)"
  using egress_run_counts [where ul = ul and nl = nl and ec = "NewEgressChecker ul nl pol" and cs = checks]
  by (auto simp: Stats_def NewEgressChecker_def Let_def split: prod.splits)

text \<open>
  The tool firewall dispatches a call exactly when the tool is on the allow list, its schema,
  if it has one, accepts the given parameters, and a dispatcher is configured; then the result is
  the dispatcher's.
\<close>
theorem tool_firewall_dispatches_iff:
  "CallTool nxt tool params f = Ok r \<longleftrightarrow>
     tool \<in> set (allowedTools f) \<and>
     (case map_of (schemas f) tool of None \<Rightarrow> True | Some s \<Rightarrow> (\<exists>p. params = Some p \<and> s p)) \<and>
     (\<exists>d. nxt = Some d \<and> d tool params = Ok r)"
  by (auto simp: CallTool_def split: option.splits sum.splits if_splits)

end
