(* ===== verification/Temporal.thy ===== *)
theory Temporal
  imports Helm_Prelude Complex_Main "HOL-Library.Signed_Division"
begin

text \<open>
  The temporal guardian, \<^verbatim>\<open>core/pkg/guardian/temporal.go\<close>: the sliding window of recent effects
  (the controllability envelope) and the graded response that escalates and de-escalates over it.
  A \<^verbatim>\<open>float64\<close> is a rational; \<open>fl\<close> rounds the exact result of a floating-point operation, and
  \<open>fmt1\<close> is \<^verbatim>\<open>fmt.Sprintf("%.1f", x)\<close>. Every reading of the clock is an argument of its own.
\<close>

section \<open>Levels and policy\<close>

type_synonym ResponseLevel = int

definition ResponseObserve :: ResponseLevel where "ResponseObserve = 0"
definition ResponseThrottle :: ResponseLevel where "ResponseThrottle = 1"
definition ResponseInterrupt :: ResponseLevel where "ResponseInterrupt = 2"
definition ResponseQuarantine :: ResponseLevel where "ResponseQuarantine = 3"
definition ResponseFailClosed :: ResponseLevel where "ResponseFailClosed = 4"

lemmas response_levels = ResponseObserve_def ResponseThrottle_def ResponseInterrupt_def
  ResponseQuarantine_def ResponseFailClosed_def

record GradedResponse =
  gr_Level :: ResponseLevel
  gr_Reason :: string
  gr_Duration :: godur
  gr_AllowEffect :: bool
  gr_WindowRate :: rat

record EscalationThreshold =
  et_Level :: ResponseLevel
  et_MaxRate :: rat
  et_SustainedFor :: godur
  et_CooldownAfter :: godur

record EscalationPolicy =
  Thresholds :: "EscalationThreshold list"
  WindowSize :: godur

definition DefaultEscalationPolicy :: EscalationPolicy where
  "DefaultEscalationPolicy =
     \<lparr>Thresholds =
        [\<lparr>et_Level = ResponseThrottle, et_MaxRate = 10, et_SustainedFor = 5 * second, et_CooldownAfter = 30 * second\<rparr>,
         \<lparr>et_Level = ResponseInterrupt, et_MaxRate = 50, et_SustainedFor = 3 * second, et_CooldownAfter = 60 * second\<rparr>,
         \<lparr>et_Level = ResponseQuarantine, et_MaxRate = 100, et_SustainedFor = 2 * second, et_CooldownAfter = 120 * second\<rparr>,
         \<lparr>et_Level = ResponseFailClosed, et_MaxRate = 200, et_SustainedFor = 1 * second, et_CooldownAfter = 300 * second\<rparr>],
      WindowSize = 60 * second\<rparr>"

section \<open>The envelope\<close>

record ControllabilityEnvelope =
  events :: "gotime list"
  window :: godur

definition NewControllabilityEnvelope :: "godur \<Rightarrow> ControllabilityEnvelope" where
  "NewControllabilityEnvelope w = \<lparr>events = [], window = w\<rparr>"

definition prune :: "gotime \<Rightarrow> ControllabilityEnvelope \<Rightarrow> ControllabilityEnvelope" where
  "prune now e = (let cutoff = now + - window e in e\<lparr>events := dropWhile (\<lambda>t. t < cutoff) (events e)\<rparr>)"

text \<open>\<open>Record\<close> reads the clock for the event and again for the pruning.\<close>

definition Record_effect :: "gotime \<Rightarrow> gotime \<Rightarrow> ControllabilityEnvelope \<Rightarrow> ControllabilityEnvelope" where
  "Record_effect now now' e = prune now' (e\<lparr>events := events e @ [now]\<rparr>)"

text \<open>\<^verbatim>\<open>Duration.Seconds\<close>: whole seconds plus the fraction, with Go's truncated division.\<close>

definition Seconds :: "(rat \<Rightarrow> rat) \<Rightarrow> godur \<Rightarrow> rat" where
  "Seconds fl d = fl (fl (of_int (d sdiv second)) + fl (fl (of_int (d smod second)) / 1000000000))"

definition Rate :: "(rat \<Rightarrow> rat) \<Rightarrow> gotime \<Rightarrow> ControllabilityEnvelope \<Rightarrow> ControllabilityEnvelope \<times> rat" where
  "Rate fl now e =
     (let e = prune now e in
      if length (events e) = 0 then (e, 0)
      else let windowSecs = Seconds fl (window e) in
           if windowSecs \<le> 0 then (e, 0)
           else (e, fl (fl (of_nat (length (events e))) / windowSecs)))"

definition Count :: "gotime \<Rightarrow> ControllabilityEnvelope \<Rightarrow> ControllabilityEnvelope \<times> nat" where
  "Count now e = (let e = prune now e in (e, length (events e)))"

section \<open>The guardian\<close>

record TemporalGuardian =
  envelope :: ControllabilityEnvelope
  tg_policy :: EscalationPolicy
  currentLevel :: ResponseLevel
  levelSince :: gotime
  sustainStart :: "(ResponseLevel, gotime) gomap"

definition NewTemporalGuardian :: "EscalationPolicy \<Rightarrow> gotime \<Rightarrow> TemporalGuardian" where
  "NewTemporalGuardian p now =
     \<lparr>envelope = NewControllabilityEnvelope (WindowSize p), tg_policy = p,
      currentLevel = ResponseObserve, levelSince = now, sustainStart = []\<rparr>"

text \<open>One iteration of the escalation loop, and the loop.\<close>

definition escalate_one :: "rat \<Rightarrow> gotime \<Rightarrow> EscalationThreshold \<Rightarrow> TemporalGuardian \<Rightarrow> TemporalGuardian" where
  "escalate_one rate now t tg =
     (if et_Level t \<le> currentLevel tg then tg
      else if et_MaxRate t \<le> rate then
        (case map_of (sustainStart tg) (et_Level t) of
           None \<Rightarrow> tg\<lparr>sustainStart := AList.update (et_Level t) now (sustainStart tg)\<rparr>
         | Some start \<Rightarrow>
             if et_SustainedFor t \<le> time_sub now start then
               tg\<lparr>currentLevel := et_Level t, levelSince := now,
                  sustainStart := filter (\<lambda>(level, _). \<not> level \<le> et_Level t) (sustainStart tg)\<rparr>
             else tg)
      else tg\<lparr>sustainStart := AList.delete (et_Level t) (sustainStart tg)\<rparr>)"

definition checkEscalation :: "rat \<Rightarrow> gotime \<Rightarrow> TemporalGuardian \<Rightarrow> TemporalGuardian" where
  "checkEscalation rate now tg = fold (escalate_one rate now) (Thresholds (tg_policy tg)) tg"

definition previousLevel :: "ResponseLevel \<Rightarrow> ResponseLevel" where
  "previousLevel level = (if level \<le> ResponseObserve then ResponseObserve else level - 1)"

definition checkDeescalation :: "rat \<Rightarrow> gotime \<Rightarrow> TemporalGuardian \<Rightarrow> TemporalGuardian" where
  "checkDeescalation rate now tg =
     (if currentLevel tg = ResponseObserve then tg
      else case find (\<lambda>t. et_Level t = currentLevel tg) (Thresholds (tg_policy tg)) of
             None \<Rightarrow> tg
           | Some t \<Rightarrow>
               if rate < et_MaxRate t \<and> et_CooldownAfter t \<le> time_sub now (levelSince tg) then
                 tg\<lparr>currentLevel := previousLevel (et_Level t), levelSince := now,
                    sustainStart := filter (\<lambda>(level, _). \<not> et_Level t \<le> level) (sustainStart tg)\<rparr>
               else tg)"

definition em_dash :: string where "em_dash = map char_of [0xE2, 0x80, 0x94 :: nat]"

definition reason :: "(rat \<Rightarrow> string) \<Rightarrow> (int \<Rightarrow> string) \<Rightarrow> rat \<Rightarrow> TemporalGuardian \<Rightarrow> string" where
  "reason fmt1 fmtd rate tg =
     (let l = currentLevel tg in
      if l = ResponseObserve then ''Normal operation ('' @ fmt1 rate @ '' effects/s)''
      else if l = ResponseThrottle then ''Rate limiting active ('' @ fmt1 rate @ '' effects/s exceeds threshold)''
      else if l = ResponseInterrupt then
        ''Action paused '' @ em_dash @ '' operator acknowledgment required ('' @ fmt1 rate @ '' effects/s)''
      else if l = ResponseQuarantine then
        ''Agent quarantined '' @ em_dash @ '' all effects blocked pending review ('' @ fmt1 rate @ '' effects/s)''
      else if l = ResponseFailClosed then
        ''EMERGENCY HALT '' @ em_dash @ '' fail-closed activated ('' @ fmt1 rate @ '' effects/s)''
      else ''Unknown level '' @ fmtd l @ '' ('' @ fmt1 rate @ '' effects/s)'')"

definition holdDuration :: "TemporalGuardian \<Rightarrow> godur" where
  "holdDuration tg =
     (let l = currentLevel tg in
      if l = ResponseThrottle then 1 * second
      else if l = ResponseInterrupt then 30 * second
      else if l = ResponseQuarantine then 120 * second
      else if l = ResponseFailClosed then 300 * second
      else 0)"

text \<open>The four clock readings of one evaluation: the event, two prunings, the decision.\<close>

record clock_reads =
  at_event :: gotime
  at_record_prune :: gotime
  at_rate_prune :: gotime
  at_decision :: gotime

record float_env =
  fl :: "rat \<Rightarrow> rat"
  fmt1 :: "rat \<Rightarrow> string"
  fmtd :: "int \<Rightarrow> string"

definition Evaluate :: "float_env \<Rightarrow> clock_reads \<Rightarrow> TemporalGuardian \<Rightarrow> TemporalGuardian \<times> GradedResponse" where
  "Evaluate fe c tg =
     (let env = Record_effect (at_event c) (at_record_prune c) (envelope tg);
          (env, rate) = Rate (fl fe) (at_rate_prune c) env;
          tg = tg\<lparr>envelope := env\<rparr>;
          now = at_decision c;
          tg = checkDeescalation rate now tg;
          tg = checkEscalation rate now tg
      in (tg, \<lparr>gr_Level = currentLevel tg, gr_Reason = reason (fmt1 fe) (fmtd fe) rate tg,
               gr_Duration = holdDuration tg, gr_AllowEffect = currentLevel tg \<le> ResponseThrottle,
               gr_WindowRate = rate\<rparr>))"

section \<open>Histories\<close>

text \<open>
  A run of evaluations and what it observed, oldest first: the rate and the time of each decision.
  A threshold is sustained since \<open>s\<close> when some final part of the history starts at time \<open>s\<close> and has
  the threshold's rate throughout. A \<open>ladder\<close> is a policy as its comment asks for: levels ascending,
  with rates that do not fall.
\<close>

definition eval_obs ::
  "float_env \<Rightarrow> TemporalGuardian \<times> (rat \<times> gotime) list \<Rightarrow> clock_reads \<Rightarrow> TemporalGuardian \<times> (rat \<times> gotime) list" where
  "eval_obs fe st c =
     (case st of (tg, hist) \<Rightarrow> (case Evaluate fe c tg of (tg', r) \<Rightarrow> (tg', hist @ [(gr_WindowRate r, at_decision c)])))"

definition tg_run :: "float_env \<Rightarrow> TemporalGuardian \<Rightarrow> clock_reads list \<Rightarrow> TemporalGuardian \<times> (rat \<times> gotime) list" where
  "tg_run fe tg cs = foldl (eval_obs fe) (tg, []) cs"

definition sustained :: "EscalationThreshold \<Rightarrow> gotime \<Rightarrow> (rat \<times> gotime) list \<Rightarrow> bool" where
  "sustained t s hist \<longleftrightarrow>
     (\<exists>n < length hist. snd (hist ! n) = s \<and> (\<forall>(r, _) \<in> set (drop n hist). et_MaxRate t \<le> r))"

definition ladder :: "EscalationPolicy \<Rightarrow> bool" where
  "ladder p \<longleftrightarrow>
     sorted_wrt (\<lambda>a b. et_Level a < et_Level b \<and> et_MaxRate a \<le> et_MaxRate b) (Thresholds p) \<and>
     (\<forall>t \<in> set (Thresholds p). 0 < et_Level t)"

definition respond :: "rat \<Rightarrow> gotime \<Rightarrow> TemporalGuardian \<Rightarrow> TemporalGuardian" where
  "respond rate now tg = checkEscalation rate now (checkDeescalation rate now tg)"

section \<open>Lemmas\<close>

lemma sustained_snoc:
  "sustained t s hist \<Longrightarrow> et_MaxRate t \<le> r \<Longrightarrow> sustained t s (hist @ [(r, now)])"
  unfolding sustained_def by (elim exE conjE) (auto simp: nth_append intro!: exI)

lemma sustained_now: "et_MaxRate t \<le> r \<Longrightarrow> sustained t now (hist @ [(r, now)])"
  unfolding sustained_def by (rule exI [of _ "length hist"]) simp

lemma sustained_time: "sustained t s hist \<Longrightarrow> s \<in> snd ` set hist"
  by (auto simp: sustained_def intro: rev_image_eqI)

lemma escalate_one_policy [simp]:
  "tg_policy (escalate_one r now t tg) = tg_policy tg" "envelope (escalate_one r now t tg) = envelope tg"
  by (auto simp: escalate_one_def split: option.splits)

lemma escalate_fold_policy [simp]:
  "tg_policy (fold (escalate_one r now) ts tg) = tg_policy tg" "envelope (fold (escalate_one r now) ts tg) = envelope tg"
  by (induction ts arbitrary: tg) auto

lemma deescalation_policy [simp]:
  "tg_policy (checkDeescalation r now tg) = tg_policy tg" "envelope (checkDeescalation r now tg) = envelope tg"
  by (auto simp: checkDeescalation_def split: option.splits)

lemma respond_policy [simp]: "tg_policy (respond r now tg) = tg_policy tg" "envelope (respond r now tg) = envelope tg"
  by (simp_all add: respond_def checkEscalation_def)

lemma escalate_fold_mono: "currentLevel tg \<le> currentLevel (fold (escalate_one r now) ts tg)"
proof (induction ts arbitrary: tg)
  case (Cons t ts)
  have "currentLevel tg \<le> currentLevel (escalate_one r now t tg)"
    by (auto simp: escalate_one_def split: option.splits)
  also have "\<dots> \<le> currentLevel (fold (escalate_one r now) ts (escalate_one r now t tg))" by (rule Cons)
  finally show ?case by simp
qed simp

lemma ladder_distinct:
  "ladder p \<Longrightarrow> t \<in> set (Thresholds p) \<Longrightarrow> u \<in> set (Thresholds p) \<Longrightarrow> et_Level t = et_Level u \<Longrightarrow> t = u"
  by (auto simp: ladder_def sorted_wrt_iff_nth_less in_set_conv_nth) (metis less_irrefl linorder_neqE_nat)

lemma ladder_rates:
  "ladder p \<Longrightarrow> t \<in> set (Thresholds p) \<Longrightarrow> u \<in> set (Thresholds p) \<Longrightarrow> et_Level t < et_Level u \<Longrightarrow> et_MaxRate t \<le> et_MaxRate u"
  by (auto simp: ladder_def sorted_wrt_iff_nth_less in_set_conv_nth) (metis less_asym linorder_neqE_nat)

text \<open>
  The invariant of the escalation loop, with \<open>ds\<close> the thresholds already visited: every marker
  belongs to a level above the current one and to a threshold sustained since the marker, up to this
  observation when visited; and a level that differs from \<open>l0\<close> was entered on a sustained rate.
\<close>

definition marks_ok :: "(EscalationThreshold \<Rightarrow> (rat \<times> gotime) list) \<Rightarrow> TemporalGuardian \<Rightarrow> bool" where
  "marks_ok h tg \<longleftrightarrow>
     (\<forall>k s. map_of (sustainStart tg) k = Some s \<longrightarrow>
        currentLevel tg < k \<and> (\<exists>t \<in> set (Thresholds (tg_policy tg)). et_Level t = k \<and> sustained t s (h t)))"

definition entered_ok :: "ResponseLevel \<Rightarrow> gotime \<Rightarrow> (rat \<times> gotime) list \<Rightarrow> TemporalGuardian \<Rightarrow> bool" where
  "entered_ok l0 now hist tg \<longleftrightarrow>
     currentLevel tg = l0 \<or>
     (\<exists>t \<in> set (Thresholds (tg_policy tg)). et_Level t = currentLevel tg \<and>
        (\<exists>s. sustained t s hist \<and> et_SustainedFor t \<le> time_sub now s))"

lemma escalate_one_inv:
  assumes "ladder (tg_policy tg)" and t: "t \<in> set (Thresholds (tg_policy tg))"
    and m: "marks_ok (\<lambda>u. if u \<in> ds then hist @ [(r, now)] else hist) tg" and tn: "t \<notin> ds"
    and e: "entered_ok l0 now (hist @ [(r, now)]) tg"
  shows "marks_ok (\<lambda>u. if u \<in> insert t ds then hist @ [(r, now)] else hist) (escalate_one r now t tg) \<and>
         entered_ok l0 now (hist @ [(r, now)]) (escalate_one r now t tg)"
proof -
  note dist = ladder_distinct [OF assms(1)]
  have mark: "currentLevel tg < k \<and> (\<exists>u \<in> set (Thresholds (tg_policy tg)). et_Level u = k \<and>
      sustained u s (if u \<in> ds then hist @ [(r, now)] else hist))" if "map_of (sustainStart tg) k = Some s" for k s
    using m that by (auto simp: marks_ok_def)
  have other: "currentLevel tg < k \<and> (\<exists>u \<in> set (Thresholds (tg_policy tg)). et_Level u = k \<and>
      sustained u s (if u \<in> insert t ds then hist @ [(r, now)] else hist))"
    if "map_of (sustainStart tg) k = Some s" "k \<noteq> et_Level t" for k s
    using mark [OF that(1)] that(2) by auto
  have own: "sustained t s hist" if "map_of (sustainStart tg) (et_Level t) = Some s" for s
    using mark [OF that] dist [OF t] tn by metis
  consider (skip) "et_Level t \<le> currentLevel tg"
    | (start) "currentLevel tg < et_Level t" "et_MaxRate t \<le> r" "map_of (sustainStart tg) (et_Level t) = None"
    | (hold) s where "currentLevel tg < et_Level t" "et_MaxRate t \<le> r" "map_of (sustainStart tg) (et_Level t) = Some s"
        "\<not> et_SustainedFor t \<le> time_sub now s"
    | (up) s where "currentLevel tg < et_Level t" "et_MaxRate t \<le> r" "map_of (sustainStart tg) (et_Level t) = Some s"
        "et_SustainedFor t \<le> time_sub now s"
    | (reset) "currentLevel tg < et_Level t" "r < et_MaxRate t"
    by (cases "map_of (sustainStart tg) (et_Level t)") (auto simp: not_le, fastforce+)
  then show ?thesis
  proof cases
    case skip
    then have "map_of (sustainStart tg) (et_Level t) = None"
      using mark [of "et_Level t"] by (cases "map_of (sustainStart tg) (et_Level t)") auto
    then have "marks_ok (\<lambda>u. if u \<in> insert t ds then hist @ [(r, now)] else hist) tg"
      unfolding marks_ok_def by (intro allI impI other) auto
    with skip e show ?thesis by (simp add: escalate_one_def)
  next
    case start
    with other e t sustained_now [of t r now hist] show ?thesis
      by (auto simp: escalate_one_def marks_ok_def entered_ok_def split: if_splits)
  next
    case hold
    have "sustained t s (hist @ [(r, now)])" using own [OF hold(3)] hold(2) by (rule sustained_snoc)
    then have "currentLevel tg < k \<and> (\<exists>u \<in> set (Thresholds (tg_policy tg)). et_Level u = k \<and>
        sustained u s' (if u \<in> insert t ds then hist @ [(r, now)] else hist))"
      if "map_of (sustainStart tg) k = Some s'" for k s'
      using other [OF that] hold(1,3) t that by (cases "k = et_Level t") auto
    then have "marks_ok (\<lambda>u. if u \<in> insert t ds then hist @ [(r, now)] else hist) tg"
      unfolding marks_ok_def by blast
    with hold e show ?thesis by (simp add: escalate_one_def)
  next
    case up
    have "sustained t s (hist @ [(r, now)])" using own [OF up(3)] up(2) by (rule sustained_snoc)
    with up other e t show ?thesis
      by (auto simp: escalate_one_def marks_ok_def entered_ok_def map_of_filter_key split: if_splits)
  next
    case reset
    with other e show ?thesis
      by (auto simp: escalate_one_def marks_ok_def entered_ok_def split: if_splits)
  qed
qed

lemma escalate_fold_inv:
  assumes "ladder (tg_policy tg)" "set ts \<subseteq> set (Thresholds (tg_policy tg))" "distinct ts" "set ts \<inter> ds = {}"
    and "marks_ok (\<lambda>u. if u \<in> ds then hist @ [(r, now)] else hist) tg"
    and "entered_ok l0 now (hist @ [(r, now)]) tg"
  shows "marks_ok (\<lambda>u. if u \<in> ds \<union> set ts then hist @ [(r, now)] else hist) (fold (escalate_one r now) ts tg) \<and>
         entered_ok l0 now (hist @ [(r, now)]) (fold (escalate_one r now) ts tg)"
  using assms
proof (induction ts arbitrary: tg ds)
  case (Cons t ts)
  have "marks_ok (\<lambda>u. if u \<in> insert t ds then hist @ [(r, now)] else hist) (escalate_one r now t tg) \<and>
         entered_ok l0 now (hist @ [(r, now)]) (escalate_one r now t tg)"
    using Cons.prems by (intro escalate_one_inv) auto
  with Cons.IH [of "escalate_one r now t tg" "insert t ds"] Cons.prems show ?case by auto
qed simp

lemma find_SomeD: "find P xs = Some x \<Longrightarrow> x \<in> set xs \<and> P x"
  by (induction xs) (auto split: if_splits)

lemma deescalation_cases:
  obtains (stay) "checkDeescalation r now tg = tg"
  | (down) t where "t \<in> set (Thresholds (tg_policy tg))" "et_Level t = currentLevel tg" "currentLevel tg \<noteq> ResponseObserve"
      "r < et_MaxRate t" "et_CooldownAfter t \<le> time_sub now (levelSince tg)"
      "checkDeescalation r now tg = tg\<lparr>currentLevel := previousLevel (et_Level t), levelSince := now,
         sustainStart := filter (\<lambda>(level, _). \<not> et_Level t \<le> level) (sustainStart tg)\<rparr>"
proof (cases "currentLevel tg = ResponseObserve")
  case True
  then show ?thesis using stay by (simp add: checkDeescalation_def)
next
  case False
  show ?thesis
  proof (cases "find (\<lambda>t. et_Level t = currentLevel tg) (Thresholds (tg_policy tg))")
    case None
    with False show ?thesis using stay by (simp add: checkDeescalation_def)
  next
    case (Some t)
    with False find_SomeD [OF Some] show ?thesis
      using stay down [of t] by (cases "r < et_MaxRate t \<and> et_CooldownAfter t \<le> time_sub now (levelSince tg)")
        (simp_all add: checkDeescalation_def)
  qed
qed

lemma deescalate_marks:
  assumes "marks_ok h tg"
  shows "marks_ok h (checkDeescalation r now tg)"
proof (cases rule: deescalation_cases [of r now tg])
  case (down t)
  have "map_of (sustainStart tg) k = None" if "\<not> et_Level t \<le> k" for k
  proof (cases "map_of (sustainStart tg) k")
    case (Some s)
    with assms have "currentLevel tg < k" by (auto simp: marks_ok_def)
    with that down(2) show ?thesis by simp
  qed
  then show ?thesis by (simp add: down(6) marks_ok_def map_of_filter_key)
qed (use assms in simp)

lemma ladder_distinct_list: "ladder p \<Longrightarrow> distinct (Thresholds p)"
  by (auto simp: ladder_def sorted_wrt_iff_nth_less distinct_conv_nth) (metis less_irrefl linorder_neqE_nat)

lemma marks_ok_cong:
  "(\<And>t. t \<in> set (Thresholds (tg_policy tg)) \<Longrightarrow> h t = h' t) \<Longrightarrow> marks_ok h tg \<longleftrightarrow> marks_ok h' tg"
  by (auto simp: marks_ok_def)

lemma respond_inv:
  assumes "ladder (tg_policy tg)" "marks_ok (\<lambda>_. hist) tg"
  shows "marks_ok (\<lambda>_. hist @ [(r, now)]) (respond r now tg) \<and>
         entered_ok (currentLevel (checkDeescalation r now tg)) now (hist @ [(r, now)]) (respond r now tg)"
proof -
  let ?d = "checkDeescalation r now tg"
  have "marks_ok (\<lambda>u. if u \<in> {} \<union> set (Thresholds (tg_policy tg)) then hist @ [(r, now)] else hist) (respond r now tg) \<and>
         entered_ok (currentLevel ?d) now (hist @ [(r, now)]) (respond r now tg)"
    unfolding respond_def checkEscalation_def deescalation_policy
    using assms deescalate_marks [of "\<lambda>_. hist" tg r now]
    by (intro escalate_fold_inv) (auto simp: ladder_distinct_list entered_ok_def)
  then show ?thesis
    using marks_ok_cong [of "respond r now tg" "\<lambda>u. if u \<in> {} \<union> set (Thresholds (tg_policy tg)) then hist @ [(r, now)] else hist"
        "\<lambda>_. hist @ [(r, now)]"] by simp
qed

lemma evaluate_responds:
  assumes "Evaluate fe c tg = (tg', g)"
  shows "\<exists>env. tg' = respond (gr_WindowRate g) (at_decision c) (tg\<lparr>envelope := env\<rparr>) \<and>
      Rate (fl fe) (at_rate_prune c) (Record_effect (at_event c) (at_record_prune c) (envelope tg)) = (env, gr_WindowRate g)"
    and "gr_Level g = currentLevel tg'" "gr_AllowEffect g \<longleftrightarrow> currentLevel tg' \<le> ResponseThrottle"
  using assms by (auto simp: Evaluate_def Let_def respond_def split: prod.splits)

lemma marks_ok_env [simp]: "marks_ok h (tg\<lparr>envelope := env\<rparr>) = marks_ok h tg"
  by (simp add: marks_ok_def)

lemma tg_run_snoc:
  "tg_run fe tg (cs @ [c]) = eval_obs fe (tg_run fe tg cs) c"
  by (simp add: tg_run_def)

lemma run_marks:
  assumes "ladder p" "tg_run fe (NewTemporalGuardian p t0) cs = (tg, hist)"
  shows "tg_policy tg = p \<and> marks_ok (\<lambda>_. hist) tg \<and> map snd hist = map at_decision cs"
  using assms(2)
proof (induction cs arbitrary: tg hist rule: rev_induct)
  case Nil
  then show ?case by (auto simp: tg_run_def NewTemporalGuardian_def marks_ok_def)
next
  case (snoc c cs)
  obtain tg1 h1 where r1: "tg_run fe (NewTemporalGuardian p t0) cs = (tg1, h1)" by (metis prod.exhaust)
  obtain tg2 g where ev: "Evaluate fe c tg1 = (tg2, g)" by (metis prod.exhaust)
  from evaluate_responds(1) [OF ev] obtain env where
    tg2: "tg2 = respond (gr_WindowRate g) (at_decision c) (tg1\<lparr>envelope := env\<rparr>)" by blast
  from snoc.IH [OF r1] have i: "tg_policy tg1 = p" "marks_ok (\<lambda>_. h1) tg1" "map snd h1 = map at_decision cs" by auto
  have "marks_ok (\<lambda>_. h1 @ [(gr_WindowRate g, at_decision c)]) tg2"
    unfolding tg2 using respond_inv [of "tg1\<lparr>envelope := env\<rparr>" h1] assms(1) i by simp
  moreover have "tg = tg2" "hist = h1 @ [(gr_WindowRate g, at_decision c)]"
    using snoc.prems by (auto simp: tg_run_snoc r1 eval_obs_def ev)
  moreover have "tg_policy tg2 = p" by (simp add: tg2 i)
  ultimately show ?case using i by simp
qed

lemma fold_below:
  "\<forall>u \<in> set as. et_Level u < L \<Longrightarrow> currentLevel tg < L \<Longrightarrow>
   currentLevel (fold (escalate_one r now) as tg) < L \<and>
   map_of (sustainStart (fold (escalate_one r now) as tg)) L = map_of (sustainStart tg) L"
proof (induction as arbitrary: tg)
  case (Cons u as)
  have "currentLevel (escalate_one r now u tg) < L \<and> map_of (sustainStart (escalate_one r now u tg)) L = map_of (sustainStart tg) L"
    using Cons.prems by (auto simp: escalate_one_def map_of_filter_key split: option.splits)
  with Cons.IH [of "escalate_one r now u tg"] Cons.prems show ?case by simp
qed simp

lemma fold_above:
  "\<forall>u \<in> set bs. L < et_Level u \<Longrightarrow>
   L \<le> currentLevel (fold (escalate_one r now) bs tg) \<or>
   currentLevel (fold (escalate_one r now) bs tg) = currentLevel tg \<and>
   map_of (sustainStart (fold (escalate_one r now) bs tg)) L = map_of (sustainStart tg) L"
proof (induction bs arbitrary: tg)
  case (Cons u bs)
  have "L < currentLevel (escalate_one r now u tg) \<or>
    currentLevel (escalate_one r now u tg) = currentLevel tg \<and> map_of (sustainStart (escalate_one r now u tg)) L = map_of (sustainStart tg) L"
    using Cons.prems by (auto simp: escalate_one_def split: option.splits)
  then show ?case
  proof
    assume "L < currentLevel (escalate_one r now u tg)"
    then show ?thesis
      using escalate_fold_mono [of "escalate_one r now u tg" r now bs] by simp
  next
    assume "currentLevel (escalate_one r now u tg) = currentLevel tg \<and> map_of (sustainStart (escalate_one r now u tg)) L = map_of (sustainStart tg) L"
    then show ?thesis using Cons.IH [of "escalate_one r now u tg"] Cons.prems by simp
  qed
qed simp

lemma deescalate_keeps:
  assumes "ladder (tg_policy tg)" "t \<in> set (Thresholds (tg_policy tg))" "et_MaxRate t \<le> r"
  shows "if currentLevel tg < et_Level t then checkDeescalation r now tg = tg
         else et_Level t \<le> currentLevel (checkDeescalation r now tg)"
proof (cases rule: deescalation_cases [of r now tg])
  case (down u)
  have "\<not> et_MaxRate u \<le> et_MaxRate t" using down(4) assms(3) by simp
  then have "et_Level t < et_Level u"
    using ladder_rates [OF assms(1) down(1) assms(2)] ladder_distinct [OF assms(1) down(1) assms(2)] by fastforce
  moreover have "0 < et_Level t" using assms(1,2) by (simp add: ladder_def)
  ultimately show ?thesis by (simp add: down(2,6) previousLevel_def ResponseObserve_def)
qed auto

lemma respond_holds_rate:
  assumes l: "ladder (tg_policy tg)" and t: "t \<in> set (Thresholds (tg_policy tg))" and r: "et_MaxRate t \<le> r"
  shows "et_Level t \<le> currentLevel (respond r now tg) \<or>
     currentLevel tg < et_Level t \<and>
     (case map_of (sustainStart tg) (et_Level t) of
        None \<Rightarrow> map_of (sustainStart (respond r now tg)) (et_Level t) = Some now
      | Some s \<Rightarrow> map_of (sustainStart (respond r now tg)) (et_Level t) = Some s \<and> time_sub now s < et_SustainedFor t)"
proof (cases "currentLevel tg < et_Level t")
  case False
  then show ?thesis
    using deescalate_keeps [OF l t r, of now] escalate_fold_mono [of "checkDeescalation r now tg" r now]
    by (auto simp: respond_def checkEscalation_def intro: order_trans)
next
  case True
  then have resp: "respond r now tg = fold (escalate_one r now) (Thresholds (tg_policy tg)) tg"
    using deescalate_keeps [OF l t r, of now] by (simp add: respond_def checkEscalation_def)
  from t obtain as bs where ths: "Thresholds (tg_policy tg) = as @ t # bs" by (meson split_list)
  have below: "\<forall>u \<in> set as. et_Level u < et_Level t" and above: "\<forall>u \<in> set bs. et_Level t < et_Level u"
    using l by (auto simp: ladder_def ths sorted_wrt_append)
  let ?a = "fold (escalate_one r now) as tg"
  let ?b = "escalate_one r now t ?a"
  have a: "currentLevel ?a < et_Level t" "map_of (sustainStart ?a) (et_Level t) = map_of (sustainStart tg) (et_Level t)"
    using fold_below [OF below True] by auto
  have f: "respond r now tg = fold (escalate_one r now) bs ?b" by (simp add: resp ths)
  show ?thesis
  proof (cases "et_Level t \<le> currentLevel ?b")
    case True
    then show ?thesis using escalate_fold_mono [of ?b r now bs] by (simp add: f)
  next
    case nb: False
    have "case map_of (sustainStart tg) (et_Level t) of
        None \<Rightarrow> map_of (sustainStart ?b) (et_Level t) = Some now
      | Some s \<Rightarrow> map_of (sustainStart ?b) (et_Level t) = Some s \<and> time_sub now s < et_SustainedFor t"
      using nb a r by (auto simp: escalate_one_def split: option.splits if_splits)
    with fold_above [OF above, of r now ?b] nb True show ?thesis
      by (auto simp: f split: option.splits)
  qed
qed

text \<open>After evaluations that all show the rate of \<open>t\<close>: the level is reached, or the marker runs since the first of them.\<close>

definition held :: "EscalationThreshold \<Rightarrow> gotime \<Rightarrow> TemporalGuardian \<Rightarrow> bool" where
  "held t t1 tg \<longleftrightarrow> et_Level t \<le> currentLevel tg \<or>
     (\<exists>s \<le> t1. map_of (sustainStart tg) (et_Level t) = Some s)"

lemma held_step:
  assumes "ladder (tg_policy tg)" "t \<in> set (Thresholds (tg_policy tg))" "et_MaxRate t \<le> r" "held t t1 tg"
  shows "held t t1 (respond r now tg)"
    and "et_SustainedFor t \<le> time_sub now t1 \<Longrightarrow> et_Level t \<le> currentLevel (respond r now tg)"
  using respond_holds_rate [OF assms(1-3), of now] assms(4)
  by (auto simp: held_def time_sub_def split: option.splits)

lemma held_start:
  assumes "ladder (tg_policy tg)" "t \<in> set (Thresholds (tg_policy tg))" "et_MaxRate t \<le> r"
    and "\<And>s. map_of (sustainStart tg) (et_Level t) = Some s \<Longrightarrow> s \<le> now"
  shows "held t now (respond r now tg)"
  using respond_holds_rate [OF assms(1-3), of now] assms(4)
  by (auto simp: held_def split: option.splits)

lemma tg_run_hist: "tg_run fe tg cs = (tg', hist) \<Longrightarrow> length hist = length cs"
  by (induction cs arbitrary: tg' hist rule: rev_induct) (auto simp: tg_run_def eval_obs_def split: prod.splits)

lemma run_held:
  assumes l: "ladder p" and t: "t \<in> set (Thresholds p)" and ne: "cs2 \<noteq> []"
    and "tg_run fe (NewTemporalGuardian p t0) (cs1 @ cs2) = (tg, hist)"
    and "sorted (map at_decision (cs1 @ cs2))"
    and "\<forall>(r, _) \<in> set (drop (length cs1) hist). et_MaxRate t \<le> r"
  shows "held t (at_decision (hd cs2)) tg \<and>
    (2 \<le> length cs2 \<longrightarrow> et_SustainedFor t \<le> time_sub (at_decision (last cs2)) (at_decision (hd cs2)) \<longrightarrow> et_Level t \<le> currentLevel tg)"
  using ne assms(4-)
proof (induction cs2 arbitrary: tg hist rule: rev_nonempty_induct)
  case (single c)
  obtain tg1 h1 where r1: "tg_run fe (NewTemporalGuardian p t0) cs1 = (tg1, h1)" by (metis prod.exhaust)
  obtain tg2 g where ev: "Evaluate fe c tg1 = (tg2, g)" by (metis prod.exhaust)
  from evaluate_responds(1) [OF ev] obtain env where
    tg2: "tg2 = respond (gr_WindowRate g) (at_decision c) (tg1\<lparr>envelope := env\<rparr>)" by blast
  note i = run_marks [OF l r1]
  have e: "tg = tg2" "hist = h1 @ [(gr_WindowRate g, at_decision c)]"
    using single.prems(1) by (auto simp: tg_run_snoc r1 eval_obs_def ev)
  have rate: "et_MaxRate t \<le> gr_WindowRate g" using single.prems(3) tg_run_hist [OF r1] by (simp add: e)
  have "s \<le> at_decision c" if "map_of (sustainStart tg1) (et_Level t) = Some s" for s
  proof -
    from i that have "s \<in> snd ` set h1" by (auto simp: marks_ok_def dest: sustained_time)
    with i have "s \<in> at_decision ` set cs1" by (metis list.set_map)
    with single.prems(2) show ?thesis by (auto simp: sorted_append)
  qed
  then have "held t (at_decision c) tg2"
    unfolding tg2 using l t i rate by (intro held_start) auto
  then show ?case by (simp add: e)
next
  case (snoc c cs)
  obtain tg1 h1 where r1: "tg_run fe (NewTemporalGuardian p t0) (cs1 @ cs) = (tg1, h1)" by (metis prod.exhaust)
  obtain tg2 g where ev: "Evaluate fe c tg1 = (tg2, g)" by (metis prod.exhaust)
  from evaluate_responds(1) [OF ev] obtain env where
    tg2: "tg2 = respond (gr_WindowRate g) (at_decision c) (tg1\<lparr>envelope := env\<rparr>)" by blast
  note i = run_marks [OF l r1]
  have e: "tg = tg2" "hist = h1 @ [(gr_WindowRate g, at_decision c)]"
    using snoc.prems(1) by (auto simp: tg_run_snoc r1 eval_obs_def ev simp flip: append_assoc)
  have len: "length h1 = length cs1 + length cs" using tg_run_hist [OF r1] by simp
  have "held t (at_decision (hd cs)) tg1"
    using snoc.IH [OF r1] snoc.prems(2,3) len by (auto simp: e sorted_append)
  moreover have "et_MaxRate t \<le> gr_WindowRate g" using snoc.prems(3) len by (simp add: e)
  ultimately show ?case
    using held_step [of "tg1\<lparr>envelope := env\<rparr>" t "gr_WindowRate g" "at_decision (hd cs)" "at_decision c"] l t i snoc.hyps
    by (auto simp: e tg2 held_def)
qed

lemma dropWhile_filter: "sorted xs \<Longrightarrow> dropWhile (\<lambda>t. t < c) xs = filter (\<lambda>t. c \<le> t) (xs :: int list)"
proof (induction xs)
  case (Cons x xs)
  show ?case
  proof (cases "x < c")
    case False
    with Cons.prems have "\<forall>y \<in> set xs. c \<le> y" by auto
    with False show ?thesis by (simp add: filter_id_conv)
  qed (use Cons in simp)
qed simp

lemma evaluate_window:
  assumes "Evaluate fe c tg = (tg', g)" "sorted (events (envelope tg) @ [at_event c])" "at_record_prune c \<le> at_rate_prune c"
  shows "events (envelope tg') = filter (\<lambda>t. at_rate_prune c - window (envelope tg) \<le> t) (events (envelope tg) @ [at_event c])"
    and "window (envelope tg') = window (envelope tg)"
proof -
  obtain env where tg': "tg' = respond (gr_WindowRate g) (at_decision c) (tg\<lparr>envelope := env\<rparr>)"
    and rt: "Rate (fl fe) (at_rate_prune c) (Record_effect (at_event c) (at_record_prune c) (envelope tg)) = (env, gr_WindowRate g)"
    using evaluate_responds(1) [OF assms(1)] by blast
  have "env = prune (at_rate_prune c) (Record_effect (at_event c) (at_record_prune c) (envelope tg))"
    using rt by (auto simp: Rate_def Let_def split: if_splits)
  then have "events env = dropWhile (\<lambda>t. t < at_rate_prune c - window (envelope tg))
      (dropWhile (\<lambda>t. t < at_record_prune c - window (envelope tg)) (events (envelope tg) @ [at_event c]))"
    and w: "window env = window (envelope tg)"
    by (simp_all add: prune_def Record_effect_def Let_def)
  then have "events env = filter (\<lambda>t. at_rate_prune c - window (envelope tg) \<le> t)
      (filter (\<lambda>t. at_record_prune c - window (envelope tg) \<le> t) (events (envelope tg) @ [at_event c]))"
    using assms(2) by (simp add: dropWhile_filter sorted_wrt_filter del: filter_append filter_filter)
  then have "events env = filter (\<lambda>t. at_rate_prune c - window (envelope tg) \<le> t) (events (envelope tg) @ [at_event c])"
    using assms(3) by (auto simp: intro!: filter_cong)
  with w show "events (envelope tg') = filter (\<lambda>t. at_rate_prune c - window (envelope tg) \<le> t) (events (envelope tg) @ [at_event c])"
    and "window (envelope tg') = window (envelope tg)" by (simp_all add: tg')
qed

definition clock_order :: "clock_reads list \<Rightarrow> gotime list" where
  "clock_order cs = concat (map (\<lambda>c. [at_event c, at_record_prune c, at_rate_prune c, at_decision c]) cs)"

lemma run_window:
  assumes "tg_run fe (NewTemporalGuardian p t0) cs = (tg, hist)" "sorted (clock_order cs)"
  shows "window (envelope tg) = WindowSize p \<and>
    events (envelope tg) = (if cs = [] then [] else
      filter (\<lambda>t. at_rate_prune (last cs) - WindowSize p \<le> t) (map at_event cs))"
  using assms
proof (induction cs arbitrary: tg hist rule: rev_induct)
  case Nil
  then show ?case by (auto simp: tg_run_def NewTemporalGuardian_def NewControllabilityEnvelope_def)
next
  case (snoc c cs)
  obtain tg1 h1 where r1: "tg_run fe (NewTemporalGuardian p t0) cs = (tg1, h1)" by (metis prod.exhaust)
  obtain tg2 g where ev: "Evaluate fe c tg1 = (tg2, g)" by (metis prod.exhaust)
  have e: "tg = tg2" using snoc.prems(1) by (auto simp: tg_run_snoc r1 eval_obs_def ev)
  have so: "sorted (clock_order cs)" "sorted [at_event c, at_record_prune c, at_rate_prune c]"
    and bound: "\<forall>t \<in> set (clock_order cs). t \<le> at_event c"
    using snoc.prems(2) by (auto simp: clock_order_def sorted_append)
  have sev: "sorted (map at_event cs)"
    using so(1) by (induction cs) (auto simp: clock_order_def sorted_append)
  from snoc.IH [OF r1 so(1)] have i: "window (envelope tg1) = WindowSize p"
    "events (envelope tg1) = (if cs = [] then [] else
      filter (\<lambda>t. at_rate_prune (last cs) - WindowSize p \<le> t) (map at_event cs))" by auto
  have "sorted (events (envelope tg1) @ [at_event c])"
    using sev bound by (auto simp: i sorted_append sorted_wrt_filter clock_order_def)
  from evaluate_window [OF ev this] so(2) i(1)
  have w: "events (envelope tg2) = filter (\<lambda>t. at_rate_prune c - WindowSize p \<le> t) (events (envelope tg1) @ [at_event c])"
    "window (envelope tg2) = WindowSize p" by auto
  have "at_rate_prune (last cs) \<le> at_rate_prune c" if "cs \<noteq> []"
  proof -
    have "at_rate_prune (last cs) \<in> set (clock_order cs)"
      using last_in_set [OF that] by (auto simp: clock_order_def)
    with bound so(2) show ?thesis by fastforce
  qed
  with w i(2) show ?case by (auto simp: e intro!: filter_cong)
qed

section \<open>A concrete run\<close>

text \<open>Exact arithmetic, a policy with a one-second window, and evaluations whose four clock readings coincide.\<close>

definition exact_env :: float_env where
  "exact_env = \<lparr>fl = (\<lambda>x. x), fmt1 = (\<lambda>_. []), fmtd = (\<lambda>_. [])\<rparr>"

definition at_time :: "gotime \<Rightarrow> clock_reads" where
  "at_time t = \<lparr>at_event = t, at_record_prune = t, at_rate_prune = t, at_decision = t\<rparr>"

definition small_policy :: EscalationPolicy where
  "small_policy =
     \<lparr>Thresholds =
        [\<lparr>et_Level = ResponseThrottle, et_MaxRate = 2, et_SustainedFor = second, et_CooldownAfter = 10 * second\<rparr>,
         \<lparr>et_Level = ResponseInterrupt, et_MaxRate = 3, et_SustainedFor = second, et_CooldownAfter = 20 * second\<rparr>],
      WindowSize = second\<rparr>"

definition tg0 :: TemporalGuardian where "tg0 = NewTemporalGuardian small_policy 0"

definition w_times :: "clock_reads list" where "w_times = map at_time [0, 0, second]"

lemma small_policy_ladder: "ladder small_policy"
  by code_simp

lemma w_run: "map_prod currentLevel id (tg_run exact_env tg0 w_times) = (1, [(1, 0), (2, 0), (3, second)])"
  by code_simp

lemma w_levels:
  "currentLevel (fst (tg_run exact_env tg0 [at_time 0, at_time 0])) = 0"
  "currentLevel (fst (tg_run exact_env tg0 w_times)) = 1"
  "currentLevel (fst (Evaluate exact_env (at_time (12 * second)) (fst (tg_run exact_env tg0 w_times)))) = 0"
  "ladder (tg_policy (fst (tg_run exact_env tg0 w_times)))"
  "snd (tg_run exact_env tg0 w_times) = [(1, 0), (2, 0), (3, second)]"
  "sorted (map at_decision w_times)" "sorted (clock_order w_times)" "w_times \<noteq> []"
  by code_simp+

section \<open>Properties\<close>

text \<open>
  The response escalates only on a sustained rate: whenever an evaluation raises the level, the
  new level's threshold was met at every evaluation since some earlier one, and the time passed since
  is at least the threshold's \<^verbatim>\<open>SustainedFor\<close>.
\<close>
theorem escalation_is_sustained:
  assumes "ladder p"
    and "tg_run fe (NewTemporalGuardian p t0) cs = (tg, hist)"
    and "tg_run fe (NewTemporalGuardian p t0) (cs @ [c]) = (tg', hist')"
    and "currentLevel tg < currentLevel tg'"
  shows "\<exists>t \<in> set (Thresholds p). et_Level t = currentLevel tg' \<and>
      (\<exists>s. sustained t s hist' \<and> et_SustainedFor t \<le> time_sub (at_decision c) s)"
proof -
  obtain tg2 g where ev: "Evaluate fe c tg = (tg2, g)" by (metis prod.exhaust)
  from evaluate_responds(1) [OF ev] obtain env where
    tg2: "tg2 = respond (gr_WindowRate g) (at_decision c) (tg\<lparr>envelope := env\<rparr>)" by blast
  have e: "tg' = tg2" "hist' = hist @ [(gr_WindowRate g, at_decision c)]"
    using assms(3) by (auto simp: tg_run_snoc assms(2) eval_obs_def ev)
  note i = run_marks [OF assms(1,2)]
  have "currentLevel (checkDeescalation (gr_WindowRate g) (at_decision c) (tg\<lparr>envelope := env\<rparr>)) \<le> currentLevel tg"
    by (cases rule: deescalation_cases [of "gr_WindowRate g" "at_decision c" "tg\<lparr>envelope := env\<rparr>"])
      (use i assms(1) in \<open>auto simp: previousLevel_def ResponseObserve_def ladder_def\<close>)
  with respond_inv [of "tg\<lparr>envelope := env\<rparr>" hist "gr_WindowRate g" "at_decision c"] i assms(1,4)
  show ?thesis by (auto simp: entered_ok_def e tg2)
qed

theorem escalation_is_sustained_witness:
  "\<exists>t \<in> set (Thresholds small_policy). et_Level t = 1 \<and>
      (\<exists>s. sustained t s [(1, 0), (2, 0), (3, second)] \<and> et_SustainedFor t \<le> time_sub second s)"
  using escalation_is_sustained [OF small_policy_ladder, of exact_env 0 "[at_time 0, at_time 0]" _ _ "at_time second",
      OF surjective_pairing surjective_pairing] w_levels(1,2,5)
  by (simp add: w_times_def tg0_def at_time_def)

text \<open>
  A sustained rate always escalates: if the last evaluations all show at least the rate of a
  threshold and span its \<^verbatim>\<open>SustainedFor\<close>, the response level is at least that threshold's level, so
  no effect is allowed when that level is above throttling.
\<close>
theorem sustained_rate_escalates:
  assumes "ladder p" "t \<in> set (Thresholds p)"
    and "tg_run fe (NewTemporalGuardian p t0) (cs1 @ cs2) = (tg, hist)"
    and "sorted (map at_decision (cs1 @ cs2))"
    and "2 \<le> length cs2" "\<forall>(r, _) \<in> set (drop (length cs1) hist). et_MaxRate t \<le> r"
    and "et_SustainedFor t \<le> time_sub (at_decision (last cs2)) (at_decision (hd cs2))"
  shows "et_Level t \<le> currentLevel tg"
  using run_held [OF assms(1,2) _ assms(3,4,6)] assms(5,7) by force

theorem sustained_rate_escalates_witness:
  "et_Level (Thresholds small_policy ! 0) \<le> currentLevel (fst (tg_run exact_env tg0 w_times))"
  using sustained_rate_escalates [OF small_policy_ladder, of "Thresholds small_policy ! 0" exact_env 0 "[at_time 0]"
      "[at_time 0, at_time second]", OF _ surjective_pairing] w_levels(5,6)
  by (simp add: w_times_def tg0_def at_time_def small_policy_def time_sub_def second_def max_int64_def min_int64_def)

text \<open>
  The response de-escalates one level at a time, and only with the rate below the current
  level's threshold and the cooldown elapsed since the level was entered.
\<close>
theorem deescalation_one_step:
  assumes "ladder (tg_policy tg)" "Evaluate fe c tg = (tg', g)" "currentLevel tg' < currentLevel tg"
  shows "currentLevel tg' = currentLevel tg - 1 \<and>
    (\<exists>t \<in> set (Thresholds (tg_policy tg)). et_Level t = currentLevel tg \<and> gr_WindowRate g < et_MaxRate t \<and>
       et_CooldownAfter t \<le> time_sub (at_decision c) (levelSince tg))"
proof -
  from evaluate_responds(1) [OF assms(2)] obtain env where
    tg': "tg' = respond (gr_WindowRate g) (at_decision c) (tg\<lparr>envelope := env\<rparr>)" by blast
  let ?d = "checkDeescalation (gr_WindowRate g) (at_decision c) (tg\<lparr>envelope := env\<rparr>)"
  have mono: "currentLevel ?d \<le> currentLevel tg'"
    unfolding tg' respond_def checkEscalation_def by (rule escalate_fold_mono)
  show ?thesis
  proof (cases rule: deescalation_cases [of "gr_WindowRate g" "at_decision c" "tg\<lparr>envelope := env\<rparr>"])
    case stay
    with mono assms(3) show ?thesis by simp
  next
    case (down t)
    have "0 < et_Level t" using down(1) assms(1) by (auto simp: ladder_def)
    with down mono assms(3) show ?thesis by (auto simp: previousLevel_def ResponseObserve_def)
  qed
qed

theorem deescalation_one_step_witness:
  "currentLevel (fst (Evaluate exact_env (at_time (12 * second)) (fst (tg_run exact_env tg0 w_times)))) =
   currentLevel (fst (tg_run exact_env tg0 w_times)) - 1"
  using deescalation_one_step [OF w_levels(4) surjective_pairing [of "Evaluate exact_env (at_time (12 * second)) _"]] w_levels(2,3)
  by simp

text \<open>
  With a clock that does not run backwards, the envelope holds exactly the effects of the last
  window: those recorded no earlier than the window size before the latest evaluation.
\<close>
theorem envelope_is_window:
  assumes "tg_run fe (NewTemporalGuardian p t0) cs = (tg, hist)" "sorted (clock_order cs)" "cs \<noteq> []"
  shows "events (envelope tg) = filter (\<lambda>t. at_rate_prune (last cs) - WindowSize p \<le> t) (map at_event cs)"
  using run_window [OF assms(1,2)] assms(3) by simp

theorem envelope_is_window_witness:
  "events (envelope (fst (tg_run exact_env tg0 w_times))) = [0, 0, second]"
  using envelope_is_window [of exact_env small_policy 0 w_times, OF surjective_pairing w_levels(7,8)]
  by (simp add: tg0_def w_times_def at_time_def small_policy_def second_def)

text \<open>
  The cooldown counts from the entry into the level, not from the last time the rate was over
  the threshold: in this run the fifth evaluation, at 10.6 s, still shows the throttling rate, and the
  sixth, 1.4 s later, leaves the throttle level although its cooldown is 10 s.
\<close>
theorem cooldown_ignores_recent_excess:
  "let run = tg_run exact_env tg0;
       cs = map at_time [0, 0, second, 10500000000, 10600000000];
       t = Thresholds small_policy ! 0
   in et_CooldownAfter t = 10000000000 \<and>
      currentLevel (fst (run cs)) = et_Level t \<and>
      last (snd (run cs)) = (et_MaxRate t, 10600000000) \<and>
      currentLevel (fst (run (cs @ [at_time 12000000000]))) = ResponseObserve"
  by code_simp

end
