(* ===== verification/Budget.thy ===== *)
theory Budget
  imports Helm_Prelude
begin

text \<open>
  Per-tenant budgets, \<^verbatim>\<open>core/pkg/budget/enforcer.go\<close>, \<^verbatim>\<open>types.go\<close> and \<^verbatim>\<open>memory_store.go\<close>. The
  \<^verbatim>\<open>Storage\<close> interface is a record of operations over a store; what its clients rely on is the
  locale \<open>budget_storage\<close>, interpreted on the in-memory store. Amounts are \<^verbatim>\<open>int64\<close> cents. Every
  call holds the enforcer's mutex, so calls are sequential; a budget read from the store is a copy.
\<close>

section \<open>Data (types.go)\<close>

record Cost =
  co_Amount :: int
  co_Currency :: string
  co_Reason :: string

text \<open>\<open>b_LastUpdated\<close> is an instant with the offset of its location, which decides its calendar date.\<close>

record Budget =
  b_TenantID :: string
  b_DailyLimit :: int
  b_MonthlyLimit :: int
  b_DailyUsed :: int
  b_MonthlyUsed :: int
  b_LastUpdated :: "gotime \<times> godur"

record EnforcementReceipt =
  er_ID :: string
  er_TenantID :: string
  er_Action :: string
  er_CostCents :: int
  er_Reason :: string
  er_Timestamp :: gotime

record Decision =
  d_Allowed :: bool
  d_Reason :: string
  d_Remaining :: "Budget option"
  d_Receipt :: EnforcementReceipt

definition DailyRemaining :: "Budget \<Rightarrow> int" where
  "DailyRemaining b = (let remaining = wrap64 (b_DailyLimit b - b_DailyUsed b) in if remaining < 0 then 0 else remaining)"

definition MonthlyRemaining :: "Budget \<Rightarrow> int" where
  "MonthlyRemaining b = (let remaining = wrap64 (b_MonthlyLimit b - b_MonthlyUsed b) in if remaining < 0 then 0 else remaining)"

section \<open>The storage interface and the enforcer (enforcer.go)\<close>

record 's Storage =
  Get :: "string \<Rightarrow> 's \<Rightarrow> (string, Budget option) res"
  Set :: "Budget \<Rightarrow> 's \<Rightarrow> 's \<times> (string, unit) res"
  Limits :: "string \<Rightarrow> 's \<Rightarrow> (string, int \<times> int) res"
  SetLimits :: "string \<Rightarrow> int \<Rightarrow> int \<Rightarrow> 's \<Rightarrow> 's \<times> (string, unit) res"

definition checkedUsageAdd :: "int \<Rightarrow> int \<Rightarrow> (string, int) res" where
  "checkedUsageAdd used amount =
     (if used < 0 then Err ''stored usage must not be negative''
      else if amount < 0 then Err ''cost amount must not be negative''
      else if amount > wrap64 (max_int64 - used) then Err ''cost addition overflows int64 cents''
      else Ok (wrap64 (used + amount)))"

text \<open>The identifier and the timestamp of a receipt, and the two clock readings of a check.\<close>

record check_env =
  ce_created :: "gotime \<times> godur"
  ce_now :: gotime
  ce_uuid :: string
  ce_stamp :: gotime

definition createReceipt :: "check_env \<Rightarrow> string \<Rightarrow> string \<Rightarrow> int \<Rightarrow> string \<Rightarrow> EnforcementReceipt" where
  "createReceipt ce tenantID action cost reason =
     \<lparr>er_ID = ce_uuid ce, er_TenantID = tenantID, er_Action = action, er_CostCents = cost,
      er_Reason = reason, er_Timestamp = ce_stamp ce\<rparr>"

text \<open>Step 2 of the check: the counters of an elapsed day or month are reset.\<close>

definition reset_counters :: "gotime \<Rightarrow> Budget \<Rightarrow> Budget" where
  "reset_counters now b =
     (let lastDate = (case b_LastUpdated b of (t, off) \<Rightarrow> civil (t + off));
          todayDate = civil now;
          b = (if todayDate \<noteq> lastDate then b\<lparr>b_DailyUsed := 0\<rparr> else b)
      in if year_month todayDate \<noteq> year_month lastDate then b\<lparr>b_MonthlyUsed := 0\<rparr> else b)"

text \<open>Step 1: a tenant without a stored budget gets an unused one with the default limits.\<close>

definition new_or_stored :: "'s Storage \<Rightarrow> check_env \<Rightarrow> string \<Rightarrow> Budget option \<Rightarrow> 's \<Rightarrow> (string, Budget) res" where
  "new_or_stored st ce tenantID got s =
     (case got of
        Some b \<Rightarrow> Ok b
      | None \<Rightarrow>
          (case Limits st tenantID s of
             Inl err \<Rightarrow> Err err
           | Inr (daily, monthly) \<Rightarrow>
               Ok \<lparr>b_TenantID = tenantID, b_DailyLimit = daily, b_MonthlyLimit = monthly,
                   b_DailyUsed = 0, b_MonthlyUsed = 0, b_LastUpdated = ce_created ce\<rparr>))"

definition Check ::
  "'s Storage \<Rightarrow> check_env \<Rightarrow> string \<Rightarrow> Cost \<Rightarrow> 's \<Rightarrow> 's \<times> Decision \<times> string option" where
  "Check st ce tenantID cost s =
     (let deny = (\<lambda>reason rem code err.
            (\<lparr>d_Allowed = False, d_Reason = reason, d_Remaining = rem,
              d_Receipt = createReceipt ce tenantID ''denied'' (co_Amount cost) code\<rparr>, err))
      in case Get st tenantID s of
           Inl err \<Rightarrow> (s, deny (''check failed: '' @ err) None ''internal_error'' (Some err))
         | Inr got \<Rightarrow>
             (case new_or_stored st ce tenantID got s of
                Inl err \<Rightarrow> (s, deny ''failed to fetch limits'' None ''limit_fetch_error'' (Some err))
              | Inr b0 \<Rightarrow>
                  (let b = reset_counters (ce_now ce) b0 in
                   case checkedUsageAdd (b_DailyUsed b) (co_Amount cost) of
                     Inl err \<Rightarrow> (s, deny (''invalid daily budget usage: '' @ err) (Some b) ''usage_overflow'' (Some err))
                   | Inr newDaily \<Rightarrow>
                       (case checkedUsageAdd (b_MonthlyUsed b) (co_Amount cost) of
                          Inl err \<Rightarrow> (s, deny (''invalid monthly budget usage: '' @ err) (Some b) ''usage_overflow'' (Some err))
                        | Inr newMonthly \<Rightarrow>
                            if newDaily > b_DailyLimit b then
                              (s, deny (''daily limit exceeded: '' @ dec_of_int newDaily @ '' > '' @ dec_of_int (b_DailyLimit b))
                                    (Some b) ''daily_limit_exceeded'' None)
                            else if newMonthly > b_MonthlyLimit b then
                              (s, deny (''monthly limit exceeded: '' @ dec_of_int newMonthly @ '' > '' @ dec_of_int (b_MonthlyLimit b))
                                    (Some b) ''monthly_limit_exceeded'' None)
                            else
                              (let b = b\<lparr>b_DailyUsed := newDaily, b_MonthlyUsed := newMonthly, b_LastUpdated := (ce_now ce, 0)\<rparr>
                               in case Set st b s of
                                    (s', Inl err) \<Rightarrow> (s', deny ''failed to persist usage'' None ''persistence_error'' (Some err))
                                  | (s', Inr _) \<Rightarrow>
                                      (s', \<lparr>d_Allowed = True, d_Reason = ''within limits'', d_Remaining = Some b,
                                            d_Receipt = createReceipt ce tenantID ''allowed'' (co_Amount cost) ''ok''\<rparr>, None))))))"

section \<open>The in-memory store (memory\_store.go)\<close>

record MemoryStorage =
  ms_budgets :: "(string, Budget) gomap"
  ms_limits :: "(string, int \<times> int) gomap"

definition NewMemoryStorage :: MemoryStorage where
  "NewMemoryStorage = \<lparr>ms_budgets = [], ms_limits = []\<rparr>"

definition MemoryStorage_Get :: "string \<Rightarrow> MemoryStorage \<Rightarrow> (string, Budget option) res" where
  "MemoryStorage_Get tenantID s = Ok (map_of (ms_budgets s) tenantID)"

definition MemoryStorage_Set :: "Budget \<Rightarrow> MemoryStorage \<Rightarrow> MemoryStorage \<times> (string, unit) res" where
  "MemoryStorage_Set b s = (s\<lparr>ms_budgets := AList.update (b_TenantID b) b (ms_budgets s)\<rparr>, Ok ())"

definition MemoryStorage_Limits :: "string \<Rightarrow> MemoryStorage \<Rightarrow> (string, int \<times> int) res" where
  "MemoryStorage_Limits tenantID s =
     (case map_of (ms_limits s) tenantID of Some l \<Rightarrow> Ok l | None \<Rightarrow> Ok (1000, 50000))"

definition MemoryStorage_SetLimits :: "string \<Rightarrow> int \<Rightarrow> int \<Rightarrow> MemoryStorage \<Rightarrow> MemoryStorage \<times> (string, unit) res" where
  "MemoryStorage_SetLimits tenantID daily monthly s =
     (s\<lparr>ms_limits := AList.update tenantID (daily, monthly) (ms_limits s)\<rparr>, Ok ())"

definition memory_ops :: "MemoryStorage Storage" where
  "memory_ops = \<lparr>Get = MemoryStorage_Get, Set = MemoryStorage_Set, Limits = MemoryStorage_Limits,
     SetLimits = MemoryStorage_SetLimits\<rparr>"

section \<open>Runs of checks\<close>

type_synonym check_request = "check_env \<times> string \<times> Cost"

definition check_step :: "'s Storage \<Rightarrow> 's \<times> (check_request \<times> Decision) list \<Rightarrow> check_request \<Rightarrow> 's \<times> (check_request \<times> Decision) list" where
  "check_step st x q = (case x of (s, ds) \<Rightarrow> (case q of (ce, t, c) \<Rightarrow>
     (case Check st ce t c s of (s', d, _) \<Rightarrow> (s', ds @ [(q, d)]))))"

definition check_run :: "'s Storage \<Rightarrow> 's \<Rightarrow> check_request list \<Rightarrow> 's \<times> (check_request \<times> Decision) list" where
  "check_run st s qs = foldl (check_step st) (s, []) qs"

text \<open>What the decisions of a run let a tenant spend, and the limits in effect for a tenant.\<close>

definition spent :: "string \<Rightarrow> (check_request \<times> Decision) list \<Rightarrow> int" where
  "spent t ds = sum_list (map (\<lambda>((ce, t', c), d). if t' = t \<and> d_Allowed d then co_Amount c else 0) ds)"

definition effective_limits :: "'s Storage \<Rightarrow> string \<Rightarrow> 's \<Rightarrow> (int \<times> int) option" where
  "effective_limits st t s =
     (case Get st t s of
        Inl _ \<Rightarrow> None
      | Inr (Some b) \<Rightarrow> Some (b_DailyLimit b, b_MonthlyLimit b)
      | Inr None \<Rightarrow> (case Limits st t s of Inl _ \<Rightarrow> None | Inr l \<Rightarrow> Some l))"

section \<open>The storage contract\<close>

lemma effective_limits_cong:
  "Get st t s' = Get st t s \<Longrightarrow> Limits st t s' = Limits st t s \<Longrightarrow> effective_limits st t s' = effective_limits st t s"
  by (simp only: effective_limits_def)

lemma checkedUsageAdd_ok:
  "checkedUsageAdd u a = Ok n \<longleftrightarrow> 0 \<le> u \<and> 0 \<le> a \<and> u + a \<le> max_int64 \<and> n = u + a" if "int64 u"
proof -
  have "wrap64 (max_int64 - u) = max_int64 - u" if "0 \<le> u"
    using that \<open>int64 u\<close> by (intro wrap64_id) (auto simp: int64_def max_int64_def min_int64_def)
  moreover have "wrap64 (u + a) = u + a" if "0 \<le> u" "0 \<le> a" "u + a \<le> max_int64"
    using that by (intro wrap64_id) (auto simp: int64_def max_int64_def min_int64_def)
  ultimately show ?thesis
    by (auto simp: checkedUsageAdd_def)
qed

definition int64_budget :: "Budget \<Rightarrow> bool" where
  "int64_budget b \<longleftrightarrow> int64 (b_DailyUsed b) \<and> int64 (b_MonthlyUsed b)"

lemma reset_counters_simps [simp]:
  "b_TenantID (reset_counters now b) = b_TenantID b"
  "b_DailyLimit (reset_counters now b) = b_DailyLimit b"
  "b_MonthlyLimit (reset_counters now b) = b_MonthlyLimit b"
  "b_LastUpdated (reset_counters now b) = b_LastUpdated b"
  by (auto simp: reset_counters_def Let_def)

lemma reset_counters_int64: "int64_budget b \<Longrightarrow> int64_budget (reset_counters now b)"
  by (auto simp: reset_counters_def Let_def int64_budget_def int64_def max_int64_def min_int64_def)

lemma reset_counters_same:
  "b_LastUpdated b = (t, 0) \<Longrightarrow> civil t = civil now \<Longrightarrow> b_DailyUsed (reset_counters now b) = b_DailyUsed b"
  "b_LastUpdated b = (t, 0) \<Longrightarrow> year_month (civil t) = year_month (civil now) \<Longrightarrow> b_MonthlyUsed (reset_counters now b) = b_MonthlyUsed b"
  by (auto simp: reset_counters_def Let_def)

text \<open>A check that gets as far as writing, and what it writes.\<close>

definition booked :: "gotime \<Rightarrow> Cost \<Rightarrow> Budget \<Rightarrow> Budget \<Rightarrow> bool" where
  "booked now c b0 b \<longleftrightarrow>
     (\<exists>nd nm. checkedUsageAdd (b_DailyUsed (reset_counters now b0)) (co_Amount c) = Ok nd \<and>
        checkedUsageAdd (b_MonthlyUsed (reset_counters now b0)) (co_Amount c) = Ok nm \<and>
        nd \<le> b_DailyLimit b0 \<and> nm \<le> b_MonthlyLimit b0 \<and>
        b = (reset_counters now b0)\<lparr>b_DailyUsed := nd, b_MonthlyUsed := nm, b_LastUpdated := (now, 0)\<rparr>)"

lemma check_writes:
  assumes "Check st ce t c s = (s', d, e)"
  shows "s' = s \<and> \<not> d_Allowed d \<or>
    (\<exists>got b0 b. Get st t s = Ok got \<and> new_or_stored st ce t got s = Ok b0 \<and> booked (ce_now ce) c b0 b \<and>
       fst (Set st b s) = s' \<and> d_Allowed d = is_ok (snd (Set st b s)) \<and> (d_Allowed d \<longrightarrow> e = None))"
  using assms
  by (auto simp: Check_def Let_def booked_def is_ok_def split: sum.splits prod.splits if_splits)

locale budget_storage =
  fixes st :: "'s Storage" and inv :: "'s \<Rightarrow> bool"
  assumes get_set: "inv s \<Longrightarrow> Set st b s = (s', Inr u) \<Longrightarrow> Get st (b_TenantID b) s' = Ok (Some b)"
    and get_set_other: "inv s \<Longrightarrow> Set st b s = (s', r) \<Longrightarrow> t \<noteq> b_TenantID b \<Longrightarrow> Get st t s' = Get st t s"
    and set_error: "inv s \<Longrightarrow> Set st b s = (s', Inl e) \<Longrightarrow> Get st t s' = Get st t s"
    and limits_set: "inv s \<Longrightarrow> Set st b s = (s', r) \<Longrightarrow> Limits st t s' = Limits st t s"
    and inv_set: "inv s \<Longrightarrow> int64_budget b \<Longrightarrow> Set st b s = (s', r) \<Longrightarrow> inv s'"
    and stored: "inv s \<Longrightarrow> Get st t s = Ok (Some b) \<Longrightarrow> b_TenantID b = t \<and> int64_budget b"
begin

text \<open>What a check does: it is refused and leaves what can be read, or it is allowed and books the amount.\<close>

lemma check_cases:
  assumes inv: "inv s" and ch: "Check st ce t c s = (s', d, e)"
  obtains (denied) "\<not> d_Allowed d" "inv s'" "\<And>t'. Get st t' s' = Get st t' s" "\<And>t'. Limits st t' s' = Limits st t' s"
  | (allowed) b where "d_Allowed d" "e = None" "inv s'" "0 \<le> co_Amount c"
      "Get st t s' = Ok (Some b)" "\<And>t'. t' \<noteq> t \<Longrightarrow> Get st t' s' = Get st t' s" "\<And>t'. Limits st t' s' = Limits st t' s"
      "effective_limits st t s = Some (b_DailyLimit b, b_MonthlyLimit b)"
      "b_LastUpdated b = (ce_now ce, 0)"
      "co_Amount c \<le> b_DailyUsed b" "b_DailyUsed b \<le> b_DailyLimit b"
      "co_Amount c \<le> b_MonthlyUsed b" "b_MonthlyUsed b \<le> b_MonthlyLimit b"
      "\<And>b0. Get st t s = Ok (Some b0) \<Longrightarrow>
         b_DailyUsed b = b_DailyUsed (reset_counters (ce_now ce) b0) + co_Amount c \<and>
         b_MonthlyUsed b = b_MonthlyUsed (reset_counters (ce_now ce) b0) + co_Amount c"
proof -
  from check_writes [OF ch] consider (none) "s' = s" "\<not> d_Allowed d"
    | (books) got b0 b where "Get st t s = Ok got" "new_or_stored st ce t got s = Ok b0" "booked (ce_now ce) c b0 b"
        "fst (Set st b s) = s'" "d_Allowed d = is_ok (snd (Set st b s))" "d_Allowed d \<longrightarrow> e = None"
    by blast
  then show ?thesis
  proof cases
    case none
    then show ?thesis using denied inv by simp
  next
    case books
    have eff: "effective_limits st t s = Some (b_DailyLimit b0, b_MonthlyLimit b0)"
      and b0: "b_TenantID b0 = t \<and> int64_budget b0"
      using books(1,2) stored [OF inv, of t]
      by (auto simp: effective_limits_def new_or_stored_def int64_budget_def int64_def max_int64_def min_int64_def
          split: option.splits sum.splits)
    have i64: "int64_budget (reset_counters (ce_now ce) b0)" using b0 by (simp add: reset_counters_int64)
    note bk = books(3) [unfolded booked_def, simplified checkedUsageAdd_ok int64_budget_def i64 [unfolded int64_budget_def]]
    have "int64_budget b" "b_TenantID b = t"
      using bk b0 by (auto simp: int64_budget_def int64_def max_int64_def min_int64_def)
    obtain r where set: "Set st b s = (s', r)" using books(4) by (metis prod.collapse)
    have inv': "inv s'" using inv_set [OF inv \<open>int64_budget b\<close> set] .
    show ?thesis
    proof (cases r)
      case (Inl err)
      with books(5) set show ?thesis
        using denied [OF _ inv'] set_error [OF inv, of b s' err] limits_set [OF inv set] by simp
    next
      case (Inr u)
      have "Get st t s' = Ok (Some b)" using get_set [OF inv, of b s' u] set Inr \<open>b_TenantID b = t\<close> by simp
      then show ?thesis
        using books(1,2,5,6) bk eff get_set_other [OF inv set] limits_set [OF inv set]
          set inv' \<open>b_TenantID b = t\<close> Inr i64
        by (intro allowed [of b]) (auto simp: new_or_stored_def)
    qed
  qed
qed

text \<open>The daily account is kept per calendar date, the monthly one per year and month.\<close>

definition account :: "(Budget \<Rightarrow> int) \<Rightarrow> (Budget \<Rightarrow> int) \<Rightarrow> (gotime \<Rightarrow> int \<times> int \<times> int) \<Rightarrow> bool" where
  "account used lim key \<longleftrightarrow>
     (used = b_DailyUsed \<and> lim = b_DailyLimit \<and> key = civil) \<or>
     (used = b_MonthlyUsed \<and> lim = b_MonthlyLimit \<and> key = (\<lambda>t. case civil t of (y, m, _) \<Rightarrow> (y, m, 0)))"

lemma account_reset:
  "account used lim key \<Longrightarrow> b_LastUpdated b = (u, 0) \<Longrightarrow> key u = key now \<Longrightarrow> used (reset_counters now b) = used b"
  by (auto simp: account_def reset_counters_def Let_def year_month_def split: prod.splits)

lemma check_step_spent:
  assumes acc: "account used lim key" and inv: "inv s" and ch: "Check st ce t' c s = (s', d, e)"
    and key: "key (ce_now ce) = k"
    and P: "sp = 0 \<or> (\<exists>b u. Get st t s = Ok (Some b) \<and> b_LastUpdated b = (u, 0) \<and> key u = k \<and> sp \<le> used b \<and> used b \<le> lim b)"
    and sp': "sp' = sp + (if t' = t \<and> d_Allowed d then co_Amount c else 0)"
  shows "inv s' \<and> effective_limits st t s' = effective_limits st t s \<and>
    (sp' = 0 \<or> (\<exists>b u. Get st t s' = Ok (Some b) \<and> b_LastUpdated b = (u, 0) \<and> key u = k \<and> sp' \<le> used b \<and> used b \<le> lim b))"
proof (cases rule: check_cases [OF inv ch])
  case 1
  with P sp' show ?thesis by (auto intro: effective_limits_cong)
next
  case (2 b)
  show ?thesis
  proof (cases "t' = t")
    case False
    then have "Get st t s' = Get st t s" using 2(6) by simp
    with 2(3,7) P sp' False show ?thesis by (auto intro: effective_limits_cong)
  next
    case True
    have eff: "effective_limits st t s' = effective_limits st t s"
      using 2(5,8) True by (simp add: effective_limits_def)
    have u: "co_Amount c \<le> used b" "used b \<le> lim b"
      using acc 2(10-13) by (auto simp: account_def)
    have "sp + co_Amount c \<le> used b"
      using P
    proof
      assume "\<exists>b u. Get st t s = Ok (Some b) \<and> b_LastUpdated b = (u, 0) \<and> key u = k \<and> sp \<le> used b \<and> used b \<le> lim b"
      then obtain b0 u where b0: "Get st t s = Ok (Some b0)" "b_LastUpdated b0 = (u, 0)" "key u = k" "sp \<le> used b0" by auto
      from 2(14) b0(1) True have "used b = used (reset_counters (ce_now ce) b0) + co_Amount c"
        using acc by (auto simp: account_def)
      with account_reset [OF acc b0(2)] b0(3,4) key show ?thesis by simp
    qed (use u in simp)
    with u 2(1,3,5,9) True sp' eff key show ?thesis by auto
  qed
qed

lemma check_run_spent:
  assumes acc: "account used lim key" and "inv s0" and "check_run st s0 qs = (s, ds)"
    and "\<forall>(ce, _, _) \<in> set qs. key (ce_now ce) = k"
  shows "inv s \<and> effective_limits st t s = effective_limits st t s0 \<and>
    (spent t ds = 0 \<or> (\<exists>b u. Get st t s = Ok (Some b) \<and> b_LastUpdated b = (u, 0) \<and> key u = k \<and>
       spent t ds \<le> used b \<and> used b \<le> lim b))"
  using assms(3,4)
proof (induction qs arbitrary: s ds rule: rev_induct)
  case Nil
  then show ?case using \<open>inv s0\<close> by (auto simp: check_run_def spent_def)
next
  case (snoc q qs)
  obtain s1 ds1 where r1: "check_run st s0 qs = (s1, ds1)" by (metis prod.exhaust)
  obtain ce t' c where q: "q = (ce, t', c)" by (metis prod.exhaust)
  obtain s2 d e where ch: "Check st ce t' c s1 = (s2, d, e)" by (metis prod.exhaust)
  have e: "s = s2" "ds = ds1 @ [(q, d)]"
    using snoc.prems(1) r1 by (auto simp: check_run_def check_step_def q ch)
  have IH: "inv s1 \<and> effective_limits st t s1 = effective_limits st t s0 \<and>
    (spent t ds1 = 0 \<or> (\<exists>b u. Get st t s1 = Ok (Some b) \<and> b_LastUpdated b = (u, 0) \<and> key u = k \<and>
       spent t ds1 \<le> used b \<and> used b \<le> lim b))"
    using snoc.IH [OF r1] snoc.prems(2) by simp
  have "spent t ds = spent t ds1 + (if t' = t \<and> d_Allowed d then co_Amount c else 0)"
    by (simp add: e q spent_def)
  from check_step_spent [OF acc _ ch _ _ this, of k] IH snoc.prems(2) show ?case by (simp add: e q)
qed

lemma run_within_limits:
  assumes "inv s0" "check_run st s0 qs = (s, ds)" "effective_limits st t s0 = Some (daily, monthly)"
  shows "(\<forall>(ce, _, _) \<in> set qs. civil (ce_now ce) = D) \<Longrightarrow> spent t ds = 0 \<or> spent t ds \<le> daily"
    and "(\<forall>(ce, _, _) \<in> set qs. year_month (civil (ce_now ce)) = M) \<Longrightarrow> spent t ds = 0 \<or> spent t ds \<le> monthly"
proof -
  have "account b_DailyUsed b_DailyLimit civil" by (simp add: account_def)
  from check_run_spent [OF this assms(1,2), of D t] assms(3)
  show "(\<forall>(ce, _, _) \<in> set qs. civil (ce_now ce) = D) \<Longrightarrow> spent t ds = 0 \<or> spent t ds \<le> daily"
    by (fastforce simp: effective_limits_def)
  let ?k = "\<lambda>t. case civil t of (y, m, _) \<Rightarrow> (y, m, 0)"
  have "account b_MonthlyUsed b_MonthlyLimit ?k" by (simp add: account_def)
  note mo = check_run_spent [OF this assms(1,2), of "case M of (y, m) \<Rightarrow> (y, m, 0)" t]
  show "spent t ds = 0 \<or> spent t ds \<le> monthly" if "\<forall>(ce, _, _) \<in> set qs. year_month (civil (ce_now ce)) = M"
  proof -
    have "\<forall>(ce, _, _) \<in> set qs. ?k (ce_now ce) = (case M of (y, m) \<Rightarrow> (y, m, 0))"
      using that by (fastforce simp: year_month_def split: prod.splits)
    from mo [OF this] assms(3) show ?thesis by (fastforce simp: effective_limits_def)
  qed
qed

end

section \<open>The in-memory store meets the contract\<close>

definition memory_inv :: "MemoryStorage \<Rightarrow> bool" where
  "memory_inv s \<longleftrightarrow> (\<forall>t b. map_of (ms_budgets s) t = Some b \<longrightarrow> b_TenantID b = t \<and> int64_budget b)"

lemmas memory_defs = memory_ops_def MemoryStorage_Get_def MemoryStorage_Set_def MemoryStorage_Limits_def
  MemoryStorage_SetLimits_def

interpretation mem: budget_storage memory_ops memory_inv
  by unfold_locales (auto simp: memory_defs memory_inv_def split: if_splits)

section \<open>Properties\<close>

text \<open>
  C31: The budget is never overspent: in any sequence of checks on one calendar day, whatever the
  other tenants do in between, the amounts allowed to a tenant sum to at most the daily limit in
  effect when the sequence starts, and on the days of one month to at most the monthly limit.
\<close>
theorem budget_never_overspent:
  assumes "memory_inv s0" "check_run memory_ops s0 qs = (s, ds)"
    and "effective_limits memory_ops t s0 = Some (daily, monthly)"
  shows "((\<forall>(ce, _, _) \<in> set qs. civil (ce_now ce) = D) \<longrightarrow> spent t ds = 0 \<or> spent t ds \<le> daily) \<and>
    ((\<forall>(ce, _, _) \<in> set qs. year_month (civil (ce_now ce)) = M) \<longrightarrow> spent t ds = 0 \<or> spent t ds \<le> monthly)"
  using mem.run_within_limits [OF assms] by blast

definition w_ce :: check_env where
  "w_ce = \<lparr>ce_created = (63900000000000000000, 0), ce_now = 63900000000000000000, ce_uuid = ''u'', ce_stamp = 63900000000000000000\<rparr>"

definition w_cost :: "int \<Rightarrow> Cost" where "w_cost n = \<lparr>co_Amount = n, co_Currency = ''USD'', co_Reason = []\<rparr>"

definition w_checks :: "check_request list" where
  "w_checks = [(w_ce, ''a'', w_cost 700), (w_ce, ''b'', w_cost 900), (w_ce, ''a'', w_cost 400), (w_ce, ''a'', w_cost 300)]"

lemma w_checks_run:
  "map (\<lambda>(_, d). d_Allowed d) (snd (check_run memory_ops NewMemoryStorage w_checks)) = [True, True, False, True]"
  "effective_limits memory_ops ''a'' NewMemoryStorage = Some (1000, 50000)"
  "list_all (\<lambda>(ce, _, _). civil (ce_now ce) = civil 63900000000000000000) w_checks"
  by code_simp+

lemma memory_inv_new: "memory_inv NewMemoryStorage"
  by (simp add: memory_inv_def NewMemoryStorage_def)

theorem budget_never_overspent_witness:
  "spent ''a'' (snd (check_run memory_ops NewMemoryStorage w_checks)) = 0 \<or>
   spent ''a'' (snd (check_run memory_ops NewMemoryStorage w_checks)) \<le> 1000"
  using budget_never_overspent [OF memory_inv_new surjective_pairing w_checks_run(2), of w_checks "civil 63900000000000000000"] w_checks_run(3)
  unfolding list_all_iff by blast

text \<open>
  A check fails closed: whatever the storage returns, an error result comes with a denial, and a
  denial leaves a store that never reports a failed write exactly as it was; an allowed check reports
  no error, carries a receipt for the amount and has booked the amount it returns as remaining.
\<close>
theorem budget_check_fails_closed:
  "case Check st ce t c s of (s', d, e) \<Rightarrow>
     (e \<noteq> None \<longrightarrow> \<not> d_Allowed d) \<and>
     (\<not> d_Allowed d \<longrightarrow> s' = s \<or> (\<exists>b. fst (Set st b s) = s' \<and> \<not> is_ok (snd (Set st b s)))) \<and>
     (d_Allowed d \<longrightarrow> (\<exists>b. d_Remaining d = Some b \<and> Set st b s = (s', Ok ()))) \<and>
     er_Action (d_Receipt d) = (if d_Allowed d then ''allowed'' else ''denied'') \<and>
     er_TenantID (d_Receipt d) = t \<and> er_CostCents (d_Receipt d) = co_Amount c"
proof -
  obtain s' d e where ch: "Check st ce t c s = (s', d, e)" by (metis prod.exhaust)
  have "(e \<noteq> None \<longrightarrow> \<not> d_Allowed d) \<and> (d_Allowed d \<longrightarrow> (\<exists>b. d_Remaining d = Some b \<and> Set st b s = (s', Ok ()))) \<and>
     er_Action (d_Receipt d) = (if d_Allowed d then ''allowed'' else ''denied'') \<and>
     er_TenantID (d_Receipt d) = t \<and> er_CostCents (d_Receipt d) = co_Amount c"
    using ch by (auto simp: Check_def Let_def createReceipt_def split: sum.splits prod.splits if_splits)
  moreover have "\<not> d_Allowed d \<longrightarrow> s' = s \<or> (\<exists>b. fst (Set st b s) = s' \<and> \<not> is_ok (snd (Set st b s)))"
    using check_writes [OF ch] by auto
  ultimately show ?thesis by (simp add: ch)
qed

theorem budget_check_fails_closed_witness:
  "d_Allowed (fst (snd (Check memory_ops w_ce ''a'' (w_cost 5000) NewMemoryStorage))) = False \<and>
   fst (Check memory_ops w_ce ''a'' (w_cost 5000) NewMemoryStorage) = NewMemoryStorage"
proof -
  have "\<not> d_Allowed (fst (snd (Check memory_ops w_ce ''a'' (w_cost 5000) NewMemoryStorage)))" by code_simp
  moreover have "is_ok (snd (Set memory_ops b s))" for b s by (simp add: memory_defs)
  ultimately show ?thesis
    using budget_check_fails_closed [where st = memory_ops and ce = w_ce and t = "''a''" and c = "w_cost 5000" and s = NewMemoryStorage]
    by (auto split: prod.splits)
qed

text \<open>
  New limits do not reach a tenant who has already spent: once the in-memory store holds a
  budget for the tenant, setting other limits changes neither what a check decides nor the limits in
  effect.
\<close>
theorem set_limits_ignored_after_first_spend:
  assumes "Get memory_ops t s = Ok (Some b)"
  shows "snd (Check memory_ops ce t c (fst (SetLimits memory_ops t daily monthly s))) = snd (Check memory_ops ce t c s) \<and>
    effective_limits memory_ops t (fst (SetLimits memory_ops t daily monthly s)) = Some (b_DailyLimit b, b_MonthlyLimit b)"
  using assms
  by (auto simp: memory_defs Check_def effective_limits_def new_or_stored_def Let_def split: sum.splits)

theorem set_limits_ignored_after_first_spend_witness:
  "let s = fst (Check memory_ops w_ce ''a'' (w_cost 700) NewMemoryStorage);
       s' = fst (SetLimits memory_ops ''a'' 0 0 s)
   in d_Allowed (fst (snd (Check memory_ops w_ce ''a'' (w_cost 300) s'))) \<and>
      effective_limits memory_ops ''a'' s' = Some (1000, 50000)"
proof -
  let ?s = "fst (Check memory_ops w_ce ''a'' (w_cost 700) NewMemoryStorage)"
  have "map_sum id (map_option (\<lambda>b. (b_DailyLimit b, b_MonthlyLimit b))) (Get memory_ops ''a'' ?s) = Ok (Some (1000, 50000))"
    and "d_Allowed (fst (snd (Check memory_ops w_ce ''a'' (w_cost 300) ?s)))" by code_simp+
  then show ?thesis
    using set_limits_ignored_after_first_spend [of "''a''" ?s _ w_ce "w_cost 300" 0 0]
    by (cases "Get memory_ops ''a'' ?s") (auto simp: Let_def)
qed

end
