(* ===== verification/Lease.thy ===== *)
theory Lease
  imports Helm_Prelude
begin

text \<open>
  Execution leases, \<^verbatim>\<open>core/pkg/lease/types.go\<close> and \<^verbatim>\<open>manager.go\<close>: the in-memory manager and the
  life cycle PENDING, ACTIVE, COMPLETED/EXPIRED/REVOKED. Each method holds the manager's lock, so a
  history of the manager is a sequence of calls; the reading of the clock is an argument.
\<close>

section \<open>Data (types.go)\<close>

datatype LeaseStatus = LPending | LActive | LCompleted | LExpired | LRevoked

record SecretBinding =
  SecretRef :: string
  MountPath :: string
  EnvVar :: string
  Scopes :: "string list"

record ExecutionLease =
  LeaseID :: string
  l_RunID :: string
  SandboxID :: string
  l_WorkspacePath :: string
  l_TemplateRef :: string
  l_Backend :: string
  l_ProfileName :: string
  NetworkPolicyRef :: string
  l_SecretBindings :: "SecretBinding list"
  l_TTL :: godur
  l_Status :: LeaseStatus
  l_EffectGraphHash :: string
  CreatedAt :: gotime
  ActivatedAt :: gotime
  ExpiresAt :: gotime
  CompletedAt :: gotime
  RevokeReason :: string

definition IsTerminal :: "ExecutionLease \<Rightarrow> bool" where
  "IsTerminal l = (l_Status l \<in> {LCompleted, LExpired, LRevoked})"

record LeaseRequest =
  q_RunID :: string
  q_WorkspacePath :: string
  q_Backend :: string
  q_ProfileName :: string
  q_TemplateRef :: string
  q_TTL :: godur
  q_EffectGraphHash :: string
  q_SecretBindings :: "SecretBinding list"

section \<open>The manager (manager.go)\<close>

record InMemoryLeaseManager =
  leases :: "(string, ExecutionLease) gomap"
  counter :: int

datatype lease_error =
    RunIDRequired | BackendRequired | TTLNotPositive | LeaseNotFound string
  | CannotActivate LeaseStatus | CannotComplete LeaseStatus | CannotExtend LeaseStatus | CannotRevoke LeaseStatus

definition NewInMemoryLeaseManager :: InMemoryLeaseManager where
  "NewInMemoryLeaseManager = \<lparr>leases = [], counter = 0\<rparr>"

definition lease_id :: "int \<Rightarrow> string" where
  "lease_id n = ''lease-'' @ dec_of_int n"

definition Acquire :: "gotime \<Rightarrow> LeaseRequest \<Rightarrow> InMemoryLeaseManager \<Rightarrow> InMemoryLeaseManager \<times> (lease_error, ExecutionLease) res" where
  "Acquire now req m =
     (if q_RunID req = [] then (m, Err RunIDRequired)
      else if q_Backend req = [] then (m, Err BackendRequired)
      else if q_TTL req \<le> 0 then (m, Err TTLNotPositive)
      else
        (let m = m\<lparr>counter := wrap64 (counter m + 1)\<rparr>;
             lease = \<lparr>LeaseID = lease_id (counter m), l_RunID = q_RunID req, SandboxID = [],
               l_WorkspacePath = q_WorkspacePath req, l_TemplateRef = q_TemplateRef req, l_Backend = q_Backend req,
               l_ProfileName = q_ProfileName req, NetworkPolicyRef = [], l_SecretBindings = q_SecretBindings req,
               l_TTL = q_TTL req, l_Status = LPending, l_EffectGraphHash = q_EffectGraphHash req,
               CreatedAt = now, ActivatedAt = 0, ExpiresAt = now + q_TTL req, CompletedAt = 0, RevokeReason = []\<rparr>
         in (m\<lparr>leases := AList.update (LeaseID lease) lease (leases m)\<rparr>, Ok lease)))"

definition Activate :: "gotime \<Rightarrow> string \<Rightarrow> string \<Rightarrow> InMemoryLeaseManager \<Rightarrow> InMemoryLeaseManager \<times> (lease_error, unit) res" where
  "Activate now leaseID sandboxID m =
     (case map_of (leases m) leaseID of
        None \<Rightarrow> (m, Err (LeaseNotFound leaseID))
      | Some lease \<Rightarrow>
          if l_Status lease \<noteq> LPending then (m, Err (CannotActivate (l_Status lease)))
          else (m\<lparr>leases := AList.update leaseID
                  (lease\<lparr>l_Status := LActive, SandboxID := sandboxID, ActivatedAt := now\<rparr>) (leases m)\<rparr>, Ok ()))"

definition Complete :: "gotime \<Rightarrow> string \<Rightarrow> InMemoryLeaseManager \<Rightarrow> InMemoryLeaseManager \<times> (lease_error, unit) res" where
  "Complete now leaseID m =
     (case map_of (leases m) leaseID of
        None \<Rightarrow> (m, Err (LeaseNotFound leaseID))
      | Some lease \<Rightarrow>
          if l_Status lease \<noteq> LActive then (m, Err (CannotComplete (l_Status lease)))
          else (m\<lparr>leases := AList.update leaseID (lease\<lparr>l_Status := LCompleted, CompletedAt := now\<rparr>) (leases m)\<rparr>, Ok ()))"

definition Extend :: "string \<Rightarrow> godur \<Rightarrow> InMemoryLeaseManager \<Rightarrow> InMemoryLeaseManager \<times> (lease_error, unit) res" where
  "Extend leaseID duration m =
     (case map_of (leases m) leaseID of
        None \<Rightarrow> (m, Err (LeaseNotFound leaseID))
      | Some lease \<Rightarrow>
          if l_Status lease \<noteq> LActive then (m, Err (CannotExtend (l_Status lease)))
          else (m\<lparr>leases := AList.update leaseID
                  (lease\<lparr>ExpiresAt := ExpiresAt lease + duration, l_TTL := wrap64 (l_TTL lease + duration)\<rparr>) (leases m)\<rparr>, Ok ()))"

definition Revoke :: "gotime \<Rightarrow> string \<Rightarrow> string \<Rightarrow> InMemoryLeaseManager \<Rightarrow> InMemoryLeaseManager \<times> (lease_error, unit) res" where
  "Revoke now leaseID reason m =
     (case map_of (leases m) leaseID of
        None \<Rightarrow> (m, Err (LeaseNotFound leaseID))
      | Some lease \<Rightarrow>
          if IsTerminal lease then (m, Err (CannotRevoke (l_Status lease)))
          else (m\<lparr>leases := AList.update leaseID
                  (lease\<lparr>l_Status := LRevoked, RevokeReason := reason, CompletedAt := now\<rparr>) (leases m)\<rparr>, Ok ()))"

definition GetLease :: "string \<Rightarrow> InMemoryLeaseManager \<Rightarrow> ExecutionLease option" where
  "GetLease leaseID m = map_of (leases m) leaseID"

definition ListActive :: "InMemoryLeaseManager \<Rightarrow> ExecutionLease list" where
  "ListActive m = filter (\<lambda>l. \<not> IsTerminal l) (map snd (leases m))"

definition stale :: "gotime \<Rightarrow> ExecutionLease \<Rightarrow> bool" where
  "stale now l \<longleftrightarrow> l_Status l = LActive \<and> now > ExpiresAt l"

definition ExpireStale :: "gotime \<Rightarrow> InMemoryLeaseManager \<Rightarrow> InMemoryLeaseManager \<times> nat" where
  "ExpireStale now m =
     (m\<lparr>leases := map (\<lambda>(k, l). (k, if stale now l then l\<lparr>l_Status := LExpired, CompletedAt := now\<rparr> else l)) (leases m)\<rparr>,
      length (filter (\<lambda>(k, l). stale now l) (leases m)))"

section \<open>Histories\<close>

datatype lease_op =
    OpAcquire gotime LeaseRequest | OpActivate gotime string string | OpComplete gotime string
  | OpExtend string godur | OpRevoke gotime string string | OpExpire gotime

fun lease_step :: "lease_op \<Rightarrow> InMemoryLeaseManager \<Rightarrow> InMemoryLeaseManager" where
  "lease_step (OpAcquire now q) m = fst (Acquire now q m)"
| "lease_step (OpActivate now i s) m = fst (Activate now i s m)"
| "lease_step (OpComplete now i) m = fst (Complete now i m)"
| "lease_step (OpExtend i d) m = fst (Extend i d m)"
| "lease_step (OpRevoke now i r) m = fst (Revoke now i r m)"
| "lease_step (OpExpire now) m = fst (ExpireStale now m)"

inductive lease_trans :: "LeaseStatus \<Rightarrow> LeaseStatus \<Rightarrow> bool" where
  stay: "lease_trans s s"
| activate: "lease_trans LPending LActive"
| complete: "lease_trans LActive LCompleted"
| expire: "lease_trans LActive LExpired"
| revoke: "lease_trans LPending LRevoked"
| revoke_active: "lease_trans LActive LRevoked"

code_pred lease_trans .

inductive_simps lease_trans_from [simp]:
  "lease_trans LPending s" "lease_trans LActive s" "lease_trans LCompleted s" "lease_trans LExpired s" "lease_trans LRevoked s"

text \<open>
  What a step may do to a lease: a legal status change, the identity of the lease and its origin kept,
  and nothing at all once it is terminal.
\<close>

definition lease_evolves :: "ExecutionLease \<Rightarrow> ExecutionLease \<Rightarrow> bool" where
  "lease_evolves l l' \<longleftrightarrow>
     lease_trans (l_Status l) (l_Status l') \<and>
     (IsTerminal l \<longrightarrow> l' = l) \<and>
     LeaseID l' = LeaseID l \<and> l_RunID l' = l_RunID l \<and> l_EffectGraphHash l' = l_EffectGraphHash l \<and>
     l_SecretBindings l' = l_SecretBindings l \<and> CreatedAt l' = CreatedAt l"

definition unique_keys :: "InMemoryLeaseManager \<Rightarrow> bool" where
  "unique_keys m = distinct (map fst (leases m))"

definition lease_inv :: "InMemoryLeaseManager \<Rightarrow> bool" where
  "lease_inv m \<longleftrightarrow>
     (\<forall>k l. map_of (leases m) k = Some l \<longrightarrow>
        LeaseID l = k \<and> (\<exists>n. 1 \<le> n \<and> n \<le> counter m \<and> k = lease_id n) \<and>
        l_TTL l = wrap64 (ExpiresAt l - CreatedAt l)) \<and>
     unique_keys m \<and> 0 \<le> counter m"

section \<open>Lemmas\<close>

lemma lease_evolves_refl [simp]: "lease_evolves l l"
  by (cases "l_Status l") (auto simp: lease_evolves_def intro: lease_trans.intros)

lemma lease_id_inj: "0 \<le> a \<Longrightarrow> 0 \<le> b \<Longrightarrow> lease_id a = lease_id b \<longleftrightarrow> a = b"
  by (auto simp: lease_id_def dec_of_int_def dest: dec_of_nat_inj)

lemma map_of_map_snd: "map_of (map (\<lambda>(k, l). (k, f l)) xs) k = map_option f (map_of xs k)"
  by (induction xs) auto

lemma unique_keys_update [simp]: "unique_keys m \<Longrightarrow> unique_keys (m\<lparr>leases := AList.update k l (leases m)\<rparr>)"
  by (simp add: unique_keys_def distinct_update)

lemma unique_keys_acquire [simp]:
  "unique_keys m \<Longrightarrow> unique_keys (m\<lparr>counter := c, leases := AList.update k l (leases m)\<rparr>)"
  by (simp add: unique_keys_def distinct_update)

lemma unique_keys_map [simp]: "unique_keys (m\<lparr>leases := map (\<lambda>(k, l). (k, f l)) (leases m)\<rparr>) = unique_keys m"
  by (simp add: unique_keys_def comp_def case_prod_beta)

lemma lease_invD:
  "lease_inv m \<Longrightarrow> map_of (leases m) k = Some l \<Longrightarrow>
   LeaseID l = k \<and> (\<exists>n. 1 \<le> n \<and> n \<le> counter m \<and> k = lease_id n) \<and> l_TTL l = wrap64 (ExpiresAt l - CreatedAt l)"
  by (simp add: lease_inv_def)

text \<open>The contract of a step, and the two shapes of a successful change.\<close>

definition step_ok :: "InMemoryLeaseManager \<Rightarrow> InMemoryLeaseManager \<Rightarrow> bool" where
  "step_ok m m' \<longleftrightarrow>
     lease_inv m' \<and> counter m \<le> counter m' \<and> counter m' \<le> counter m + 1 \<and>
     (\<forall>k l. map_of (leases m) k = Some l \<longrightarrow> (\<exists>l'. map_of (leases m') k = Some l' \<and> lease_evolves l l')) \<and>
     (\<forall>k l'. map_of (leases m) k = None \<longrightarrow> map_of (leases m') k = Some l' \<longrightarrow> l_Status l' = LPending)"

lemma step_ok_refl: "lease_inv m \<Longrightarrow> step_ok m m"
  by (auto simp: step_ok_def intro: lease_evolves_refl)

lemma step_ok_update:
  assumes "lease_inv m" "map_of (leases m) k = Some l" "lease_evolves l l'"
    and "l_TTL l' = wrap64 (ExpiresAt l' - CreatedAt l')"
  shows "step_ok m (m\<lparr>leases := AList.update k l' (leases m)\<rparr>)"
proof -
  have "LeaseID l' = k" using assms(2,3) lease_invD [OF assms(1,2)] by (simp add: lease_evolves_def)
  then show ?thesis
    using assms lease_invD [OF assms(1)]
    by (auto simp: step_ok_def lease_inv_def)
qed

lemma step_ok_expire:
  assumes "lease_inv m"
  shows "step_ok m (fst (ExpireStale now m))"
  using assms unfolding step_ok_def lease_inv_def ExpireStale_def
  by (auto simp: map_of_map_snd lease_evolves_def IsTerminal_def stale_def intro: lease_trans.intros)

lemma step_ok_acquire:
  assumes "lease_inv m" "counter m < max_int64" "int64 (q_TTL q)"
  shows "step_ok m (fst (Acquire now q m))"
proof -
  have w: "wrap64 (counter m + 1) = counter m + 1"
    using assms by (intro wrap64_id) (auto simp: int64_def lease_inv_def min_int64_def max_int64_def)
  have fresh: "map_of (leases m) (lease_id (counter m + 1)) = None"
  proof (cases "map_of (leases m) (lease_id (counter m + 1))")
    case (Some l)
    from lease_invD [OF assms(1) Some] obtain n where "1 \<le> n" "n \<le> counter m" "lease_id (counter m + 1) = lease_id n" by auto
    then show ?thesis using lease_id_inj [of "counter m + 1" n] by simp
  qed
  have ne: "k \<noteq> lease_id (counter m + 1)" if "map_of (leases m) k = Some l" for k l
    using fresh that by auto
  let ?n = "counter m + 1"
  have "0 \<le> counter m" "unique_keys m" using assms(1) by (auto simp: lease_inv_def)
  moreover have "\<exists>n. 1 \<le> n \<and> n \<le> ?n \<and> lease_id ?n = lease_id n"
    using \<open>0 \<le> counter m\<close> by (intro exI [of _ ?n]) simp
  moreover have "\<exists>n. 1 \<le> n \<and> n \<le> ?n \<and> k = lease_id n" if "map_of (leases m) k = Some l" for k l
    using lease_invD [OF assms(1) that] by force
  ultimately show ?thesis
    using step_ok_refl [OF assms(1)] fresh ne lease_invD [OF assms(1)] wrap64_id [OF assms(3)]
    by (auto simp: Acquire_def Let_def w) (auto simp: step_ok_def lease_inv_def split: if_splits)
qed

fun op_valid :: "lease_op \<Rightarrow> bool" where
  "op_valid (OpAcquire now q) = int64 (q_TTL q)"
| "op_valid _ = True"

text \<open>The methods on one lease: refused, or one lease replaced under a guard.\<close>

definition guarded :: "string \<Rightarrow> (ExecutionLease \<Rightarrow> bool) \<Rightarrow> (ExecutionLease \<Rightarrow> ExecutionLease) \<Rightarrow> InMemoryLeaseManager \<Rightarrow> InMemoryLeaseManager" where
  "guarded i P f m = (case map_of (leases m) i of
     None \<Rightarrow> m | Some l \<Rightarrow> if P l then m\<lparr>leases := AList.update i (f l) (leases m)\<rparr> else m)"

lemma lease_ops_guarded:
  "fst (Activate now i sb m) = guarded i (\<lambda>l. l_Status l = LPending) (\<lambda>l. l\<lparr>l_Status := LActive, SandboxID := sb, ActivatedAt := now\<rparr>) m"
  "fst (Complete now i m) = guarded i (\<lambda>l. l_Status l = LActive) (\<lambda>l. l\<lparr>l_Status := LCompleted, CompletedAt := now\<rparr>) m"
  "fst (Extend i d m) = guarded i (\<lambda>l. l_Status l = LActive) (\<lambda>l. l\<lparr>ExpiresAt := ExpiresAt l + d, l_TTL := wrap64 (l_TTL l + d)\<rparr>) m"
  "fst (Revoke now i r m) = guarded i (\<lambda>l. \<not> IsTerminal l) (\<lambda>l. l\<lparr>l_Status := LRevoked, RevokeReason := r, CompletedAt := now\<rparr>) m"
  by (simp_all add: Activate_def Complete_def Extend_def Revoke_def guarded_def split: option.split)

lemma step_ok_guarded:
  assumes "lease_inv m"
    and "\<And>l. l_TTL l = wrap64 (ExpiresAt l - CreatedAt l) \<Longrightarrow> P l \<Longrightarrow> lease_evolves l (f l) \<and> l_TTL (f l) = wrap64 (ExpiresAt (f l) - CreatedAt (f l))"
  shows "step_ok m (guarded i P f m)"
proof (cases "map_of (leases m) i")
  case (Some l)
  with step_ok_refl [OF assms(1)] step_ok_update [OF assms(1) Some] lease_invD [OF assms(1) Some] assms(2) [of l]
  show ?thesis by (simp add: guarded_def)
qed (simp add: guarded_def step_ok_refl assms(1))

lemma extend_ttl: "T = wrap64 (E - C) \<Longrightarrow> wrap64 (T + d) = wrap64 (E + d - C)"
  by (simp only: wrap64_add_left) (simp add: algebra_simps)

lemma not_terminal: "\<not> IsTerminal l \<longleftrightarrow> l_Status l = LPending \<or> l_Status l = LActive"
  by (cases "l_Status l") (auto simp: IsTerminal_def)

lemma revoke_trans: "\<not> IsTerminal l \<Longrightarrow> lease_trans (l_Status l) LRevoked"
  by (auto simp: not_terminal)

lemma lease_step_ok:
  assumes "lease_inv m" "counter m < max_int64" "op_valid op"
  shows "step_ok m (lease_step op m)"
proof (cases op)
  case (OpAcquire now q)
  then show ?thesis using assms step_ok_acquire by simp
next
  case (OpExpire now)
  then show ?thesis using step_ok_expire [OF assms(1)] by simp
next
  case (OpRevoke now i r)
  show ?thesis
    unfolding OpRevoke lease_step.simps lease_ops_guarded
    by (rule step_ok_guarded [OF assms(1)]) (simp add: lease_evolves_def revoke_trans)
qed (auto simp: lease_ops_guarded lease_evolves_def IsTerminal_def extend_ttl intro!: step_ok_guarded assms(1))

lemma step_ok_lease:
  "step_ok m m' \<Longrightarrow> map_of (leases m) k = Some l \<Longrightarrow> \<exists>l'. map_of (leases m') k = Some l' \<and> lease_evolves l l'"
  unfolding step_ok_def by blast

lemma lease_run_inv:
  assumes "lease_inv m" "\<forall>op \<in> set ops. op_valid op" "counter m + int (length ops) \<le> max_int64"
  shows "lease_inv (fold lease_step ops m) \<and> counter (fold lease_step ops m) \<le> counter m + int (length ops) \<and>
    (\<forall>k l. map_of (leases m) k = Some l \<longrightarrow>
       (\<exists>l'. map_of (leases (fold lease_step ops m)) k = Some l' \<and> rtranclp lease_evolves l l'))"
  using assms
proof (induction ops arbitrary: m)
  case (Cons op ops)
  have so: "step_ok m (lease_step op m)" using Cons.prems by (intro lease_step_ok) auto
  then have c: "counter (lease_step op m) \<le> counter m + 1" "lease_inv (lease_step op m)" by (auto simp: step_ok_def)
  with Cons.IH [of "lease_step op m"] Cons.prems
  have IH: "lease_inv (fold lease_step ops (lease_step op m)) \<and>
      counter (fold lease_step ops (lease_step op m)) \<le> counter (lease_step op m) + int (length ops) \<and>
      (\<forall>k l. map_of (leases (lease_step op m)) k = Some l \<longrightarrow>
       (\<exists>l'. map_of (leases (fold lease_step ops (lease_step op m))) k = Some l' \<and> rtranclp lease_evolves l l'))"
    by auto
  have "\<exists>l'. map_of (leases (fold lease_step ops (lease_step op m))) k = Some l' \<and> rtranclp lease_evolves l l'"
    if k: "map_of (leases m) k = Some l" for k l
  proof -
    from so k obtain l1 where "map_of (leases (lease_step op m)) k = Some l1" "lease_evolves l l1" using step_ok_lease by blast
    with IH show ?thesis by (meson converse_rtranclp_into_rtranclp)
  qed
  with IH c show ?case by auto
qed auto

lemma evolves_star:
  "rtranclp lease_evolves l l' \<Longrightarrow> rtranclp lease_trans (l_Status l) (l_Status l') \<and> (IsTerminal l \<longrightarrow> l' = l) \<and>
     LeaseID l' = LeaseID l \<and> l_RunID l' = l_RunID l \<and> l_EffectGraphHash l' = l_EffectGraphHash l \<and>
     l_SecretBindings l' = l_SecretBindings l \<and> CreatedAt l' = CreatedAt l"
  by (induction rule: rtranclp_induct) (auto simp: lease_evolves_def intro: rtranclp.rtrancl_into_rtrancl)

lemma lease_inv_new: "lease_inv NewInMemoryLeaseManager"
  by (simp add: lease_inv_def NewInMemoryLeaseManager_def unique_keys_def)

section \<open>Properties\<close>

text \<open>
  C35: A lease keeps its life cycle whatever calls follow: it is never lost or overwritten by a later
  lease, its status only moves along PENDING, ACTIVE, COMPLETED/EXPIRED/REVOKED (or PENDING to
  REVOKED), a terminal lease never changes again, and the approved effect graph, the run and the
  credentials it was granted for stay what they were.
\<close>
theorem lease_lifecycle:
  assumes "\<forall>op \<in> set (ops @ ops'). op_valid op" "int (length (ops @ ops')) \<le> max_int64"
    and "GetLease k (fold lease_step ops NewInMemoryLeaseManager) = Some l"
  shows "\<exists>l'. GetLease k (fold lease_step (ops @ ops') NewInMemoryLeaseManager) = Some l' \<and>
    rtranclp lease_trans (l_Status l) (l_Status l') \<and> (IsTerminal l \<longrightarrow> l' = l) \<and>
    LeaseID l' = k \<and> l_RunID l' = l_RunID l \<and> l_EffectGraphHash l' = l_EffectGraphHash l \<and>
    l_SecretBindings l' = l_SecretBindings l \<and> CreatedAt l' = CreatedAt l"
proof -
  let ?m = "fold lease_step ops NewInMemoryLeaseManager"
  have m: "lease_inv ?m \<and> counter ?m \<le> int (length ops)"
    using lease_run_inv [OF lease_inv_new, of ops] assms(1,2) by (auto simp: NewInMemoryLeaseManager_def)
  then obtain l' where "map_of (leases (fold lease_step ops' ?m)) k = Some l'" "rtranclp lease_evolves l l'"
    using lease_run_inv [of ?m ops'] assms unfolding GetLease_def by force
  with evolves_star [OF this(2)] lease_invD [of ?m k l] m assms(3) show ?thesis
    by (auto simp: GetLease_def)
qed

definition w_lease_req :: LeaseRequest where
  "w_lease_req = \<lparr>q_RunID = ''run'', q_WorkspacePath = ''/w'', q_Backend = ''wasi'', q_ProfileName = [], q_TemplateRef = [],
     q_TTL = 60, q_EffectGraphHash = ''h'', q_SecretBindings = []\<rparr>"

theorem lease_lifecycle_witness:
  "let m = fold lease_step [OpAcquire 5 w_lease_req, OpRevoke 6 ''lease-1'' ''r''] NewInMemoryLeaseManager
   in IsTerminal (the (GetLease ''lease-1'' m)) \<and>
      GetLease ''lease-1'' (fold lease_step [OpActivate 7 ''lease-1'' ''sb'', OpAcquire 8 w_lease_req] m) = GetLease ''lease-1'' m"
proof -
  let ?ops = "[OpAcquire 5 w_lease_req, OpRevoke 6 ''lease-1'' ''r'']"
  let ?ops' = "[OpActivate 7 ''lease-1'' ''sb'', OpAcquire 8 w_lease_req]"
  let ?m = "fold lease_step ?ops NewInMemoryLeaseManager"
  have "GetLease ''lease-1'' ?m \<noteq> None" "IsTerminal (the (GetLease ''lease-1'' ?m))" "int64 (q_TTL w_lease_req)" by code_simp+
  then obtain l where l: "GetLease ''lease-1'' ?m = Some l" "IsTerminal l" "int64 (q_TTL w_lease_req)" by auto
  then show ?thesis
    using lease_lifecycle [of ?ops ?ops' "''lease-1''" l] by (auto simp: Let_def max_int64_def)
qed

text \<open>
  The time limit of a lease is what it says: in every reachable state the recorded TTL is the
  span from creation to expiry (as an \<^verbatim>\<open>int64\<close>), also after extensions, and sweeping stale leases
  expires exactly the active leases past their expiry, stamps them, reports their number and leaves
  every other lease as it was.
\<close>
theorem lease_expiry:
  assumes "\<forall>op \<in> set ops. op_valid op" "int (length ops) \<le> max_int64"
    and "m = fold lease_step ops NewInMemoryLeaseManager" "ExpireStale now m = (m', n)"
    and "GetLease k m = Some l"
  shows "l_TTL l = wrap64 (ExpiresAt l - CreatedAt l) \<and>
    GetLease k m' = Some (if l_Status l = LActive \<and> ExpiresAt l < now then l\<lparr>l_Status := LExpired, CompletedAt := now\<rparr> else l) \<and>
    n = card {k. \<exists>l. GetLease k m = Some l \<and> l_Status l = LActive \<and> ExpiresAt l < now}"
proof -
  have inv: "lease_inv m"
    using lease_run_inv [OF lease_inv_new assms(1)] assms(2,3) by (simp add: NewInMemoryLeaseManager_def)
  have d: "distinct (map fst (leases m))" using inv by (simp add: lease_inv_def unique_keys_def)
  have "{k. \<exists>l. GetLease k m = Some l \<and> l_Status l = LActive \<and> ExpiresAt l < now} =
      fst ` set (filter (\<lambda>(k, l). stale now l) (leases m))"
    using d by (force simp: GetLease_def stale_def image_iff)
  also have "card \<dots> = length (filter (\<lambda>(k, l). stale now l) (leases m))"
    using d by (metis (no_types) distinct_card distinct_map_filter length_map list.set_map)
  finally have "n = card {k. \<exists>l. GetLease k m = Some l \<and> l_Status l = LActive \<and> ExpiresAt l < now}"
    using assms(4) by (simp add: ExpireStale_def)
  with lease_invD [OF inv] assms(4,5) show ?thesis
    by (auto simp: ExpireStale_def GetLease_def map_of_map_snd stale_def)
qed

theorem lease_expiry_witness:
  "let m = fold lease_step [OpAcquire 5 w_lease_req, OpActivate 6 ''lease-1'' ''sb'', OpExtend ''lease-1'' 10] NewInMemoryLeaseManager
   in GetLease ''lease-1'' (fst (ExpireStale 76 m)) =
      map_option (\<lambda>l. l\<lparr>l_Status := LExpired, CompletedAt := 76\<rparr>) (GetLease ''lease-1'' m)"
proof -
  let ?ops = "[OpAcquire 5 w_lease_req, OpActivate 6 ''lease-1'' ''sb'', OpExtend ''lease-1'' 10]"
  let ?m = "fold lease_step ?ops NewInMemoryLeaseManager"
  have "GetLease ''lease-1'' ?m \<noteq> None" "l_Status (the (GetLease ''lease-1'' ?m)) = LActive"
    "ExpiresAt (the (GetLease ''lease-1'' ?m)) = 75" "int64 (q_TTL w_lease_req)" by code_simp+
  then obtain l where "GetLease ''lease-1'' ?m = Some l" "l_Status l = LActive" "ExpiresAt l = 75" "int64 (q_TTL w_lease_req)" by auto
  then show ?thesis
    using lease_expiry [of ?ops ?m 76 "fst (ExpireStale 76 ?m)" "snd (ExpireStale 76 ?m)" "''lease-1''" l]
    by (auto simp: Let_def max_int64_def)
qed

end
