(* ===== verification/Proof_Graph.thy ===== *)
theory Proof_Graph
  imports Helm_Prelude
begin

text \<open>
  The ProofGraph, \<^verbatim>\<open>core/pkg/proofgraph/node.go\<close>, \<^verbatim>\<open>graph.go\<close> and \<^verbatim>\<open>store.go\<close>: nodes named by the
  digest of their canonical encoding, the append operations, validation of everything a node rests
  on, and the in-memory store. RFC 8785 canonicalisation, SHA-256 and JSON validity are parameters
  (\<open>pg_env\<close>). A Go panic is the error \<open>PgPanic\<close>. Nodes are values here: writing to a node through the
  pointer an append returned is outside the model.
\<close>

section \<open>Nodes (node.go)\<close>

type_synonym NodeType = string

text \<open>\<open>None\<close> in \<open>n_Parents\<close> is the nil slice, which canonicalises differently from an empty one.\<close>

record Node =
  n_NodeHash :: string
  n_Kind :: NodeType
  n_Parents :: "string list option"
  n_Lamport :: "64 word"
  n_Principal :: string
  n_PrincipalSeq :: "64 word"
  n_Payload :: "byte list"
  n_Sig :: string
  n_SigPurpose :: string
  n_Timestamp :: int

record NodeJCS =
  j_Kind :: NodeType
  j_Parents :: "string list option"
  j_Lamport :: "64 word"
  j_Principal :: string
  j_PrincipalSeq :: "64 word"
  j_Payload :: "byte list"
  j_Sig :: string
  j_SigPurpose :: string

record pg_env =
  pg_jcs :: "NodeJCS \<Rightarrow> byte list option"
  pg_sha :: "byte list \<Rightarrow> byte list"
  pg_json_valid :: "byte list \<Rightarrow> bool"

datatype pg_error =
    InvalidPurpose string | InvalidRef string string | HashMismatch string string
  | SignatureRequired | NodeNotFound string | PgPanic

definition parents_of :: "Node \<Rightarrow> string list" where
  "parents_of n = (case n_Parents n of None \<Rightarrow> [] | Some ps \<Rightarrow> ps)"

definition ValidateSignaturePurpose :: "string \<Rightarrow> (pg_error, unit) res" where
  "ValidateSignaturePurpose purpose =
     (if purpose \<in> {''author'', ''witness'', ''countersign'', ''audit''} then Ok () else Err (InvalidPurpose purpose))"

definition node_jcs :: "Node \<Rightarrow> NodeJCS" where
  "node_jcs n = \<lparr>j_Kind = n_Kind n, j_Parents = n_Parents n, j_Lamport = n_Lamport n, j_Principal = n_Principal n,
     j_PrincipalSeq = n_PrincipalSeq n, j_Payload = n_Payload n, j_Sig = n_Sig n, j_SigPurpose = n_SigPurpose n\<rparr>"

definition ComputeNodeHashE :: "pg_env \<Rightarrow> Node \<Rightarrow> string option" where
  "ComputeNodeHashE pe n = map_option (\<lambda>d. hex_EncodeToString (pg_sha pe d)) (pg_jcs pe (node_jcs n))"

definition ComputeNodeHash :: "pg_env \<Rightarrow> Node \<Rightarrow> (pg_error, string) res" where
  "ComputeNodeHash pe n = (case ComputeNodeHashE pe n of None \<Rightarrow> Err PgPanic | Some h \<Rightarrow> Ok h)"

definition validateNodeHashRef :: "string \<Rightarrow> string \<Rightarrow> (pg_error, unit) res" where
  "validateNodeHashRef field ref =
     (if length ref \<noteq> 64 then Err (InvalidRef field ref)
      else if list_all lower_hex_char ref then Ok () else Err (InvalidRef field ref))"

definition validateSignaturePurpose :: "Node \<Rightarrow> (pg_error, unit) res" where
  "validateSignaturePurpose n =
     (if n_Sig n = [] \<or> n_SigPurpose n = [] then Ok () else ValidateSignaturePurpose (n_SigPurpose n))"

fun validate_refs :: "string list \<Rightarrow> (pg_error, unit) res" where
  "validate_refs [] = Ok ()"
| "validate_refs (p # ps) = (case validateNodeHashRef ''parents'' p of Inl e \<Rightarrow> Err e | Inr _ \<Rightarrow> validate_refs ps)"

definition Node_Validate :: "pg_env \<Rightarrow> Node \<Rightarrow> (pg_error, unit) res" where
  "Node_Validate pe n =
     (case validateSignaturePurpose n of
        Inl e \<Rightarrow> Err e
      | Inr _ \<Rightarrow>
          (case validateNodeHashRef ''node_hash'' (n_NodeHash n) of
             Inl e \<Rightarrow> Err e
           | Inr _ \<Rightarrow>
               (case validate_refs (parents_of n) of
                  Inl e \<Rightarrow> Err e
                | Inr _ \<Rightarrow>
                    (case ComputeNodeHash pe n of
                       Inl e \<Rightarrow> Err e
                     | Inr expected \<Rightarrow>
                         if n_NodeHash n \<noteq> expected then Err (HashMismatch (n_NodeHash n) expected) else Ok ()))))"

definition SetSignature :: "pg_env \<Rightarrow> string \<Rightarrow> string \<Rightarrow> Node \<Rightarrow> (pg_error, Node) res" where
  "SetSignature pe signature purpose n =
     (if signature = [] then Err SignatureRequired
      else case ValidateSignaturePurpose purpose of
             Inl e \<Rightarrow> Err e
           | Inr _ \<Rightarrow>
               (let n = n\<lparr>n_Sig := signature, n_SigPurpose := purpose\<rparr> in
                case ComputeNodeHash pe n of Inl e \<Rightarrow> Err e | Inr h \<Rightarrow> Ok (n\<lparr>n_NodeHash := h\<rparr>)))"

definition MaxPayloadSize :: int where "MaxPayloadSize = 1048576"

text \<open>\<open>ts\<close> is the clock's reading in Unix milliseconds.\<close>

definition NewNode ::
  "pg_env \<Rightarrow> NodeType \<Rightarrow> string list option \<Rightarrow> byte list \<Rightarrow> 64 word \<Rightarrow> string \<Rightarrow> 64 word \<Rightarrow> int \<Rightarrow> (pg_error, Node) res" where
  "NewNode pe kind parents payload lamport who seq ts =
     (if int (length payload) > MaxPayloadSize then Err PgPanic
      else if length payload > 0 \<and> \<not> pg_json_valid pe payload then Err PgPanic
      else
        (let n = \<lparr>n_NodeHash = [], n_Kind = kind, n_Parents = parents, n_Lamport = lamport, n_Principal = who,
              n_PrincipalSeq = seq, n_Payload = payload, n_Sig = [], n_SigPurpose = [], n_Timestamp = ts\<rparr>
         in case ComputeNodeHash pe n of Inl e \<Rightarrow> Err e | Inr h \<Rightarrow> Ok (n\<lparr>n_NodeHash := h\<rparr>)))"

section \<open>The graph (graph.go)\<close>

record Graph =
  nodes :: "(string, Node) gomap"
  heads :: "string list option"
  lamport :: "64 word"

definition NewGraph :: Graph where
  "NewGraph = \<lparr>nodes = [], heads = None, lamport = 0\<rparr>"

definition insert_node :: "Node \<Rightarrow> Graph \<Rightarrow> Graph" where
  "insert_node n g = g\<lparr>nodes := AList.update (n_NodeHash n) n (nodes g), heads := Some [n_NodeHash n]\<rparr>"

definition Graph_Append ::
  "pg_env \<Rightarrow> int \<Rightarrow> NodeType \<Rightarrow> byte list \<Rightarrow> string \<Rightarrow> 64 word \<Rightarrow> Graph \<Rightarrow> Graph \<times> (pg_error, Node) res" where
  "Graph_Append pe ts kind payload who seq g =
     (let g = g\<lparr>lamport := lamport g + 1\<rparr> in
      case NewNode pe kind (heads g) payload (lamport g) who seq ts of
        Inl e \<Rightarrow> (g, Err e)
      | Inr n \<Rightarrow> (insert_node n g, Ok n))"

definition AppendSignedWithPurpose ::
  "pg_env \<Rightarrow> int \<Rightarrow> NodeType \<Rightarrow> byte list \<Rightarrow> string \<Rightarrow> string \<Rightarrow> string \<Rightarrow> 64 word \<Rightarrow> Graph \<Rightarrow> Graph \<times> (pg_error, Node) res" where
  "AppendSignedWithPurpose pe ts kind payload signature purpose who seq g =
     (case ValidateSignaturePurpose purpose of
        Inl e \<Rightarrow> (g, Err e)
      | Inr _ \<Rightarrow>
          (let g = g\<lparr>lamport := lamport g + 1\<rparr> in
           case NewNode pe kind (heads g) payload (lamport g) who seq ts of
             Inl e \<Rightarrow> (g, Err e)
           | Inr n \<Rightarrow>
               (case SetSignature pe signature purpose n of
                  Inl PgPanic \<Rightarrow> (g, Err PgPanic)
                | Inl e \<Rightarrow> (g\<lparr>lamport := lamport g - 1\<rparr>, Err e)
                | Inr n \<Rightarrow> (insert_node n g, Ok n))))"

definition AppendSigned ::
  "pg_env \<Rightarrow> int \<Rightarrow> NodeType \<Rightarrow> byte list \<Rightarrow> string \<Rightarrow> string \<Rightarrow> 64 word \<Rightarrow> Graph \<Rightarrow> Graph \<times> (pg_error, Node) res" where
  "AppendSigned pe ts kind payload signature who seq g =
     AppendSignedWithPurpose pe ts kind payload signature ''author'' who seq g"

definition Graph_Get :: "Graph \<Rightarrow> string \<Rightarrow> Node option" where
  "Graph_Get g i = map_of (nodes g) i"

text \<open>
  The recursion of \<^verbatim>\<open>walkValidate\<close> with its call stack written out: the identifiers still to visit,
  those of the current node's parents first. The first error ends the walk.
\<close>

lemma unvisited_decreases:
  assumes "map_of m i = Some n" "i \<notin> set v"
  shows "card (fst ` set m - set (i # v)) < card (fst ` set m - set v)"
proof (rule psubset_card_mono)
  have "i \<in> fst ` set m" using assms(1) by (force dest: map_of_SomeD)
  then show "fst ` set m - set (i # v) \<subset> fst ` set m - set v" using assms(2) by auto
qed simp

function walkValidate :: "pg_env \<Rightarrow> Graph \<Rightarrow> string list \<Rightarrow> string list \<Rightarrow> (pg_error, string list) res" where
  "walkValidate pe g [] visited = Ok visited"
| "walkValidate pe g (i # rest) visited =
     (if i \<in> set visited then walkValidate pe g rest visited
      else case map_of (nodes g) i of
             None \<Rightarrow> Err (NodeNotFound i)
           | Some n \<Rightarrow>
               (case Node_Validate pe n of
                  Inl e \<Rightarrow> Err e
                | Inr _ \<Rightarrow> walkValidate pe g (parents_of n @ rest) (i # visited)))"
  by pat_completeness auto
termination
  by (relation "measures [\<lambda>(pe, g, st, v). card (fst ` set (nodes g) - set v), \<lambda>(pe, g, st, v). length st]")
    (auto dest: unvisited_decreases)

declare walkValidate.simps [simp del]

definition ValidateChain :: "pg_env \<Rightarrow> Graph \<Rightarrow> string \<Rightarrow> (pg_error, unit) res" where
  "ValidateChain pe g i = (case walkValidate pe g [i] [] of Inl e \<Rightarrow> Err e | Inr _ \<Rightarrow> Ok ())"

definition Graph_Len :: "Graph \<Rightarrow> nat" where "Graph_Len g = length (nodes g)"

definition AllNodes :: "Graph \<Rightarrow> Node list" where "AllNodes g = map snd (nodes g)"

section \<open>The in-memory store (store.go)\<close>

definition StoreNode :: "Node \<Rightarrow> Graph \<Rightarrow> Graph" where
  "StoreNode n g =
     (let g = insert_node n g in if n_Lamport n > lamport g then g\<lparr>lamport := n_Lamport n\<rparr> else g)"

definition GetNode :: "Graph \<Rightarrow> string \<Rightarrow> (pg_error, Node) res" where
  "GetNode g i = (case Graph_Get g i of None \<Rightarrow> Err (NodeNotFound i) | Some n \<Rightarrow> Ok n)"

definition GetNodesByType :: "Graph \<Rightarrow> NodeType \<Rightarrow> 64 word \<Rightarrow> 64 word \<Rightarrow> Node list" where
  "GetNodesByType g kind from_l to_l =
     filter (\<lambda>n. n_Kind n = kind \<and> n_Lamport n \<ge> from_l \<and> n_Lamport n \<le> to_l) (map snd (nodes g))"

definition GetRange :: "Graph \<Rightarrow> 64 word \<Rightarrow> 64 word \<Rightarrow> Node list" where
  "GetRange g from_l to_l = filter (\<lambda>n. n_Lamport n \<ge> from_l \<and> n_Lamport n \<le> to_l) (map snd (nodes g))"

function chain_loop :: "Graph \<Rightarrow> string list \<Rightarrow> string list \<Rightarrow> Node list \<Rightarrow> Node list" where
  "chain_loop g [] visited chain = chain"
| "chain_loop g (i # queue) visited chain =
     (if i \<in> set visited then chain_loop g queue visited chain
      else case map_of (nodes g) i of
             None \<Rightarrow> chain_loop g queue (i # visited) chain
           | Some n \<Rightarrow> chain_loop g (queue @ parents_of n) (i # visited) (chain @ [n]))"
  by pat_completeness auto
termination
proof (relation "measures [\<lambda>(g, q, v, c). card (fst ` set (nodes g) - set v), \<lambda>(g, q, v, c). length q]", goal_cases)
  case (3 g i queue visited chain)
  have "i \<notin> fst ` set (nodes g)" using 3(2) by (simp add: map_of_eq_None_iff)
  then have "fst ` set (nodes g) - set (i # visited) = fst ` set (nodes g) - set visited" by auto
  then show ?case by simp
qed (auto dest: unvisited_decreases)

declare chain_loop.simps [simp del]

definition GetChain :: "Graph \<Rightarrow> string \<Rightarrow> Node list" where
  "GetChain g i = chain_loop g [i] [] []"

section \<open>What a node rests on\<close>

definition parent_rel :: "Graph \<Rightarrow> (string \<times> string) set" where
  "parent_rel g = {(i, p). \<exists>n. map_of (nodes g) i = Some n \<and> p \<in> set (parents_of n)}"

definition node_ok :: "pg_env \<Rightarrow> Graph \<Rightarrow> string \<Rightarrow> bool" where
  "node_ok pe g i \<longleftrightarrow> (case map_of (nodes g) i of None \<Rightarrow> False | Some n \<Rightarrow> Node_Validate pe n = Ok ())"

text \<open>A digest names its node: the key a node is stored under is its hash field.\<close>

definition keyed :: "Graph \<Rightarrow> bool" where
  "keyed g \<longleftrightarrow> (\<forall>i n. map_of (nodes g) i = Some n \<longrightarrow> n_NodeHash n = i)"

lemma walk_sound:
  "walkValidate pe g st v = Ok v' \<Longrightarrow>
   set v \<subseteq> set v' \<and> set st \<subseteq> set v' \<and>
   (\<forall>x \<in> set v' - set v. node_ok pe g x \<and> (\<forall>p. (x, p) \<in> parent_rel g \<longrightarrow> p \<in> set v'))"
proof (induction pe g st v arbitrary: v' rule: walkValidate.induct)
  case (1 pe g v)
  then show ?case by (simp add: walkValidate.simps)
next
  case (2 pe g i rest v)
  show ?case
  proof (cases "i \<in> set v")
    case True
    with 2(1) [OF True] 2(3) show ?thesis by (auto simp: walkValidate.simps)
  next
    case False
    then obtain n where n: "map_of (nodes g) i = Some n" "Node_Validate pe n = Ok ()"
      and w: "walkValidate pe g (parents_of n @ rest) (i # v) = Ok v'"
      using 2(3) by (auto simp: walkValidate.simps split: option.splits sum.splits)
    note IHs = 2(2) [OF False n w]
    have IH: "set (i # v) \<subseteq> set v'" "set (parents_of n @ rest) \<subseteq> set v'"
      "\<forall>x \<in> set v' - set (i # v). node_ok pe g x \<and> (\<forall>p. (x, p) \<in> parent_rel g \<longrightarrow> p \<in> set v')"
      using IHs by blast+
    have "node_ok pe g i" using n by (simp add: node_ok_def)
    moreover have "\<forall>p. (i, p) \<in> parent_rel g \<longrightarrow> p \<in> set v'" using n(1) IH(2) by (simp add: parent_rel_def subset_iff)
    ultimately have cl: "node_ok pe g x \<and> (\<forall>p. (x, p) \<in> parent_rel g \<longrightarrow> p \<in> set v')" if "x \<in> set v' - set v" for x
    proof (cases "x = i")
      case False
      with that have "x \<in> set v' - set (i # v)" by simp
      with IH(3) show ?thesis by blast
    qed simp
    have "set v \<subseteq> set v'" "set (i # rest) \<subseteq> set v'" using IH(1,2) by simp_all
    with cl show ?thesis by blast
  qed
qed

lemma walk_complete:
  "\<forall>x \<in> set st. \<forall>y. (x, y) \<in> (parent_rel g)\<^sup>* \<longrightarrow> node_ok pe g y \<Longrightarrow> \<exists>v'. walkValidate pe g st v = Ok v'"
proof (induction pe g st v rule: walkValidate.induct)
  case (1 pe g v)
  show ?case by (simp add: walkValidate.simps)
next
  case (2 pe g i rest v)
  show ?case
  proof (cases "i \<in> set v")
    case True
    with 2(1) [OF True] 2(3) show ?thesis by (simp add: walkValidate.simps)
  next
    case False
    from 2(3) have "node_ok pe g i" by auto
    then obtain n where n: "map_of (nodes g) i = Some n" "Node_Validate pe n = Ok ()"
      by (auto simp: node_ok_def split: option.splits)
    have "(i, p) \<in> parent_rel g" if "p \<in> set (parents_of n)" for p using n(1) that by (auto simp: parent_rel_def)
    then have "\<forall>x \<in> set (parents_of n @ rest). \<forall>y. (x, y) \<in> (parent_rel g)\<^sup>* \<longrightarrow> node_ok pe g y"
      using 2(3) by (auto intro: converse_rtrancl_into_rtrancl)
    from 2(2) [OF False n this] show ?thesis using False n by (simp add: walkValidate.simps)
  qed
qed

lemma validate_chain_ok:
  "ValidateChain pe g i = Ok () \<longleftrightarrow> (\<forall>j. (i, j) \<in> (parent_rel g)\<^sup>* \<longrightarrow> node_ok pe g j)"
proof
  assume "ValidateChain pe g i = Ok ()"
  then obtain v' where w: "walkValidate pe g [i] [] = Ok v'" by (auto simp: ValidateChain_def split: sum.splits)
  note ws = walk_sound [OF w]
  have "j \<in> set v'" if "(i, j) \<in> (parent_rel g)\<^sup>*" for j
    using that by (induction rule: rtrancl_induct) (use ws in auto)
  with ws show "\<forall>j. (i, j) \<in> (parent_rel g)\<^sup>* \<longrightarrow> node_ok pe g j" by auto
next
  assume "\<forall>j. (i, j) \<in> (parent_rel g)\<^sup>* \<longrightarrow> node_ok pe g j"
  with walk_complete [of "[i]" g pe "[]"] show "ValidateChain pe g i = Ok ()"
    by (auto simp: ValidateChain_def)
qed

section \<open>Appending\<close>

text \<open>An append inserts a node that validates and whose parents are the heads, or no node at all.\<close>

definition sha_sized :: "pg_env \<Rightarrow> bool" where
  "sha_sized pe \<longleftrightarrow> (\<forall>d. length (pg_sha pe d) = 32)"

lemma compute_hash_fields [simp]:
  "ComputeNodeHash pe (n\<lparr>n_NodeHash := h\<rparr>) = ComputeNodeHash pe n"
  by (simp add: ComputeNodeHash_def ComputeNodeHashE_def node_jcs_def)

lemma hash_ref_ok: "sha_sized pe \<Longrightarrow> ComputeNodeHash pe n = Ok h \<Longrightarrow> validateNodeHashRef f h = Ok ()"
  by (auto simp: ComputeNodeHash_def ComputeNodeHashE_def validateNodeHashRef_def sha_sized_def lower_hex_encode split: option.splits)

lemma validate_refs_iff: "validate_refs ps = Ok () \<longleftrightarrow> (\<forall>p \<in> set ps. validateNodeHashRef ''parents'' p = Ok ())"
  by (induction ps) (auto split: sum.splits)

lemma ref_field: "validateNodeHashRef f h = Ok () \<longleftrightarrow> validateNodeHashRef f' h = Ok ()"
  by (auto simp: validateNodeHashRef_def)

lemma validate_iff:
  "Node_Validate pe n = Ok () \<longleftrightarrow>
     validateSignaturePurpose n = Ok () \<and> validateNodeHashRef ''node_hash'' (n_NodeHash n) = Ok () \<and>
     (\<forall>p \<in> set (parents_of n). validateNodeHashRef ''parents'' p = Ok ()) \<and> ComputeNodeHash pe n = Ok (n_NodeHash n)"
  by (auto simp: Node_Validate_def validate_refs_iff [symmetric] split: sum.splits if_splits)

definition fresh_node :: "pg_env \<Rightarrow> Graph \<Rightarrow> Node \<Rightarrow> bool" where
  "fresh_node pe g n \<longleftrightarrow>
     n_Parents n = heads g \<and> n_Lamport n = lamport g + 1 \<and>
     ComputeNodeHash pe n = Ok (n_NodeHash n) \<and> validateSignaturePurpose n = Ok ()"

lemma new_node_ok:
  "NewNode pe kind ps payload l who seq ts = Ok n \<Longrightarrow>
   n_Parents n = ps \<and> n_Lamport n = l \<and> ComputeNodeHash pe n = Ok (n_NodeHash n) \<and> n_Sig n = []"
  by (auto simp: NewNode_def Let_def ComputeNodeHash_def ComputeNodeHashE_def node_jcs_def split: if_splits sum.splits)

lemma set_signature_ok:
  "SetSignature pe sg purpose n = Ok n' \<Longrightarrow>
   n_Parents n' = n_Parents n \<and> n_Lamport n' = n_Lamport n \<and> ComputeNodeHash pe n' = Ok (n_NodeHash n') \<and>
   validateSignaturePurpose n' = Ok () \<and> ValidateSignaturePurpose purpose = Ok ()"
  by (auto simp: SetSignature_def Let_def validateSignaturePurpose_def split: if_splits sum.splits)

lemma append_cases:
  assumes "Graph_Append pe ts kind payload who seq g = (g', r) \<or>
    AppendSignedWithPurpose pe ts kind payload sg purpose who seq g = (g', r)"
  shows "(nodes g' = nodes g \<and> heads g' = heads g \<and> \<not> is_ok r) \<or>
    (\<exists>n. r = Ok n \<and> fresh_node pe g n \<and> g' = insert_node n (g\<lparr>lamport := lamport g + 1\<rparr>))"
  using assms
proof
  assume a: "Graph_Append pe ts kind payload who seq g = (g', r)"
  show ?thesis
  proof (cases "NewNode pe kind (heads g) payload (lamport g + 1) who seq ts")
    case (Inr n)
    have "fresh_node pe g n" using new_node_ok [OF Inr] by (simp add: fresh_node_def validateSignaturePurpose_def)
    moreover have "r = Ok n" "g' = insert_node n (g\<lparr>lamport := lamport g + 1\<rparr>)" using a by (simp_all add: Graph_Append_def Inr)
    ultimately show ?thesis by blast
  next
    case (Inl e)
    with a have "r = Err e" "g' = g\<lparr>lamport := lamport g + 1\<rparr>" by (simp_all add: Graph_Append_def)
    then show ?thesis by simp
  qed
next
  assume a: "AppendSignedWithPurpose pe ts kind payload sg purpose who seq g = (g', r)"
  show ?thesis
  proof (cases "ValidateSignaturePurpose purpose")
    case (Inl e)
    with a have "r = Err e" "g' = g" by (simp_all add: AppendSignedWithPurpose_def)
    then show ?thesis by simp
  next
    case vp: (Inr u)
    show ?thesis
    proof (cases "NewNode pe kind (heads g) payload (lamport g + 1) who seq ts")
      case (Inl e)
      with a vp have "r = Err e" "g' = g\<lparr>lamport := lamport g + 1\<rparr>" by (simp_all add: AppendSignedWithPurpose_def)
      then show ?thesis by simp
    next
      case n: (Inr n)
      show ?thesis
      proof (cases "SetSignature pe sg purpose n")
        case (Inl e)
        with a vp n have "r = Err e" "nodes g' = nodes g" "heads g' = heads g"
          by (cases e; simp add: AppendSignedWithPurpose_def; auto)+
        then show ?thesis by simp
      next
        case (Inr n')
        have "fresh_node pe g n'" using new_node_ok [OF n] set_signature_ok [OF Inr] by (simp add: fresh_node_def)
        moreover have "r = Ok n'" "g' = insert_node n' (g\<lparr>lamport := lamport g + 1\<rparr>)"
          using a vp n Inr by (simp_all add: AppendSignedWithPurpose_def)
        ultimately show ?thesis by blast
      qed
    qed
  qed
qed

section \<open>Histories of appends\<close>

datatype pg_op =
    PgAppend int NodeType "byte list" string "64 word"
  | PgSigned int NodeType "byte list" string string string "64 word"

fun pg_step :: "pg_env \<Rightarrow> pg_op \<Rightarrow> Graph \<Rightarrow> Graph" where
  "pg_step pe (PgAppend ts kind payload who seq) g = fst (Graph_Append pe ts kind payload who seq g)"
| "pg_step pe (PgSigned ts kind payload sg purpose who seq) g =
     fst (AppendSignedWithPurpose pe ts kind payload sg purpose who seq g)"

definition graph_inv :: "pg_env \<Rightarrow> Graph \<Rightarrow> bool" where
  "graph_inv pe g \<longleftrightarrow>
     keyed g \<and> (\<forall>i n. map_of (nodes g) i = Some n \<longrightarrow> Node_Validate pe n = Ok () \<and> set (parents_of n) \<subseteq> dom (map_of (nodes g))) \<and>
     set (case heads g of None \<Rightarrow> [] | Some hs \<Rightarrow> hs) \<subseteq> dom (map_of (nodes g))"

lemma insert_node_inv:
  assumes sz: "sha_sized pe" and inv: "graph_inv pe g" and fr: "fresh_node pe g n"
  shows "graph_inv pe (insert_node n (g\<lparr>lamport := l\<rparr>))"
proof -
  let ?h = "n_NodeHash n"
  have ps: "set (parents_of n) \<subseteq> dom (map_of (nodes g))"
    using inv fr by (simp add: graph_inv_def fresh_node_def parents_of_def)
  have refs: "validateNodeHashRef ''parents'' p = Ok ()" if "p \<in> dom (map_of (nodes g))" for p
  proof -
    from that obtain m where m: "map_of (nodes g) p = Some m" by blast
    with inv have "n_NodeHash m = p" "Node_Validate pe m = Ok ()" by (auto simp: graph_inv_def keyed_def)
    then show ?thesis using ref_field [of "''parents''" p "''node_hash''"] by (simp add: validate_iff)
  qed
  have "\<forall>p \<in> set (parents_of n). validateNodeHashRef ''parents'' p = Ok ()" using refs ps by blast
  then have "Node_Validate pe n = Ok ()"
    using fr hash_ref_ok [OF sz, of n] by (simp add: validate_iff fresh_node_def)
  with inv ps show ?thesis
    by (auto simp: graph_inv_def insert_node_def keyed_def split: if_splits) blast
qed

lemma pg_step_inv: "sha_sized pe \<Longrightarrow> graph_inv pe g \<Longrightarrow> graph_inv pe (pg_step pe op g)"
proof (cases op)
  case (PgAppend ts kind payload who seq)
  obtain g' r where a: "Graph_Append pe ts kind payload who seq g = (g', r)" by (metis prod.exhaust)
  assume "sha_sized pe" "graph_inv pe g"
  with append_cases [OF disjI1, OF a] show ?thesis
    by (auto simp: PgAppend a intro: insert_node_inv) (simp add: graph_inv_def keyed_def)
next
  case (PgSigned ts kind payload sg purpose who seq)
  obtain g' r where a: "AppendSignedWithPurpose pe ts kind payload sg purpose who seq g = (g', r)" by (metis prod.exhaust)
  assume "sha_sized pe" "graph_inv pe g"
  with append_cases [OF disjI2, OF a] show ?thesis
    by (auto simp: PgSigned a intro: insert_node_inv) (simp add: graph_inv_def keyed_def)
qed

lemma history_inv: "sha_sized pe \<Longrightarrow> graph_inv pe (fold (pg_step pe) ops NewGraph)"
proof (induction ops rule: rev_induct)
  case Nil
  show ?case by (simp add: graph_inv_def NewGraph_def keyed_def)
qed (simp add: pg_step_inv)

lemma graph_inv_chain:
  assumes "graph_inv pe g" "i \<in> dom (map_of (nodes g))"
  shows "ValidateChain pe g i = Ok ()"
proof -
  have "j \<in> dom (map_of (nodes g))" if "(i, j) \<in> (parent_rel g)\<^sup>*" for j
    using that
  proof (induction rule: rtrancl_induct)
    case (step y z)
    from step(2) obtain n where "map_of (nodes g) y = Some n" "z \<in> set (parents_of n)" by (auto simp: parent_rel_def)
    with assms(1) show ?case by (auto simp: graph_inv_def)
  qed (rule assms(2))
  moreover have "node_ok pe g j" if "j \<in> dom (map_of (nodes g))" for j
    using that assms(1) by (auto simp: node_ok_def graph_inv_def)
  ultimately show ?thesis by (simp add: validate_chain_ok)
qed

section \<open>A concrete graph\<close>

text \<open>A toy digest and canonicaliser, a history of two appends and a refused one, for any first timestamp.\<close>

definition toy_pg :: pg_env where
  "toy_pg = \<lparr>pg_jcs = (\<lambda>j. Some [ucast (j_Lamport j)]), pg_sha = (\<lambda>d. take 32 (d @ replicate 32 0)), pg_json_valid = (\<lambda>_. True)\<rparr>"

definition w_graph :: "int \<Rightarrow> Graph" where
  "w_graph ts = fold (pg_step toy_pg)
     [PgAppend ts ''INTENT'' [] ''p'' 1, PgSigned 2 ''EFFECT'' [] ''s'' ''author'' ''p'' 2, PgSigned 3 ''EFFECT'' [] ''s'' ''other'' ''p'' 3] NewGraph"

definition w_head :: string where
  "w_head = hex_EncodeToString (2 # replicate 31 0)"

lemma w_graph_facts:
  "Graph_Get (w_graph 0) w_head \<noteq> None" "Graph_Get (w_graph 7) w_head \<noteq> None"
  "map (\<lambda>n. (pg_jcs toy_pg (node_jcs n), n_Parents n)) (AllNodes (w_graph 0)) =
     [(Some [1], None), (Some [2], Some [hex_EncodeToString (1 # replicate 31 0)])]"
  "map (\<lambda>n. (pg_jcs toy_pg (node_jcs n), n_Parents n)) (AllNodes (w_graph 7)) =
     [(Some [1], None), (Some [2], Some [hex_EncodeToString (1 # replicate 31 0)])]"
  by code_simp+

lemma toy_pg_sized: "sha_sized toy_pg"
  by (auto simp: sha_sized_def toy_pg_def min_def)

lemma w_graph_inv: "graph_inv toy_pg (w_graph ts)"
  unfolding w_graph_def by (rule history_inv [OF toy_pg_sized])

lemma map_filter_map: "List.map_filter f xs = List.map_filter fst (map (\<lambda>n. (f n, g n)) xs)"
  by (induction xs) (simp_all add: List.map_filter_simps split: option.split)

section \<open>Properties\<close>

text \<open>
  Validating a chain means validating everything it rests on: the walk returns without error
  exactly when every node reachable through parent links is present and valid. It always returns,
  also on a graph with missing nodes or cycles.
\<close>
theorem validate_chain_iff:
  "ValidateChain pe g i = Ok () \<longleftrightarrow> (parent_rel g)\<^sup>* `` {i} \<subseteq> {j. node_ok pe g j}"
  unfolding validate_chain_ok by blast

text \<open>
  A graph built by appends is sound: after any history of signed and unsigned appends, some of
  which may fail or panic, every node is stored under its own hash and the chain of every node
  validates.
\<close>
theorem appended_graph_validates:
  assumes "sha_sized pe" "g = fold (pg_step pe) ops NewGraph" "Graph_Get g i = Some n"
  shows "n_NodeHash n = i \<and> ValidateChain pe g i = Ok ()"
  using history_inv [OF assms(1), of ops] graph_inv_chain [of pe g i] assms(2,3)
  by (auto simp: graph_inv_def keyed_def Graph_Get_def)

theorem appended_graph_validates_witness:
  "ValidateChain toy_pg (w_graph 0) w_head = Ok ()"
  using appended_graph_validates [OF toy_pg_sized w_graph_def, where i = w_head] w_graph_facts(1) by blast



end
