(* ===== verification/Audit_Log.thy ===== *)
theory Audit_Log
  imports Helm_Prelude
begin

text \<open>
  The guardian's audit log, \<^verbatim>\<open>core/pkg/guardian/audit.go\<close>: a hash chain of entries. JSON
  canonicalisation and SHA-256 are parameters; the clock's reading is an argument of the append.
\<close>

record AuditEntry =
  a_ID :: string
  a_Timestamp :: gotime
  a_Actor :: string
  a_Action :: string
  a_Target :: string
  a_Details :: string
  a_PreviousHash :: string
  a_Hash :: string

record AuditLog =
  Entries :: "AuditEntry list"

text \<open>The canonicalised map of an entry: every field but the hash.\<close>

record audit_data =
  ad_id :: string
  ad_timestamp :: gotime
  ad_actor :: string
  ad_action :: string
  ad_target :: string
  ad_details :: string
  ad_previous_hash :: string

record audit_env =
  au_jcs :: "audit_data \<Rightarrow> byte list option"
  au_sha :: "byte list \<Rightarrow> byte list"

datatype audit_error =
    AuditCanonicalize | ChainBroken nat | GenesisPreviousHash | RecomputeFailed nat | IntegrityFailure nat string string

definition NewAuditLog :: AuditLog where "NewAuditLog = \<lparr>Entries = []\<rparr>"

definition entry_data :: "AuditEntry \<Rightarrow> audit_data" where
  "entry_data e = \<lparr>ad_id = a_ID e, ad_timestamp = a_Timestamp e, ad_actor = a_Actor e, ad_action = a_Action e,
     ad_target = a_Target e, ad_details = a_Details e, ad_previous_hash = a_PreviousHash e\<rparr>"

definition computeEntryHash :: "audit_env \<Rightarrow> AuditEntry \<Rightarrow> string option" where
  "computeEntryHash ae e = map_option (\<lambda>d. hex_EncodeToString (au_sha ae d)) (au_jcs ae (entry_data e))"

text \<open>Nanoseconds since 1970; instant 0 is the start of year 1.\<close>

definition UnixNano :: "gotime \<Rightarrow> int" where
  "UnixNano t = wrap64 (t - 62135596800000000000)"

definition Audit_Append ::
  "audit_env \<Rightarrow> gotime \<Rightarrow> string \<Rightarrow> string \<Rightarrow> string \<Rightarrow> string \<Rightarrow> AuditLog \<Rightarrow> AuditLog \<times> (audit_error, AuditEntry) res" where
  "Audit_Append ae now actor action target details l =
     (let prevHash = (if length (Entries l) > 0 then a_Hash (last (Entries l)) else []);
          entry = \<lparr>a_ID = ''evt_'' @ dec_of_int (UnixNano now), a_Timestamp = now, a_Actor = actor, a_Action = action,
             a_Target = target, a_Details = details, a_PreviousHash = prevHash, a_Hash = []\<rparr>
      in case computeEntryHash ae entry of
           None \<Rightarrow> (l, Err AuditCanonicalize)
         | Some h \<Rightarrow>
             (let entry = entry\<lparr>a_Hash := h\<rparr> in (l\<lparr>Entries := Entries l @ [entry]\<rparr>, Ok entry)))"

text \<open>The verification loop: index, hash of the entry before (if any), remaining entries.\<close>

fun verify_loop :: "audit_env \<Rightarrow> nat \<Rightarrow> string \<Rightarrow> AuditEntry list \<Rightarrow> (audit_error, bool) res" where
  "verify_loop ae i prev [] = Ok True"
| "verify_loop ae i prev (e # es) =
     (if i > 0 \<and> a_PreviousHash e \<noteq> prev then Err (ChainBroken i)
      else if i = 0 \<and> a_PreviousHash e \<noteq> [] then Err GenesisPreviousHash
      else case computeEntryHash ae e of
             None \<Rightarrow> Err (RecomputeFailed i)
           | Some h \<Rightarrow>
               if h \<noteq> a_Hash e then Err (IntegrityFailure i h (a_Hash e))
               else verify_loop ae (i + 1) (a_Hash e) es)"

definition VerifyChain :: "audit_env \<Rightarrow> AuditLog \<Rightarrow> (audit_error, bool) res" where
  "VerifyChain ae l = (if length (Entries l) = 0 then Ok True else verify_loop ae 0 [] (Entries l))"

section \<open>Lemmas\<close>

text \<open>What verification checks: every entry names the hash before it and carries its own.\<close>

fun linked :: "audit_env \<Rightarrow> string \<Rightarrow> AuditEntry list \<Rightarrow> bool" where
  "linked ae prev [] = True"
| "linked ae prev (e # es) \<longleftrightarrow>
     a_PreviousHash e = prev \<and> computeEntryHash ae e = Some (a_Hash e) \<and> linked ae (a_Hash e) es"

lemma verify_loop_linked:
  "i = 0 \<longrightarrow> prev = [] \<Longrightarrow> verify_loop ae i prev es = Ok True \<longleftrightarrow> linked ae prev es"
  by (induction es arbitrary: i prev) (auto split: option.splits)

lemma verify_chain_linked: "VerifyChain ae l = Ok True \<longleftrightarrow> linked ae [] (Entries l)"
  by (simp add: VerifyChain_def verify_loop_linked)

lemma linked_snoc:
  "linked ae p (es @ [e]) \<longleftrightarrow>
     linked ae p es \<and> a_PreviousHash e = (if es = [] then p else a_Hash (last es)) \<and> computeEntryHash ae e = Some (a_Hash e)"
  by (induction es arbitrary: p) auto

lemma append_linked:
  assumes "linked ae [] (Entries l)"
  shows "linked ae [] (Entries (fst (Audit_Append ae now actor action target details l)))"
  using assms
  by (auto simp: Audit_Append_def Let_def linked_snoc computeEntryHash_def entry_data_def split: option.splits)

section \<open>Properties\<close>

record audit_call =
  c_now :: gotime
  c_actor :: string
  c_action :: string
  c_target :: string
  c_details :: string

definition audit_run :: "audit_env \<Rightarrow> audit_call list \<Rightarrow> AuditLog" where
  "audit_run ae cs = fold (\<lambda>c l. fst (Audit_Append ae (c_now c) (c_actor c) (c_action c) (c_target c) (c_details c) l)) cs NewAuditLog"

lemma audit_run_linked: "linked ae [] (Entries (audit_run ae cs))"
  unfolding audit_run_def
  by (induction cs rule: rev_induct) (simp_all add: NewAuditLog_def append_linked)

text \<open>
  A log written by appends verifies, whatever was appended and even if some appends failed to
  canonicalise.
\<close>
theorem audit_log_verifies:
  "VerifyChain ae (audit_run ae cs) = Ok True"
  unfolding verify_chain_linked by (rule audit_run_linked)

text \<open>
  C37: The audit log is tamper-evident: two logs of the same length that both verify and end in the
  same hash have, entry by entry, the same canonical content and the same hashes, provided no two
  different contents in them collide and the canonical form determines the previous hash it
  contains.
\<close>
theorem audit_log_tamper_evident:
  assumes "VerifyChain ae l = Ok True" "VerifyChain ae l' = Ok True"
    and "length (Entries l) = length (Entries l')" "Entries l \<noteq> []"
    and "a_Hash (last (Entries l)) = a_Hash (last (Entries l'))"
    and inj: "inj_on (au_sha ae) (set (List.map_filter (\<lambda>e. au_jcs ae (entry_data e)) (Entries l @ Entries l')))"
    and det: "\<And>e e'. e \<in> set (Entries l) \<Longrightarrow> e' \<in> set (Entries l') \<Longrightarrow>
      au_jcs ae (entry_data e) = au_jcs ae (entry_data e') \<Longrightarrow> a_PreviousHash e = a_PreviousHash e'"
  shows "map a_Hash (Entries l) = map a_Hash (Entries l') \<and>
    map (\<lambda>e. au_jcs ae (entry_data e)) (Entries l) = map (\<lambda>e. au_jcs ae (entry_data e)) (Entries l')"
proof -
  define S where "S = set (List.map_filter (\<lambda>e. au_jcs ae (entry_data e)) (Entries l @ Entries l'))"
  have step: "au_jcs ae (entry_data e) = au_jcs ae (entry_data e') \<and> a_PreviousHash e = a_PreviousHash e'"
    if "e \<in> set (Entries l)" "e' \<in> set (Entries l')" "computeEntryHash ae e = Some h" "computeEntryHash ae e' = Some h" for e e' h
  proof -
    from that(3,4) obtain d d' where d: "au_jcs ae (entry_data e) = Some d" "au_jcs ae (entry_data e') = Some d'"
      and "hex_EncodeToString (au_sha ae d) = hex_EncodeToString (au_sha ae d')" by (auto simp: computeEntryHash_def)
    then have "au_sha ae d = au_sha ae d'" by (blast dest: hex_encode_inj)
    moreover have "d \<in> S" "d' \<in> S"
      unfolding S_def using that(1,2) d by (force simp: List.map_filter_def)+
    ultimately have "d = d'" using inj by (auto simp: S_def dest: inj_onD)
    with d det [OF that(1,2)] show ?thesis by simp
  qed
  have "map a_Hash es = map a_Hash es' \<and> map (\<lambda>e. au_jcs ae (entry_data e)) es = map (\<lambda>e. au_jcs ae (entry_data e)) es'"
    if "length es = length es'" "es \<noteq> []" "linked ae [] es" "linked ae [] es'"
      "a_Hash (last es) = a_Hash (last es')" "set es \<subseteq> set (Entries l)" "set es' \<subseteq> set (Entries l')" for es es'
    using that
  proof (induction es arbitrary: es' rule: rev_induct)
    case (snoc e es)
    from snoc.prems(1) obtain f fs where es': "es' = fs @ [f]" by (metis length_append_singleton length_0_conv old.nat.distinct(2) rev_exhaust)
    have ef: "au_jcs ae (entry_data e) = au_jcs ae (entry_data f) \<and> a_PreviousHash e = a_PreviousHash f"
      using snoc.prems(3-7) by (intro step [of e f "a_Hash e"]) (auto simp: es' linked_snoc)
    show ?case
    proof (cases "es = []")
      case True
      then show ?thesis using snoc.prems(1,5) ef by (simp add: es')
    next
      case False
      have "fs \<noteq> []" using snoc.prems(1) False by (auto simp: es')
      moreover have "a_Hash (last es) = a_Hash (last fs)" using snoc.prems(3,4) ef False \<open>fs \<noteq> []\<close> by (auto simp: es' linked_snoc)
      ultimately have "map a_Hash es = map a_Hash fs \<and> map (\<lambda>e. au_jcs ae (entry_data e)) es = map (\<lambda>e. au_jcs ae (entry_data e)) fs"
        using snoc.IH [of fs] snoc.prems False by (auto simp: es' linked_snoc)
      with ef snoc.prems(5) show ?thesis by (simp add: es')
    qed
  qed simp
  from this [of "Entries l" "Entries l'"] assms(1-5) show ?thesis by (simp add: verify_chain_linked)
qed

definition toy_audit :: audit_env where
  "toy_audit = \<lparr>au_jcs = (\<lambda>d. Some (map of_char (ad_action d))), au_sha = (\<lambda>d. d)\<rparr>"

definition w_audit :: "string \<Rightarrow> AuditLog" where
  "w_audit actor = audit_run toy_audit
     [\<lparr>c_now = 62135596800000000000, c_actor = actor, c_action = ''a'', c_target = [], c_details = []\<rparr>,
      \<lparr>c_now = 62135596800000000001, c_actor = actor, c_action = ''b'', c_target = [], c_details = []\<rparr>]"

lemma w_audit_entries:
  "map (\<lambda>e. (au_jcs toy_audit (entry_data e), a_PreviousHash e, a_Hash e)) (Entries (w_audit ''x'')) =
     [(Some [97], [], ''61''), (Some [98], ''61'', ''62'')]"
  "map (\<lambda>e. (au_jcs toy_audit (entry_data e), a_PreviousHash e, a_Hash e)) (Entries (w_audit ''y'')) =
     [(Some [97], [], ''61''), (Some [98], ''61'', ''62'')]"
  by code_simp+

lemma map_eq_last: "map f xs = ys @ [y] \<Longrightarrow> xs \<noteq> [] \<and> f (last xs) = y"
  by (metis append_is_Nil_conv last_map last_snoc list.distinct(1) map_is_Nil_conv)

lemma map_eq_mem: "map f xs = ys \<Longrightarrow> x \<in> set xs \<Longrightarrow> f x \<in> set ys"
  by auto

theorem audit_log_tamper_evident_witness:
  "map a_Hash (Entries (w_audit ''x'')) = map a_Hash (Entries (w_audit ''y'')) \<and>
   map (\<lambda>e. au_jcs toy_audit (entry_data e)) (Entries (w_audit ''x'')) = map (\<lambda>e. au_jcs toy_audit (entry_data e)) (Entries (w_audit ''y''))"
proof (rule audit_log_tamper_evident)
  let ?f = "\<lambda>e. (au_jcs toy_audit (entry_data e), a_PreviousHash e, a_Hash e)"
  let ?x = "Entries (w_audit ''x'')" and ?y = "Entries (w_audit ''y'')"
  show "VerifyChain toy_audit (w_audit ''x'') = Ok True" "VerifyChain toy_audit (w_audit ''y'') = Ok True"
    unfolding verify_chain_linked w_audit_def by (rule audit_run_linked)+
  show "length ?x = length ?y"
    using arg_cong [OF w_audit_entries(1), of length] arg_cong [OF w_audit_entries(2), of length] by simp
  have x: "?x \<noteq> [] \<and> ?f (last ?x) = (Some [98], ''61'', ''62'')" and y: "?y \<noteq> [] \<and> ?f (last ?y) = (Some [98], ''61'', ''62'')"
    using map_eq_last [of ?f ?x "[(Some [97], [], ''61'')]"] map_eq_last [of ?f ?y "[(Some [97], [], ''61'')]"] w_audit_entries
    by simp_all
  from x show "?x \<noteq> []" ..
  from x y show "a_Hash (last ?x) = a_Hash (last ?y)" by simp
  show "inj_on (au_sha toy_audit) (set (List.map_filter (\<lambda>e. au_jcs toy_audit (entry_data e)) (?x @ ?y)))"
    by (simp add: toy_audit_def)
  show "a_PreviousHash e = a_PreviousHash e'" if "e \<in> set ?x" "e' \<in> set ?y"
    "au_jcs toy_audit (entry_data e) = au_jcs toy_audit (entry_data e')" for e e'
    using map_eq_mem [OF w_audit_entries(1) that(1)] map_eq_mem [OF w_audit_entries(2) that(2)] that(3) by auto
qed

end
