(* ===== verification/Contracts.thy ===== *)
theory Contracts
  imports Helm_Prelude Complex_Main
begin

text \<open>
  The shared contract types of \<^verbatim>\<open>core/pkg/contracts\<close>: request contexts (Go maps of dynamic values),
  taint labels (\<^verbatim>\<open>taint.go\<close>), effects and their canonical digest (\<^verbatim>\<open>workflow.go\<close>,
  \<^verbatim>\<open>effect_digest.go\<close>), decision records and execution intents (\<^verbatim>\<open>decision.go\<close>). Canonicalisation
  and the digest are parameters. Values are trees, so the cycles the Go code rejects cannot occur.
\<close>

section \<open>Dynamic values and contexts\<close>

datatype gval =
    GNil | GStr string | GBool bool | GInt int | GFloat rat
  | GStrs "string list" | GList "gval list" | GMap "(string \<times> gval) list"

text \<open>\<open>None\<close> is the nil map: reading it finds nothing, and the code makes a map before writing.\<close>

type_synonym gctx = "(string, gval) gomap option"

definition ctx_get :: "gctx \<Rightarrow> string \<Rightarrow> gval option" where
  "ctx_get c k = (case c of None \<Rightarrow> None | Some m \<Rightarrow> map_of m k)"

definition ctx_put :: "gctx \<Rightarrow> string \<Rightarrow> gval \<Rightarrow> gctx" where
  "ctx_put c k v = Some (AList.update k v (case c of None \<Rightarrow> [] | Some m \<Rightarrow> m))"

definition ctx_del :: "gctx \<Rightarrow> string \<Rightarrow> gctx" where
  "ctx_del c k = map_option (AList.delete k) c"

text \<open>The type assertions \<^verbatim>\<open>v, ok := ctx[key].(string)\<close> and their kin.\<close>

definition ctx_str :: "gctx \<Rightarrow> string \<Rightarrow> string option" where
  "ctx_str c k = (case ctx_get c k of Some (GStr s) \<Rightarrow> Some s | _ \<Rightarrow> None)"

definition ctx_bool :: "gctx \<Rightarrow> string \<Rightarrow> bool option" where
  "ctx_bool c k = (case ctx_get c k of Some (GBool b) \<Rightarrow> Some b | _ \<Rightarrow> None)"

definition ctx_float :: "gctx \<Rightarrow> string \<Rightarrow> rat option" where
  "ctx_float c k = (case ctx_get c k of Some (GFloat b) \<Rightarrow> Some b | _ \<Rightarrow> None)"

definition or_empty :: "string option \<Rightarrow> string" where
  "or_empty o' = (case o' of None \<Rightarrow> [] | Some s \<Rightarrow> s)"

lemma ctx_get_put [simp]: "ctx_get (ctx_put c k v) k' = (if k' = k then Some v else ctx_get c k')"
  by (auto simp: ctx_get_def ctx_put_def split: option.splits)

lemma ctx_get_del [simp]: "ctx_get (ctx_del c k) k' = (if k' = k then None else ctx_get c k')"
  by (auto simp: ctx_get_def ctx_del_def split: option.splits)

section \<open>Taint labels (taint.go)\<close>

fun normalize_loop :: "(string \<Rightarrow> string) \<Rightarrow> string list \<Rightarrow> string list \<Rightarrow> string list" where
  "normalize_loop ul seen [] = []"
| "normalize_loop ul seen (l # ls) =
     (let label = ToLower ul (TrimSpace l) in
      if label = [] then normalize_loop ul seen ls
      else if label \<in> set seen then normalize_loop ul seen ls
      else label # normalize_loop ul (label # seen) ls)"

definition NormalizeTaintLabels :: "(string \<Rightarrow> string) \<Rightarrow> string list \<Rightarrow> string list" where
  "NormalizeTaintLabels ul labels = normalize_loop ul [] labels"

definition TaintContains :: "(string \<Rightarrow> string) \<Rightarrow> string list \<Rightarrow> string \<Rightarrow> bool" where
  "TaintContains ul labels label = list_ex (\<lambda>candidate. candidate = ToLower ul (TrimSpace label)) labels"

definition TaintContainsAny :: "(string \<Rightarrow> string) \<Rightarrow> string list \<Rightarrow> string list \<Rightarrow> bool" where
  "TaintContainsAny ul labels candidates = list_ex (TaintContains ul labels) candidates"

text \<open>\<^verbatim>\<open>strings.FieldsFunc\<close> on the five separators; they are ASCII, so splitting by bytes is splitting by runes.\<close>

definition is_sep :: "char \<Rightarrow> bool" where
  "is_sep c \<longleftrightarrow> c = CHR '','' \<or> c = CHR '';'' \<or> c = CHR '' '' \<or> c = char_of (10::nat) \<or> c = char_of (9::nat)"

fun fields_loop :: "string \<Rightarrow> string \<Rightarrow> string list" where
  "fields_loop cur [] = (if cur = [] then [] else [cur])"
| "fields_loop cur (c # s) =
     (if is_sep c then (if cur = [] then [] else [cur]) @ fields_loop [] s else fields_loop (cur @ [c]) s)"

definition labelsFromAny :: "gval option \<Rightarrow> string list" where
  "labelsFromAny v =
     (case v of
        Some (GStr s) \<Rightarrow> fields_loop [] s
      | Some (GStrs ls) \<Rightarrow> ls
      | Some (GList vs) \<Rightarrow> List.map_filter (\<lambda>x. case x of GStr s \<Rightarrow> Some s | _ \<Rightarrow> None) vs
      | _ \<Rightarrow> [])"

definition TaintLabelsFromContext :: "(string \<Rightarrow> string) \<Rightarrow> gctx \<Rightarrow> string list" where
  "TaintLabelsFromContext ul c =
     (case c of
        None \<Rightarrow> []
      | Some _ \<Rightarrow>
          (let ls = labelsFromAny (ctx_get c ''taint'') in
           if length ls > 0 then NormalizeTaintLabels ul ls
           else (let ls = labelsFromAny (ctx_get c ''taint_labels'') in
                 if length ls > 0 then NormalizeTaintLabels ul ls else [])))"

section \<open>Effects and their digest (workflow.go, effect\_digest.go)\<close>

datatype Effect =
  Effect (EffectID: string) (EffectType: string) (Params: gctx) (Example: string) (e_DecisionID: string)
    (IdempotencyKey: string) (Compensation: "Effect option") (Irreversible: bool) (ArgsHash: string)
    (OutputHash: string) (Taint: "string list")

datatype EffectDigestBinding =
  EffectDigestBinding (eb_EffectType: string) (eb_Params: gctx) (eb_IdempotencyKey: string) (eb_Irreversible: bool)
    (eb_ArgsHash: string) (eb_OutputHash: string) (eb_Taint: "string list") (eb_Compensation: "EffectDigestBinding option")

text \<open>
  \<open>digest_env\<close> holds the parameters of the digest: the Unicode tables, the JSON copy of parameters
  and the canonical hash of a binding.
\<close>

record digest_env =
  de_ul :: "string \<Rightarrow> string"
  de_clone :: "gctx \<Rightarrow> (string, gctx) res"
  de_hash :: "EffectDigestBinding \<Rightarrow> (string, string) res"

fun effectDigestBindingFromEffect :: "digest_env \<Rightarrow> bool \<Rightarrow> Effect \<Rightarrow> (string, EffectDigestBinding) res" where
  "effectDigestBindingFromEffect de cloneParams (Effect i ty ps ex di ik cmp irr ah oh ta) =
     (case (case cmp of
              None \<Rightarrow> Ok None
            | Some c \<Rightarrow> (case effectDigestBindingFromEffect de cloneParams c of Inl e \<Rightarrow> Err e | Inr b \<Rightarrow> Ok (Some b))) of
        Inl e \<Rightarrow> Err e
      | Inr compensation \<Rightarrow>
          (case (if cloneParams then de_clone de ps else Ok ps) of
             Inl e \<Rightarrow> Err (''canonicalize effect parameters: '' @ e)
           | Inr params \<Rightarrow>
               Ok (EffectDigestBinding ty params ik irr ah oh (NormalizeTaintLabels (de_ul de) ta) compensation)))"

definition CanonicalEffectDigest :: "digest_env \<Rightarrow> Effect option \<Rightarrow> (string, string) res" where
  "CanonicalEffectDigest de effect =
     (case effect of
        None \<Rightarrow> Err ''effect is nil''
      | Some e \<Rightarrow> (case effectDigestBindingFromEffect de False e of Inl err \<Rightarrow> Err err | Inr b \<Rightarrow> de_hash de b))"

definition NewEffectDigestBinding :: "digest_env \<Rightarrow> Effect option \<Rightarrow> (string, EffectDigestBinding) res" where
  "NewEffectDigestBinding de effect =
     (case effect of None \<Rightarrow> Err ''effect is nil'' | Some e \<Rightarrow> effectDigestBindingFromEffect de True e)"

fun normalizeEffectDigestBinding :: "digest_env \<Rightarrow> bool \<Rightarrow> EffectDigestBinding \<Rightarrow> (string, EffectDigestBinding) res" where
  "normalizeEffectDigestBinding de cloneParams (EffectDigestBinding ty ps ik irr ah oh ta cmp) =
     (case (case cmp of
              None \<Rightarrow> Ok None
            | Some c \<Rightarrow> (case normalizeEffectDigestBinding de cloneParams c of Inl e \<Rightarrow> Err e | Inr b \<Rightarrow> Ok (Some b))) of
        Inl e \<Rightarrow> Err e
      | Inr compensation \<Rightarrow>
          (case (if cloneParams then de_clone de ps else Ok ps) of
             Inl e \<Rightarrow> Err (''canonicalize effect binding parameters: '' @ e)
           | Inr params \<Rightarrow>
               Ok (EffectDigestBinding ty params ik irr ah oh (NormalizeTaintLabels (de_ul de) ta) compensation)))"

definition NormalizeEffectDigestBinding :: "digest_env \<Rightarrow> EffectDigestBinding option \<Rightarrow> (string, EffectDigestBinding) res" where
  "NormalizeEffectDigestBinding de binding =
     (case binding of None \<Rightarrow> Err ''effect digest binding is nil'' | Some b \<Rightarrow> normalizeEffectDigestBinding de True b)"

definition CanonicalEffectDigestFromBinding :: "digest_env \<Rightarrow> EffectDigestBinding option \<Rightarrow> (string, string) res" where
  "CanonicalEffectDigestFromBinding de binding =
     (case binding of
        None \<Rightarrow> Err ''effect digest binding is nil''
      | Some b \<Rightarrow> (case normalizeEffectDigestBinding de False b of Inl e \<Rightarrow> Err e | Inr n \<Rightarrow> de_hash de n))"

section \<open>Decisions and intents (decision.go)\<close>

record InterventionMetadata =
  iv_Type :: string
  iv_ReasonCode :: string
  iv_WaitDuration :: godur
  iv_TokensSaved :: int

record DecisionRecord =
  d_ID :: string
  d_ProposalID :: string
  d_CorrelationID :: string
  d_StepID :: string
  d_PhenotypeHash :: string
  d_PolicyVersion :: string
  d_SubjectID :: string
  d_Action :: string
  d_Resource :: string
  d_EffectDigest :: string
  d_PolicyBackend :: string
  d_PolicyContentHash :: string
  d_PolicyEpoch :: string
  d_PolicyDecisionHash :: string
  d_StateCursor :: string
  d_Snapshot :: string
  d_EnvFingerprint :: string
  d_Verdict :: string
  d_Reason :: string
  d_ReasonCode :: string
  d_InputContext :: gctx
  d_ThreatScan :: "gval option"
  d_TrajectoryRiskScore :: rat
  d_SessionCentroidHash :: string
  d_RiskAccumulationWindow :: int
  d_RequirementSetHash :: string
  d_GateRosterHash :: string
  d_Signature :: string
  d_SignatureType :: string
  d_SignatureVersion :: string
  d_Timestamp :: gotime
  d_Intervention :: "InterventionMetadata option"

text \<open>The zero record, from which every composite literal starts.\<close>

definition zero_decision :: DecisionRecord where
  "zero_decision = \<lparr>d_ID = [], d_ProposalID = [], d_CorrelationID = [], d_StepID = [], d_PhenotypeHash = [],
     d_PolicyVersion = [], d_SubjectID = [], d_Action = [], d_Resource = [], d_EffectDigest = [], d_PolicyBackend = [],
     d_PolicyContentHash = [], d_PolicyEpoch = [], d_PolicyDecisionHash = [], d_StateCursor = [], d_Snapshot = [],
     d_EnvFingerprint = [], d_Verdict = [], d_Reason = [], d_ReasonCode = [], d_InputContext = None, d_ThreatScan = None,
     d_TrajectoryRiskScore = 0, d_SessionCentroidHash = [], d_RiskAccumulationWindow = 0, d_RequirementSetHash = [],
     d_GateRosterHash = [], d_Signature = [], d_SignatureType = [], d_SignatureVersion = [], d_Timestamp = 0,
     d_Intervention = None\<rparr>"

definition VerdictAllow :: string where "VerdictAllow = ''ALLOW''"
definition VerdictDeny :: string where "VerdictDeny = ''DENY''"
definition VerdictEscalate :: string where "VerdictEscalate = ''ESCALATE''"

lemma verdicts_distinct [simp]:
  "VerdictDeny \<noteq> VerdictAllow" "VerdictAllow \<noteq> VerdictDeny" "VerdictEscalate \<noteq> VerdictAllow" "VerdictAllow \<noteq> VerdictEscalate"
  by (simp_all add: VerdictAllow_def VerdictDeny_def VerdictEscalate_def)

definition DecisionRecordSignatureV4 :: string where "DecisionRecordSignatureV4 = ''decision_record.v4''"

datatype authority_error = AuthorityVersion string | AuthorityMissing string | DecisionRequired

definition ValidateDecisionAuthorityForUse :: "DecisionRecord \<Rightarrow> (authority_error, unit) res" where
  "ValidateDecisionAuthorityForUse d =
     (if d_SignatureVersion d \<noteq> DecisionRecordSignatureV4 then Err (AuthorityVersion (d_SignatureVersion d))
      else if blank (d_SubjectID d) then Err (AuthorityMissing ''subject ID'')
      else if blank (d_Action d) then Err (AuthorityMissing ''action'')
      else if blank (d_Resource d) then Err (AuthorityMissing ''resource'')
      else if blank (d_SignatureType d) then Err (AuthorityMissing ''signature type'')
      else Ok ())"

record AuthorizedExecutionIntent =
  ai_ID :: string
  ai_DecisionID :: string
  ai_EffectDigestHash :: string
  ai_EffectBinding :: "EffectDigestBinding option"
  ai_IdempotencyKey :: string
  ai_IssuedAt :: gotime
  ai_ExpiresAt :: gotime
  ai_Signer :: string
  ai_Signature :: string
  ai_SignatureType :: string
  ai_SignatureVersion :: string
  ai_AllowedTool :: string
  ai_Taint :: "string list"
  ai_EmergencyActivationID :: string
  ai_EmergencyDelegationSessionID :: string
  ai_EmergencyScopeHash :: string

datatype intent_error = IntentRequired | IntentNotActive gotime | IntentExpired gotime

definition ValidateAt :: "AuthorizedExecutionIntent option \<Rightarrow> gotime \<Rightarrow> (intent_error, unit) res" where
  "ValidateAt i now =
     (case i of
        None \<Rightarrow> Err IntentRequired
      | Some i \<Rightarrow>
          if ai_IssuedAt i > now then Err (IntentNotActive (ai_IssuedAt i))
          else if ai_ExpiresAt i = 0 \<or> \<not> now < ai_ExpiresAt i then Err (IntentExpired (ai_ExpiresAt i))
          else Ok ())"

end
