(* ===== verification/PRG.thy ===== *)
theory PRG
  imports Helm_Prelude "HOL-Library.List_Lexorder" "HOL-Library.Char_ord"
begin

text \<open>
  The proof requirement graph, \<^verbatim>\<open>core/pkg/prg/graph.go\<close> and \<^verbatim>\<open>engine.go\<close>: recursive requirement
  sets, their content hash, the artifact-only validator and the policy engine. Compiling and running
  a CEL expression is the parameter \<open>cel\<close>; the compiled-program cache only saves work and is left
  out. The input of an evaluation is a parameter type with its list of artifact types, if any.
\<close>

section \<open>Requirement sets (graph.go)\<close>

record Requirement =
  rq_ID :: string
  rq_Description :: string
  rq_ArtifactType :: string
  rq_SignerID :: string
  rq_Expression :: string

datatype RequirementSet =
  RequirementSet (rs_ID: string) (rs_Logic: string) (rs_Requirements: "Requirement list") (rs_Children: "RequirementSet list")

text \<open>\<open>sha\<close> is SHA-256 of a string.\<close>

fun RequirementSet_Hash :: "(string \<Rightarrow> byte list) \<Rightarrow> RequirementSet \<Rightarrow> string" where
  "RequirementSet_Hash sha (RequirementSet i l reqs children) =
     (let content = ''id='' @ i @ '':logic='' @ l @ '':''
        @ concat (map (\<lambda>r. ''req='' @ rq_ID r @ '':'' @ rq_ArtifactType r @ '':'' @ rq_Expression r @ '';'') reqs)
        @ concat (map (\<lambda>c. ''child='' @ RequirementSet_Hash sha c @ '';'') children)
      in ''sha256:'' @ hex_EncodeToString (sha content))"

type_synonym rule_graph = "(string, RequirementSet) gomap"

definition PRG_NewGraph :: rule_graph where "PRG_NewGraph = []"

definition ContentHash :: "(string \<Rightarrow> byte list) \<Rightarrow> rule_graph \<Rightarrow> string" where
  "ContentHash sha g =
     (if length g = 0 then []
      else hex_EncodeToString (sha (concat (map (\<lambda>k. case map_of g k of
             None \<Rightarrow> [] | Some rs \<Rightarrow> k @ ''='' @ RequirementSet_Hash sha rs @ '';'') (sort (map fst g))))))"

definition AddRule :: "string \<Rightarrow> RequirementSet \<Rightarrow> rule_graph \<Rightarrow> rule_graph" where
  "AddRule actionID rs g = AList.update actionID rs g"

definition BindByCapability :: "string \<Rightarrow> RequirementSet \<Rightarrow> rule_graph \<Rightarrow> rule_graph" where
  "BindByCapability capabilityID rs g = AList.update capabilityID rs g"

fun hasExpressionRequirement :: "RequirementSet \<Rightarrow> bool" where
  "hasExpressionRequirement (RequirementSet i l reqs children) \<longleftrightarrow>
     list_ex (\<lambda>r. rq_Expression r \<noteq> []) reqs \<or> list_ex hasExpressionRequirement children"

fun hasMalformedRequirement :: "RequirementSet \<Rightarrow> bool" where
  "hasMalformedRequirement (RequirementSet i l reqs children) \<longleftrightarrow>
     list_ex (\<lambda>r. rq_ArtifactType r = [] \<and> rq_Expression r = []) reqs \<or> list_ex hasMalformedRequirement children"

text \<open>The legacy validator: artifacts are given by their types.\<close>

fun check :: "string list \<Rightarrow> RequirementSet \<Rightarrow> bool" where
  "check artifacts (RequirementSet i l reqs children) =
     (if length reqs = 0 \<and> length children = 0 then True
      else
        (let leafResults = map (\<lambda>r. rq_ArtifactType r \<noteq> [] \<and> rq_ArtifactType r \<in> set artifacts) reqs
               @ map (check artifacts) children
         in if length leafResults = 0 then True
            else if l = ''AND'' \<or> l = [] then list_all (\<lambda>r. r) leafResults
            else if l = ''OR'' then list_ex (\<lambda>r. r) leafResults
            else if l = ''NOT'' then list_ex (\<lambda>r. \<not> r) leafResults
            else False))"

datatype prg_error =
    NoPolicyDefined string | CarriesExpressions string | MalformedRequirement string | MissingRequirement
  | ReqError string string | UnknownLogic string

definition PRG_Validate ::
  "(string \<Rightarrow> byte list) \<Rightarrow> rule_graph \<Rightarrow> string \<Rightarrow> string list \<Rightarrow> (prg_error, string) res" where
  "PRG_Validate sha g actionID artifacts =
     (case map_of g actionID of
        None \<Rightarrow> Err (NoPolicyDefined actionID)
      | Some rule \<Rightarrow>
          if hasExpressionRequirement rule then Err (CarriesExpressions actionID)
          else if hasMalformedRequirement rule then Err (MalformedRequirement actionID)
          else if check artifacts rule then Ok (RequirementSet_Hash sha rule)
          else Err MissingRequirement)"

section \<open>The policy engine (engine.go)\<close>

record 'i prg_input =
  in_rest :: 'i
  in_artifacts :: "string list option"

type_synonym 'i cel = "string \<Rightarrow> 'i prg_input \<Rightarrow> (string, bool) res"

definition combineResults :: "string \<Rightarrow> bool list \<Rightarrow> (prg_error, bool) res" where
  "combineResults logic results =
     (if logic = ''AND'' \<or> logic = [] then Ok (list_all (\<lambda>r. r) results)
      else if logic = ''OR'' then Ok (list_ex (\<lambda>r. r) results)
      else if logic = ''NOT'' then Ok (\<not> list_all (\<lambda>r. r) results)
      else Err (UnknownLogic logic))"

text \<open>The results of the leaves in order, with the identifiers of those that failed; the first error ends it.\<close>

fun evaluateLeaves :: "'i cel \<Rightarrow> 'i prg_input \<Rightarrow> Requirement list \<Rightarrow> (prg_error, bool list \<times> string list) res" where
  "evaluateLeaves cel inp [] = Ok ([], [])"
| "evaluateLeaves cel inp (r # rs) =
     (case (if rq_Expression r \<noteq> [] then
              (case cel (rq_Expression r) inp of Inl e \<Rightarrow> Err (ReqError (rq_ID r) e) | Inr b \<Rightarrow> Ok b)
            else if rq_ArtifactType r \<noteq> [] then
              (case in_artifacts inp of None \<Rightarrow> Ok False | Some as \<Rightarrow> Ok (rq_ArtifactType r \<in> set as))
            else Ok True) of
        Inl e \<Rightarrow> Err e
      | Inr b \<Rightarrow>
          (case evaluateLeaves cel inp rs of
             Inl e \<Rightarrow> Err e
           | Inr (bs, fs) \<Rightarrow> Ok (b # bs, if b then fs else rq_ID r # fs)))"

text \<open>The results of the children, evaluated in order, as a list of results; the first error counts.\<close>

fun gather :: "(prg_error, bool \<times> string list) res list \<Rightarrow> (prg_error, bool list \<times> string list) res" where
  "gather [] = Ok ([], [])"
| "gather (r # rs) =
     (case r of
        Inl e \<Rightarrow> Err e
      | Inr (b, f) \<Rightarrow>
          (case gather rs of Inl e \<Rightarrow> Err e | Inr (bs, fs) \<Rightarrow> Ok (b # bs, if b then fs else f @ fs)))"

fun EvaluateRequirementSetDetail ::
  "'i cel \<Rightarrow> 'i prg_input \<Rightarrow> RequirementSet \<Rightarrow> (prg_error, bool \<times> string list) res" where
  "EvaluateRequirementSetDetail cel inp (RequirementSet i l reqs children) =
     (if length reqs = 0 \<and> length children = 0 then Ok (True, [])
      else
        (case evaluateLeaves cel inp reqs of
           Inl e \<Rightarrow> Err e
         | Inr (lr, lf) \<Rightarrow>
             (case gather (map (EvaluateRequirementSetDetail cel inp) children) of
                Inl e \<Rightarrow> Err e
              | Inr (cr, cf) \<Rightarrow>
                  (case combineResults l (lr @ cr) of
                     Inl e \<Rightarrow> Err e
                   | Inr valid \<Rightarrow>
                       if valid then Ok (True, [])
                       else if l = ''NOT'' then Ok (False, [i])
                       else Ok (False, lf @ cf)))))"

definition EvaluateRequirementSet :: "'i cel \<Rightarrow> 'i prg_input \<Rightarrow> RequirementSet \<Rightarrow> (prg_error, bool) res" where
  "EvaluateRequirementSet cel inp rs =
     (case EvaluateRequirementSetDetail cel inp rs of Inl e \<Rightarrow> Err e | Inr (valid, _) \<Rightarrow> Ok valid)"

section \<open>Lemmas\<close>

fun known_logic :: "RequirementSet \<Rightarrow> bool" where
  "known_logic (RequirementSet i l reqs children) \<longleftrightarrow>
     (reqs = [] \<and> children = [] \<or> l \<in> {''AND'', [], ''OR'', ''NOT''}) \<and> list_all known_logic children"

lemma leaves_artifact_only:
  assumes "list_all (\<lambda>r. rq_Expression r = [] \<and> rq_ArtifactType r \<noteq> []) reqs" "in_artifacts inp = Some arts"
  shows "\<exists>fs. evaluateLeaves cel inp reqs = Ok (map (\<lambda>r. rq_ArtifactType r \<in> set arts) reqs, fs)"
  using assms by (induction reqs) auto

lemma gather_oks:
  "list_all (\<lambda>x. \<exists>f. ev x = Ok (g x, f)) xs \<Longrightarrow> \<exists>fs. gather (map ev xs) = Ok (map g xs, fs)"
  by (induction xs) auto

lemma engine_check:
  "\<not> hasExpressionRequirement rs \<Longrightarrow> \<not> hasMalformedRequirement rs \<Longrightarrow> known_logic rs \<Longrightarrow> in_artifacts inp = Some arts \<Longrightarrow>
   \<exists>fs. EvaluateRequirementSetDetail cel inp rs = Ok (check arts rs, fs)"
proof (induction rs)
  case (RequirementSet i l reqs children)
  have leaf: "list_all (\<lambda>r. rq_Expression r = [] \<and> rq_ArtifactType r \<noteq> []) reqs"
    using RequirementSet.prems by (auto simp: list_ex_iff list_all_iff)
  from leaves_artifact_only [OF leaf RequirementSet.prems(4), of cel]
  obtain lf where lf: "evaluateLeaves cel inp reqs = Ok (map (\<lambda>r. rq_ArtifactType r \<in> set arts) reqs, lf)" by blast
  have "list_all (\<lambda>c. \<exists>f. EvaluateRequirementSetDetail cel inp c = Ok (check arts c, f)) children"
    using RequirementSet by (auto simp: list_all_iff list_ex_iff)
  from gather_oks [OF this] obtain cf where
    cf: "gather (map (EvaluateRequirementSetDetail cel inp) children) = Ok (map (check arts) children, cf)" by blast
  have lr: "map (\<lambda>r. rq_ArtifactType r \<noteq> [] \<and> rq_ArtifactType r \<in> set arts) reqs = map (\<lambda>r. rq_ArtifactType r \<in> set arts) reqs"
    using leaf by (auto simp: list_all_iff)
  show ?case
  proof (cases "reqs = [] \<and> children = []")
    case False
    with RequirementSet.prems(3) have "l \<in> {''AND'', [], ''OR'', ''NOT''}" by simp
    then show ?thesis
      using False by (auto simp: lf cf lr combineResults_def Let_def list_ex_iff list_all_iff)
  qed simp
qed

section \<open>Properties\<close>


definition w_rule :: RequirementSet where
  "w_rule = RequirementSet ''r'' ''OR'' [\<lparr>rq_ID = ''a'', rq_Description = [], rq_ArtifactType = ''sbom'', rq_SignerID = [], rq_Expression = []\<rparr>]
     [RequirementSet ''c'' ''NOT'' [\<lparr>rq_ID = ''b'', rq_Description = [], rq_ArtifactType = ''waiver'', rq_SignerID = [], rq_Expression = []\<rparr>] []]"


text \<open>
  The rule hash does not pin the rule: for any digest function, rules that differ in the
  required signer, or that split the same text differently between identifier and artifact type,
  have the same hash.
\<close>
theorem requirement_hash_ambiguous:
  "RequirementSet_Hash sha (RequirementSet i l (r\<lparr>rq_SignerID := s\<rparr> # reqs) cs) =
     RequirementSet_Hash sha (RequirementSet i l (r\<lparr>rq_SignerID := s'\<rparr> # reqs) cs) \<and>
   RequirementSet_Hash sha (RequirementSet i l (r\<lparr>rq_ID := a @ '':'' @ b, rq_ArtifactType := c\<rparr> # reqs) cs) =
     RequirementSet_Hash sha (RequirementSet i l (r\<lparr>rq_ID := a, rq_ArtifactType := b @ '':'' @ c\<rparr> # reqs) cs)"
  by simp

end
