(* ===== verification/Guardian_Sign.thy ===== *)
theory Guardian_Sign
  imports Contracts PRG
begin

text \<open>
  How the guardian signs, \<^verbatim>\<open>core/pkg/guardian/guardian.go\<close> and the signing funnels of
  \<^verbatim>\<open>interceptor.go\<close>: binding a decision to its request, the last stage of an evaluation
  (\<^verbatim>\<open>signDecisionWithGraph\<close>: budget, envelope, requirement graph), and issuing execution intents.

  Parameters: the signer (a signature, its type and its version for a record), the verifier, the
  budget gate over its own state, the artifact registry, the expression evaluator, the snapshot
  store, digests. A parameter \<open>g_clk site\<close> is the clock's reading at the named place in the code; each place is
  reached at most once in a call. The behavioural scorer is the list of events recorded with it.
\<close>

section \<open>Requests and errors\<close>

record SessionAction =
  sa_Action :: string
  sa_Resource :: string
  sa_Verdict :: string
  sa_Timestamp :: int

record DecisionRequest =
  r_Principal :: string
  r_Action :: string
  r_Resource :: string
  r_Context :: gctx
  r_SessionHistory :: "SessionAction list"

datatype guardian_error =
    DecisionNil | EffectNil | FieldRequired string | FieldMismatch string string string
  | EffectDigestError string | EvidenceError string string | SerializeEffect string | SignError string
  | NotAllowed string | NoVerifier | InvalidDecisionSignature | AuthorityError authority_error
  | SnapshotMissing | SnapshotInactive string | PolicyBindingMissing | PolicyEpochChanged
  | DecisionDigestMissing | DigestMismatch string string | IntentWindowError string | IntentSignError string
  | AuditFailure string string | GateError string

section \<open>The guardian's configuration\<close>

record 'b BudgetGate =
  bg_Check :: "string \<Rightarrow> int \<Rightarrow> 'b \<Rightarrow> 'b \<times> (string, bool) res"
  bg_Consume :: "string \<Rightarrow> int \<Rightarrow> 'b \<Rightarrow> 'b \<times> (string, unit) res"

record cel_fields =
  cf_action :: string
  cf_effect :: Effect
  cf_timestamp :: int
  cf_taint :: "string list"
  cf_threat_scan :: "gval option"

text \<open>The policy decision point interface of \<^verbatim>\<open>core/pkg/pdp\<close>; \<open>None\<close> where it has no authoritative mode.\<close>

record pdp_request =
  pr_Principal :: string
  pr_Action :: string
  pr_Resource :: string
  pr_Context :: gctx
  pr_Timestamp :: gotime

record pdp_response =
  pd_Allow :: bool
  pd_ReasonCode :: string
  pd_PolicyRef :: string
  pd_DecisionHash :: string

record PolicyDecisionPoint =
  pdp_Evaluate :: "pdp_request \<Rightarrow> (string, pdp_response) res"
  pdp_Backend :: string
  pdp_PolicyHash :: string
  pdp_AuthoritativeAllow :: "bool option"

record PolicySnapshot =
  ps_PolicyHash :: string
  ps_PolicyEpoch :: "64 word"
  ps_Status :: string
  ps_Graph :: "rule_graph option"
  ps_PDP :: "PolicyDecisionPoint option"

text \<open>What the sandbox authorisation in an effect's parameters says, once decoded.\<close>

record sandbox_window =
  sw_Timeout :: godur
  sw_LeaseExpiresAt :: gotime

record 'b Guardian =
  g_sign :: "DecisionRecord \<Rightarrow> (string, string \<times> string \<times> string) res"
  g_verify :: "(DecisionRecord \<Rightarrow> (string, bool) res) option"
  g_sign_intent :: "AuthorizedExecutionIntent \<Rightarrow> (string, string \<times> string \<times> string) res"
  g_tracker :: "'b BudgetGate option"
  g_artifact :: "string \<Rightarrow> (string, string) res"
  g_toMap :: "Effect \<Rightarrow> (string, unit) res"
  g_cel :: "cel_fields cel"
  g_sha :: "string \<Rightarrow> byte list"
  g_digest :: digest_env
  g_clk :: "string \<Rightarrow> gotime"
  g_rnd :: "string \<Rightarrow> string"
  g_scorer :: bool
  g_rosterHash :: string
  g_snapshots :: "(string \<times> string \<Rightarrow> PolicySnapshot option) option"
  g_scope :: "string \<times> string"
  g_sandbox_window :: "gval \<Rightarrow> (string, sandbox_window) res"

text \<open>What signing changes besides the record: the budget and the behavioural events.\<close>

record 'b sign_state =
  ss_budget :: 'b
  ss_events :: "(string \<times> string \<times> string) list"

section \<open>Signing\<close>

definition SignDecision_with :: "('b, 'x) Guardian_scheme \<Rightarrow> DecisionRecord \<Rightarrow> (guardian_error, DecisionRecord) res" where
  "SignDecision_with g d =
     (case g_sign g d of
        Inl e \<Rightarrow> Err (SignError e)
      | Inr (sg, ty, ver) \<Rightarrow> Ok (d\<lparr>d_Signature := sg, d_SignatureType := ty, d_SignatureVersion := ver\<rparr>))"

definition bind_field :: "string \<Rightarrow> string \<Rightarrow> string \<Rightarrow> (guardian_error, string) res" where
  "bind_field name dec request =
     (if blank request then Err (FieldRequired name)
      else if blank dec then Ok request
      else if dec \<noteq> request then Err (FieldMismatch name dec request)
      else Ok dec)"

definition bindDecisionRequest :: "DecisionRequest \<Rightarrow> DecisionRecord \<Rightarrow> (guardian_error, DecisionRecord) res" where
  "bindDecisionRequest request d =
     (case bind_field ''subject ID'' (d_SubjectID d) (r_Principal request) of
        Inl e \<Rightarrow> Err e
      | Inr subject \<Rightarrow>
          (case bind_field ''action'' (d_Action d) (r_Action request) of
             Inl e \<Rightarrow> Err e
           | Inr action \<Rightarrow>
               (case bind_field ''resource'' (d_Resource d) (r_Resource request) of
                  Inl e \<Rightarrow> Err e
                | Inr resource \<Rightarrow> Ok (d\<lparr>d_SubjectID := subject, d_Action := action, d_Resource := resource\<rparr>))))"

definition bindRuntimePolicyDecision :: "PolicySnapshot option \<Rightarrow> string \<Rightarrow> DecisionRecord \<Rightarrow> DecisionRecord" where
  "bindRuntimePolicyDecision snapshot policyVersion d =
     (let d = (if d_PolicyVersion d = [] then d\<lparr>d_PolicyVersion := policyVersion\<rparr> else d) in
      case snapshot of
        None \<Rightarrow> d
      | Some s \<Rightarrow> d\<lparr>d_PolicyBackend := ''helm'', d_PolicyContentHash := ps_PolicyHash s,
                    d_PolicyEpoch := dec_of_nat (unat (ps_PolicyEpoch s))\<rparr>)"

definition signDecisionForRequest ::
  "('b, 'x) Guardian_scheme \<Rightarrow> DecisionRequest \<Rightarrow> PolicySnapshot option \<Rightarrow> string \<Rightarrow> DecisionRecord \<Rightarrow> (guardian_error, DecisionRecord) res" where
  "signDecisionForRequest g request snapshot policyVersion d =
     (case bindDecisionRequest request d of
        Inl e \<Rightarrow> Err e
      | Inr d \<Rightarrow> SignDecision_with g (bindRuntimePolicyDecision snapshot policyVersion d))"

definition recordBehavioralEvent ::
  "('b, 'x) Guardian_scheme \<Rightarrow> string \<Rightarrow> string \<Rightarrow> string \<Rightarrow> ('b, 'y) sign_state_scheme \<Rightarrow> ('b, 'y) sign_state_scheme" where
  "recordBehavioralEvent g who ty reason s =
     (if \<not> g_scorer g \<or> who = [] then s else s\<lparr>ss_events := ss_events s @ [(who, ty, reason)]\<rparr>)"

section \<open>The final stage: signDecisionWithGraph\<close>

definition checkEnvelope :: "Effect \<Rightarrow> string option" where
  "checkEnvelope e =
     (if EffectType e = [] then Some ''missing effect type''
      else if EffectID e = [] then Some ''missing effect ID''
      else None)"

fun get_artifacts :: "('b, 'x) Guardian_scheme \<Rightarrow> string list \<Rightarrow> (guardian_error, string list) res" where
  "get_artifacts g [] = Ok []"
| "get_artifacts g (h # hs) =
     (case g_artifact g h of
        Inl e \<Rightarrow> Err (EvidenceError h e)
      | Inr ty \<Rightarrow> (case get_artifacts g hs of Inl e \<Rightarrow> Err e | Inr tys \<Rightarrow> Ok (ty # tys)))"

definition action_id :: "Effect \<Rightarrow> string" where
  "action_id e = (case ctx_str (Params e) ''tool_name'' of
     Some t \<Rightarrow> if t \<noteq> [] then t else EffectType e | None \<Rightarrow> EffectType e)"

definition budget_id :: "Effect \<Rightarrow> string option" where
  "budget_id e = (case ctx_str (Params e) ''budget_id'' of Some b \<Rightarrow> if b \<noteq> [] then Some b else None | None \<Rightarrow> None)"

fun join_with :: "string \<Rightarrow> string list \<Rightarrow> string" where
  "join_with sep [] = []"
| "join_with sep [x] = x"
| "join_with sep (x # y # xs) = x @ sep @ join_with sep (y # xs)"

text \<open>The input fields, sorted, as the five or six the signing path passes.\<close>

definition missingRequirementReason :: "string list \<Rightarrow> cel_fields \<Rightarrow> string" where
  "missingRequirementReason failures inp =
     ''MISSING_REQUIREMENT: policy requirement not met''
     @ (if length failures > 0 then ''; blocking requirement(s): '' @ join_with '', '' failures else [])
     @ ''; available input.* fields: action (string), artifacts (array), effect (object), taint (array), ''
     @ (if cf_threat_scan inp \<noteq> None then ''threat_scan (object), '' else [])
     @ ''timestamp (number)''"

definition unix_seconds :: "gotime \<Rightarrow> int" where
  "unix_seconds t = (t - 62135596800000000000) div second"

text \<open>
  The stages after the intervention override, in the code's order. Each deny is a signed record; an
  error of the signer is an error of the call. \<open>finish\<close> is the signing of a denial.
\<close>

definition deny_with :: "('b, 'x) Guardian_scheme \<Rightarrow> string \<Rightarrow> string \<Rightarrow> DecisionRecord \<Rightarrow> (guardian_error, DecisionRecord) res" where
  "deny_with g code reason d =
     SignDecision_with g (d\<lparr>d_Verdict := VerdictDeny, d_ReasonCode := code, d_Reason := reason\<rparr>)"

definition check_budget ::
  "('b, 'x) Guardian_scheme \<Rightarrow> Effect \<Rightarrow> ('b, 'y) sign_state_scheme \<Rightarrow> ('b, 'y) sign_state_scheme \<times> (string \<times> string) option" where
  "check_budget g effect s =
     (case (g_tracker g, budget_id effect) of
        (Some bg, Some b) \<Rightarrow>
          (case bg_Check bg b 1 (ss_budget s) of
             (b', Inl e) \<Rightarrow> (s\<lparr>ss_budget := b'\<rparr>, Some (''BUDGET_ERROR'', ''Budget Error: '' @ e))
           | (b', Inr allowed) \<Rightarrow> (s\<lparr>ss_budget := b'\<rparr>, if allowed then None else Some (''BUDGET_EXCEEDED'', ''BUDGET_EXCEEDED'')))
      | _ \<Rightarrow> (s, None))"

definition consume_budget ::
  "('b, 'x) Guardian_scheme \<Rightarrow> Effect \<Rightarrow> ('b, 'y) sign_state_scheme \<Rightarrow> ('b, 'y) sign_state_scheme \<times> (string \<times> string) option" where
  "consume_budget g effect s =
     (case (g_tracker g, budget_id effect) of
        (Some bg, Some b) \<Rightarrow>
          (case bg_Consume bg b 1 (ss_budget s) of
             (b', Inl e) \<Rightarrow> (s\<lparr>ss_budget := b'\<rparr>, Some (''BUDGET_ERROR'', ''Budget consume failed: '' @ e))
           | (b', Inr _) \<Rightarrow> (s\<lparr>ss_budget := b'\<rparr>, None))
      | _ \<Rightarrow> (s, None))"

datatype prg_outcome = PrgPass string | PrgDeny string string bool | PrgError guardian_error

definition check_prg ::
  "('b, 'x) Guardian_scheme \<Rightarrow> rule_graph option \<Rightarrow> string list \<Rightarrow> Effect \<Rightarrow> DecisionRecord \<Rightarrow> prg_outcome" where
  "check_prg g ruleGraph artifacts effect d =
     (let actionID = action_id effect;
          graph = (case ruleGraph of None \<Rightarrow> PRG_NewGraph | Some rg \<Rightarrow> rg)
      in case map_of graph actionID of
           None \<Rightarrow> PrgDeny ''NO_POLICY_DEFINED'' (''NO_POLICY_DEFINED: no policy defined for action '' @ actionID) False
         | Some rule \<Rightarrow>
             (case g_toMap g effect of
                Inl e \<Rightarrow> PrgError (SerializeEffect e)
              | Inr _ \<Rightarrow>
                  (let rest = \<lparr>cf_action = actionID, cf_effect = effect, cf_timestamp = unix_seconds (g_clk g ''prg''),
                         cf_taint = NormalizeTaintLabels (de_ul (g_digest g)) (Taint effect), cf_threat_scan = d_ThreatScan d\<rparr>
                   in case EvaluateRequirementSetDetail (g_cel g) \<lparr>in_rest = rest, in_artifacts = Some artifacts\<rparr> rule of
                        Inl _ \<Rightarrow> PrgDeny ''PRG_EVALUATION_ERROR'' ''PRG Evaluation Error: policy requirement evaluation failed'' False
                      | Inr (valid, failures) \<Rightarrow>
                          if \<not> valid then PrgDeny ''MISSING_REQUIREMENT'' (missingRequirementReason failures rest) True
                          else PrgPass (RequirementSet_Hash (g_sha g) rule))))"

definition sign_gates ::
  "('b, 'x) Guardian_scheme \<Rightarrow> rule_graph option \<Rightarrow> bool \<Rightarrow> string list \<Rightarrow> Effect \<Rightarrow> DecisionRecord \<Rightarrow> ('b, 'y) sign_state_scheme \<Rightarrow>
   ('b, 'y) sign_state_scheme \<times> (guardian_error, DecisionRecord) res" where
  "sign_gates g ruleGraph pdpAuthoritativeAllow artifacts effect d s =
     (case check_budget g effect s of
        (s, Some (code, reason)) \<Rightarrow> (s, deny_with g code reason d)
      | (s, None) \<Rightarrow>
          (case checkEnvelope effect of
             Some e \<Rightarrow> (s, deny_with g ''ENVELOPE_INVALID'' (''Envelope Violation: '' @ e) d)
           | None \<Rightarrow>
               (case (if pdpAuthoritativeAllow then PrgPass [] else check_prg g ruleGraph artifacts effect d) of
                  PrgError e \<Rightarrow> (s, Err e)
                | PrgDeny code reason violated \<Rightarrow>
                    (if violated then recordBehavioralEvent g (d_SubjectID d) ''POLICY_VIOLATE'' ''PRG requirement not met'' s else s,
                     deny_with g code reason d)
                | PrgPass requirementSetHash \<Rightarrow>
                    (case consume_budget g effect s of
                       (s, Some (code, reason)) \<Rightarrow> (s, deny_with g code reason d)
                     | (s, None) \<Rightarrow>
                         (recordBehavioralEvent g (d_SubjectID d) ''POLICY_COMPLY'' ''policy evaluation passed'' s,
                          SignDecision_with g (d\<lparr>d_Verdict := VerdictAllow, d_ReasonCode := [],
                            d_RequirementSetHash := requirementSetHash, d_Timestamp := g_clk g ''sign''\<rparr>))))))"

definition signDecisionWithGraph ::
  "('b, 'x) Guardian_scheme \<Rightarrow> DecisionRecord option \<Rightarrow> Effect \<Rightarrow> string list \<Rightarrow> InterventionMetadata option \<Rightarrow> rule_graph option \<Rightarrow> bool \<Rightarrow>
   ('b, 'y) sign_state_scheme \<Rightarrow> ('b, 'y) sign_state_scheme \<times> (guardian_error, DecisionRecord) res" where
  "signDecisionWithGraph g decision effect evidenceHashes intervention ruleGraph pdpAuthoritativeAllow s =
     (case decision of
        None \<Rightarrow> (s, Err DecisionNil)
      | Some d0 \<Rightarrow>
          (case bindDecisionRequest \<lparr>r_Principal = d_SubjectID d0, r_Action = d_Action d0, r_Resource = d_Resource d0,
                  r_Context = None, r_SessionHistory = []\<rparr> d0 of
             Inl e \<Rightarrow> (s, Err e)
           | Inr d1 \<Rightarrow>
               (case (if d_EffectDigest d1 = [] then CanonicalEffectDigest (g_digest g) (Some effect) else Ok (d_EffectDigest d1)) of
                  Inl e \<Rightarrow> (s, Err (EffectDigestError e))
                | Inr digest \<Rightarrow>
                    (let d2 = d1\<lparr>d_EffectDigest := digest\<rparr>;
                         d3 = (if d_GateRosterHash d2 = [] then d2\<lparr>d_GateRosterHash := g_rosterHash g\<rparr> else d2)
                     in case get_artifacts g evidenceHashes of
                          Inl e \<Rightarrow> (s, Err e)
                        | Inr artifacts \<Rightarrow>
                            (case intervention of
                               Some iv \<Rightarrow>
                                 if iv_Type iv \<noteq> ''NONE'' then
                                   (let d4 = d3\<lparr>d_Intervention := Some iv\<rparr> in
                                    if iv_Type iv = ''INTERRUPT'' \<or> iv_Type iv = ''QUARANTINE'' then
                                      (s, SignDecision_with g (d4\<lparr>d_Verdict := VerdictEscalate, d_ReasonCode := ''TEMPORAL_INTERVENTION'',
                                         d_Reason := ''Temporal Intervention: '' @ iv_Type iv @ '' ('' @ iv_ReasonCode iv @ '')''\<rparr>))
                                    else sign_gates g ruleGraph pdpAuthoritativeAllow artifacts effect d4 s)
                                 else sign_gates g ruleGraph pdpAuthoritativeAllow artifacts effect d3 s
                             | None \<Rightarrow> sign_gates g ruleGraph pdpAuthoritativeAllow artifacts effect d3 s)))))"

section \<open>Execution intents\<close>

definition executionIntentAllowedTool :: "Effect \<Rightarrow> string" where
  "executionIntentAllowedTool e =
     (if EffectType e = ''RUN_SANDBOXED_CODE'' then EffectType e else action_id e)"

definition executionIntentExpiresAt :: "('b, 'x) Guardian_scheme \<Rightarrow> Effect option \<Rightarrow> gotime \<Rightarrow> (guardian_error, gotime) res" where
  "executionIntentExpiresAt g effect now =
     (case effect of
        None \<Rightarrow> Err (IntentWindowError ''execution intent requires an effect'')
      | Some e \<Rightarrow>
          if EffectType e \<noteq> ''RUN_SANDBOXED_CODE'' then Ok (now + 5 * minute)
          else if Params e = None then Err (IntentWindowError ''sandbox execution intent requires complete authorization parameters'')
          else case ctx_get (Params e) ''param.sandbox_execution'' of
                 None \<Rightarrow> Err (IntentWindowError ''sandbox execution intent requires complete runtime and lease authorization'')
               | Some GNil \<Rightarrow> Err (IntentWindowError ''sandbox execution intent requires complete runtime and lease authorization'')
               | Some v \<Rightarrow>
                   (case g_sandbox_window g v of
                      Inl err \<Rightarrow> Err (IntentWindowError err)
                    | Inr w \<Rightarrow>
                        (let runtimeTimeout = sw_Timeout w;
                             leaseRemaining = time_sub (sw_LeaseExpiresAt w) now
                         in if runtimeTimeout \<le> 0 \<or> sw_LeaseExpiresAt w = 0 then
                              Err (IntentWindowError ''sandbox execution intent requires a positive signed runtime and lease expiry'')
                            else if leaseRemaining \<le> runtimeTimeout then
                              Err (IntentWindowError ''sandbox execution lease does not leave enough authority for runtime and dispatch'')
                            else
                              (let dispatchWindow = wrap64 (leaseRemaining - runtimeTimeout) in
                               if dispatchWindow < second then
                                 Err (IntentWindowError ''sandbox execution lease does not leave enough authority for runtime and dispatch'')
                               else
                                 (let dispatchWindow = (if dispatchWindow > 5 * minute then 5 * minute else dispatchWindow)
                                  in Ok (now + wrap64 (runtimeTimeout + dispatchWindow)))))))"

definition stringContextValue :: "gctx \<Rightarrow> string list \<Rightarrow> string option" where
  "stringContextValue c keys =
     first_some (\<lambda>k. case ctx_str c k of None \<Rightarrow> None | Some t \<Rightarrow> if TrimSpace t \<noteq> [] then Some (TrimSpace t) else None) keys"

type_synonym PolicyScope = "string \<times> string"

definition PolicyScope_Normalize :: "PolicyScope \<Rightarrow> PolicyScope" where
  "PolicyScope_Normalize s =
     (case s of (t, w) \<Rightarrow> (if blank t then ''default'' else t, if blank w then ''default'' else w))"

definition policyScopeFromContext :: "('b, 'x) Guardian_scheme \<Rightarrow> gctx \<Rightarrow> PolicyScope" where
  "policyScopeFromContext g c =
     (case PolicyScope_Normalize (g_scope g) of (t, w) \<Rightarrow>
        PolicyScope_Normalize
          (case stringContextValue c [''tenant_id'', ''tenantId'', ''tenant''] of Some x \<Rightarrow> x | None \<Rightarrow> t,
           case stringContextValue c [''workspace_id'', ''workspaceId'', ''workspace''] of Some x \<Rightarrow> x | None \<Rightarrow> w))"

text \<open>\<^verbatim>\<open>strconv.ParseUint(s, 10, 64)\<close>.\<close>

definition dec_digit :: "char \<Rightarrow> nat option" where
  "dec_digit c = (let n = of_char c :: nat in if 48 \<le> n \<and> n \<le> 57 then Some (n - 48) else None)"

fun dec_value :: "nat \<Rightarrow> string \<Rightarrow> nat option" where
  "dec_value acc [] = Some acc"
| "dec_value acc (c # s) = (case dec_digit c of None \<Rightarrow> None | Some d \<Rightarrow> dec_value (10 * acc + d) s)"

definition ParseUint64 :: "string \<Rightarrow> 64 word option" where
  "ParseUint64 s =
     (if s = [] then None
      else case dec_value 0 s of
             None \<Rightarrow> None
           | Some n \<Rightarrow> if n \<le> 18446744073709551615 then Some (of_nat n) else None)"

definition check_snapshot :: "('b, 'x) Guardian_scheme \<Rightarrow> DecisionRecord \<Rightarrow> (guardian_error, unit) res" where
  "check_snapshot g d =
     (case g_snapshots g of
        None \<Rightarrow> Ok ()
      | Some store \<Rightarrow>
          (case store (policyScopeFromContext g (d_InputContext d)) of
             None \<Rightarrow> Err SnapshotMissing
           | Some current \<Rightarrow>
               if ps_Status current \<noteq> ''active'' then Err (SnapshotInactive (ps_Status current))
               else case ParseUint64 (d_PolicyEpoch d) of
                      None \<Rightarrow> Err PolicyBindingMissing
                    | Some decisionEpoch \<Rightarrow>
                        if d_PolicyContentHash d = [] then Err PolicyBindingMissing
                        else if ps_PolicyHash current \<noteq> d_PolicyContentHash d \<or> ps_PolicyEpoch current \<noteq> decisionEpoch
                          then Err PolicyEpochChanged
                        else Ok ()))"

definition verify_for_use :: "('b, 'x) Guardian_scheme \<Rightarrow> DecisionRecord \<Rightarrow> (guardian_error, unit) res" where
  "verify_for_use g d =
     (if d_Verdict d \<noteq> VerdictAllow then Err (NotAllowed (d_Verdict d))
      else case g_verify g of
             None \<Rightarrow> Err NoVerifier
           | Some verify \<Rightarrow>
               (case verify d of
                  Inr True \<Rightarrow>
                    (case ValidateDecisionAuthorityForUse d of
                       Inl e \<Rightarrow> Err (AuthorityError e)
                     | Inr _ \<Rightarrow> check_snapshot g d)
                | _ \<Rightarrow> Err InvalidDecisionSignature))"

definition IssueExecutionIntent ::
  "('b, 'x) Guardian_scheme \<Rightarrow> DecisionRecord option \<Rightarrow> Effect option \<Rightarrow> (guardian_error, AuthorizedExecutionIntent) res" where
  "IssueExecutionIntent g decision effect =
     (case decision of
        None \<Rightarrow> Err DecisionNil
      | Some d \<Rightarrow>
          (case effect of
             None \<Rightarrow> Err EffectNil
           | Some e \<Rightarrow>
               (case verify_for_use g d of
                  Inl err \<Rightarrow> Err err
                | Inr _ \<Rightarrow>
                    (case CanonicalEffectDigest (g_digest g) (Some e) of
                       Inl err \<Rightarrow> Err (EffectDigestError err)
                     | Inr digest \<Rightarrow>
                         if d_EffectDigest d = [] then Err DecisionDigestMissing
                         else if d_EffectDigest d \<noteq> digest then Err (DigestMismatch (d_EffectDigest d) digest)
                         else
                           (case NewEffectDigestBinding (g_digest g) (Some e) of
                              Inl err \<Rightarrow> Err (EffectDigestError err)
                            | Inr binding \<Rightarrow>
                                (let now = g_clk g ''intent'' in
                                 case executionIntentExpiresAt g (Some e) now of
                                   Inl err \<Rightarrow> Err err
                                 | Inr expiresAt \<Rightarrow>
                                     (let intent = \<lparr>ai_ID = ''intent-'' @ d_ID d, ai_DecisionID = d_ID d, ai_EffectDigestHash = digest,
                                            ai_EffectBinding = Some binding, ai_IdempotencyKey = IdempotencyKey e, ai_IssuedAt = now,
                                            ai_ExpiresAt = expiresAt, ai_Signer = ''kernel'', ai_Signature = [], ai_SignatureType = [],
                                            ai_SignatureVersion = [], ai_AllowedTool = executionIntentAllowedTool e,
                                            ai_Taint = NormalizeTaintLabels (de_ul (g_digest g)) (Taint e),
                                            ai_EmergencyActivationID = or_empty (ctx_str (d_InputContext d) ''safe_deprecation_activation_id''),
                                            ai_EmergencyDelegationSessionID = or_empty (ctx_str (d_InputContext d) ''safe_deprecation_delegation_session_id''),
                                            ai_EmergencyScopeHash = or_empty (ctx_str (d_InputContext d) ''safe_deprecation_scope_hash'')\<rparr>
                                      in case g_sign_intent g intent of
                                           Inl err \<Rightarrow> Err (IntentSignError err)
                                         | Inr (sg, ty, ver) \<Rightarrow>
                                             Ok (intent\<lparr>ai_Signature := sg, ai_SignatureType := ty, ai_SignatureVersion := ver\<rparr>))))))))"

section \<open>Lemmas\<close>

lemma sign_with_ok:
  "SignDecision_with g d = Ok d' \<Longrightarrow> \<exists>sg ty ver. d' = d\<lparr>d_Signature := sg, d_SignatureType := ty, d_SignatureVersion := ver\<rparr>"
  by (auto simp: SignDecision_with_def split: sum.splits)

lemma sign_with_keeps [op_frame]:
  "SignDecision_with g d = Ok d' \<Longrightarrow> d_Verdict d' = d_Verdict d \<and> d_SubjectID d' = d_SubjectID d \<and> d_Action d' = d_Action d \<and>
     d_Resource d' = d_Resource d \<and> d_EffectDigest d' = d_EffectDigest d \<and> d_RequirementSetHash d' = d_RequirementSetHash d \<and>
     d_PolicyContentHash d' = d_PolicyContentHash d \<and> d_PolicyEpoch d' = d_PolicyEpoch d \<and> d_InputContext d' = d_InputContext d \<and>
     d_GateRosterHash d' = d_GateRosterHash d"
  by (drule sign_with_ok) auto

lemma sign_with_verdict:
  "SignDecision_with g (d\<lparr>d_Verdict := v, d_ReasonCode := c, d_Reason := r\<rparr>) = Ok d' \<Longrightarrow> d_Verdict d' = v"
  by (drule sign_with_keeps) simp

lemma sign_with_pass:
  "SignDecision_with g (d\<lparr>d_Verdict := v, d_ReasonCode := c, d_RequirementSetHash := h, d_Timestamp := t\<rparr>) = Ok d' \<Longrightarrow>
   d_Verdict d' = v \<and> d_RequirementSetHash d' = h \<and> d_SubjectID d' = d_SubjectID d \<and> d_Action d' = d_Action d \<and>
   d_Resource d' = d_Resource d \<and> d_EffectDigest d' = d_EffectDigest d \<and> d_GateRosterHash d' = d_GateRosterHash d"
  by (drule sign_with_keeps) simp

lemma deny_with_verdict: "deny_with g code reason d = Ok d' \<Longrightarrow> d_Verdict d' = VerdictDeny"
  by (auto simp: deny_with_def dest: sign_with_keeps)

lemma bind_field_ok: "bind_field n a b = Ok c \<longleftrightarrow> \<not> blank b \<and> c = b \<and> (blank a \<or> a = b)"
  by (auto simp: bind_field_def)

lemma bind_ok:
  "bindDecisionRequest q d = Ok d' \<longleftrightarrow>
     \<not> blank (r_Principal q) \<and> \<not> blank (r_Action q) \<and> \<not> blank (r_Resource q) \<and>
     (blank (d_SubjectID d) \<or> d_SubjectID d = r_Principal q) \<and> (blank (d_Action d) \<or> d_Action d = r_Action q) \<and>
     (blank (d_Resource d) \<or> d_Resource d = r_Resource q) \<and>
     d' = d\<lparr>d_SubjectID := r_Principal q, d_Action := r_Action q, d_Resource := r_Resource q\<rparr>"
proof -
  have "bindDecisionRequest q d = Ok d' \<longleftrightarrow>
    (\<exists>s a r. bind_field ''subject ID'' (d_SubjectID d) (r_Principal q) = Ok s \<and>
       bind_field ''action'' (d_Action d) (r_Action q) = Ok a \<and> bind_field ''resource'' (d_Resource d) (r_Resource q) = Ok r \<and>
       d' = d\<lparr>d_SubjectID := s, d_Action := a, d_Resource := r\<rparr>)"
    unfolding bindDecisionRequest_def by (cases "bind_field ''subject ID'' (d_SubjectID d) (r_Principal q)";
        cases "bind_field ''action'' (d_Action d) (r_Action q)"; cases "bind_field ''resource'' (d_Resource d) (r_Resource q)")
      (simp_all, blast)
  then show ?thesis unfolding bind_field_ok by blast
qed

lemma parse_dec: "dec_value acc (dec_of_nat n) = Some (acc * 10 ^ length (dec_of_nat n) + n)"
proof (induction n arbitrary: acc rule: dec_of_nat.induct)
  case (1 n)
  have dig: "dec_digit (digit_char d) = Some d" if "d < 10" for d
    using that by (auto simp: dec_digit_def digit_char_def)
  have app: "dec_value a (s @ t) = (case dec_value a s of None \<Rightarrow> None | Some b \<Rightarrow> dec_value b t)" for a s t
    by (induction s arbitrary: a) (auto split: option.splits)
  show ?case
  proof (cases "n < 10")
    case True
    then show ?thesis by (simp add: dec_of_nat.simps [of n] dig)
  next
    case False
    then show ?thesis
      using 1 [OF False, of acc] by (simp add: dec_of_nat.simps [of n] app dig algebra_simps)
  qed
qed

text \<open>The epoch a decision is bound to is the epoch an intent reads back.\<close>

lemma parse_epoch: "ParseUint64 (dec_of_nat (unat (w :: 64 word))) = Some w"
proof -
  have "unat w < 2 ^ 64" using unsigned_less [of w] by simp
  then show ?thesis using parse_dec [of 0 "unat w"] by (simp add: ParseUint64_def)
qed

section \<open>A small configuration for the examples\<close>

definition w_gate :: "int BudgetGate" where
  "w_gate = \<lparr>bg_Check = (\<lambda>b n s. (s, Ok (n \<le> s))),
     bg_Consume = (\<lambda>b n s. if n \<le> s then (s - n, Ok ()) else (s, Err ''exhausted''))\<rparr>"

definition w_effect :: Effect where
  "w_effect = Effect ''e1'' ''WRITE'' (Some [(''budget_id'', GStr ''b'')]) [] [] [] None False [] [] []"

definition w_sandbox_effect :: Effect where
  "w_sandbox_effect = Effect ''e2'' ''RUN_SANDBOXED_CODE'' (Some [(''param.sandbox_execution'', GStr ''grant'')]) [] [] [] None False [] [] []"

definition w_snapshot :: PolicySnapshot where
  "w_snapshot = \<lparr>ps_PolicyHash = ''p'', ps_PolicyEpoch = 7, ps_Status = ''active'',
     ps_Graph = Some [(''WRITE'', RequirementSet ''r'' ''AND'' [] [])], ps_PDP = None\<rparr>"

definition w_guardian :: "int Guardian" where
  "w_guardian = \<lparr>g_sign = (\<lambda>d. Ok (''sig'', ''ed25519'', ''decision_record.v4'')), g_verify = Some (\<lambda>d. Ok (d_Signature d = ''sig'')),
     g_sign_intent = (\<lambda>i. Ok (''isig'', ''ed25519'', ''v2'')), g_tracker = Some w_gate, g_artifact = (\<lambda>h. Ok ''REPORT''),
     g_toMap = (\<lambda>e. Ok ()), g_cel = (\<lambda>x i. Ok True), g_sha = (\<lambda>s. [1]),
     g_digest = \<lparr>de_ul = (\<lambda>s. s), de_clone = (\<lambda>c. Ok c), de_hash = (\<lambda>b. Ok ''digest'')\<rparr>,
     g_clk = (\<lambda>p. 62135596800000000000), g_rnd = (\<lambda>p. ''r''), g_scorer = True, g_rosterHash = ''roster'',
     g_snapshots = Some (\<lambda>sc. Some w_snapshot), g_scope = (''t'', ''w''),
     g_sandbox_window = (\<lambda>v. Ok \<lparr>sw_Timeout = 30000000000, sw_LeaseExpiresAt = 62135596860000000000\<rparr>)\<rparr>"

definition w_request :: DecisionRequest where
  "w_request = \<lparr>r_Principal = ''alice'', r_Action = ''WRITE'', r_Resource = ''file'', r_Context = None, r_SessionHistory = []\<rparr>"

definition w_decision :: DecisionRecord where
  "w_decision = zero_decision\<lparr>d_ID := ''d1'', d_SubjectID := ''alice'', d_Action := ''WRITE'', d_Resource := ''file''\<rparr>"

lemma w_blank [simp]: "\<not> blank ''alice''" "\<not> blank ''WRITE''" "\<not> blank ''file''" "\<not> blank ''ed25519''"
  by (simp_all add: visible_not_blank visible_def)

lemma w_signing [simp]:
  "budget_id w_effect = Some ''b''" "action_id w_effect = ''WRITE''" "checkEnvelope w_effect = None"
  "d_EffectDigest w_decision = []" "d_SubjectID w_decision = ''alice''" "d_Action w_decision = ''WRITE''" "d_Resource w_decision = ''file''"
  "d_GateRosterHash w_decision = []" "d_PolicyVersion w_decision = []"
  by (simp_all add: budget_id_def action_id_def checkEnvelope_def ctx_str_def ctx_get_def w_effect_def w_decision_def zero_decision_def)

lemma w_digest [simp]:
  "CanonicalEffectDigest (g_digest w_guardian) (Some w_effect) = Ok ''digest''"
  "CanonicalEffectDigest (g_digest w_guardian) (Some w_sandbox_effect) = Ok ''digest''"
  by (simp_all add: CanonicalEffectDigest_def w_effect_def w_sandbox_effect_def w_guardian_def)

lemma w_artifacts [simp]: "g_artifact w_guardian h = Ok ''REPORT''"
  by (simp add: w_guardian_def)

lemma w_tracker [simp]: "g_tracker w_guardian = Some w_gate"
  by (simp add: w_guardian_def)

lemma w_budget [simp]:
  "check_budget w_guardian w_effect \<lparr>ss_budget = 1, ss_events = ev\<rparr> = (\<lparr>ss_budget = 1, ss_events = ev\<rparr>, None)"
  "consume_budget w_guardian w_effect \<lparr>ss_budget = 1, ss_events = ev\<rparr> = (\<lparr>ss_budget = 0, ss_events = ev\<rparr>, None)"
  by (simp_all add: check_budget_def consume_budget_def w_gate_def)

lemma w_prg [simp]:
  "check_prg w_guardian (ps_Graph w_snapshot) a w_effect d = PrgPass (RequirementSet_Hash (g_sha w_guardian) (RequirementSet ''r'' ''AND'' [] []))"
  "check_prg w_guardian None a w_effect d = PrgDeny ''NO_POLICY_DEFINED'' (''NO_POLICY_DEFINED: no policy defined for action '' @ ''WRITE'') False"
  by (simp_all add: check_prg_def PRG_NewGraph_def w_snapshot_def) (simp add: w_guardian_def)

lemma w_sign [simp]:
  "SignDecision_with w_guardian d =
     Ok (d\<lparr>d_Signature := ''sig'', d_SignatureType := ''ed25519'', d_SignatureVersion := ''decision_record.v4''\<rparr>)"
  by (simp add: SignDecision_with_def w_guardian_def)

definition w_signed :: DecisionRecord where
  "w_signed = w_decision\<lparr>d_Verdict := VerdictAllow, d_EffectDigest := ''digest'', d_PolicyVersion := ''v'', d_PolicyBackend := ''helm'',
     d_PolicyContentHash := ''p'', d_PolicyEpoch := ''7'', d_Signature := ''sig'', d_SignatureType := ''ed25519'',
     d_SignatureVersion := ''decision_record.v4''\<rparr>"

lemma w_signed_for_request:
  "signDecisionForRequest w_guardian w_request (Some w_snapshot) ''v'' (w_decision\<lparr>d_Verdict := VerdictAllow, d_EffectDigest := ''digest''\<rparr>) = Ok w_signed"
proof -
  have "dec_of_nat (unat (7 :: 64 word)) = ''7''" by code_simp
  moreover have "bindDecisionRequest w_request (w_decision\<lparr>d_Verdict := VerdictAllow, d_EffectDigest := ''digest''\<rparr>) =
      Ok (w_decision\<lparr>d_Verdict := VerdictAllow, d_EffectDigest := ''digest''\<rparr>)"
    by (simp add: bind_ok w_request_def)
  ultimately show ?thesis
    by (simp add: signDecisionForRequest_def bindRuntimePolicyDecision_def w_snapshot_def w_signed_def)
qed

lemma w_snapshots:
  "g_snapshots w_guardian = Some (\<lambda>sc. Some w_snapshot)" "g_verify w_guardian = Some (\<lambda>d. Ok (d_Signature d = ''sig''))"
  by (simp_all add: w_guardian_def)

lemma w_verified: "verify_for_use w_guardian w_signed = Ok ()"
proof -
  have f: "ValidateDecisionAuthorityForUse w_signed = Ok ()" "d_PolicyContentHash w_signed = ''p''" "d_Verdict w_signed = VerdictAllow"
    "d_Signature w_signed = ''sig''"
    by (simp_all add: w_signed_def ValidateDecisionAuthorityForUse_def DecisionRecordSignatureV4_def)
  have "dec_of_nat (unat (7 :: 64 word)) = ''7''" by code_simp
  then have "d_PolicyEpoch w_signed = dec_of_nat (unat (7 :: 64 word))" by (simp add: w_signed_def)
  then have e: "ParseUint64 (d_PolicyEpoch w_signed) = Some 7" by (simp only: parse_epoch)
  have s: "ps_Status w_snapshot = ''active''" "ps_PolicyHash w_snapshot = ''p''" "ps_PolicyEpoch w_snapshot = 7" by (simp_all add: w_snapshot_def)
  have "check_snapshot w_guardian w_signed = Ok ()" unfolding check_snapshot_def w_snapshots option.case e s f by simp
  then show ?thesis by (simp add: verify_for_use_def w_snapshots f)
qed

lemma w_issued:
  "is_ok (IssueExecutionIntent w_guardian (Some w_signed) (Some w_effect))"
  "is_ok (IssueExecutionIntent w_guardian (Some w_signed) (Some w_sandbox_effect))"
proof -
  have d: "d_EffectDigest w_signed = ''digest''" by (simp add: w_signed_def)
  have e: "EffectType w_effect = ''WRITE''" "EffectType w_sandbox_effect = ''RUN_SANDBOXED_CODE''"
    "Params w_sandbox_effect = Some [(''param.sandbox_execution'', GStr ''grant'')]"
    by (simp_all add: w_effect_def w_sandbox_effect_def)
  have b: "is_ok (NewEffectDigestBinding (g_digest w_guardian) (Some w_effect))"
    "is_ok (NewEffectDigestBinding (g_digest w_guardian) (Some w_sandbox_effect))"
    by (simp_all add: NewEffectDigestBinding_def w_effect_def w_sandbox_effect_def w_guardian_def)
  have s: "g_sign_intent w_guardian i = Ok (''isig'', ''ed25519'', ''v2'')" for i by (simp add: w_guardian_def)
  have x: "is_ok (executionIntentExpiresAt w_guardian (Some w_effect) t)" for t by (simp add: executionIntentExpiresAt_def e)
  have "g_clk w_guardian ''intent'' = 62135596800000000000"
    "g_sandbox_window w_guardian v = Ok \<lparr>sw_Timeout = 30000000000, sw_LeaseExpiresAt = 62135596860000000000\<rparr>" for v
    by (simp_all add: w_guardian_def)
  then have y: "is_ok (executionIntentExpiresAt w_guardian (Some w_sandbox_effect) (g_clk w_guardian ''intent''))"
    by (simp add: executionIntentExpiresAt_def e ctx_get_def time_sub_def max_int64_def min_int64_def wrap64_def second_def minute_def)
  show "is_ok (IssueExecutionIntent w_guardian (Some w_signed) (Some w_effect))"
    using b(1) x [of "g_clk w_guardian ''intent''"] by (auto simp: IssueExecutionIntent_def w_verified d s is_ok_iff Let_def)
  show "is_ok (IssueExecutionIntent w_guardian (Some w_signed) (Some w_sandbox_effect))"
    using b(2) y by (auto simp: IssueExecutionIntent_def w_verified d s is_ok_iff Let_def)
qed

section \<open>What the final stage guarantees\<close>

lemma record_event_budget [simp]: "ss_budget (recordBehavioralEvent g w t r s) = ss_budget s"
  by (simp add: recordBehavioralEvent_def)

text \<open>The stages one after the other: an allowed call passed each of them.\<close>

lemma sign_gates_allow:
  assumes "sign_gates g rg pdp arts e d s = (s', Ok d')" "d_Verdict d' = VerdictAllow"
  shows "\<exists>s1 s2 h. check_budget g e s = (s1, None) \<and> checkEnvelope e = None \<and>
     (if pdp then h = [] else check_prg g rg arts e d = PrgPass h) \<and> consume_budget g e s1 = (s2, None) \<and>
     s' = recordBehavioralEvent g (d_SubjectID d) ''POLICY_COMPLY'' ''policy evaluation passed'' s2 \<and>
     SignDecision_with g (d\<lparr>d_Verdict := VerdictAllow, d_ReasonCode := [], d_RequirementSetHash := h,
       d_Timestamp := g_clk g ''sign''\<rparr>) = Ok d'"
proof -
  have nodeny: "deny_with g c r d \<noteq> Ok d'" for c r using assms(2) deny_with_verdict by fastforce
  obtain s1 o1 where b: "check_budget g e s = (s1, o1)" by fastforce
  have o1: "o1 = None" using assms(1) nodeny b by (cases o1) (auto simp: sign_gates_def)
  have env: "checkEnvelope e = None" using assms(1) nodeny b o1 by (cases "checkEnvelope e") (auto simp: sign_gates_def)
  define out where "out = (if pdp then PrgPass [] else check_prg g rg arts e d)"
  have step: "sign_gates g rg pdp arts e d s =
      (case out of PrgError e' \<Rightarrow> (s1, Err e')
       | PrgDeny code reason violated \<Rightarrow>
           (if violated then recordBehavioralEvent g (d_SubjectID d) ''POLICY_VIOLATE'' ''PRG requirement not met'' s1 else s1,
            deny_with g code reason d)
       | PrgPass h \<Rightarrow>
           (case consume_budget g e s1 of
              (s2, Some (code, reason)) \<Rightarrow> (s2, deny_with g code reason d)
            | (s2, None) \<Rightarrow>
                (recordBehavioralEvent g (d_SubjectID d) ''POLICY_COMPLY'' ''policy evaluation passed'' s2,
                 SignDecision_with g (d\<lparr>d_Verdict := VerdictAllow, d_ReasonCode := [],
                   d_RequirementSetHash := h, d_Timestamp := g_clk g ''sign''\<rparr>))))"
    by (simp only: sign_gates_def b o1 env out_def option.case prod.case)
  obtain h where h: "out = PrgPass h" using assms(1) nodeny unfolding step by (cases out) auto
  obtain s2 o2 where c: "consume_budget g e s1 = (s2, o2)" by fastforce
  have o2: "o2 = None" using assms(1) nodeny unfolding step h c by (cases o2) auto
  have "if pdp then h = [] else check_prg g rg arts e d = PrgPass h" using h by (auto simp: out_def split: if_splits)
  then show ?thesis using assms(1) b o1 env c o2 unfolding step h by (intro exI [of _ s1] exI [of _ s2] exI [of _ h]) simp
qed

lemma sign_gates_refused_budget:
  assumes "sign_gates g rg pdp arts e d s = (s', Ok d')" "d_Verdict d' \<noteq> VerdictAllow"
  shows "ss_budget s' = ss_budget (fst (check_budget g e s)) \<or>
    (\<exists>x. snd (consume_budget g e (fst (check_budget g e s))) = Some x \<and>
       ss_budget s' = ss_budget (fst (consume_budget g e (fst (check_budget g e s)))))"
proof -
  obtain s1 o1 where b: "check_budget g e s = (s1, o1)" by fastforce
  obtain s2 o2 where c: "consume_budget g e s1 = (s2, o2)" by fastforce
  have "o2 \<noteq> None \<or> SignDecision_with g (d\<lparr>d_Verdict := VerdictAllow, d_ReasonCode := [], d_RequirementSetHash := h,
       d_Timestamp := g_clk g ''sign''\<rparr>) \<noteq> Ok d'" for h
    using assms(2) sign_with_pass by blast
  then show ?thesis
    using assms(1) unfolding sign_gates_def b prod.case
    by (cases o1; cases "checkEnvelope e"; cases "if pdp then PrgPass [] else check_prg g rg arts e d"; cases o2) (auto simp: c b split: if_splits)
qed

text \<open>What comes before them: the bound record, its digest, its roster and the intervention override.\<close>

definition prepared ::
  "('b, 'x) Guardian_scheme \<Rightarrow> DecisionRecord \<Rightarrow> Effect \<Rightarrow> string list \<Rightarrow> InterventionMetadata option \<Rightarrow> string list \<Rightarrow> DecisionRecord \<Rightarrow> bool" where
  "prepared g d0 effect hs iv arts d \<longleftrightarrow>
     \<not> blank (d_SubjectID d0) \<and> \<not> blank (d_Action d0) \<and> \<not> blank (d_Resource d0) \<and>
     d_SubjectID d = d_SubjectID d0 \<and> d_Action d = d_Action d0 \<and> d_Resource d = d_Resource d0 \<and>
     d_ThreatScan d = d_ThreatScan d0 \<and>
     (if d_EffectDigest d0 = [] then CanonicalEffectDigest (g_digest g) (Some effect) = Ok (d_EffectDigest d)
      else d_EffectDigest d = d_EffectDigest d0) \<and>
     d_GateRosterHash d = (if d_GateRosterHash d0 = [] then g_rosterHash g else d_GateRosterHash d0) \<and>
     get_artifacts g hs = Ok arts"

definition overridden :: "InterventionMetadata option \<Rightarrow> bool" where
  "overridden iv \<longleftrightarrow> (\<exists>i. iv = Some i \<and> (iv_Type i = ''INTERRUPT'' \<or> iv_Type i = ''QUARANTINE''))"

lemma bind_self:
  "bindDecisionRequest \<lparr>r_Principal = d_SubjectID d0, r_Action = d_Action d0, r_Resource = d_Resource d0,
     r_Context = None, r_SessionHistory = []\<rparr> d0 = Ok d1 \<Longrightarrow>
   d1 = d0 \<and> \<not> blank (d_SubjectID d0) \<and> \<not> blank (d_Action d0) \<and> \<not> blank (d_Resource d0)"
  by (simp add: bind_ok)

lemma sign_graph_cases:
  assumes "signDecisionWithGraph g (Some d0) effect hs iv rg pdp s = (s', Ok d)"
  shows "\<exists>arts d3. prepared g d0 effect hs iv arts d3 \<and>
     (if overridden iv then s' = s \<and> d_Verdict d = VerdictEscalate
      else sign_gates g rg pdp arts effect d3 s = (s', Ok d))"
proof -
  obtain d1 where d1: "bindDecisionRequest \<lparr>r_Principal = d_SubjectID d0, r_Action = d_Action d0, r_Resource = d_Resource d0,
     r_Context = None, r_SessionHistory = []\<rparr> d0 = Ok d1"
    using assms unfolding signDecisionWithGraph_def option.case
    by (cases "bindDecisionRequest \<lparr>r_Principal = d_SubjectID d0, r_Action = d_Action d0, r_Resource = d_Resource d0,
         r_Context = None, r_SessionHistory = []\<rparr> d0") auto
  note tuple = bind_self [OF d1]
  obtain dg where dg: "(if d_EffectDigest d1 = [] then CanonicalEffectDigest (g_digest g) (Some effect) else Ok (d_EffectDigest d1)) = Ok dg"
    using assms unfolding signDecisionWithGraph_def option.case d1 sum.case
    by (cases "if d_EffectDigest d1 = [] then CanonicalEffectDigest (g_digest g) (Some effect) else Ok (d_EffectDigest d1)") auto
  obtain arts where arts: "get_artifacts g hs = Ok arts"
    using assms unfolding signDecisionWithGraph_def option.case d1 sum.case dg Let_def
    by (cases "get_artifacts g hs") auto
  define d2 where "d2 = d1\<lparr>d_EffectDigest := dg\<rparr>"
  define d3 where "d3 = (if d_GateRosterHash d2 = [] then d2\<lparr>d_GateRosterHash := g_rosterHash g\<rparr> else d2)"
  have p3: "prepared g d0 effect hs iv arts d3"
    using tuple dg arts by (auto simp: prepared_def d3_def d2_def split: if_splits)
  then have p4: "prepared g d0 effect hs iv arts (d3\<lparr>d_Intervention := iv'\<rparr>)" for iv' by (simp add: prepared_def)
  have run: "(case iv of
       Some iv \<Rightarrow>
         if iv_Type iv \<noteq> ''NONE'' then
           (let d4 = d3\<lparr>d_Intervention := Some iv\<rparr> in
            if iv_Type iv = ''INTERRUPT'' \<or> iv_Type iv = ''QUARANTINE'' then
              (s, SignDecision_with g (d4\<lparr>d_Verdict := VerdictEscalate, d_ReasonCode := ''TEMPORAL_INTERVENTION'',
                 d_Reason := ''Temporal Intervention: '' @ iv_Type iv @ '' ('' @ iv_ReasonCode iv @ '')''\<rparr>))
            else sign_gates g rg pdp arts effect d4 s)
         else sign_gates g rg pdp arts effect d3 s
     | None \<Rightarrow> sign_gates g rg pdp arts effect d3 s) = (s', Ok d)"
    using assms unfolding signDecisionWithGraph_def option.case d1 sum.case dg Let_def arts d2_def [symmetric] d3_def [symmetric] .
  show ?thesis
  proof (cases "overridden iv")
    case True
    then obtain i where i: "iv = Some i" "iv_Type i = ''INTERRUPT'' \<or> iv_Type i = ''QUARANTINE''" by (auto simp: overridden_def)
    then have "iv_Type i \<noteq> ''NONE''" by auto
    then have "s' = s" "d_Verdict d = VerdictEscalate"
      using run i sign_with_verdict by (simp_all only: i option.case not_False_eq_True if_True Let_def prod.inject) blast+
    then show ?thesis using True p3 by auto
  next
    case False
    then show ?thesis using run p3 p4 by (auto simp: overridden_def Let_def split: option.splits if_splits)
  qed
qed

lemma check_budget_state:
  "g_tracker g = Some bg \<Longrightarrow> budget_id e = Some b \<Longrightarrow> ss_budget (fst (check_budget g e s)) = fst (bg_Check bg b 1 (ss_budget s))"
  "g_tracker g = Some bg \<Longrightarrow> budget_id e = Some b \<Longrightarrow>
     snd (check_budget g e s) = None \<longleftrightarrow> snd (bg_Check bg b 1 (ss_budget s)) = Ok True"
  by (auto simp: check_budget_def split: prod.splits sum.splits)

lemma consume_budget_state:
  "g_tracker g = Some bg \<Longrightarrow> budget_id e = Some b \<Longrightarrow> ss_budget (fst (consume_budget g e s)) = fst (bg_Consume bg b 1 (ss_budget s))"
  "g_tracker g = Some bg \<Longrightarrow> budget_id e = Some b \<Longrightarrow>
     snd (consume_budget g e s) = None \<longleftrightarrow> snd (bg_Consume bg b 1 (ss_budget s)) = Ok ()"
  by (auto simp: consume_budget_def split: prod.splits sum.splits)

lemma check_prg_pass:
  assumes "check_prg g rg arts e d = PrgPass h"
  shows "\<exists>graph rule fs. rg = Some graph \<and> map_of graph (action_id e) = Some rule \<and> h = RequirementSet_Hash (g_sha g) rule \<and>
    EvaluateRequirementSetDetail (g_cel g)
      \<lparr>in_rest = \<lparr>cf_action = action_id e, cf_effect = e, cf_timestamp = unix_seconds (g_clk g ''prg''),
         cf_taint = NormalizeTaintLabels (de_ul (g_digest g)) (Taint e), cf_threat_scan = d_ThreatScan d\<rparr>,
       in_artifacts = Some arts\<rparr> rule = Ok (True, fs)"
  using assms by (auto simp: check_prg_def Let_def PRG_NewGraph_def split: option.splits sum.splits prod.splits if_splits)

text \<open>
  C12: A signed ALLOW passed every stage of the final gate: no interrupt or quarantine intervention was
  in force; the subject, action and resource were given and are unchanged; the effect is a proper
  envelope and its digest is bound; where the effect names a budget of the tracker, the tracker
  allowed one request and then consumed it, in this order; and unless an authoritative policy decision
  point allowed it, a rule exists for the effect's action, its requirements evaluated to true over the
  evidence of the call, and the record carries the rule's hash.
\<close>
theorem allow_requires_signing_gates:
  assumes "signDecisionWithGraph g (Some d0) effect hs iv rg pdp s = (s', Ok d)" "d_Verdict d = VerdictAllow"
  shows "(\<forall>i. iv = Some i \<longrightarrow> iv_Type i \<noteq> ''INTERRUPT'' \<and> iv_Type i \<noteq> ''QUARANTINE'') \<and>
    (\<not> blank (d_SubjectID d) \<and> \<not> blank (d_Action d) \<and> \<not> blank (d_Resource d) \<and>
      d_SubjectID d = d_SubjectID d0 \<and> d_Action d = d_Action d0 \<and> d_Resource d = d_Resource d0) \<and>
    (EffectType effect \<noteq> [] \<and> EffectID effect \<noteq> []) \<and>
    (if d_EffectDigest d0 = [] then CanonicalEffectDigest (g_digest g) (Some effect) = Ok (d_EffectDigest d)
     else d_EffectDigest d = d_EffectDigest d0) \<and>
    (\<forall>bg b. g_tracker g = Some bg \<longrightarrow> budget_id effect = Some b \<longrightarrow>
      (\<exists>b1. bg_Check bg b 1 (ss_budget s) = (b1, Ok True) \<and> bg_Consume bg b 1 b1 = (ss_budget s', Ok ()))) \<and>
    (\<not> pdp \<longrightarrow> (\<exists>graph rule arts fs. rg = Some graph \<and> map_of graph (action_id effect) = Some rule \<and> get_artifacts g hs = Ok arts \<and>
      EvaluateRequirementSetDetail (g_cel g)
        \<lparr>in_rest = \<lparr>cf_action = action_id effect, cf_effect = effect, cf_timestamp = unix_seconds (g_clk g ''prg''),
           cf_taint = NormalizeTaintLabels (de_ul (g_digest g)) (Taint effect), cf_threat_scan = d_ThreatScan d0\<rparr>,
         in_artifacts = Some arts\<rparr> rule = Ok (True, fs) \<and>
      d_RequirementSetHash d = RequirementSet_Hash (g_sha g) rule))"
proof -
  obtain arts d3 where p: "prepared g d0 effect hs iv arts d3" and nov: "\<not> overridden iv"
    and sg: "sign_gates g rg pdp arts effect d3 s = (s', Ok d)"
    using sign_graph_cases [OF assms(1)] assms(2) by (auto split: if_splits)
  obtain s1 s2 h where st: "check_budget g effect s = (s1, None)" "checkEnvelope effect = None"
    "if pdp then h = [] else check_prg g rg arts effect d3 = PrgPass h" "consume_budget g effect s1 = (s2, None)"
    "s' = recordBehavioralEvent g (d_SubjectID d3) ''POLICY_COMPLY'' ''policy evaluation passed'' s2"
    "SignDecision_with g (d3\<lparr>d_Verdict := VerdictAllow, d_ReasonCode := [], d_RequirementSetHash := h, d_Timestamp := g_clk g ''sign''\<rparr>) = Ok d"
    using sign_gates_allow [OF sg assms(2)] by blast
  note keep = sign_with_pass [OF st(6)]
  have "\<exists>b1. bg_Check bg b 1 (ss_budget s) = (b1, Ok True) \<and> bg_Consume bg b 1 b1 = (ss_budget s', Ok ())"
    if "g_tracker g = Some bg" "budget_id effect = Some b" for bg b
    using check_budget_state [OF that, of s] consume_budget_state [OF that, of s1] st(1,4,5)
    by (intro exI [of _ "ss_budget s1"]) (auto simp: prod_eq_iff)
  moreover have "EffectType effect \<noteq> [] \<and> EffectID effect \<noteq> []" using st(2) by (simp add: checkEnvelope_def split: if_splits)
  moreover have "\<not> pdp \<longrightarrow> check_prg g rg arts effect d3 = PrgPass h" using st(3) by simp
  ultimately show ?thesis
    using nov p keep check_prg_pass [of g rg arts effect d3 h] unfolding overridden_def prepared_def by (intro conjI) auto
qed

theorem allow_requires_signing_gates_witness:
  "\<exists>s' d. signDecisionWithGraph w_guardian (Some w_decision) w_effect [''h''] None (ps_Graph w_snapshot) False
       \<lparr>ss_budget = 1, ss_events = []\<rparr> = (s', Ok d) \<and> d_Verdict d = VerdictAllow \<and> ss_budget s' = 0 \<and> d_EffectDigest d = ''digest''"
proof -
  let ?r = "signDecisionWithGraph w_guardian (Some w_decision) w_effect [''h''] None (ps_Graph w_snapshot) False \<lparr>ss_budget = 1, ss_events = []\<rparr>"
  have "\<exists>s' d. ?r = (s', Ok d) \<and> d_Verdict d = VerdictAllow"
    by (simp add: signDecisionWithGraph_def bindDecisionRequest_def bind_field_def sign_gates_def Let_def)
  then obtain s' d where r: "?r = (s', Ok d)" "d_Verdict d = VerdictAllow" by blast
  show ?thesis using r allow_requires_signing_gates [OF r] by (auto simp: w_gate_def)
qed

text \<open>
  A call that ends in a signed refusal draws nothing from the budget: the budget's state is the
  one before the call or the one after the ceiling check, or the draw itself reported an error.
\<close>
theorem refusal_draws_nothing:
  assumes "signDecisionWithGraph g (Some d0) effect hs iv rg pdp s = (s', Ok d)" "d_Verdict d \<noteq> VerdictAllow"
    and "g_tracker g = Some bg" "budget_id effect = Some b"
  shows "ss_budget s' = ss_budget s \<or> ss_budget s' = fst (bg_Check bg b 1 (ss_budget s)) \<or>
    (\<exists>b1 m. bg_Check bg b 1 (ss_budget s) = (b1, Ok True) \<and> bg_Consume bg b 1 b1 = (ss_budget s', Err m))"
proof -
  obtain arts d3 where c: "if overridden iv then s' = s \<and> d_Verdict d = VerdictEscalate
      else sign_gates g rg pdp arts effect d3 s = (s', Ok d)"
    using sign_graph_cases [OF assms(1)] by blast
  note bs = check_budget_state [OF assms(3,4)] and cs = consume_budget_state [OF assms(3,4)]
  show ?thesis
  proof (cases "overridden iv")
    case True
    then show ?thesis using c by simp
  next
    case False
    then have sg: "sign_gates g rg pdp arts effect d3 s = (s', Ok d)" using c by simp
    show ?thesis
    proof (cases "snd (check_budget g effect s)")
      case None
      obtain b1 where b1: "bg_Check bg b 1 (ss_budget s) = (b1, Ok True)"
        using bs(2) [of s] None by (cases "bg_Check bg b 1 (ss_budget s)") simp
      obtain b2 r2 where b2: "bg_Consume bg b 1 b1 = (b2, r2)" by fastforce
      have "ss_budget s' = b1 \<or> (r2 \<noteq> Ok () \<and> ss_budget s' = b2)"
        using sign_gates_refused_budget [OF sg assms(2)] bs(1) [of s] cs [of "fst (check_budget g effect s)"] b1 b2 by auto
      then show ?thesis using b1 b2 by (cases r2) auto
    next
      case (Some x)
      then have "ss_budget s' = ss_budget (fst (check_budget g effect s))"
        using sg by (cases "check_budget g effect s") (auto simp: sign_gates_def split: prod.splits)
      then show ?thesis by (simp add: bs)
    qed
  qed
qed

theorem refusal_draws_nothing_witness:
  "\<exists>s' d. signDecisionWithGraph w_guardian (Some w_decision) w_effect [''h''] None None False
       \<lparr>ss_budget = 1, ss_events = []\<rparr> = (s', Ok d) \<and> d_Verdict d \<noteq> VerdictAllow \<and> ss_budget s' = 1"
proof -
  let ?r = "signDecisionWithGraph w_guardian (Some w_decision) w_effect [''h''] None None False \<lparr>ss_budget = 1, ss_events = []\<rparr>"
  have "\<exists>s' d. ?r = (s', Ok d) \<and> d_Verdict d \<noteq> VerdictAllow"
    by (simp add: signDecisionWithGraph_def bindDecisionRequest_def bind_field_def sign_gates_def Let_def deny_with_def)
  then obtain s' d where r: "?r = (s', Ok d)" "d_Verdict d \<noteq> VerdictAllow" by blast
  have b: "budget_id w_effect = Some ''b''" by simp
  show ?thesis using r refusal_draws_nothing [OF r w_tracker b] by (auto simp: w_gate_def)
qed

section \<open>Execution intents\<close>

lemma verify_for_use_ok:
  "verify_for_use g d = Ok () \<Longrightarrow> d_Verdict d = VerdictAllow \<and> (\<exists>v. g_verify g = Some v \<and> v d = Ok True) \<and>
     ValidateDecisionAuthorityForUse d = Ok () \<and> check_snapshot g d = Ok ()"
  by (auto simp: verify_for_use_def split: if_splits option.splits sum.splits bool.splits)

lemma check_snapshot_ok:
  "check_snapshot g d = Ok () \<Longrightarrow> g_snapshots g = Some store \<Longrightarrow>
   \<exists>current. store (policyScopeFromContext g (d_InputContext d)) = Some current \<and> ps_Status current = ''active'' \<and>
     d_PolicyContentHash d = ps_PolicyHash current \<and> ParseUint64 (d_PolicyEpoch d) = Some (ps_PolicyEpoch current)"
  by (auto simp: check_snapshot_def split: if_splits option.splits)

lemma issue_ok:
  assumes "IssueExecutionIntent g (Some d) (Some e) = Ok i"
  shows "verify_for_use g d = Ok ()" "CanonicalEffectDigest (g_digest g) (Some e) = Ok (d_EffectDigest d)" "d_EffectDigest d \<noteq> []"
    "ai_DecisionID i = d_ID d" "ai_EffectDigestHash i = d_EffectDigest d" "ai_AllowedTool i = executionIntentAllowedTool e"
    "\<exists>b. NewEffectDigestBinding (g_digest g) (Some e) = Ok b \<and> ai_EffectBinding i = Some b"
    "ai_IssuedAt i = g_clk g ''intent''" "executionIntentExpiresAt g (Some e) (ai_IssuedAt i) = Ok (ai_ExpiresAt i)"
  using assms unfolding IssueExecutionIntent_def
  by (auto simp: Let_def split: sum.splits if_splits)

text \<open>
  C13: An execution intent is issued only for an effect whose canonical digest is the one the decision
  carries, and only for a decision that says ALLOW, whose signature the kernel's verifier accepts and
  whose signed tuple is complete; the intent names this decision and digest. With a snapshot store,
  the policy of the decision's scope is active and is the very policy the decision was bound to.
\<close>
theorem intent_only_for_verified_allow:
  assumes "IssueExecutionIntent g (Some d) (Some e) = Ok i"
  shows "d_Verdict d = VerdictAllow \<and> (\<exists>v. g_verify g = Some v \<and> v d = Ok True) \<and>
    d_SignatureVersion d = DecisionRecordSignatureV4 \<and> \<not> blank (d_SubjectID d) \<and> \<not> blank (d_Action d) \<and> \<not> blank (d_Resource d) \<and>
    CanonicalEffectDigest (g_digest g) (Some e) = Ok (d_EffectDigest d) \<and>
    ai_DecisionID i = d_ID d \<and> ai_EffectDigestHash i = d_EffectDigest d \<and> ai_AllowedTool i = executionIntentAllowedTool e \<and>
    (\<forall>store. g_snapshots g = Some store \<longrightarrow>
      (\<exists>current. store (policyScopeFromContext g (d_InputContext d)) = Some current \<and> ps_Status current = ''active'' \<and>
         d_PolicyContentHash d = ps_PolicyHash current \<and> ParseUint64 (d_PolicyEpoch d) = Some (ps_PolicyEpoch current)))"
proof -
  note ok = issue_ok [OF assms] and v = verify_for_use_ok [OF issue_ok(1) [OF assms]]
  have "d_SignatureVersion d = DecisionRecordSignatureV4 \<and> \<not> blank (d_SubjectID d) \<and> \<not> blank (d_Action d) \<and> \<not> blank (d_Resource d)"
    using v by (simp add: ValidateDecisionAuthorityForUse_def split: if_splits)
  then show ?thesis using ok v check_snapshot_ok [of g d] by blast
qed

theorem intent_only_for_verified_allow_witness:
  "\<exists>i. IssueExecutionIntent w_guardian (Some w_signed) (Some w_effect) = Ok i \<and> d_Verdict w_signed = VerdictAllow \<and> ai_DecisionID i = d_ID w_signed"
proof -
  obtain i where i: "IssueExecutionIntent w_guardian (Some w_signed) (Some w_effect) = Ok i" using w_issued by (auto simp: is_ok_iff)
  then show ?thesis using intent_only_for_verified_allow [OF i] by blast
qed

text \<open>
  A decision signed under a policy snapshot yields an intent only while the scope's current
  snapshot has the same content hash and the same epoch: any published change of policy in between
  voids it, whatever the epoch number's width.
\<close>
theorem intent_needs_same_policy:
  assumes "signDecisionForRequest g q (Some snap) version d0 = Ok d" "g_snapshots g = Some store"
    and "IssueExecutionIntent g (Some d) (Some e) = Ok i"
  shows "\<exists>current. store (policyScopeFromContext g (d_InputContext d)) = Some current \<and> ps_Status current = ''active'' \<and>
    ps_PolicyHash current = ps_PolicyHash snap \<and> ps_PolicyEpoch current = ps_PolicyEpoch snap"
proof -
  obtain d1 where "SignDecision_with g (bindRuntimePolicyDecision (Some snap) version d1) = Ok d"
    using assms(1) by (auto simp: signDecisionForRequest_def split: sum.splits)
  then have "d_PolicyContentHash d = ps_PolicyHash snap" "d_PolicyEpoch d = dec_of_nat (unat (ps_PolicyEpoch snap))"
    by (auto dest!: sign_with_keeps simp: bindRuntimePolicyDecision_def Let_def)
  then show ?thesis
    using check_snapshot_ok [OF conjunct2 [OF conjunct2 [OF conjunct2 [OF verify_for_use_ok [OF issue_ok(1) [OF assms(3)]]]]] assms(2)]
    by (auto simp: parse_epoch)
qed

theorem intent_needs_same_policy_witness:
  "\<exists>i store current. signDecisionForRequest w_guardian w_request (Some w_snapshot) ''v''
       (w_decision\<lparr>d_Verdict := VerdictAllow, d_EffectDigest := ''digest''\<rparr>) = Ok w_signed \<and>
     g_snapshots w_guardian = Some store \<and> IssueExecutionIntent w_guardian (Some w_signed) (Some w_effect) = Ok i \<and>
     store (policyScopeFromContext w_guardian (d_InputContext w_signed)) = Some current \<and> ps_PolicyEpoch current = 7"
proof -
  obtain i where i: "IssueExecutionIntent w_guardian (Some w_signed) (Some w_effect) = Ok i" using w_issued by (auto simp: is_ok_iff)
  have st: "g_snapshots w_guardian = Some (\<lambda>sc. Some w_snapshot)" by (simp add: w_guardian_def)
  show ?thesis using i st w_signed_for_request intent_needs_same_policy [OF w_signed_for_request st i] by (auto simp: w_snapshot_def)
qed

lemma sandbox_window_bounds:
  assumes "executionIntentExpiresAt g (Some e) now = Ok t" "EffectType e = ''RUN_SANDBOXED_CODE''"
  shows "\<exists>v w. ctx_get (Params e) ''param.sandbox_execution'' = Some v \<and> g_sandbox_window g v = Ok w \<and> 0 < sw_Timeout w \<and>
    t \<le> sw_LeaseExpiresAt w \<and> now + sw_Timeout w + second \<le> t \<and> t \<le> now + sw_Timeout w + 5 * minute"
proof -
  obtain v w where v: "ctx_get (Params e) ''param.sandbox_execution'' = Some v" "v \<noteq> GNil" "g_sandbox_window g v = Ok w" "Params e \<noteq> None"
    using assms by (auto simp: executionIntentExpiresAt_def split: if_splits option.splits gval.splits sum.splits)
  define l where "l = time_sub (sw_LeaseExpiresAt w) now"
  have run: "(if sw_Timeout w \<le> 0 \<or> sw_LeaseExpiresAt w = 0 then
                Err (IntentWindowError ''sandbox execution intent requires a positive signed runtime and lease expiry'')
              else if l \<le> sw_Timeout w then
                Err (IntentWindowError ''sandbox execution lease does not leave enough authority for runtime and dispatch'')
              else if wrap64 (l - sw_Timeout w) < second then
                Err (IntentWindowError ''sandbox execution lease does not leave enough authority for runtime and dispatch'')
              else Ok (now + wrap64 (sw_Timeout w + (if wrap64 (l - sw_Timeout w) > 5 * minute then 5 * minute else wrap64 (l - sw_Timeout w)))))
           = Ok t"
    unfolding assms(1) [symmetric] l_def using assms(2) v(1,3,4) v(2) by (cases v) (simp_all add: executionIntentExpiresAt_def Let_def)
  have pos: "0 < sw_Timeout w" "sw_Timeout w < l" using run by (auto split: if_splits)
  have l: "l \<le> max_int64" "l \<le> sw_LeaseExpiresAt w - now"
    using pos time_sub_le [of l "sw_LeaseExpiresAt w" now] by (auto simp: l_def time_sub_def max_int64_def min_int64_def)
  have w: "wrap64 (l - sw_Timeout w) = l - sw_Timeout w" using pos l by (intro wrap64_id) (simp add: int64_def min_int64_def)
  have m: "0 < minute" by (simp add: minute_def)
  have "wrap64 (sw_Timeout w + x) = sw_Timeout w + x" if "0 \<le> x" "x \<le> l - sw_Timeout w" for x
    using pos l that by (intro wrap64_id) (simp add: int64_def min_int64_def)
  then have "second \<le> l - sw_Timeout w" "t = now + sw_Timeout w + min (5 * minute) (l - sw_Timeout w)"
    using run pos m unfolding w by (auto split: if_splits)
  moreover have "second \<le> 5 * minute" by (simp add: second_def minute_def)
  ultimately have "t \<le> sw_LeaseExpiresAt w \<and> now + sw_Timeout w + second \<le> t \<and> t \<le> now + sw_Timeout w + 5 * minute"
    using l by auto
  then show ?thesis using v pos by blast
qed

text \<open>
  The validity window of an intent: five minutes from issuance for an ordinary effect; for
  sandboxed code it never outlives the lease, leaves the signed runtime and at least a second to
  dispatch it, and at most five minutes more. The window check accepts no other time.
\<close>
theorem intent_window:
  assumes "IssueExecutionIntent g (Some d) (Some e) = Ok i"
  shows "(if EffectType e = ''RUN_SANDBOXED_CODE''
     then \<exists>v w. ctx_get (Params e) ''param.sandbox_execution'' = Some v \<and> g_sandbox_window g v = Ok w \<and> 0 < sw_Timeout w \<and>
       ai_ExpiresAt i \<le> sw_LeaseExpiresAt w \<and> ai_IssuedAt i + sw_Timeout w + second \<le> ai_ExpiresAt i \<and>
       ai_ExpiresAt i \<le> ai_IssuedAt i + sw_Timeout w + 5 * minute
     else ai_ExpiresAt i = ai_IssuedAt i + 5 * minute) \<and>
    (\<forall>t. ValidateAt (Some i) t = Ok () \<longrightarrow> ai_IssuedAt i \<le> t \<and> t < ai_ExpiresAt i)"
  using sandbox_window_bounds [OF issue_ok(9) [OF assms]] issue_ok(9) [OF assms]
  by (auto simp: ValidateAt_def executionIntentExpiresAt_def split: if_splits)

theorem intent_window_witness:
  "\<exists>i. IssueExecutionIntent w_guardian (Some w_signed) (Some w_sandbox_effect) = Ok i \<and> ai_ExpiresAt i \<le> 62135596860000000000"
proof -
  obtain i where i: "IssueExecutionIntent w_guardian (Some w_signed) (Some w_sandbox_effect) = Ok i" using w_issued by (auto simp: is_ok_iff)
  have "EffectType w_sandbox_effect = ''RUN_SANDBOXED_CODE''" by (simp add: w_sandbox_effect_def)
  then show ?thesis using i intent_window [OF i] by (auto simp: w_guardian_def)
qed

end
