(* ===== verification/Delegation.thy ===== *)
theory Delegation
  imports Helm_Prelude
begin

text \<open>
  Delegation sessions, \<^verbatim>\<open>core/pkg/identity/delegation.go\<close> (and the session types of
  \<^verbatim>\<open>identity/types.go\<close>): building a session, validating it, its scope, and the in-memory store with
  its used nonces. SHA-256 and the RFC 3339 rendering of an instant are parameters. The store's
  contract, as the gate that consumes sessions relies on it, is the locale \<open>delegation_store\<close>.
\<close>

section \<open>Sessions\<close>

record CapabilityGrant =
  cg_Resource :: string
  cg_Actions :: "string list"
  cg_Conditions :: "string list"

record DelegationSession =
  ds_SessionID :: string
  ds_DelegatorPrincipal :: string
  ds_DelegatePrincipal :: string
  ds_AllowedTools :: "string list"
  ds_Capabilities :: "CapabilityGrant list"
  ds_RiskCeiling :: string
  ds_SessionNonce :: string
  ds_VerifierBinding :: string
  ds_DelegationPolicyHash :: string
  ds_TrustRootRef :: string
  ds_PrincipalSeqFloor :: "64 word"
  ds_CreatedWithMFA :: bool
  ds_ExpiresAt :: gotime
  ds_CreatedAt :: gotime
  ds_SignatureEd25519 :: string

record DelegationError =
  de_Code :: string
  de_Message :: string

definition DelegationError_Error :: "DelegationError \<Rightarrow> string" where
  "DelegationError_Error e = de_Code e @ '': '' @ de_Message e"

definition invalid :: "string \<Rightarrow> DelegationError" where
  "invalid msg = \<lparr>de_Code = ''DELEGATION_INVALID'', de_Message = msg\<rparr>"

definition NewDelegationSession ::
  "string \<Rightarrow> string \<Rightarrow> string \<Rightarrow> string \<Rightarrow> string \<Rightarrow> string \<Rightarrow> 64 word \<Rightarrow> gotime \<Rightarrow> bool \<Rightarrow> gotime \<Rightarrow> DelegationSession" where
  "NewDelegationSession sessionID delegator delegate nonce policyHash trustRootRef principalSeqFloor expiresAt createdWithMFA now =
     \<lparr>ds_SessionID = sessionID, ds_DelegatorPrincipal = delegator, ds_DelegatePrincipal = delegate, ds_AllowedTools = [],
      ds_Capabilities = [], ds_RiskCeiling = [], ds_SessionNonce = nonce, ds_VerifierBinding = [],
      ds_DelegationPolicyHash = policyHash, ds_TrustRootRef = trustRootRef, ds_PrincipalSeqFloor = principalSeqFloor,
      ds_CreatedWithMFA = createdWithMFA, ds_ExpiresAt = expiresAt, ds_CreatedAt = now, ds_SignatureEd25519 = []\<rparr>"

definition AddCapability :: "CapabilityGrant \<Rightarrow> DelegationSession \<Rightarrow> DelegationSession \<times> (DelegationError, unit) res" where
  "AddCapability grant s =
     (if cg_Resource grant = [] then (s, Err (invalid ''capability grant must specify a resource''))
      else if length (cg_Actions grant) = 0 then (s, Err (invalid ''capability grant must specify at least one action''))
      else (s\<lparr>ds_Capabilities := ds_Capabilities s @ [grant]\<rparr>, Ok ()))"

definition AddAllowedTool :: "string \<Rightarrow> DelegationSession \<Rightarrow> DelegationSession" where
  "AddAllowedTool toolName s = s\<lparr>ds_AllowedTools := ds_AllowedTools s @ [toolName]\<rparr>"

definition SetRiskCeiling :: "string \<Rightarrow> DelegationSession \<Rightarrow> DelegationSession" where
  "SetRiskCeiling ceiling s = s\<lparr>ds_RiskCeiling := ceiling\<rparr>"

definition BindVerifier :: "(string \<Rightarrow> byte list) \<Rightarrow> string \<Rightarrow> DelegationSession \<Rightarrow> DelegationSession" where
  "BindVerifier sha verifier s = s\<lparr>ds_VerifierBinding := hex_EncodeToString (sha verifier)\<rparr>"

section \<open>Validation and scope\<close>

text \<open>\<open>nonceChecker\<close> is \<open>None\<close> for a nil function; \<open>fmt\<close> renders the expiry for the message.\<close>

definition ValidateSession ::
  "(string \<Rightarrow> byte list) \<Rightarrow> (gotime \<Rightarrow> string) \<Rightarrow> DelegationSession option \<Rightarrow> string \<Rightarrow> gotime \<Rightarrow> (string \<Rightarrow> bool) option \<Rightarrow>
   (DelegationError, unit) res" where
  "ValidateSession sha fmt session verifier now nonceChecker =
     (case session of
        None \<Rightarrow> Err (invalid ''delegation session is nil'')
      | Some s \<Rightarrow>
          if ds_SessionID s = [] \<or> ds_DelegatorPrincipal s = [] \<or> ds_DelegatePrincipal s = [] then
            Err (invalid ''session missing required identity fields'')
          else if now > ds_ExpiresAt s then Err (invalid (''session expired at '' @ fmt (ds_ExpiresAt s)))
          else if ds_SessionNonce s = [] then Err (invalid ''session nonce is required'')
          else if (case nonceChecker of None \<Rightarrow> False | Some used \<Rightarrow> used (ds_SessionNonce s)) then
            Err (invalid ''session nonce has been replayed'')
          else if ds_VerifierBinding s \<noteq> [] \<and> verifier = [] then Err (invalid ''verifier required for bound session'')
          else if ds_VerifierBinding s \<noteq> [] \<and> ds_VerifierBinding s \<noteq> hex_EncodeToString (sha verifier) then
            Err (invalid ''verifier binding mismatch'')
          else if ds_DelegationPolicyHash s = [] then Err (invalid ''delegation policy hash is required'')
          else Ok ())"

definition IsToolAllowed :: "DelegationSession \<Rightarrow> string \<Rightarrow> bool" where
  "IsToolAllowed s toolName = (if length (ds_AllowedTools s) = 0 then False else list_ex (\<lambda>t. t = toolName) (ds_AllowedTools s))"

definition IsActionAllowed :: "DelegationSession \<Rightarrow> string \<Rightarrow> string \<Rightarrow> bool" where
  "IsActionAllowed s resource action =
     list_ex (\<lambda>c. cg_Resource c = resource \<and> list_ex (\<lambda>a. a = action) (cg_Actions c)) (ds_Capabilities s)"

definition EffectiveTools :: "DelegationSession \<Rightarrow> string list \<Rightarrow> string list" where
  "EffectiveTools s available =
     (if length (ds_AllowedTools s) = 0 then [] else filter (\<lambda>t. t \<in> set (ds_AllowedTools s)) available)"

section \<open>The in-memory store\<close>

record InMemoryDelegationStore =
  sessions :: "(string, DelegationSession) gomap"
  revoked :: "(string, bool) gomap"
  nonces :: "(string, bool) gomap"

definition NewInMemoryDelegationStore :: InMemoryDelegationStore where
  "NewInMemoryDelegationStore = \<lparr>sessions = [], revoked = [], nonces = []\<rparr>"

text \<open>Reading a Go \<^verbatim>\<open>map[string]bool\<close> yields false for an absent key.\<close>

definition flag :: "(string, bool) gomap \<Rightarrow> string \<Rightarrow> bool" where
  "flag m k = (case map_of m k of None \<Rightarrow> False | Some b \<Rightarrow> b)"

definition Store_session :: "DelegationSession \<Rightarrow> InMemoryDelegationStore \<Rightarrow> InMemoryDelegationStore" where
  "Store_session session s = s\<lparr>sessions := AList.update (ds_SessionID session) session (sessions s)\<rparr>"

definition Load_session :: "string \<Rightarrow> InMemoryDelegationStore \<Rightarrow> (DelegationError, DelegationSession option) res" where
  "Load_session sessionID s =
     (if flag (revoked s) sessionID then Err (invalid ''session has been revoked'')
      else Ok (map_of (sessions s) sessionID))"

definition Revoke_session :: "string \<Rightarrow> InMemoryDelegationStore \<Rightarrow> InMemoryDelegationStore" where
  "Revoke_session sessionID s = s\<lparr>revoked := AList.update sessionID True (revoked s)\<rparr>"

definition IsNonceUsed :: "InMemoryDelegationStore \<Rightarrow> string \<Rightarrow> bool" where
  "IsNonceUsed s nonce = flag (nonces s) nonce"

definition MarkNonceUsed :: "string \<Rightarrow> InMemoryDelegationStore \<Rightarrow> InMemoryDelegationStore" where
  "MarkNonceUsed nonce s = s\<lparr>nonces := AList.update nonce True (nonces s)\<rparr>"

section \<open>The contract of a store\<close>

datatype store_op = OpStore DelegationSession | OpRevoke string | OpMark string

fun store_step ::
  "(DelegationSession \<Rightarrow> 's \<Rightarrow> 's) \<Rightarrow> (string \<Rightarrow> 's \<Rightarrow> 's) \<Rightarrow> (string \<Rightarrow> 's \<Rightarrow> 's) \<Rightarrow> store_op \<Rightarrow> 's \<Rightarrow> 's" where
  "store_step st rv mk (OpStore d) s = st d s"
| "store_step st rv mk (OpRevoke i) s = rv i s"
| "store_step st rv mk (OpMark n) s = mk n s"

locale delegation_store =
  fixes st :: "DelegationSession \<Rightarrow> 's \<Rightarrow> 's"
    and ld :: "string \<Rightarrow> 's \<Rightarrow> (DelegationError, DelegationSession option) res"
    and rv mk :: "string \<Rightarrow> 's \<Rightarrow> 's"
    and used :: "'s \<Rightarrow> string \<Rightarrow> bool"
  assumes mark_used: "used (mk n s) n"
    and used_stays: "used s n \<Longrightarrow> used (store_step st rv mk op s) n"
    and revoke_load: "\<not> is_ok (ld i (rv i s))"
    and revoked_stays: "\<not> is_ok (ld i s) \<Longrightarrow> \<not> is_ok (ld i (store_step st rv mk op s))"
begin

lemma used_forever: "used s n \<Longrightarrow> used (fold (store_step st rv mk) ops s) n"
  by (induction ops arbitrary: s) (auto intro: used_stays)

lemma revoked_forever: "\<not> is_ok (ld i s) \<Longrightarrow> \<not> is_ok (ld i (fold (store_step st rv mk) ops s))"
  by (induction ops arbitrary: s) (use revoked_stays in auto)

lemma burnt_nonce_refused:
  "ds_SessionNonce d = n \<Longrightarrow>
   \<not> is_ok (ValidateSession sha fmt (Some d) v now (Some (used (fold (store_step st rv mk) ops (mk n s)))))"
  using used_forever [OF mark_used] by (simp add: ValidateSession_def)

lemma revoked_session_refused: "\<not> is_ok (ld i (fold (store_step st rv mk) ops (rv i s)))"
  by (rule revoked_forever [OF revoke_load])

end

lemma flag_update [simp]: "flag (AList.update k v m) k' = (if k' = k then v else flag m k')"
  by (simp add: flag_def)

interpretation mem_store: delegation_store Store_session Load_session Revoke_session MarkNonceUsed IsNonceUsed
proof
  show "IsNonceUsed s n \<Longrightarrow> IsNonceUsed (store_step Store_session Revoke_session MarkNonceUsed op s) n" for s n op
    by (cases op) (auto simp: IsNonceUsed_def Store_session_def Revoke_session_def MarkNonceUsed_def)
  show "\<not> is_ok (Load_session i s) \<Longrightarrow> \<not> is_ok (Load_session i (store_step Store_session Revoke_session MarkNonceUsed op s))" for i s op
    by (cases op) (auto split: if_splits simp: Load_session_def Store_session_def Revoke_session_def MarkNonceUsed_def)
qed (auto simp: IsNonceUsed_def MarkNonceUsed_def Load_session_def Revoke_session_def)

section \<open>Properties\<close>

lemma validate_session_ok:
  "ValidateSession sha fmt (Some s) verifier now nc = Ok () \<longleftrightarrow>
     ds_SessionID s \<noteq> [] \<and> ds_DelegatorPrincipal s \<noteq> [] \<and> ds_DelegatePrincipal s \<noteq> [] \<and> now \<le> ds_ExpiresAt s \<and>
     ds_SessionNonce s \<noteq> [] \<and> (case nc of None \<Rightarrow> True | Some used \<Rightarrow> \<not> used (ds_SessionNonce s)) \<and>
     (ds_VerifierBinding s = [] \<or> verifier \<noteq> [] \<and> ds_VerifierBinding s = hex_EncodeToString (sha verifier)) \<and>
     ds_DelegationPolicyHash s \<noteq> []"
  by (auto simp: ValidateSession_def split: option.splits)

text \<open>
  Sessions are single-use and revocation is final. Once a nonce is marked, whatever sessions are
  stored, revoked or marked afterwards, every session carrying this nonce fails validation against
  the store, also one stored anew; once a session is revoked, no later operation makes it loadable
  again, not even storing a session with its identifier.
\<close>
theorem delegation_single_use:
  "\<not> is_ok (ValidateSession sha fmt (Some (d\<lparr>ds_SessionNonce := n\<rparr>)) verifier now
      (Some (IsNonceUsed (fold (store_step Store_session Revoke_session MarkNonceUsed) ops (MarkNonceUsed n s))))) \<and>
   \<not> is_ok (Load_session i (fold (store_step Store_session Revoke_session MarkNonceUsed) ops (Revoke_session i s)))"
  using mem_store.burnt_nonce_refused [of "d\<lparr>ds_SessionNonce := n\<rparr>" n] mem_store.revoked_session_refused by simp

end
