(* ===== verification/Observation.thy ===== *)
theory Observation
  imports Helm_Prelude
begin

text \<open>
  Observed assumptions, \<^verbatim>\<open>core/pkg/contracts/observation.go\<close>: the shape check, the seal and the
  validity window. The digest of the canonical JSON and Go's \<^verbatim>\<open>%q\<close> quoting are parameters.
\<close>

record ObservedAssumption =
  oa_AssumptionID :: string
  oa_Subject :: string
  oa_ObservationType :: string
  oa_ContentHash :: string
  oa_CapturedAt :: gotime
  oa_TTLSeconds :: int
  oa_AssumptionHash :: string

definition zero_assumption :: ObservedAssumption where
  "zero_assumption = \<lparr>oa_AssumptionID = [], oa_Subject = [], oa_ObservationType = [], oa_ContentHash = [],
     oa_CapturedAt = 0, oa_TTLSeconds = 0, oa_AssumptionHash = []\<rparr>"

definition observationTypes :: string where
  "observationTypes = ''dom_snapshot accessibility_tree screenshot api_response''"

text \<open>\<^verbatim>\<open>strings.HasPrefix\<close> and \<^verbatim>\<open>strings.Contains\<close>.\<close>

fun HasPrefix :: "string \<Rightarrow> string \<Rightarrow> bool" where
  "HasPrefix s [] = True"
| "HasPrefix [] (p # ps) = False"
| "HasPrefix (c # s) (p # ps) = (c = p \<and> HasPrefix s ps)"

fun Contains_str :: "string \<Rightarrow> string \<Rightarrow> bool" where
  "Contains_str [] sub = (sub = [])"
| "Contains_str (c # s) sub = (HasPrefix (c # s) sub \<or> Contains_str s sub)"

definition oa_Validate :: "(string \<Rightarrow> string) \<Rightarrow> ObservedAssumption \<Rightarrow> (string, unit) res" where
  "oa_Validate q a =
     (if blank (oa_AssumptionID a) then Err ''observed assumption requires assumption_id''
      else if blank (oa_Subject a) then Err (''observed assumption '' @ q (oa_AssumptionID a) @ '' requires subject'')
      else if \<not> Contains_str observationTypes (oa_ObservationType a) \<or> oa_ObservationType a = [] then
        Err (''observed assumption '' @ q (oa_AssumptionID a) @ '' has unknown observation_type '' @ q (oa_ObservationType a))
      else if \<not> HasPrefix (oa_ContentHash a) ''sha256:'' \<or> length (oa_ContentHash a) \<noteq> length ''sha256:'' + 64 then
        Err (''observed assumption '' @ q (oa_AssumptionID a) @ '' requires a sha256: content_hash'')
      else if oa_CapturedAt a = 0 then Err (''observed assumption '' @ q (oa_AssumptionID a) @ '' requires captured_at'')
      else if oa_TTLSeconds a < 0 then Err (''observed assumption '' @ q (oa_AssumptionID a) @ '' has negative ttl_seconds'')
      else Ok ())"

definition oa_Seal :: "(ObservedAssumption \<Rightarrow> (string, string) res) \<Rightarrow> ObservedAssumption \<Rightarrow> ObservedAssumption \<times> (string, unit) res" where
  "oa_Seal hashJCS a =
     (let a = a\<lparr>oa_AssumptionHash := []\<rparr> in
      case hashJCS a of
        Inl e \<Rightarrow> (a, Err (''sealing observed assumption: '' @ e))
      | Inr h \<Rightarrow> (a\<lparr>oa_AssumptionHash := h\<rparr>, Ok ()))"

definition oa_ExpiresAt :: "ObservedAssumption \<Rightarrow> gotime" where
  "oa_ExpiresAt a = oa_CapturedAt a + wrap64 (oa_TTLSeconds a * second)"

definition oa_Expired :: "ObservedAssumption \<Rightarrow> gotime \<Rightarrow> bool" where
  "oa_Expired a now = (\<not> now < oa_ExpiresAt a)"

section \<open>Lemmas\<close>

lemma zero_ttl_expired: "oa_TTLSeconds a = 0 \<Longrightarrow> oa_CapturedAt a \<le> now \<Longrightarrow> oa_Expired a now"
  by (simp add: oa_Expired_def oa_ExpiresAt_def int64_def min_int64_def max_int64_def)

text \<open>
  For every window up to 292 years the bound is exact; a longer one wraps in the 64-bit duration, and
  the observation then counts as expired earlier than it says, never later than 292 years.
\<close>

lemma expired_iff:
  assumes "0 \<le> oa_TTLSeconds a" "oa_TTLSeconds a \<le> 9223372036"
  shows "oa_Expired a now \<longleftrightarrow> oa_CapturedAt a + oa_TTLSeconds a * second \<le> now"
  using assms by (auto simp: oa_Expired_def oa_ExpiresAt_def int64_def min_int64_def max_int64_def second_def)

lemma expiry_bounded: "oa_ExpiresAt a \<le> oa_CapturedAt a + max_int64"
  using wrap64_range [of "oa_TTLSeconds a * second"] by (simp add: oa_ExpiresAt_def int64_def)

text \<open>
  The type check tests for a substring of the list of types, so it admits names that are no type.
\<close>

lemma observation_type_not_checked:
  "oa_Validate q a = Ok () \<Longrightarrow> oa_Validate q (a\<lparr>oa_ObservationType := ''o''\<rparr>) = Ok ()"
proof -
  have "Contains_str observationTypes ''o''" by code_simp
  then show "oa_Validate q a = Ok () \<Longrightarrow> oa_Validate q (a\<lparr>oa_ObservationType := ''o''\<rparr>) = Ok ()"
    by (simp add: oa_Validate_def split: if_splits)
qed

end
