(* ===== verification/Privilege.thy ===== *)
theory Privilege
  imports Helm_Prelude
begin

text \<open>
  Privilege tiers, \<^verbatim>\<open>core/pkg/guardian/privilege.go\<close>: the tier an effect requires, the downgrade by
  behavioural trust, and the static resolver. Tiers are the source's integers.
\<close>

type_synonym PrivilegeTier = int

definition TierRestricted :: PrivilegeTier where "TierRestricted = 0"
definition TierStandard :: PrivilegeTier where "TierStandard = 1"
definition TierElevated :: PrivilegeTier where "TierElevated = 2"
definition TierSystem :: PrivilegeTier where "TierSystem = 3"

definition Tier_String :: "PrivilegeTier \<Rightarrow> string" where
  "Tier_String t =
     (if t = TierRestricted then ''RESTRICTED''
      else if t = TierStandard then ''STANDARD''
      else if t = TierElevated then ''ELEVATED''
      else if t = TierSystem then ''SYSTEM''
      else ''UNKNOWN('' @ dec_of_int t @ '')'')"

definition EffectTierMap :: "(string, PrivilegeTier) gomap" where
  "EffectTierMap =
     [(''SEND_EMAIL'', TierStandard), (''SEND_CHAT_MESSAGE'', TierStandard), (''CREATE_TASK'', TierStandard),
      (''COMMENT_TICKET'', TierStandard), (''UPDATE_DOC'', TierStandard), (''EXECUTE_TOOL'', TierStandard),
      (''SOFTWARE_PUBLISH'', TierElevated), (''CI_CREDENTIAL_ACCESS'', TierElevated), (''CLOUD_COMPUTE_BUDGET'', TierElevated),
      (''EXECUTE_PAYMENT'', TierElevated), (''FILE_WRITE'', TierElevated),
      (''INFRA_DESTROY'', TierSystem), (''ENV_RECREATE'', TierSystem), (''PROTECTED_INFRA_STRUCTURE'', TierSystem),
      (''TUNNEL_START'', TierSystem)]"

definition RequiredTierForEffect :: "string \<Rightarrow> PrivilegeTier" where
  "RequiredTierForEffect effectType = (case map_of EffectTierMap effectType of Some tier \<Rightarrow> tier | None \<Rightarrow> TierStandard)"

definition EffectiveTier :: "PrivilegeTier \<Rightarrow> string \<Rightarrow> PrivilegeTier" where
  "EffectiveTier assigned trustTier =
     (if trustTier = ''HOSTILE'' then TierRestricted
      else if trustTier = ''SUSPECT'' then (if assigned > TierStandard then TierStandard else assigned)
      else assigned)"

record StaticPrivilegeResolver =
  spr_tiers :: "(string, PrivilegeTier) gomap"
  spr_defaultTier :: PrivilegeTier

definition NewStaticPrivilegeResolver :: "PrivilegeTier \<Rightarrow> StaticPrivilegeResolver" where
  "NewStaticPrivilegeResolver defaultTier = \<lparr>spr_tiers = [], spr_defaultTier = defaultTier\<rparr>"

definition SetTier :: "string \<Rightarrow> PrivilegeTier \<Rightarrow> StaticPrivilegeResolver \<Rightarrow> StaticPrivilegeResolver" where
  "SetTier principalID tier r = r\<lparr>spr_tiers := AList.update principalID tier (spr_tiers r)\<rparr>"

definition ResolveTier :: "StaticPrivilegeResolver \<Rightarrow> string \<Rightarrow> (string, PrivilegeTier) res" where
  "ResolveTier r principalID = Ok (case map_of (spr_tiers r) principalID of Some tier \<Rightarrow> tier | None \<Rightarrow> spr_defaultTier r)"

section \<open>Lemmas\<close>

lemma required_at_least_standard: "TierStandard \<le> RequiredTierForEffect e"
  by (auto simp: RequiredTierForEffect_def EffectTierMap_def TierStandard_def TierElevated_def TierSystem_def)

lemma hostile_never_enough: "\<not> RequiredTierForEffect e \<le> EffectiveTier a ''HOSTILE''"
  using required_at_least_standard [of e] by (simp add: EffectiveTier_def TierRestricted_def TierStandard_def)

lemma downgrade_only: "0 \<le> assigned \<Longrightarrow> EffectiveTier assigned t \<le> assigned"
  by (simp add: EffectiveTier_def TierRestricted_def)

lemma suspect_capped: "EffectiveTier a ''SUSPECT'' \<le> TierStandard"
  by (simp add: EffectiveTier_def)

end
