(* ===== verification/Threat_Signal.thy ===== *)
theory Threat_Signal
  imports Contracts
begin

text \<open>
  Threat-scan evidence, \<^verbatim>\<open>core/pkg/contracts/threat_signal.go\<close>, and the choice among the results of
  several text fields (\<^verbatim>\<open>preferredThreatScanResult\<close> of \<^verbatim>\<open>guardian/interceptor.go\<close>). The scanner itself,
  \<^verbatim>\<open>core/pkg/threatscan\<close>, is a parameter of the gates that call it.
\<close>

section \<open>Scan results\<close>

record ThreatFinding =
  tf_Class :: string
  tf_Severity :: string

record SemanticThreatAssessment =
  sm_Available :: bool
  sm_ModelVersion :: string
  sm_ModelHash :: string
  sm_ExpectedModelHash :: string
  sm_FailureReason :: string
  sm_ThresholdBP :: int
  sm_MaxBP :: int
  sm_NearestClass :: string
  sm_Flagged :: bool
  sm_InputTruncated :: bool

record ThreatScanResult =
  ts_ScanID :: string
  ts_Timestamp :: gotime
  ts_SourceChannel :: string
  ts_TrustLevel :: string
  ts_MaxSeverity :: string
  ts_FindingCount :: int
  ts_Findings :: "ThreatFinding list"
  ts_RawInputHash :: string
  ts_NormalizedInputHash :: string
  ts_Semantic :: "SemanticThreatAssessment option"

text \<open>Unknown severities read as 0 from the Go map.\<close>

definition severityOrder :: "string \<Rightarrow> int" where
  "severityOrder s =
     (if s = ''LOW'' then 1 else if s = ''MEDIUM'' then 2 else if s = ''HIGH'' then 3 else if s = ''CRITICAL'' then 4 else 0)"

definition SeverityAtLeast :: "string \<Rightarrow> string \<Rightarrow> bool" where
  "SeverityAtLeast severity threshold = (severityOrder severity \<ge> severityOrder threshold)"

fun max_loop :: "string \<Rightarrow> ThreatFinding list \<Rightarrow> string" where
  "max_loop m [] = m"
| "max_loop m (f # fs) = max_loop (if severityOrder (tf_Severity f) > severityOrder m then tf_Severity f else m) fs"

definition MaxSeverityOf :: "ThreatFinding list \<Rightarrow> string" where
  "MaxSeverityOf findings = max_loop ''INFO'' findings"

definition IsTainted :: "string \<Rightarrow> bool" where
  "IsTainted t = (t = ''TAINTED'' \<or> t = ''EXTERNAL_UNTRUSTED'')"

definition ContainsHighRiskFindings :: "ThreatScanResult \<Rightarrow> bool" where
  "ContainsHighRiskFindings r = SeverityAtLeast (ts_MaxSeverity r) ''HIGH''"

section \<open>The policy view of a result\<close>

record ThreatScanRef =
  tr_ScanID :: string
  tr_MaxSeverity :: string
  tr_FindingCount :: int
  tr_TrustLevel :: string
  tr_InputHash :: string
  tr_Semantic :: "SemanticThreatAssessment option"

definition Ref :: "ThreatScanResult \<Rightarrow> ThreatScanRef" where
  "Ref r = \<lparr>tr_ScanID = ts_ScanID r, tr_MaxSeverity = ts_MaxSeverity r, tr_FindingCount = ts_FindingCount r,
     tr_TrustLevel = ts_TrustLevel r, tr_InputHash = ts_RawInputHash r, tr_Semantic = ts_Semantic r\<rparr>"

definition PolicyContext :: "ThreatScanRef \<Rightarrow> gval" where
  "PolicyContext r =
     GMap ([(''scan_id'', GStr (tr_ScanID r)), (''max_severity'', GStr (tr_MaxSeverity r)), (''finding_count'', GInt (tr_FindingCount r)),
            (''trust_level'', GStr (tr_TrustLevel r)), (''input_hash'', GStr (tr_InputHash r))] @
           (case tr_Semantic r of
              None \<Rightarrow> []
            | Some m \<Rightarrow>
                [(''semantic'', GMap [(''available'', GBool (sm_Available m)), (''model_version'', GStr (sm_ModelVersion m)),
                    (''model_hash'', GStr (sm_ModelHash m)), (''expected_model_hash'', GStr (sm_ExpectedModelHash m)),
                    (''failure_reason'', GStr (sm_FailureReason m)), (''threshold_bp'', GInt (sm_ThresholdBP m)),
                    (''max_bp'', GInt (sm_MaxBP m)), (''nearest_class'', GStr (sm_NearestClass m)),
                    (''flagged'', GBool (sm_Flagged m)), (''input_truncated'', GBool (sm_InputTruncated m))]),
                 (''semantic_available'', GBool (sm_Available m)), (''semantic_model_version'', GStr (sm_ModelVersion m)),
                 (''semantic_model_hash'', GStr (sm_ModelHash m)), (''semantic_expected_model_hash'', GStr (sm_ExpectedModelHash m)),
                 (''semantic_failure_reason'', GStr (sm_FailureReason m)), (''semantic_threshold_bp'', GInt (sm_ThresholdBP m)),
                 (''semantic_max_bp'', GInt (sm_MaxBP m)), (''semantic_nearest_class'', GStr (sm_NearestClass m)),
                 (''semantic_flagged'', GBool (sm_Flagged m)), (''semantic_input_truncated'', GBool (sm_InputTruncated m))]))"

section \<open>Choosing among results (interceptor.go)\<close>

text \<open>Go compares strings byte by byte.\<close>

fun str_less :: "string \<Rightarrow> string \<Rightarrow> bool" where
  "str_less s [] = False"
| "str_less [] (d # t) = True"
| "str_less (c # s) (d # t) = ((of_char c :: nat) < of_char d \<or> c = d \<and> str_less s t)"

definition semanticSafetyPriority :: "ThreatScanResult option \<Rightarrow> int" where
  "semanticSafetyPriority result =
     (case result of
        None \<Rightarrow> 0
      | Some r \<Rightarrow> (case ts_Semantic r of
                    None \<Rightarrow> 0
                  | Some m \<Rightarrow> if \<not> sm_Available m then 2 else if sm_InputTruncated m then 1 else 0))"

definition semanticMaxBP :: "ThreatScanResult option \<Rightarrow> int" where
  "semanticMaxBP result =
     (case result of
        None \<Rightarrow> 0
      | Some r \<Rightarrow> (case ts_Semantic r of None \<Rightarrow> 0 | Some m \<Rightarrow> if \<not> sm_Available m then 0 else sm_MaxBP m))"

definition high_risk :: "ThreatScanResult \<Rightarrow> bool" where
  "high_risk r = (IsTainted (ts_TrustLevel r) \<and> ContainsHighRiskFindings r)"

definition preferredThreatScanResult :: "ThreatScanResult option \<Rightarrow> ThreatScanResult option \<Rightarrow> ThreatScanResult option" where
  "preferredThreatScanResult current candidate =
     (case current of
        None \<Rightarrow> candidate
      | Some c \<Rightarrow>
          (case candidate of
             None \<Rightarrow> current
           | Some d \<Rightarrow>
               if high_risk c \<noteq> high_risk d then (if high_risk d then candidate else current)
               else if semanticSafetyPriority current \<noteq> semanticSafetyPriority candidate then
                 (if semanticSafetyPriority candidate > semanticSafetyPriority current then candidate else current)
               else if semanticMaxBP current \<noteq> semanticMaxBP candidate then
                 (if semanticMaxBP candidate > semanticMaxBP current then candidate else current)
               else if ts_FindingCount c \<noteq> ts_FindingCount d then
                 (if ts_FindingCount d > ts_FindingCount c then candidate else current)
               else if str_less (ts_RawInputHash d) (ts_RawInputHash c) then candidate
               else current))"

section \<open>Lemmas\<close>

lemma max_loop_ge: "severityOrder m \<le> severityOrder (max_loop m fs)"
  by (induction fs arbitrary: m) (auto intro: order_trans [OF less_imp_le])

text \<open>The overall severity of a result is at least that of each of its findings.\<close>

lemma max_loop_bounds: "f \<in> set fs \<Longrightarrow> severityOrder (tf_Severity f) \<le> severityOrder (max_loop m fs)"
proof (induction fs arbitrary: m)
  case (Cons g fs)
  show ?case
  proof (cases "f = g")
    case True
    have "severityOrder (tf_Severity g) \<le> severityOrder (if severityOrder (tf_Severity g) > severityOrder m then tf_Severity g else m)" by simp
    then show ?thesis using True max_loop_ge order_trans by (metis max_loop.simps(2))
  next
    case False
    then show ?thesis using Cons by simp
  qed
qed simp

lemma max_severity_bounds: "f \<in> set fs \<Longrightarrow> SeverityAtLeast (MaxSeverityOf fs) (tf_Severity f)"
  by (simp add: SeverityAtLeast_def MaxSeverityOf_def max_loop_bounds)

text \<open>Folding the choice over fields keeps the safest signal, whatever the order of the fields.\<close>

lemma preferred_keeps:
  "preferredThreatScanResult (Some c) (Some d) = Some e \<Longrightarrow>
   (high_risk e \<longleftrightarrow> high_risk c \<or> high_risk d) \<and>
   (high_risk c = high_risk d \<longrightarrow>
      semanticSafetyPriority (Some e) = max (semanticSafetyPriority (Some c)) (semanticSafetyPriority (Some d))) \<and> e \<in> {c, d}"
  by (auto simp: preferredThreatScanResult_def split: if_splits)

lemma preferred_some:
  assumes "preferredThreatScanResult x (Some d) = Some e"
  shows "high_risk e \<longleftrightarrow> (\<exists>c. x = Some c \<and> high_risk c) \<or> high_risk d"
proof (cases x)
  case None
  then show ?thesis using assms by (simp add: preferredThreatScanResult_def)
next
  case (Some c)
  then show ?thesis using preferred_keeps assms by blast
qed

lemma preferred_is_some: "\<exists>e. preferredThreatScanResult x (Some d) = Some e"
  by (simp add: preferredThreatScanResult_def split: option.split)

end
