(* ===== verification/Gates.thy ===== *)
theory Gates
  imports Guardian_Sign Threat_Signal Temporal Stop_Plane Boundary_Checks Delegation Observation Audit_Log
begin

text \<open>
  The boundary interceptors of the guardian, \<^verbatim>\<open>core/pkg/guardian/interceptor.go\<close>: the evaluation
  context, the chain, and the first three gates (\<^verbatim>\<open>zeroid.go\<close>, temporal, stop plane).

  An interceptor either returns a result or calls the next handler as its last act, so it is a step
  that yields \<open>Stop\<close> or \<open>Go\<close>, run in front of the next handler by \<open>run_gate\<close>. What every gate
  promises is the locale \<open>boundary_gate\<close>; each gate interprets it. Contexts are Go maps shared by
  reference; a step returns the context as later code sees it.
\<close>

section \<open>Configuration and state\<close>

record host_facts =
  h_digest :: "string \<Rightarrow> string"
  h_goos :: string
  h_goarch :: string
  h_hostname :: "string option"
  h_exe :: "string option"
  h_wd :: "string option"

record FenceState =
  fn_CommandID :: string
  fn_Epoch :: "64 word"
  fn_ReceiptHash :: string

record stop_binding =
  sb_Purpose :: string
  sb_ReasonCode :: string
  sb_ScopeHash :: string
  sb_CommandID :: string
  sb_Epoch :: "64 word"
  sb_ReceiptHash :: string

record compliance_result =
  cr_Compliant :: bool
  cr_Reason :: string
  cr_ViolatedObligations :: "string list"

text \<open>
  Parameters of the gates: what the environment answers to this call (the persisted freeze state, the
  fence reader, the host's facts, the clocks), the pluggable backends (scanner, observer, sandbox pool,
  tier resolver, compliance checker, trust score) and Go library functions (quoting, formatting, JSON).
\<close>

record ('b, 'ip, 'net) GateGuardian = "'b Guardian" +
  ge_envFprint :: string
  ge_float :: float_env
  ge_temporal_clock :: clock_reads
  ge_freeze_source :: state_source
  ge_scoped_stop :: "(PolicyScope \<Rightarrow> (string, FenceState \<times> bool) res) option"
  ge_scope_hash :: "string \<Rightarrow> string \<Rightarrow> (string, string) res"
  ge_stop_hash :: "stop_binding \<Rightarrow> (string, string) res"
  ge_host :: host_facts
  ge_panic_text :: string
  ge_scan :: "(string \<Rightarrow> string \<Rightarrow> string \<Rightarrow> ThreatScanResult) option"
  ge_thresholdBP :: int
  ge_fmt_time :: "gotime \<Rightarrow> string"
  ge_quote :: "string \<Rightarrow> string"
  ge_fmt_list :: "string list \<Rightarrow> string"
  ge_netlib :: "('ip, 'net) netlib"
  ge_int64_of_float :: "rat \<Rightarrow> int"
  ge_taint_env :: string
  ge_tainted_override :: bool
  ge_decode_assumptions :: "gval \<Rightarrow> (string, ObservedAssumption list) res"
  ge_seal :: "ObservedAssumption \<Rightarrow> (string, string) res"
  ge_observer :: "(ObservedAssumption \<Rightarrow> (string, string) res) option"
  ge_warm_pool :: "(string \<Rightarrow> (string, unit) res) option"
  ge_score :: "(string \<times> string \<times> string) list \<Rightarrow> string \<Rightarrow> rat \<times> string"
  ge_resolver :: "(string \<Rightarrow> (string, int) res) option"
  ge_compliance :: "(string \<Rightarrow> string \<Rightarrow> gctx \<Rightarrow> (string, compliance_result) res) option"
  ge_decision_json :: "DecisionRecord \<Rightarrow> string"
  ge_audit :: audit_env

text \<open>The stateful components, \<open>None\<close> where not configured.\<close>

record ('b, 'net) gate_state = "'b sign_state" +
  gs_revokedTokens :: "(string, bool) gomap"
  gs_temporal :: "TemporalGuardian option"
  gs_freeze :: "FreezeController option"
  gs_kill :: "AgentKillSwitch option"
  gs_contextGuard :: "ContextGuard option"
  gs_isolation :: "IsolationChecker option"
  gs_delegation :: "InMemoryDelegationStore option"
  gs_egress :: "'net EgressChecker option"
  gs_audit :: "AuditLog option"

record SessionRiskSnapshot =
  sr_SessionID :: string
  sr_TrajectoryRiskScore :: rat
  sr_SessionCentroidHash :: string
  sr_RiskAccumulationWindow :: int
  sr_UpdatedAt :: gotime

record EvaluationContext =
  ec_Request :: DecisionRequest
  ec_ActiveSnapshot :: "PolicySnapshot option"
  ec_PolicyVersion :: string
  ec_ActiveGraph :: "rule_graph option"
  ec_ActivePDP :: "PolicyDecisionPoint option"
  ec_Tainted :: bool
  ec_Intervention :: "InterventionMetadata option"
  ec_ThreatScanResult :: "ThreatScanResult option"
  ec_SessionRiskSnapshot :: "SessionRiskSnapshot option"
  ec_PDPBackend :: string
  ec_PDPHash :: string
  ec_PDPDecisionHash :: string
  ec_PDPAuthoritativeAllow :: bool

abbreviation ec_ctx :: "EvaluationContext \<Rightarrow> gctx" where
  "ec_ctx ec \<equiv> r_Context (ec_Request ec)"

definition set_ctx :: "gctx \<Rightarrow> EvaluationContext \<Rightarrow> EvaluationContext" where
  "set_ctx c ec = ec\<lparr>ec_Request := (ec_Request ec)\<lparr>r_Context := c\<rparr>\<rparr>"

section \<open>Handlers, gates and the chain\<close>

type_synonym 's handler = "EvaluationContext \<Rightarrow> 's \<Rightarrow> 's \<times> (guardian_error, DecisionRecord) res"

datatype gate_result = Stop "(guardian_error, DecisionRecord) res" | Go EvaluationContext

type_synonym 's gate = "EvaluationContext \<Rightarrow> 's \<Rightarrow> 's \<times> gate_result"

definition run_gate :: "'s gate \<Rightarrow> 's handler \<Rightarrow> 's handler" where
  "run_gate step next_h ec s = (case step ec s of (s', Stop r) \<Rightarrow> (s', r) | (s', Go ec') \<Rightarrow> next_h ec' s')"

definition then_gate :: "'s gate \<Rightarrow> 's gate \<Rightarrow> 's gate" where
  "then_gate a b ec s = (case a ec s of (s', Stop r) \<Rightarrow> (s', Stop r) | (s', Go ec') \<Rightarrow> b ec' s')"

text \<open>\<^verbatim>\<open>InterceptorChain.Execute\<close>: each interceptor gets the rest of the chain as its next handler.\<close>

fun Execute_chain :: "('s handler \<Rightarrow> 's handler) list \<Rightarrow> 's handler \<Rightarrow> 's handler" where
  "Execute_chain [] finalHandler = finalHandler"
| "Execute_chain (i # is) finalHandler = i (Execute_chain is finalHandler)"

section \<open>Signing in a gate\<close>

definition signDecisionWithContext ::
  "('b, 'x) Guardian_scheme \<Rightarrow> EvaluationContext \<Rightarrow> DecisionRecord \<Rightarrow> (guardian_error, DecisionRecord) res" where
  "signDecisionWithContext g ec d =
     (case bindDecisionRequest (ec_Request ec) d of
        Inl e \<Rightarrow> Err e
      | Inr d \<Rightarrow>
          (let d = (case ec_ThreatScanResult ec of None \<Rightarrow> d | Some r \<Rightarrow> d\<lparr>d_ThreatScan := Some (PolicyContext (Ref r))\<rparr>)
           in SignDecision_with g (bindRuntimePolicyDecision (ec_ActiveSnapshot ec) (ec_PolicyVersion ec) d)))"

definition new_decision :: "('b, 'x) Guardian_scheme \<Rightarrow> string \<Rightarrow> string \<Rightarrow> string \<Rightarrow> string \<Rightarrow> DecisionRecord" where
  "new_decision g site verdict code why =
     zero_decision\<lparr>d_ID := ''dec-'' @ g_rnd g site, d_Timestamp := g_clk g site, d_Verdict := verdict,
       d_ReasonCode := code, d_Reason := why\<rparr>"

definition append_audit ::
  "('b, 'ip, 'net, 'x) GateGuardian_scheme \<Rightarrow> string \<Rightarrow> DecisionRecord \<Rightarrow> ('b, 'net, 'y) gate_state_scheme \<Rightarrow>
   ('b, 'net, 'y) gate_state_scheme \<times> (audit_error, unit) res" where
  "append_audit g action d s =
     (case gs_audit s of
        None \<Rightarrow> (s, Ok ())
      | Some l \<Rightarrow>
          (case Audit_Append (ge_audit g) (g_clk g ''audit'') ''guardian'' action (d_ID d) (ge_decision_json g d) l of
             (l', Inl e) \<Rightarrow> (s\<lparr>gs_audit := Some l'\<rparr>, Err e)
           | (l', Inr _) \<Rightarrow> (s\<lparr>gs_audit := Some l'\<rparr>, Ok ())))"

text \<open>The three ways a gate ends: sign; sign and audit (the audit's error is dropped); sign and record an event.\<close>

definition stop_signed ::
  "('b, 'x) Guardian_scheme \<Rightarrow> EvaluationContext \<Rightarrow> DecisionRecord \<Rightarrow> 's \<Rightarrow> 's \<times> gate_result" where
  "stop_signed g ec d s = (s, Stop (signDecisionWithContext g ec d))"

definition stop_audited ::
  "('b, 'ip, 'net, 'x) GateGuardian_scheme \<Rightarrow> EvaluationContext \<Rightarrow> string \<Rightarrow> DecisionRecord \<Rightarrow> ('b, 'net, 'y) gate_state_scheme \<Rightarrow>
   ('b, 'net, 'y) gate_state_scheme \<times> gate_result" where
  "stop_audited g ec action d s =
     (case signDecisionWithContext g ec d of
        Inl e \<Rightarrow> (s, Stop (Err e))
      | Inr d' \<Rightarrow> (fst (append_audit g action d' s), Stop (Ok d')))"

definition stop_event ::
  "('b, 'x) Guardian_scheme \<Rightarrow> EvaluationContext \<Rightarrow> string \<Rightarrow> string \<Rightarrow> DecisionRecord \<Rightarrow> ('b, 'y) sign_state_scheme \<Rightarrow>
   ('b, 'y) sign_state_scheme \<times> gate_result" where
  "stop_event g ec ty why d s =
     (case signDecisionWithContext g ec d of
        Inl e \<Rightarrow> (s, Stop (Err e))
      | Inr d' \<Rightarrow> (recordBehavioralEvent g (r_Principal (ec_Request ec)) ty why s, Stop (Ok d')))"

definition envFP :: "('b, 'ip, 'net, 'x) GateGuardian_scheme \<Rightarrow> string" where
  "envFP g = (if ge_envFprint g = [] then ''sha256:unconfigured'' else ge_envFprint g)"

text \<open>
  The effect of a request and the request's context afterwards: the parameters are the context's own
  map, so naming the tool shows in both, unless there was no map.
\<close>

definition request_effect :: "('b, 'x) Guardian_scheme \<Rightarrow> string \<Rightarrow> DecisionRequest \<Rightarrow> Effect \<times> gctx" where
  "request_effect g site req =
     (let ctx = r_Context req;
          params = (if r_Action req = ''EXECUTE_TOOL'' then ctx_put ctx ''tool_name'' (GStr (r_Resource req)) else ctx)
      in (Effect (''eff-'' @ g_rnd g (site @ '' effect'')) (r_Action req) params [] [] [] None False [] []
            (TaintLabelsFromContext (de_ul (g_digest g)) ctx),
          if ctx = None then None else params))"

section \<open>ZeroID envelopes (zeroid.go)\<close>

definition IngestCAEPRevocation :: "string \<Rightarrow> ('b, 'net, 'y) gate_state_scheme \<Rightarrow> ('b, 'net, 'y) gate_state_scheme" where
  "IngestCAEPRevocation tokenHash s = s\<lparr>gs_revokedTokens := AList.update tokenHash True (gs_revokedTokens s)\<rparr>"

definition denyWithReason ::
  "('b, 'ip, 'net, 'x) GateGuardian_scheme \<Rightarrow> EvaluationContext \<Rightarrow> string \<Rightarrow> string \<Rightarrow> ('b, 'net, 'y) gate_state_scheme \<Rightarrow>
   ('b, 'net, 'y) gate_state_scheme \<times> gate_result" where
  "denyWithReason g ec code why s =
     stop_audited g ec ''ZEROID_DENY''
       ((new_decision g ''zeroid'' VerdictDeny code (''ZeroID validation failed: '' @ why))
          \<lparr>d_EnvFingerprint := envFP g, d_InputContext := ec_ctx ec\<rparr>) s"

definition zeroid_gate :: "('b, 'ip, 'net, 'x) GateGuardian_scheme \<Rightarrow> ('b, 'net, 'y) gate_state_scheme gate" where
  "zeroid_gate g ec s =
     (let token = or_empty (ctx_str (ec_ctx ec) ''zeroid_token'');
          spiffeURI = or_empty (ctx_str (ec_ctx ec) ''spiffe_uri'')
      in if token = [] \<and> spiffeURI = [] then (s, Go ec)
         else if token \<noteq> [] \<and> flag (gs_revokedTokens s) token then
           denyWithReason g ec ''TAINTED_CREDENTIAL_ACCESS_DENY'' ''ZeroID token has been dynamically revoked via CAEP'' s
         else if spiffeURI \<noteq> [] \<and> \<not> HasPrefix spiffeURI ''spiffe://'' then
           denyWithReason g ec ''IDENTITY_ISOLATION_VIOLATION'' ''Invalid SPIFFE URI format'' s
         else denyWithReason g ec ''IDENTITY_ISOLATION_VIOLATION''
           ''ZeroID credential presented but no verification is possible; refusing to bind an unverified principal'' s)"

section \<open>The temporal gate\<close>

definition responseToIntervention :: "ResponseLevel \<Rightarrow> string" where
  "responseToIntervention level =
     (if level = ResponseInterrupt then ''INTERRUPT''
      else if level = ResponseQuarantine then ''QUARANTINE''
      else if level = ResponseFailClosed then ''QUARANTINE''
      else ''NONE'')"

definition temporal_gate :: "('b, 'ip, 'net, 'x) GateGuardian_scheme \<Rightarrow> ('b, 'net, 'y) gate_state_scheme gate" where
  "temporal_gate g ec s =
     (case gs_temporal s of
        None \<Rightarrow> (s, Go ec)
      | Some tg \<Rightarrow>
          (case Evaluate (ge_float g) (ge_temporal_clock g) tg of (tg', resp) \<Rightarrow>
             (let s = s\<lparr>gs_temporal := Some tg'\<rparr> in
              if gr_Level resp \<ge> ResponseInterrupt then
                (let intervention = \<lparr>iv_Type = responseToIntervention (gr_Level resp), iv_ReasonCode = ''TEMPORAL_INTERVENTION'',
                       iv_WaitDuration = gr_Duration resp, iv_TokensSaved = 0\<rparr>;
                     (effect, inputContext) = request_effect g ''temporal'' (ec_Request ec)
                 in case CanonicalEffectDigest (g_digest g) (Some effect) of
                      Inl e \<Rightarrow> (s, Stop (Err (EffectDigestError e)))
                    | Inr effectDigest \<Rightarrow>
                        stop_audited g ec ''DECISION_MADE''
                          ((new_decision g ''temporal'' VerdictEscalate ''TEMPORAL_INTERVENTION''
                              (''Temporal Intervention: '' @ iv_Type intervention @ '' ('' @ iv_ReasonCode intervention @ '')''))
                             \<lparr>d_Intervention := Some intervention, d_EffectDigest := effectDigest, d_InputContext := inputContext,
                              d_EnvFingerprint := envFP g, d_PolicyVersion := ec_PolicyVersion ec\<rparr>) s)
              else if gr_Level resp = ResponseThrottle then
                (s, Go (ec\<lparr>ec_Intervention := Some \<lparr>iv_Type = ''THROTTLE'', iv_ReasonCode = ''TEMPORAL_THROTTLE'',
                                                iv_WaitDuration = gr_Duration resp, iv_TokensSaved = 0\<rparr>\<rparr>))
              else (s, Go ec))))"

section \<open>The stop-plane gates (FreezeInterceptor)\<close>

definition freeze_gate :: "('b, 'ip, 'net, 'x) GateGuardian_scheme \<Rightarrow> ('b, 'net, 'y) gate_state_scheme gate" where
  "freeze_gate g ec s =
     (case gs_freeze s of
        None \<Rightarrow> (s, Go ec)
      | Some fc \<Rightarrow>
          (case IsFrozen (ge_freeze_source g) fc of (fc', fz) \<Rightarrow>
             (let s = s\<lparr>gs_freeze := Some fc'\<rparr> in
              if fz then stop_signed g ec (new_decision g ''freeze'' VerdictDeny ''SYSTEM_FROZEN'' ''SYSTEM_FROZEN'') s
              else (s, Go ec))))"

definition scopedStopDecisionBinding ::
  "('b, 'ip, 'net, 'x) GateGuardian_scheme \<Rightarrow> gctx \<Rightarrow> string \<Rightarrow> FenceState option \<Rightarrow> (string, gctx \<times> string) res" where
  "scopedStopDecisionBinding g requestContext code state =
     (let tenantID = or_empty (stringContextValue requestContext [''tenant_id'', ''tenantId'', ''tenant'']);
          workspaceID = or_empty (stringContextValue requestContext [''workspace_id'', ''workspaceId'', ''workspace''])
      in case ge_scope_hash g tenantID workspaceID of
           Inl e \<Rightarrow> Err e
         | Inr scopeHash \<Rightarrow>
             (let binding = \<lparr>sb_Purpose = ''emergency-stop-denial.v1'', sb_ReasonCode = code, sb_ScopeHash = scopeHash,
                    sb_CommandID = [], sb_Epoch = 0, sb_ReceiptHash = []\<rparr>;
                  binding = (case state of None \<Rightarrow> binding
                    | Some st \<Rightarrow> binding\<lparr>sb_CommandID := fn_CommandID st, sb_Epoch := fn_Epoch st, sb_ReceiptHash := fn_ReceiptHash st\<rparr>);
                  inputContext = [(''emergency_stop_scope_hash'', GStr scopeHash), (''emergency_stop_reason_code'', GStr code)] @
                    (case state of None \<Rightarrow> []
                     | Some st \<Rightarrow> [(''emergency_stop_command_id'', GStr (fn_CommandID st)),
                                   (''emergency_stop_epoch'', GInt (uint (fn_Epoch st))),
                                   (''emergency_stop_receipt_hash'', GStr (fn_ReceiptHash st))])
              in case ge_stop_hash g binding of Inl e \<Rightarrow> Err e | Inr h \<Rightarrow> Ok (Some inputContext, h)))"

definition scopedStopDeny ::
  "('b, 'ip, 'net, 'x) GateGuardian_scheme \<Rightarrow> EvaluationContext \<Rightarrow> string \<Rightarrow> string \<Rightarrow> FenceState option \<Rightarrow> 's \<Rightarrow> 's \<times> gate_result" where
  "scopedStopDeny g ec code why state s =
     (case scopedStopDecisionBinding g (ec_ctx ec) code state of
        Inl e \<Rightarrow> (s, Stop (Err (GateError e)))
      | Inr (inputContext, effectDigest) \<Rightarrow>
          stop_signed g ec ((new_decision g ''scoped stop'' VerdictDeny code why)
            \<lparr>d_EffectDigest := effectDigest, d_InputContext := inputContext\<rparr>) s)"

definition scoped_stop_gate :: "('b, 'ip, 'net, 'x) GateGuardian_scheme \<Rightarrow> 's gate" where
  "scoped_stop_gate g ec s =
     (case ge_scoped_stop g of
        None \<Rightarrow> (s, Go ec)
      | Some isFenced \<Rightarrow>
          (case (stringContextValue (ec_ctx ec) [''tenant_id'', ''tenantId'', ''tenant''],
                 stringContextValue (ec_ctx ec) [''workspace_id'', ''workspaceId'', ''workspace'']) of
             (Some tenantID, Some workspaceID) \<Rightarrow>
               (case isFenced (tenantID, workspaceID) of
                  Inl e \<Rightarrow> scopedStopDeny g ec ''EMERGENCY_STOP_UNVERIFIED''
                    ''Scoped emergency-stop status is unavailable; denying dispatch.'' None s
                | Inr (state, fenced) \<Rightarrow>
                    if fenced then scopedStopDeny g ec ''EMERGENCY_STOP_FENCED''
                      (''Scoped emergency-stop fence is active at epoch '' @ dec_of_nat (unat (fn_Epoch state)) @ ''.'') (Some state) s
                    else (s, Go ec))
           | _ \<Rightarrow> scopedStopDeny g ec ''EMERGENCY_STOP_SCOPE_REQUIRED''
               ''Tenant and workspace scope are required while emergency-stop fencing is enabled.'' None s))"

definition kill_gate :: "('b, 'ip, 'net, 'x) GateGuardian_scheme \<Rightarrow> ('b, 'net, 'y) gate_state_scheme gate" where
  "kill_gate g ec s =
     (case gs_kill s of
        None \<Rightarrow> (s, Go ec)
      | Some k \<Rightarrow>
          if IsKilled k (r_Principal (ec_Request ec)) then
            stop_signed g ec (new_decision g ''kill'' VerdictDeny ''AGENT_KILLED'' ''AGENT_KILLED'') s
          else (s, Go ec))"

text \<open>\<^verbatim>\<open>fmt\<close> catches the panic of the error's text and prints a replacement, a parameter.\<close>

definition context_gate :: "('b, 'ip, 'net, 'x) GateGuardian_scheme \<Rightarrow> ('b, 'net, 'y) gate_state_scheme gate" where
  "context_gate g ec s =
     (case gs_contextGuard s of
        None \<Rightarrow> (s, Go ec)
      | Some cg \<Rightarrow>
          (let h = ge_host g in
           case ValidateCurrent (h_digest h) (h_goos h) (h_goarch h) (h_hostname h) (h_exe h) (h_wd h) (g_clk g ''context'') cg of
             (cg', Inl err) \<Rightarrow>
               stop_signed g ec (new_decision g ''context'' VerdictDeny ''CONTEXT_MISMATCH''
                 (''CONTEXT_MISMATCH: '' @ (case ContextMismatch_Error err of None \<Rightarrow> ge_panic_text g | Some t \<Rightarrow> t)))
                 (s\<lparr>gs_contextGuard := Some cg'\<rparr>)
           | (cg', Inr _) \<Rightarrow> (s\<lparr>gs_contextGuard := Some cg'\<rparr>, Go ec)))"

definition stop_plane_gate :: "('b, 'ip, 'net, 'x) GateGuardian_scheme \<Rightarrow> ('b, 'net, 'y) gate_state_scheme gate" where
  "stop_plane_gate g = then_gate (freeze_gate g) (then_gate (scoped_stop_gate g) (then_gate (kill_gate g) (context_gate g)))"

section \<open>The contract of a gate\<close>

definition same_request :: "EvaluationContext \<Rightarrow> EvaluationContext \<Rightarrow> bool" where
  "same_request ec ec' \<longleftrightarrow>
     r_Principal (ec_Request ec') = r_Principal (ec_Request ec) \<and> r_Action (ec_Request ec') = r_Action (ec_Request ec) \<and>
     r_Resource (ec_Request ec') = r_Resource (ec_Request ec) \<and> ec_ActiveSnapshot ec' = ec_ActiveSnapshot ec \<and>
     ec_PolicyVersion ec' = ec_PolicyVersion ec \<and> ec_ActiveGraph ec' = ec_ActiveGraph ec \<and> ec_ActivePDP ec' = ec_ActivePDP ec \<and>
     (ec_PDPAuthoritativeAllow ec' \<longrightarrow>
        ec_PDPAuthoritativeAllow ec \<or> (\<exists>p. ec_ActivePDP ec = Some p \<and> pdp_AuthoritativeAllow p = Some True))"

lemma same_request_refl [simp]: "same_request ec ec"
  by (simp add: same_request_def)

lemma same_request_trans [trans]: "same_request a b \<Longrightarrow> same_request b c \<Longrightarrow> same_request a c"
  unfolding same_request_def by auto

lemma same_request_set_ctx [simp]: "same_request ec (set_ctx c ec') = same_request ec ec'"
  by (simp add: same_request_def set_ctx_def)

text \<open>A gate may write only its own keys of the request context.\<close>

definition ctx_kept :: "string set \<Rightarrow> gctx \<Rightarrow> gctx \<Rightarrow> bool" where
  "ctx_kept keys c c' \<longleftrightarrow> (\<forall>k. k \<notin> keys \<longrightarrow> ctx_get c' k = ctx_get c k)"

lemma ctx_kept_refl [simp]: "ctx_kept keys c c"
  by (simp add: ctx_kept_def)

lemma ctx_kept_trans: "ctx_kept K a b \<Longrightarrow> ctx_kept L b c \<Longrightarrow> ctx_kept (K \<union> L) a c"
  by (simp add: ctx_kept_def)

lemma ctx_kept_str: "ctx_kept keys c c' \<Longrightarrow> k \<notin> keys \<Longrightarrow> ctx_str c' k = ctx_str c k"
  by (simp add: ctx_kept_def ctx_str_def)

lemma ctx_kept_bool: "ctx_kept keys c c' \<Longrightarrow> k \<notin> keys \<Longrightarrow> ctx_bool c' k = ctx_bool c k"
  by (simp add: ctx_kept_def ctx_bool_def)

lemma ctx_ctx [simp]: "ec_ctx (set_ctx c ec) = c"
  by (simp add: set_ctx_def)

locale boundary_gate =
  fixes step :: "'s gate" and keys :: "string set"
  assumes stop_refuses: "step ec s = (s', Stop (Ok d)) \<Longrightarrow> d_Verdict d \<noteq> VerdictAllow"
    and go_keeps: "step ec s = (s', Go ec') \<Longrightarrow> same_request ec ec' \<and> ctx_kept keys (ec_ctx ec) (ec_ctx ec')"
begin

lemma allow_passes:
  assumes "run_gate step next_h ec s = (s', Ok d)" "d_Verdict d = VerdictAllow"
  shows "\<exists>s1 ec1. step ec s = (s1, Go ec1) \<and> same_request ec ec1 \<and> ctx_kept keys (ec_ctx ec) (ec_ctx ec1) \<and> next_h ec1 s1 = (s', Ok d)"
proof (cases "step ec s")
  case (Pair s1 r)
  then show ?thesis using assms stop_refuses [of ec s s1 d] go_keeps [of ec s s1] by (cases r) (auto simp: run_gate_def)
qed

end

lemma then_gate_go:
  "then_gate a b ec s = (s', Go ec') \<longleftrightarrow> (\<exists>s1 ec1. a ec s = (s1, Go ec1) \<and> b ec1 s1 = (s', Go ec'))"
  by (auto simp: then_gate_def split: prod.splits gate_result.splits)

lemma then_gate_contract:
  assumes "boundary_gate a K" "boundary_gate b L"
  shows "boundary_gate (then_gate a b) (K \<union> L)"
proof
  show "then_gate a b ec s = (s', Stop (Ok d)) \<Longrightarrow> d_Verdict d \<noteq> VerdictAllow" for ec s s' d
    using assms by (auto simp: then_gate_def boundary_gate_def split: prod.splits gate_result.splits)
  show "then_gate a b ec s = (s', Go ec') \<Longrightarrow> same_request ec ec' \<and> ctx_kept (K \<union> L) (ec_ctx ec) (ec_ctx ec')" for ec s s' ec'
    using assms unfolding then_gate_go boundary_gate_def by (meson ctx_kept_trans same_request_trans)
qed

section \<open>What the first gates do\<close>

lemma bind_keeps_verdict: "bindDecisionRequest q d = Ok d' \<Longrightarrow> d_Verdict d' = d_Verdict d"
  by (auto simp: bind_ok)

lemma runtime_keeps_verdict: "d_Verdict (bindRuntimePolicyDecision snap v d) = d_Verdict d"
  by (simp add: bindRuntimePolicyDecision_def Let_def split: option.split)

lemma sign_context_verdict: "signDecisionWithContext g ec d = Ok d' \<Longrightarrow> d_Verdict d' = d_Verdict d"
  by (auto simp: signDecisionWithContext_def Let_def runtime_keeps_verdict bind_keeps_verdict
      dest!: sign_with_keeps split: sum.splits option.splits)

lemma new_decision_verdict [simp]: "d_Verdict (new_decision g site v c r) = v"
  by (simp add: new_decision_def)

lemma stop_never_go [simp]:
  "stop_signed g ec d s \<noteq> (s', Go ec')" "stop_audited h ec a d t \<noteq> (t', Go ec')" "stop_event g ec ty r d u \<noteq> (u', Go ec')"
  by (auto simp: stop_signed_def stop_audited_def stop_event_def split: sum.splits)

lemma stop_verdict:
  "stop_signed g ec d s = (s', Stop (Ok d')) \<Longrightarrow> d_Verdict d' = d_Verdict d"
  "stop_audited h ec a d t = (t', Stop (Ok d')) \<Longrightarrow> d_Verdict d' = d_Verdict d"
  "stop_event g ec ty r d u = (u', Stop (Ok d')) \<Longrightarrow> d_Verdict d' = d_Verdict d"
  by (auto simp: stop_signed_def stop_audited_def stop_event_def sign_context_verdict split: sum.splits)

lemmas gate_stops = stop_verdict denyWithReason_def

lemma zeroid_go:
  "zeroid_gate g ec s = (s', Go ec') \<longleftrightarrow>
     s' = s \<and> ec' = ec \<and> or_empty (ctx_str (ec_ctx ec) ''zeroid_token'') = [] \<and> or_empty (ctx_str (ec_ctx ec) ''spiffe_uri'') = []"
  by (auto simp: zeroid_gate_def Let_def denyWithReason_def)

interpretation zeroid: boundary_gate "zeroid_gate g" "{}" for g :: "('b, 'ip, 'net, 'x) GateGuardian_scheme"
proof
  show "zeroid_gate g ec s = (s', Stop (Ok d)) \<Longrightarrow> d_Verdict d \<noteq> VerdictAllow" for ec s s' d
    by (auto simp: zeroid_gate_def Let_def denyWithReason_def split: if_splits dest!: stop_verdict)
qed (simp add: zeroid_go)

lemma temporal_go:
  "temporal_gate g ec s = (s', Go ec') \<Longrightarrow>
     (case gs_temporal s of
        None \<Rightarrow> s' = s \<and> ec' = ec
      | Some tg \<Rightarrow> (\<exists>iv. ec' = ec\<lparr>ec_Intervention := iv\<rparr> \<and> (\<forall>i. iv = Some i \<longrightarrow> ec_Intervention ec = Some i \<or> iv_Type i = ''THROTTLE'')) \<and>
          gr_Level (snd (Evaluate (ge_float g) (ge_temporal_clock g) tg)) < ResponseInterrupt \<and>
          s' = s\<lparr>gs_temporal := Some (fst (Evaluate (ge_float g) (ge_temporal_clock g) tg))\<rparr>)"
  by (auto simp: temporal_gate_def Let_def split: option.splits prod.splits if_splits sum.splits intro: exI [of _ "ec_Intervention ec"])

interpretation temporal: boundary_gate "temporal_gate g" "{}" for g :: "('b, 'ip, 'net, 'x) GateGuardian_scheme"
proof
  show "temporal_gate g ec s = (s', Stop (Ok d)) \<Longrightarrow> d_Verdict d \<noteq> VerdictAllow" for ec s s' d
    by (auto simp: temporal_gate_def Let_def split: option.splits prod.splits if_splits sum.splits dest!: stop_verdict)
  show "temporal_gate g ec s = (s', Go ec') \<Longrightarrow> same_request ec ec' \<and> ctx_kept {} (ec_ctx ec) (ec_ctx ec')" for ec s s' ec'
    by (drule temporal_go) (auto simp: same_request_def split: option.splits)
qed

lemma scoped_deny_refuses:
  "scopedStopDeny g ec c r st s \<noteq> (s', Go ec')" "scopedStopDeny g ec c r st s = (s', Stop (Ok d)) \<Longrightarrow> d_Verdict d = VerdictDeny"
  by (auto simp: scopedStopDeny_def split: sum.splits prod.splits dest!: stop_verdict)

lemma freeze_go:
  "freeze_gate g ec s = (s', Go ec') \<longleftrightarrow> ec' = ec \<and>
     (case gs_freeze s of
        None \<Rightarrow> s' = s
      | Some fc \<Rightarrow> \<not> snd (IsFrozen (ge_freeze_source g) fc) \<and> s' = s\<lparr>gs_freeze := Some (fst (IsFrozen (ge_freeze_source g) fc))\<rparr>)"
  by (auto simp: freeze_gate_def Let_def split: option.splits prod.splits)

lemma scoped_stop_go:
  "scoped_stop_gate g ec s = (s', Go ec') \<longleftrightarrow> ec' = ec \<and> s' = s \<and>
     (case ge_scoped_stop g of
        None \<Rightarrow> True
      | Some isFenced \<Rightarrow> \<exists>t w st. stringContextValue (ec_ctx ec) [''tenant_id'', ''tenantId'', ''tenant''] = Some t \<and>
          stringContextValue (ec_ctx ec) [''workspace_id'', ''workspaceId'', ''workspace''] = Some w \<and> isFenced (t, w) = Ok (st, False))"
  by (auto simp: scoped_stop_gate_def scoped_deny_refuses split: option.splits sum.splits prod.splits if_splits)

lemma kill_go:
  "kill_gate g ec s = (s', Go ec') \<longleftrightarrow> ec' = ec \<and> s' = s \<and> (\<forall>k. gs_kill s = Some k \<longrightarrow> \<not> IsKilled k (r_Principal (ec_Request ec)))"
  by (auto simp: kill_gate_def split: option.splits)

definition fingerprint :: "host_facts \<Rightarrow> string" where
  "fingerprint h = computeFingerprint (h_digest h) (h_goos h) (h_goarch h) (h_hostname h) (h_exe h) (h_wd h)"

lemma context_go:
  "context_gate g ec s = (s', Go ec') \<Longrightarrow> ec' = ec \<and>
     (case gs_contextGuard s of
        None \<Rightarrow> s' = s
      | Some cg \<Rightarrow> (bootFingerprint cg = [] \<or> bootFingerprint cg = fingerprint (ge_host g)) \<and> (\<exists>cg'. s' = s\<lparr>gs_contextGuard := Some cg'\<rparr>))"
  by (auto simp: context_gate_def ValidateCurrent_def Validate_def fingerprint_def Let_def split: option.splits prod.splits sum.splits if_splits)

interpretation freeze_if: boundary_gate "freeze_gate g" "{}" for g :: "('b, 'ip, 'net, 'x) GateGuardian_scheme"
proof
  show "freeze_gate g ec s = (s', Stop (Ok d)) \<Longrightarrow> d_Verdict d \<noteq> VerdictAllow" for ec s s' d
    by (auto simp: freeze_gate_def Let_def split: option.splits prod.splits if_splits dest!: stop_verdict)
qed (simp add: freeze_go)

interpretation scoped_stop: boundary_gate "scoped_stop_gate g :: 's gate" "{}" for g :: "('b, 'ip, 'net, 'x) GateGuardian_scheme"
proof
  show "scoped_stop_gate g ec s = (s', Stop (Ok d)) \<Longrightarrow> d_Verdict d \<noteq> VerdictAllow" for ec and s s' :: 's and d
    by (auto simp: scoped_stop_gate_def split: option.splits prod.splits sum.splits if_splits dest!: scoped_deny_refuses(2))
qed (simp add: scoped_stop_go)

interpretation kill_if: boundary_gate "kill_gate g" "{}" for g :: "('b, 'ip, 'net, 'x) GateGuardian_scheme"
proof
  show "kill_gate g ec s = (s', Stop (Ok d)) \<Longrightarrow> d_Verdict d \<noteq> VerdictAllow" for ec s s' d
    by (auto simp: kill_gate_def split: option.splits if_splits dest!: stop_verdict)
qed (simp add: kill_go)

interpretation context_if: boundary_gate "context_gate g" "{}" for g :: "('b, 'ip, 'net, 'x) GateGuardian_scheme"
proof
  show "context_gate g ec s = (s', Stop (Ok d)) \<Longrightarrow> d_Verdict d \<noteq> VerdictAllow" for ec s s' d
    by (auto simp: context_gate_def Let_def split: option.splits prod.splits sum.splits dest!: stop_verdict)
  show "context_gate g ec s = (s', Go ec') \<Longrightarrow> same_request ec ec' \<and> ctx_kept {} (ec_ctx ec) (ec_ctx ec')" for ec s s' ec'
    by (drule context_go) simp
qed

lemmas empty_keys = Un_empty_left Un_empty_right

interpretation stop_plane: boundary_gate "stop_plane_gate g" "{}" for g :: "('b, 'ip, 'net, 'x) GateGuardian_scheme"
  unfolding stop_plane_gate_def
  by (intro then_gate_contract [of _ "{}" _ "{}", unfolded empty_keys] freeze_if.boundary_gate_axioms scoped_stop.boundary_gate_axioms
      kill_if.boundary_gate_axioms context_if.boundary_gate_axioms)

text \<open>The state a stop-plane pass leaves: only its own two components may have changed.\<close>

lemma stop_plane_go:
  assumes "stop_plane_gate g ec s = (s', Go ec')"
  shows "ec' = ec \<and> (\<exists>fc cg. s' = s\<lparr>gs_freeze := fc, gs_contextGuard := cg\<rparr>) \<and>
    (\<forall>fc. gs_freeze s = Some fc \<longrightarrow> \<not> snd (IsFrozen (ge_freeze_source g) fc)) \<and>
    (\<forall>isFenced. ge_scoped_stop g = Some isFenced \<longrightarrow>
       (\<exists>t w st. stringContextValue (ec_ctx ec) [''tenant_id'', ''tenantId'', ''tenant''] = Some t \<and>
          stringContextValue (ec_ctx ec) [''workspace_id'', ''workspaceId'', ''workspace''] = Some w \<and> isFenced (t, w) = Ok (st, False))) \<and>
    (\<forall>k. gs_kill s = Some k \<longrightarrow> \<not> IsKilled k (r_Principal (ec_Request ec))) \<and>
    (\<forall>cg. gs_contextGuard s = Some cg \<longrightarrow> bootFingerprint cg = [] \<or> bootFingerprint cg = fingerprint (ge_host g))"
proof -
  obtain s1 where f: "freeze_gate g ec s = (s1, Go ec)" and k: "kill_gate g ec s1 = (s1, Go ec)"
    and c: "context_gate g ec s1 = (s', Go ec')" and sc: "scoped_stop_gate g ec s1 = (s1, Go ec)"
    using assms by (auto simp: stop_plane_gate_def then_gate_go freeze_go scoped_stop_go kill_go)
  have s1: "\<exists>fc. s1 = s\<lparr>gs_freeze := fc\<rparr>" using f by (auto simp: freeze_go split: option.splits intro: exI [of _ "gs_freeze s"])
  have s': "\<exists>cg. s' = s1\<lparr>gs_contextGuard := cg\<rparr>"
    using context_go [OF c] by (auto split: option.splits intro: exI [of _ "gs_contextGuard s1"])
  obtain fc where fc: "s1 = s\<lparr>gs_freeze := fc\<rparr>" using s1 by blast
  have st: "\<exists>fc cg. s' = s\<lparr>gs_freeze := fc, gs_contextGuard := cg\<rparr>" using s' unfolding fc by blast
  have "gs_kill s1 = gs_kill s" "gs_contextGuard s1 = gs_contextGuard s" by (simp_all add: fc)
  then show ?thesis
    using st f sc k context_go [OF c] by (auto simp: freeze_go scoped_stop_go kill_go split: option.splits)
qed

end
