(* ===== verification/Gates_Policy.thy ===== *)
theory Gates_Policy
  imports Gates
begin

text \<open>
  The remaining interceptors of \<^verbatim>\<open>core/pkg/guardian/interceptor.go\<close> and \<^verbatim>\<open>assumption.go\<close>: the policy
  interceptor with its gates (identity isolation, threat evidence, delegation sessions, policy decision
  point), egress and taint, assumption freshness and sandbox allocation.
\<close>

section \<open>Trusted context\<close>

definition trustedSecurityContext :: "gctx \<Rightarrow> bool" where
  "trustedSecurityContext c = (case ctx_bool c ''security_context_trusted'' of None \<Rightarrow> False | Some b \<Rightarrow> b)"

definition trustedContextString :: "gctx \<Rightarrow> string \<Rightarrow> string option" where
  "trustedContextString c key =
     (if \<not> trustedSecurityContext c then None
      else case ctx_str c key of
             None \<Rightarrow> None
           | Some v \<Rightarrow> (let v = TrimSpace v in if v \<noteq> [] then Some v else None))"

definition trustedContextBool :: "gctx \<Rightarrow> string \<Rightarrow> bool option" where
  "trustedContextBool c key = (if \<not> trustedSecurityContext c then None else ctx_bool c key)"

definition trustedInputProvenance :: "gctx \<Rightarrow> string \<times> string" where
  "trustedInputProvenance c =
     (if \<not> trustedSecurityContext c then (''UNKNOWN'', ''EXTERNAL_UNTRUSTED'')
      else (case trustedContextString c ''source_channel'' of Some ch \<Rightarrow> ch | None \<Rightarrow> ''UNKNOWN'',
            case trustedContextString c ''trust_level'' of
              Some lv \<Rightarrow> if lv = ''TRUSTED'' \<or> lv = ''INTERNAL_UNVERIFIED'' \<or> lv = ''EXTERNAL_UNTRUSTED'' \<or> lv = ''TAINTED''
                         then lv else ''EXTERNAL_UNTRUSTED''
            | None \<Rightarrow> ''EXTERNAL_UNTRUSTED''))"

section \<open>Identity isolation\<close>

definition scrub_gate :: "'s gate" where
  "scrub_gate ec s = (s, Go (set_ctx (ctx_del (ec_ctx ec) ''threat_scan'') ec))"

definition pdp_deny :: "('b, 'x) Guardian_scheme \<Rightarrow> EvaluationContext \<Rightarrow> string \<Rightarrow> string \<Rightarrow> 's \<Rightarrow> 's \<times> gate_result" where
  "pdp_deny g ec code why s = stop_signed g ec (new_decision g ''pdp deny'' VerdictDeny code why) s"

definition isolation_gate :: "('b, 'ip, 'net, 'x) GateGuardian_scheme \<Rightarrow> ('b, 'net, 'y) gate_state_scheme gate" where
  "isolation_gate g ec s =
     (case gs_isolation s of
        None \<Rightarrow> (s, Go ec)
      | Some ic \<Rightarrow>
          if r_Principal (ec_Request ec) = [] then (s, Go ec)
          else case trustedContextString (ec_ctx ec) ''credential_hash'' of
                 None \<Rightarrow> pdp_deny g ec ''IDENTITY_ISOLATION_VIOLATION'' ''IDENTITY_ISOLATION_VIOLATION: missing trusted credential_hash'' s
               | Some credHash \<Rightarrow>
                   (let sessionID = or_empty (trustedContextString (ec_ctx ec) ''session_id'') in
                    case ValidateAgentIdentity (g_clk g ''isolation'') (r_Principal (ec_Request ec)) credHash sessionID ic of
                      (ic', Inl err) \<Rightarrow>
                        pdp_deny g ec ''IDENTITY_ISOLATION_VIOLATION''
                          (''IDENTITY_ISOLATION_VIOLATION: IDENTITY_ISOLATION_VIOLATION: credential bound to '' @ ie_BoundPrincipal err
                           @ '', attempted by '' @ ie_AttemptingPrincipal err) (s\<lparr>gs_isolation := Some ic'\<rparr>)
                    | (ic', Inr _) \<Rightarrow> (s\<lparr>gs_isolation := Some ic'\<rparr>, Go ec)))"

section \<open>Threat evidence\<close>

definition scan_keys :: "string list" where "scan_keys = [''user_input'', ''text'', ''content'']"

definition unavailable_scan :: "('b, 'ip, 'net, 'x) GateGuardian_scheme \<Rightarrow> string \<times> string \<Rightarrow> string \<Rightarrow> ThreatScanResult" where
  "unavailable_scan g prov textToScan =
     (let sum = g_sha g textToScan; inputHash = ''sha256:'' @ hex_EncodeToString sum in
      \<lparr>ts_ScanID = ''scan-unavailable-'' @ hex_EncodeToString (take 8 sum), ts_Timestamp = g_clk g ''scan'',
       ts_SourceChannel = fst prov, ts_TrustLevel = snd prov, ts_MaxSeverity = ''INFO'', ts_FindingCount = 0, ts_Findings = [],
       ts_RawInputHash = inputHash, ts_NormalizedInputHash = inputHash,
       ts_Semantic = Some \<lparr>sm_Available = False, sm_ModelVersion = [], sm_ModelHash = [], sm_ExpectedModelHash = [],
         sm_FailureReason = ''SCANNER_UNAVAILABLE'', sm_ThresholdBP = ge_thresholdBP g, sm_MaxBP = 0, sm_NearestClass = [],
         sm_Flagged = False, sm_InputTruncated = False\<rparr>\<rparr>)"

text \<open>The loop over the fields: \<open>Inl\<close> the result that denies, or \<open>Inr\<close> the selected evidence.\<close>

fun scan_loop ::
  "(string \<Rightarrow> string \<Rightarrow> string \<Rightarrow> ThreatScanResult) \<Rightarrow> string \<times> string \<Rightarrow> gctx \<Rightarrow> ThreatScanResult option \<Rightarrow> string list \<Rightarrow>
   ThreatScanResult + ThreatScanResult option" where
  "scan_loop scan prov c sel [] = Inr sel"
| "scan_loop scan prov c sel (k # ks) =
     (case ctx_str c k of
        None \<Rightarrow> scan_loop scan prov c sel ks
      | Some t \<Rightarrow>
          if t = [] then scan_loop scan prov c sel ks
          else case preferredThreatScanResult sel (Some (scan t (fst prov) (snd prov))) of
                 None \<Rightarrow> scan_loop scan prov c None ks
               | Some r \<Rightarrow>
                   if ts_FindingCount r > 0 \<and> IsTainted (snd prov) \<and> ContainsHighRiskFindings r then Inl r
                   else scan_loop scan prov c (Some r) ks)"

definition threat_reason :: "string \<Rightarrow> ThreatFinding \<Rightarrow> string" where
  "threat_reason code f =
     (if tf_Class f = ''PROMPT_INJECTION_PATTERN'' then ''PROMPT_INJECTION_DETECTED''
      else if tf_Class f = ''UNICODE_OBFUSCATION_PATTERN'' then ''UNICODE_OBFUSCATION_DETECTED''
      else if tf_Class f = ''CREDENTIAL_EXPOSURE_PATTERN'' then ''TAINTED_CREDENTIAL_ACCESS_DENY''
      else if tf_Class f = ''SOFTWARE_PUBLISH_PATTERN'' then ''TAINTED_SOFTWARE_PUBLISH_DENY''
      else if tf_Class f = ''SUSPICIOUS_EXTERNAL_FETCH_PATTERN'' then ''TAINTED_DATA_EGRESS_DENY''
      else code)"

definition semantic_reason :: "int \<Rightarrow> SemanticThreatAssessment \<Rightarrow> string" where
  "semantic_reason thresholdBP m =
     (let code = ''SEMANTIC_THREAT_REVIEW_REQUIRED'' in
      if \<not> sm_Available m then
        (if sm_FailureReason m = ''SCANNER_UNAVAILABLE'' then code @ '': configured semantic scanner is unavailable; failure='' @ sm_FailureReason m
         else code @ '': configured semantic model is unavailable; failure='' @ sm_FailureReason m @ '' model='' @ sm_ModelHash m
              @ '' expected='' @ sm_ExpectedModelHash m)
      else if sm_InputTruncated m then code @ '': input exceeds the deterministic semantic coverage bound; model='' @ sm_ModelHash m
      else code @ '': semantic score '' @ dec_of_int (sm_MaxBP m) @ '' bp meets tenant escalation threshold '' @ dec_of_int thresholdBP
           @ '' bp; model='' @ sm_ModelHash m)"

definition escalates :: "int \<Rightarrow> ThreatScanResult \<Rightarrow> SemanticThreatAssessment option" where
  "escalates thresholdBP r =
     (case ts_Semantic r of
        None \<Rightarrow> None
      | Some m \<Rightarrow> if thresholdBP > 0 \<and> (\<not> sm_Available m \<or> sm_InputTruncated m \<or> sm_MaxBP m \<ge> thresholdBP) then Some m else None)"

definition threat_scan :: "('b, 'ip, 'net, 'x) GateGuardian_scheme \<Rightarrow> EvaluationContext \<Rightarrow> ThreatScanResult + ThreatScanResult option" where
  "threat_scan g ec =
     (let c = ec_ctx ec; prov = trustedInputProvenance c in
      case ge_scan g of
        None \<Rightarrow>
          Inr (if ge_thresholdBP g > 0 then
                 (case first_some (\<lambda>k. case ctx_str c k of None \<Rightarrow> None | Some t \<Rightarrow> if t = [] then None else Some t) scan_keys of
                    None \<Rightarrow> ec_ThreatScanResult ec
                  | Some t \<Rightarrow> Some (unavailable_scan g prov t))
               else ec_ThreatScanResult ec)
      | Some scan \<Rightarrow> scan_loop scan prov c (ec_ThreatScanResult ec) scan_keys)"

definition threat_gate :: "('b, 'ip, 'net, 'x) GateGuardian_scheme \<Rightarrow> ('b, 'net, 'y) gate_state_scheme gate" where
  "threat_gate g ec s =
     (case threat_scan g ec of
        Inl r \<Rightarrow>
          (let code = foldl threat_reason ''TAINTED_INPUT_HIGH_RISK_DENY'' (ts_Findings r);
               d = (new_decision g ''threat'' VerdictDeny code
                     (code @ '': '' @ dec_of_int (ts_FindingCount r) @ '' findings (max='' @ ts_MaxSeverity r @ '') from ''
                      @ snd (trustedInputProvenance (ec_ctx ec)) @ '' source''))
                   \<lparr>d_InputContext := Some [(''threat_scan'', PolicyContext (Ref r))]\<rparr>
           in case stop_audited g (ec\<lparr>ec_ThreatScanResult := Some r\<rparr>) ''THREAT_DENY'' d s of
                (s, Stop (Inr d')) \<Rightarrow>
                  (recordBehavioralEvent g (r_Principal (ec_Request ec)) ''THREAT_DETECTED''
                     (''threat scan: '' @ dec_of_int (ts_FindingCount r) @ '' findings'') s, Stop (Ok d'))
              | x \<Rightarrow> x)
      | Inr None \<Rightarrow> (s, Go (ec\<lparr>ec_ThreatScanResult := None\<rparr>))
      | Inr (Some r) \<Rightarrow>
          (let ec = set_ctx (ctx_put (ec_ctx ec) ''threat_scan'' (PolicyContext (Ref r))) (ec\<lparr>ec_ThreatScanResult := Some r\<rparr>) in
           case escalates (ge_thresholdBP g) r of
             Some m \<Rightarrow>
               stop_audited g ec ''SEMANTIC_THREAT_ESCALATE''
                 ((new_decision g ''semantic'' VerdictEscalate ''SEMANTIC_THREAT_REVIEW_REQUIRED'' (semantic_reason (ge_thresholdBP g) m))
                    \<lparr>d_InputContext := ec_ctx ec\<rparr>) s
           | None \<Rightarrow> (s, Go ec)))"

section \<open>Delegation sessions\<close>

definition delegation_denial :: "('b, 'x) Guardian_scheme \<Rightarrow> string \<Rightarrow> string \<Rightarrow> DecisionRecord" where
  "delegation_denial g code why = new_decision g ''delegation'' VerdictDeny code why"

definition delegation_gate :: "('b, 'ip, 'net, 'x) GateGuardian_scheme \<Rightarrow> ('b, 'net, 'y) gate_state_scheme gate" where
  "delegation_gate g ec s =
     (case gs_delegation s of
        None \<Rightarrow> (s, Go ec)
      | Some store \<Rightarrow>
          (let sessionID = or_empty (ctx_str (ec_ctx ec) ''delegation_session_id''); req = ec_Request ec in
           if sessionID = [] then (s, Go ec)
           else case Load_session sessionID store of
             Inl loadErr \<Rightarrow> stop_signed g ec (delegation_denial g ''DELEGATION_INVALID'' (''DELEGATION_INVALID: '' @ DelegationError_Error loadErr)) s
           | Inr None \<Rightarrow> stop_signed g ec (delegation_denial g ''DELEGATION_INVALID'' ''DELEGATION_INVALID: session not found'') s
           | Inr (Some session) \<Rightarrow>
               (case ValidateSession (g_sha g) (ge_fmt_time g) (Some session) (or_empty (ctx_str (ec_ctx ec) ''delegation_verifier''))
                       (g_clk g ''delegation'') (Some (IsNonceUsed store)) of
                  Inl validErr \<Rightarrow> stop_signed g ec (delegation_denial g ''DELEGATION_INVALID'' (''DELEGATION_INVALID: '' @ DelegationError_Error validErr)) s
                | Inr _ \<Rightarrow>
                    if r_Principal req \<noteq> ds_DelegatePrincipal session then
                      stop_audited g ec ''DELEGATION_PRINCIPAL_MISMATCH'' (delegation_denial g ''DELEGATION_PRINCIPAL_MISMATCH''
                        (''DELEGATION_PRINCIPAL_MISMATCH: requesting principal '' @ ge_quote g (r_Principal req)
                         @ '' does not match delegated principal '' @ ge_quote g (ds_DelegatePrincipal session))) s
                    else if r_Resource req \<noteq> [] \<and> \<not> IsToolAllowed session (r_Resource req) then
                      stop_audited g ec ''DELEGATION_SCOPE_DENY'' (delegation_denial g ''DELEGATION_SCOPE_VIOLATION''
                        (''DELEGATION_SCOPE_VIOLATION: tool '' @ ge_quote g (r_Resource req) @ '' not in session scope'')) s
                    else if r_Resource req \<noteq> [] \<and> r_Action req \<noteq> [] \<and> length (ds_Capabilities session) > 0 \<and>
                            \<not> IsActionAllowed session (r_Resource req) (r_Action req) then
                      stop_audited g ec ''DELEGATION_SCOPE_DENY'' (delegation_denial g ''DELEGATION_SCOPE_VIOLATION''
                        (''DELEGATION_SCOPE_VIOLATION: action '' @ ge_quote g (r_Action req) @ '' on '' @ ge_quote g (r_Resource req) @ '' not granted'')) s
                    else
                      (s\<lparr>gs_delegation := Some (MarkNonceUsed (ds_SessionNonce session) store)\<rparr>,
                       Go (set_ctx (ctx_put (ctx_put (ctx_put (ec_ctx ec) ''delegation_validated'' (GBool True))
                              ''delegation_delegator'' (GStr (ds_DelegatorPrincipal session)))
                              ''delegation_delegate'' (GStr (ds_DelegatePrincipal session))) ec)))))"

section \<open>The policy decision point\<close>

definition pdp_gate :: "('b, 'ip, 'net, 'x) GateGuardian_scheme \<Rightarrow> ('b, 'net, 'y) gate_state_scheme gate" where
  "pdp_gate g ec s =
     (case ec_ActivePDP ec of
        None \<Rightarrow> (s, Go ec)
      | Some p \<Rightarrow>
          (let req = ec_Request ec in
           case pdp_Evaluate p \<lparr>pr_Principal = r_Principal req, pr_Action = r_Action req, pr_Resource = r_Resource req,
                  pr_Context = r_Context req, pr_Timestamp = g_clk g ''pdp request''\<rparr> of
             Inl pdpErr \<Rightarrow>
               stop_signed g ec ((new_decision g ''pdp error'' VerdictDeny ''PDP_ERROR'' (''PDP_ERROR: '' @ pdpErr))
                 \<lparr>d_PolicyBackend := pdp_Backend p, d_InputContext := r_Context req, d_EnvFingerprint := ge_envFprint g\<rparr>) s
           | Inr resp \<Rightarrow>
               (let ec = ec\<lparr>ec_PDPBackend := pdp_Backend p,
                      ec_PDPHash := (if ec_ActiveSnapshot ec = None then pdp_PolicyHash p else ec_PDPHash ec),
                      ec_PDPDecisionHash := pd_DecisionHash resp\<rparr> in
                if \<not> pd_Allow resp then
                  (let reasonCode = (if pd_ReasonCode resp = [] then ''PDP_DENY'' else pd_ReasonCode resp);
                       escalate = (reasonCode = ''APPROVAL_REQUIRED'')
                   in stop_audited g ec (if escalate then ''PDP_ESCALATE'' else ''PDP_DENY'')
                        ((new_decision g ''pdp'' (if escalate then VerdictEscalate else VerdictDeny) reasonCode
                            (reasonCode @ '' (ref='' @ pd_PolicyRef resp @ '')''))
                           \<lparr>d_PolicyBackend := ec_PDPBackend ec, d_InputContext := r_Context req, d_EnvFingerprint := ge_envFprint g,
                            d_PolicyContentHash := ec_PDPHash ec, d_PolicyDecisionHash := ec_PDPDecisionHash ec\<rparr>) s)
                else (s, Go (case pdp_AuthoritativeAllow p of
                               None \<Rightarrow> ec
                             | Some a \<Rightarrow> ec\<lparr>ec_PDPAuthoritativeAllow := a\<rparr>)))))"

definition policy_gate :: "('b, 'ip, 'net, 'x) GateGuardian_scheme \<Rightarrow> ('b, 'net, 'y) gate_state_scheme gate" where
  "policy_gate g =
     then_gate scrub_gate (then_gate (isolation_gate g) (then_gate (threat_gate g) (then_gate (delegation_gate g) (pdp_gate g))))"

section \<open>Egress and taint\<close>

definition egress_gate :: "('b, 'ip, 'net, 'x) GateGuardian_scheme \<Rightarrow> ('b, 'net, 'y) gate_state_scheme gate" where
  "egress_gate g ec s =
     (case gs_egress s of
        None \<Rightarrow> (s, Go ec)
      | Some checker \<Rightarrow>
          (let c = ec_ctx ec; dest = trustedContextString c ''destination'';
               destinationRequired = (trustedContextBool c ''egress_destination_required'' = Some True)
           in case dest of
                None \<Rightarrow>
                  if destinationRequired then
                    stop_event g ec ''EGRESS_BLOCKED'' ''egress blocked: missing trusted destination''
                      (new_decision g ''egress'' VerdictDeny ''DATA_EGRESS_BLOCKED'' ''DATA_EGRESS_BLOCKED: MISSING_TRUSTED_DESTINATION'') s
                  else (s, Go ec)
              | Some d \<Rightarrow>
                  (case CheckEgress (de_ul (g_digest g)) (ge_netlib g) (g_clk g ''egress check'') d ''https''
                          (case ctx_float c ''payload_size'' of None \<Rightarrow> 0 | Some x \<Rightarrow> ge_int64_of_float g x) checker of
                     (checker', result) \<Rightarrow>
                       (let s = s\<lparr>gs_egress := Some checker'\<rparr> in
                        if \<not> ed_Allowed result then
                          stop_event g ec ''EGRESS_BLOCKED'' (''egress blocked: '' @ ed_ReasonCode result)
                            (new_decision g ''egress'' VerdictDeny ''DATA_EGRESS_BLOCKED'' (''DATA_EGRESS_BLOCKED: '' @ ed_ReasonCode result)) s
                        else (s, Go ec)))))"

text \<open>\<^verbatim>\<open>strings.EqualFold(v, "false")\<close>: case folding also equates \<^verbatim>\<open>s\<close> with U+017F, two bytes in UTF-8.\<close>

definition folds_to_false :: "string \<Rightarrow> bool" where
  "folds_to_false v \<longleftrightarrow>
     map ascii_lower v = ''false'' \<or>
     length v = 6 \<and> map ascii_lower (take 3 v) = ''fal'' \<and> take 2 (drop 3 v) = [char_of (0xC5 :: nat), char_of (0xBF :: nat)] \<and>
     map ascii_lower (drop 5 v) = ''e''"

definition taintEgressEnforcementEnabled :: "string \<Rightarrow> bool" where
  "taintEgressEnforcementEnabled getenv = (let v = TrimSpace getenv in \<not> (v = ''0'' \<or> folds_to_false v))"

definition taintedEgressDenied :: "(string \<Rightarrow> string) \<Rightarrow> bool \<Rightarrow> gctx \<Rightarrow> string list \<Rightarrow> bool" where
  "taintedEgressDenied ul trustedOverride values labels =
     (if length labels = 0 \<or> values = None then False
      else if ctx_bool values ''allow_tainted_egress'' = Some True \<and> trustedOverride then False
      else if blank (or_empty (ctx_str values ''destination'')) then False
      else TaintContainsAny ul labels [''pii'', ''credential'', ''secret''])"

definition taint_gate :: "('b, 'ip, 'net, 'x) GateGuardian_scheme \<Rightarrow> ('b, 'net, 'y) gate_state_scheme gate" where
  "taint_gate g ec s =
     (let ul = de_ul (g_digest g);
          taintLabels = TaintLabelsFromContext ul (ec_ctx ec);
          ec = (if length taintLabels > 0
                then (set_ctx (ctx_put (ec_ctx ec) ''taint'' (GStrs taintLabels)) ec)\<lparr>ec_Tainted := True\<rparr> else ec)
      in if taintEgressEnforcementEnabled (ge_taint_env g) \<and> taintedEgressDenied ul (ge_tainted_override g) (ec_ctx ec) taintLabels then
           stop_event g ec ''EGRESS_BLOCKED'' ''tainted egress blocked''
             ((new_decision g ''taint'' VerdictDeny ''TAINTED_DATA_EGRESS_DENY''
                 ''TAINTED_DATA_EGRESS_DENY: sensitive taint cannot leave the trust boundary without explicit approval'')
                \<lparr>d_InputContext := Some [(''taint'', GStrs taintLabels)]\<rparr>) s
         else (s, Go ec))"

definition taint_egress_gate :: "('b, 'ip, 'net, 'x) GateGuardian_scheme \<Rightarrow> ('b, 'net, 'y) gate_state_scheme gate" where
  "taint_egress_gate g = then_gate (egress_gate g) (taint_gate g)"

section \<open>Assumption freshness (assumption.go)\<close>

definition assumptionsFromContext :: "('b, 'ip, 'net, 'x) GateGuardian_scheme \<Rightarrow> gctx \<Rightarrow> (string, ObservedAssumption list) res" where
  "assumptionsFromContext g c =
     (case ctx_get c ''assumptions'' of None \<Rightarrow> Ok [] | Some GNil \<Rightarrow> Ok [] | Some raw \<Rightarrow> ge_decode_assumptions g raw)"

definition planHashFromContext :: "gctx \<Rightarrow> string" where
  "planHashFromContext c = or_empty (ctx_str c ''plan_hash'')"

definition assumption_deny ::
  "('b, 'ip, 'net, 'x) GateGuardian_scheme \<Rightarrow> EvaluationContext \<Rightarrow> ObservedAssumption \<Rightarrow> string \<Rightarrow> ('b, 'net, 'y) gate_state_scheme \<Rightarrow>
   ('b, 'net, 'y) gate_state_scheme \<times> gate_result" where
  "assumption_deny g ec a why s =
     (let a = (if oa_AssumptionHash a = [] then (case oa_Seal (ge_seal g) a of (sealed, Inr _) \<Rightarrow> sealed | _ \<Rightarrow> a) else a)
      in stop_event g ec ''POLICY_VIOLATE'' ''assumption stale''
           ((new_decision g ''assumption'' VerdictDeny ''ERR_ASSUMPTION_STALE'' (''ERR_ASSUMPTION_STALE: '' @ why))
              \<lparr>d_InputContext := Some [(''assumption_hash'', GStr (oa_AssumptionHash a)), (''assumption_id'', GStr (oa_AssumptionID a)),
                                     (''plan_hash'', GStr (planHashFromContext (ec_ctx ec)))]\<rparr>) s)"

text \<open>The first assumption that does not hold, with the reason.\<close>

fun stale_assumption ::
  "('b, 'ip, 'net, 'x) GateGuardian_scheme \<Rightarrow> gotime \<Rightarrow> ObservedAssumption list \<Rightarrow> (ObservedAssumption \<times> string) option" where
  "stale_assumption g now [] = None"
| "stale_assumption g now (a # as) =
     (case oa_Validate (ge_quote g) a of
        Inl e \<Rightarrow> Some (a, e)
      | Inr _ \<Rightarrow>
          if oa_Expired a now then
            Some (a, ''observation of '' @ ge_quote g (oa_Subject a) @ '' expired at '' @ ge_fmt_time g (oa_ExpiresAt a))
          else case ge_observer g of
                 None \<Rightarrow> stale_assumption g now as
               | Some observe \<Rightarrow>
                   (case observe a of
                      Inl e \<Rightarrow> Some (a, ''state of '' @ ge_quote g (oa_Subject a) @ '' could not be confirmed: '' @ e)
                    | Inr observed \<Rightarrow>
                        if observed \<noteq> oa_ContentHash a then Some (a, ''state of '' @ ge_quote g (oa_Subject a) @ '' changed since it was observed'')
                        else stale_assumption g now as))"

definition assumption_gate :: "('b, 'ip, 'net, 'x) GateGuardian_scheme \<Rightarrow> ('b, 'net, 'y) gate_state_scheme gate" where
  "assumption_gate g ec s =
     (case assumptionsFromContext g (ec_ctx ec) of
        Inl e \<Rightarrow> assumption_deny g ec zero_assumption (''assumptions are malformed and cannot be checked: '' @ e) s
      | Inr assumptions \<Rightarrow>
          if length assumptions = 0 then (s, Go ec)
          else case stale_assumption g (g_clk g ''assumption check'') assumptions of
                 Some (a, why) \<Rightarrow> assumption_deny g ec a why s
               | None \<Rightarrow> (s, Go ec))"

section \<open>Sandbox allocation\<close>

definition sandbox_gate :: "('b, 'ip, 'net, 'x) GateGuardian_scheme \<Rightarrow> 's gate" where
  "sandbox_gate g ec s =
     (case ge_warm_pool g of
        None \<Rightarrow> (s, Go ec)
      | Some acquire \<Rightarrow>
          if r_Action (ec_Request ec) \<noteq> ''EXECUTE_TOOL'' then (s, Go ec)
          else (let img = or_empty (ctx_str (ec_ctx ec) ''image'') in
                case acquire (if img \<noteq> [] then img else ''sha256:default-pinned-digest'') of
                  Inl e \<Rightarrow> stop_signed g ec (new_decision g ''sandbox'' VerdictDeny ''SANDBOX_ACQUISITION_FAILED'' (''SANDBOX_ACQUISITION_FAILED: '' @ e)) s
                | Inr _ \<Rightarrow> (s, Go (set_ctx (ctx_put (ec_ctx ec) ''sandbox_lease_id'' (GStr (''lease-'' @ g_rnd g ''sandbox lease''))) ec))))"

section \<open>What the gates do\<close>

lemma trusted_kept:
  assumes "ctx_kept keys c c'" "''security_context_trusted'' \<notin> keys" "k \<notin> keys"
  shows "trustedContextString c' k = trustedContextString c k" "trustedContextBool c' k = trustedContextBool c k"
  using assms by (simp_all add: trustedContextString_def trustedContextBool_def trustedSecurityContext_def ctx_kept_str ctx_kept_bool)

lemma provenance_kept:
  assumes "ctx_kept keys c c'" "''security_context_trusted'' \<notin> keys" "''source_channel'' \<notin> keys" "''trust_level'' \<notin> keys"
  shows "trustedInputProvenance c' = trustedInputProvenance c"
  using assms by (simp add: trustedInputProvenance_def trusted_kept trustedSecurityContext_def ctx_kept_bool)

lemma ctx_kept_put: "ctx_kept keys c (ctx_put c' k v) \<longleftrightarrow> (\<forall>j. j \<notin> keys \<longrightarrow> (if j = k then Some v else ctx_get c' j) = ctx_get c j)"
  by (simp add: ctx_kept_def)

lemma ctx_kept_put_in [simp]: "k \<in> keys \<Longrightarrow> ctx_kept keys c (ctx_put c' k v) = ctx_kept keys c c'"
  by (auto simp: ctx_kept_def)

lemma ctx_kept_del_in [simp]: "k \<in> keys \<Longrightarrow> ctx_kept keys c (ctx_del c' k) = ctx_kept keys c c'"
  by (auto simp: ctx_kept_def)

interpretation scrub: boundary_gate scrub_gate "{''threat_scan''}"
  by unfold_locales (auto simp: scrub_gate_def)

text \<open>Isolation: the trusted credential was free or already bound to this principal.\<close>

lemma isolation_go:
  "isolation_gate g ec s = (s', Go ec') \<Longrightarrow> ec' = ec \<and> (\<exists>ic'. s' = s\<lparr>gs_isolation := ic'\<rparr>) \<and>
     (\<forall>ic. gs_isolation s = Some ic \<longrightarrow> r_Principal (ec_Request ec) \<noteq> [] \<longrightarrow>
        (\<exists>cred. trustedContextString (ec_ctx ec) ''credential_hash'' = Some cred \<and>
           (\<forall>p. map_of (bindings ic) cred = Some p \<longrightarrow> p = r_Principal (ec_Request ec))))"
  by (auto simp: isolation_gate_def pdp_deny_def Let_def ValidateAgentIdentity_def split: option.splits if_splits sum.splits prod.splits
      intro: exI [of _ "gs_isolation s"])

interpretation isolation: boundary_gate "isolation_gate g" "{}" for g :: "('b, 'ip, 'net, 'x) GateGuardian_scheme"
proof
  show "isolation_gate g ec s = (s', Stop (Ok d)) \<Longrightarrow> d_Verdict d \<noteq> VerdictAllow" for ec s s' d
    by (auto simp: isolation_gate_def pdp_deny_def Let_def split: option.splits if_splits sum.splits prod.splits dest!: stop_verdict)
  show "isolation_gate g ec s = (s', Go ec') \<Longrightarrow> same_request ec ec' \<and> ctx_kept {} (ec_ctx ec) (ec_ctx ec')" for ec s s' ec'
    by (drule isolation_go) simp
qed

lemma threat_go:
  "threat_gate g ec s = (s', Go ec') \<Longrightarrow> s' = s \<and> threat_scan g ec = Inr (ec_ThreatScanResult ec') \<and>
     (\<forall>r. ec_ThreatScanResult ec' = Some r \<longrightarrow> escalates (ge_thresholdBP g) r = None) \<and>
     same_request ec ec' \<and> ctx_kept {''threat_scan''} (ec_ctx ec) (ec_ctx ec')"
  by (auto simp: threat_gate_def Let_def set_ctx_def same_request_def stop_audited_def
      split: sum.splits option.splits prod.splits gate_result.splits)

interpretation threat: boundary_gate "threat_gate g" "{''threat_scan''}" for g :: "('b, 'ip, 'net, 'x) GateGuardian_scheme"
proof
  show "threat_gate g ec s = (s', Stop (Ok d)) \<Longrightarrow> d_Verdict d \<noteq> VerdictAllow" for ec s s' d
    by (auto simp: threat_gate_def Let_def split: sum.splits option.splits prod.splits gate_result.splits dest!: stop_verdict)
qed (use threat_go in blast)

lemma delegation_go:
  assumes "delegation_gate g ec s = (s', Go ec')"
  shows "same_request ec ec' \<and> ctx_kept {''delegation_validated'', ''delegation_delegator'', ''delegation_delegate''} (ec_ctx ec) (ec_ctx ec') \<and>
    (\<exists>st. s' = s\<lparr>gs_delegation := st\<rparr>) \<and>
    (\<forall>store sid. gs_delegation s = Some store \<longrightarrow> ctx_str (ec_ctx ec) ''delegation_session_id'' = Some sid \<longrightarrow> sid \<noteq> [] \<longrightarrow>
      (\<exists>session. Load_session sid store = Ok (Some session) \<and>
         ValidateSession (g_sha g) (ge_fmt_time g) (Some session) (or_empty (ctx_str (ec_ctx ec) ''delegation_verifier''))
           (g_clk g ''delegation'') (Some (IsNonceUsed store)) = Ok () \<and>
         r_Principal (ec_Request ec) = ds_DelegatePrincipal session \<and>
         (r_Resource (ec_Request ec) \<noteq> [] \<longrightarrow> IsToolAllowed session (r_Resource (ec_Request ec))) \<and>
         (r_Resource (ec_Request ec) \<noteq> [] \<longrightarrow> r_Action (ec_Request ec) \<noteq> [] \<longrightarrow> ds_Capabilities session \<noteq> [] \<longrightarrow>
            IsActionAllowed session (r_Resource (ec_Request ec)) (r_Action (ec_Request ec))) \<and>
         gs_delegation s' = Some (MarkNonceUsed (ds_SessionNonce session) store)))"
proof (cases "gs_delegation s")
  case None
  then show ?thesis using assms by (auto simp: delegation_gate_def intro: exI [of _ "gs_delegation s"])
next
  case (Some store)
  show ?thesis
  proof (cases "or_empty (ctx_str (ec_ctx ec) ''delegation_session_id'') = []")
    case True
    then show ?thesis using assms Some by (auto simp: delegation_gate_def or_empty_def intro: exI [of _ "gs_delegation s"])
  next
    case False
    then obtain sid where sid: "ctx_str (ec_ctx ec) ''delegation_session_id'' = Some sid" "sid \<noteq> []"
      by (auto simp: or_empty_def split: option.splits)
    obtain session where l: "Load_session sid store = Ok (Some session)"
      using assms Some sid by (auto simp: delegation_gate_def or_empty_def Let_def split: sum.splits option.splits)
    define v where "v = ValidateSession (g_sha g) (ge_fmt_time g) (Some session) (or_empty (ctx_str (ec_ctx ec) ''delegation_verifier''))
           (g_clk g ''delegation'') (Some (IsNonceUsed store))"
    have oe: "or_empty (Some sid) = sid" by (simp add: or_empty_def)
    note run = assms [unfolded delegation_gate_def Some option.case Let_def sid(1) oe if_not_P [OF sid(2)] l sum.case v_def [symmetric]]
    have ok: "v = Ok ()" using run by (cases v) simp_all
    note valid = ok [unfolded v_def]
    show ?thesis using run Some sid l valid unfolding ok
      by (auto simp: set_ctx_def same_request_def split: if_splits)
  qed
qed

interpretation delegation: boundary_gate "delegation_gate g" "{''delegation_validated'', ''delegation_delegator'', ''delegation_delegate''}"
  for g :: "('b, 'ip, 'net, 'x) GateGuardian_scheme"
proof
  show "delegation_gate g ec s = (s', Stop (Ok d)) \<Longrightarrow> d_Verdict d \<noteq> VerdictAllow" for ec s s' d
    by (auto simp: delegation_gate_def delegation_denial_def Let_def split: option.splits if_splits sum.splits dest!: stop_verdict)
qed (use delegation_go in blast)

lemma pdp_go:
  "pdp_gate g ec s = (s', Go ec') \<Longrightarrow> s' = s \<and> same_request ec ec' \<and> ec_ctx ec' = ec_ctx ec \<and>
     (\<forall>p. ec_ActivePDP ec = Some p \<longrightarrow>
        (\<exists>resp. pdp_Evaluate p \<lparr>pr_Principal = r_Principal (ec_Request ec), pr_Action = r_Action (ec_Request ec),
             pr_Resource = r_Resource (ec_Request ec), pr_Context = ec_ctx ec, pr_Timestamp = g_clk g ''pdp request''\<rparr> = Ok resp \<and> pd_Allow resp)) \<and>
     (ec_PDPAuthoritativeAllow ec' \<longrightarrow> ec_PDPAuthoritativeAllow ec \<or> (\<exists>p. ec_ActivePDP ec = Some p \<and> pdp_AuthoritativeAllow p = Some True))"
  by (auto simp: pdp_gate_def Let_def same_request_def split: option.splits sum.splits if_splits)

interpretation pdp: boundary_gate "pdp_gate g" "{}" for g :: "('b, 'ip, 'net, 'x) GateGuardian_scheme"
proof
  show "pdp_gate g ec s = (s', Stop (Ok d)) \<Longrightarrow> d_Verdict d \<noteq> VerdictAllow" for ec s s' d
    by (auto simp: pdp_gate_def Let_def split: option.splits if_splits sum.splits dest!: stop_verdict)
  show "pdp_gate g ec s = (s', Go ec') \<Longrightarrow> same_request ec ec' \<and> ctx_kept {} (ec_ctx ec) (ec_ctx ec')" for ec s s' ec'
    by (drule pdp_go) simp
qed

lemma policy_contract:
  "boundary_gate (policy_gate g)
     ({''threat_scan''} \<union> ({} \<union> ({''threat_scan''} \<union> ({''delegation_validated'', ''delegation_delegator'', ''delegation_delegate''} \<union> {}))))"
  unfolding policy_gate_def
  by (intro then_gate_contract scrub.boundary_gate_axioms isolation.boundary_gate_axioms threat.boundary_gate_axioms
      delegation.boundary_gate_axioms pdp.boundary_gate_axioms)

definition policy_keys :: "string set" where
  "policy_keys = {''threat_scan'', ''delegation_validated'', ''delegation_delegator'', ''delegation_delegate''}"

interpretation policy: boundary_gate "policy_gate g" policy_keys for g :: "('b, 'ip, 'net, 'x) GateGuardian_scheme"
  using policy_contract [of g] by (simp add: policy_keys_def insert_commute)

text \<open>Egress: a trusted destination was checked and allowed, and none was required but missing.\<close>

lemma egress_go:
  "egress_gate g ec s = (s', Go ec') \<Longrightarrow> ec' = ec \<and> (\<exists>e. s' = s\<lparr>gs_egress := e\<rparr>) \<and>
     (\<forall>checker. gs_egress s = Some checker \<longrightarrow>
        (trustedContextBool (ec_ctx ec) ''egress_destination_required'' = Some True \<longrightarrow> trustedContextString (ec_ctx ec) ''destination'' \<noteq> None) \<and>
        (\<forall>dest. trustedContextString (ec_ctx ec) ''destination'' = Some dest \<longrightarrow>
           ed_Allowed (snd (CheckEgress (de_ul (g_digest g)) (ge_netlib g) (g_clk g ''egress check'') dest ''https''
             (case ctx_float (ec_ctx ec) ''payload_size'' of None \<Rightarrow> 0 | Some x \<Rightarrow> ge_int64_of_float g x) checker))))"
  by (auto simp: egress_gate_def Let_def split: option.splits if_splits prod.splits intro: exI [of _ "gs_egress s"])

interpretation egress: boundary_gate "egress_gate g" "{}" for g :: "('b, 'ip, 'net, 'x) GateGuardian_scheme"
proof
  show "egress_gate g ec s = (s', Stop (Ok d)) \<Longrightarrow> d_Verdict d \<noteq> VerdictAllow" for ec s s' d
    by (auto simp: egress_gate_def Let_def split: option.splits if_splits prod.splits dest!: stop_verdict)
  show "egress_gate g ec s = (s', Go ec') \<Longrightarrow> same_request ec ec' \<and> ctx_kept {} (ec_ctx ec) (ec_ctx ec')" for ec s s' ec'
    by (drule egress_go) simp
qed

lemma taint_labels_get:
  "TaintLabelsFromContext ul c =
     (if labelsFromAny (ctx_get c ''taint'') \<noteq> [] then NormalizeTaintLabels ul (labelsFromAny (ctx_get c ''taint''))
      else if labelsFromAny (ctx_get c ''taint_labels'') \<noteq> [] then NormalizeTaintLabels ul (labelsFromAny (ctx_get c ''taint_labels''))
      else [])"
  by (cases c) (simp_all add: TaintLabelsFromContext_def ctx_get_def labelsFromAny_def Let_def)

lemma taint_labels_nil: "TaintLabelsFromContext ul None = []"
  by (simp add: TaintLabelsFromContext_def)

lemma tainted_denied_put:
  "c \<noteq> None \<Longrightarrow> taintedEgressDenied ul ov (ctx_put c ''taint'' v) ls = taintedEgressDenied ul ov c ls"
  by (cases c) (simp_all add: taintedEgressDenied_def ctx_put_def ctx_bool_def ctx_str_def ctx_get_def)

lemma taint_go:
  assumes "taint_gate g ec s = (s', Go ec')"
  shows "s' = s \<and> same_request ec ec' \<and> ctx_kept {''taint''} (ec_ctx ec) (ec_ctx ec') \<and>
     (taintEgressEnforcementEnabled (ge_taint_env g) \<longrightarrow>
        \<not> taintedEgressDenied (de_ul (g_digest g)) (ge_tainted_override g) (ec_ctx ec) (TaintLabelsFromContext (de_ul (g_digest g)) (ec_ctx ec)))"
proof (cases "TaintLabelsFromContext (de_ul (g_digest g)) (ec_ctx ec) = []")
  case True
  then show ?thesis using assms by (auto simp: taint_gate_def Let_def split: if_splits)
next
  case False
  then have "ec_ctx ec \<noteq> None" using taint_labels_nil by metis
  then show ?thesis
    using False assms by (auto simp: taint_gate_def Let_def tainted_denied_put set_ctx_def same_request_def split: if_splits)
qed

interpretation taint: boundary_gate "taint_gate g" "{''taint''}" for g :: "('b, 'ip, 'net, 'x) GateGuardian_scheme"
proof
  show "taint_gate g ec s = (s', Stop (Ok d)) \<Longrightarrow> d_Verdict d \<noteq> VerdictAllow" for ec s s' d
    unfolding taint_gate_def Let_def by (auto split: if_splits dest!: stop_verdict)
qed (use taint_go in blast)

interpretation taint_egress: boundary_gate "taint_egress_gate g" "{''taint''}" for g :: "('b, 'ip, 'net, 'x) GateGuardian_scheme"
  unfolding taint_egress_gate_def
  by (rule then_gate_contract [of _ "{}", unfolded empty_keys]) (rule egress.boundary_gate_axioms taint.boundary_gate_axioms)+

text \<open>Assumptions: each is well formed, unexpired, and where an observer is configured, confirmed.\<close>

lemma stale_none:
  "stale_assumption g now as = None \<longleftrightarrow>
     list_all (\<lambda>a. oa_Validate (ge_quote g) a = Ok () \<and> \<not> oa_Expired a now \<and>
       (\<forall>observe. ge_observer g = Some observe \<longrightarrow> observe a = Ok (oa_ContentHash a))) as"
  by (induction as) (auto split: sum.splits option.splits if_splits)

lemma assumption_deny_refuses:
  "assumption_deny g ec a why s \<noteq> (s', Go ec')" "assumption_deny g ec a why s = (s', Stop (Ok d)) \<Longrightarrow> d_Verdict d = VerdictDeny"
  by (auto simp: assumption_deny_def Let_def dest!: stop_verdict)

lemma assumption_go:
  "assumption_gate g ec s = (s', Go ec') \<longleftrightarrow> ec' = ec \<and> s' = s \<and>
     (\<exists>as. assumptionsFromContext g (ec_ctx ec) = Ok as \<and>
        list_all (\<lambda>a. oa_Validate (ge_quote g) a = Ok () \<and> \<not> oa_Expired a (g_clk g ''assumption check'') \<and>
          (\<forall>observe. ge_observer g = Some observe \<longrightarrow> observe a = Ok (oa_ContentHash a))) as)"
  by (auto simp: assumption_gate_def assumption_deny_refuses stale_none [symmetric] split: sum.splits option.splits if_splits)

interpretation assumption: boundary_gate "assumption_gate g" "{}" for g :: "('b, 'ip, 'net, 'x) GateGuardian_scheme"
proof
  show "assumption_gate g ec s = (s', Stop (Ok d)) \<Longrightarrow> d_Verdict d \<noteq> VerdictAllow" for ec s s' d
    by (auto simp: assumption_gate_def split: sum.splits option.splits if_splits dest!: assumption_deny_refuses(2))
qed (simp add: assumption_go)

lemma sandbox_go:
  "sandbox_gate g ec s = (s', Go ec') \<Longrightarrow> s' = s \<and> same_request ec ec' \<and> ctx_kept {''sandbox_lease_id''} (ec_ctx ec) (ec_ctx ec')"
  by (auto simp: sandbox_gate_def Let_def split: option.splits if_splits sum.splits)

interpretation sandbox: boundary_gate "sandbox_gate g :: 's gate" "{''sandbox_lease_id''}" for g :: "('b, 'ip, 'net, 'x) GateGuardian_scheme"
proof
  show "sandbox_gate g ec s = (s', Stop (Ok d)) \<Longrightarrow> d_Verdict d \<noteq> VerdictAllow" for ec and s s' :: 's and d
    by (auto simp: sandbox_gate_def Let_def split: option.splits if_splits sum.splits dest!: stop_verdict)
  show "sandbox_gate g ec s = (s', Go ec') \<Longrightarrow> same_request ec ec' \<and> ctx_kept {''sandbox_lease_id''} (ec_ctx ec) (ec_ctx ec')"
    for ec ec' and s s' :: 's
    by (drule sandbox_go) simp
qed

section \<open>Every scannable field counts\<close>

text \<open>
  What the gate relies on of the scanner: a result carries the trust level it was asked for, and a high
  severity comes with a finding.
\<close>

definition scanner_ok :: "(string \<Rightarrow> string \<Rightarrow> string \<Rightarrow> ThreatScanResult) \<Rightarrow> bool" where
  "scanner_ok scan \<longleftrightarrow>
     (\<forall>t ch lv. ts_TrustLevel (scan t ch lv) = lv \<and> (ContainsHighRiskFindings (scan t ch lv) \<longrightarrow> ts_FindingCount (scan t ch lv) > 0))"

lemma scan_loop_pass:
  assumes "scanner_ok scan" "IsTainted (snd prov)"
    and "\<And>r. sel = Some r \<Longrightarrow> \<not> high_risk r \<and> (\<exists>t. r = scan t (fst prov) (snd prov))"
    and "scan_loop scan prov c sel ks = Inr sel'" "k \<in> set ks" "ctx_str c k = Some t" "t \<noteq> []"
  shows "\<not> ContainsHighRiskFindings (scan t (fst prov) (snd prov))"
  using assms
proof (induction ks arbitrary: sel)
  case (Cons j ks)
  have ok: "ts_TrustLevel (scan u (fst prov) (snd prov)) = snd prov"
    "ContainsHighRiskFindings (scan u (fst prov) (snd prov)) \<Longrightarrow> ts_FindingCount (scan u (fst prov) (snd prov)) > 0" for u
    using Cons.prems(1) by (auto simp: scanner_ok_def)
  show ?case
  proof (cases "ctx_str c j = None \<or> ctx_str c j = Some []")
    case True
    then have "scan_loop scan prov c sel ks = Inr sel'" using Cons.prems(4) by auto
    moreover have "k \<in> set ks" using True Cons.prems by auto
    ultimately show ?thesis using Cons.IH [OF Cons.prems(1,2,3)] Cons.prems(6,7) by blast
  next
    case False
    then obtain u where u: "ctx_str c j = Some u" "u \<noteq> []" by auto
    obtain r where r: "preferredThreatScanResult sel (Some (scan u (fst prov) (snd prov))) = Some r" using preferred_is_some by blast
    have from_scan: "\<exists>t. r = scan t (fst prov) (snd prov)"
    proof (cases sel)
      case None
      then show ?thesis using r by (auto simp: preferredThreatScanResult_def)
    next
      case (Some q)
      then have "r = q \<or> r = scan u (fst prov) (snd prov)" using preferred_keeps r by blast
      then show ?thesis using Cons.prems(3) Some by blast
    qed
    have go: "\<not> (ts_FindingCount r > 0 \<and> ContainsHighRiskFindings r)" "scan_loop scan prov c (Some r) ks = Inr sel'"
      using Cons.prems(2,4) u r by (auto split: if_splits)
    then have nr: "\<not> high_risk r" using from_scan ok by (auto simp: high_risk_def)
    then have nu: "\<not> ContainsHighRiskFindings (scan u (fst prov) (snd prov))"
      using preferred_some [OF r] Cons.prems(2) ok by (auto simp: high_risk_def)
    show ?thesis
    proof (cases "k \<in> set ks")
      case True
      then show ?thesis using Cons.IH [of "Some r"] nr from_scan go(2) Cons.prems by blast
    next
      case False
      then show ?thesis using nu u Cons.prems by auto
    qed
  qed
qed simp

end
