(* ===== verification/Guardian_Chain.thy ===== *)
theory Guardian_Chain
  imports Gates_Policy Privilege
begin

text \<open>
  The decision chain of the guardian, \<^verbatim>\<open>core/pkg/guardian/guardian.go\<close>: the final handler (trust,
  privilege, compliance, signing) behind the boundary interceptors in the order of \<^verbatim>\<open>NewGuardian\<close>,
  and what an ALLOW of the whole chain implies.
\<close>

section \<open>The final handler\<close>

definition enrich_trust :: "('b, 'ip, 'net, 'x) GateGuardian_scheme \<Rightarrow> ('b, 'y) sign_state_scheme \<Rightarrow> DecisionRequest \<Rightarrow> DecisionRequest" where
  "enrich_trust g s req =
     (if \<not> g_scorer g then req
      else case ge_score g (ss_events s) (r_Principal req) of (score, tier) \<Rightarrow>
        req\<lparr>r_Context := ctx_put (ctx_put (r_Context req) ''trust_score'' (GFloat score)) ''trust_tier'' (GStr tier)\<rparr>)"

definition effective_tier :: "('b, 'ip, 'net, 'x) GateGuardian_scheme \<Rightarrow> ('b, 'y) sign_state_scheme \<Rightarrow> (string \<Rightarrow> (string, int) res) \<Rightarrow> string \<Rightarrow> PrivilegeTier" where
  "effective_tier g s resolve who =
     (let assignedTier = (case resolve who of Inl _ \<Rightarrow> TierRestricted | Inr t \<Rightarrow> t)
      in if g_scorer g then EffectiveTier assignedTier (snd (ge_score g (ss_events s) who)) else assignedTier)"

definition privilege_denial :: "('b, 'ip, 'net, 'x) GateGuardian_scheme \<Rightarrow> ('b, 'y) sign_state_scheme \<Rightarrow> DecisionRequest \<Rightarrow> string option" where
  "privilege_denial g s req =
     (case ge_resolver g of
        None \<Rightarrow> None
      | Some resolve \<Rightarrow>
          (let t = effective_tier g s resolve (r_Principal req); required = RequiredTierForEffect (r_Action req) in
           if t < required then
             Some (''INSUFFICIENT_PRIVILEGE: agent tier '' @ Tier_String t @ '' < required '' @ Tier_String required @ '' for '' @ r_Action req)
           else None))"

definition enrich_privilege :: "('b, 'ip, 'net, 'x) GateGuardian_scheme \<Rightarrow> ('b, 'y) sign_state_scheme \<Rightarrow> DecisionRequest \<Rightarrow> DecisionRequest" where
  "enrich_privilege g s req =
     (case ge_resolver g of
        None \<Rightarrow> req
      | Some resolve \<Rightarrow>
          req\<lparr>r_Context := ctx_put (r_Context req) ''privilege_tier'' (GStr (Tier_String (effective_tier g s resolve (r_Principal req))))\<rparr>)"

definition prepare_decision :: "('b, 'ip, 'net, 'x) GateGuardian_scheme \<Rightarrow> EvaluationContext \<Rightarrow> DecisionRequest \<Rightarrow> string \<Rightarrow> gctx \<Rightarrow> DecisionRecord" where
  "prepare_decision g ec req effectDigest inputContext =
     (let d = zero_decision\<lparr>d_ID := ''dec-'' @ g_rnd g ''final'', d_Timestamp := g_clk g ''final'', d_SubjectID := r_Principal req,
            d_Action := r_Action req, d_Resource := r_Resource req, d_Verdict := VerdictDeny, d_EffectDigest := effectDigest,
            d_InputContext := inputContext, d_EnvFingerprint := envFP g, d_PolicyVersion := ec_PolicyVersion ec\<rparr>;
          d = bindRuntimePolicyDecision (ec_ActiveSnapshot ec) (ec_PolicyVersion ec) d;
          d = (case ec_SessionRiskSnapshot ec of None \<Rightarrow> d
               | Some r \<Rightarrow> d\<lparr>d_TrajectoryRiskScore := sr_TrajectoryRiskScore r, d_SessionCentroidHash := sr_SessionCentroidHash r,
                             d_RiskAccumulationWindow := sr_RiskAccumulationWindow r\<rparr>);
          d = (case ec_ThreatScanResult ec of None \<Rightarrow> d
               | Some r \<Rightarrow> if ts_FindingCount r > 0 \<or> ts_Semantic r \<noteq> None
                           then d\<lparr>d_InputContext := ctx_put (d_InputContext d) ''threat_scan'' (PolicyContext (Ref r)),
                                  d_ThreatScan := Some (PolicyContext (Ref r))\<rparr>
                           else d)
      in if ec_PDPBackend ec \<noteq> [] then
           d\<lparr>d_PolicyBackend := ec_PDPBackend ec,
             d_PolicyContentHash := (if ec_PDPHash ec \<noteq> [] then ec_PDPHash ec else d_PolicyContentHash d),
             d_PolicyDecisionHash := ec_PDPDecisionHash ec\<rparr>
         else d)"

text \<open>The effect after the record was prepared: its parameters are the record's context unless there was none.\<close>

definition final_effect :: "gctx \<Rightarrow> DecisionRecord \<Rightarrow> Effect \<Rightarrow> Effect" where
  "final_effect ctx d e =
     (if ctx = None then e
      else case e of Effect i ty ps ex di ik cmp irr ah oh ta \<Rightarrow> Effect i ty (d_InputContext d) ex di ik cmp irr ah oh ta)"

definition check_compliance ::
  "('b, 'ip, 'net, 'x) GateGuardian_scheme \<Rightarrow> DecisionRequest \<Rightarrow> (string \<times> string \<times> bool) option" where
  "check_compliance g req =
     (case ge_compliance g of
        None \<Rightarrow> None
      | Some ck \<Rightarrow>
          (case ck (r_Principal req) (r_Action req) (r_Context req) of
             Inl e \<Rightarrow> Some (''COMPLIANCE_ERROR'', ''compliance check error: '' @ e, False)
           | Inr r \<Rightarrow>
               if \<not> cr_Compliant r then
                 Some (''COMPLIANCE_VIOLATION'',
                   ''compliance violation: '' @ cr_Reason r @ '' (obligations: '' @ ge_fmt_list g (cr_ViolatedObligations r) @ '')'', True)
               else None))"

definition sign_final ::
  "('b, 'ip, 'net, 'x) GateGuardian_scheme \<Rightarrow> EvaluationContext \<Rightarrow> DecisionRequest \<Rightarrow> DecisionRecord \<Rightarrow> Effect \<Rightarrow> ('b, 'net, 'y) gate_state_scheme \<Rightarrow>
   ('b, 'net, 'y) gate_state_scheme \<times> (guardian_error, DecisionRecord) res" where
  "sign_final g ec req d effect s =
     (case bindDecisionRequest req d of
        Inl e \<Rightarrow> (s, Err e)
      | Inr d \<Rightarrow>
          (case signDecisionWithGraph g (Some d) effect [] (ec_Intervention ec) (ec_ActiveGraph ec) (ec_PDPAuthoritativeAllow ec) s of
             (s, Inl e) \<Rightarrow> (s, Err e)
           | (s, Inr d) \<Rightarrow>
               (let s = (if d_Verdict d = VerdictAllow then recordBehavioralEvent g (r_Principal req) ''POLICY_COMPLY'' ''decision allowed'' s
                         else if d_Verdict d = VerdictDeny then
                           recordBehavioralEvent g (r_Principal req) ''POLICY_VIOLATE'' (''decision denied: '' @ d_ReasonCode d) s
                         else s)
                in case append_audit g ''DECISION_MADE'' d s of
                     (s, Inl e) \<Rightarrow> (s, Err (AuditFailure (d_ID d) []))
                   | (s, Inr _) \<Rightarrow> (s, Ok d))))"

definition finalHandler :: "('b, 'ip, 'net, 'x) GateGuardian_scheme \<Rightarrow> ('b, 'net, 'y) gate_state_scheme handler" where
  "finalHandler g ec s =
     (let req = enrich_trust g s (ec_Request ec)
      in case privilege_denial g s req of
           Some why \<Rightarrow> (s, signDecisionWithContext g ec (new_decision g ''privilege'' VerdictDeny ''INSUFFICIENT_PRIVILEGE'' why))
         | None \<Rightarrow>
           (let req = enrich_privilege g s req;
                (effect, inputContext) = request_effect g ''final'' req
            in case CanonicalEffectDigest (g_digest g) (Some effect) of
                 Inl e \<Rightarrow> (s, Err (EffectDigestError e))
               | Inr effectDigest \<Rightarrow>
                   (let d = prepare_decision g ec req effectDigest inputContext;
                        req' = (if r_Context req = None then req else req\<lparr>r_Context := d_InputContext d\<rparr>)
                    in case check_compliance g req' of
                         Some (code, why, violation) \<Rightarrow>
                           (case signDecisionWithContext g ec (d\<lparr>d_Verdict := VerdictDeny, d_ReasonCode := code, d_Reason := why\<rparr>) of
                              Inl e \<Rightarrow> (s, Err e)
                            | Inr d' \<Rightarrow>
                                (if violation then recordBehavioralEvent g (r_Principal req) ''POLICY_VIOLATE'' ''compliance violation'' s else s, Ok d'))
                       | None \<Rightarrow> sign_final g ec req' d (final_effect (r_Context req) d effect) s)))"

section \<open>The chain\<close>

definition boundaryChain :: "('b, 'ip, 'net, 'x) GateGuardian_scheme \<Rightarrow> (('b, 'net, 'y) gate_state_scheme handler \<Rightarrow> ('b, 'net, 'y) gate_state_scheme handler) list" where
  "boundaryChain g =
     [run_gate (zeroid_gate g), run_gate (temporal_gate g), run_gate (stop_plane_gate g), run_gate (policy_gate g),
      run_gate (taint_egress_gate g), run_gate (assumption_gate g), run_gate (sandbox_gate g)]"

definition run_chain :: "('b, 'ip, 'net, 'x) GateGuardian_scheme \<Rightarrow> ('b, 'net, 'y) gate_state_scheme handler" where
  "run_chain g = Execute_chain (boundaryChain g) (finalHandler g)"

section \<open>What the final handler guarantees\<close>

lemma enrich_keeps [simp]:
  "r_Principal (enrich_trust g s q) = r_Principal q" "r_Action (enrich_trust g s q) = r_Action q" "r_Resource (enrich_trust g s q) = r_Resource q"
  "r_Principal (enrich_privilege g s q) = r_Principal q" "r_Action (enrich_privilege g s q) = r_Action q"
  "r_Resource (enrich_privilege g s q) = r_Resource q"
  by (simp_all add: enrich_trust_def enrich_privilege_def split: prod.split option.split)

lemma prepare_keeps [simp]:
  "d_SubjectID (prepare_decision g ec q dg c) = r_Principal q" "d_Action (prepare_decision g ec q dg c) = r_Action q"
  "d_Resource (prepare_decision g ec q dg c) = r_Resource q" "d_EffectDigest (prepare_decision g ec q dg c) = dg"
  by (simp_all add: prepare_decision_def bindRuntimePolicyDecision_def Let_def zero_decision_def split: option.split)

lemma effect_type [simp]: "EffectType (final_effect c d (fst (request_effect g site q))) = r_Action q"
  by (simp add: request_effect_def final_effect_def Let_def)

text \<open>Signing changes only the budget and the recorded events.\<close>

lemma event_frame: "\<exists>e. recordBehavioralEvent g w t r s = s\<lparr>ss_events := e\<rparr>"
  by (auto simp: recordBehavioralEvent_def intro: exI [of _ "ss_events s"])

lemma budget_frame: "\<exists>b. fst (check_budget g e s) = s\<lparr>ss_budget := b\<rparr>" "\<exists>b. fst (consume_budget g e s) = s\<lparr>ss_budget := b\<rparr>"
  by (auto simp: check_budget_def consume_budget_def split: option.splits prod.splits sum.splits intro: exI [of _ "ss_budget s"])

lemma allow_frame:
  assumes "signDecisionWithGraph g (Some d0) e hs iv rg pdp s = (s', Ok d)" "d_Verdict d = VerdictAllow"
  shows "\<exists>b ev. s' = s\<lparr>ss_budget := b, ss_events := ev\<rparr>"
proof -
  obtain arts d3 where "sign_gates g rg pdp arts e d3 s = (s', Ok d)"
    using sign_graph_cases [OF assms(1)] assms(2) by (auto split: if_splits)
  from sign_gates_allow [OF this assms(2)] obtain s1 s2 where st: "check_budget g e s = (s1, None)" "consume_budget g e s1 = (s2, None)"
    "s' = recordBehavioralEvent g (d_SubjectID d3) ''POLICY_COMPLY'' ''policy evaluation passed'' s2" by blast
  obtain b1 where b1: "s1 = s\<lparr>ss_budget := b1\<rparr>" using budget_frame(1) [of g e s] st(1) by auto
  obtain b2 where b2: "s2 = s1\<lparr>ss_budget := b2\<rparr>" using budget_frame(2) [of g e s1] st(2) by auto
  obtain ev where ev: "s' = s2\<lparr>ss_events := ev\<rparr>" using event_frame [of g "d_SubjectID d3" "''POLICY_COMPLY''" "''policy evaluation passed''" s2] st(3) by auto
  show ?thesis unfolding ev b2 b1 by auto
qed

lemma audit_frame: "\<exists>l. fst (append_audit g a d s) = s\<lparr>gs_audit := l\<rparr>"
  by (auto simp: append_audit_def split: option.splits prod.splits sum.splits intro: exI [of _ "gs_audit s"])

definition signed_and_audited ::
  "('b, 'ip, 'net, 'x) GateGuardian_scheme \<Rightarrow> EvaluationContext \<Rightarrow> ('b, 'net, 'y) gate_state_scheme \<Rightarrow> DecisionRecord \<Rightarrow> ('b, 'net, 'y) gate_state_scheme \<Rightarrow> bool" where
  "signed_and_audited g ec s d s' \<longleftrightarrow>
     (\<exists>d0 effect s1. signDecisionWithGraph g (Some d0) effect [] (ec_Intervention ec) (ec_ActiveGraph ec) (ec_PDPAuthoritativeAllow ec) s = (s1, Ok d) \<and>
        EffectType effect = r_Action (ec_Request ec) \<and> d_SubjectID d0 = r_Principal (ec_Request ec) \<and>
        d_Action d0 = r_Action (ec_Request ec) \<and> d_Resource d0 = r_Resource (ec_Request ec) \<and>
        (\<exists>s2. gs_audit s2 = gs_audit s \<and> append_audit g ''DECISION_MADE'' d s2 = (s', Ok ())))"

lemma sign_final_allow:
  assumes "sign_final g ec q d0 effect s = (s', Ok d)" "d_Verdict d = VerdictAllow"
    and "d_SubjectID d0 = r_Principal q" "d_Action d0 = r_Action q" "d_Resource d0 = r_Resource q" "EffectType effect = r_Action q"
    and "r_Principal q = r_Principal (ec_Request ec)" "r_Action q = r_Action (ec_Request ec)" "r_Resource q = r_Resource (ec_Request ec)"
  shows "signed_and_audited g ec s d s' \<and> (\<exists>b ev l. s' = s\<lparr>ss_budget := b, ss_events := ev, gs_audit := l\<rparr>)"
proof -
  obtain d1 where d1: "bindDecisionRequest q d0 = Ok d1" using assms(1) by (auto simp: sign_final_def split: sum.splits)
  then have id: "d1 = d0" using assms(3-5) by (simp add: bind_ok)
  obtain s1 r where sg: "signDecisionWithGraph g (Some d0) effect [] (ec_Intervention ec) (ec_ActiveGraph ec) (ec_PDPAuthoritativeAllow ec) s = (s1, r)"
    by fastforce
  note run = assms(1) [unfolded sign_final_def d1 sum.case id sg prod.case]
  obtain d2 where r: "r = Ok d2" using run by (cases r) auto
  obtain s2 where ap: "append_audit g ''DECISION_MADE'' d2 s2 = (s', Ok ())" and d2: "d2 = d"
    and s2: "d_Verdict d2 = VerdictAllow \<Longrightarrow> s2 = recordBehavioralEvent g (r_Principal q) ''POLICY_COMPLY'' ''decision allowed'' s1"
    using run unfolding r by (auto simp: Let_def split: prod.splits sum.splits)
  have sg': "signDecisionWithGraph g (Some d0) effect [] (ec_Intervention ec) (ec_ActiveGraph ec) (ec_PDPAuthoritativeAllow ec) s = (s1, Ok d)"
    using sg r d2 by simp
  obtain b ev where s1: "s1 = s\<lparr>ss_budget := b, ss_events := ev\<rparr>" using allow_frame [OF sg' assms(2)] by blast
  obtain ev' where s2': "s2 = s1\<lparr>ss_events := ev'\<rparr>" using s2 d2 assms(2) event_frame by metis
  obtain l where l: "s' = s2\<lparr>gs_audit := l\<rparr>" using audit_frame [of g "''DECISION_MADE''" d2 s2] ap by auto
  have "gs_audit s2 = gs_audit s" by (simp add: s2' s1)
  then have "signed_and_audited g ec s d s'" unfolding signed_and_audited_def using sg' ap d2 assms(3-9) by auto
  moreover have "\<exists>b ev l. s' = s\<lparr>ss_budget := b, ss_events := ev, gs_audit := l\<rparr>" unfolding l s2' s1 by auto
  ultimately show ?thesis by blast
qed

lemma final_allow:
  assumes "finalHandler g ec s = (s', Ok d)" "d_Verdict d = VerdictAllow"
  shows "signed_and_audited g ec s d s' \<and> (\<exists>b ev l. s' = s\<lparr>ss_budget := b, ss_events := ev, gs_audit := l\<rparr>) \<and>
    (\<forall>resolve. ge_resolver g = Some resolve \<longrightarrow>
       RequiredTierForEffect (r_Action (ec_Request ec)) \<le> effective_tier g s resolve (r_Principal (ec_Request ec))) \<and>
    (\<forall>ck. ge_compliance g = Some ck \<longrightarrow>
       (\<exists>c r. ck (r_Principal (ec_Request ec)) (r_Action (ec_Request ec)) c = Ok r \<and> cr_Compliant r))"
proof -
  define q where "q = enrich_trust g s (ec_Request ec)"
  define q1 where "q1 = enrich_privilege g s q"
  obtain e0 ic where re: "request_effect g ''final'' q1 = (e0, ic)" by fastforce
  have priv: "privilege_denial g s q = None"
    using assms by (cases "privilege_denial g s q") (auto simp: finalHandler_def q_def Let_def dest: sign_context_verdict)
  note run = assms(1) [unfolded finalHandler_def Let_def, folded q_def, unfolded priv option.case, folded q1_def, unfolded re prod.case]
  obtain dg where dg: "CanonicalEffectDigest (g_digest g) (Some e0) = Ok dg"
    using run by (cases "CanonicalEffectDigest (g_digest g) (Some e0)") auto
  define pd where "pd = prepare_decision g ec q1 dg ic"
  define q2 where "q2 = (if r_Context q1 = None then q1 else q1\<lparr>r_Context := d_InputContext pd\<rparr>)"
  note run2 = run [unfolded dg sum.case, folded pd_def, folded q2_def]
  have tup: "r_Principal q2 = r_Principal (ec_Request ec)" "r_Action q2 = r_Action (ec_Request ec)" "r_Resource q2 = r_Resource (ec_Request ec)"
    by (simp_all add: q2_def q1_def q_def)
  have q2q1: "r_Principal q1 = r_Principal q2" "r_Action q1 = r_Action q2" "r_Resource q1 = r_Resource q2" by (simp_all add: q2_def)
  have comp: "check_compliance g q2 = None"
    using run2 assms(2)
    by (cases "check_compliance g q2") (auto dest!: sign_context_verdict split: sum.splits prod.splits)
  have sf: "sign_final g ec q2 pd (final_effect (r_Context q1) pd e0) s = (s', Ok d)" using run2 unfolding comp by simp
  have et: "EffectType (final_effect (r_Context q1) pd e0) = r_Action q2"
    using effect_type [of "r_Context q1" pd g "''final''" q1] re q2q1 by simp
  have "signed_and_audited g ec s d s' \<and> (\<exists>b ev l. s' = s\<lparr>ss_budget := b, ss_events := ev, gs_audit := l\<rparr>)"
    by (rule sign_final_allow [OF sf assms(2) _ _ _ et tup]) (simp_all add: pd_def q2q1)
  moreover have "RequiredTierForEffect (r_Action (ec_Request ec)) \<le> effective_tier g s resolve (r_Principal (ec_Request ec))"
    if "ge_resolver g = Some resolve" for resolve
    using priv that by (auto simp: privilege_denial_def q_def Let_def split: if_splits)
  moreover have "\<exists>c r. ck (r_Principal (ec_Request ec)) (r_Action (ec_Request ec)) c = Ok r \<and> cr_Compliant r"
    if "ge_compliance g = Some ck" for ck
    using comp that tup by (auto simp: check_compliance_def split: sum.splits if_splits)
  ultimately show ?thesis by blast
qed

section \<open>The chain as a whole\<close>

text \<open>An allowed request went through every gate; the states and contexts it saw on the way.\<close>

lemma chain_trace:
  assumes "run_chain g ec s = (s', Ok d)" "d_Verdict d = VerdictAllow"
  obtains s1 ec1 s2 ec2 s3 ec3 s4 ec4 ec5 s5 ec6 ec7 where
    "zeroid_gate g ec s = (s, Go ec)"
    "temporal_gate g ec s = (s1, Go ec1)" "same_request ec ec1" "ec_ctx ec1 = ec_ctx ec"
    "stop_plane_gate g ec1 s1 = (s2, Go ec1)"
    "ec2 = set_ctx (ctx_del (ec_ctx ec1) ''threat_scan'') ec1"
    "isolation_gate g ec2 s2 = (s3, Go ec2)" "same_request ec ec2" "ctx_kept policy_keys (ec_ctx ec) (ec_ctx ec2)"
    "threat_gate g ec2 s3 = (s3, Go ec3)" "same_request ec ec3" "ctx_kept policy_keys (ec_ctx ec) (ec_ctx ec3)"
    "delegation_gate g ec3 s3 = (s4, Go ec4)" "same_request ec ec4" "ctx_kept policy_keys (ec_ctx ec) (ec_ctx ec4)"
    "pdp_gate g ec4 s4 = (s4, Go ec5)" "same_request ec ec5" "ctx_kept policy_keys (ec_ctx ec) (ec_ctx ec5)"
    "egress_gate g ec5 s4 = (s5, Go ec5)" "taint_gate g ec5 s5 = (s5, Go ec6)"
    "same_request ec ec6" "ctx_kept (insert ''taint'' policy_keys) (ec_ctx ec) (ec_ctx ec6)"
    "assumption_gate g ec6 s5 = (s5, Go ec6)"
    "sandbox_gate g ec6 s5 = (s5, Go ec7)" "same_request ec ec7"
    "finalHandler g ec7 s5 = (s', Ok d)"
proof -
  note run = assms(1) [unfolded run_chain_def boundaryChain_def Execute_chain.simps]
  have z: "zeroid_gate g ec s = (s, Go ec)" and r1: "run_gate (temporal_gate g) (run_gate (stop_plane_gate g) (run_gate (policy_gate g)
      (run_gate (taint_egress_gate g) (run_gate (assumption_gate g) (run_gate (sandbox_gate g) (finalHandler g)))))) ec s = (s', Ok d)"
    using zeroid.allow_passes [OF run assms(2)] zeroid_go by metis+
  obtain s1 ec1 where t: "temporal_gate g ec s = (s1, Go ec1)" "same_request ec ec1"
    and r2: "run_gate (stop_plane_gate g) (run_gate (policy_gate g)
      (run_gate (taint_egress_gate g) (run_gate (assumption_gate g) (run_gate (sandbox_gate g) (finalHandler g))))) ec1 s1 = (s', Ok d)"
    using temporal.allow_passes [OF r1 assms(2)] by blast
  have c1: "ec_ctx ec1 = ec_ctx ec" using temporal_go [OF t(1)] by (auto split: option.splits)
  obtain s2 where sp: "stop_plane_gate g ec1 s1 = (s2, Go ec1)"
    and r3: "run_gate (policy_gate g) (run_gate (taint_egress_gate g) (run_gate (assumption_gate g) (run_gate (sandbox_gate g) (finalHandler g))))
      ec1 s2 = (s', Ok d)"
    using stop_plane.allow_passes [OF r2 assms(2)] stop_plane_go by metis
  obtain s4 ec5 where p: "policy_gate g ec1 s2 = (s4, Go ec5)" "same_request ec1 ec5" "ctx_kept policy_keys (ec_ctx ec1) (ec_ctx ec5)"
    and r4: "run_gate (taint_egress_gate g) (run_gate (assumption_gate g) (run_gate (sandbox_gate g) (finalHandler g))) ec5 s4 = (s', Ok d)"
    using policy.allow_passes [OF r3 assms(2)] by blast
  obtain s5 ec6 where te: "taint_egress_gate g ec5 s4 = (s5, Go ec6)" "same_request ec5 ec6" "ctx_kept {''taint''} (ec_ctx ec5) (ec_ctx ec6)"
    and r5: "run_gate (assumption_gate g) (run_gate (sandbox_gate g) (finalHandler g)) ec6 s5 = (s', Ok d)"
    using taint_egress.allow_passes [OF r4 assms(2)] by blast
  have a: "assumption_gate g ec6 s5 = (s5, Go ec6)" and r6: "run_gate (sandbox_gate g) (finalHandler g) ec6 s5 = (s', Ok d)"
    using assumption.allow_passes [OF r5 assms(2)] assumption_go by metis+
  obtain ec7 where sb: "sandbox_gate g ec6 s5 = (s5, Go ec7)" "same_request ec6 ec7" and f: "finalHandler g ec7 s5 = (s', Ok d)"
    using sandbox.allow_passes [OF r6 assms(2)] sandbox_go by metis
  define ec2 where "ec2 = set_ctx (ctx_del (ec_ctx ec1) ''threat_scan'') ec1"
  obtain s3 ec3 ec4 where i: "isolation_gate g ec2 s2 = (s3, Go ec2)" and th: "threat_gate g ec2 s3 = (s3, Go ec3)"
    and dl: "delegation_gate g ec3 s3 = (s4, Go ec4)" and pd: "pdp_gate g ec4 s4 = (s4, Go ec5)"
    using p(1) isolation_go threat_go pdp_go unfolding policy_gate_def then_gate_go scrub_gate_def prod.inject gate_result.inject ec2_def by metis
  have eg: "egress_gate g ec5 s4 = (s5, Go ec5)" and ta: "taint_gate g ec5 s5 = (s5, Go ec6)"
    using te(1) egress_go taint_go unfolding taint_egress_gate_def then_gate_go by metis+
  have k2: "ctx_kept policy_keys (ec_ctx ec) (ec_ctx ec2)" "same_request ec ec2"
    using t(2) c1 by (simp_all add: ec2_def policy_keys_def)
  have sub: "ctx_kept K x y \<Longrightarrow> K \<subseteq> L \<Longrightarrow> ctx_kept L x y" for K L x y by (auto simp: ctx_kept_def)
  have k3: "ctx_kept policy_keys (ec_ctx ec) (ec_ctx ec3)" "same_request ec ec3"
    using threat_go [OF th] k2 sub [OF ctx_kept_trans [OF k2(1)], of "{''threat_scan''}"] same_request_trans
    by (auto simp: policy_keys_def)
  have k4: "ctx_kept policy_keys (ec_ctx ec) (ec_ctx ec4)" "same_request ec ec4"
    using delegation_go [OF dl] k3 sub [OF ctx_kept_trans [OF k3(1)], of "{''delegation_validated'', ''delegation_delegator'', ''delegation_delegate''}"]
      same_request_trans by (auto simp: policy_keys_def)
  have k5: "ctx_kept policy_keys (ec_ctx ec) (ec_ctx ec5)" "same_request ec ec5"
    using p t c1 same_request_trans by metis+
  have k6: "ctx_kept (insert ''taint'' policy_keys) (ec_ctx ec) (ec_ctx ec6)" "same_request ec ec6" "same_request ec ec7"
    using ctx_kept_trans [OF k5(1) te(3)] k5(2) te(2) sb(2) same_request_trans by (auto simp: Un_commute)
  show thesis by (rule that [OF z t c1 sp ec2_def i k2(2,1) th k3(2,1) dl k4(2,1) pd k5(2,1) eg ta k6(2,1) a sb(1) k6(3) f])
qed

end
