(* ===== verification/Guardian_Example.thy ===== *)
theory Guardian_Example
  imports Guardian_Chain
begin

text \<open>
  A small configuration in which every gate of the guardian's chain is switched on, and a request that
  passes all of them: the concrete input for the examples of the theorems about the chain.
\<close>

section \<open>The configuration\<close>

definition w_scan :: "string \<Rightarrow> string \<Rightarrow> string \<Rightarrow> ThreatScanResult" where
  "w_scan t ch lv =
     \<lparr>ts_ScanID = ''s'', ts_Timestamp = 0, ts_SourceChannel = ch, ts_TrustLevel = lv,
      ts_MaxSeverity = (if t = ''attack'' then ''CRITICAL'' else ''INFO''), ts_FindingCount = (if t = ''attack'' then 1 else 0),
      ts_Findings = [], ts_RawInputHash = t, ts_NormalizedInputHash = t, ts_Semantic = None\<rparr>"

definition w_assumption :: ObservedAssumption where
  "w_assumption = \<lparr>oa_AssumptionID = ''a1'', oa_Subject = ''page'', oa_ObservationType = ''screenshot'',
     oa_ContentHash = ''sha256:'' @ replicate 64 (CHR ''0''), oa_CapturedAt = 62135596800000000000, oa_TTLSeconds = 60, oa_AssumptionHash = []\<rparr>"

definition w_pdp :: PolicyDecisionPoint where
  "w_pdp = \<lparr>pdp_Evaluate = (\<lambda>q. Ok \<lparr>pd_Allow = (pr_Action q = ''WRITE''), pd_ReasonCode = [], pd_PolicyRef = ''p1'', pd_DecisionHash = ''dh''\<rparr>),
     pdp_Backend = ''cedar'', pdp_PolicyHash = ''ph'', pdp_AuthoritativeAllow = None\<rparr>"

definition w_gates_with :: "'x \<Rightarrow> (int, string, string, 'x) GateGuardian_scheme" where
  "w_gates_with x = GateGuardian.extend (Guardian.extend w_guardian (GateGuardian.fields ''fp'' \<lparr>fl = (\<lambda>x. x), fmt1 = (\<lambda>x. []), fmtd = (\<lambda>i. [])\<rparr>
     \<lparr>at_event = 9, at_record_prune = 9, at_rate_prune = 9, at_decision = 9\<rparr>
     None (Some (\<lambda>sc. Ok (\<lparr>fn_CommandID = [], fn_Epoch = 0, fn_ReceiptHash = []\<rparr>, sc \<noteq> (''t'', ''w''))))
     (\<lambda>t w. Ok (t @ w)) (\<lambda>b. Ok ''stop'')
     \<lparr>h_digest = (\<lambda>x. x), h_goos = ''linux'', h_goarch = ''amd64'', h_hostname = None, h_exe = None, h_wd = None\<rparr> ''panic''
     (Some w_scan) 0 (\<lambda>t. []) (\<lambda>s. s) (\<lambda>l. [])
     \<lparr>ParseIP = (\<lambda>s. None), ParseCIDR = (\<lambda>s. None), Contains = (\<lambda>n i. False)\<rparr> (\<lambda>x. 0) [] False
     (\<lambda>v. Ok [w_assumption]) (\<lambda>a. Ok ''seal'') (Some (\<lambda>a. Ok (oa_ContentHash a))) None
     (\<lambda>ev who. (1, ''NEUTRAL'')) (Some (ResolveTier (SetTier ''alice'' TierStandard (NewStaticPrivilegeResolver TierRestricted))))
     (Some (\<lambda>who act c. Ok \<lparr>cr_Compliant = True, cr_Reason = [], cr_ViolatedObligations = []\<rparr>))
     (\<lambda>d. []) \<lparr>au_jcs = (\<lambda>d. Some []), au_sha = (\<lambda>b. b)\<rparr>)) x"

abbreviation w_gates :: "(int, string, string) GateGuardian" where
  "w_gates \<equiv> w_gates_with ()"

definition w_session :: DelegationSession where
  "w_session = AddAllowedTool ''file'' (NewDelegationSession ''sess'' ''bob'' ''alice'' ''nonce'' ''policy'' ''root'' 0 62135596860000000000 True 0)"

definition w_store :: InMemoryDelegationStore where
  "w_store = Store_session w_session NewInMemoryDelegationStore"

definition w_state_with :: "'y \<Rightarrow> InMemoryDelegationStore \<Rightarrow> (int, string, 'y) gate_state_scheme" where
  "w_state_with y store = \<lparr>ss_budget = 1, ss_events = [], gs_revokedTokens = [],
     gs_temporal = Some (NewTemporalGuardian DefaultEscalationPolicy 0), gs_freeze = Some NewFreezeController,
     gs_kill = Some (fst (Kill (\<lambda>x. []) (\<lambda>t. []) 0 ''mallory'' ''root'' ''abuse'' NewAgentKillSwitch)),
     gs_contextGuard = Some (NewContextGuardWithFingerprint 0 (fingerprint (ge_host w_gates))),
     gs_isolation = Some NewIsolationChecker, gs_delegation = Some store,
     gs_egress = Some (NewEgressChecker (\<lambda>s. s) (ge_netlib w_gates)
        (Some \<lparr>AllowedDomains = [''api''], DeniedDomains = [], AllowedCIDRs = [], AllowedProtocols = [], MaxPayloadBytes = 0\<rparr>)),
     gs_audit = Some NewAuditLog, \<dots> = y\<rparr>"

abbreviation w_state :: "InMemoryDelegationStore \<Rightarrow> (int, string) gate_state" where
  "w_state \<equiv> w_state_with ()"

definition w_ctx :: gctx where
  "w_ctx = Some [(''security_context_trusted'', GBool True), (''credential_hash'', GStr ''cred''), (''tenant_id'', GStr ''t''),
     (''workspace_id'', GStr ''w''), (''trust_level'', GStr ''TAINTED''), (''user_input'', GStr ''hello''),
     (''delegation_session_id'', GStr ''sess''), (''destination'', GStr ''api''), (''egress_destination_required'', GBool True),
     (''assumptions'', GStr ''a1'')]"

definition w_ec :: EvaluationContext where
  "w_ec = \<lparr>ec_Request = \<lparr>r_Principal = ''alice'', r_Action = ''WRITE'', r_Resource = ''file'', r_Context = w_ctx, r_SessionHistory = []\<rparr>,
     ec_ActiveSnapshot = Some w_snapshot, ec_PolicyVersion = ''p'', ec_ActiveGraph = ps_Graph w_snapshot, ec_ActivePDP = Some w_pdp,
     ec_Tainted = False, ec_Intervention = None, ec_ThreatScanResult = None, ec_SessionRiskSnapshot = None,
     ec_PDPBackend = [], ec_PDPHash = [], ec_PDPDecisionHash = [], ec_PDPAuthoritativeAllow = False\<rparr>"

section \<open>The request passes every gate\<close>

text \<open>The context on the way: the same request, with keys written by the gates.\<close>

definition w_free :: "string set" where
  "w_free = policy_keys \<union> {k. take 11 k = ''capability_''} \<union> {''task_id''}"

definition w_like :: "EvaluationContext \<Rightarrow> bool" where
  "w_like ec \<longleftrightarrow> same_request w_ec ec \<and> ctx_kept w_free w_ctx (ec_ctx ec) \<and> ec_Intervention ec = None \<and> ec_SessionRiskSnapshot ec = None"

lemma w_trim [simp]:
  "TrimSpace ''cred'' = ''cred''" "TrimSpace ''t'' = ''t''" "TrimSpace ''w'' = ''w''" "TrimSpace ''TAINTED'' = ''TAINTED''" "TrimSpace ''api'' = ''api''"
  by (simp_all add: TrimSpace_visible visible_def)

lemma w_like_get: "w_like ec \<Longrightarrow> k \<notin> w_free \<Longrightarrow> ctx_get (ec_ctx ec) k = ctx_get w_ctx k"
  by (simp add: w_like_def ctx_kept_def)

lemma w_like_request [simp]:
  assumes "w_like ec"
  shows "r_Principal (ec_Request ec) = ''alice''" "r_Action (ec_Request ec) = ''WRITE''" "r_Resource (ec_Request ec) = ''file''"
    "ec_ActivePDP ec = Some w_pdp" "ec_ActiveGraph ec = ps_Graph w_snapshot" "ec_ActiveSnapshot ec = Some w_snapshot"
    "ec_Intervention ec = None" "ec_SessionRiskSnapshot ec = None" "\<not> ec_PDPAuthoritativeAllow ec"
proof -
  have "pdp_AuthoritativeAllow w_pdp = None" by (simp add: w_pdp_def)
  moreover note assms [unfolded w_like_def same_request_def]
  ultimately show "r_Principal (ec_Request ec) = ''alice''" "r_Action (ec_Request ec) = ''WRITE''" "r_Resource (ec_Request ec) = ''file''"
    "ec_ActivePDP ec = Some w_pdp" "ec_ActiveGraph ec = ps_Graph w_snapshot" "ec_ActiveSnapshot ec = Some w_snapshot"
    "ec_Intervention ec = None" "ec_SessionRiskSnapshot ec = None" "\<not> ec_PDPAuthoritativeAllow ec"
    by (auto simp: w_ec_def)
qed

lemma ctx_get_w: "ctx_get w_ctx k = map_of (the w_ctx) k" "the w_ctx =
    [(''security_context_trusted'', GBool True), (''credential_hash'', GStr ''cred''), (''tenant_id'', GStr ''t''),
     (''workspace_id'', GStr ''w''), (''trust_level'', GStr ''TAINTED''), (''user_input'', GStr ''hello''),
     (''delegation_session_id'', GStr ''sess''), (''destination'', GStr ''api''), (''egress_destination_required'', GBool True),
     (''assumptions'', GStr ''a1'')]"
  by (simp_all add: ctx_get_def w_ctx_def)

lemmas w_context = w_like_get ctx_str_def ctx_bool_def ctx_float_def policy_keys_def w_free_def ctx_get_w

lemma w_context_facts:
  assumes "w_like ec"
  shows "trustedContextString (ec_ctx ec) ''credential_hash'' = Some ''cred''" "snd (trustedInputProvenance (ec_ctx ec)) = ''TAINTED''"
    "trustedContextString (ec_ctx ec) ''destination'' = Some ''api''" "ctx_str (ec_ctx ec) ''delegation_session_id'' = Some ''sess''"
    "stringContextValue (ec_ctx ec) [''tenant_id'', ''tenantId'', ''tenant''] = Some ''t''"
    "stringContextValue (ec_ctx ec) [''workspace_id'', ''workspaceId'', ''workspace''] = Some ''w''"
    "ctx_str (ec_ctx ec) ''user_input'' = Some ''hello''" "ctx_str (ec_ctx ec) ''text'' = None" "ctx_str (ec_ctx ec) ''content'' = None"
    "ctx_float (ec_ctx ec) ''payload_size'' = None" "ctx_str (ec_ctx ec) ''zeroid_token'' = None" "ctx_str (ec_ctx ec) ''spiffe_uri'' = None"
    "ctx_get (ec_ctx ec) ''assumptions'' = Some (GStr ''a1'')" "ctx_get (ec_ctx ec) ''taint_labels'' = None" "ctx_str (ec_ctx ec) ''tool_name'' = None"
proof -
  note [simp] = assms w_context
  show "trustedContextString (ec_ctx ec) ''credential_hash'' = Some ''cred''" "snd (trustedInputProvenance (ec_ctx ec)) = ''TAINTED''"
    "trustedContextString (ec_ctx ec) ''destination'' = Some ''api''"
    by (simp_all add: trustedInputProvenance_def trustedContextString_def trustedSecurityContext_def)
  show "stringContextValue (ec_ctx ec) [''tenant_id'', ''tenantId'', ''tenant''] = Some ''t''"
    "stringContextValue (ec_ctx ec) [''workspace_id'', ''workspaceId'', ''workspace''] = Some ''w''"
    by (simp_all add: stringContextValue_def)
qed (simp_all add: assms w_context)

lemma w_gates_fields [simp]:
  "ge_envFprint (w_gates_with x) = ''fp''" "ge_freeze_source (w_gates_with x) = None" "ge_scan (w_gates_with x) = Some w_scan" "ge_thresholdBP (w_gates_with x) = 0"
  "ge_warm_pool (w_gates_with x) = None" "ge_observer (w_gates_with x) = Some (\<lambda>a. Ok (oa_ContentHash a))" "ge_decode_assumptions (w_gates_with x) v = Ok [w_assumption]"
  "g_clk (w_gates_with x) p = 62135596800000000000" "g_scorer (w_gates_with x)" "ge_score (w_gates_with x) ev who = (1, ''NEUTRAL'')" "ge_quote (w_gates_with x) z = z"
  "ge_compliance (w_gates_with x) = Some (\<lambda>who act c. Ok \<lparr>cr_Compliant = True, cr_Reason = [], cr_ViolatedObligations = []\<rparr>)"
  "ge_resolver (w_gates_with x) = Some (ResolveTier (SetTier ''alice'' TierStandard (NewStaticPrivilegeResolver TierRestricted)))"
  "ge_scoped_stop (w_gates_with x) = Some (\<lambda>sc. Ok (\<lparr>fn_CommandID = [], fn_Epoch = 0, fn_ReceiptHash = []\<rparr>, sc \<noteq> (''t'', ''w'')))"
  "ge_temporal_clock (w_gates_with x) = \<lparr>at_event = 9, at_record_prune = 9, at_rate_prune = 9, at_decision = 9\<rparr>"
  "fl (ge_float (w_gates_with x)) = (\<lambda>x. x)" "ge_audit (w_gates_with x) = \<lparr>au_jcs = (\<lambda>d. Some []), au_sha = (\<lambda>b. b)\<rparr>"
  "g_digest (w_gates_with x) = \<lparr>de_ul = (\<lambda>s. s), de_clone = (\<lambda>c. Ok c), de_hash = (\<lambda>b. Ok ''digest'')\<rparr>"
  "g_sign (w_gates_with x) d = Ok (''sig'', ''ed25519'', ''decision_record.v4'')" "g_toMap (w_gates_with x) e = Ok ()" "g_cel (w_gates_with x) = (\<lambda>x i. Ok True)"
  "ge_host (w_gates_with x) = \<lparr>h_digest = (\<lambda>x. x), h_goos = ''linux'', h_goarch = ''amd64'', h_hostname = None, h_exe = None, h_wd = None\<rparr>"
  "ge_netlib (w_gates_with x) = \<lparr>ParseIP = (\<lambda>s. None), ParseCIDR = (\<lambda>s. None), Contains = (\<lambda>n i. False)\<rparr>"
  "g_rnd (w_gates_with x) p = ''r''" "g_tracker (w_gates_with x) = Some w_gate"
  by (simp_all add: w_gates_with_def Guardian.defs GateGuardian.defs w_guardian_def)

lemma w_zeroid: "w_like ec \<Longrightarrow> zeroid_gate (w_gates_with x) ec s = (s, Go ec)"
  by (simp add: zeroid_go w_context_facts or_empty_def)

lemma w_temporal:
  assumes "gs_temporal s = Some (NewTemporalGuardian DefaultEscalationPolicy 0)"
  shows "\<exists>s'. temporal_gate (w_gates_with x) ec s = (s', Go ec)"
proof -
  have "gr_Level (snd (Evaluate (ge_float (w_gates_with x)) (ge_temporal_clock (w_gates_with x)) (NewTemporalGuardian DefaultEscalationPolicy 0))) = ResponseObserve"
    by (simp add: Evaluate_def Record_effect_def Rate_def prune_def checkDeescalation_def checkEscalation_def Let_def
      NewTemporalGuardian_def NewControllabilityEnvelope_def DefaultEscalationPolicy_def response_levels Seconds_def escalate_one_def second_def)
  then show ?thesis using assms by (auto simp: temporal_gate_def Let_def response_levels split: prod.splits)
qed

lemma w_stop_plane:
  assumes "w_like ec" "gs_freeze s = gs_freeze (w_state_with y st)" "gs_kill s = gs_kill (w_state_with y st)" "gs_contextGuard s = gs_contextGuard (w_state_with y st)"
  shows "\<exists>s'. stop_plane_gate (w_gates_with x) ec s = (s', Go ec)"
proof -
  have f: "freeze_gate (w_gates_with x) ec s = (s, Go ec)"
    using assms(2) by (simp add: freeze_gate_def w_state_with_def IsFrozen_def RefreshState_def NewFreezeController_def)
  have sc: "scoped_stop_gate (w_gates_with x) ec s = (s, Go ec)" using assms(1) by (simp add: scoped_stop_go w_context_facts)
  have k: "kill_gate (w_gates_with x) ec s = (s, Go ec)"
    using assms(1,3) by (simp add: kill_go w_state_with_def Kill_def IsKilled_def NewAgentKillSwitch_def Let_def)
  have c: "\<exists>s'. context_gate (w_gates_with x) ec s = (s', Go ec)"
    using assms(4) by (simp add: context_gate_def w_state_with_def ValidateCurrent_def Validate_def NewContextGuardWithFingerprint_def fingerprint_def Let_def)
  show ?thesis using c by (simp add: stop_plane_gate_def then_gate_def f sc k)
qed

lemma w_isolation:
  assumes "w_like ec" "gs_isolation s = Some NewIsolationChecker"
  shows "\<exists>s'. isolation_gate (w_gates_with x) ec s = (s', Go ec)"
  using assms by (simp add: isolation_gate_def w_context_facts ValidateAgentIdentity_def NewIsolationChecker_def Let_def)

lemma w_threat:
  assumes "w_like ec" "ec_ThreatScanResult ec = None"
  shows "\<exists>ec'. threat_gate (w_gates_with x) ec s = (s, Go ec') \<and> ec_Intervention ec' = None \<and> ec_SessionRiskSnapshot ec' = None"
proof -
  have "threat_scan (w_gates_with x) ec = Inr (Some (w_scan ''hello'' (fst (trustedInputProvenance (ec_ctx ec))) ''TAINTED''))"
    using assms by (simp add: threat_scan_def scan_keys_def w_context_facts preferredThreatScanResult_def w_scan_def Let_def)
  then show ?thesis using assms(1) by (simp add: threat_gate_def escalates_def w_scan_def set_ctx_def Let_def)
qed

lemma w_delegation:
  assumes "w_like ec" "gs_delegation s = Some w_store"
  shows "\<exists>s' ec'. delegation_gate (w_gates_with x) ec s = (s', Go ec') \<and> ec_Intervention ec' = None \<and> ec_SessionRiskSnapshot ec' = None"
proof -
  have l: "Load_session ''sess'' w_store = Ok (Some w_session)"
    by (simp add: Load_session_def w_store_def Store_session_def NewInMemoryDelegationStore_def w_session_def flag_def
      AddAllowedTool_def NewDelegationSession_def)
  have v: "ValidateSession (g_sha (w_gates_with x)) (ge_fmt_time (w_gates_with x)) (Some w_session) v 62135596800000000000 (Some (IsNonceUsed w_store)) = Ok ()" for v
    by (simp add: validate_session_ok w_store_def Store_session_def NewInMemoryDelegationStore_def w_session_def flag_def IsNonceUsed_def
      AddAllowedTool_def NewDelegationSession_def)
  have s: "ds_DelegatePrincipal w_session = ''alice''" "IsToolAllowed w_session ''file''" "ds_Capabilities w_session = []"
    by (simp_all add: w_session_def AddAllowedTool_def NewDelegationSession_def IsToolAllowed_def)
  show ?thesis using assms by (simp add: delegation_gate_def w_context_facts or_empty_def l v s set_ctx_def Let_def)
qed

lemma w_pdp_pass:
  assumes "w_like ec"
  shows "\<exists>ec'. pdp_gate (w_gates_with x) ec s = (s, Go ec') \<and> ec_Intervention ec' = None \<and> ec_SessionRiskSnapshot ec' = None"
  using assms by (simp add: pdp_gate_def w_pdp_def Let_def)

lemma w_taint_labels:
  assumes "w_like ec"
  shows "TaintLabelsFromContext ul (ec_ctx ec) = []"
  using assms by (simp add: taint_labels_get w_context labelsFromAny_def)

lemma w_taint: "w_like ec \<Longrightarrow> taint_gate (w_gates_with x) ec s = (s, Go ec)"
  by (simp add: taint_gate_def w_taint_labels taintedEgressDenied_def Let_def)

lemma w_egress:
  assumes "w_like ec" "gs_egress s = gs_egress (w_state_with y st)"
  shows "\<exists>s'. egress_gate (w_gates_with x) ec s = (s', Go ec)"
proof -
  have "ToLower (\<lambda>s. s) ''api'' = ''api''" by (simp add: ToLower_def is_ascii_def ascii_lower_def)
  then show ?thesis
    using assms by (simp add: egress_gate_def w_context_facts w_state_with_def CheckEgress_def NewEgressChecker_def Let_def)
qed

lemma w_assumptions: "w_like ec \<Longrightarrow> assumption_gate (w_gates_with x) ec s = (s, Go ec)"
proof -
  assume l: "w_like ec"
  have "\<not> blank ''a1''" "\<not> blank ''page''" by (simp_all add: visible_not_blank visible_def)
  then have "oa_Validate q w_assumption = Ok ()" "\<not> oa_Expired w_assumption 62135596800000000000" for q
    by (simp_all add: oa_Validate_def w_assumption_def observationTypes_def oa_Expired_def oa_ExpiresAt_def wrap64_def second_def)
  then show ?thesis using l by (simp add: assumption_go assumptionsFromContext_def w_context_facts)
qed

lemma w_sandbox: "sandbox_gate (w_gates_with x) ec s = (s, Go ec)"
  by (simp add: sandbox_gate_def)

lemma w_any_digest [simp]:
  "CanonicalEffectDigest \<lparr>de_ul = (\<lambda>s. s), de_clone = (\<lambda>c. Ok c), de_hash = (\<lambda>b. Ok ''digest'')\<rparr> (Some (Effect i ty ps ex di ik None irr ah oh ta)) = Ok ''digest''"
  by (simp add: CanonicalEffectDigest_def)

lemma prepared_context:
  "k \<noteq> ''threat_scan'' \<Longrightarrow> ctx_get (d_InputContext (prepare_decision g ec q dg c)) k = ctx_get c k"
  by (simp add: prepare_decision_def bindRuntimePolicyDecision_def zero_decision_def Let_def split: option.split)

lemma w_final:
  assumes "w_like ec" "gs_audit s = Some NewAuditLog"
  shows "\<exists>s' d. finalHandler (w_gates_with x) ec s = (s', Ok d) \<and> d_Verdict d = VerdictAllow"
proof -
  have priv: "privilege_denial (w_gates_with x) s (enrich_trust (w_gates_with x) s (ec_Request ec)) = None"
    using assms(1) by (simp add: privilege_denial_def effective_tier_def ResolveTier_def SetTier_def NewStaticPrivilegeResolver_def
      EffectiveTier_def RequiredTierForEffect_def EffectTierMap_def TierStandard_def)
  define q where "q = enrich_privilege (w_gates_with x) s (enrich_trust (w_gates_with x) s (ec_Request ec))"
  have q: "r_Principal q = ''alice''" "r_Action q = ''WRITE''" "r_Resource q = ''file''" "r_Context q \<noteq> None"
    using assms(1) by (simp_all add: q_def enrich_privilege_def ctx_put_def)
  have qc: "ctx_get (r_Context q) ''tool_name'' = ctx_get (ec_ctx ec) ''tool_name''" "ctx_get (r_Context q) ''budget_id'' = ctx_get (ec_ctx ec) ''budget_id''"
    by (simp_all add: q_def enrich_privilege_def enrich_trust_def)
  define ta where "ta = TaintLabelsFromContext (\<lambda>s. s) (r_Context q)"
  have re: "request_effect (w_gates_with x) ''final'' q = (Effect ''eff-r'' ''WRITE'' (r_Context q) [] [] [] None False [] [] ta, r_Context q)"
    using q by (simp add: request_effect_def Let_def ta_def)
  define pd where "pd = prepare_decision (w_gates_with x) ec q ''digest'' (r_Context q)"
  define e where "e = final_effect (r_Context q) pd (Effect ''eff-r'' ''WRITE'' (r_Context q) [] [] [] None False [] [] ta)"
  have e: "EffectType e = ''WRITE''" "EffectID e = ''eff-r''" "Params e = d_InputContext pd" using q(4) by (auto simp: e_def final_effect_def)
  have pc: "ctx_get (Params e) ''tool_name'' = None" "ctx_get (Params e) ''budget_id'' = None"
    using assms(1) by (simp_all add: e(3) pd_def prepared_context qc w_context)
  then have ids: "action_id e = ''WRITE''" "budget_id e = None" "checkEnvelope e = None"
    by (simp_all add: action_id_def budget_id_def checkEnvelope_def ctx_str_def e)
  have pdf: "d_SubjectID pd = ''alice''" "d_Action pd = ''WRITE''" "d_Resource pd = ''file''" "d_EffectDigest pd = ''digest''"
    using q by (simp_all add: pd_def)
  define q' where "q' = q\<lparr>r_Context := d_InputContext pd\<rparr>"
  have "check_compliance (w_gates_with x) q' = None" by (simp add: check_compliance_def)
  then have run: "finalHandler (w_gates_with x) ec s = sign_final (w_gates_with x) ec q' pd e s"
    using q(4) by (auto simp: finalHandler_def priv q_def [symmetric] re pd_def [symmetric] e_def [symmetric] q'_def [symmetric] Let_def)
  have prg: "check_prg (w_gates_with x) (ps_Graph w_snapshot) a e d = PrgPass (RequirementSet_Hash (g_sha (w_gates_with x)) (RequirementSet ''r'' ''AND'' [] []))" for a d
    by (simp add: check_prg_def ids w_snapshot_def)
  have b: "bindDecisionRequest q' pd = Ok pd" using q pdf by (simp add: bind_ok q'_def)
  have b2: "bindDecisionRequest \<lparr>r_Principal = d_SubjectID pd, r_Action = d_Action pd, r_Resource = d_Resource pd, r_Context = None, r_SessionHistory = []\<rparr> pd = Ok pd"
    using pdf by (simp add: bind_ok)
  have "\<exists>s1 d. signDecisionWithGraph (w_gates_with x) (Some pd) e [] None (ps_Graph w_snapshot) False s = (s1, Ok d) \<and> d_Verdict d = VerdictAllow \<and>
     gs_audit s1 = gs_audit s"
    unfolding signDecisionWithGraph_def option.case b2 sum.case
    by (simp add: pdf sign_gates_def check_budget_def consume_budget_def ids prg SignDecision_with_def recordBehavioralEvent_def Let_def)
  then obtain s1 d where sg: "signDecisionWithGraph (w_gates_with x) (Some pd) e [] None (ps_Graph w_snapshot) False s = (s1, Ok d)" "d_Verdict d = VerdictAllow"
    "gs_audit s1 = gs_audit s" by blast
  have au: "\<exists>s2. append_audit (w_gates_with x) ''DECISION_MADE'' d' s = (s2, Ok ())" if "gs_audit s = Some NewAuditLog" for s d'
    using that by (simp add: append_audit_def Audit_Append_def computeEntryHash_def NewAuditLog_def Let_def)
  have "gs_audit (recordBehavioralEvent (w_gates_with x) w t r s1) = Some NewAuditLog" for w t r
    using sg(3) assms(2) by (simp add: recordBehavioralEvent_def)
  then obtain s2 where "append_audit (w_gates_with x) ''DECISION_MADE'' d (recordBehavioralEvent (w_gates_with x) (r_Principal q') ''POLICY_COMPLY'' ''decision allowed'' s1) = (s2, Ok ())"
    using au by blast
  then show ?thesis using assms(1) sg(2) by (simp add: run sign_final_def b sg(1) Let_def)
qed

declare w_like_request [simp del]

lemma w_like_step:
  assumes "boundary_gate step K" "K \<subseteq> w_free" "w_like ec" "step ec s = (s', Go ec')" "ec_Intervention ec' = None" "ec_SessionRiskSnapshot ec' = None"
  shows "w_like ec'"
proof -
  have "same_request ec ec'" "ctx_kept K (ec_ctx ec) (ec_ctx ec')" using boundary_gate.go_keeps [OF assms(1,4)] by simp_all
  then show ?thesis
    using assms(2,3,5,6) same_request_trans [of w_ec ec ec'] by (auto simp: w_like_def ctx_kept_def subset_iff)
qed

lemma w_like_ec: "w_like w_ec"
  by (simp add: w_like_def) (simp add: w_ec_def)

lemma w_ec_unscanned: "ec_ThreatScanResult w_ec = None"
  by (simp add: w_ec_def)

text \<open>Up to the delegation gate the run does not depend on the store.\<close>

lemma w_until_delegation:
  assumes "w_like ec" "ec_ThreatScanResult ec = None"
  shows "\<exists>s1 s2 s3 ec2 ec3. zeroid_gate (w_gates_with x) ec (w_state_with y st) = (w_state_with y st, Go ec) \<and>
     temporal_gate (w_gates_with x) ec (w_state_with y st) = (s1, Go ec) \<and> stop_plane_gate (w_gates_with x) ec s1 = (s2, Go ec) \<and>
     scrub_gate ec s2 = (s2, Go ec2) \<and> isolation_gate (w_gates_with x) ec2 s2 = (s3, Go ec2) \<and> threat_gate (w_gates_with x) ec2 s3 = (s3, Go ec3) \<and>
     w_like ec3 \<and> gs_delegation s3 = Some st \<and> gs_egress s3 = gs_egress (w_state_with y st) \<and> gs_audit s3 = Some NewAuditLog"
proof -
  obtain s1 where t: "temporal_gate (w_gates_with x) ec (w_state_with y st) = (s1, Go ec)"
    using w_temporal [of "w_state_with y st", where x = x] by (metis gate_state.select_convs(2) w_state_with_def)
  obtain tg where s1: "s1 = (w_state_with y st)\<lparr>gs_temporal := tg\<rparr>"
    using temporal_go [OF t] by (auto split: option.splits intro: that [of "gs_temporal (w_state_with y st)"])
  obtain s2 where p: "stop_plane_gate (w_gates_with x) ec s1 = (s2, Go ec)" using w_stop_plane [OF assms(1), of s1 y st, where x = x] by (auto simp: s1)
  obtain fc cg where s2: "s2 = s1\<lparr>gs_freeze := fc, gs_contextGuard := cg\<rparr>" using stop_plane_go [OF p] by blast
  obtain ec2 where sc: "scrub_gate ec s2 = (s2, Go ec2)" and ec2: "ec2 = set_ctx (ctx_del (ec_ctx ec) ''threat_scan'') ec" by (simp add: scrub_gate_def)
  have f2: "ec_Intervention ec2 = None" "ec_SessionRiskSnapshot ec2 = None" "ec_ThreatScanResult ec2 = None"
    using w_like_request(7,8) [OF assms(1)] assms(2) by (simp_all add: ec2 set_ctx_def)
  have l2: "w_like ec2" by (rule w_like_step [OF scrub.boundary_gate_axioms _ assms(1) sc f2(1,2)]) (simp add: policy_keys_def w_free_def)
  obtain s3 where i: "isolation_gate (w_gates_with x) ec2 s2 = (s3, Go ec2)" using w_isolation [OF l2, of s2, where x = x] by (auto simp: s2 s1 w_state_with_def)
  obtain ic where s3: "s3 = s2\<lparr>gs_isolation := ic\<rparr>" using isolation_go [OF i] by blast
  obtain ec3 where th: "threat_gate (w_gates_with x) ec2 s3 = (s3, Go ec3)" "ec_Intervention ec3 = None" "ec_SessionRiskSnapshot ec3 = None"
    using w_threat [OF l2 f2(3), where x = x] by blast
  have l3: "w_like ec3" by (rule w_like_step [OF threat.boundary_gate_axioms _ l2 th]) (simp add: policy_keys_def w_free_def)
  have "gs_delegation s3 = Some st" "gs_egress s3 = gs_egress (w_state_with y st)" "gs_audit s3 = Some NewAuditLog"
    by (simp_all add: s3 s2 s1) (simp_all add: w_state_with_def)
  then show ?thesis using w_zeroid [OF assms(1), where x = x and s = "w_state_with y st"] t p sc i th(1) l3 by blast
qed

lemma w_chain_run_from:
  assumes "w_like ec" "ec_ThreatScanResult ec = None"
  shows "\<exists>s' d. run_chain (w_gates_with x) ec (w_state_with y w_store) = (s', Ok d) \<and> d_Verdict d = VerdictAllow"
proof -
  obtain s1 s2 s3 ec2 ec3 where u: "zeroid_gate (w_gates_with x) ec (w_state_with y w_store) = (w_state_with y w_store, Go ec)"
    "temporal_gate (w_gates_with x) ec (w_state_with y w_store) = (s1, Go ec)" "stop_plane_gate (w_gates_with x) ec s1 = (s2, Go ec)"
    "scrub_gate ec s2 = (s2, Go ec2)" "isolation_gate (w_gates_with x) ec2 s2 = (s3, Go ec2)" "threat_gate (w_gates_with x) ec2 s3 = (s3, Go ec3)"
    and l3: "w_like ec3" and s3: "gs_delegation s3 = Some w_store" "gs_egress s3 = gs_egress (w_state_with y w_store)" "gs_audit s3 = Some NewAuditLog"
    using w_until_delegation [OF assms, where x = x and y = y and st = w_store] by blast
  obtain s4 ec4 where d: "delegation_gate (w_gates_with x) ec3 s3 = (s4, Go ec4)" "ec_Intervention ec4 = None" "ec_SessionRiskSnapshot ec4 = None"
    using w_delegation [OF l3 s3(1), where x = x] by blast
  have l4: "w_like ec4" by (rule w_like_step [OF delegation.boundary_gate_axioms _ l3 d]) (simp add: policy_keys_def w_free_def)
  obtain dst where s4: "s4 = s3\<lparr>gs_delegation := dst\<rparr>" using delegation_go [OF d(1)] by blast
  obtain ec5 where p: "pdp_gate (w_gates_with x) ec4 s4 = (s4, Go ec5)" "ec_Intervention ec5 = None" "ec_SessionRiskSnapshot ec5 = None"
    using w_pdp_pass [OF l4, where x = x] by blast
  have l5: "w_like ec5" by (rule w_like_step [OF pdp.boundary_gate_axioms _ l4 p]) simp
  obtain s5 where e: "egress_gate (w_gates_with x) ec5 s4 = (s5, Go ec5)" using w_egress [OF l5, of s4 y w_store, where x = x] s3(2) by (auto simp: s4)
  obtain eg where s5: "s5 = s4\<lparr>gs_egress := eg\<rparr>" using egress_go [OF e] by blast
  have "gs_audit s5 = Some NewAuditLog" using s3(3) by (simp add: s5 s4)
  then obtain s' d where fin: "finalHandler (w_gates_with x) ec5 s5 = (s', Ok d)" "d_Verdict d = VerdictAllow" using w_final [OF l5, where x = x] by blast
  have "run_chain (w_gates_with x) ec (w_state_with y w_store) = (s', Ok d)"
    by (simp add: run_chain_def boundaryChain_def run_gate_def policy_gate_def taint_egress_gate_def then_gate_def
        u d(1) p(1) e w_taint [OF l5] w_assumptions [OF l5] w_sandbox fin(1))
  then show ?thesis using fin(2) by blast
qed

lemma w_chain_run: "\<exists>s' d. run_chain w_gates w_ec (w_state w_store) = (s', Ok d) \<and> d_Verdict d = VerdictAllow"
  by (rule w_chain_run_from [OF w_like_ec w_ec_unscanned])

text \<open>A second use of the session is refused with a signed denial.\<close>

lemma w_replay:
  "\<exists>s' d. run_chain w_gates w_ec (w_state (MarkNonceUsed ''nonce'' w_store)) = (s', Ok d)"
proof -
  let ?st = "MarkNonceUsed ''nonce'' w_store"
  obtain s1 s2 s3 ec2 ec3 where u: "zeroid_gate w_gates w_ec (w_state ?st) = (w_state ?st, Go w_ec)"
    "temporal_gate w_gates w_ec (w_state ?st) = (s1, Go w_ec)" "stop_plane_gate w_gates w_ec s1 = (s2, Go w_ec)"
    "scrub_gate w_ec s2 = (s2, Go ec2)" "isolation_gate w_gates ec2 s2 = (s3, Go ec2)" "threat_gate w_gates ec2 s3 = (s3, Go ec3)"
    and l3: "w_like ec3" and s3: "gs_delegation s3 = Some ?st"
    using w_until_delegation [OF w_like_ec w_ec_unscanned, where x = "()" and y = "()" and st = ?st] by blast
  have l: "Load_session ''sess'' ?st = Ok (Some w_session)"
    by (simp add: Load_session_def MarkNonceUsed_def w_store_def Store_session_def NewInMemoryDelegationStore_def w_session_def flag_def
      AddAllowedTool_def NewDelegationSession_def)
  define v where "v = ValidateSession (g_sha w_gates) (ge_fmt_time w_gates) (Some w_session) (or_empty (ctx_str (ec_ctx ec3) ''delegation_verifier''))
      62135596800000000000 (Some (IsNonceUsed ?st))"
  have "ds_SessionNonce w_session = ''nonce''" by (simp add: w_session_def AddAllowedTool_def NewDelegationSession_def)
  then have "\<not> is_ok v" unfolding v_def using mem_store.burnt_nonce_refused [where ops = "[]"] by simp
  then obtain err where v: "v = Err err" by (cases v) simp_all
  define d0 where "d0 = delegation_denial w_gates ''DELEGATION_INVALID'' (''DELEGATION_INVALID: '' @ DelegationError_Error err)"
  have d: "delegation_gate w_gates ec3 s3 = stop_signed w_gates ec3 d0 s3"
    using l3 s3 by (simp add: delegation_gate_def w_context_facts or_empty_def l v [unfolded v_def or_empty_def] d0_def Let_def)
  have "blank []" by code_simp
  then have "blank (d_SubjectID d0)" "blank (d_Action d0)" "blank (d_Resource d0)"
    by (simp_all add: d0_def delegation_denial_def new_decision_def zero_decision_def)
  then have "\<exists>d'. signDecisionWithContext w_gates ec3 d0 = Ok d'"
    using l3 by (simp add: signDecisionWithContext_def bindDecisionRequest_def bind_field_def w_like_request SignDecision_with_def Let_def)
  then show ?thesis
    by (simp add: run_chain_def boundaryChain_def run_gate_def policy_gate_def then_gate_def u d stop_signed_def)
qed

end
