(* ===== verification/Guardian_Allow.thy ===== *)
theory Guardian_Allow
  imports Guardian_Example
begin

text \<open>
  What an ALLOW of the guardian's chain means, stated over the request, its context and the state
  before the evaluation. The parts of the state a gate reads are those the caller saw: no earlier gate
  changes them.
\<close>

section \<open>Frames along the chain\<close>

lemma temporal_frame: "temporal_gate g ec s = (s', Go ec') \<Longrightarrow> \<exists>t. s' = s\<lparr>gs_temporal := t\<rparr>"
  by (drule temporal_go) (auto split: option.splits intro: exI [of _ "gs_temporal s"])

lemma stop_plane_frame: "stop_plane_gate g ec s = (s', Go ec') \<Longrightarrow> \<exists>fc cg. s' = s\<lparr>gs_freeze := fc, gs_contextGuard := cg\<rparr>"
  by (drule stop_plane_go) blast

lemma isolation_frame: "isolation_gate g ec s = (s', Go ec') \<Longrightarrow> \<exists>ic. s' = s\<lparr>gs_isolation := ic\<rparr>"
  by (drule isolation_go) blast

lemma delegation_frame: "delegation_gate g ec s = (s', Go ec') \<Longrightarrow> \<exists>st. s' = s\<lparr>gs_delegation := st\<rparr>"
  by (drule delegation_go) blast

lemma egress_frame: "egress_gate g ec s = (s', Go ec') \<Longrightarrow> \<exists>e. s' = s\<lparr>gs_egress := e\<rparr>"
  by (drule egress_go) blast

lemma final_frame:
  "finalHandler g ec s = (s', Ok d) \<Longrightarrow> d_Verdict d = VerdictAllow \<Longrightarrow> \<exists>b ev l. s' = s\<lparr>ss_budget := b, ss_events := ev, gs_audit := l\<rparr>"
  by (drule (1) final_allow) blast

lemmas gate_frames = temporal_frame stop_plane_frame isolation_frame delegation_frame egress_frame final_frame

text \<open>
  C7: The stop plane cannot be bypassed. If the chain allows a request, then no ZeroID envelope was
  presented; the temporal guardian, if configured, answered below interrupt; the kernel was not frozen
  (an unreadable freeze source counts as frozen); where scoped fences are configured the request
  named a tenant and a workspace whose fence the reader reported open; the requesting agent was not
  killed; and the host's fingerprint is the one recorded at boot, if one was.
\<close>
theorem allow_passes_stop_plane:
  assumes "run_chain g ec s = (s', Ok d)" "d_Verdict d = VerdictAllow"
  shows "or_empty (ctx_str (ec_ctx ec) ''zeroid_token'') = [] \<and> or_empty (ctx_str (ec_ctx ec) ''spiffe_uri'') = [] \<and>
    (\<forall>tg. gs_temporal s = Some tg \<longrightarrow> gr_Level (snd (Evaluate (ge_float g) (ge_temporal_clock g) tg)) < ResponseInterrupt) \<and>
    (\<forall>fc. gs_freeze s = Some fc \<longrightarrow> \<not> snd (IsFrozen (ge_freeze_source g) fc)) \<and>
    (\<forall>isFenced. ge_scoped_stop g = Some isFenced \<longrightarrow>
       (\<exists>t w st. stringContextValue (ec_ctx ec) [''tenant_id'', ''tenantId'', ''tenant''] = Some t \<and>
          stringContextValue (ec_ctx ec) [''workspace_id'', ''workspaceId'', ''workspace''] = Some w \<and> isFenced (t, w) = Ok (st, False))) \<and>
    (\<forall>k. gs_kill s = Some k \<longrightarrow> \<not> IsKilled k (r_Principal (ec_Request ec))) \<and>
    (\<forall>cg. gs_contextGuard s = Some cg \<longrightarrow> bootFingerprint cg = [] \<or> bootFingerprint cg = fingerprint (ge_host g))"
proof -
  obtain s1 ec1 s2 where z: "zeroid_gate g ec s = (s, Go ec)" and t: "temporal_gate g ec s = (s1, Go ec1)" "same_request ec ec1" "ec_ctx ec1 = ec_ctx ec"
    and sp: "stop_plane_gate g ec1 s1 = (s2, Go ec1)"
    using chain_trace [OF assms] by metis
  obtain tg where s1: "s1 = s\<lparr>gs_temporal := tg\<rparr>" using temporal_frame [OF t(1)] by blast
  have "gs_freeze s1 = gs_freeze s" "gs_kill s1 = gs_kill s" "gs_contextGuard s1 = gs_contextGuard s" by (simp_all add: s1)
  moreover have "\<forall>tg. gs_temporal s = Some tg \<longrightarrow> gr_Level (snd (Evaluate (ge_float g) (ge_temporal_clock g) tg)) < ResponseInterrupt"
    using temporal_go [OF t(1)] by (auto split: option.splits)
  ultimately show ?thesis
    using z stop_plane_go [OF sp] t(2,3) unfolding zeroid_go same_request_def by simp
qed

theorem allow_passes_stop_plane_witness:
  "\<exists>s' d. run_chain w_gates w_ec (w_state w_store) = (s', Ok d) \<and> d_Verdict d = VerdictAllow \<and>
     gr_Level (snd (Evaluate (ge_float w_gates) (ge_temporal_clock w_gates) (NewTemporalGuardian DefaultEscalationPolicy 0))) < ResponseInterrupt"
proof -
  obtain s' d where r: "run_chain w_gates w_ec (w_state w_store) = (s', Ok d)" "d_Verdict d = VerdictAllow" using w_chain_run by blast
  show ?thesis using r allow_passes_stop_plane [OF r] by (auto simp: w_state_with_def)
qed

text \<open>
  C8: Identity, delegation and policy bind every ALLOW. With an isolation checker, the request carried
  a trusted credential that no other principal holds. With a delegation store and a session named in
  the request, that session was stored and not revoked, valid at the time, issued to this principal,
  and covers the tool and, if it lists capabilities, the action. With a policy decision point, it
  answered allow for this principal, action and resource.
\<close>
theorem allow_needs_identity_and_policy:
  assumes "run_chain g ec s = (s', Ok d)" "d_Verdict d = VerdictAllow"
  shows "(\<forall>ic. gs_isolation s = Some ic \<longrightarrow> r_Principal (ec_Request ec) \<noteq> [] \<longrightarrow>
       (\<exists>cred. trustedContextString (ec_ctx ec) ''credential_hash'' = Some cred \<and>
          (\<forall>p. map_of (bindings ic) cred = Some p \<longrightarrow> p = r_Principal (ec_Request ec)))) \<and>
    (\<forall>store sid. gs_delegation s = Some store \<longrightarrow> ctx_str (ec_ctx ec) ''delegation_session_id'' = Some sid \<longrightarrow> sid \<noteq> [] \<longrightarrow>
       (\<exists>session. Load_session sid store = Ok (Some session) \<and>
          ValidateSession (g_sha g) (ge_fmt_time g) (Some session) (or_empty (ctx_str (ec_ctx ec) ''delegation_verifier''))
            (g_clk g ''delegation'') (Some (IsNonceUsed store)) = Ok () \<and>
          r_Principal (ec_Request ec) = ds_DelegatePrincipal session \<and>
          (r_Resource (ec_Request ec) \<noteq> [] \<longrightarrow> IsToolAllowed session (r_Resource (ec_Request ec))) \<and>
          (r_Resource (ec_Request ec) \<noteq> [] \<longrightarrow> r_Action (ec_Request ec) \<noteq> [] \<longrightarrow> ds_Capabilities session \<noteq> [] \<longrightarrow>
             IsActionAllowed session (r_Resource (ec_Request ec)) (r_Action (ec_Request ec))))) \<and>
    (\<forall>p. ec_ActivePDP ec = Some p \<longrightarrow>
       (\<exists>c resp. pdp_Evaluate p \<lparr>pr_Principal = r_Principal (ec_Request ec), pr_Action = r_Action (ec_Request ec),
          pr_Resource = r_Resource (ec_Request ec), pr_Context = c, pr_Timestamp = g_clk g ''pdp request''\<rparr> = Ok resp \<and> pd_Allow resp))"
proof -
  obtain s1 ec1 s2 ec2 s3 ec3 s4 ec4 ec5 where tr:
    "temporal_gate g ec s = (s1, Go ec1)" "stop_plane_gate g ec1 s1 = (s2, Go ec1)"
    "isolation_gate g ec2 s2 = (s3, Go ec2)" "same_request ec ec2" "ctx_kept policy_keys (ec_ctx ec) (ec_ctx ec2)"
    "same_request ec ec3" "ctx_kept policy_keys (ec_ctx ec) (ec_ctx ec3)"
    "delegation_gate g ec3 s3 = (s4, Go ec4)" "same_request ec ec4" "pdp_gate g ec4 s4 = (s4, Go ec5)"
    using chain_trace [OF assms] by metis
  obtain tg fc cg ic where st: "s1 = s\<lparr>gs_temporal := tg\<rparr>" "s2 = s1\<lparr>gs_freeze := fc, gs_contextGuard := cg\<rparr>" "s3 = s2\<lparr>gs_isolation := ic\<rparr>"
    using temporal_frame [OF tr(1)] stop_plane_frame [OF tr(2)] isolation_frame [OF tr(3)] by blast
  have i: "gs_isolation s2 = gs_isolation s" and dl: "gs_delegation s3 = gs_delegation s" by (simp_all add: st)
  have k2: "trustedContextString (ec_ctx ec2) ''credential_hash'' = trustedContextString (ec_ctx ec) ''credential_hash''"
    using trusted_kept [OF tr(5)] by (simp add: policy_keys_def)
  have k3: "ctx_str (ec_ctx ec3) ''delegation_session_id'' = ctx_str (ec_ctx ec) ''delegation_session_id''"
    "ctx_str (ec_ctx ec3) ''delegation_verifier'' = ctx_str (ec_ctx ec) ''delegation_verifier''"
    using ctx_kept_str [OF tr(7)] by (simp_all add: policy_keys_def)
  note ig = isolation_go [OF tr(3)] and dg = delegation_go [OF tr(8)] and pg = pdp_go [OF tr(10)]
  have "\<forall>p. ec_ActivePDP ec = Some p \<longrightarrow>
       (\<exists>c resp. pdp_Evaluate p \<lparr>pr_Principal = r_Principal (ec_Request ec), pr_Action = r_Action (ec_Request ec),
          pr_Resource = r_Resource (ec_Request ec), pr_Context = c, pr_Timestamp = g_clk g ''pdp request''\<rparr> = Ok resp \<and> pd_Allow resp)"
    using pg tr(9) unfolding same_request_def by metis
  moreover have q2: "r_Principal (ec_Request ec2) = r_Principal (ec_Request ec)" and
    q3: "r_Principal (ec_Request ec3) = r_Principal (ec_Request ec)" "r_Action (ec_Request ec3) = r_Action (ec_Request ec)"
      "r_Resource (ec_Request ec3) = r_Resource (ec_Request ec)"
    using tr(4,6) by (simp_all add: same_request_def)
  ultimately show ?thesis using ig [unfolded i k2 q2] dg [unfolded dl k3 q3] by (intro conjI) blast+
qed

theorem allow_needs_identity_and_policy_witness:
  "\<exists>s' d session. run_chain w_gates w_ec (w_state w_store) = (s', Ok d) \<and> d_Verdict d = VerdictAllow \<and>
     Load_session ''sess'' w_store = Ok (Some session) \<and> ds_DelegatePrincipal session = ''alice''"
proof -
  obtain s' d where r: "run_chain w_gates w_ec (w_state w_store) = (s', Ok d)" "d_Verdict d = VerdictAllow" using w_chain_run by blast
  have "gs_delegation (w_state w_store) = Some w_store" "r_Principal (ec_Request w_ec) = ''alice''" by (simp_all add: w_state_with_def w_ec_def)
  then show ?thesis using r allow_needs_identity_and_policy [OF r] w_context_facts(4) [OF w_like_ec] by fastforce
qed

text \<open>
  C9: Data leaves only through the checked boundary. If the chain allows a request, then with an egress
  checker a required destination was given by a trusted boundary and every trusted destination was
  checked and allowed; unless enforcement is switched off, a request whose context labels it with
  sensitive taint and names a destination carries an in-process approved override; and every assumption
  it declares is well formed, unexpired and, where an observer is configured, confirmed.
\<close>
theorem allow_needs_data_boundary:
  assumes "run_chain g ec s = (s', Ok d)" "d_Verdict d = VerdictAllow"
  shows "(\<forall>checker. gs_egress s = Some checker \<longrightarrow>
        (trustedContextBool (ec_ctx ec) ''egress_destination_required'' = Some True \<longrightarrow> trustedContextString (ec_ctx ec) ''destination'' \<noteq> None) \<and>
        (\<forall>dest. trustedContextString (ec_ctx ec) ''destination'' = Some dest \<longrightarrow>
           ed_Allowed (snd (CheckEgress (de_ul (g_digest g)) (ge_netlib g) (g_clk g ''egress check'') dest ''https''
             (case ctx_float (ec_ctx ec) ''payload_size'' of None \<Rightarrow> 0 | Some x \<Rightarrow> ge_int64_of_float g x) checker)))) \<and>
    (taintEgressEnforcementEnabled (ge_taint_env g) \<longrightarrow>
       TaintContainsAny (de_ul (g_digest g)) (TaintLabelsFromContext (de_ul (g_digest g)) (ec_ctx ec)) [''pii'', ''credential'', ''secret''] \<longrightarrow>
       \<not> blank (or_empty (ctx_str (ec_ctx ec) ''destination'')) \<longrightarrow>
       ctx_bool (ec_ctx ec) ''allow_tainted_egress'' = Some True \<and> ge_tainted_override g) \<and>
    (\<exists>as. assumptionsFromContext g (ec_ctx ec) = Ok as \<and>
       list_all (\<lambda>a. oa_Validate (ge_quote g) a = Ok () \<and> \<not> oa_Expired a (g_clk g ''assumption check'') \<and>
         (\<forall>observe. ge_observer g = Some observe \<longrightarrow> observe a = Ok (oa_ContentHash a))) as)"
proof -
  obtain s1 ec1 s2 ec2 s3 ec3 s4 ec4 ec5 s5 ec6 where tr:
    "temporal_gate g ec s = (s1, Go ec1)" "stop_plane_gate g ec1 s1 = (s2, Go ec1)" "isolation_gate g ec2 s2 = (s3, Go ec2)"
    "delegation_gate g ec3 s3 = (s4, Go ec4)" "ctx_kept policy_keys (ec_ctx ec) (ec_ctx ec5)" "egress_gate g ec5 s4 = (s5, Go ec5)"
    "taint_gate g ec5 s5 = (s5, Go ec6)" "ctx_kept (insert ''taint'' policy_keys) (ec_ctx ec) (ec_ctx ec6)" "assumption_gate g ec6 s5 = (s5, Go ec6)"
    using chain_trace [OF assms] by metis
  obtain tg fc cg ic st where fr: "s1 = s\<lparr>gs_temporal := tg\<rparr>" "s2 = s1\<lparr>gs_freeze := fc, gs_contextGuard := cg\<rparr>" "s3 = s2\<lparr>gs_isolation := ic\<rparr>"
    "s4 = s3\<lparr>gs_delegation := st\<rparr>"
    using temporal_frame [OF tr(1)] stop_plane_frame [OF tr(2)] isolation_frame [OF tr(3)] delegation_frame [OF tr(4)] by blast
  have e: "gs_egress s4 = gs_egress s" by (simp add: fr)
  have get: "ctx_get (ec_ctx ec5) k = ctx_get (ec_ctx ec) k" if "k \<notin> policy_keys" for k using tr(5) that by (simp add: ctx_kept_def)
  have k5: "trustedContextString (ec_ctx ec5) ''destination'' = trustedContextString (ec_ctx ec) ''destination''"
    "trustedContextBool (ec_ctx ec5) ''egress_destination_required'' = trustedContextBool (ec_ctx ec) ''egress_destination_required''"
    "ctx_float (ec_ctx ec5) ''payload_size'' = ctx_float (ec_ctx ec) ''payload_size''"
    using trusted_kept [OF tr(5)] by (simp_all add: policy_keys_def ctx_float_def get)
  have lab: "TaintLabelsFromContext ul (ec_ctx ec5) = TaintLabelsFromContext ul (ec_ctx ec)" for ul
    using get [of "''taint''"] get [of "''taint_labels''"] by (simp add: taint_labels_get policy_keys_def)
  have tk: "ctx_str (ec_ctx ec5) ''destination'' = ctx_str (ec_ctx ec) ''destination''"
    "ctx_bool (ec_ctx ec5) ''allow_tainted_egress'' = ctx_bool (ec_ctx ec) ''allow_tainted_egress''"
    using ctx_kept_str [OF tr(5)] ctx_kept_bool [OF tr(5)] by (simp_all add: policy_keys_def)
  have as: "assumptionsFromContext g (ec_ctx ec6) = assumptionsFromContext g (ec_ctx ec)"
    using tr(8) by (simp add: assumptionsFromContext_def ctx_kept_def policy_keys_def)
  have tainted: "ctx_bool (ec_ctx ec) ''allow_tainted_egress'' = Some True \<and> ge_tainted_override g"
    if "taintEgressEnforcementEnabled (ge_taint_env g)" "\<not> blank (or_empty (ctx_str (ec_ctx ec) ''destination''))"
      "TaintContainsAny (de_ul (g_digest g)) (TaintLabelsFromContext (de_ul (g_digest g)) (ec_ctx ec)) [''pii'', ''credential'', ''secret'']"
  proof -
    have ne: "TaintLabelsFromContext (de_ul (g_digest g)) (ec_ctx ec) \<noteq> []" using that(3) by (auto simp: TaintContainsAny_def TaintContains_def list_ex_iff)
    have nn: "ec_ctx ec5 \<noteq> None" using ne lab taint_labels_nil by metis
    show ?thesis using taint_go [OF tr(7)] that ne nn unfolding taintedEgressDenied_def lab tk by (simp split: if_splits)
  qed
  show ?thesis
    using egress_go [OF tr(6)] tainted tr(9) unfolding e k5 assumption_go as by blast
qed

theorem allow_needs_data_boundary_witness:
  "\<exists>s' d as. run_chain w_gates w_ec (w_state w_store) = (s', Ok d) \<and> d_Verdict d = VerdictAllow \<and>
     assumptionsFromContext w_gates w_ctx = Ok as \<and> list_all (\<lambda>a. oa_Validate (ge_quote w_gates) a = Ok ()) as"
proof -
  obtain s' d where r: "run_chain w_gates w_ec (w_state w_store) = (s', Ok d)" "d_Verdict d = VerdictAllow" using w_chain_run by blast
  have "ec_ctx w_ec = w_ctx" by (simp add: w_ec_def)
  then show ?thesis using r allow_needs_data_boundary [OF r] by (auto simp: list_all_iff)
qed



lemma chain_burns_nonce:
  assumes "run_chain g ec s = (s', Ok d)" "d_Verdict d = VerdictAllow" "gs_delegation s = Some store"
    "ctx_str (ec_ctx ec) ''delegation_session_id'' = Some sid" "sid \<noteq> []"
  shows "\<exists>session. Load_session sid store = Ok (Some session) \<and> gs_delegation s' = Some (MarkNonceUsed (ds_SessionNonce session) store)"
proof -
  obtain s1 ec1 s2 ec2 s3 ec3 s4 ec4 ec5 s5 ec7 where tr:
    "temporal_gate g ec s = (s1, Go ec1)" "stop_plane_gate g ec1 s1 = (s2, Go ec1)" "isolation_gate g ec2 s2 = (s3, Go ec2)"
    "ctx_kept policy_keys (ec_ctx ec) (ec_ctx ec3)" "delegation_gate g ec3 s3 = (s4, Go ec4)" "egress_gate g ec5 s4 = (s5, Go ec5)"
    "finalHandler g ec7 s5 = (s', Ok d)"
    using chain_trace [OF assms(1,2)] by metis
  obtain tg fc cg ic where fr: "s1 = s\<lparr>gs_temporal := tg\<rparr>" "s2 = s1\<lparr>gs_freeze := fc, gs_contextGuard := cg\<rparr>" "s3 = s2\<lparr>gs_isolation := ic\<rparr>"
    using temporal_frame [OF tr(1)] stop_plane_frame [OF tr(2)] isolation_frame [OF tr(3)] by blast
  obtain eg b ev l where fr': "s5 = s4\<lparr>gs_egress := eg\<rparr>" "s' = s5\<lparr>ss_budget := b, ss_events := ev, gs_audit := l\<rparr>"
    using egress_frame [OF tr(6)] final_frame [OF tr(7) assms(2)] by blast
  have "gs_delegation s3 = Some store" "gs_delegation s' = gs_delegation s4" using assms(3) by (simp_all add: fr fr')
  moreover have "ctx_str (ec_ctx ec3) ''delegation_session_id'' = Some sid"
    using ctx_kept_str [OF tr(4)] assms(4) by (simp add: policy_keys_def)
  ultimately show ?thesis using delegation_go [OF tr(5)] assms(5) by metis
qed



text \<open>
  No text field of a tainted request slips past the threat scanner. Where a scanner is configured whose results
  carry the trust level they were asked for and count their findings, and the chain allows a request whose provenance
  is tainted (everything but a trusted boundary's own word), then none of its scannable fields was found high risk.
\<close>
theorem tainted_text_is_scanned:
  assumes "run_chain g ec s = (s', Ok d)" "d_Verdict d = VerdictAllow" "ge_scan g = Some scan" "scanner_ok scan"
    "ec_ThreatScanResult ec = None" "k \<in> set scan_keys" "ctx_str (ec_ctx ec) k = Some txt" "txt \<noteq> []"
    "IsTainted (snd (trustedInputProvenance (ec_ctx ec)))"
  shows "\<not> ContainsHighRiskFindings (scan txt (fst (trustedInputProvenance (ec_ctx ec))) (snd (trustedInputProvenance (ec_ctx ec))))"
proof -
  obtain s1 ec1 s2 ec2 s3 ec3 where tr: "temporal_gate g ec s = (s1, Go ec1)" "stop_plane_gate g ec1 s1 = (s2, Go ec1)"
    "ec2 = set_ctx (ctx_del (ec_ctx ec1) ''threat_scan'') ec1" "ctx_kept policy_keys (ec_ctx ec) (ec_ctx ec2)" "threat_gate g ec2 s3 = (s3, Go ec3)"
    "isolation_gate g ec2 s2 = (s3, Go ec2)"
    by (rule chain_trace [OF assms(1,2)], rule that) assumption+
  have "ec_ThreatScanResult ec2 = None" using temporal_go [OF tr(1)] assms(5) by (auto simp: tr(3) set_ctx_def split: option.splits)
  moreover have prov: "trustedInputProvenance (ec_ctx ec2) = trustedInputProvenance (ec_ctx ec)"
    using provenance_kept [OF tr(4)] by (simp add: policy_keys_def)
  ultimately have "scan_loop scan (trustedInputProvenance (ec_ctx ec)) (ec_ctx ec2) None scan_keys = Inr (ec_ThreatScanResult ec3)"
    using threat_go [OF tr(5)] assms(3) by (simp add: threat_scan_def Let_def)
  moreover have "ctx_str (ec_ctx ec2) k = Some txt"
    using ctx_kept_str [OF tr(4), of k] assms(6,7) by (auto simp: policy_keys_def scan_keys_def)
  ultimately show ?thesis using scan_loop_pass [OF assms(4,9)] assms(6,8) by blast
qed

theorem tainted_text_is_scanned_witness:
  "scanner_ok w_scan \<and> ContainsHighRiskFindings (w_scan ''attack'' ''UNKNOWN'' ''TAINTED'') \<and>
   \<not> ContainsHighRiskFindings (w_scan ''hello'' ''UNKNOWN'' ''TAINTED'')"
proof -
  obtain s' d where r: "run_chain w_gates w_ec (w_state w_store) = (s', Ok d)" "d_Verdict d = VerdictAllow" using w_chain_run by blast
  have ok: "scanner_ok w_scan" "ContainsHighRiskFindings (w_scan ''attack'' ''UNKNOWN'' ''TAINTED'')"
    by (simp_all add: scanner_ok_def w_scan_def ContainsHighRiskFindings_def SeverityAtLeast_def severityOrder_def)
  have t: "ec_ThreatScanResult w_ec = None" "''user_input'' \<in> set scan_keys" by (simp_all add: w_ec_def scan_keys_def)
  have p: "trustedInputProvenance (ec_ctx w_ec) = (''UNKNOWN'', ''TAINTED'')"
    using w_like_ec by (simp add: trustedInputProvenance_def trustedContextString_def trustedSecurityContext_def w_context)
  show ?thesis
    using ok tainted_text_is_scanned [OF r w_gates_fields(3) ok(1) t(1,2) w_context_facts(7) [OF w_like_ec]] by (simp add: p IsTainted_def)
qed

end
