(* ===== verification/Capability.thy ===== *)
theory Capability
  imports Contracts "HOL-Library.Char_ord" "HOL-Library.List_Lexorder"
begin

text \<open>
  The capability registry and the rollback plans, \<^verbatim>\<open>core/pkg/capability/manifest.go\<close>, \<^verbatim>\<open>registry.go\<close> and
  \<^verbatim>\<open>rollback.go\<close>: the manifests with their validation (the regular expressions of the source are
  written out as recognisers), the strict load of a directory, and the lookup by reference. Parameters:
  the directory, reading and strictly decoding a file, canonical JSON, SHA-256, RFC 3339 parsing.
\<close>

section \<open>Recognisers for the patterns\<close>

definition is_lower_digit :: "char \<Rightarrow> bool" where
  "is_lower_digit c = (let n = of_char c :: nat in 48 \<le> n \<and> n \<le> 57 \<or> 97 \<le> n \<and> n \<le> 122)"

definition is_digit :: "char \<Rightarrow> bool" where
  "is_digit c = (let n = of_char c :: nat in 48 \<le> n \<and> n \<le> 57)"

definition is_alnum :: "char \<Rightarrow> bool" where
  "is_alnum c = (is_lower_digit c \<or> (let n = of_char c :: nat in 65 \<le> n \<and> n \<le> 90))"

definition is_lower_hex :: "char \<Rightarrow> bool" where
  "is_lower_hex c = (is_digit c \<or> (let n = of_char c :: nat in 97 \<le> n \<and> n \<le> 102))"

definition kebab_segment :: "string \<Rightarrow> bool" where
  "kebab_segment w = (case w of [] \<Rightarrow> False | c # s \<Rightarrow> is_lower_digit c \<and> list_all (\<lambda>x. is_lower_digit x \<or> x = CHR ''-'') s)"

text \<open>\<^verbatim>\<open>^helm\.cap\.[a-z0-9][a-z0-9-]*(\.[a-z0-9][a-z0-9-]*)+$\<close>\<close>

definition capabilityIDPattern :: "string \<Rightarrow> bool" where
  "capabilityIDPattern s =
     (case strip_prefix ''helm.cap.'' s of
        None \<Rightarrow> False
      | Some r \<Rightarrow> (let ws = split_on (CHR ''.'') r in length ws \<ge> 2 \<and> list_all kebab_segment ws))"

definition numeric_id :: "string \<Rightarrow> bool" where
  "numeric_id w = (w = ''0'' \<or> w \<noteq> [] \<and> list_all is_digit w \<and> hd w \<noteq> CHR ''0'')"

text \<open>Three numbers, then after the first hyphen an optional suffix over letters, digits, dots and hyphens.\<close>

definition semverPattern :: "string \<Rightarrow> bool" where
  "semverPattern s =
     (let core = takeWhile (\<lambda>c. c \<noteq> CHR ''-'') s; rest = dropWhile (\<lambda>c. c \<noteq> CHR ''-'') s; ws = split_on (CHR ''.'') core
      in length ws = 3 \<and> list_all numeric_id ws \<and>
         (rest = [] \<or> length rest > 1 \<and> list_all (\<lambda>c. is_alnum c \<or> c = CHR ''.'' \<or> c = CHR ''-'') (drop 1 rest)))"

definition sha256_digest :: "string \<Rightarrow> bool" where
  "sha256_digest s = (case strip_prefix ''sha256:'' s of None \<Rightarrow> False | Some r \<Rightarrow> length r = 64 \<and> list_all is_lower_hex r)"

section \<open>Manifests\<close>

record Binding =
  bi_Kind :: string
  bi_Ref :: string
  bi_ParametersSchema :: gctx

record RollbackRequirement =
  rr_Required :: bool
  rr_PlanRef :: string

record ReceiptRequirement =
  rc_Required :: bool
  rc_SchemaRefs :: "string list"

record MemoryAccess =
  ma_UserDomain :: string
  ma_AgentDomain :: string
  ma_CrossDomainRead :: bool

record Metadata =
  me_Homepage :: string
  me_License :: string
  me_SourcePackHash :: string
  me_CertifiedBy :: string
  me_CertifiedAt :: string

record Manifest =
  m_SchemaVersion :: string
  m_CapabilityID :: string
  m_Name :: string
  m_Version :: string
  m_Description :: string
  m_Protocol :: string
  m_Binding :: Binding
  m_EffectClass :: string
  m_Reversibility :: string
  m_DataBoundary :: string
  m_RiskScore :: int
  m_RequiredPermitLevel :: string
  m_Rollback :: RollbackRequirement
  m_Receipts :: ReceiptRequirement
  m_MemoryAccess :: MemoryAccess
  m_MinModelTier :: string
  m_Metadata :: Metadata

definition SchemaVersion :: string where "SchemaVersion = ''capability-manifest/v1''"

definition validBindingKinds :: "string list" where
  "validBindingKinds = [''mcp_tool'', ''mcp_server'', ''a2a_skill'', ''cli_command'', ''http_endpoint'', ''gui_action_primitive'']"

definition validProtocols :: "string list" where
  "validProtocols = [''mcp'', ''a2a'', ''cli'', ''http-api'', ''gui-action'', ''syscall'']"

definition validEffectClasses :: "string list" where
  "validEffectClasses = [''read_only'', ''write_local'', ''write_external'', ''network_egress'', ''credential_access'',
     ''code_execution'', ''financial'', ''irreversible'']"

definition validReversibilities :: "string list" where
  "validReversibilities = [''none'', ''compensating_action'', ''exact_undo'']"

definition validBoundaries :: "string list" where
  "validBoundaries = [''local_only'', ''device_boundary'', ''org_boundary'', ''external'']"

definition validPermitLevels :: "string list" where
  "validPermitLevels = [''none'', ''single_approval'', ''multi_party_permit'']"

definition validMemoryGrants :: "string list" where
  "validMemoryGrants = [''none'', ''read'', ''write'', ''read_write'']"

definition validModelTiers :: "string list" where
  "validModelTiers = [''fast_edge'', ''standard'', ''deep_reasoning'']"

datatype manifest_error =
    BadSchemaVersion string | BadCapabilityID string | NameRequired | BadVersion string | BadProtocol string
  | BadBindingKind string | BindingRefRequired | BadEffectClass string | BadReversibility string | BadDataBoundary string
  | RiskScoreRange int | BadPermitLevel string | RollbackMustBeRequired | PlanRefRequired | ReceiptsMustBeRequired
  | BadMemoryGrant | BadModelTier string | BadSourcePackHash | BadCertifiedAt

definition Manifest_Validate :: "(string \<Rightarrow> bool) \<Rightarrow> Manifest \<Rightarrow> (manifest_error, unit) res" where
  "Manifest_Validate rfc3339 m =
     (if m_SchemaVersion m \<noteq> SchemaVersion then Err (BadSchemaVersion (m_SchemaVersion m))
      else if \<not> capabilityIDPattern (m_CapabilityID m) then Err (BadCapabilityID (m_CapabilityID m))
      else if m_Name m = [] then Err NameRequired
      else if \<not> semverPattern (m_Version m) then Err (BadVersion (m_Version m))
      else if m_Protocol m \<notin> set validProtocols then Err (BadProtocol (m_Protocol m))
      else if bi_Kind (m_Binding m) \<notin> set validBindingKinds then Err (BadBindingKind (bi_Kind (m_Binding m)))
      else if bi_Ref (m_Binding m) = [] then Err BindingRefRequired
      else if m_EffectClass m \<notin> set validEffectClasses then Err (BadEffectClass (m_EffectClass m))
      else if m_Reversibility m \<notin> set validReversibilities then Err (BadReversibility (m_Reversibility m))
      else if m_DataBoundary m \<notin> set validBoundaries then Err (BadDataBoundary (m_DataBoundary m))
      else if m_RiskScore m < 0 \<or> m_RiskScore m > 100 then Err (RiskScoreRange (m_RiskScore m))
      else if m_RequiredPermitLevel m \<notin> set validPermitLevels then Err (BadPermitLevel (m_RequiredPermitLevel m))
      else if m_Reversibility m \<noteq> ''none'' \<and> m_EffectClass m \<noteq> ''read_only'' \<and> \<not> rr_Required (m_Rollback m) then Err RollbackMustBeRequired
      else if m_Reversibility m \<noteq> ''none'' \<and> m_EffectClass m \<noteq> ''read_only'' \<and> rr_PlanRef (m_Rollback m) = [] then Err PlanRefRequired
      else if \<not> rc_Required (m_Receipts m) then Err ReceiptsMustBeRequired
      else if ma_UserDomain (m_MemoryAccess m) \<notin> set validMemoryGrants \<or> ma_AgentDomain (m_MemoryAccess m) \<notin> set validMemoryGrants
      then Err BadMemoryGrant
      else if m_MinModelTier m \<noteq> [] \<and> m_MinModelTier m \<notin> set validModelTiers then Err (BadModelTier (m_MinModelTier m))
      else if me_SourcePackHash (m_Metadata m) \<noteq> [] \<and> \<not> sha256_digest (me_SourcePackHash (m_Metadata m)) then Err BadSourcePackHash
      else if me_CertifiedAt (m_Metadata m) \<noteq> [] \<and> \<not> rfc3339 (me_CertifiedAt (m_Metadata m)) then Err BadCertifiedAt
      else Ok ())"

section \<open>The registry\<close>

record Entry =
  en_Manifest :: Manifest
  en_Hash :: string
  en_SourcePath :: string

record Registry =
  entries :: "(string, Entry) gomap"

text \<open>
  A directory of files of some decoded type: the matching names (or the error of the pattern) and what
  reading and strictly decoding one of them yields.
\<close>

record 'a json_dir =
  jd_Glob :: "(string, string list) res"
  jd_Decode :: "string \<Rightarrow> (string, 'a) res"

datatype 'e load_error =
    GlobError string | NoFiles | DecodeFailed string string | Invalid string 'e | Duplicate string string | HashFailed string string

definition HashManifest :: "(Manifest \<Rightarrow> (string, byte list) res) \<Rightarrow> (byte list \<Rightarrow> byte list) \<Rightarrow> Manifest \<Rightarrow> (string, string) res" where
  "HashManifest jcs sha m = (case jcs m of Inl e \<Rightarrow> Err e | Inr c \<Rightarrow> Ok (''sha256:'' @ hex_EncodeToString (sha c)))"

text \<open>
  The loading loop both directories use: decode, validate, refuse a duplicate key, hash, store.
  \<open>key\<close>, \<open>valid\<close>, \<open>hash\<close> and \<open>mk\<close> are the parts in which the two copies of the loop differ.
\<close>

fun load_loop ::
  "'a json_dir \<Rightarrow> ('a \<Rightarrow> string) \<Rightarrow> ('a \<Rightarrow> ('e, unit) res) \<Rightarrow> ('a \<Rightarrow> (string, string) res) \<Rightarrow> ('a \<Rightarrow> string \<Rightarrow> string \<Rightarrow> 'b) \<Rightarrow>
   (string, 'b) gomap \<Rightarrow> string list \<Rightarrow> ('e load_error, (string, 'b) gomap) res" where
  "load_loop d key valid hash mk es [] = Ok es"
| "load_loop d key valid hash mk es (f # fs) =
     (case jd_Decode d f of
        Inl e \<Rightarrow> Err (DecodeFailed f e)
      | Inr x \<Rightarrow>
          (case valid x of
             Inl e \<Rightarrow> Err (Invalid f e)
           | Inr _ \<Rightarrow>
               (case map_of es (key x) of
                  Some _ \<Rightarrow> Err (Duplicate (key x) f)
                | None \<Rightarrow>
                    (case hash x of
                       Inl e \<Rightarrow> Err (HashFailed f e)
                     | Inr h \<Rightarrow> load_loop d key valid hash mk (AList.update (key x) (mk x h f) es) fs))))"

definition load_dir ::
  "'a json_dir \<Rightarrow> ('a \<Rightarrow> string) \<Rightarrow> ('a \<Rightarrow> ('e, unit) res) \<Rightarrow> ('a \<Rightarrow> (string, string) res) \<Rightarrow> ('a \<Rightarrow> string \<Rightarrow> string \<Rightarrow> 'b) \<Rightarrow>
   ('e load_error, (string, 'b) gomap) res" where
  "load_dir d key valid hash mk =
     (case jd_Glob d of
        Inl e \<Rightarrow> Err (GlobError e)
      | Inr files \<Rightarrow> if length files = 0 then Err NoFiles else load_loop d key valid hash mk [] (sort files))"

definition LoadDir ::
  "(string \<Rightarrow> bool) \<Rightarrow> (Manifest \<Rightarrow> (string, byte list) res) \<Rightarrow> (byte list \<Rightarrow> byte list) \<Rightarrow> Manifest json_dir \<Rightarrow>
   (manifest_error load_error, Registry) res" where
  "LoadDir rfc3339 jcs sha d =
     (case load_dir d m_CapabilityID (Manifest_Validate rfc3339) (HashManifest jcs sha)
             (\<lambda>m h f. \<lparr>en_Manifest = m, en_Hash = h, en_SourcePath = f\<rparr>) of
        Inl e \<Rightarrow> Err e
      | Inr es \<Rightarrow> Ok \<lparr>entries = es\<rparr>)"

definition Resolve :: "Registry option \<Rightarrow> string \<Rightarrow> Entry option" where
  "Resolve r capabilityID = (case r of None \<Rightarrow> None | Some reg \<Rightarrow> map_of (entries reg) capabilityID)"

definition Registry_Len :: "Registry option \<Rightarrow> nat" where
  "Registry_Len r = (case r of None \<Rightarrow> 0 | Some reg \<Rightarrow> length (entries reg))"

definition Registry_IDs :: "Registry \<Rightarrow> string list" where
  "Registry_IDs r = sort (map fst (entries r))"

section \<open>Rollback plans\<close>

record RollbackStep =
  st_Order :: int
  st_ActionRef :: string
  st_Description :: string
  st_ParametersTemplate :: gctx

record RollbackPlan =
  p_SchemaVersion :: string
  p_PlanID :: string
  p_Strategy :: string
  p_AppliesCapabilityID :: string
  p_AppliesEffectReceiptRef :: string
  p_Steps :: "RollbackStep list"
  p_VerificationMethod :: string
  p_EvidenceRefs :: "string list"
  p_GuaranteeExpiry :: "gotime option"

record RollbackPlanEntry =
  pe_Plan :: RollbackPlan
  pe_Hash :: string
  pe_SourcePath :: string

definition validStrategies :: "string list" where
  "validStrategies = [''exact_undo'', ''compensating_action'', ''snapshot_restore'']"

definition validVerificationMethods :: "string list" where
  "validVerificationMethods = [''receipt_pairing'', ''state_digest_match'', ''human_attestation'']"

datatype plan_error =
    PlanSchemaVersion string | PlanIDRequired | PlanStrategy string | AppliesToMissing | AppliesToInvalid string | AppliesToUnknown string
  | StepsRequired | StepOrder nat | StepDuplicate nat int | StepActionRequired nat | StepActionUnknown nat string | PlanVerification string

fun check_steps :: "Registry option \<Rightarrow> nat \<Rightarrow> int list \<Rightarrow> RollbackStep list \<Rightarrow> (plan_error, unit) res" where
  "check_steps reg i seen [] = Ok ()"
| "check_steps reg i seen (st # steps) =
     (if st_Order st < 1 then Err (StepOrder i)
      else if st_Order st \<in> set seen then Err (StepDuplicate i (st_Order st))
      else if st_ActionRef st = [] then Err (StepActionRequired i)
      else if reg \<noteq> None \<and> Resolve reg (st_ActionRef st) = None then Err (StepActionUnknown i (st_ActionRef st))
      else check_steps reg (i + 1) (st_Order st # seen) steps)"

definition Plan_Validate :: "Registry option \<Rightarrow> RollbackPlan \<Rightarrow> (plan_error, unit) res" where
  "Plan_Validate reg p =
     (if p_SchemaVersion p \<noteq> ''rollback-plan/v1'' then Err (PlanSchemaVersion (p_SchemaVersion p))
      else if p_PlanID p = [] then Err PlanIDRequired
      else if p_Strategy p \<notin> set validStrategies then Err (PlanStrategy (p_Strategy p))
      else if p_AppliesCapabilityID p = [] \<and> p_AppliesEffectReceiptRef p = [] then Err AppliesToMissing
      else if p_AppliesCapabilityID p \<noteq> [] \<and> \<not> capabilityIDPattern (p_AppliesCapabilityID p) then Err (AppliesToInvalid (p_AppliesCapabilityID p))
      else if p_AppliesCapabilityID p \<noteq> [] \<and> reg \<noteq> None \<and> Resolve reg (p_AppliesCapabilityID p) = None
      then Err (AppliesToUnknown (p_AppliesCapabilityID p))
      else if length (p_Steps p) = 0 then Err StepsRequired
      else case check_steps reg 0 [] (p_Steps p) of
             Inl e \<Rightarrow> Err e
           | Inr _ \<Rightarrow> if p_VerificationMethod p \<notin> set validVerificationMethods then Err (PlanVerification (p_VerificationMethod p)) else Ok ())"

definition AppliesToCapability :: "RollbackPlan option \<Rightarrow> string \<Rightarrow> bool" where
  "AppliesToCapability p capabilityID = (case p of None \<Rightarrow> False | Some p \<Rightarrow> p_AppliesCapabilityID p = capabilityID)"

definition HashRollbackPlan :: "(RollbackPlan \<Rightarrow> (string, byte list) res) \<Rightarrow> (byte list \<Rightarrow> byte list) \<Rightarrow> RollbackPlan \<Rightarrow> (string, string) res" where
  "HashRollbackPlan jcs sha p = (case jcs p of Inl e \<Rightarrow> Err e | Inr c \<Rightarrow> Ok (''sha256:'' @ hex_EncodeToString (sha c)))"

record RollbackPlanRegistry =
  plans :: "(string, RollbackPlanEntry) gomap"

definition LoadRollbackDir ::
  "(RollbackPlan \<Rightarrow> (string, byte list) res) \<Rightarrow> (byte list \<Rightarrow> byte list) \<Rightarrow> RollbackPlan json_dir \<Rightarrow> Registry option \<Rightarrow>
   (plan_error load_error, RollbackPlanRegistry) res" where
  "LoadRollbackDir jcs sha d reg =
     (case load_dir d p_PlanID (Plan_Validate reg) (HashRollbackPlan jcs sha) (\<lambda>p h f. \<lparr>pe_Plan = p, pe_Hash = h, pe_SourcePath = f\<rparr>) of
        Inl e \<Rightarrow> Err e
      | Inr es \<Rightarrow> Ok \<lparr>plans = es\<rparr>)"

definition ResolvePlan :: "RollbackPlanRegistry option \<Rightarrow> string \<Rightarrow> RollbackPlanEntry option" where
  "ResolvePlan r planRef = (case r of None \<Rightarrow> None | Some reg \<Rightarrow> map_of (plans reg) planRef)"

definition Plan_Expired :: "RollbackPlan \<Rightarrow> gotime \<Rightarrow> bool" where
  "Plan_Expired p now = (case p_GuaranteeExpiry p of None \<Rightarrow> False | Some t \<Rightarrow> \<not> now < t)"

section \<open>What a load guarantees\<close>

text \<open>
  The loop keeps: keys are unique, every entry is the decoded, valid and hashed content of one of the
  files read, and there is one entry per file.
\<close>

lemma load_loop_ok:
  assumes "load_loop d key valid hash mk es fs = Ok es'" "distinct (map fst es)"
  shows "distinct (map fst es') \<and> length es' = length es + length fs \<and>
    (\<forall>k b. map_of es' k = Some b \<longrightarrow> map_of es k = Some b \<or>
      (\<exists>f x h. f \<in> set fs \<and> jd_Decode d f = Ok x \<and> valid x = Ok () \<and> key x = k \<and> hash x = Ok h \<and> b = mk x h f)) \<and>
    (\<forall>f \<in> set fs. \<exists>x h. jd_Decode d f = Ok x \<and> map_of es' (key x) = Some (mk x h f) \<and> hash x = Ok h) \<and>
    (\<forall>k b. map_of es k = Some b \<longrightarrow> map_of es' k = Some b)"
  using assms
proof (induction fs arbitrary: es)
  case (Cons f fs)
  obtain x h where x: "jd_Decode d f = Ok x" "valid x = Ok ()" "map_of es (key x) = None" "hash x = Ok h"
    and run: "load_loop d key valid hash mk (AList.update (key x) (mk x h f) es) fs = Ok es'"
    using Cons.prems(1) by (auto split: sum.splits option.splits)
  have d: "distinct (map fst (AList.update (key x) (mk x h f) es))" using Cons.prems(2) by (rule distinct_update)
  have "key x \<notin> fst ` set es" using x(3) by (simp add: map_of_eq_None_iff)
  then have len: "length (AList.update (key x) (mk x h f) es) = Suc (length es)" by (induction es) auto
  note ih = Cons.IH [OF run d]
  show ?case
  proof (intro conjI allI impI ballI)
    show "distinct (map fst es')" "length es' = length es + length (f # fs)" using ih len by simp_all
    show "map_of es' k = Some b" if "map_of es k = Some b" for k b
      using ih that x(3) by (metis fun_upd_other map_of_alist_update option.distinct(1))
    show "map_of es k = Some b \<or> (\<exists>f' x h. f' \<in> set (f # fs) \<and> jd_Decode d f' = Ok x \<and> valid x = Ok () \<and> key x = k \<and> hash x = Ok h \<and> b = mk x h f')"
      if "map_of es' k = Some b" for k b
    proof -
      have "map_of (AList.update (key x) (mk x h f) es) k = Some b \<or>
        (\<exists>f x h. f \<in> set fs \<and> jd_Decode d f = Ok x \<and> valid x = Ok () \<and> key x = k \<and> hash x = Ok h \<and> b = mk x h f)"
        using ih that by blast
      then show ?thesis using x by (auto split: if_splits)
    qed
    show "\<exists>x h. jd_Decode d f' = Ok x \<and> map_of es' (key x) = Some (mk x h f') \<and> hash x = Ok h" if "f' \<in> set (f # fs)" for f'
    proof (cases "f' \<in> set fs")
      case True
      then show ?thesis using ih by blast
    next
      case False
      then have "f' = f" using that by simp
      moreover have "map_of es' (key x) = Some (mk x h f)" using ih by simp
      ultimately show ?thesis using x by blast
    qed
  qed
qed simp

lemma load_dir_ok:
  assumes "load_dir d key valid hash mk = Ok es"
  shows "\<exists>files. jd_Glob d = Ok files \<and> files \<noteq> [] \<and> distinct (map fst es) \<and> length es = length files \<and>
    (\<forall>k b. map_of es k = Some b \<longrightarrow>
      (\<exists>f x h. f \<in> set files \<and> jd_Decode d f = Ok x \<and> valid x = Ok () \<and> key x = k \<and> hash x = Ok h \<and> b = mk x h f)) \<and>
    (\<forall>f \<in> set files. \<exists>x h. jd_Decode d f = Ok x \<and> map_of es (key x) = Some (mk x h f) \<and> hash x = Ok h)"
proof -
  obtain files where f: "jd_Glob d = Ok files" "files \<noteq> []" "load_loop d key valid hash mk [] (sort files) = Ok es"
    using assms by (auto simp: load_dir_def split: sum.splits if_splits)
  note ok = load_loop_ok [OF f(3), simplified list.map distinct.simps map_of.simps option.distinct set_sort length_sort list.size add_0 simp_thms]
  from f(1,2) ok show ?thesis by blast
qed

lemma manifest_valid_iff:
  "Manifest_Validate rfc m = Ok () \<longleftrightarrow>
     m_SchemaVersion m = SchemaVersion \<and> capabilityIDPattern (m_CapabilityID m) \<and> m_Name m \<noteq> [] \<and> semverPattern (m_Version m) \<and>
     m_Protocol m \<in> set validProtocols \<and> bi_Kind (m_Binding m) \<in> set validBindingKinds \<and> bi_Ref (m_Binding m) \<noteq> [] \<and>
     m_EffectClass m \<in> set validEffectClasses \<and> m_Reversibility m \<in> set validReversibilities \<and> m_DataBoundary m \<in> set validBoundaries \<and>
     0 \<le> m_RiskScore m \<and> m_RiskScore m \<le> 100 \<and> m_RequiredPermitLevel m \<in> set validPermitLevels \<and>
     (m_Reversibility m = ''none'' \<or> m_EffectClass m = ''read_only'' \<or> rr_Required (m_Rollback m) \<and> rr_PlanRef (m_Rollback m) \<noteq> []) \<and>
     rc_Required (m_Receipts m) \<and> ma_UserDomain (m_MemoryAccess m) \<in> set validMemoryGrants \<and>
     ma_AgentDomain (m_MemoryAccess m) \<in> set validMemoryGrants \<and> (m_MinModelTier m = [] \<or> m_MinModelTier m \<in> set validModelTiers) \<and>
     (me_SourcePackHash (m_Metadata m) = [] \<or> sha256_digest (me_SourcePackHash (m_Metadata m))) \<and>
     (me_CertifiedAt (m_Metadata m) = [] \<or> rfc (me_CertifiedAt (m_Metadata m)))"
  unfolding Manifest_Validate_def guard_ok by (simp only: de_Morgan_conj de_Morgan_disj not_not not_less simp_thms) blast

lemma loaded_keyed:
  assumes "LoadDir rfc jcs sha d = Ok reg" "Resolve (Some reg) k = Some e"
  shows "m_CapabilityID (en_Manifest e) = k"
proof -
  obtain es where reg: "reg = \<lparr>entries = es\<rparr>"
    and l: "load_dir d m_CapabilityID (Manifest_Validate rfc) (HashManifest jcs sha) (\<lambda>m h f. \<lparr>en_Manifest = m, en_Hash = h, en_SourcePath = f\<rparr>) = Ok es"
    using assms(1) by (auto simp: LoadDir_def split: sum.splits)
  have "map_of es k = Some e" using assms(2) by (simp add: Resolve_def reg)
  then show ?thesis using load_dir_ok [OF l] by fastforce
qed

section \<open>Properties\<close>

text \<open>
  C23: A loaded registry is well formed, and the load is strict. If the directory loads, it had files, every
  file decoded to a valid manifest, and the registry has one entry per file: each capability resolves to
  the manifest of one of the files, kept under its own identifier with the hash of its canonical form,
  whose fields are all within the vocabulary; a capability with reversible effects names a rollback plan.
  Every file's manifest is found under its identifier.
\<close>
theorem loaded_registry_well_formed:
  assumes "LoadDir rfc jcs sha d = Ok reg"
  shows "(\<exists>files. jd_Glob d = Ok files \<and> files \<noteq> [] \<and> Registry_Len (Some reg) = length files \<and> distinct (Registry_IDs reg) \<and>
      (\<forall>f \<in> set files. \<exists>m e. jd_Decode d f = Ok m \<and> Resolve (Some reg) (m_CapabilityID m) = Some e \<and> en_Manifest e = m \<and> en_SourcePath e = f)) \<and>
    (\<forall>k e. Resolve (Some reg) k = Some e \<longrightarrow>
      m_CapabilityID (en_Manifest e) = k \<and> capabilityIDPattern k \<and> HashManifest jcs sha (en_Manifest e) = Ok (en_Hash e) \<and>
      m_EffectClass (en_Manifest e) \<in> set validEffectClasses \<and> m_DataBoundary (en_Manifest e) \<in> set validBoundaries \<and>
      0 \<le> m_RiskScore (en_Manifest e) \<and> m_RiskScore (en_Manifest e) \<le> 100 \<and>
      (m_Reversibility (en_Manifest e) = ''none'' \<or> m_EffectClass (en_Manifest e) = ''read_only'' \<or>
         rr_Required (m_Rollback (en_Manifest e)) \<and> rr_PlanRef (m_Rollback (en_Manifest e)) \<noteq> []))"
proof -
  obtain es where reg: "reg = \<lparr>entries = es\<rparr>"
    and l: "load_dir d m_CapabilityID (Manifest_Validate rfc) (HashManifest jcs sha) (\<lambda>m h f. \<lparr>en_Manifest = m, en_Hash = h, en_SourcePath = f\<rparr>) = Ok es"
    using assms by (auto simp: LoadDir_def split: sum.splits)
  obtain files where g: "jd_Glob d = Ok files" "files \<noteq> []" "distinct (map fst es)" "length es = length files"
    and e: "\<And>k b. map_of es k = Some b \<Longrightarrow> \<exists>f m h. f \<in> set files \<and> jd_Decode d f = Ok m \<and> Manifest_Validate rfc m = Ok () \<and> m_CapabilityID m = k \<and>
        HashManifest jcs sha m = Ok h \<and> b = \<lparr>en_Manifest = m, en_Hash = h, en_SourcePath = f\<rparr>"
    and f: "\<And>f. f \<in> set files \<Longrightarrow> \<exists>m h. jd_Decode d f = Ok m \<and> map_of es (m_CapabilityID m) = Some \<lparr>en_Manifest = m, en_Hash = h, en_SourcePath = f\<rparr>"
    using load_dir_ok [OF l] by blast
  have "\<exists>m e. jd_Decode d f' = Ok m \<and> Resolve (Some reg) (m_CapabilityID m) = Some e \<and> en_Manifest e = m \<and> en_SourcePath e = f'"
    if "f' \<in> set files" for f'
    using f [OF that] by (auto simp: Resolve_def reg)
  moreover have "m_CapabilityID (en_Manifest b) = k \<and> Manifest_Validate rfc (en_Manifest b) = Ok () \<and> HashManifest jcs sha (en_Manifest b) = Ok (en_Hash b)"
    if "Resolve (Some reg) k = Some b" for k b
    using e [of k b] that by (auto simp: Resolve_def reg)
  ultimately show ?thesis
    using g unfolding manifest_valid_iff by (auto simp: Registry_Len_def Registry_IDs_def reg)
qed

definition w_manifest :: Manifest where
  "w_manifest = \<lparr>m_SchemaVersion = SchemaVersion, m_CapabilityID = ''helm.cap.fs.write'', m_Name = ''write'', m_Version = ''1.0.0'',
     m_Description = [], m_Protocol = ''mcp'', m_Binding = \<lparr>bi_Kind = ''mcp_tool'', bi_Ref = ''write'', bi_ParametersSchema = None\<rparr>,
     m_EffectClass = ''write_local'', m_Reversibility = ''exact_undo'', m_DataBoundary = ''local_only'', m_RiskScore = 10,
     m_RequiredPermitLevel = ''none'', m_Rollback = \<lparr>rr_Required = True, rr_PlanRef = ''undo-write''\<rparr>,
     m_Receipts = \<lparr>rc_Required = True, rc_SchemaRefs = []\<rparr>,
     m_MemoryAccess = \<lparr>ma_UserDomain = ''none'', ma_AgentDomain = ''read'', ma_CrossDomainRead = False\<rparr>, m_MinModelTier = [],
     m_Metadata = \<lparr>me_Homepage = [], me_License = [], me_SourcePackHash = [], me_CertifiedBy = [], me_CertifiedAt = []\<rparr>\<rparr>"

definition w_dir :: "Manifest json_dir" where
  "w_dir = \<lparr>jd_Glob = Ok [''write.json''], jd_Decode = (\<lambda>f. Ok w_manifest)\<rparr>"

definition w_entry :: Entry where
  "w_entry = \<lparr>en_Manifest = w_manifest, en_Hash = ''sha256:'' @ replicate 64 (CHR ''0''), en_SourcePath = ''write.json''\<rparr>"

lemma w_manifest_valid: "Manifest_Validate (\<lambda>t. True) w_manifest = Ok ()"
proof -
  have "capabilityIDPattern ''helm.cap.fs.write''" "semverPattern ''1.0.0''" by code_simp+
  then show ?thesis
    unfolding manifest_valid_iff
    by (simp add: w_manifest_def validProtocols_def validBindingKinds_def validEffectClasses_def validReversibilities_def
        validBoundaries_def validPermitLevels_def validMemoryGrants_def)
qed

lemma w_loaded: "LoadDir (\<lambda>t. True) (\<lambda>m. Ok []) (\<lambda>b. replicate 32 0) w_dir = Ok \<lparr>entries = [(''helm.cap.fs.write'', w_entry)]\<rparr>"
proof -
  have "hex_byte 0 = ''00''" by code_simp
  then have "hex_EncodeToString (replicate 32 0) = replicate 64 (CHR ''0'')" by (simp add: hex_EncodeToString_def numeral_eq_Suc)
  moreover have "m_CapabilityID w_manifest = ''helm.cap.fs.write''" by (simp add: w_manifest_def)
  ultimately show ?thesis
    by (simp add: LoadDir_def load_dir_def w_dir_def w_manifest_valid HashManifest_def w_entry_def)
qed

theorem loaded_registry_well_formed_witness:
  "\<exists>reg e. LoadDir (\<lambda>t. True) (\<lambda>m. Ok []) (\<lambda>b. replicate 32 0) w_dir = Ok reg \<and> Registry_Len (Some reg) = 1 \<and>
     Resolve (Some reg) ''helm.cap.fs.write'' = Some e \<and> capabilityIDPattern (m_CapabilityID (en_Manifest e))"
proof -
  have r: "Resolve (Some \<lparr>entries = [(''helm.cap.fs.write'', w_entry)]\<rparr>) ''helm.cap.fs.write'' = Some w_entry" by (simp add: Resolve_def)
  show ?thesis using w_loaded r loaded_registry_well_formed [OF w_loaded] by (auto simp: w_dir_def)
qed

end
