(* ===== verification/Capability_Token.thy ===== *)
theory Capability_Token
  imports Capability
begin

text \<open>
  Task capability tokens, \<^verbatim>\<open>core/pkg/capability/token.go\<close> and \<^verbatim>\<open>token_authority.go\<close>: shape, minting,
  verification and use. Parameters: canonical JSON, SHA-256, the authority's signer and the signature
  verifier, the JSON decoder, the clock's reading and the random identifier of a call. What the
  verifier relies on of a token store is the locale \<open>token_store\<close>, interpreted on the in-memory store.
\<close>

section \<open>Tokens\<close>

definition TokenStatusActive :: string where "TokenStatusActive = ''active''"
definition TokenStatusUsedUp :: string where "TokenStatusUsedUp = ''used_up''"
definition TokenStatusExpired :: string where "TokenStatusExpired = ''expired''"
definition TokenStatusRevoked :: string where "TokenStatusRevoked = ''revoked''"

lemmas token_statuses = TokenStatusActive_def TokenStatusUsedUp_def TokenStatusExpired_def TokenStatusRevoked_def

definition Terminal :: "string \<Rightarrow> bool" where
  "Terminal s = (s = TokenStatusUsedUp \<or> s = TokenStatusExpired \<or> s = TokenStatusRevoked)"

definition DefaultTokenTTL :: godur where "DefaultTokenTTL = 15 * minute"

record TokenSubject =
  su_AgentID :: string
  su_SessionID :: string
  su_DeviceID :: string

record TokenCapabilityRef =
  cr_CapabilityID :: string
  cr_Version :: string
  cr_ManifestHash :: string

record TokenConstraints =
  tc_ArgsDigest :: string
  tc_DataBoundaryCeiling :: string

record TokenGrant =
  gr_IssuedAt :: gotime
  gr_ExpiresAt :: gotime
  gr_MaxUses :: int
  gr_Constraints :: TokenConstraints

record Token =
  tk_SchemaVersion :: string
  tk_TokenID :: string
  tk_TaskID :: string
  tk_Subject :: TokenSubject
  tk_CapabilityRef :: TokenCapabilityRef
  tk_Grant :: TokenGrant
  tk_Status :: string
  tk_RevocationReceiptRef :: string
  tk_Signature :: string

definition signedPayload :: "Token \<Rightarrow> Token" where
  "signedPayload t = t\<lparr>tk_Status := [], tk_RevocationReceiptRef := [], tk_Signature := []\<rparr>"

definition tokenIDPattern :: "string \<Rightarrow> bool" where
  "tokenIDPattern s =
     (case strip_prefix ''tok_'' s of
        None \<Rightarrow> False
      | Some r \<Rightarrow> 8 \<le> length r \<and> length r \<le> 64 \<and> list_all (\<lambda>c. is_alnum c \<or> c = CHR ''_'' \<or> c = CHR ''-'') r)"

datatype shape_error =
    TkSchemaVersion string | TkTokenID string | TkTaskRequired | TkAgentRequired | TkCapability string | TkVersion string | TkManifestHash
  | TkWindowRequired | TkWindowOrder | TkMaxUses | TkArgsDigest | TkCeiling string | TkStatus string | TkSignatureRequired

definition validateShape :: "bool \<Rightarrow> Token \<Rightarrow> (shape_error, unit) res" where
  "validateShape requireSignature t =
     (if tk_SchemaVersion t \<noteq> ''capability-token/v1'' then Err (TkSchemaVersion (tk_SchemaVersion t))
      else if \<not> tokenIDPattern (tk_TokenID t) then Err (TkTokenID (tk_TokenID t))
      else if tk_TaskID t = [] then Err TkTaskRequired
      else if su_AgentID (tk_Subject t) = [] then Err TkAgentRequired
      else if cr_CapabilityID (tk_CapabilityRef t) = [] \<or> \<not> capabilityIDPattern (cr_CapabilityID (tk_CapabilityRef t))
      then Err (TkCapability (cr_CapabilityID (tk_CapabilityRef t)))
      else if \<not> semverPattern (cr_Version (tk_CapabilityRef t)) then Err (TkVersion (cr_Version (tk_CapabilityRef t)))
      else if \<not> sha256_digest (cr_ManifestHash (tk_CapabilityRef t)) then Err TkManifestHash
      else if gr_IssuedAt (tk_Grant t) = 0 \<or> gr_ExpiresAt (tk_Grant t) = 0 then Err TkWindowRequired
      else if \<not> gr_ExpiresAt (tk_Grant t) > gr_IssuedAt (tk_Grant t) then Err TkWindowOrder
      else if gr_MaxUses (tk_Grant t) < 0 then Err TkMaxUses
      else if tc_ArgsDigest (gr_Constraints (tk_Grant t)) \<noteq> [] \<and> \<not> sha256_digest (tc_ArgsDigest (gr_Constraints (tk_Grant t))) then Err TkArgsDigest
      else if tc_DataBoundaryCeiling (gr_Constraints (tk_Grant t)) \<noteq> [] \<and>
              tc_DataBoundaryCeiling (gr_Constraints (tk_Grant t)) \<notin> set validBoundaries
      then Err (TkCeiling (tc_DataBoundaryCeiling (gr_Constraints (tk_Grant t))))
      else if tk_Status t \<notin> {TokenStatusActive, TokenStatusUsedUp, TokenStatusExpired, TokenStatusRevoked} then Err (TkStatus (tk_Status t))
      else if requireSignature \<and> tk_Signature t = [] then Err TkSignatureRequired
      else Ok ())"

definition ValidateShape :: "Token \<Rightarrow> (shape_error, unit) res" where
  "ValidateShape t = validateShape True t"

definition boundaryRank :: "string \<Rightarrow> int" where
  "boundaryRank b =
     (if b = ''local_only'' then 0 else if b = ''device_boundary'' then 1 else if b = ''org_boundary'' then 2
      else if b = ''external'' then 3 else - 1)"

datatype token_error =
    Malformed string | MalformedShape shape_error | BadSignature string | UnknownToken string | NotActive string | Expired string
  | TerminalStatus string string | TaskMismatch string | CapabilityMismatch string | ManifestDrift string | ArgsDigestMismatch string
  | BoundaryCeiling string string | UnknownCapability string | ClockUnavailable | CanonicalizeToken string | SignToken string

section \<open>The token store\<close>

record InMemoryTokenStore =
  ts_tokens :: "(string, Token) gomap"
  ts_uses :: "(string, int) gomap"

definition NewInMemoryTokenStore :: InMemoryTokenStore where
  "NewInMemoryTokenStore = \<lparr>ts_tokens = [], ts_uses = []\<rparr>"

definition uses_of :: "InMemoryTokenStore \<Rightarrow> string \<Rightarrow> int" where
  "uses_of s i = (case map_of (ts_uses s) i of None \<Rightarrow> 0 | Some n \<Rightarrow> n)"

definition Put_token :: "Token \<Rightarrow> InMemoryTokenStore \<Rightarrow> InMemoryTokenStore \<times> (token_error, unit) res" where
  "Put_token t s =
     (case ValidateShape t of
        Inl e \<Rightarrow> (s, Err (MalformedShape e))
      | Inr _ \<Rightarrow>
          (case map_of (ts_tokens s) (tk_TokenID t) of
             Some _ \<Rightarrow> (s, Err (Malformed (''duplicate token_id '' @ tk_TokenID t)))
           | None \<Rightarrow> (s\<lparr>ts_tokens := AList.update (tk_TokenID t) t (ts_tokens s)\<rparr>, Ok ())))"

definition Get_token :: "string \<Rightarrow> InMemoryTokenStore \<Rightarrow> (token_error, Token \<times> int) res" where
  "Get_token i s = (case map_of (ts_tokens s) i of None \<Rightarrow> Err (UnknownToken i) | Some t \<Rightarrow> Ok (t, uses_of s i))"

definition ConsumeUse :: "string \<Rightarrow> InMemoryTokenStore \<Rightarrow> InMemoryTokenStore \<times> (token_error, int) res" where
  "ConsumeUse i s =
     (case map_of (ts_tokens s) i of
        None \<Rightarrow> (s, Err (UnknownToken i))
      | Some t \<Rightarrow>
          if Terminal (tk_Status t) then (s, Err (TerminalStatus (tk_Status t) i))
          else (let n = wrap64 (uses_of s i + 1);
                    s = s\<lparr>ts_uses := AList.update i n (ts_uses s)\<rparr>;
                    s = (if gr_MaxUses (tk_Grant t) > 0 \<and> n \<ge> gr_MaxUses (tk_Grant t)
                         then s\<lparr>ts_tokens := AList.update i (t\<lparr>tk_Status := TokenStatusUsedUp\<rparr>) (ts_tokens s)\<rparr> else s)
                in (s, Ok n)))"

definition Revoke_token :: "string \<Rightarrow> string \<Rightarrow> InMemoryTokenStore \<Rightarrow> InMemoryTokenStore \<times> (token_error, unit) res" where
  "Revoke_token i receiptRef s =
     (case map_of (ts_tokens s) i of
        None \<Rightarrow> (s, Err (UnknownToken i))
      | Some t \<Rightarrow> (s\<lparr>ts_tokens := AList.update i (t\<lparr>tk_Status := TokenStatusRevoked, tk_RevocationReceiptRef := receiptRef\<rparr>) (ts_tokens s)\<rparr>, Ok ()))"

section \<open>Minting and verification\<close>

record token_env =
  tv_jcs :: "Token \<Rightarrow> (string, byte list) res"
  tv_jcs_args :: "gctx \<Rightarrow> (string, byte list) res"
  tv_sha :: "byte list \<Rightarrow> byte list"
  tv_verify :: "string \<Rightarrow> string \<Rightarrow> byte list \<Rightarrow> (string, bool) res"

record MintRequest =
  mr_TaskID :: string
  mr_Subject :: TokenSubject
  mr_CapabilityID :: string
  mr_TTL :: godur
  mr_MaxUses :: int
  mr_Constraints :: TokenConstraints

record TokenAuthority =
  au_signer :: "(byte list \<Rightarrow> (string, string) res) option"
  au_registry :: "Registry option"
  au_clock :: "gotime option"

definition sign_token :: "token_env \<Rightarrow> (byte list \<Rightarrow> (string, string) res) option \<Rightarrow> Token \<Rightarrow> (token_error, Token) res" where
  "sign_token tv signer t =
     (case signer of
        None \<Rightarrow> Err (Malformed ''token authority signer is not configured'')
      | Some sg \<Rightarrow>
          (case tv_jcs tv (signedPayload t) of
             Inl e \<Rightarrow> Err (CanonicalizeToken e)
           | Inr canonical \<Rightarrow> (case sg canonical of Inl e \<Rightarrow> Err (SignToken e) | Inr sig \<Rightarrow> Ok (t\<lparr>tk_Signature := sig\<rparr>))))"

text \<open>\<open>rnd\<close> is the hexadecimal text of 16 random bytes; \<open>put\<close> is the store's operation.\<close>

definition Mint_with ::
  "(Token \<Rightarrow> 's \<Rightarrow> 's \<times> (token_error, unit) res) \<Rightarrow> token_env \<Rightarrow> string \<Rightarrow> TokenAuthority \<Rightarrow> MintRequest \<Rightarrow> 's \<Rightarrow>
   's \<times> (token_error, Token) res" where
  "Mint_with put tv rnd a req s =
     (if au_registry a = None then (s, Err (UnknownCapability (mr_CapabilityID req)))
      else if au_signer a = None then (s, Err (Malformed ''token authority is incomplete''))
      else case au_clock a of
        None \<Rightarrow> (s, Err ClockUnavailable)
      | Some now \<Rightarrow>
          (case Resolve (au_registry a) (mr_CapabilityID req) of
             None \<Rightarrow> (s, Err (UnknownCapability (mr_CapabilityID req)))
           | Some entry \<Rightarrow>
               (let ttl = (if mr_TTL req \<le> 0 then DefaultTokenTTL else mr_TTL req);
                    token = \<lparr>tk_SchemaVersion = ''capability-token/v1'', tk_TokenID = ''tok_'' @ rnd, tk_TaskID = mr_TaskID req,
                      tk_Subject = mr_Subject req,
                      tk_CapabilityRef = \<lparr>cr_CapabilityID = m_CapabilityID (en_Manifest entry), cr_Version = m_Version (en_Manifest entry),
                        cr_ManifestHash = en_Hash entry\<rparr>,
                      tk_Grant = \<lparr>gr_IssuedAt = now, gr_ExpiresAt = now + ttl, gr_MaxUses = mr_MaxUses req, gr_Constraints = mr_Constraints req\<rparr>,
                      tk_Status = TokenStatusActive, tk_RevocationReceiptRef = [], tk_Signature = []\<rparr>
                in case validateShape False token of
                     Inl e \<Rightarrow> (s, Err (MalformedShape e))
                   | Inr _ \<Rightarrow>
                       (case sign_token tv (au_signer a) token of
                          Inl e \<Rightarrow> (s, Err e)
                        | Inr token \<Rightarrow>
                            (case ValidateShape token of
                               Inl e \<Rightarrow> (s, Err (MalformedShape e))
                             | Inr _ \<Rightarrow>
                                 (case put token s of
                                    (s', Inl e) \<Rightarrow> (s', Err e)
                                  | (s', Inr _) \<Rightarrow> (s', Ok token)))))))"

definition Mint ::
  "token_env \<Rightarrow> string \<Rightarrow> TokenAuthority \<Rightarrow> MintRequest \<Rightarrow> InMemoryTokenStore \<Rightarrow> InMemoryTokenStore \<times> (token_error, Token) res" where
  "Mint tv rnd a req s = Mint_with Put_token tv rnd a req s"

definition HashArgs :: "token_env \<Rightarrow> gctx \<Rightarrow> (string, string) res" where
  "HashArgs tv args = (case tv_jcs_args tv args of Inl e \<Rightarrow> Err e | Inr c \<Rightarrow> Ok (''sha256:'' @ hex_EncodeToString (tv_sha tv c)))"

record VerifyRequest =
  vr_Presented :: "Token option"
  vr_TaskID :: string
  vr_CapabilityID :: string
  vr_ManifestHash :: string
  vr_Args :: gctx

record TokenVerifier =
  tv_authorityPubHex :: string
  tv_registry :: "Registry option"
  tv_clock :: "gotime option"

definition check_constraints :: "token_env \<Rightarrow> Entry \<Rightarrow> Token \<Rightarrow> Token \<Rightarrow> VerifyRequest \<Rightarrow> (token_error, unit) res" where
  "check_constraints tv entry t stored req =
     (let digest = tc_ArgsDigest (gr_Constraints (tk_Grant stored)); ceiling = tc_DataBoundaryCeiling (gr_Constraints (tk_Grant stored)) in
      case (if digest = [] then Ok ()
            else case HashArgs tv (vr_Args req) of
                   Inl e \<Rightarrow> Err (Malformed e)
                 | Inr h \<Rightarrow> if h \<noteq> digest then Err (ArgsDigestMismatch (tk_TokenID t)) else Ok ()) of
        Inl e \<Rightarrow> Err e
      | Inr _ \<Rightarrow>
          if ceiling \<noteq> [] \<and> boundaryRank (m_DataBoundary (en_Manifest entry)) > boundaryRank ceiling
          then Err (BoundaryCeiling (m_DataBoundary (en_Manifest entry)) ceiling) else Ok ())"

text \<open>The checks against the stored grant, up to the consumption of a use.\<close>

definition check_stored :: "token_env \<Rightarrow> Registry option \<Rightarrow> gotime \<Rightarrow> VerifyRequest \<Rightarrow> byte list \<Rightarrow> Token \<Rightarrow> Token \<Rightarrow> (token_error, unit) res" where
  "check_stored tv reg now req canonical t stored =
     (if tv_jcs tv (signedPayload stored) \<noteq> Ok canonical then Err (Malformed ''presented token does not match stored grant'')
      else if Terminal (tk_Status stored) then Err (TerminalStatus (tk_Status stored) (tk_TokenID t))
      else if tk_Status stored \<noteq> TokenStatusActive then Err (NotActive (tk_Status stored))
      else if \<not> now < gr_ExpiresAt (tk_Grant stored) then Err (Expired (tk_TokenID t))
      else if vr_TaskID req = [] \<or> tk_TaskID stored \<noteq> vr_TaskID req then Err (TaskMismatch (tk_TokenID t))
      else if vr_CapabilityID req \<noteq> [] \<and> cr_CapabilityID (tk_CapabilityRef stored) \<noteq> vr_CapabilityID req then Err (CapabilityMismatch (tk_TokenID t))
      else if vr_ManifestHash req \<noteq> [] \<and> cr_ManifestHash (tk_CapabilityRef stored) \<noteq> vr_ManifestHash req then Err (CapabilityMismatch (tk_TokenID t))
      else case Resolve reg (cr_CapabilityID (tk_CapabilityRef stored)) of
             None \<Rightarrow> Err (UnknownCapability (cr_CapabilityID (tk_CapabilityRef stored)))
           | Some entry \<Rightarrow>
               if en_Hash entry \<noteq> cr_ManifestHash (tk_CapabilityRef stored) then Err (ManifestDrift (cr_CapabilityID (tk_CapabilityRef stored)))
               else check_constraints tv entry t stored req)"

text \<open>\<open>get\<close> and \<open>consume\<close> are the store's operations.\<close>

definition Verify_with ::
  "(string \<Rightarrow> 's \<Rightarrow> (token_error, Token \<times> int) res) \<Rightarrow> (string \<Rightarrow> 's \<Rightarrow> 's \<times> (token_error, int) res) \<Rightarrow>
   token_env \<Rightarrow> TokenVerifier \<Rightarrow> VerifyRequest \<Rightarrow> 's \<Rightarrow> 's \<times> (token_error, Token) res" where
  "Verify_with get consume tv v req s =
     (if tv_registry v = None \<or> tv_authorityPubHex v = [] then (s, Err (Malformed ''token verifier is incomplete''))
      else case (tv_clock v, vr_Presented req) of
        (None, _) \<Rightarrow> (s, Err ClockUnavailable)
      | (Some now, None) \<Rightarrow> (s, Err (Malformed ''no token presented''))
      | (Some now, Some t) \<Rightarrow>
          (case ValidateShape t of
             Inl e \<Rightarrow> (s, Err (MalformedShape e))
           | Inr _ \<Rightarrow>
               (case tv_jcs tv (signedPayload t) of
                  Inl e \<Rightarrow> (s, Err (Malformed e))
                | Inr canonical \<Rightarrow>
                    if tv_verify tv (tv_authorityPubHex v) (tk_Signature t) canonical \<noteq> Ok True then (s, Err (BadSignature (tk_TokenID t)))
                    else case get (tk_TokenID t) s of
                           Inl e \<Rightarrow> (s, Err e)
                         | Inr (stored, _) \<Rightarrow>
                             (case check_stored tv (tv_registry v) now req canonical t stored of
                                Inl e \<Rightarrow> (s, Err e)
                              | Inr _ \<Rightarrow>
                                  (case consume (tk_TokenID t) s of
                                     (s', Inl e) \<Rightarrow> (s', Err e)
                                   | (s', Inr _) \<Rightarrow> (s', Ok stored))))))"

definition Verify :: "token_env \<Rightarrow> TokenVerifier \<Rightarrow> VerifyRequest \<Rightarrow> InMemoryTokenStore \<Rightarrow> InMemoryTokenStore \<times> (token_error, Token) res" where
  "Verify tv v req s = Verify_with Get_token ConsumeUse tv v req s"

text \<open>Decoding a context value: a JSON text, or a map encoded again; \<open>decode\<close> and \<open>encode\<close> are the JSON library.\<close>

definition DecodeToken ::
  "(string \<Rightarrow> (string, Token) res) \<Rightarrow> ((string \<times> gval) list \<Rightarrow> (string, string) res) \<Rightarrow> gval \<Rightarrow> (string, Token) res" where
  "DecodeToken decode encode v =
     (case v of
        GStr s \<Rightarrow> decode s
      | GMap m \<Rightarrow> (case encode m of Inl e \<Rightarrow> Err (''re-encode token map: '' @ e) | Inr s \<Rightarrow> decode s)
      | _ \<Rightarrow> Err ''unsupported token context type'')"

section \<open>The contract of a store\<close>

text \<open>
  Events at a store shared by authorities and verifiers, in any order. A step yields the identifier of the
  token it verified, if it did.
\<close>

datatype tok_event = EvMint string TokenAuthority MintRequest | EvVerify TokenVerifier VerifyRequest | EvRevoke string string

fun tok_step ::
  "(Token \<Rightarrow> 's \<Rightarrow> 's \<times> (token_error, unit) res) \<Rightarrow> (string \<Rightarrow> 's \<Rightarrow> (token_error, Token \<times> int) res) \<Rightarrow>
   (string \<Rightarrow> 's \<Rightarrow> 's \<times> (token_error, int) res) \<Rightarrow> (string \<Rightarrow> string \<Rightarrow> 's \<Rightarrow> 's \<times> (token_error, unit) res) \<Rightarrow>
   token_env \<Rightarrow> tok_event \<Rightarrow> 's \<Rightarrow> 's \<times> string option" where
  "tok_step put get consume revoke tv (EvMint rnd a req) s = (fst (Mint_with put tv rnd a req s), None)"
| "tok_step put get consume revoke tv (EvVerify v req) s =
     (case Verify_with get consume tv v req s of (s', r) \<Rightarrow> (s', if is_ok r then map_option tk_TokenID (vr_Presented req) else None))"
| "tok_step put get consume revoke tv (EvRevoke i ref) s = (fst (revoke i ref s), None)"

fun tok_run where
  "tok_run put get consume revoke tv [] s = (s, [])"
| "tok_run put get consume revoke tv (e # es) s =
     (case tok_step put get consume revoke tv e s of (s', r) \<Rightarrow>
        (case tok_run put get consume revoke tv es s' of (s'', rs) \<Rightarrow> (s'', (case r of None \<Rightarrow> rs | Some i \<Rightarrow> i # rs))))"

lemma mint_puts: "\<exists>t. fst (Mint_with put tv rnd a req s) = s \<or> fst (Mint_with put tv rnd a req s) = fst (put t s)"
  by (auto simp: Mint_with_def Let_def split: option.splits sum.splits prod.splits if_splits) (metis fst_conv)+

lemma verify_accepts:
  assumes "Verify_with get consume tv v req s = (s', Ok stored)"
  shows "\<exists>t now canonical u n. vr_Presented req = Some t \<and> tv_clock v = Some now \<and> ValidateShape t = Ok () \<and>
    tv_jcs tv (signedPayload t) = Ok canonical \<and> tv_verify tv (tv_authorityPubHex v) (tk_Signature t) canonical = Ok True \<and>
    get (tk_TokenID t) s = Ok (stored, u) \<and> check_stored tv (tv_registry v) now req canonical t stored = Ok () \<and>
    consume (tk_TokenID t) s = (s', Ok n)"
  using assms by (auto simp: Verify_with_def split: if_splits option.splits sum.splits prod.splits)

lemma verify_refuses:
  assumes "Verify_with get consume tv v req s = (s', Err e)"
  shows "s' = s \<or> (\<exists>i e'. consume i s = (s', Err e'))"
  using assms by (auto simp: Verify_with_def split: if_splits option.splits sum.splits prod.splits)

locale token_store =
  fixes put :: "Token \<Rightarrow> 's \<Rightarrow> 's \<times> (token_error, unit) res"
    and get :: "string \<Rightarrow> 's \<Rightarrow> (token_error, Token \<times> int) res"
    and consume :: "string \<Rightarrow> 's \<Rightarrow> 's \<times> (token_error, int) res"
    and revoke :: "string \<Rightarrow> string \<Rightarrow> 's \<Rightarrow> 's \<times> (token_error, unit) res"
    and inv :: "'s \<Rightarrow> bool"
  assumes inv_put: "inv s \<Longrightarrow> inv (fst (put t s))"
    and inv_consume: "inv s \<Longrightarrow> inv (fst (consume i s))"
    and inv_revoke: "inv s \<Longrightarrow> inv (fst (revoke i ref s))"
    and put_get: "inv s \<Longrightarrow> get i (fst (put t s)) = get i s \<or> \<not> is_ok (get i s) \<and> get i (fst (put t s)) = Ok (t, 0)"
    and consume_err: "consume i s = (s', Err e) \<Longrightarrow> s' = s"
    and consume_ok: "consume i s = (s', Ok n) \<Longrightarrow>
      \<exists>t u t'. get i s = Ok (t, u) \<and> \<not> Terminal (tk_Status t) \<and> n = wrap64 (u + 1) \<and> get i s' = Ok (t', n) \<and> tk_Grant t' = tk_Grant t \<and>
        (gr_MaxUses (tk_Grant t) > 0 \<and> n \<ge> gr_MaxUses (tk_Grant t) \<longrightarrow> Terminal (tk_Status t'))"
    and consume_other: "j \<noteq> i \<Longrightarrow> get j (fst (consume i s)) = get j s"
    and revoke_get: "get i s = Ok (t, u) \<Longrightarrow> \<exists>t'. get i (fst (revoke i ref s)) = Ok (t', u) \<and> Terminal (tk_Status t') \<and> tk_Grant t' = tk_Grant t"
    and revoke_unknown: "\<not> is_ok (get i s) \<Longrightarrow> revoke i ref s = (s, snd (revoke i ref s)) \<and> \<not> is_ok (snd (revoke i ref s))"
    and revoke_other: "j \<noteq> i \<Longrightarrow> get j (fst (revoke i ref s)) = get j s"
begin

text \<open>How a step may change what the store holds of one token.\<close>

lemma step_get:
  assumes "inv s" "tok_step put get consume revoke tv e s = (s', r)"
  shows "inv s' \<and>
    (r \<noteq> Some i \<and> (get i s' = get i s \<or> \<not> is_ok (get i s) \<and> (\<exists>t. get i s' = Ok (t, 0)) \<or>
       (\<exists>t u t'. get i s = Ok (t, u) \<and> get i s' = Ok (t', u) \<and> Terminal (tk_Status t') \<and> tk_Grant t' = tk_Grant t)) \<or>
     r = Some i \<and> (\<exists>n. consume i s = (s', Ok n)))"
proof (cases e)
  case (EvMint rnd a req)
  then show ?thesis using assms mint_puts [of put tv rnd a req s] inv_put put_get by (auto; metis)
next
  case (EvRevoke j ref)
  have s': "s' = fst (revoke j ref s)" and r: "r = None" using assms(2) EvRevoke by auto
  have "get i s' = get i s \<or> (\<exists>t u t'. get i s = Ok (t, u) \<and> get i s' = Ok (t', u) \<and> Terminal (tk_Status t') \<and> tk_Grant t' = tk_Grant t)"
  proof (cases "i = j")
    case False
    then show ?thesis using revoke_other s' by simp
  next
    case True
    show ?thesis
    proof (cases "get i s")
      case (Inl e')
      then show ?thesis using revoke_unknown [of i s ref] s' True by (metis fst_conv is_ok_simps(2))
    next
      case (Inr p)
      obtain t u where "get i s = Ok (t, u)" using Inr by (cases p) auto
      then show ?thesis using revoke_get [of i s t u ref] s' True by blast
    qed
  qed
  then show ?thesis using s' r inv_revoke [OF assms(1)] by auto
next
  case (EvVerify v req)
  obtain res where ver: "Verify_with get consume tv v req s = (s', res)" and r: "r = (if is_ok res then map_option tk_TokenID (vr_Presented req) else None)"
    using assms(2) EvVerify by (auto split: prod.splits)
  show ?thesis
  proof (cases res)
    case (Inl er)
    have "s' = s" using verify_refuses [of get consume tv v req s s' er] ver Inl consume_err by auto
    then show ?thesis using assms(1) r Inl by simp
  next
    case (Inr stored)
    obtain t n where t: "vr_Presented req = Some t" "consume (tk_TokenID t) s = (s', Ok n)" using verify_accepts ver Inr by metis
    then have "r = Some (tk_TokenID t)" using r Inr by simp
    then show ?thesis
      using t inv_consume [OF assms(1), of "tk_TokenID t"] consume_other [of i "tk_TokenID t" s] by (cases "i = tk_TokenID t") auto
  qed
qed

lemma grant_stays:
  assumes "inv s" "tok_step put get consume revoke tv e s = (s', r)" "get i s = Ok (t, u)"
  shows "\<exists>t' u'. get i s' = Ok (t', u') \<and> tk_Grant t' = tk_Grant t \<and> (Terminal (tk_Status t) \<longrightarrow> Terminal (tk_Status t') \<and> r \<noteq> Some i \<and> u' = u)"
  using step_get [OF assms(1,2), of i] consume_ok [of i s s'] assms(3) by fastforce

lemma run_grant:
  assumes "inv s" "tok_run put get consume revoke tv es s = (s', rs)" "get i s = Ok (t, u)"
  shows "inv s' \<and> (\<exists>t' u'. get i s' = Ok (t', u') \<and> tk_Grant t' = tk_Grant t) \<and> (Terminal (tk_Status t) \<longrightarrow> i \<notin> set rs)"
  using assms
proof (induction es arbitrary: s t u rs)
  case (Cons e es)
  obtain s1 r rs1 where st: "tok_step put get consume revoke tv e s = (s1, r)" "tok_run put get consume revoke tv es s1 = (s', rs1)"
    "rs = (case r of None \<Rightarrow> rs1 | Some j \<Rightarrow> j # rs1)"
    using Cons.prems(2) by (auto split: prod.splits)
  obtain t1 u1 where t1: "get i s1 = Ok (t1, u1)" "tk_Grant t1 = tk_Grant t"
    "Terminal (tk_Status t) \<longrightarrow> Terminal (tk_Status t1) \<and> r \<noteq> Some i"
    using grant_stays [OF Cons.prems(1) st(1) Cons.prems(3)] by blast
  have "inv s1" using step_get [OF Cons.prems(1) st(1)] by blast
  from Cons.IH [OF this st(2) t1(1)] show ?case using t1 st(3) by (auto split: option.splits)
qed auto

lemma run_inv: "inv s \<Longrightarrow> tok_run put get consume revoke tv es s = (s', rs) \<Longrightarrow> inv s'"
proof (induction es arbitrary: s rs)
  case (Cons e es)
  obtain s1 r rs1 where "tok_step put get consume revoke tv e s = (s1, r)" "tok_run put get consume revoke tv es s1 = (s', rs1)"
    using Cons.prems(2) by (auto split: prod.splits)
  then show ?case using Cons.IH step_get [OF Cons.prems(1)] by blast
qed simp

text \<open>A revoked token is dead.\<close>

lemma revoked_dead:
  assumes "inv s" "is_ok (snd (revoke i ref s))" "tok_run put get consume revoke tv es (fst (revoke i ref s)) = (s', rs)"
  shows "i \<notin> set rs"
proof -
  have "is_ok (get i s)" using assms(2) revoke_unknown by blast
  then obtain t u where "get i s = Ok (t, u)" by (auto simp: is_ok_iff)
  then obtain t' where "get i (fst (revoke i ref s)) = Ok (t', u)" "Terminal (tk_Status t')" using revoke_get by blast
  with run_grant [OF inv_revoke [OF assms(1)] assms(3)] show ?thesis by blast
qed

text \<open>Counting: for a token with a use limit, the recorded uses are the verifications that succeeded.\<close>

definition uses_left :: "'s \<Rightarrow> string \<Rightarrow> bool" where
  "uses_left s i \<longleftrightarrow> (\<forall>t u. get i s = Ok (t, u) \<longrightarrow> 0 < gr_MaxUses (tk_Grant t) \<longrightarrow>
     0 \<le> u \<and> u \<le> gr_MaxUses (tk_Grant t) \<and> (\<not> Terminal (tk_Status t) \<longrightarrow> u < gr_MaxUses (tk_Grant t)))"

definition used :: "'s \<Rightarrow> string \<Rightarrow> int" where
  "used s i = (case get i s of Inl _ \<Rightarrow> 0 | Inr (t, u) \<Rightarrow> u)"

lemma step_counts:
  assumes "inv s" "uses_left s i" "tok_step put get consume revoke tv e s = (s', r)" "get i s' = Ok (t', u')"
    "0 < gr_MaxUses (tk_Grant t')" "gr_MaxUses (tk_Grant t') \<le> max_int64"
  shows "uses_left s' i \<and> u' = used s i + (if r = Some i then 1 else 0)"
proof (cases "r = Some i")
  case False
  then have "get i s' = get i s \<or> \<not> is_ok (get i s) \<and> (\<exists>t. get i s' = Ok (t, 0)) \<or>
       (\<exists>t u t'. get i s = Ok (t, u) \<and> get i s' = Ok (t', u) \<and> Terminal (tk_Status t') \<and> tk_Grant t' = tk_Grant t)"
    using step_get [OF assms(1,3), of i] by blast
  then show ?thesis using False assms(2,4,5) by (auto simp: uses_left_def used_def is_ok_def split: sum.splits prod.splits)
next
  case True
  then obtain n where "consume i s = (s', Ok n)" using step_get [OF assms(1,3), of i] by blast
  from consume_ok [OF this] obtain t u where c: "get i s = Ok (t, u)" "\<not> Terminal (tk_Status t)" "u' = wrap64 (u + 1)" "tk_Grant t' = tk_Grant t"
    "gr_MaxUses (tk_Grant t) > 0 \<and> u' \<ge> gr_MaxUses (tk_Grant t) \<longrightarrow> Terminal (tk_Status t')"
    using assms(4) by auto
  have "0 \<le> u" "u < gr_MaxUses (tk_Grant t)" using assms(2,5) c by (auto simp: uses_left_def)
  then have "u' = u + 1" using c(3,4) assms(6) by (simp add: int64_def min_int64_def)
  then show ?thesis using True c assms(2,4,5) \<open>u < gr_MaxUses (tk_Grant t)\<close> \<open>0 \<le> u\<close> by (auto simp: uses_left_def used_def)
qed

lemma run_counts:
  assumes "inv s" "uses_left s i" "tok_run put get consume revoke tv es s = (s', rs)" "get i s' = Ok (t', u')"
    "0 < gr_MaxUses (tk_Grant t')" "gr_MaxUses (tk_Grant t') \<le> max_int64"
  shows "u' = used s i + int (count_list rs i) \<and> u' \<le> gr_MaxUses (tk_Grant t')"
  using assms
proof (induction es arbitrary: s rs)
  case Nil
  then show ?case by (auto simp: uses_left_def used_def)
next
  case (Cons e es)
  obtain s1 r rs1 where st: "tok_step put get consume revoke tv e s = (s1, r)" "tok_run put get consume revoke tv es s1 = (s', rs1)"
    "rs = (case r of None \<Rightarrow> rs1 | Some j \<Rightarrow> j # rs1)"
    using Cons.prems(3) by (auto split: prod.splits)
  have i1: "inv s1" using step_get [OF Cons.prems(1) st(1)] by blast
  have cnt: "count_list rs i = count_list rs1 i + (if r = Some i then 1 else 0)" using st(3) by (auto split: option.splits)
  show ?case
  proof (cases "get i s1")
    case (Inl er)
    have "r \<noteq> Some i" "\<not> is_ok (get i s)"
      using step_get [OF Cons.prems(1) st(1), of i] grant_stays [OF Cons.prems(1) st(1)] consume_ok [of i s s1] Inl by (auto simp: is_ok_iff)
    moreover have "uses_left s1 i" using Inl by (simp add: uses_left_def)
    ultimately show ?thesis
      using Cons.IH [OF i1 _ st(2) Cons.prems(4-6)] cnt Inl by (auto simp: used_def is_ok_def split: sum.splits)
  next
    case (Inr p)
    obtain t1 u1 where p: "get i s1 = Ok (t1, u1)" using Inr by (cases p) auto
    have g: "tk_Grant t' = tk_Grant t1" using run_grant [OF i1 st(2) p] Cons.prems(4) by auto
    note sc = step_counts [OF Cons.prems(1,2) st(1) p, folded g, OF Cons.prems(5,6)]
    then show ?thesis using Cons.IH [OF i1 _ st(2) Cons.prems(4-6)] cnt p by (simp add: used_def)
  qed
qed

end

text \<open>The in-memory store: a token without an entry has no recorded uses.\<close>

definition store_inv :: "InMemoryTokenStore \<Rightarrow> bool" where
  "store_inv s \<longleftrightarrow> (\<forall>i. map_of (ts_tokens s) i = None \<longrightarrow> map_of (ts_uses s) i = None)"

interpretation mem_tokens: token_store Put_token Get_token ConsumeUse Revoke_token store_inv
proof
  show "store_inv s \<Longrightarrow> store_inv (fst (Put_token t s))" for s t
    by (auto simp: store_inv_def Put_token_def split: sum.splits option.splits)
  show "store_inv s \<Longrightarrow> store_inv (fst (ConsumeUse i s))" for s i
    by (auto simp: store_inv_def ConsumeUse_def Let_def split: option.splits)
  show "store_inv s \<Longrightarrow> store_inv (fst (Revoke_token i ref s))" for s i ref
    by (auto simp: store_inv_def Revoke_token_def split: option.splits)
  show "store_inv s \<Longrightarrow> Get_token i (fst (Put_token t s)) = Get_token i s \<or> \<not> is_ok (Get_token i s) \<and> Get_token i (fst (Put_token t s)) = Ok (t, 0)" for s i t
    by (auto simp: store_inv_def Put_token_def Get_token_def uses_of_def split: sum.splits option.splits)
  show "ConsumeUse i s = (s', Err e) \<Longrightarrow> s' = s" for i s s' e
    by (auto simp: ConsumeUse_def Let_def split: option.splits if_splits)
  show "ConsumeUse i s = (s', Ok n) \<Longrightarrow>
      \<exists>t u t'. Get_token i s = Ok (t, u) \<and> \<not> Terminal (tk_Status t) \<and> n = wrap64 (u + 1) \<and> Get_token i s' = Ok (t', n) \<and> tk_Grant t' = tk_Grant t \<and>
        (gr_MaxUses (tk_Grant t) > 0 \<and> n \<ge> gr_MaxUses (tk_Grant t) \<longrightarrow> Terminal (tk_Status t'))" for i s s' n
    by (auto simp: ConsumeUse_def Get_token_def uses_of_def Terminal_def Let_def split: option.splits if_splits)
  show "j \<noteq> i \<Longrightarrow> Get_token j (fst (ConsumeUse i s)) = Get_token j s" for i j s
    by (auto simp: ConsumeUse_def Get_token_def uses_of_def Let_def split: option.splits)
  show "Get_token i s = Ok (t, u) \<Longrightarrow> \<exists>t'. Get_token i (fst (Revoke_token i ref s)) = Ok (t', u) \<and> Terminal (tk_Status t') \<and> tk_Grant t' = tk_Grant t" for i s t u ref
    by (auto simp: Revoke_token_def Get_token_def uses_of_def Terminal_def split: option.splits)
  show "\<not> is_ok (Get_token i s) \<Longrightarrow> Revoke_token i ref s = (s, snd (Revoke_token i ref s)) \<and> \<not> is_ok (snd (Revoke_token i ref s))" for i s ref
    by (auto simp: Revoke_token_def Get_token_def split: option.splits)
  show "j \<noteq> i \<Longrightarrow> Get_token j (fst (Revoke_token i ref s)) = Get_token j s" for i j s ref
    by (auto simp: Revoke_token_def Get_token_def uses_of_def split: option.splits)
qed

section \<open>A small configuration for the examples\<close>

definition w_tenv :: token_env where
  "w_tenv = \<lparr>tv_jcs = (\<lambda>t. Ok [1, 2]), tv_jcs_args = (\<lambda>c. Ok []), tv_sha = (\<lambda>b. replicate 32 0),
     tv_verify = (\<lambda>p sig c. Ok (p = ''key'' \<and> sig = ''sig''))\<rparr>"

definition w_registry :: Registry where
  "w_registry = \<lparr>entries = [(''helm.cap.fs.write'', w_entry)]\<rparr>"

definition w_authority :: TokenAuthority where
  "w_authority = \<lparr>au_signer = Some (\<lambda>c. Ok ''sig''), au_registry = Some w_registry, au_clock = Some 1000\<rparr>"

definition w_mint_request :: MintRequest where
  "w_mint_request = \<lparr>mr_TaskID = ''task'', mr_Subject = \<lparr>su_AgentID = ''alice'', su_SessionID = [], su_DeviceID = []\<rparr>,
     mr_CapabilityID = ''helm.cap.fs.write'', mr_TTL = 0, mr_MaxUses = 1,
     mr_Constraints = \<lparr>tc_ArgsDigest = [], tc_DataBoundaryCeiling = ''device_boundary''\<rparr>\<rparr>"

definition w_token :: Token where
  "w_token = \<lparr>tk_SchemaVersion = ''capability-token/v1'', tk_TokenID = ''tok_01234567'', tk_TaskID = ''task'',
     tk_Subject = \<lparr>su_AgentID = ''alice'', su_SessionID = [], su_DeviceID = []\<rparr>,
     tk_CapabilityRef = \<lparr>cr_CapabilityID = ''helm.cap.fs.write'', cr_Version = ''1.0.0'', cr_ManifestHash = ''sha256:'' @ replicate 64 (CHR ''0'')\<rparr>,
     tk_Grant = \<lparr>gr_IssuedAt = 1000, gr_ExpiresAt = 1000 + DefaultTokenTTL, gr_MaxUses = 1,
       gr_Constraints = \<lparr>tc_ArgsDigest = [], tc_DataBoundaryCeiling = ''device_boundary''\<rparr>\<rparr>,
     tk_Status = TokenStatusActive, tk_RevocationReceiptRef = [], tk_Signature = ''sig''\<rparr>"

definition w_token_store :: InMemoryTokenStore where
  "w_token_store = \<lparr>ts_tokens = [(''tok_01234567'', w_token)], ts_uses = []\<rparr>"

definition w_verifier :: TokenVerifier where
  "w_verifier = \<lparr>tv_authorityPubHex = ''key'', tv_registry = Some w_registry, tv_clock = Some 2000\<rparr>"

definition w_verify_request :: VerifyRequest where
  "w_verify_request = \<lparr>vr_Presented = Some w_token, vr_TaskID = ''task'', vr_CapabilityID = ''helm.cap.fs.write'',
     vr_ManifestHash = ''sha256:'' @ replicate 64 (CHR ''0''), vr_Args = None\<rparr>"

lemma w_ttl: "DefaultTokenTTL = 900000000000"
  by (simp add: DefaultTokenTTL_def minute_def)

lemma w_token_shape: "validateShape b w_token = Ok ()" "validateShape False (w_token\<lparr>tk_Signature := []\<rparr>) = Ok ()"
proof -
  have "capabilityIDPattern ''helm.cap.fs.write''" "semverPattern ''1.0.0''" "tokenIDPattern ''tok_01234567''" by code_simp+
  moreover have "sha256_digest (''sha256:'' @ replicate 64 (CHR ''0''))"
    by (simp add: sha256_digest_def strip_prefix_def is_lower_hex_def is_digit_def list_all_iff)
  ultimately show "validateShape b w_token = Ok ()" "validateShape False (w_token\<lparr>tk_Signature := []\<rparr>) = Ok ()"
    by (simp_all add: validateShape_def w_token_def w_ttl validBoundaries_def)
qed

lemma w_resolve: "Resolve (Some w_registry) ''helm.cap.fs.write'' = Some w_entry"
  by (simp add: Resolve_def w_registry_def)

lemma w_minted: "Mint w_tenv ''01234567'' w_authority w_mint_request NewInMemoryTokenStore = (w_token_store, Ok w_token)"
proof -
  have "w_token\<lparr>tk_Signature := []\<rparr> = \<lparr>tk_SchemaVersion = ''capability-token/v1'', tk_TokenID = ''tok_'' @ ''01234567'', tk_TaskID = ''task'',
     tk_Subject = \<lparr>su_AgentID = ''alice'', su_SessionID = [], su_DeviceID = []\<rparr>,
     tk_CapabilityRef = \<lparr>cr_CapabilityID = m_CapabilityID (en_Manifest w_entry), cr_Version = m_Version (en_Manifest w_entry), cr_ManifestHash = en_Hash w_entry\<rparr>,
     tk_Grant = \<lparr>gr_IssuedAt = 1000, gr_ExpiresAt = 1000 + DefaultTokenTTL, gr_MaxUses = 1,
       gr_Constraints = \<lparr>tc_ArgsDigest = [], tc_DataBoundaryCeiling = ''device_boundary''\<rparr>\<rparr>,
     tk_Status = TokenStatusActive, tk_RevocationReceiptRef = [], tk_Signature = []\<rparr>" (is "_ = ?t0")
    by (simp add: w_token_def w_entry_def w_manifest_def)
  then have sh: "validateShape False ?t0 = Ok ()" and sg: "?t0\<lparr>tk_Signature := ''sig''\<rparr> = w_token"
    using w_token_shape(2) by (simp_all only:) (simp add: w_token_def)
  have sign: "sign_token w_tenv (Some (\<lambda>c. Ok ''sig'')) ?t0 = Ok w_token" using sg by (simp add: sign_token_def w_tenv_def)
  have "Put_token w_token NewInMemoryTokenStore = (w_token_store, Ok ())"
    by (simp add: Put_token_def ValidateShape_def w_token_shape NewInMemoryTokenStore_def w_token_store_def) (simp add: w_token_def)
  then show ?thesis
    using sh sign w_resolve
    by (simp add: Mint_def Mint_with_def w_authority_def w_mint_request_def ValidateShape_def w_token_shape Let_def)
qed

lemma w_verified_token:
  "\<exists>s'. Verify w_tenv w_verifier w_verify_request w_token_store = (s', Ok w_token) \<and> Get_token ''tok_01234567'' s' = Ok (w_token\<lparr>tk_Status := TokenStatusUsedUp\<rparr>, 1)"
proof -
  have c: "check_stored w_tenv (Some w_registry) 2000 w_verify_request [1, 2] w_token w_token = Ok ()"
    by (simp add: check_stored_def w_tenv_def w_token_def w_verify_request_def w_ttl Terminal_def token_statuses w_resolve check_constraints_def
        w_entry_def w_manifest_def boundaryRank_def)
  have w: "wrap64 1 = 1" by (simp add: int64_def min_int64_def max_int64_def)
  have g: "Get_token ''tok_01234567'' w_token_store = Ok (w_token, 0)" by (simp add: Get_token_def w_token_store_def uses_of_def)
  have u: "ConsumeUse ''tok_01234567'' w_token_store =
      (\<lparr>ts_tokens = [(''tok_01234567'', w_token\<lparr>tk_Status := TokenStatusUsedUp\<rparr>)], ts_uses = [(''tok_01234567'', 1)]\<rparr>, Ok 1)"
    by (simp add: ConsumeUse_def w_token_store_def uses_of_def w Let_def) (simp add: w_token_def Terminal_def token_statuses)
  have f: "tk_TokenID w_token = ''tok_01234567''" "tk_Signature w_token = ''sig''" by (simp_all add: w_token_def)
  have "Verify w_tenv w_verifier w_verify_request w_token_store =
      (\<lparr>ts_tokens = [(''tok_01234567'', w_token\<lparr>tk_Status := TokenStatusUsedUp\<rparr>)], ts_uses = [(''tok_01234567'', 1)]\<rparr>, Ok w_token)"
    using c by (simp add: Verify_def Verify_with_def w_verifier_def ValidateShape_def w_token_shape f g u) (simp add: w_verify_request_def w_tenv_def ValidateShape_def w_token_shape f g u)
  then show ?thesis by (simp add: Get_token_def uses_of_def)
qed

section \<open>Properties\<close>

text \<open>
  C22: A limited token is used at most as often as granted, and a revoked one never. In any history of
  mints, verifications and revocations on a new store, the recorded uses of a token with a use limit
  are exactly the verifications that succeeded for it, and they do not exceed the limit; after a
  successful revocation no verification of the token succeeds.
\<close>
theorem token_uses_bounded:
  assumes "tok_run Put_token Get_token ConsumeUse Revoke_token tv es NewInMemoryTokenStore = (s, rs)"
    "tok_run Put_token Get_token ConsumeUse Revoke_token tv later (fst (Revoke_token i ref s)) = (s', rs')"
    "Get_token i s = Ok (t, u)" "0 < gr_MaxUses (tk_Grant t)" "gr_MaxUses (tk_Grant t) \<le> max_int64"
  shows "u = int (count_list rs i) \<and> int (count_list rs i) \<le> gr_MaxUses (tk_Grant t) \<and> i \<notin> set rs'"
proof -
  have new: "store_inv NewInMemoryTokenStore" "mem_tokens.uses_left NewInMemoryTokenStore i" "mem_tokens.used NewInMemoryTokenStore i = 0"
    by (simp_all add: store_inv_def mem_tokens.uses_left_def mem_tokens.used_def Get_token_def NewInMemoryTokenStore_def)
  have "is_ok (snd (Revoke_token i ref s))" using assms(3) by (auto simp: Revoke_token_def Get_token_def split: option.splits)
  then have "i \<notin> set rs'" using mem_tokens.revoked_dead [OF mem_tokens.run_inv [OF new(1) assms(1)] _ assms(2)] by blast
  then show ?thesis using mem_tokens.run_counts [OF new(1,2) assms(1,3,4,5)] new(3) by simp
qed

theorem token_uses_bounded_witness:
  "\<exists>s rs s' rs' u. tok_run Put_token Get_token ConsumeUse Revoke_token w_tenv
       [EvMint ''01234567'' w_authority w_mint_request, EvVerify w_verifier w_verify_request] NewInMemoryTokenStore = (s, rs) \<and>
     tok_run Put_token Get_token ConsumeUse Revoke_token w_tenv [EvVerify w_verifier w_verify_request]
       (fst (Revoke_token ''tok_01234567'' ''receipt'' s)) = (s', rs') \<and>
     count_list rs ''tok_01234567'' = 1 \<and> ''tok_01234567'' \<notin> set rs'"
proof -
  obtain s where v: "Verify w_tenv w_verifier w_verify_request w_token_store = (s, Ok w_token)"
    "Get_token ''tok_01234567'' s = Ok (w_token\<lparr>tk_Status := TokenStatusUsedUp\<rparr>, 1)"
    using w_verified_token by blast
  have p: "vr_Presented w_verify_request = Some w_token" "tk_TokenID w_token = ''tok_01234567''" "gr_MaxUses (tk_Grant w_token) = 1"
    by (simp_all add: w_verify_request_def w_token_def)
  have run: "tok_run Put_token Get_token ConsumeUse Revoke_token w_tenv
       [EvMint ''01234567'' w_authority w_mint_request, EvVerify w_verifier w_verify_request] NewInMemoryTokenStore = (s, [''tok_01234567''])"
    using v(1) w_minted by (simp add: Mint_def Verify_def p)
  obtain s' rs' where run': "tok_run Put_token Get_token ConsumeUse Revoke_token w_tenv [EvVerify w_verifier w_verify_request]
       (fst (Revoke_token ''tok_01234567'' ''receipt'' s)) = (s', rs')"
    by fastforce
  have "''tok_01234567'' \<notin> set rs'"
    using token_uses_bounded [OF run run' v(2)] p(3) by (simp add: max_int64_def)
  then show ?thesis using run run' by auto
qed

text \<open>
  C21: What a successful verification establishes: the presented token is well formed and signed by the
  authority's key; its signed content is that of a stored, active, unexpired grant; it was granted for
  the task of the request and for the capability and manifest revision of the request; the registry still
  serves exactly that revision; the arguments have the granted digest and the data boundary is under the
  granted ceiling, where the grant has them; and one use was consumed.
\<close>
theorem token_verification_sound:
  assumes "Verify tv v req s = (s', Ok stored)"
  shows "\<exists>t now c entry. vr_Presented req = Some t \<and> ValidateShape t = Ok () \<and> tv_clock v = Some now \<and>
    tv_jcs tv (signedPayload t) = Ok c \<and> tv_verify tv (tv_authorityPubHex v) (tk_Signature t) c = Ok True \<and>
    map_of (ts_tokens s) (tk_TokenID t) = Some stored \<and> tv_jcs tv (signedPayload stored) = Ok c \<and>
    tk_Status stored = TokenStatusActive \<and> now < gr_ExpiresAt (tk_Grant stored) \<and>
    vr_TaskID req \<noteq> [] \<and> tk_TaskID stored = vr_TaskID req \<and>
    (vr_CapabilityID req = [] \<or> cr_CapabilityID (tk_CapabilityRef stored) = vr_CapabilityID req) \<and>
    (vr_ManifestHash req = [] \<or> cr_ManifestHash (tk_CapabilityRef stored) = vr_ManifestHash req) \<and>
    Resolve (tv_registry v) (cr_CapabilityID (tk_CapabilityRef stored)) = Some entry \<and> en_Hash entry = cr_ManifestHash (tk_CapabilityRef stored) \<and>
    (tc_ArgsDigest (gr_Constraints (tk_Grant stored)) = [] \<or> HashArgs tv (vr_Args req) = Ok (tc_ArgsDigest (gr_Constraints (tk_Grant stored)))) \<and>
    (tc_DataBoundaryCeiling (gr_Constraints (tk_Grant stored)) = [] \<or>
       boundaryRank (m_DataBoundary (en_Manifest entry)) \<le> boundaryRank (tc_DataBoundaryCeiling (gr_Constraints (tk_Grant stored)))) \<and>
    uses_of s' (tk_TokenID t) = wrap64 (uses_of s (tk_TokenID t) + 1)"
proof -
  obtain t now c u n where a: "vr_Presented req = Some t" "tv_clock v = Some now" "ValidateShape t = Ok ()" "tv_jcs tv (signedPayload t) = Ok c"
    "tv_verify tv (tv_authorityPubHex v) (tk_Signature t) c = Ok True" "Get_token (tk_TokenID t) s = Ok (stored, u)"
    "check_stored tv (tv_registry v) now req c t stored = Ok ()" "ConsumeUse (tk_TokenID t) s = (s', Ok n)"
    using verify_accepts [OF assms [unfolded Verify_def]] by blast
  obtain entry where e: "Resolve (tv_registry v) (cr_CapabilityID (tk_CapabilityRef stored)) = Some entry"
    using a(7) by (auto simp: check_stored_def split: option.splits if_splits)
  have u: "uses_of s' (tk_TokenID t) = wrap64 (uses_of s (tk_TokenID t) + 1)"
    using a(8) by (auto simp: ConsumeUse_def uses_of_def Let_def split: option.splits if_splits)
  have g: "map_of (ts_tokens s) (tk_TokenID t) = Some stored" using a(6) by (auto simp: Get_token_def split: option.splits)
  note ck = a(7) [unfolded check_stored_def guard_ok e option.case]
  have cc: "check_constraints tv entry t stored req = Ok ()" using ck by blast
  have con: "tc_ArgsDigest (gr_Constraints (tk_Grant stored)) = [] \<or> HashArgs tv (vr_Args req) = Ok (tc_ArgsDigest (gr_Constraints (tk_Grant stored)))"
    "tc_DataBoundaryCeiling (gr_Constraints (tk_Grant stored)) = [] \<or>
       boundaryRank (m_DataBoundary (en_Manifest entry)) \<le> boundaryRank (tc_DataBoundaryCeiling (gr_Constraints (tk_Grant stored)))"
    using cc by (auto simp: check_constraints_def Let_def split: sum.splits if_splits)
  show ?thesis using a(1-5) e u g ck con by (intro exI [of _ t] exI [of _ now] exI [of _ c] exI [of _ entry]) blast
qed

theorem token_verification_sound_witness:
  "\<exists>s'. Verify w_tenv w_verifier w_verify_request w_token_store = (s', Ok w_token) \<and> tk_TaskID w_token = vr_TaskID w_verify_request \<and>
     uses_of s' ''tok_01234567'' = wrap64 (uses_of w_token_store ''tok_01234567'' + 1)"
proof -
  obtain s' where v: "Verify w_tenv w_verifier w_verify_request w_token_store = (s', Ok w_token)" using w_verified_token by blast
  have p: "vr_Presented w_verify_request = Some w_token" "tk_TokenID w_token = ''tok_01234567''" by (simp_all add: w_verify_request_def w_token_def)
  show ?thesis using v token_verification_sound [OF v] p by auto
qed

text \<open>
  Minted tokens verify. A token minted over a loaded registry, by an authority whose signatures verify
  under its key, is accepted by a verifier with that key and registry for its task, capability and
  revision before it expires, provided the grant's constraints hold of the request.
\<close>
theorem minted_token_verifies:
  assumes "LoadDir rfc jcs sha d = Ok reg" "au_registry a = Some reg" "au_signer a = Some sg"
    "\<forall>c sig. sg c = Ok sig \<longrightarrow> tv_verify tv pub sig c = Ok True" "pub \<noteq> []"
    "Mint tv rnd a mreq s = (s1, Ok t)" "now < gr_ExpiresAt (tk_Grant t)"
    "tc_ArgsDigest (mr_Constraints mreq) = [] \<or> HashArgs tv args = Ok (tc_ArgsDigest (mr_Constraints mreq))"
    "tc_DataBoundaryCeiling (mr_Constraints mreq) = [] \<or>
       (\<forall>entry. Resolve (Some reg) (mr_CapabilityID mreq) = Some entry \<longrightarrow>
          boundaryRank (m_DataBoundary (en_Manifest entry)) \<le> boundaryRank (tc_DataBoundaryCeiling (mr_Constraints mreq)))"
  shows "\<exists>s2. Verify tv \<lparr>tv_authorityPubHex = pub, tv_registry = Some reg, tv_clock = Some now\<rparr>
     \<lparr>vr_Presented = Some t, vr_TaskID = mr_TaskID mreq, vr_CapabilityID = mr_CapabilityID mreq,
      vr_ManifestHash = cr_ManifestHash (tk_CapabilityRef t), vr_Args = args\<rparr> s1 = (s2, Ok t) \<and>
     uses_of s2 (tk_TokenID t) = wrap64 (uses_of s1 (tk_TokenID t) + 1)"
proof -
  obtain clk entry t0 where m: "Resolve (Some reg) (mr_CapabilityID mreq) = Some entry"
    and t0: "t0 = \<lparr>tk_SchemaVersion = ''capability-token/v1'', tk_TokenID = ''tok_'' @ rnd, tk_TaskID = mr_TaskID mreq,
        tk_Subject = mr_Subject mreq,
        tk_CapabilityRef = \<lparr>cr_CapabilityID = m_CapabilityID (en_Manifest entry), cr_Version = m_Version (en_Manifest entry), cr_ManifestHash = en_Hash entry\<rparr>,
        tk_Grant = \<lparr>gr_IssuedAt = clk, gr_ExpiresAt = clk + (if mr_TTL mreq \<le> 0 then DefaultTokenTTL else mr_TTL mreq),
          gr_MaxUses = mr_MaxUses mreq, gr_Constraints = mr_Constraints mreq\<rparr>,
        tk_Status = TokenStatusActive, tk_RevocationReceiptRef = [], tk_Signature = []\<rparr>"
    and sg: "sign_token tv (Some sg) t0 = Ok t" and sh: "ValidateShape t = Ok ()" and put: "Put_token t s = (s1, Ok ())"
    using assms(2,3,6) by (auto simp: Mint_def Mint_with_def Let_def split: option.splits sum.splits prod.splits)
  obtain c sig where c: "tv_jcs tv (signedPayload t0) = Ok c" "sg c = Ok sig" "t = t0\<lparr>tk_Signature := sig\<rparr>"
    using sg by (auto simp: sign_token_def split: sum.splits)
  have pay: "tv_jcs tv (signedPayload t) = Ok c" using c by (simp add: signedPayload_def)
  have ver: "tv_verify tv pub (tk_Signature t) c = Ok True" using assms(4) c by simp
  have key: "m_CapabilityID (en_Manifest entry) = mr_CapabilityID mreq" using loaded_keyed [OF assms(1) m] .
  have stored: "map_of (ts_tokens s1) (tk_TokenID t) = Some t" using put by (auto simp: Put_token_def split: sum.splits option.splits)
  have f: "tk_TaskID t = mr_TaskID mreq" "cr_CapabilityID (tk_CapabilityRef t) = mr_CapabilityID mreq" "cr_ManifestHash (tk_CapabilityRef t) = en_Hash entry"
    "gr_Constraints (tk_Grant t) = mr_Constraints mreq" "tk_Status t = TokenStatusActive"
    by (simp_all add: c(3) t0 key)
  have task: "mr_TaskID mreq \<noteq> []" using sh unfolding ValidateShape_def validateShape_def guard_ok f(1) by blast
  have act: "\<not> Terminal TokenStatusActive" by (simp add: Terminal_def token_statuses)
  have con: "check_constraints tv entry t t \<lparr>vr_Presented = Some t, vr_TaskID = mr_TaskID mreq, vr_CapabilityID = mr_CapabilityID mreq,
      vr_ManifestHash = en_Hash entry, vr_Args = args\<rparr> = Ok ()"
    using assms(8,9) m by (auto simp: check_constraints_def f Let_def)
  have ck: "check_stored tv (Some reg) now \<lparr>vr_Presented = Some t, vr_TaskID = mr_TaskID mreq, vr_CapabilityID = mr_CapabilityID mreq,
      vr_ManifestHash = en_Hash entry, vr_Args = args\<rparr> c t t = Ok ()"
    using assms(7) task act con by (simp add: check_stored_def pay f m)
  have get: "Get_token (tk_TokenID t) s1 = Ok (t, uses_of s1 (tk_TokenID t))" by (simp add: Get_token_def stored)
  obtain s2 where s2: "ConsumeUse (tk_TokenID t) s1 = (s2, Ok (wrap64 (uses_of s1 (tk_TokenID t) + 1)))"
    by (simp add: ConsumeUse_def stored f act Let_def)
  then have "uses_of s2 (tk_TokenID t) = wrap64 (uses_of s1 (tk_TokenID t) + 1)"
    by (auto simp: ConsumeUse_def stored f act uses_of_def Let_def split: if_splits)
  then show ?thesis using assms(5) by (simp add: Verify_def Verify_with_def sh pay ver get ck s2 f)
qed

theorem minted_token_verifies_witness:
  "\<exists>s2. Verify w_tenv \<lparr>tv_authorityPubHex = ''key'', tv_registry = Some w_registry, tv_clock = Some 2000\<rparr>
     \<lparr>vr_Presented = Some w_token, vr_TaskID = mr_TaskID w_mint_request, vr_CapabilityID = mr_CapabilityID w_mint_request,
      vr_ManifestHash = cr_ManifestHash (tk_CapabilityRef w_token), vr_Args = None\<rparr> w_token_store = (s2, Ok w_token) \<and>
     uses_of s2 (tk_TokenID w_token) = wrap64 (uses_of w_token_store (tk_TokenID w_token) + 1)"
proof (rule minted_token_verifies [OF w_loaded [folded w_registry_def] _ _ _ _ w_minted])
  show "au_registry w_authority = Some w_registry" "au_signer w_authority = Some (\<lambda>c. Ok ''sig'')" by (simp_all add: w_authority_def)
  show "\<forall>c sig. Ok ''sig'' = Ok sig \<longrightarrow> tv_verify w_tenv ''key'' sig c = Ok True" by (simp add: w_tenv_def)
  show "2000 < gr_ExpiresAt (tk_Grant w_token)" by (simp add: w_token_def w_ttl)
  show "tc_DataBoundaryCeiling (mr_Constraints w_mint_request) = [] \<or>
       (\<forall>entry. Resolve (Some w_registry) (mr_CapabilityID w_mint_request) = Some entry \<longrightarrow>
          boundaryRank (m_DataBoundary (en_Manifest entry)) \<le> boundaryRank (tc_DataBoundaryCeiling (mr_Constraints w_mint_request)))"
    by (simp add: w_mint_request_def w_resolve w_entry_def w_manifest_def boundaryRank_def)
qed (simp_all add: w_mint_request_def)

end
