(* ===== verification/Safe_Dep.thy ===== *)
theory Safe_Dep
  imports Contracts Observation
begin

text \<open>
  The continuity-gated emergency plane, \<^verbatim>\<open>core/pkg/safedep\<close> (\<^verbatim>\<open>safedep.go\<close>, \<^verbatim>\<open>controller.go\<close>) over the
  types of \<^verbatim>\<open>core/pkg/contracts/safe_deprecation.go\<close>: hazards and their classification, the validators of
  an emergency activation, the in-memory continuity store and the controller.

  Parameters (\<open>sd_env\<close>): the clock by the place it is read at, the wall clock, Unicode case tables, Go's quoting,
  canonical JSON, SHA-256, signature checks and signing, and what the evidence sink answers to an event.
  What the controller relies on of a continuity store is the locale \<open>continuity_store\<close>. A nil controller is
  a controller that is not configured; callers test for it.
\<close>

section \<open>Contract types (contracts/safe_deprecation.go)\<close>

definition SafeDepTerminalFreeze :: string where "SafeDepTerminalFreeze = ''terminal_freeze''"
definition SafeDepDegradedNarrowing :: string where "SafeDepDegradedNarrowing = ''degraded_narrowing''"
definition SafeDepDeprecatedReadonly :: string where "SafeDepDeprecatedReadonly = ''deprecated_readonly''"

lemmas safedep_states = SafeDepTerminalFreeze_def SafeDepDegradedNarrowing_def SafeDepDeprecatedReadonly_def

record HazardClassification =
  hc_HazardCode :: string
  hc_State :: string
  hc_ReasonCode :: string
  hc_LaneID :: string
  hc_ConnectorID :: string
  hc_ActiveClock :: bool
  hc_HighRiskLane :: bool
  hc_ActivationAllowed :: bool

record ContinuityCheckpoint =
  cp_CheckpointID :: string
  cp_OrgGenomeHash :: string
  cp_PolicyHash :: string
  cp_PolicyEpoch :: "64 word"
  cp_HazardSequence :: "64 word"
  cp_LamportClock :: "64 word"
  cp_DeadManWindowID :: string
  cp_DeadManActive :: bool
  cp_LatestAcceptedCheckpointHash :: string
  cp_PreviousCheckpointHash :: string
  cp_Nonce :: string
  cp_AttestedTime :: gotime
  cp_ExpiresAt :: gotime
  cp_Signature :: string

record AttestationResultEnvelope =
  ar_EnvelopeID :: string
  ar_ProfileID :: string
  ar_Subject :: string
  ar_Platform :: string
  ar_MeasurementHash :: string
  ar_Nonce :: string
  ar_TrustTier :: string
  ar_PolicyHash :: string
  ar_Synthetic :: bool
  ar_IssuedAt :: gotime
  ar_ExpiresAt :: gotime
  ar_Signature :: string

record ThresholdSignature =
  th_SignerID :: string
  th_Role :: string
  th_DeviceID :: string
  th_KeyID :: string
  th_PublicKey :: string
  th_Scheme :: string
  th_Signature :: string
  th_RevokedAtEpoch :: "64 word"

record HardwareApproval =
  ha_SignerID :: string
  ha_Role :: string
  ha_DeviceID :: string
  ha_AuthenticatorAAGUID :: string
  ha_AssertionHash :: string
  ha_AssertionSignature :: string
  ha_SignedAt :: gotime
  ha_RevokedAtEpoch :: "64 word"

record HardwareCeremonyTranscript =
  hw_CeremonyID :: string
  hw_RequiredQuorum :: int
  hw_EnrolledSignerCount :: int
  hw_Approvals :: "HardwareApproval list"
  hw_StartedAt :: gotime
  hw_ExpiresAt :: gotime
  hw_VetoUntil :: gotime
  hw_TranscriptHash :: string

record EmergencyDelegationHop =
  hop_IssuerID :: string
  hop_SubjectID :: string
  hop_ScopeHash :: string
  hop_SignedAt :: gotime
  hop_Signature :: string

record EmergencyDelegationChain =
  ed_SessionID :: string
  ed_HumanSubjectID :: string
  ed_AuthorizedResources :: "string list"
  ed_Scope :: "string list"
  ed_MaxHops :: int
  ed_NotBefore :: gotime
  ed_ExpiresAt :: gotime
  ed_Hops :: "EmergencyDelegationHop list"
  ed_CompletionReceiptRef :: string

record TransparencyAnchor =
  ta_Backend :: string
  ta_LogID :: string
  ta_InclusionProofHash :: string
  ta_CheckpointHash :: string
  ta_Deferred :: bool
  ta_DeferredUntil :: gotime

record EmergencyCapsule =
  ca_CapsuleID :: string
  ca_Version :: "64 word"
  ca_ApertureID :: string
  ca_HazardCode :: string
  ca_State :: string
  ca_OrgGenomeHash :: string
  ca_PolicyEpoch :: "64 word"
  ca_PolicyHash :: string
  ca_P0CeilingsHash :: string
  ca_P1BundleHash :: string
  ca_CPIHash :: string
  ca_ProviderRegistryHash :: string
  ca_CredentialRegistryHash :: string
  ca_VerifierProfileHash :: string
  ca_PredecessorHash :: string
  ca_SubsetProofHash :: string
  ca_SubsetProofKind :: string
  ca_AllowedActions :: "string list"
  ca_AllowedConnectors :: "string list"
  ca_TTLSeconds :: int
  ca_NotBefore :: gotime
  ca_ExpiresAt :: gotime
  ca_Signatures :: "ThresholdSignature list"
  ca_Ceremony :: HardwareCeremonyTranscript
  ca_Delegation :: EmergencyDelegationChain
  ca_Attestation :: AttestationResultEnvelope
  ca_Transparency :: TransparencyAnchor

record ActivationReceipt =
  rc_ActivationID :: string
  rc_CapsuleID :: string
  rc_ApertureID :: string
  rc_State :: string
  rc_HazardCode :: string
  rc_ContinuityHash :: string
  rc_CeremonyHash :: string
  rc_DelegationSessionID :: string
  rc_PolicyEpoch :: "64 word"
  rc_ActivatedAt :: gotime
  rc_ExpiresAt :: gotime
  rc_ReasonCode :: string
  rc_ProofGraphRef :: string
  rc_EvidencePackRef :: string
  rc_Transparency :: TransparencyAnchor
  rc_Attestation :: AttestationResultEnvelope
  rc_Signature :: string

record DevFallbackPosture =
  df_AuditMode :: bool
  df_MockAttester :: bool
  df_SyntheticNitro :: bool
  df_SoftwareHSM :: bool
  df_DevBearerAuth :: bool
  df_EnvCredentialFallback :: bool
  df_UnsignedMutableOverlay :: bool

section \<open>Expectations and the environment (safedep.go)\<close>

record ContinuityExpectation =
  xc_PolicyEpoch :: "64 word"
  xc_PolicyHash :: string
  xc_OrgGenomeHash :: string
  xc_MinHazardSequence :: "64 word"
  xc_LatestAcceptedCheckpointHash :: string
  xc_RequireDeadManActive :: bool
  xc_Now :: gotime
  xc_MaxClockSkew :: godur

record CapsuleExpectation =
  xk_HazardCode :: string
  xk_State :: string
  xk_OrgGenomeHash :: string
  xk_PolicyEpoch :: "64 word"
  xk_PolicyHash :: string
  xk_P0CeilingsHash :: string
  xk_P1BundleHash :: string
  xk_CPIHash :: string
  xk_ProviderRegistryHash :: string
  xk_CredentialRegistryHash :: string
  xk_VerifierProfileHash :: string
  xk_PreviousCapsuleHash :: string
  xk_Now :: gotime
  xk_MinTTL :: godur
  xk_MaxTTL :: godur
  xk_RequireTransparency :: bool

record CeremonyExpectation =
  xy_AuthorizedSigners :: "(string, ThresholdSignature) gomap"
  xy_RequiredQuorum :: int
  xy_PolicyEpoch :: "64 word"
  xy_Now :: gotime
  xy_RequireDistinctRoles :: bool
  xy_RequireHardwareBound :: bool

record AttestationExpectation =
  xa_ProfileID :: string
  xa_PolicyHash :: string
  xa_Nonce :: string
  xa_MeasurementHash :: string
  xa_Now :: gotime

record ActivationExpectation =
  xp_Continuity :: ContinuityExpectation
  xp_Capsule :: CapsuleExpectation
  xp_Ceremony :: CeremonyExpectation
  xp_Attestation :: AttestationExpectation
  xp_Now :: gotime

datatype sd_error =
    ContinuityStale string | EmergencyCapsuleInvalid string | HardwareQuorumUnbound string
  | AttestationResultRequired string | DevFallbackPresent string | SdError string

record EvidenceRefs =
  er_ProofGraphRef :: string
  er_EvidencePackRef :: string

record EvidenceEvent =
  ev_Type :: string
  ev_Classification :: "HazardClassification option"
  ev_Checkpoint :: "ContinuityCheckpoint option"
  ev_CapsuleID :: string
  ev_ActivationID :: string
  ev_ReasonCode :: string
  ev_Reason :: string
  ev_OccurredAt :: gotime

record sd_env =
  sd_clk :: "string \<Rightarrow> gotime"
  sd_wall :: "string \<Rightarrow> gotime"
  sd_quote :: "string \<Rightarrow> string"
  sd_ul :: "string \<Rightarrow> string"
  sd_fold :: "string \<Rightarrow> string \<Rightarrow> bool"
  sd_verify :: "string \<Rightarrow> string \<Rightarrow> string \<Rightarrow> (string, bool) res"
  sd_cp_jcs :: "ContinuityCheckpoint \<Rightarrow> (string, byte list) res"
  sd_id_jcs :: "string \<Rightarrow> string \<Rightarrow> 64 word \<Rightarrow> 64 word \<Rightarrow> (string, byte list) res"
  sd_receipt_jcs :: "ActivationReceipt \<Rightarrow> (string, byte list) res"
  sd_sha :: "byte list \<Rightarrow> byte list"
  sd_sink :: "EvidenceEvent \<Rightarrow> (string, EvidenceRefs) res"

definition HashBytes :: "sd_env \<Rightarrow> byte list \<Rightarrow> string" where
  "HashBytes sv b = hex_EncodeToString (sd_sha sv b)"

text \<open>\<^verbatim>\<open>strings.EqualFold\<close>: simple folding; beyond ASCII the Unicode tables decide.\<close>

definition EqualFold :: "(string \<Rightarrow> string \<Rightarrow> bool) \<Rightarrow> string \<Rightarrow> string \<Rightarrow> bool" where
  "EqualFold uf s t = (if is_ascii s \<and> is_ascii t then map ascii_lower s = map ascii_lower t else uf s t)"

definition or_wall :: "sd_env \<Rightarrow> string \<Rightarrow> gotime \<Rightarrow> gotime" where
  "or_wall sv site t = (if t = 0 then sd_wall sv site else t)"

definition defaultTime :: "gotime \<Rightarrow> gotime \<Rightarrow> gotime" where
  "defaultTime v fallback = (if v = 0 then fallback else v)"

section \<open>Nonces and hazards\<close>

definition Consume_nonce :: "string \<Rightarrow> string list \<Rightarrow> string list \<times> bool" where
  "Consume_nonce nonce nonces =
     (let n = TrimSpace nonce in
      if n = [] \<or> n \<in> set nonces then (nonces, False) else (n # nonces, True))"

definition freeze_hazards :: "string list" where
  "freeze_hazards = [''DEAD_MAN_EXPIRED'', ''CONTINUITY_MISSING'']"

definition readonly_hazards :: "string list" where
  "readonly_hazards = [''ENGINE_PIN_MISMATCH'', ''ATTESTATION_FAILURE'', ''VERIFIER_PROFILE_DRIFT'']"

definition narrowing_hazards :: "string list" where
  "narrowing_hazards = [''CREDENTIAL_EXPIRED'', ''API_ROT'', ''NETWORK_PARTITION'', ''TRANSPARENCY_LOG_OUTAGE'', ''STALE_POLICY_FEED'']"

definition ClassifyHazard :: "string \<Rightarrow> bool \<Rightarrow> bool \<Rightarrow> HazardClassification" where
  "ClassifyHazard hazard activeClock highRiskLane =
     (let c = \<lparr>hc_HazardCode = hazard, hc_State = [], hc_ReasonCode = [], hc_LaneID = [], hc_ConnectorID = [],
                hc_ActiveClock = activeClock, hc_HighRiskLane = highRiskLane, hc_ActivationAllowed = False\<rparr>;
          c = (if hazard \<in> set freeze_hazards then
                 c\<lparr>hc_State := SafeDepTerminalFreeze, hc_ReasonCode := ''SAFEDEP_TERMINAL_FREEZE''\<rparr>
               else if hazard \<in> set readonly_hazards then
                 c\<lparr>hc_State := SafeDepDeprecatedReadonly, hc_ReasonCode := ''SAFEDEP_DEPRECATED_READONLY''\<rparr>
               else if hazard \<in> set narrowing_hazards then
                 c\<lparr>hc_State := SafeDepDegradedNarrowing, hc_ReasonCode := ''SAFEDEP_DEGRADED_NARROWING'', hc_ActivationAllowed := activeClock\<rparr>
               else c\<lparr>hc_State := SafeDepTerminalFreeze, hc_ReasonCode := ''SAFEDEP_TERMINAL_FREEZE''\<rparr>)
      in if hc_State c \<noteq> SafeDepDegradedNarrowing then c\<lparr>hc_ActivationAllowed := False\<rparr> else c)"

section \<open>The validators\<close>

text \<open>An expectation that is set and not met.\<close>

abbreviation unmet :: "string \<Rightarrow> string \<Rightarrow> bool" where
  "unmet expected v \<equiv> expected \<noteq> [] \<and> v \<noteq> expected"

definition ValidateContinuity :: "sd_env \<Rightarrow> ContinuityCheckpoint \<Rightarrow> ContinuityExpectation \<Rightarrow> (sd_error, unit) res" where
  "ValidateContinuity sv cp x =
     (let now = or_wall sv ''continuity'' (xc_Now x);
          maxSkew = (if xc_MaxClockSkew x = 0 then 2 * minute else xc_MaxClockSkew x) in
      if blank (cp_CheckpointID cp) \<or> blank (cp_Nonce cp) then Err (ContinuityStale ''checkpoint id and nonce are required'')
      else if xc_PolicyEpoch x \<noteq> 0 \<and> cp_PolicyEpoch cp \<noteq> xc_PolicyEpoch x then
        Err (ContinuityStale (''policy epoch '' @ dec_of_nat (unat (cp_PolicyEpoch cp)) @ '' does not match expected '' @ dec_of_nat (unat (xc_PolicyEpoch x))))
      else if unmet (xc_PolicyHash x) (cp_PolicyHash cp) then Err (ContinuityStale ''policy hash mismatch'')
      else if unmet (xc_OrgGenomeHash x) (cp_OrgGenomeHash cp) then Err (ContinuityStale ''org genome hash mismatch'')
      else if cp_HazardSequence cp \<le> xc_MinHazardSequence x then
        Err (ContinuityStale (''hazard sequence '' @ dec_of_nat (unat (cp_HazardSequence cp)) @ '' is not newer than '' @ dec_of_nat (unat (xc_MinHazardSequence x))))
      else if unmet (xc_LatestAcceptedCheckpointHash x) (cp_LatestAcceptedCheckpointHash cp) then Err (ContinuityStale ''latest accepted checkpoint hash mismatch'')
      else if xc_RequireDeadManActive x \<and> \<not> cp_DeadManActive cp then Err (ContinuityStale ''dead-man window is not active'')
      else if cp_AttestedTime cp = 0 then Err (ContinuityStale ''attested time is required'')
      else if cp_AttestedTime cp > now + maxSkew then Err (ContinuityStale ''attested time is in the future'')
      else if cp_ExpiresAt cp \<noteq> 0 \<and> \<not> now < cp_ExpiresAt cp then Err (ContinuityStale ''checkpoint expired'')
      else Ok ())"

definition ValidateAndConsumeContinuity ::
  "sd_env \<Rightarrow> ContinuityCheckpoint \<Rightarrow> ContinuityExpectation \<Rightarrow> string list option \<Rightarrow> string list option \<times> (sd_error, unit) res" where
  "ValidateAndConsumeContinuity sv cp x nonces =
     (case ValidateContinuity sv cp x of
        Inl e \<Rightarrow> (nonces, Err e)
      | Inr _ \<Rightarrow>
          (case nonces of
             None \<Rightarrow> (None, Err (ContinuityStale ''nonce replay or missing nonce store''))
           | Some ns \<Rightarrow>
               (case Consume_nonce (cp_Nonce cp) ns of (ns', fresh) \<Rightarrow>
                  (Some ns', if fresh then Ok () else Err (ContinuityStale ''nonce replay or missing nonce store'')))))"

definition capsule_binding :: "EmergencyCapsule \<Rightarrow> CapsuleExpectation \<Rightarrow> (sd_error, unit) res" where
  "capsule_binding c x =
     (if blank (ca_CapsuleID c) \<or> blank (ca_ApertureID c) \<or> ca_Version c = 0 then
        Err (EmergencyCapsuleInvalid ''capsule id, aperture id, and version are required'')
      else if ca_State c \<noteq> SafeDepDegradedNarrowing then
        Err (EmergencyCapsuleInvalid ''emergency capsules may only activate degraded narrowing'')
      else if unmet (xk_State x) (ca_State c) then Err (EmergencyCapsuleInvalid ''state mismatch'')
      else if unmet (xk_HazardCode x) (ca_HazardCode c) then Err (EmergencyCapsuleInvalid ''hazard mismatch'')
      else if unmet (xk_OrgGenomeHash x) (ca_OrgGenomeHash c) then Err (EmergencyCapsuleInvalid ''org genome hash mismatch'')
      else if xk_PolicyEpoch x \<noteq> 0 \<and> ca_PolicyEpoch c \<noteq> xk_PolicyEpoch x then Err (EmergencyCapsuleInvalid ''policy epoch mismatch'')
      else if unmet (xk_PolicyHash x) (ca_PolicyHash c) then Err (EmergencyCapsuleInvalid ''policy hash mismatch'')
      else if unmet (xk_P0CeilingsHash x) (ca_P0CeilingsHash c) then Err (EmergencyCapsuleInvalid ''P0 hash mismatch'')
      else if unmet (xk_P1BundleHash x) (ca_P1BundleHash c) then Err (EmergencyCapsuleInvalid ''P1 hash mismatch'')
      else if unmet (xk_CPIHash x) (ca_CPIHash c) then Err (EmergencyCapsuleInvalid ''CPI hash mismatch'')
      else if unmet (xk_ProviderRegistryHash x) (ca_ProviderRegistryHash c) then Err (EmergencyCapsuleInvalid ''provider registry hash mismatch'')
      else if unmet (xk_CredentialRegistryHash x) (ca_CredentialRegistryHash c) then Err (EmergencyCapsuleInvalid ''credential registry hash mismatch'')
      else if unmet (xk_VerifierProfileHash x) (ca_VerifierProfileHash c) then Err (EmergencyCapsuleInvalid ''verifier profile hash mismatch'')
      else if unmet (xk_PreviousCapsuleHash x) (ca_PredecessorHash c) then Err (EmergencyCapsuleInvalid ''predecessor hash mismatch'')
      else Ok ())"

definition capsule_window :: "gotime \<Rightarrow> EmergencyCapsule \<Rightarrow> CapsuleExpectation \<Rightarrow> (sd_error, unit) res" where
  "capsule_window now c x =
     (let ttl = wrap64 (ca_TTLSeconds c * second) in
      if blank (ca_SubsetProofHash c) \<or> blank (ca_SubsetProofKind c) then Err (EmergencyCapsuleInvalid ''subset proof is required'')
      else if ca_TTLSeconds c \<le> 0 then Err (EmergencyCapsuleInvalid ''TTL must be positive'')
      else if xk_MinTTL x > 0 \<and> ttl < xk_MinTTL x then Err (EmergencyCapsuleInvalid ''TTL shorter than minimum'')
      else if xk_MaxTTL x > 0 \<and> ttl > xk_MaxTTL x then Err (EmergencyCapsuleInvalid ''TTL exceeds maximum'')
      else if ca_NotBefore c \<noteq> 0 \<and> now < ca_NotBefore c then Err (EmergencyCapsuleInvalid ''capsule not yet valid'')
      else if ca_ExpiresAt c = 0 \<or> \<not> now < ca_ExpiresAt c then Err (EmergencyCapsuleInvalid ''capsule expired'')
      else if ca_Signatures c = [] then Err (EmergencyCapsuleInvalid ''threshold signatures are required'')
      else if xk_RequireTransparency x \<and> ta_Deferred (ca_Transparency c) \<and> ta_DeferredUntil (ca_Transparency c) = 0 then
        Err (EmergencyCapsuleInvalid ''deferred transparency requires a deadline'')
      else Ok ())"

definition ValidateEmergencyCapsule :: "sd_env \<Rightarrow> EmergencyCapsule \<Rightarrow> CapsuleExpectation \<Rightarrow> (sd_error, unit) res" where
  "ValidateEmergencyCapsule sv c x =
     (case capsule_binding c x of
        Inl e \<Rightarrow> Err e
      | Inr _ \<Rightarrow> capsule_window (or_wall sv ''capsule'' (xk_Now x)) c x)"

definition hardwareApprovalPayload :: "string \<Rightarrow> HardwareApproval \<Rightarrow> string" where
  "hardwareApprovalPayload transcriptHash a =
     TrimSpace transcriptHash @ '':'' @ TrimSpace (ha_SignerID a) @ '':'' @ TrimSpace (ha_Role a) @ '':''
       @ TrimSpace (ha_DeviceID a) @ '':'' @ TrimSpace (ha_AssertionHash a)"

definition approval_signature :: "HardwareApproval \<Rightarrow> ThresholdSignature \<Rightarrow> string" where
  "approval_signature a authorized =
     (let s = TrimSpace (ha_AssertionSignature a) in if s = [] then TrimSpace (th_Signature authorized) else s)"

definition verifyHardwareApproval :: "sd_env \<Rightarrow> string \<Rightarrow> HardwareApproval \<Rightarrow> ThresholdSignature \<Rightarrow> (sd_error, unit) res" where
  "verifyHardwareApproval sv transcriptHash a authorized =
     (let publicKey = TrimSpace (th_PublicKey authorized); signature = approval_signature a authorized in
      if publicKey = [] then Err (HardwareQuorumUnbound (''signer '' @ ha_SignerID a @ '' is not hardware-bound to a public key''))
      else if signature = [] then Err (HardwareQuorumUnbound (''signer '' @ ha_SignerID a @ '' missing hardware assertion signature''))
      else case sd_verify sv publicKey signature (hardwareApprovalPayload transcriptHash a) of
             Inl e \<Rightarrow> Err (HardwareQuorumUnbound (''hardware assertion verification failed for '' @ ha_SignerID a @ '': '' @ e))
           | Inr valid \<Rightarrow>
               if \<not> valid then Err (HardwareQuorumUnbound (''hardware assertion signature invalid for '' @ ha_SignerID a)) else Ok ())"

definition check_authorized :: "sd_env \<Rightarrow> string \<Rightarrow> CeremonyExpectation \<Rightarrow> HardwareApproval \<Rightarrow> (sd_error, unit) res" where
  "check_authorized sv transcriptHash x a =
     (let signerID = TrimSpace (ha_SignerID a) in
      if xy_AuthorizedSigners x \<noteq> [] then
        (case map_of (xy_AuthorizedSigners x) signerID of
           None \<Rightarrow> Err (HardwareQuorumUnbound (''unauthorized signer '' @ signerID))
         | Some au \<Rightarrow>
             if unmet (th_Role au) (ha_Role a) then Err (HardwareQuorumUnbound (''signer role mismatch for '' @ signerID))
             else if unmet (th_DeviceID au) (ha_DeviceID a) then Err (HardwareQuorumUnbound (''signer device mismatch for '' @ signerID))
             else if th_RevokedAtEpoch au > 0 \<and> xy_PolicyEpoch x \<ge> th_RevokedAtEpoch au then
               Err (HardwareQuorumUnbound (''signer '' @ signerID @ '' revoked''))
             else if xy_RequireHardwareBound x \<or> \<not> blank (th_PublicKey au) then verifyHardwareApproval sv transcriptHash a au
             else Ok ())
      else if xy_RequireHardwareBound x then Err (HardwareQuorumUnbound ''hardware-bound ceremony requires an authorized signer registry'')
      else Ok ())"

text \<open>The loop over the approvals, with the signers, devices and roles seen and the count of valid ones.\<close>

fun approvals_loop ::
  "sd_env \<Rightarrow> string \<Rightarrow> CeremonyExpectation \<Rightarrow> string list \<Rightarrow> string list \<Rightarrow> string list \<Rightarrow> int \<Rightarrow> HardwareApproval list \<Rightarrow> (sd_error, int) res" where
  "approvals_loop sv tr x signers devices roles valid [] = Ok valid"
| "approvals_loop sv tr x signers devices roles valid (a # as) =
     (let signerID = TrimSpace (ha_SignerID a); deviceID = TrimSpace (ha_DeviceID a); role = TrimSpace (ha_Role a);
          useRole = xy_RequireDistinctRoles x \<and> role \<noteq> [] in
      if signerID = [] \<or> deviceID = [] \<or> blank (ha_AssertionHash a) then
        Err (HardwareQuorumUnbound ''approval signer, device, and assertion are required'')
      else if signerID \<in> set signers then Err (HardwareQuorumUnbound (''duplicate signer '' @ signerID))
      else if deviceID \<in> set devices then Err (HardwareQuorumUnbound (''duplicate device '' @ deviceID))
      else if useRole \<and> role \<in> set roles then Err (HardwareQuorumUnbound (''duplicate role '' @ role))
      else case check_authorized sv tr x a of
             Inl e \<Rightarrow> Err e
           | Inr _ \<Rightarrow>
               if ha_RevokedAtEpoch a > 0 \<and> xy_PolicyEpoch x \<ge> ha_RevokedAtEpoch a then
                 Err (HardwareQuorumUnbound (''approval signer '' @ signerID @ '' revoked''))
               else approvals_loop sv tr x (signerID # signers) (deviceID # devices) (if useRole then role # roles else roles) (valid + 1) as)"

definition required_quorum :: "HardwareCeremonyTranscript \<Rightarrow> CeremonyExpectation \<Rightarrow> int" where
  "required_quorum c x = (if xy_RequiredQuorum x = 0 then hw_RequiredQuorum c else xy_RequiredQuorum x)"

definition ValidateHardwareCeremony :: "sd_env \<Rightarrow> HardwareCeremonyTranscript \<Rightarrow> CeremonyExpectation \<Rightarrow> (sd_error, unit) res" where
  "ValidateHardwareCeremony sv c x =
     (let now = or_wall sv ''ceremony'' (xy_Now x); required = required_quorum c x in
      if required < 1 then Err (HardwareQuorumUnbound ''quorum is required'')
      else if hw_EnrolledSignerCount c > 0 \<and> required > hw_EnrolledSignerCount c then
        Err (HardwareQuorumUnbound ''quorum exceeds enrolled signer count'')
      else if blank (hw_CeremonyID c) \<or> blank (hw_TranscriptHash c) then
        Err (HardwareQuorumUnbound ''ceremony id and transcript hash are required'')
      else if hw_VetoUntil c \<noteq> 0 \<and> now < hw_VetoUntil c then Err (HardwareQuorumUnbound ''veto window is still open'')
      else if hw_ExpiresAt c \<noteq> 0 \<and> \<not> now < hw_ExpiresAt c then Err (HardwareQuorumUnbound ''ceremony expired'')
      else case approvals_loop sv (hw_TranscriptHash c) x [] [] [] 0 (hw_Approvals c) of
             Inl e \<Rightarrow> Err e
           | Inr valid \<Rightarrow>
               if valid < required then
                 Err (HardwareQuorumUnbound (''quorum '' @ dec_of_int valid @ '' of '' @ dec_of_int required @ '' not met''))
               else Ok ())"

definition ValidateEmergencyDelegation :: "sd_env \<Rightarrow> EmergencyDelegationChain \<Rightarrow> gotime \<Rightarrow> (sd_error, unit) res" where
  "ValidateEmergencyDelegation sv chain t =
     (let now = or_wall sv ''delegation'' t in
      if blank (ed_SessionID chain) \<or> blank (ed_HumanSubjectID chain) then
        Err (EmergencyCapsuleInvalid ''delegation session and human subject are required'')
      else if ed_MaxHops chain < 0 then Err (EmergencyCapsuleInvalid ''max hops cannot be negative'')
      else if int (length (ed_Hops chain)) > ed_MaxHops chain then Err (EmergencyCapsuleInvalid ''delegation hop limit exceeded'')
      else if ed_NotBefore chain \<noteq> 0 \<and> now < ed_NotBefore chain then Err (EmergencyCapsuleInvalid ''delegation not yet valid'')
      else if ed_ExpiresAt chain = 0 \<or> \<not> now < ed_ExpiresAt chain then Err (EmergencyCapsuleInvalid ''delegation expired'')
      else if list_ex (\<lambda>h. blank (hop_IssuerID h) \<or> blank (hop_SubjectID h) \<or> blank (hop_Signature h)) (ed_Hops chain) then
        Err (EmergencyCapsuleInvalid ''delegation hop is incomplete'')
      else Ok ())"

definition ValidateAttestationResult :: "sd_env \<Rightarrow> AttestationResultEnvelope \<Rightarrow> AttestationExpectation \<Rightarrow> (sd_error, unit) res" where
  "ValidateAttestationResult sv a x =
     (let now = or_wall sv ''attestation'' (xa_Now x) in
      if blank (ar_EnvelopeID a) \<or> blank (ar_Signature a) then Err (AttestationResultRequired ''signed attestation result is required'')
      else if ar_Synthetic a then Err (AttestationResultRequired ''synthetic attestation result refused'')
      else if unmet (xa_ProfileID x) (ar_ProfileID a) then Err (AttestationResultRequired ''verifier profile mismatch'')
      else if unmet (xa_PolicyHash x) (ar_PolicyHash a) then Err (AttestationResultRequired ''appraisal policy hash mismatch'')
      else if unmet (xa_Nonce x) (ar_Nonce a) then Err (AttestationResultRequired ''nonce mismatch'')
      else if unmet (xa_MeasurementHash x) (ar_MeasurementHash a) then Err (AttestationResultRequired ''measurement mismatch'')
      else if ar_ExpiresAt a = 0 \<or> \<not> now < ar_ExpiresAt a then Err (AttestationResultRequired ''attestation result expired'')
      else if blank (ar_TrustTier a) \<or> EqualFold (sd_fold sv) (ar_TrustTier a) ''unverified'' then
        Err (AttestationResultRequired ''attestation result is not verified'')
      else Ok ())"

definition ValidateDevFallbackPosture :: "DevFallbackPosture \<Rightarrow> (sd_error, unit) res" where
  "ValidateDevFallbackPosture p =
     (if df_AuditMode p then Err (DevFallbackPresent ''audit mode enabled'')
      else if df_MockAttester p then Err (DevFallbackPresent ''mock attester enabled'')
      else if df_SyntheticNitro p then Err (DevFallbackPresent ''synthetic nitro enabled'')
      else if df_SoftwareHSM p then Err (DevFallbackPresent ''software HSM enabled'')
      else if df_DevBearerAuth p then Err (DevFallbackPresent ''dev bearer auth enabled'')
      else if df_EnvCredentialFallback p then Err (DevFallbackPresent ''env credential fallback enabled'')
      else if df_UnsignedMutableOverlay p then Err (DevFallbackPresent ''unsigned mutable overlay enabled'')
      else Ok ())"

definition ValidateActivation ::
  "sd_env \<Rightarrow> ContinuityCheckpoint \<Rightarrow> EmergencyCapsule \<Rightarrow> DevFallbackPosture \<Rightarrow> ActivationExpectation \<Rightarrow> string list option \<Rightarrow>
   string list option \<times> (sd_error, unit) res" where
  "ValidateActivation sv cp capsule posture x nonces =
     (let now = or_wall sv ''activation'' (xp_Now x) in
      case ValidateDevFallbackPosture posture of
        Inl e \<Rightarrow> (nonces, Err e)
      | Inr _ \<Rightarrow>
          (case ValidateAndConsumeContinuity sv cp ((xp_Continuity x)\<lparr>xc_Now := defaultTime (xc_Now (xp_Continuity x)) now\<rparr>) nonces of
             (nonces, Inl e) \<Rightarrow> (nonces, Err e)
           | (nonces, Inr _) \<Rightarrow>
               (nonces,
                case ValidateEmergencyCapsule sv capsule ((xp_Capsule x)\<lparr>xk_Now := defaultTime (xk_Now (xp_Capsule x)) now\<rparr>) of
                  Inl e \<Rightarrow> Err e
                | Inr _ \<Rightarrow>
                    (case ValidateHardwareCeremony sv (ca_Ceremony capsule) ((xp_Ceremony x)\<lparr>xy_Now := defaultTime (xy_Now (xp_Ceremony x)) now\<rparr>) of
                       Inl e \<Rightarrow> Err e
                     | Inr _ \<Rightarrow>
                         (case ValidateEmergencyDelegation sv (ca_Delegation capsule) now of
                            Inl e \<Rightarrow> Err e
                          | Inr _ \<Rightarrow>
                              ValidateAttestationResult sv (ca_Attestation capsule)
                                ((xp_Attestation x)\<lparr>xa_Now := defaultTime (xa_Now (xp_Attestation x)) now\<rparr>))))))"

end
