(* ===== verification/Safe_Dep_Controller.thy ===== *)
theory Safe_Dep_Controller
  imports Safe_Dep
begin

text \<open>
  The emergency controller, \<^verbatim>\<open>core/pkg/safedep/controller.go\<close>: signals from request contexts, the in-memory
  continuity store, and the gate in front of dispatch. The controller's evidence is the list of events handed
  to the sink. Cancellation of the call is an argument. The evidence map of a signal is never read and left out.
\<close>

section \<open>Signals\<close>

record Signal =
  sg_HazardCode :: string
  sg_LaneID :: string
  sg_ConnectorID :: string
  sg_ActiveClock :: bool
  sg_HighRiskLane :: bool
  sg_Reason :: string

definition zero_signal :: Signal where
  "zero_signal = \<lparr>sg_HazardCode = [], sg_LaneID = [], sg_ConnectorID = [], sg_ActiveClock = False, sg_HighRiskLane = False, sg_Reason = []\<rparr>"

definition Signal_Empty :: "Signal \<Rightarrow> bool" where
  "Signal_Empty s = blank (sg_HazardCode s)"

text \<open>The first key with a non-blank string; the first key with a boolean or a string.\<close>

definition firstString :: "(string \<times> gval) list \<Rightarrow> string list \<Rightarrow> string" where
  "firstString m ks = or_empty (first_some (\<lambda>k. case map_of m k of
     Some (GStr v) \<Rightarrow> if blank v then None else Some (TrimSpace v) | _ \<Rightarrow> None) ks)"

definition firstBool :: "(string \<Rightarrow> string \<Rightarrow> bool) \<Rightarrow> (string \<times> gval) list \<Rightarrow> string list \<Rightarrow> bool" where
  "firstBool uf m ks = (first_some (\<lambda>k. case map_of m k of
     Some (GBool b) \<Rightarrow> Some b | Some (GStr v) \<Rightarrow> Some (EqualFold uf (TrimSpace v) ''true'') | _ \<Rightarrow> None) ks = Some True)"

lemma nested_smaller:
  assumes "map_of m k = Some (GMap n)"
  shows "size (GMap n) < size (GMap m)"
proof -
  have "(k, GMap n) \<in> set m" using assms by (rule map_of_SomeD)
  then show ?thesis by (induction m) auto
qed

function SignalFromContext :: "(string \<Rightarrow> string \<Rightarrow> bool) \<Rightarrow> (string \<times> gval) list \<Rightarrow> Signal" where
  "SignalFromContext uf ctx =
     (if ctx = [] then zero_signal
      else let raw = firstString ctx [''safe_deprecation_hazard_code'', ''safedep_hazard_code'', ''hazard_code''] in
        if raw = [] then
          (case map_of ctx ''safe_deprecation'' of Some (GMap nested) \<Rightarrow> SignalFromContext uf nested | _ \<Rightarrow> zero_signal)
        else \<lparr>sg_HazardCode = raw,
          sg_LaneID = firstString ctx [''safe_deprecation_lane_id'', ''safedep_lane_id'', ''lane_id''],
          sg_ConnectorID = firstString ctx [''safe_deprecation_connector_id'', ''safedep_connector_id'', ''connector_id''],
          sg_ActiveClock = firstBool uf ctx [''safe_deprecation_active_clock'', ''safedep_active_clock'', ''active_clock'', ''dead_man_active''],
          sg_HighRiskLane = firstBool uf ctx [''safe_deprecation_high_risk_lane'', ''safedep_high_risk_lane'', ''high_risk_lane''],
          sg_Reason = firstString ctx [''safe_deprecation_reason'', ''safedep_reason'', ''reason'']\<rparr>)"
  by pat_completeness auto
termination
  by (relation "measure (\<lambda>(uf, m). size (GMap m))") (simp, simp only: in_measure prod.case nested_smaller)

declare SignalFromContext.simps [simp del]

definition inspection_words :: "string list" where
  "inspection_words = [''inspect'', ''export'', ''read'', ''status'', ''list'']"

definition IsInspectionAction :: "(string \<Rightarrow> string) \<Rightarrow> string \<Rightarrow> string \<Rightarrow> bool" where
  "IsInspectionAction ul action toolName =
     list_ex (\<lambda>v. v \<noteq> [] \<and> list_ex (Contains_str v) inspection_words)
       [ToLower ul (TrimSpace action), ToLower ul (TrimSpace toolName)]"

section \<open>The in-memory continuity store\<close>

record ContinuityState =
  cs_CheckpointID :: string
  cs_CheckpointHash :: string
  cs_HazardSequence :: "64 word"
  cs_PolicyEpoch :: "64 word"
  cs_LamportClock :: "64 word"
  cs_DeadManWindowID :: string
  cs_ActivationID :: string
  cs_ActivationExpiry :: gotime

record MemoryContinuityStore =
  ms_checkpoints :: "ContinuityState list"
  ms_nonces :: "string list"
  ms_activations :: "(string, ActivationReceipt) gomap"

definition NewMemoryContinuityStore :: MemoryContinuityStore where
  "NewMemoryContinuityStore = \<lparr>ms_checkpoints = [], ms_nonces = [], ms_activations = []\<rparr>"

definition Latest :: "MemoryContinuityStore \<Rightarrow> ContinuityState option" where
  "Latest s = (if ms_checkpoints s = [] then None else Some (last (ms_checkpoints s)))"

definition CheckpointHash :: "sd_env \<Rightarrow> ContinuityCheckpoint \<Rightarrow> (string, string) res" where
  "CheckpointHash sv cp = (case sd_cp_jcs sv (cp\<lparr>cp_Signature := []\<rparr>) of Inl e \<Rightarrow> Err e | Inr b \<Rightarrow> Ok (HashBytes sv b))"

definition append_refused :: "ContinuityCheckpoint \<Rightarrow> MemoryContinuityStore \<Rightarrow> sd_error option" where
  "append_refused cp s =
     (if cp_Nonce cp = [] then Some (ContinuityStale ''checkpoint nonce is required'')
      else if cp_Nonce cp \<in> set (ms_nonces s) then Some (ContinuityStale ''nonce replay'')
      else case Latest s of
             None \<Rightarrow> None
           | Some latest \<Rightarrow>
               if cp_HazardSequence cp \<le> cs_HazardSequence latest then Some (ContinuityStale ''hazard sequence rollback'')
               else if cp_LatestAcceptedCheckpointHash cp \<noteq> [] \<and> cp_LatestAcceptedCheckpointHash cp \<noteq> cs_CheckpointHash latest then
                 Some (ContinuityStale ''latest checkpoint hash mismatch'')
               else None)"

definition AppendCheckpoint ::
  "sd_env \<Rightarrow> ContinuityCheckpoint \<Rightarrow> MemoryContinuityStore \<Rightarrow> MemoryContinuityStore \<times> (sd_error, ContinuityState) res" where
  "AppendCheckpoint sv cp s =
     (case append_refused cp s of
        Some e \<Rightarrow> (s, Err e)
      | None \<Rightarrow>
          (case CheckpointHash sv cp of
             Inl e \<Rightarrow> (s, Err (SdError e))
           | Inr h \<Rightarrow>
               (let st = \<lparr>cs_CheckpointID = cp_CheckpointID cp, cs_CheckpointHash = h, cs_HazardSequence = cp_HazardSequence cp,
                      cs_PolicyEpoch = cp_PolicyEpoch cp, cs_LamportClock = cp_LamportClock cp, cs_DeadManWindowID = cp_DeadManWindowID cp,
                      cs_ActivationID = [], cs_ActivationExpiry = 0\<rparr>
                in (s\<lparr>ms_nonces := cp_Nonce cp # ms_nonces s, ms_checkpoints := ms_checkpoints s @ [st]\<rparr>, Ok st))))"

definition StoreActivation :: "ActivationReceipt \<Rightarrow> MemoryContinuityStore \<Rightarrow> MemoryContinuityStore \<times> (sd_error, unit) res" where
  "StoreActivation r s =
     (if rc_ActivationID r = [] then (s, Err (SdError ''safe dep: activation id is required''))
      else (s\<lparr>ms_activations := AList.update (rc_ActivationID r) r (ms_activations s)\<rparr>, Ok ()))"

definition GetActivation :: "string \<Rightarrow> MemoryContinuityStore \<Rightarrow> ActivationReceipt option" where
  "GetActivation i s = map_of (ms_activations s) i"

text \<open>Closing an activation ends it at the wall clock, not at the controller's clock.\<close>

definition CloseActivation :: "sd_env \<Rightarrow> string \<Rightarrow> MemoryContinuityStore \<Rightarrow> MemoryContinuityStore \<times> (sd_error, unit) res" where
  "CloseActivation sv i s =
     (case map_of (ms_activations s) i of
        None \<Rightarrow> (s, Err (SdError (''safe dep: activation '' @ sd_quote sv i @ '' not found'')))
      | Some r \<Rightarrow> (s\<lparr>ms_activations := AList.update i (r\<lparr>rc_ExpiresAt := sd_wall sv ''close''\<rparr>) (ms_activations s)\<rparr>, Ok ()))"

section \<open>The controller\<close>

record GateRequest =
  gq_Signal :: Signal
  gq_Checkpoint :: ContinuityCheckpoint
  gq_Capsule :: "EmergencyCapsule option"
  gq_DevFallbackPosture :: DevFallbackPosture
  gq_Expectation :: ActivationExpectation
  gq_Intent :: "AuthorizedExecutionIntent option"
  gq_DecisionID :: string
  gq_EffectID :: string
  gq_EffectType :: string
  gq_Action :: string
  gq_ToolName :: string
  gq_ConnectorID :: string
  gq_InspectionOnly :: bool

record GateResult =
  gt_Classification :: "HazardClassification option"
  gt_DispatchAllowed :: bool
  gt_ReadOnly :: bool
  gt_NarrowedScope :: bool
  gt_ReasonCode :: string
  gt_Reason :: string
  gt_ActivationReceipt :: "ActivationReceipt option"
  gt_EmergencyScopeHash :: string
  gt_ProofGraphRef :: string
  gt_EvidencePackRef :: string

definition zero_result :: GateResult where
  "zero_result = \<lparr>gt_Classification = None, gt_DispatchAllowed = False, gt_ReadOnly = False, gt_NarrowedScope = False, gt_ReasonCode = [],
     gt_Reason = [], gt_ActivationReceipt = None, gt_EmergencyScopeHash = [], gt_ProofGraphRef = [], gt_EvidencePackRef = []\<rparr>"

record Controller =
  ct_signer :: "(byte list \<Rightarrow> (string, string) res) option"
  ct_defaultQuorum :: int
  ct_defaultMaxTTL :: godur
  ct_requireHardwareBound :: bool
  ct_requireDistinctRoles :: bool
  ct_requireTransparency :: bool
  ct_requireDeadManActive :: bool
  ct_maxClockSkew :: godur

record sd_state =
  st_store :: MemoryContinuityStore
  st_events :: "EvidenceEvent list"

definition NewController ::
  "(byte list \<Rightarrow> (string, string) res) option \<Rightarrow> int \<Rightarrow> godur \<Rightarrow> bool \<Rightarrow> bool \<Rightarrow> bool \<Rightarrow> bool \<Rightarrow> godur \<Rightarrow> Controller" where
  "NewController signer quorum ttl hw roles clear dead skew =
     \<lparr>ct_signer = signer, ct_defaultQuorum = (if quorum = 0 then 3 else quorum), ct_defaultMaxTTL = ttl, ct_requireHardwareBound = hw,
      ct_requireDistinctRoles = roles, ct_requireTransparency = clear, ct_requireDeadManActive = dead, ct_maxClockSkew = skew\<rparr>"

text \<open>\<^verbatim>\<open>HashEvidenceSink\<close>, the default sink: references made of the event's hash.\<close>

definition HashEvidenceSink :: "(EvidenceEvent \<Rightarrow> (string, byte list) res) \<Rightarrow> (byte list \<Rightarrow> byte list) \<Rightarrow> EvidenceEvent \<Rightarrow> (string, EvidenceRefs) res" where
  "HashEvidenceSink jcs sha e =
     (case jcs e of
        Inl x \<Rightarrow> Err x
      | Inr b \<Rightarrow> (let h = hex_EncodeToString (sha b) in Ok \<lparr>er_ProofGraphRef = ''proofgraph:'' @ h, er_EvidencePackRef = ''evidencepack:'' @ h\<rparr>))"

definition record_event :: "sd_env \<Rightarrow> EvidenceEvent \<Rightarrow> sd_state \<Rightarrow> sd_state \<times> (string, EvidenceRefs) res" where
  "record_event sv e s = (s\<lparr>st_events := st_events s @ [e]\<rparr>, sd_sink sv e)"

definition zero_event :: EvidenceEvent where
  "zero_event = \<lparr>ev_Type = [], ev_Classification = None, ev_Checkpoint = None, ev_CapsuleID = [], ev_ActivationID = [],
     ev_ReasonCode = [], ev_Reason = [], ev_OccurredAt = 0\<rparr>"

definition Classify :: "sd_env \<Rightarrow> Signal \<Rightarrow> sd_state \<Rightarrow> sd_state \<times> HazardClassification" where
  "Classify sv sg s =
     (let c = (ClassifyHazard (sg_HazardCode sg) (sg_ActiveClock sg) (sg_HighRiskLane sg))
            \<lparr>hc_LaneID := TrimSpace (sg_LaneID sg), hc_ConnectorID := TrimSpace (sg_ConnectorID sg)\<rparr>
      in (fst (record_event sv (zero_event\<lparr>ev_Type := ''safedep.classification'', ev_Classification := Some c, ev_ReasonCode := hc_ReasonCode c,
                 ev_Reason := sg_Reason sg, ev_OccurredAt := sd_clk sv ''classify''\<rparr>) s), c))"

definition containsString :: "(string \<Rightarrow> string \<Rightarrow> bool) \<Rightarrow> string list \<Rightarrow> string \<Rightarrow> bool" where
  "containsString uf vs needle = list_ex (\<lambda>v. EqualFold uf (TrimSpace v) (TrimSpace needle)) vs"

definition scope_action :: "GateRequest \<Rightarrow> string" where
  "scope_action req =
     (let a = TrimSpace (gq_Action req); a = (if a = [] then TrimSpace (gq_EffectType req) else a)
      in if a = [] then TrimSpace (gq_ToolName req) else a)"

definition scope_connector :: "GateRequest \<Rightarrow> string" where
  "scope_connector req = (let c = TrimSpace (gq_ConnectorID req) in if c = [] then TrimSpace (gq_ToolName req) else c)"

definition validateCapsuleScope :: "sd_env \<Rightarrow> EmergencyCapsule \<Rightarrow> GateRequest \<Rightarrow> (sd_error, unit) res" where
  "validateCapsuleScope sv c req =
     (let action = scope_action req; connector = scope_connector req in
      if ca_AllowedActions c = [] then Err (EmergencyCapsuleInvalid ''capsule has no predeclared allowed actions'')
      else if \<not> containsString (sd_fold sv) (ca_AllowedActions c) action then
        Err (EmergencyCapsuleInvalid (''action '' @ sd_quote sv action @ '' is outside capsule scope''))
      else if ca_AllowedConnectors c \<noteq> [] \<and> connector \<noteq> [] \<and> \<not> containsString (sd_fold sv) (ca_AllowedConnectors c) connector then
        Err (EmergencyCapsuleInvalid (''connector '' @ sd_quote sv connector @ '' is outside capsule scope''))
      else if ed_Scope (ca_Delegation c) \<noteq> [] \<and> \<not> containsString (sd_fold sv) (ed_Scope (ca_Delegation c)) action then
        Err (EmergencyCapsuleInvalid (''delegation scope does not cover action '' @ sd_quote sv action))
      else Ok ())"

fun firstScopeHash_hops :: "EmergencyDelegationHop list \<Rightarrow> string" where
  "firstScopeHash_hops [] = []"
| "firstScopeHash_hops (h # hs) = (if blank (hop_ScopeHash h) then firstScopeHash_hops hs else TrimSpace (hop_ScopeHash h))"

definition firstScopeHash :: "EmergencyDelegationChain \<Rightarrow> string" where
  "firstScopeHash chain = firstScopeHash_hops (ed_Hops chain)"

definition activationID :: "sd_env \<Rightarrow> EmergencyCapsule \<Rightarrow> ContinuityCheckpoint \<Rightarrow> string" where
  "activationID sv c cp =
     (case sd_id_jcs sv (ca_CapsuleID c) (cp_CheckpointID cp) (cp_HazardSequence cp) (ca_PolicyEpoch c) of
        Inl _ \<Rightarrow> ''safedep-act-'' @ ca_CapsuleID c @ ''-'' @ cp_CheckpointID cp
      | Inr b \<Rightarrow> ''safedep-act-'' @ take 16 (HashBytes sv b))"

section \<open>Filling in the expectation\<close>

abbreviation or_default :: "string \<Rightarrow> string \<Rightarrow> string" where
  "or_default v d \<equiv> (if v = [] then d else v)"

definition default_continuity ::
  "Controller \<Rightarrow> gotime \<Rightarrow> ContinuityState option \<Rightarrow> EmergencyCapsule \<Rightarrow> ContinuityExpectation \<Rightarrow> ContinuityExpectation" where
  "default_continuity c now latest k x =
     \<lparr>xc_PolicyEpoch = (if xc_PolicyEpoch x = 0 then ca_PolicyEpoch k else xc_PolicyEpoch x),
      xc_PolicyHash = or_default (xc_PolicyHash x) (ca_PolicyHash k),
      xc_OrgGenomeHash = or_default (xc_OrgGenomeHash x) (ca_OrgGenomeHash k),
      xc_MinHazardSequence = (case latest of
        Some l \<Rightarrow> if xc_MinHazardSequence x < cs_HazardSequence l then cs_HazardSequence l else xc_MinHazardSequence x
      | None \<Rightarrow> xc_MinHazardSequence x),
      xc_LatestAcceptedCheckpointHash = (case latest of
        Some l \<Rightarrow> or_default (xc_LatestAcceptedCheckpointHash x) (cs_CheckpointHash l)
      | None \<Rightarrow> xc_LatestAcceptedCheckpointHash x),
      xc_RequireDeadManActive = (xc_RequireDeadManActive x \<or> ct_requireDeadManActive c),
      xc_Now = defaultTime (xc_Now x) now,
      xc_MaxClockSkew = (if xc_MaxClockSkew x = 0 then ct_maxClockSkew c else xc_MaxClockSkew x)\<rparr>"

definition default_capsule :: "Controller \<Rightarrow> gotime \<Rightarrow> string \<Rightarrow> EmergencyCapsule \<Rightarrow> CapsuleExpectation \<Rightarrow> CapsuleExpectation" where
  "default_capsule c now hazard k x =
     x\<lparr>xk_Now := defaultTime (xk_Now x) now,
       xk_HazardCode := or_default (xk_HazardCode x) hazard,
       xk_State := or_default (xk_State x) SafeDepDegradedNarrowing,
       xk_OrgGenomeHash := or_default (xk_OrgGenomeHash x) (ca_OrgGenomeHash k),
       xk_PolicyEpoch := (if xk_PolicyEpoch x = 0 then ca_PolicyEpoch k else xk_PolicyEpoch x),
       xk_PolicyHash := or_default (xk_PolicyHash x) (ca_PolicyHash k),
       xk_P0CeilingsHash := or_default (xk_P0CeilingsHash x) (ca_P0CeilingsHash k),
       xk_P1BundleHash := or_default (xk_P1BundleHash x) (ca_P1BundleHash k),
       xk_CPIHash := or_default (xk_CPIHash x) (ca_CPIHash k),
       xk_ProviderRegistryHash := or_default (xk_ProviderRegistryHash x) (ca_ProviderRegistryHash k),
       xk_CredentialRegistryHash := or_default (xk_CredentialRegistryHash x) (ca_CredentialRegistryHash k),
       xk_VerifierProfileHash := or_default (xk_VerifierProfileHash x) (ca_VerifierProfileHash k),
       xk_MaxTTL := (if xk_MaxTTL x = 0 then ct_defaultMaxTTL c else xk_MaxTTL x),
       xk_RequireTransparency := (xk_RequireTransparency x \<or> ct_requireTransparency c)\<rparr>"

definition default_ceremony :: "Controller \<Rightarrow> gotime \<Rightarrow> EmergencyCapsule \<Rightarrow> CeremonyExpectation \<Rightarrow> CeremonyExpectation" where
  "default_ceremony c now k x =
     x\<lparr>xy_Now := defaultTime (xy_Now x) now,
       xy_RequiredQuorum := (if xy_RequiredQuorum x = 0 then ct_defaultQuorum c else xy_RequiredQuorum x),
       xy_PolicyEpoch := (if xy_PolicyEpoch x = 0 then ca_PolicyEpoch k else xy_PolicyEpoch x),
       xy_RequireHardwareBound := (xy_RequireHardwareBound x \<or> ct_requireHardwareBound c),
       xy_RequireDistinctRoles := (xy_RequireDistinctRoles x \<or> ct_requireDistinctRoles c)\<rparr>"

definition default_attestation :: "gotime \<Rightarrow> EmergencyCapsule \<Rightarrow> AttestationExpectation \<Rightarrow> AttestationExpectation" where
  "default_attestation now k x =
     \<lparr>xa_ProfileID = or_default (xa_ProfileID x) (ar_ProfileID (ca_Attestation k)),
      xa_PolicyHash = or_default (xa_PolicyHash x) (ar_PolicyHash (ca_Attestation k)),
      xa_Nonce = or_default (xa_Nonce x) (ar_Nonce (ca_Attestation k)),
      xa_MeasurementHash = or_default (xa_MeasurementHash x) (ar_MeasurementHash (ca_Attestation k)),
      xa_Now = defaultTime (xa_Now x) now\<rparr>"

definition defaultExpectation :: "sd_env \<Rightarrow> Controller \<Rightarrow> GateRequest \<Rightarrow> EmergencyCapsule \<Rightarrow> MemoryContinuityStore \<Rightarrow> ActivationExpectation" where
  "defaultExpectation sv c req k s =
     (let x = gq_Expectation req; now = sd_clk sv ''expectation'' in
      \<lparr>xp_Continuity = default_continuity c now (Latest s) k (xp_Continuity x),
       xp_Capsule = default_capsule c now (sg_HazardCode (gq_Signal req)) k (xp_Capsule x),
       xp_Ceremony = default_ceremony c now k (xp_Ceremony x),
       xp_Attestation = default_attestation now k (xp_Attestation x),
       xp_Now = defaultTime (xp_Now x) now\<rparr>)"

section \<open>Activation, gate and restoration\<close>

definition activation_checks :: "sd_env \<Rightarrow> gotime \<Rightarrow> GateRequest \<Rightarrow> EmergencyCapsule \<Rightarrow> ActivationExpectation \<Rightarrow> (sd_error, unit) res" where
  "activation_checks sv now req k x =
     (case ValidateDevFallbackPosture (gq_DevFallbackPosture req) of Inl e \<Rightarrow> Err e | Inr _ \<Rightarrow>
      (case ValidateContinuity sv (gq_Checkpoint req) (xp_Continuity x) of Inl e \<Rightarrow> Err e | Inr _ \<Rightarrow>
       (case ValidateEmergencyCapsule sv k (xp_Capsule x) of Inl e \<Rightarrow> Err e | Inr _ \<Rightarrow>
        (case ValidateHardwareCeremony sv (ca_Ceremony k) (xp_Ceremony x) of Inl e \<Rightarrow> Err e | Inr _ \<Rightarrow>
         (case ValidateEmergencyDelegation sv (ca_Delegation k) now of Inl e \<Rightarrow> Err e | Inr _ \<Rightarrow>
          (case ValidateAttestationResult sv (ca_Attestation k) (xp_Attestation x) of Inl e \<Rightarrow> Err e | Inr _ \<Rightarrow>
           validateCapsuleScope sv k req))))))"

definition activation_receipt :: "sd_env \<Rightarrow> gotime \<Rightarrow> GateRequest \<Rightarrow> EmergencyCapsule \<Rightarrow> HazardClassification \<Rightarrow> ContinuityState \<Rightarrow> ActivationReceipt" where
  "activation_receipt sv now req k cl st =
     \<lparr>rc_ActivationID = activationID sv k (gq_Checkpoint req), rc_CapsuleID = ca_CapsuleID k, rc_ApertureID = ca_ApertureID k,
      rc_State = hc_State cl, rc_HazardCode = hc_HazardCode cl, rc_ContinuityHash = cs_CheckpointHash st,
      rc_CeremonyHash = hw_TranscriptHash (ca_Ceremony k), rc_DelegationSessionID = ed_SessionID (ca_Delegation k),
      rc_PolicyEpoch = ca_PolicyEpoch k, rc_ActivatedAt = now, rc_ExpiresAt = ca_ExpiresAt k, rc_ReasonCode = hc_ReasonCode cl,
      rc_ProofGraphRef = [], rc_EvidencePackRef = [], rc_Transparency = ca_Transparency k, rc_Attestation = ca_Attestation k, rc_Signature = []\<rparr>"

definition sign_receipt :: "sd_env \<Rightarrow> Controller \<Rightarrow> ActivationReceipt \<Rightarrow> (sd_error, ActivationReceipt) res" where
  "sign_receipt sv c r =
     (case ct_signer c of
        None \<Rightarrow> Ok r
      | Some sign \<Rightarrow>
          (case sd_receipt_jcs sv r of
             Inl e \<Rightarrow> Err (SdError e)
           | Inr payload \<Rightarrow> (case sign payload of Inl e \<Rightarrow> Err (SdError e) | Inr sig \<Rightarrow> Ok (r\<lparr>rc_Signature := sig\<rparr>))))"

definition activate :: "sd_env \<Rightarrow> Controller \<Rightarrow> GateRequest \<Rightarrow> HazardClassification \<Rightarrow> sd_state \<Rightarrow> sd_state \<times> (sd_error, ActivationReceipt) res" where
  "activate sv c req cl s =
     (case gq_Capsule req of
        None \<Rightarrow> (s, Err (EmergencyCapsuleInvalid ''no matching emergency capsule''))
      | Some k \<Rightarrow>
          (let now = sd_clk sv ''activate'' in
           case activation_checks sv now req k (defaultExpectation sv c req k (st_store s)) of
             Inl e \<Rightarrow> (s, Err e)
           | Inr _ \<Rightarrow>
               (case AppendCheckpoint sv (gq_Checkpoint req) (st_store s) of
                  (store, Inl e) \<Rightarrow> (s\<lparr>st_store := store\<rparr>, Err e)
                | (store, Inr st) \<Rightarrow>
                    (let s = s\<lparr>st_store := store\<rparr>; r = activation_receipt sv now req k cl st in
                     case record_event sv (zero_event\<lparr>ev_Type := ''safedep.activation'', ev_Classification := Some cl,
                            ev_Checkpoint := Some (gq_Checkpoint req), ev_CapsuleID := ca_CapsuleID k, ev_ActivationID := rc_ActivationID r,
                            ev_ReasonCode := hc_ReasonCode cl, ev_OccurredAt := now\<rparr>) s of
                       (s, Inl e) \<Rightarrow> (s, Err (SdError e))
                     | (s, Inr refs) \<Rightarrow>
                         (case sign_receipt sv c (r\<lparr>rc_ProofGraphRef := er_ProofGraphRef refs, rc_EvidencePackRef := er_EvidencePackRef refs\<rparr>) of
                            Inl e \<Rightarrow> (s, Err e)
                          | Inr r \<Rightarrow>
                              (case StoreActivation r (st_store s) of
                                 (store, Inl e) \<Rightarrow> (s\<lparr>st_store := store\<rparr>, Err e)
                               | (store, Inr _) \<Rightarrow> (s\<lparr>st_store := store\<rparr>, Ok r)))))))"

definition attachEvidence :: "sd_env \<Rightarrow> string \<Rightarrow> GateResult \<Rightarrow> sd_state \<Rightarrow> sd_state \<times> GateResult" where
  "attachEvidence sv ty r s =
     (case record_event sv (zero_event\<lparr>ev_Type := ty, ev_Classification := gt_Classification r, ev_ReasonCode := gt_ReasonCode r,
             ev_Reason := gt_Reason r, ev_OccurredAt := sd_clk sv ''attach''\<rparr>) s of
        (s, Inl _) \<Rightarrow> (s, r\<lparr>gt_ProofGraphRef := [], gt_EvidencePackRef := []\<rparr>)
      | (s, Inr refs) \<Rightarrow> (s, r\<lparr>gt_ProofGraphRef := er_ProofGraphRef refs, gt_EvidencePackRef := er_EvidencePackRef refs\<rparr>))"

definition ok_fst :: "'s \<times> 'a \<Rightarrow> 's \<times> ('e, 'a) res" where
  "ok_fst p = (fst p, Ok (snd p))"

definition err_text :: "sd_error \<Rightarrow> string" where
  "err_text e = (case e of
     ContinuityStale m \<Rightarrow> ''safe dep: continuity stale: '' @ m
   | EmergencyCapsuleInvalid m \<Rightarrow> ''safe dep: emergency capsule invalid: '' @ m
   | HardwareQuorumUnbound m \<Rightarrow> ''safe dep: hardware quorum unbound: '' @ m
   | AttestationResultRequired m \<Rightarrow> ''safe dep: attestation result required: '' @ m
   | DevFallbackPresent m \<Rightarrow> ''safe dep: dev fallback present: '' @ m
   | SdError m \<Rightarrow> m)"

definition fill_connector :: "GateRequest \<Rightarrow> GateRequest" where
  "fill_connector req =
     (if sg_ConnectorID (gq_Signal req) = [] then req\<lparr>gq_Signal := (gq_Signal req)\<lparr>sg_ConnectorID := gq_ConnectorID req\<rparr>\<rparr> else req)"

text \<open>
  The gate. With an error the Go code also returns the result built so far; callers drop it, so it is not kept.
\<close>

definition Gate :: "sd_env \<Rightarrow> string option \<Rightarrow> Controller \<Rightarrow> GateRequest \<Rightarrow> sd_state \<Rightarrow> sd_state \<times> (sd_error, GateResult) res" where
  "Gate sv cancelled c req0 s =
     (if Signal_Empty (gq_Signal req0) then (s, Ok (zero_result\<lparr>gt_DispatchAllowed := True\<rparr>))
      else case cancelled of
        Some e \<Rightarrow> (s, Err (SdError e))
      | None \<Rightarrow>
          (let req = fill_connector req0 in
           case Classify sv (gq_Signal req) s of (s, cl) \<Rightarrow>
           (let r = zero_result\<lparr>gt_Classification := Some cl, gt_ReasonCode := hc_ReasonCode cl, gt_Reason := sg_Reason (gq_Signal req),
                  gt_ReadOnly := (hc_State cl = SafeDepDeprecatedReadonly), gt_NarrowedScope := (hc_State cl = SafeDepDegradedNarrowing)\<rparr> in
            if hc_State cl = SafeDepTerminalFreeze then ok_fst (attachEvidence sv ''safedep.terminal_freeze'' r s)
            else if hc_State cl = SafeDepDeprecatedReadonly then
              (if gq_InspectionOnly req \<or> IsInspectionAction (sd_ul sv) (gq_Action req) (gq_ToolName req) then
                 ok_fst (attachEvidence sv ''safedep.deprecated_readonly.allow'' (r\<lparr>gt_DispatchAllowed := True\<rparr>) s)
               else ok_fst (attachEvidence sv ''safedep.deprecated_readonly.deny'' r s))
            else if hc_State cl = SafeDepDegradedNarrowing then
              (if \<not> hc_ActivationAllowed cl then ok_fst (attachEvidence sv ''safedep.degraded_narrowing.clock_inactive'' r s)
               else case activate sv c req cl s of
                 (s, Inl e) \<Rightarrow> (fst (attachEvidence sv ''safedep.degraded_narrowing.deny'' (r\<lparr>gt_Reason := err_text e\<rparr>) s), Err e)
               | (s, Inr rc) \<Rightarrow>
                   (s, Ok (r\<lparr>gt_DispatchAllowed := True, gt_ActivationReceipt := Some rc,
                             gt_EmergencyScopeHash := (case gq_Capsule req of Some k \<Rightarrow> firstScopeHash (ca_Delegation k) | None \<Rightarrow> []),
                             gt_ProofGraphRef := rc_ProofGraphRef rc, gt_EvidencePackRef := rc_EvidencePackRef rc\<rparr>)))
            else ok_fst (attachEvidence sv ''safedep.unknown_hazard'' r s))))"

definition Restore :: "sd_env \<Rightarrow> Controller \<Rightarrow> string \<Rightarrow> ContinuityCheckpoint \<Rightarrow> sd_state \<Rightarrow> sd_state \<times> (sd_error, unit) res" where
  "Restore sv c i cp s =
     (let x = \<lparr>xc_PolicyEpoch = 0, xc_PolicyHash = [], xc_OrgGenomeHash = [],
            xc_MinHazardSequence = (case Latest (st_store s) of None \<Rightarrow> 0 | Some l \<Rightarrow> cs_HazardSequence l),
            xc_LatestAcceptedCheckpointHash = (case Latest (st_store s) of None \<Rightarrow> [] | Some l \<Rightarrow> cs_CheckpointHash l),
            xc_RequireDeadManActive = False, xc_Now = sd_clk sv ''restore'', xc_MaxClockSkew = ct_maxClockSkew c\<rparr> in
      case ValidateContinuity sv cp x of
        Inl e \<Rightarrow> (s, Err e)
      | Inr _ \<Rightarrow>
          (case AppendCheckpoint sv cp (st_store s) of
             (store, Inl e) \<Rightarrow> (s\<lparr>st_store := store\<rparr>, Err e)
           | (store, Inr _) \<Rightarrow>
               (case CloseActivation sv i store of
                  (store, Inl e) \<Rightarrow> (s\<lparr>st_store := store\<rparr>, Err e)
                | (store, Inr _) \<Rightarrow>
                    (fst (record_event sv (zero_event\<lparr>ev_Type := ''safedep.restore'', ev_Checkpoint := Some cp, ev_ActivationID := i,
                            ev_OccurredAt := sd_clk sv ''restored''\<rparr>) (s\<lparr>st_store := store\<rparr>)), Ok ()))))"

section \<open>Requests from contexts\<close>

text \<open>
  A context may also hold Go values of struct type under the \<^verbatim>\<open>safe_deprecation_\<close> keys, which no dynamic value of the
  model stands for; \<open>typed_values\<close> is what the type assertions find there.
\<close>

record typed_values =
  tv_request :: "GateRequest option"
  tv_checkpoint :: "ContinuityCheckpoint option"
  tv_capsule :: "EmergencyCapsule option"
  tv_posture :: "DevFallbackPosture option"
  tv_expectation :: "ActivationExpectation option"

definition zero_checkpoint :: ContinuityCheckpoint where
  "zero_checkpoint = \<lparr>cp_CheckpointID = [], cp_OrgGenomeHash = [], cp_PolicyHash = [], cp_PolicyEpoch = 0, cp_HazardSequence = 0, cp_LamportClock = 0,
     cp_DeadManWindowID = [], cp_DeadManActive = False, cp_LatestAcceptedCheckpointHash = [], cp_PreviousCheckpointHash = [], cp_Nonce = [],
     cp_AttestedTime = 0, cp_ExpiresAt = 0, cp_Signature = []\<rparr>"

definition zero_posture :: DevFallbackPosture where
  "zero_posture = \<lparr>df_AuditMode = False, df_MockAttester = False, df_SyntheticNitro = False, df_SoftwareHSM = False, df_DevBearerAuth = False,
     df_EnvCredentialFallback = False, df_UnsignedMutableOverlay = False\<rparr>"

definition zero_expectation :: ActivationExpectation where
  "zero_expectation = \<lparr>xp_Continuity = \<lparr>xc_PolicyEpoch = 0, xc_PolicyHash = [], xc_OrgGenomeHash = [], xc_MinHazardSequence = 0,
       xc_LatestAcceptedCheckpointHash = [], xc_RequireDeadManActive = False, xc_Now = 0, xc_MaxClockSkew = 0\<rparr>,
     xp_Capsule = \<lparr>xk_HazardCode = [], xk_State = [], xk_OrgGenomeHash = [], xk_PolicyEpoch = 0, xk_PolicyHash = [], xk_P0CeilingsHash = [],
       xk_P1BundleHash = [], xk_CPIHash = [], xk_ProviderRegistryHash = [], xk_CredentialRegistryHash = [], xk_VerifierProfileHash = [],
       xk_PreviousCapsuleHash = [], xk_Now = 0, xk_MinTTL = 0, xk_MaxTTL = 0, xk_RequireTransparency = False\<rparr>,
     xp_Ceremony = \<lparr>xy_AuthorizedSigners = [], xy_RequiredQuorum = 0, xy_PolicyEpoch = 0, xy_Now = 0, xy_RequireDistinctRoles = False,
       xy_RequireHardwareBound = False\<rparr>,
     xp_Attestation = \<lparr>xa_ProfileID = [], xa_PolicyHash = [], xa_Nonce = [], xa_MeasurementHash = [], xa_Now = 0\<rparr>, xp_Now = 0\<rparr>"

definition zero_request :: GateRequest where
  "zero_request = \<lparr>gq_Signal = zero_signal, gq_Checkpoint = zero_checkpoint, gq_Capsule = None, gq_DevFallbackPosture = zero_posture,
     gq_Expectation = zero_expectation, gq_Intent = None, gq_DecisionID = [], gq_EffectID = [], gq_EffectType = [], gq_Action = [], gq_ToolName = [],
     gq_ConnectorID = [], gq_InspectionOnly = False\<rparr>"

definition no_typed :: typed_values where
  "no_typed = \<lparr>tv_request = None, tv_checkpoint = None, tv_capsule = None, tv_posture = None, tv_expectation = None\<rparr>"

definition GateRequestFromContext :: "(string \<Rightarrow> string \<Rightarrow> bool) \<Rightarrow> typed_values \<Rightarrow> gctx \<Rightarrow> GateRequest" where
  "GateRequestFromContext uf tv ctx =
     (let m = (case ctx of None \<Rightarrow> [] | Some m \<Rightarrow> m) in
      if m = [] \<and> tv = no_typed then zero_request
      else case tv_request tv of
        Some req \<Rightarrow> req
      | None \<Rightarrow>
          zero_request\<lparr>gq_Signal := SignalFromContext uf m,
            gq_Checkpoint := (case tv_checkpoint tv of Some cp \<Rightarrow> cp | None \<Rightarrow> zero_checkpoint),
            gq_Capsule := tv_capsule tv,
            gq_DevFallbackPosture := (case tv_posture tv of Some p \<Rightarrow> p | None \<Rightarrow> zero_posture),
            gq_Expectation := (case tv_expectation tv of Some e \<Rightarrow> e | None \<Rightarrow> zero_expectation),
            gq_InspectionOnly := (ctx_bool ctx ''safe_deprecation_inspection_only'' = Some True)\<rparr>)"

end
