(* ===== verification/Safe_Dep_Correct.thy ===== *)
theory Safe_Dep_Correct
  imports Safe_Dep_Controller
begin

text \<open>
  What the emergency plane guarantees: a ceremony is accepted only with a quorum of distinct approvals, a
  dispatch under a hazard is inspection only or a fully checked activation, and every activation consumes a
  checkpoint newer than all accepted before.
\<close>

section \<open>Quorum\<close>

definition approval_ok :: "sd_env \<Rightarrow> string \<Rightarrow> CeremonyExpectation \<Rightarrow> HardwareApproval \<Rightarrow> bool" where
  "approval_ok sv tr x a \<longleftrightarrow>
     check_authorized sv tr x a = Ok () \<and> \<not> (0 < ha_RevokedAtEpoch a \<and> ha_RevokedAtEpoch a \<le> xy_PolicyEpoch x)"

abbreviation signer :: "HardwareApproval \<Rightarrow> string" where "signer a \<equiv> TrimSpace (ha_SignerID a)"
abbreviation device :: "HardwareApproval \<Rightarrow> string" where "device a \<equiv> TrimSpace (ha_DeviceID a)"

lemma approvals_loop_ok:
  "approvals_loop sv tr x signers devices roles valid as = Ok n \<Longrightarrow>
     n = valid + int (length as) \<and> distinct (map signer as) \<and> distinct (map device as) \<and>
     set (map signer as) \<inter> set signers = {} \<and> set (map device as) \<inter> set devices = {} \<and> list_all (approval_ok sv tr x) as"
proof (induction as arbitrary: signers devices roles valid)
  case (Cons a as)
  note run = Cons.prems [unfolded approvals_loop.simps Let_def guard_ok]
  have auth: "check_authorized sv tr x a = Ok ()" using run by (auto split: sum.splits)
  note run' = run [unfolded auth sum.case guard_ok]
  show ?case using Cons.IH [OF run' [THEN conjunct2, THEN conjunct2, THEN conjunct2, THEN conjunct2, THEN conjunct2]] run' auth
    by (auto simp: approval_ok_def not_le not_less)
qed simp

lemma authorized_ok:
  assumes "check_authorized sv tr x a = Ok ()" "xy_AuthorizedSigners x \<noteq> []"
  shows "\<exists>au. map_of (xy_AuthorizedSigners x) (signer a) = Some au \<and> (th_Role au = [] \<or> ha_Role a = th_Role au) \<and>
    (th_DeviceID au = [] \<or> ha_DeviceID a = th_DeviceID au) \<and> \<not> (0 < th_RevokedAtEpoch au \<and> th_RevokedAtEpoch au \<le> xy_PolicyEpoch x) \<and>
    (xy_RequireHardwareBound x \<or> \<not> blank (th_PublicKey au) \<longrightarrow>
       sd_verify sv (TrimSpace (th_PublicKey au)) (approval_signature a au) (hardwareApprovalPayload tr a) = Ok True)"
  using assms by (auto simp: check_authorized_def verifyHardwareApproval_def Let_def not_le split: option.splits if_splits sum.splits)

lemma ceremony_cases:
  assumes "ValidateHardwareCeremony sv c x = Ok ()"
  shows "1 \<le> required_quorum c x \<and> required_quorum c x \<le> int (length (hw_Approvals c)) \<and>
    distinct (map signer (hw_Approvals c)) \<and> distinct (map device (hw_Approvals c)) \<and>
    list_all (approval_ok sv (hw_TranscriptHash c) x) (hw_Approvals c)"
proof -
  note run = assms [unfolded ValidateHardwareCeremony_def Let_def guard_ok]
  obtain n where n: "approvals_loop sv (hw_TranscriptHash c) x [] [] [] 0 (hw_Approvals c) = Ok n" "\<not> n < required_quorum c x"
    using run by (auto split: sum.splits if_splits)
  then show ?thesis using approvals_loop_ok [OF n(1)] run by auto
qed


section \<open>The contract of a continuity store\<close>

text \<open>A run of steps, each of which may report an accepted item.\<close>

fun run_steps :: "('s \<Rightarrow> 's \<times> 'a option) list \<Rightarrow> 's \<Rightarrow> 's \<times> 'a list" where
  "run_steps [] s = (s, [])"
| "run_steps (f # fs) s =
     (case f s of (s1, r) \<Rightarrow> (case run_steps fs s1 of (s2, rs) \<Rightarrow> (s2, (case r of None \<Rightarrow> rs | Some a \<Rightarrow> a # rs))))"

locale continuity_store =
  fixes latest :: "'s \<Rightarrow> ContinuityState option"
    and append_cp :: "sd_env \<Rightarrow> ContinuityCheckpoint \<Rightarrow> 's \<Rightarrow> 's \<times> (sd_error, ContinuityState) res"
  assumes append_ok: "append_cp sv cp s = (s', Ok st) \<Longrightarrow>
      latest s' = Some st \<and> cs_HazardSequence st = cp_HazardSequence cp \<and> (\<forall>l. latest s = Some l \<longrightarrow> cs_HazardSequence l < cs_HazardSequence st)"
    and append_err: "append_cp sv cp s = (s', Err e) \<Longrightarrow> latest s' = latest s"
begin

text \<open>A step that changes the latest state only by appending, and reports only a checkpoint it appended.\<close>

definition appends :: "('s \<Rightarrow> 's \<times> ContinuityCheckpoint option) \<Rightarrow> bool" where
  "appends f \<longleftrightarrow> (\<forall>s s' r. f s = (s', r) \<longrightarrow>
     (r = None \<and> latest s' = latest s) \<or>
     (\<exists>sv cp s1 st. append_cp sv cp s = (s1, Ok st) \<and> latest s' = Some st \<and> (r = None \<or> r = Some cp)))"

lemma appended_run_increases:
  "list_all appends fs \<Longrightarrow> run_steps fs s = (s', cps) \<Longrightarrow>
     sorted_wrt (<) (map cp_HazardSequence cps) \<and> (\<forall>l. latest s = Some l \<longrightarrow> (\<forall>cp \<in> set cps. cs_HazardSequence l < cp_HazardSequence cp))"
proof (induction fs arbitrary: s cps)
  case (Cons f fs)
  obtain s1 r where f: "f s = (s1, r)" by fastforce
  obtain cps1 where run: "run_steps fs s1 = (s', cps1)" and cps: "cps = (case r of None \<Rightarrow> cps1 | Some a \<Rightarrow> a # cps1)"
    using Cons.prems(2) by (auto simp: f split: prod.splits)
  note IH = Cons.IH [OF _ run]
  have ap: "list_all appends fs" "appends f" using Cons.prems(1) by simp_all
  consider "r = None" "latest s1 = latest s"
    | sv cp s2 st where "append_cp sv cp s = (s2, Ok st)" "latest s1 = Some st" "r = None \<or> r = Some cp"
    using ap(2) f unfolding appends_def by blast
  then show ?case
  proof cases
    case 1
    then show ?thesis using IH ap(1) cps by simp
  next
    case 2
    from append_ok [OF 2(1)] have st: "cs_HazardSequence st = cp_HazardSequence cp" "\<And>l. latest s = Some l \<Longrightarrow> cs_HazardSequence l < cs_HazardSequence st"
      by blast+
    have up: "\<forall>q \<in> set cps1. cp_HazardSequence cp < cp_HazardSequence q" "sorted_wrt (<) (map cp_HazardSequence cps1)"
      using IH ap(1) 2(2) st(1) by simp_all
    have "cs_HazardSequence l < cp_HazardSequence q" if "latest s = Some l" "q \<in> set cps1" for l q
      using st(2) [OF that(1)] up(1) that(2) unfolding st(1) by (blast intro: order.strict_trans)
    then show ?thesis using 2(3) up st cps by auto
  qed
qed simp

end

lemma append_mem:
  assumes "AppendCheckpoint sv cp s = (s', Ok st)"
  shows "Latest s' = Some st \<and> cs_HazardSequence st = cp_HazardSequence cp \<and> cs_CheckpointID st = cp_CheckpointID cp \<and>
    CheckpointHash sv cp = Ok (cs_CheckpointHash st) \<and> cp_Nonce cp \<notin> set (ms_nonces s) \<and> cp_Nonce cp \<in> set (ms_nonces s') \<and>
    (\<forall>l. Latest s = Some l \<longrightarrow> cs_HazardSequence l < cs_HazardSequence st) \<and> ms_activations s' = ms_activations s"
  using assms by (auto simp: AppendCheckpoint_def append_refused_def Latest_def Let_def split: option.splits sum.splits if_splits)

interpretation mem_cont: continuity_store Latest AppendCheckpoint
proof
  show "AppendCheckpoint sv cp s = (s', Ok st) \<Longrightarrow>
      Latest s' = Some st \<and> cs_HazardSequence st = cp_HazardSequence cp \<and> (\<forall>l. Latest s = Some l \<longrightarrow> cs_HazardSequence l < cs_HazardSequence st)"
    for sv cp s s' st using append_mem by blast
  show "AppendCheckpoint sv cp s = (s', Err e) \<Longrightarrow> Latest s' = Latest s" for sv cp s s' e
    by (auto simp: AppendCheckpoint_def Let_def split: option.splits sum.splits)
qed

text \<open>The store as the controller holds it.\<close>

definition append_in :: "sd_env \<Rightarrow> ContinuityCheckpoint \<Rightarrow> sd_state \<Rightarrow> sd_state \<times> (sd_error, ContinuityState) res" where
  "append_in sv cp s = (case AppendCheckpoint sv cp (st_store s) of (m, r) \<Rightarrow> (s\<lparr>st_store := m\<rparr>, r))"

interpretation ctl: continuity_store "\<lambda>s. Latest (st_store s)" append_in
proof
  show "append_in sv cp s = (s', Ok st) \<Longrightarrow> Latest (st_store s') = Some st \<and> cs_HazardSequence st = cp_HazardSequence cp \<and>
      (\<forall>l. Latest (st_store s) = Some l \<longrightarrow> cs_HazardSequence l < cs_HazardSequence st)" for sv cp s s' st
    using mem_cont.append_ok [of sv cp "st_store s"] by (auto simp: append_in_def split: prod.splits)
  show "append_in sv cp s = (s', Err e) \<Longrightarrow> Latest (st_store s') = Latest (st_store s)" for sv cp s s' e
    using mem_cont.append_err [of sv cp "st_store s"] by (auto simp: append_in_def split: prod.splits)
qed

section \<open>Activations\<close>

lemma store_frame [simp]:
  "st_store (fst (record_event sv e s)) = st_store s" "st_store (fst (Classify sv sg s)) = st_store s"
  "st_store (fst (attachEvidence sv ty r s)) = st_store s" "gt_DispatchAllowed (snd (attachEvidence sv ty r s)) = gt_DispatchAllowed r"
  "gt_ActivationReceipt (snd (attachEvidence sv ty r s)) = gt_ActivationReceipt r" "gt_ReadOnly (snd (attachEvidence sv ty r s)) = gt_ReadOnly r"
  by (simp_all add: record_event_def Classify_def attachEvidence_def Let_def split: sum.splits)

lemma sign_receipt_keeps:
  "sign_receipt sv c r = Ok r' \<Longrightarrow> rc_ActivationID r' = rc_ActivationID r \<and> rc_CapsuleID r' = rc_CapsuleID r \<and>
     rc_ContinuityHash r' = rc_ContinuityHash r \<and> rc_ExpiresAt r' = rc_ExpiresAt r"
  by (auto simp: sign_receipt_def split: option.splits sum.splits)

lemma StoreActivation_frame: "StoreActivation r m = (m', x) \<Longrightarrow> Latest m' = Latest m"
  by (auto simp: StoreActivation_def Latest_def split: if_splits)

lemma StoreActivation_ok: "StoreActivation r m = (m', Ok ()) \<Longrightarrow> Latest m' = Latest m \<and> GetActivation (rc_ActivationID r) m' = Some r"
  by (auto simp: StoreActivation_def Latest_def GetActivation_def split: if_splits)

lemma activate_ok:
  assumes "activate sv c req cl s = (s', Ok rc)"
  shows "\<exists>k st m. gq_Capsule req = Some k \<and>
    activation_checks sv (sd_clk sv ''activate'') req k (defaultExpectation sv c req k (st_store s)) = Ok () \<and>
    AppendCheckpoint sv (gq_Checkpoint req) (st_store s) = (m, Ok st) \<and>
    Latest (st_store s') = Some st \<and> GetActivation (rc_ActivationID rc) (st_store s') = Some rc \<and>
    rc_CapsuleID rc = ca_CapsuleID k \<and> rc_ContinuityHash rc = cs_CheckpointHash st \<and> rc_ExpiresAt rc = ca_ExpiresAt k"
proof -
  obtain k where k: "gq_Capsule req = Some k" using assms by (auto simp: activate_def split: option.splits)
  have chk: "activation_checks sv (sd_clk sv ''activate'') req k (defaultExpectation sv c req k (st_store s)) = Ok ()"
    using assms by (auto simp: activate_def k Let_def split: sum.splits)
  obtain m q where m: "AppendCheckpoint sv (gq_Checkpoint req) (st_store s) = (m, q)" by fastforce
  obtain st where st: "q = Ok st" using assms by (cases q) (auto simp: activate_def k chk m Let_def)
  let ?r = "activation_receipt sv (sd_clk sv ''activate'') req k cl st"
  have "\<exists>refs :: EvidenceRefs. sign_receipt sv c (?r\<lparr>rc_ProofGraphRef := er_ProofGraphRef refs, rc_EvidencePackRef := er_EvidencePackRef refs\<rparr>) = Ok rc \<and>
      StoreActivation rc m = (st_store s', Ok ())"
    using assms by (auto simp: activate_def k chk m st Let_def record_event_def split: sum.splits prod.splits)
  then obtain refs :: EvidenceRefs where r': "sign_receipt sv c (?r\<lparr>rc_ProofGraphRef := er_ProofGraphRef refs, rc_EvidencePackRef := er_EvidencePackRef refs\<rparr>) = Ok rc"
    and sa: "StoreActivation rc m = (st_store s', Ok ())" by blast
  note keep = sign_receipt_keeps [OF r']
  show ?thesis using StoreActivation_ok [OF sa] k chk m st keep append_mem [of sv "gq_Checkpoint req" "st_store s" m st]
    by (auto simp: activation_receipt_def)
qed

lemma activate_store:
  assumes "activate sv c req cl s = (s', r)"
  shows "Latest (st_store s') = Latest (st_store s) \<or>
     (\<exists>m st. AppendCheckpoint sv (gq_Checkpoint req) (st_store s) = (m, Ok st) \<and> Latest (st_store s') = Some st)"
proof -
  obtain m q where m: "AppendCheckpoint sv (gq_Checkpoint req) (st_store s) = (m, q)" by fastforce
  have "st_store s' = st_store s \<or> st_store s' = m \<or> (\<exists>st. q = Ok st) \<and> (\<exists>r' x. StoreActivation r' m = (st_store s', x))"
    using assms by (auto simp: activate_def m Let_def record_event_def split: option.splits sum.splits prod.splits)
  then show ?thesis using m mem_cont.append_ok [of sv "gq_Checkpoint req" "st_store s" m] mem_cont.append_err [of sv "gq_Checkpoint req" "st_store s" m]
    by (cases q) (auto dest: StoreActivation_frame)
qed

section \<open>The gate\<close>

lemma fill_keeps [simp]:
  "gq_Capsule (fill_connector q) = gq_Capsule q" "gq_Checkpoint (fill_connector q) = gq_Checkpoint q"
  "gq_Expectation (fill_connector q) = gq_Expectation q" "gq_DevFallbackPosture (fill_connector q) = gq_DevFallbackPosture q"
  "gq_Action (fill_connector q) = gq_Action q" "gq_EffectType (fill_connector q) = gq_EffectType q" "gq_ToolName (fill_connector q) = gq_ToolName q"
  "gq_ConnectorID (fill_connector q) = gq_ConnectorID q" "gq_InspectionOnly (fill_connector q) = gq_InspectionOnly q"
  "sg_HazardCode (gq_Signal (fill_connector q)) = sg_HazardCode (gq_Signal q)" "sg_ActiveClock (gq_Signal (fill_connector q)) = sg_ActiveClock (gq_Signal q)"
  "sg_HighRiskLane (gq_Signal (fill_connector q)) = sg_HighRiskLane (gq_Signal q)" "sg_Reason (gq_Signal (fill_connector q)) = sg_Reason (gq_Signal q)"
  by (simp_all add: fill_connector_def)

lemma fill_scope [simp]:
  "validateCapsuleScope sv k (fill_connector q) = validateCapsuleScope sv k q"
  "defaultExpectation sv c (fill_connector q) k m = defaultExpectation sv c q k m"
  by (simp_all add: validateCapsuleScope_def scope_action_def scope_connector_def defaultExpectation_def Let_def)

lemma fill_checks [simp]: "activation_checks sv now (fill_connector q) k x = activation_checks sv now q k x"
  unfolding activation_checks_def fill_keeps fill_scope by (rule refl)

lemma states_distinct [simp]:
  "SafeDepDegradedNarrowing \<noteq> SafeDepTerminalFreeze" "SafeDepDegradedNarrowing \<noteq> SafeDepDeprecatedReadonly"
  "SafeDepDeprecatedReadonly \<noteq> SafeDepTerminalFreeze" "SafeDepDeprecatedReadonly \<noteq> SafeDepDegradedNarrowing"
  "SafeDepTerminalFreeze \<noteq> SafeDepDegradedNarrowing" "SafeDepTerminalFreeze \<noteq> SafeDepDeprecatedReadonly"
  by (simp_all add: safedep_states)

lemma hazards_disjoint:
  "h \<in> set readonly_hazards \<Longrightarrow> h \<notin> set freeze_hazards" "h \<in> set narrowing_hazards \<Longrightarrow> h \<notin> set freeze_hazards"
  "h \<in> set narrowing_hazards \<Longrightarrow> h \<notin> set readonly_hazards"
  by (auto simp: readonly_hazards_def freeze_hazards_def narrowing_hazards_def)

lemma classified [simp]:
  "hc_State (ClassifyHazard h a b) = (if h \<in> set readonly_hazards then SafeDepDeprecatedReadonly
     else if h \<in> set narrowing_hazards then SafeDepDegradedNarrowing else SafeDepTerminalFreeze)"
  "hc_ActivationAllowed (ClassifyHazard h a b) \<longleftrightarrow> h \<in> set narrowing_hazards \<and> a"
  using hazards_disjoint [of h] by (auto simp: ClassifyHazard_def Let_def)

lemma classify_class: "snd (Classify sv sg s) = (ClassifyHazard (sg_HazardCode sg) (sg_ActiveClock sg) (sg_HighRiskLane sg))
    \<lparr>hc_LaneID := TrimSpace (sg_LaneID sg), hc_ConnectorID := TrimSpace (sg_ConnectorID sg)\<rparr>"
  by (simp add: Classify_def Let_def)

text \<open>The four ways a gate call ends; only the last one can change the store.\<close>

lemma gate_cases:
  assumes "Gate sv cx c req s = (s', res)"
  obtains (empty) "Signal_Empty (gq_Signal req)" "s' = s" "\<exists>r. res = Ok r \<and> gt_ActivationReceipt r = None"
  | (cancelled) e where "cx = Some e" "s' = s" "res = Err (SdError e)"
  | (static) r where "res = Ok r" "st_store s' = st_store s" "gt_ActivationReceipt r = None"
      "gt_DispatchAllowed r \<Longrightarrow> sg_HazardCode (gq_Signal req) \<in> set readonly_hazards \<and> gt_ReadOnly r \<and>
         (gq_InspectionOnly req \<or> IsInspectionAction (sd_ul sv) (gq_Action req) (gq_ToolName req))"
  | (active) cl s1 s2 q where "sg_HazardCode (gq_Signal req) \<in> set narrowing_hazards" "sg_ActiveClock (gq_Signal req)"
      "st_store s1 = st_store s" "activate sv c (fill_connector req) cl s1 = (s2, q)" "st_store s' = st_store s2"
      "\<And>e. q = Err e \<Longrightarrow> res = Err e" "\<And>rc. q = Ok rc \<Longrightarrow> \<exists>r. res = Ok r \<and> gt_ActivationReceipt r = Some rc"
proof (cases "Signal_Empty (gq_Signal req) \<or> cx \<noteq> None")
  case True
  then show ?thesis using assms empty cancelled by (auto simp: Gate_def zero_result_def split: if_splits option.splits)
next
  case False
  obtain s1 cl where cl: "Classify sv (gq_Signal (fill_connector req)) s = (s1, cl)" by fastforce
  have s1: "st_store s1 = st_store s" using store_frame(2) [of sv "gq_Signal (fill_connector req)" s] by (simp add: cl)
  have st: "hc_State cl = (if sg_HazardCode (gq_Signal req) \<in> set readonly_hazards then SafeDepDeprecatedReadonly
      else if sg_HazardCode (gq_Signal req) \<in> set narrowing_hazards then SafeDepDegradedNarrowing else SafeDepTerminalFreeze)"
    "hc_ActivationAllowed cl \<longleftrightarrow> sg_HazardCode (gq_Signal req) \<in> set narrowing_hazards \<and> sg_ActiveClock (gq_Signal req)"
    using classify_class [of sv "gq_Signal (fill_connector req)" s] by (simp_all add: cl)
  have "Signal_Empty (gq_Signal req) = False" "cx = None" using False by auto
  note run = assms [unfolded Gate_def Let_def this if_False option.case cl prod.case]
  show ?thesis
  proof (cases "hc_State cl = SafeDepDegradedNarrowing \<and> hc_ActivationAllowed cl")
    case True
    obtain s2 q where q: "activate sv c (fill_connector req) cl s1 = (s2, q)" by fastforce
    have "st_store s' = st_store s2" "\<And>e. q = Err e \<Longrightarrow> res = Err e" "\<And>rc. q = Ok rc \<Longrightarrow> \<exists>r. res = Ok r \<and> gt_ActivationReceipt r = Some rc"
      using run q by (auto simp: True split: sum.splits)
    then show ?thesis using active [OF _ _ s1 q] st True by blast
  next
    case F: False
    have "\<exists>r. res = Ok r \<and> st_store s' = st_store s \<and> gt_ActivationReceipt r = None \<and> (gt_DispatchAllowed r \<longrightarrow>
       sg_HazardCode (gq_Signal req) \<in> set readonly_hazards \<and> gt_ReadOnly r \<and>
         (gq_InspectionOnly req \<or> IsInspectionAction (sd_ul sv) (gq_Action req) (gq_ToolName req)))"
    proof (cases "hc_State cl = SafeDepDeprecatedReadonly")
      case True
      then have h: "sg_HazardCode (gq_Signal req) \<in> set readonly_hazards" using st(1) by (auto split: if_splits)
      show ?thesis using run unfolding True by (auto simp: ok_fst_def zero_result_def s1 h split: if_splits)
    next
      case N: False
      have "\<not> (hc_State cl = SafeDepDegradedNarrowing \<and> hc_ActivationAllowed cl)" by (rule F)
      then show ?thesis using run N by (auto simp: ok_fst_def zero_result_def s1 split: if_splits)
    qed
    then show ?thesis using static by blast
  qed
qed

text \<open>
  C39: Under a hazard the gate lets a dispatch through in two cases only. Under a read-only hazard the request
  must be an inspection. Under a narrowing hazard, with the dead-man clock running, it must come with an emergency
  capsule for which every check passed against the controller's expectations and whose allowed actions cover the
  request; its checkpoint is newer than every checkpoint accepted before and has become the latest, and the
  activation receipt, bound to that checkpoint, is stored. All other hazards, known or not, block.
\<close>
theorem gate_dispatch_sound:
  assumes "Gate sv cx c req s = (s', Ok r)" "gt_DispatchAllowed r"
  shows "Signal_Empty (gq_Signal req) \<or>
    (sg_HazardCode (gq_Signal req) \<in> set readonly_hazards \<and> gt_ReadOnly r \<and>
       (gq_InspectionOnly req \<or> IsInspectionAction (sd_ul sv) (gq_Action req) (gq_ToolName req))) \<or>
    (sg_HazardCode (gq_Signal req) \<in> set narrowing_hazards \<and> sg_ActiveClock (gq_Signal req) \<and>
     (\<exists>k x st rc. gq_Capsule req = Some k \<and> x = defaultExpectation sv c req k (st_store s) \<and>
        ValidateDevFallbackPosture (gq_DevFallbackPosture req) = Ok () \<and> ValidateContinuity sv (gq_Checkpoint req) (xp_Continuity x) = Ok () \<and>
        ValidateEmergencyCapsule sv k (xp_Capsule x) = Ok () \<and> ValidateHardwareCeremony sv (ca_Ceremony k) (xp_Ceremony x) = Ok () \<and>
        ValidateEmergencyDelegation sv (ca_Delegation k) (sd_clk sv ''activate'') = Ok () \<and>
        ValidateAttestationResult sv (ca_Attestation k) (xp_Attestation x) = Ok () \<and>
        containsString (sd_fold sv) (ca_AllowedActions k) (scope_action req) \<and>
        (\<forall>l. Latest (st_store s) = Some l \<longrightarrow> cs_HazardSequence l < cp_HazardSequence (gq_Checkpoint req)) \<and>
        Latest (st_store s') = Some st \<and> cs_HazardSequence st = cp_HazardSequence (gq_Checkpoint req) \<and>
        gt_ActivationReceipt r = Some rc \<and> GetActivation (rc_ActivationID rc) (st_store s') = Some rc \<and>
        rc_CapsuleID rc = ca_CapsuleID k \<and> rc_ContinuityHash rc = cs_CheckpointHash st \<and> rc_ExpiresAt rc = ca_ExpiresAt k))"
  using assms(1)
proof (cases rule: gate_cases)
  case (active cl s1 s2 q)
  obtain rc where q: "q = Ok rc" using active(6) by (cases q) auto
  have r: "gt_ActivationReceipt r = Some rc" using active(7) [OF q] by auto
  obtain k st m where a: "gq_Capsule req = Some k"
    "activation_checks sv (sd_clk sv ''activate'') req k (defaultExpectation sv c req k (st_store s)) = Ok ()"
    "AppendCheckpoint sv (gq_Checkpoint req) (st_store s) = (m, Ok st)" "Latest (st_store s') = Some st"
    "GetActivation (rc_ActivationID rc) (st_store s') = Some rc" "rc_CapsuleID rc = ca_CapsuleID k" "rc_ContinuityHash rc = cs_CheckpointHash st"
    "rc_ExpiresAt rc = ca_ExpiresAt k"
    using activate_ok [OF active(4) [unfolded q]] active(3,5) by auto
  have "containsString (sd_fold sv) (ca_AllowedActions k) (scope_action req)"
    using a(2) by (auto simp: activation_checks_def validateCapsuleScope_def Let_def split: sum.splits if_splits)
  moreover have "ValidateDevFallbackPosture (gq_DevFallbackPosture req) = Ok () \<and>
      ValidateContinuity sv (gq_Checkpoint req) (xp_Continuity (defaultExpectation sv c req k (st_store s))) = Ok () \<and>
      ValidateEmergencyCapsule sv k (xp_Capsule (defaultExpectation sv c req k (st_store s))) = Ok () \<and>
      ValidateHardwareCeremony sv (ca_Ceremony k) (xp_Ceremony (defaultExpectation sv c req k (st_store s))) = Ok () \<and>
      ValidateEmergencyDelegation sv (ca_Delegation k) (sd_clk sv ''activate'') = Ok () \<and>
      ValidateAttestationResult sv (ca_Attestation k) (xp_Attestation (defaultExpectation sv c req k (st_store s))) = Ok ()"
    using a(2) unfolding activation_checks_def by (simp split: sum.splits)
  ultimately show ?thesis using active(1,2) a r append_mem [OF a(3)] by auto
qed (use assms(2) in auto)

section \<open>Histories of the controller\<close>

datatype sd_call = CallGate sd_env "string option" Controller GateRequest | CallRestore sd_env Controller string ContinuityCheckpoint

text \<open>A call, with the checkpoint of the activation it made.\<close>

fun sd_step :: "sd_call \<Rightarrow> sd_state \<Rightarrow> sd_state \<times> ContinuityCheckpoint option" where
  "sd_step (CallGate sv cx c req) s =
     (case Gate sv cx c req s of
        (s', Inl _) \<Rightarrow> (s', None)
      | (s', Inr r) \<Rightarrow> (s', if gt_ActivationReceipt r \<noteq> None then Some (gq_Checkpoint req) else None))"
| "sd_step (CallRestore sv c i cp) s = (fst (Restore sv c i cp s), None)"

lemma CloseActivation_frame: "CloseActivation sv i m = (m', x) \<Longrightarrow> Latest m' = Latest m"
  by (auto simp: CloseActivation_def Latest_def split: option.splits)

lemma restore_store:
  "Latest (st_store (fst (Restore sv c i cp s))) = Latest (st_store s) \<or>
     (\<exists>m st. AppendCheckpoint sv cp (st_store s) = (m, Ok st) \<and> Latest (st_store (fst (Restore sv c i cp s))) = Some st)"
proof -
  obtain m q where m: "AppendCheckpoint sv cp (st_store s) = (m, q)" by fastforce
  have "st_store (fst (Restore sv c i cp s)) = st_store s \<or> st_store (fst (Restore sv c i cp s)) = m \<or>
      (\<exists>st. q = Ok st) \<and> (\<exists>x. CloseActivation sv i m = (st_store (fst (Restore sv c i cp s)), x))"
    by (auto simp: Restore_def m Let_def split: sum.splits prod.splits)
  then show ?thesis using m mem_cont.append_ok [of sv cp "st_store s" m] mem_cont.append_err [of sv cp "st_store s" m]
    by (cases q) (auto dest: CloseActivation_frame)
qed

lemma append_in_ok: "AppendCheckpoint sv cp (st_store s) = (m, Ok st) \<Longrightarrow> append_in sv cp s = (s\<lparr>st_store := m\<rparr>, Ok st)"
  by (simp add: append_in_def)

lemma gate_appends: "ctl.appends (sd_step (CallGate sv cx c req))"
  unfolding ctl.appends_def
proof (intro allI impI)
  fix s s' r assume st: "sd_step (CallGate sv cx c req) s = (s', r)"
  obtain res where g: "Gate sv cx c req s = (s', res)" using st by (auto split: prod.splits sum.splits)
  let ?goal = "r = None \<and> Latest (st_store s') = Latest (st_store s) \<or>
     (\<exists>sv cp s1 st. append_in sv cp s = (s1, Ok st) \<and> Latest (st_store s') = Some st \<and> (r = None \<or> r = Some cp))"
  from g show ?goal
  proof (cases rule: gate_cases)
    case (active cl s1 s2 q)
    show ?thesis
    proof (cases q)
      case (Inl e)
      have "r = None" using st g active(6) [OF Inl] by simp
      then show ?thesis using activate_store [OF active(4)] active(3,5) append_in_ok by fastforce
    next
      case (Inr rc)
      have "r = Some (gq_Checkpoint req)" using st g active(7) [OF Inr] by auto
      then show ?thesis using activate_ok [OF active(4) [unfolded Inr]] active(3,5) append_in_ok by fastforce
    qed
  qed (use st g in auto)
qed

lemma restore_appends: "ctl.appends (sd_step (CallRestore sv c i cp))"
  unfolding ctl.appends_def using restore_store append_in_ok by fastforce

lemma step_appends: "ctl.appends (sd_step call)"
  by (cases call) (simp_all only: gate_appends restore_appends)

text \<open>
  Over any history of gate calls and restorations, whatever the configurations and clocks, the checkpoints of the
  activations have strictly increasing hazard sequence numbers, all above the one accepted last before the
  history. So no checkpoint supports two activations, and none supports one after a newer was accepted.
\<close>
theorem activations_advance:
  assumes "run_steps (map sd_step calls) s = (s', cps)"
  shows "sorted_wrt (<) (map cp_HazardSequence cps) \<and> distinct cps \<and>
    (\<forall>l. Latest (st_store s) = Some l \<longrightarrow> (\<forall>cp \<in> set cps. cs_HazardSequence l < cp_HazardSequence cp))"
proof -
  have "list_all ctl.appends (map sd_step calls)" by (simp add: list_all_iff step_appends)
  note inc = ctl.appended_run_increases [OF this assms]
  then have "distinct (map cp_HazardSequence cps)" by (simp add: strict_sorted_iff)
  then have "distinct cps" by (rule distinct_map [THEN iffD1, THEN conjunct1])
  then show ?thesis using inc by blast
qed

section \<open>An activation\<close>

definition w_sd :: sd_env where
  "w_sd = \<lparr>sd_clk = (\<lambda>p. 1000), sd_wall = (\<lambda>p. 1000), sd_quote = (\<lambda>s. s), sd_ul = (\<lambda>s. s), sd_fold = (\<lambda>a b. a = b),
     sd_verify = (\<lambda>pk sg m. Ok (pk = ''pk'' \<and> sg = ''sg'')), sd_cp_jcs = (\<lambda>c. Ok []), sd_id_jcs = (\<lambda>a b c d. Ok []),
     sd_receipt_jcs = (\<lambda>r. Ok []), sd_sha = (\<lambda>b. replicate 32 0),
     sd_sink = (\<lambda>e. Ok \<lparr>er_ProofGraphRef = ''p'', er_EvidencePackRef = ''e''\<rparr>)\<rparr>"

definition w_controller :: Controller where
  "w_controller = NewController None 2 0 True False False True 0"

definition w_approval :: "string \<Rightarrow> HardwareApproval" where
  "w_approval who = \<lparr>ha_SignerID = who, ha_Role = ''officer'', ha_DeviceID = who, ha_AuthenticatorAAGUID = [], ha_AssertionHash = ''h'',
     ha_AssertionSignature = ''sg'', ha_SignedAt = 900, ha_RevokedAtEpoch = 0\<rparr>"

definition w_enrolled :: "string \<Rightarrow> ThresholdSignature" where
  "w_enrolled who = \<lparr>th_SignerID = who, th_Role = ''officer'', th_DeviceID = who, th_KeyID = ''k'', th_PublicKey = ''pk'', th_Scheme = [],
     th_Signature = ''sg'', th_RevokedAtEpoch = 0\<rparr>"

definition w_ceremony :: HardwareCeremonyTranscript where
  "w_ceremony = \<lparr>hw_CeremonyID = ''c'', hw_RequiredQuorum = 0, hw_EnrolledSignerCount = 3, hw_Approvals = [w_approval ''a'', w_approval ''b''],
     hw_StartedAt = 800, hw_ExpiresAt = 2000, hw_VetoUntil = 0, hw_TranscriptHash = ''t''\<rparr>"

definition w_capsule :: EmergencyCapsule where
  "w_capsule = \<lparr>ca_CapsuleID = ''cap'', ca_Version = 1, ca_ApertureID = ''ap'', ca_HazardCode = ''API_ROT'', ca_State = ''degraded_narrowing'',
     ca_OrgGenomeHash = [], ca_PolicyEpoch = 4, ca_PolicyHash = [], ca_P0CeilingsHash = [], ca_P1BundleHash = [], ca_CPIHash = [],
     ca_ProviderRegistryHash = [], ca_CredentialRegistryHash = [], ca_VerifierProfileHash = [], ca_PredecessorHash = [],
     ca_SubsetProofHash = ''s'', ca_SubsetProofKind = ''k'', ca_AllowedActions = [''RESTART''], ca_AllowedConnectors = [], ca_TTLSeconds = 60,
     ca_NotBefore = 0, ca_ExpiresAt = 5000, ca_Signatures = [w_enrolled ''a''], ca_Ceremony = w_ceremony,
     ca_Delegation = \<lparr>ed_SessionID = ''s'', ed_HumanSubjectID = ''h'', ed_AuthorizedResources = [], ed_Scope = [], ed_MaxHops = 0,
        ed_NotBefore = 0, ed_ExpiresAt = 5000, ed_Hops = [], ed_CompletionReceiptRef = []\<rparr>,
     ca_Attestation = \<lparr>ar_EnvelopeID = ''e'', ar_ProfileID = [], ar_Subject = [], ar_Platform = [], ar_MeasurementHash = [], ar_Nonce = [],
        ar_TrustTier = ''hardware'', ar_PolicyHash = [], ar_Synthetic = False, ar_IssuedAt = 0, ar_ExpiresAt = 5000, ar_Signature = ''s''\<rparr>,
     ca_Transparency = \<lparr>ta_Backend = [], ta_LogID = [], ta_InclusionProofHash = [], ta_CheckpointHash = [], ta_Deferred = False, ta_DeferredUntil = 0\<rparr>\<rparr>"

definition w_checkpoint :: ContinuityCheckpoint where
  "w_checkpoint = \<lparr>cp_CheckpointID = ''cp'', cp_OrgGenomeHash = [], cp_PolicyHash = [], cp_PolicyEpoch = 4, cp_HazardSequence = 7,
     cp_LamportClock = 1, cp_DeadManWindowID = [], cp_DeadManActive = True, cp_LatestAcceptedCheckpointHash = [], cp_PreviousCheckpointHash = [],
     cp_Nonce = ''n'', cp_AttestedTime = 900, cp_ExpiresAt = 0, cp_Signature = []\<rparr>"

definition w_expectation :: ActivationExpectation where
  "w_expectation = \<lparr>xp_Continuity = \<lparr>xc_PolicyEpoch = 0, xc_PolicyHash = [], xc_OrgGenomeHash = [], xc_MinHazardSequence = 0,
        xc_LatestAcceptedCheckpointHash = [], xc_RequireDeadManActive = False, xc_Now = 0, xc_MaxClockSkew = 0\<rparr>,
     xp_Capsule = \<lparr>xk_HazardCode = [], xk_State = [], xk_OrgGenomeHash = [], xk_PolicyEpoch = 0, xk_PolicyHash = [], xk_P0CeilingsHash = [],
        xk_P1BundleHash = [], xk_CPIHash = [], xk_ProviderRegistryHash = [], xk_CredentialRegistryHash = [], xk_VerifierProfileHash = [],
        xk_PreviousCapsuleHash = [], xk_Now = 0, xk_MinTTL = 0, xk_MaxTTL = 0, xk_RequireTransparency = False\<rparr>,
     xp_Ceremony = \<lparr>xy_AuthorizedSigners = [(''a'', w_enrolled ''a''), (''b'', w_enrolled ''b'')], xy_RequiredQuorum = 0, xy_PolicyEpoch = 0,
        xy_Now = 0, xy_RequireDistinctRoles = False, xy_RequireHardwareBound = False\<rparr>,
     xp_Attestation = \<lparr>xa_ProfileID = [], xa_PolicyHash = [], xa_Nonce = [], xa_MeasurementHash = [], xa_Now = 0\<rparr>, xp_Now = 0\<rparr>"

definition w_gate_request :: GateRequest where
  "w_gate_request = \<lparr>gq_Signal = zero_signal\<lparr>sg_HazardCode := ''API_ROT'', sg_ActiveClock := True\<rparr>, gq_Checkpoint = w_checkpoint,
     gq_Capsule = Some w_capsule, gq_DevFallbackPosture = \<lparr>df_AuditMode = False, df_MockAttester = False, df_SyntheticNitro = False,
        df_SoftwareHSM = False, df_DevBearerAuth = False, df_EnvCredentialFallback = False, df_UnsignedMutableOverlay = False\<rparr>,
     gq_Expectation = w_expectation, gq_Intent = None, gq_DecisionID = [], gq_EffectID = [], gq_EffectType = [], gq_Action = ''RESTART'',
     gq_ToolName = [], gq_ConnectorID = [], gq_InspectionOnly = False\<rparr>"

definition w_sd_state :: sd_state where
  "w_sd_state = \<lparr>st_store = NewMemoryContinuityStore, st_events = []\<rparr>"

lemmas w_sd_defs = w_sd_def w_controller_def NewController_def w_approval_def w_enrolled_def w_ceremony_def w_capsule_def w_checkpoint_def
  w_expectation_def w_gate_request_def

lemma w_trimmed:
  "TrimSpace ''a'' = ''a''" "TrimSpace ''b'' = ''b''" "TrimSpace ''h'' = ''h''" "TrimSpace ''t'' = ''t''" "TrimSpace ''pk'' = ''pk''" "TrimSpace ''sg'' = ''sg''"
  "TrimSpace ''officer'' = ''officer''" "TrimSpace ''RESTART'' = ''RESTART''" "TrimSpace ''cp'' = ''cp''" "TrimSpace ''n'' = ''n''" "TrimSpace ''cap'' = ''cap''"
  "TrimSpace ''ap'' = ''ap''" "TrimSpace ''s'' = ''s''" "TrimSpace ''k'' = ''k''" "TrimSpace ''c'' = ''c''" "TrimSpace ''e'' = ''e''" "TrimSpace ''hardware'' = ''hardware''"
  "TrimSpace ''API_ROT'' = ''API_ROT''"
  by (simp_all add: TrimSpace_visible visible_def)

lemmas w_eval = w_sd_defs w_trimmed blank_def or_wall_def defaultTime_def defaultExpectation_def Let_def

lemma w_ceremony_ok: "ValidateHardwareCeremony w_sd w_ceremony (default_ceremony w_controller 1000 w_capsule (xp_Ceremony w_expectation)) = Ok ()"
  by (simp add: ValidateHardwareCeremony_def required_quorum_def default_ceremony_def check_authorized_def verifyHardwareApproval_def approval_signature_def w_eval)

lemma w_checks: "activation_checks w_sd 1000 w_gate_request w_capsule (defaultExpectation w_sd w_controller w_gate_request w_capsule NewMemoryContinuityStore) = Ok ()"
proof -
  let ?x = "defaultExpectation w_sd w_controller w_gate_request w_capsule NewMemoryContinuityStore"
  have "ValidateDevFallbackPosture (gq_DevFallbackPosture w_gate_request) = Ok ()" by (simp add: ValidateDevFallbackPosture_def w_gate_request_def)
  moreover have "ValidateContinuity w_sd (gq_Checkpoint w_gate_request) (xp_Continuity ?x) = Ok ()"
    by (simp add: ValidateContinuity_def default_continuity_def Latest_def NewMemoryContinuityStore_def minute_def w_eval)
  moreover have "ValidateEmergencyCapsule w_sd w_capsule (xp_Capsule ?x) = Ok ()"
    by (simp add: ValidateEmergencyCapsule_def capsule_binding_def capsule_window_def default_capsule_def SafeDepDegradedNarrowing_def zero_signal_def w_eval)
  moreover have "ValidateHardwareCeremony w_sd (ca_Ceremony w_capsule) (xp_Ceremony ?x) = Ok ()"
    using w_ceremony_ok by (simp add: defaultExpectation_def Let_def w_sd_def w_capsule_def w_gate_request_def)
  moreover have "ValidateEmergencyDelegation w_sd (ca_Delegation w_capsule) 1000 = Ok ()"
    by (simp add: ValidateEmergencyDelegation_def w_eval)
  moreover have "ValidateAttestationResult w_sd (ca_Attestation w_capsule) (xp_Attestation ?x) = Ok ()"
    by (simp add: ValidateAttestationResult_def default_attestation_def EqualFold_def is_ascii_def ascii_lower_def w_eval)
  moreover have "validateCapsuleScope w_sd w_capsule w_gate_request = Ok ()"
    by (simp add: validateCapsuleScope_def scope_action_def scope_connector_def containsString_def EqualFold_def w_eval)
  ultimately show ?thesis by (simp add: activation_checks_def)
qed

lemma w_activation:
  "\<exists>s' r rc. Gate w_sd None w_controller w_gate_request w_sd_state = (s', Ok r) \<and> gt_DispatchAllowed r \<and> gt_ActivationReceipt r = Some rc"
proof -
  have st: "st_store w_sd_state = NewMemoryContinuityStore" by (simp add: w_sd_state_def)
  have ap: "\<exists>m st. AppendCheckpoint w_sd w_checkpoint NewMemoryContinuityStore = (m, Ok st)"
    by (simp add: AppendCheckpoint_def append_refused_def Latest_def NewMemoryContinuityStore_def w_checkpoint_def CheckpointHash_def w_sd_def Let_def)
  have q: "gq_Capsule w_gate_request = Some w_capsule" "gq_Checkpoint w_gate_request = w_checkpoint" "sd_clk w_sd p = 1000" "ct_signer w_controller = None"
    "sd_sink w_sd e = Ok \<lparr>er_ProofGraphRef = ''p'', er_EvidencePackRef = ''e''\<rparr>" for p e
    by (simp_all add: w_sd_defs)
  have act: "\<exists>s2 rc. activate w_sd w_controller (fill_connector w_gate_request) cl s1 = (s2, Ok rc)" if "st_store s1 = NewMemoryContinuityStore" for s1 cl
  proof -
    have "rc_ActivationID (activation_receipt w_sd 1000 (fill_connector w_gate_request) w_capsule cl st) \<noteq> []" for st
      by (simp add: activation_receipt_def activationID_def w_sd_def q)
    then show ?thesis using ap w_checks that
      by (auto simp: activate_def q record_event_def sign_receipt_def StoreActivation_def Let_def)
  qed
  obtain s' res where g: "Gate w_sd None w_controller w_gate_request w_sd_state = (s', res)" by fastforce
  have ne: "\<not> Signal_Empty (gq_Signal w_gate_request)" by (simp add: Signal_Empty_def w_eval)
  have hz: "sg_HazardCode (gq_Signal w_gate_request) \<in> set narrowing_hazards" "sg_ActiveClock (gq_Signal w_gate_request)"
    by (simp_all add: w_gate_request_def narrowing_hazards_def)
  obtain s1 cl where cl: "Classify w_sd (gq_Signal (fill_connector w_gate_request)) w_sd_state = (s1, cl)" by fastforce
  have s1: "st_store s1 = NewMemoryContinuityStore" using store_frame(2) [of w_sd "gq_Signal (fill_connector w_gate_request)" w_sd_state] by (simp add: cl st)
  have "hc_State cl = SafeDepDegradedNarrowing" "hc_ActivationAllowed cl"
    using classify_class [of w_sd "gq_Signal (fill_connector w_gate_request)" w_sd_state] hz hazards_disjoint by (auto simp: cl)
  then show ?thesis using act [OF s1, of cl] ne by (auto simp: Gate_def cl Let_def)
qed


theorem gate_dispatch_sound_witness:
  "\<exists>s' r rc. Gate w_sd None w_controller w_gate_request w_sd_state = (s', Ok r) \<and> gt_DispatchAllowed r \<and>
     GetActivation (rc_ActivationID rc) (st_store s') = Some rc \<and> rc_CapsuleID rc = ''cap''"
proof -
  obtain s' r rc where g: "Gate w_sd None w_controller w_gate_request w_sd_state = (s', Ok r)" "gt_DispatchAllowed r" "gt_ActivationReceipt r = Some rc"
    using w_activation by blast
  have "\<not> Signal_Empty (gq_Signal w_gate_request)" "gq_Capsule w_gate_request = Some w_capsule" "ca_CapsuleID w_capsule = ''cap''"
    "sg_HazardCode (gq_Signal w_gate_request) \<notin> set readonly_hazards"
    by (simp_all add: Signal_Empty_def w_eval readonly_hazards_def)
  then show ?thesis using gate_dispatch_sound [OF g(1,2)] g by auto
qed

theorem activations_advance_witness:
  "\<exists>s' cps. run_steps (map sd_step [CallGate w_sd None w_controller w_gate_request, CallGate w_sd None w_controller w_gate_request]) w_sd_state = (s', cps) \<and>
     cps = [w_checkpoint]"
proof -
  obtain s1 r rc where g: "Gate w_sd None w_controller w_gate_request w_sd_state = (s1, Ok r)" "gt_ActivationReceipt r = Some rc" using w_activation by blast
  let ?calls = "[CallGate w_sd None w_controller w_gate_request, CallGate w_sd None w_controller w_gate_request]"
  obtain s' cps where run: "run_steps (map sd_step ?calls) w_sd_state = (s', cps)" by fastforce
  have cp: "gq_Checkpoint w_gate_request = w_checkpoint" by (simp add: w_gate_request_def)
  have "cps = [w_checkpoint] \<or> cps = [w_checkpoint, w_checkpoint]"
    using run g cp by (auto split: prod.splits sum.splits if_splits)
  moreover have "distinct cps" using activations_advance [OF run] by blast
  ultimately show ?thesis using run by auto
qed

section \<open>Two observations\<close>

text \<open>The inspection test looks for its words inside the action's name, so an action that changes state can pass as an inspection.\<close>

lemma inspection_by_substring: "IsInspectionAction ul ''DELETE_THREAD'' []"
proof -
  have "TrimSpace ''DELETE_THREAD'' = ''DELETE_THREAD''" by (simp add: TrimSpace_visible visible_def)
  moreover have "map ascii_lower ''DELETE_THREAD'' = ''delete_thread''" "is_ascii ''DELETE_THREAD''" by code_simp+
  moreover have "Contains_str ''delete_thread'' ''read''" by simp
  ultimately show ?thesis by (simp add: IsInspectionAction_def inspection_words_def ToLower_def)
qed

text \<open>The life time in seconds wraps when it is converted to nanoseconds, so a huge one passes the configured maximum; and it does not bound the expiry.\<close>

lemma capsule_ttl_wraps:
  "capsule_window 1000 (w_capsule\<lparr>ca_TTLSeconds := 9223372037, ca_ExpiresAt := 9223372036854775807\<rparr>) ((xp_Capsule w_expectation)\<lparr>xk_MaxTTL := minute\<rparr>) = Ok ()"
  by (simp add: capsule_window_def wrap64_def second_def minute_def w_eval)

end
