(* ===== verification/Session_Risk.thy ===== *)
theory Session_Risk
  imports Gates
begin

text \<open>
  Session trajectory risk, \<^verbatim>\<open>core/pkg/guardian/session_risk_memory.go\<close>. A \<^verbatim>\<open>float64\<close> is the rational number it
  stands for and every operation rounds its exact result with the parameter \<open>fl\<close>; what the bounds rely on of
  IEEE 754 rounding is \<open>rounding\<close>. NaN and infinities do not occur for the finite configuration values assumed.
  Further parameters: the Unicode case tables, \<^verbatim>\<open>json.Marshal\<close> of a context and of a centroid, SHA-256.
\<close>

section \<open>State\<close>

record sessionRiskState =
  rs_centroid :: "rat \<times> rat \<times> rat"
  rs_score :: rat
  rs_count :: int
  rs_updated :: gotime

record sessionRiskSignal =
  sig_exfiltration :: rat
  sig_privilege :: rat
  sig_compliance :: rat
  sig_risk :: rat

record SessionRiskMemory =
  rm_sessions :: "(string, sessionRiskState) gomap"
  rm_alpha :: rat
  rm_baseline :: rat
  rm_threshold :: rat
  rm_window :: int

record risk_env =
  rk_fl :: "rat \<Rightarrow> rat"
  rk_ul :: "string \<Rightarrow> string"
  rk_uu :: "string \<Rightarrow> string"
  rk_json :: "(string \<times> gval) list \<Rightarrow> string option"
  rk_centroid_json :: "string \<Rightarrow> rat list \<Rightarrow> int \<Rightarrow> byte list"
  rk_sha :: "byte list \<Rightarrow> byte list"
  rk_clk :: "string \<Rightarrow> gotime"

definition zero_risk :: sessionRiskState where
  "zero_risk = \<lparr>rs_centroid = (0, 0, 0), rs_score = 0, rs_count = 0, rs_updated = 0\<rparr>"

section \<open>Numbers\<close>

definition clampRisk :: "rat \<Rightarrow> rat" where
  "clampRisk v = (if v < 0 then 0 else if v > 1 then 1 else v)"

text \<open>\<^verbatim>\<open>math.Round\<close> rounds half away from zero.\<close>

definition go_round :: "rat \<Rightarrow> rat" where
  "go_round x = (if x < 0 then - of_int \<lfloor>1 / 2 - x\<rfloor> else of_int \<lfloor>x + 1 / 2\<rfloor>)"

definition roundRisk :: "(rat \<Rightarrow> rat) \<Rightarrow> rat \<Rightarrow> rat" where
  "roundRisk f v = f (go_round (f (v * 10000)) / 10000)"

definition default_window :: int where "default_window = 8"

text \<open>The constructor after its options set \<open>alpha\<close>, \<open>threshold\<close> and \<open>window\<close>; the baseline has no option.\<close>

definition NewSessionRiskMemory :: "(rat \<Rightarrow> rat) \<Rightarrow> rat \<Rightarrow> rat \<Rightarrow> int \<Rightarrow> SessionRiskMemory" where
  "NewSessionRiskMemory f alpha threshold wd =
     \<lparr>rm_sessions = [], rm_alpha = clampRisk alpha, rm_baseline = clampRisk (f (8 / 100)), rm_threshold = clampRisk threshold,
      rm_window = (if wd < 1 then default_window else wd)\<rparr>"

section \<open>Signals\<close>

definition stableRiskContextText :: "risk_env \<Rightarrow> gctx \<Rightarrow> string" where
  "stableRiskContextText rk ctx = (case ctx of None \<Rightarrow> [] | Some m \<Rightarrow> if m = [] then [] else or_empty (rk_json rk m))"

fun keyword_loop :: "(rat \<Rightarrow> rat) \<Rightarrow> string \<Rightarrow> rat \<Rightarrow> string list \<Rightarrow> rat" where
  "keyword_loop f txt score [] = score"
| "keyword_loop f txt score (k # ks) = keyword_loop f txt (if Contains_str txt k then f (score + f (22 / 100)) else score) ks"

definition keywordScore :: "(rat \<Rightarrow> rat) \<Rightarrow> string \<Rightarrow> string list \<Rightarrow> rat" where
  "keywordScore f txt ks = clampRisk (keyword_loop f txt 0 ks)"

definition exfiltration_words :: "string list" where
  "exfiltration_words = [''secret'', ''credential'', ''token'', ''api_key'', ''apikey'', ''pii'', ''customer'', ''export'', ''upload'', ''external'',
     ''webhook'', ''exfil'', ''/etc/passwd'', ''/etc/shadow'', ''database'', ''dump'', ''archive'']"

definition privilege_words :: "string list" where
  "privilege_words = [''sudo'', ''admin'', ''root'', ''privilege'', ''permission'', ''merge'', ''deploy'', ''publish'', ''delete'', ''write'', ''iam'',
     ''role'', ''policy'', ''shell'', ''exec'']"

definition compliance_words :: "string list" where
  "compliance_words = [''hipaa'', ''gdpr'', ''sox'', ''compliance'', ''audit'', ''regulated'', ''customer_data'', ''phi'', ''pci'', ''retention'']"

definition signalFromSessionAction :: "risk_env \<Rightarrow> SessionAction \<Rightarrow> gctx \<Rightarrow> sessionRiskSignal" where
  "signalFromSessionAction rk a ctx =
     (let f = rk_fl rk;
          txt = ToLower (rk_ul rk) (sa_Action a @ '' '' @ sa_Resource a @ '' '' @ stableRiskContextText rk ctx);
          e = keywordScore f txt exfiltration_words; p = keywordScore f txt privilege_words; c = keywordScore f txt compliance_words;
          risk = f (f (f (f (8 / 100) + f (f (60 / 100) * e)) + f (f (38 / 100) * p)) + f (f (26 / 100) * c));
          verdict = ToUpper (rk_uu rk) (sa_Verdict a);
          risk = (if verdict = ''DENY'' then f (risk + f (18 / 100)) else if verdict = ''ESCALATE'' then f (risk + f (12 / 100)) else risk);
          risk = (if ToUpper (rk_uu rk) (sa_Action a) \<in> {''EXECUTE_TOOL'', ''WRITE'', ''DELETE'', ''PUBLISH'', ''DEPLOY''} then f (risk + f (5 / 100)) else risk)
      in \<lparr>sig_exfiltration = e, sig_privilege = p, sig_compliance = c, sig_risk = clampRisk risk\<rparr>)"

section \<open>Observation and evaluation\<close>

definition mix :: "(rat \<Rightarrow> rat) \<Rightarrow> rat \<Rightarrow> rat \<Rightarrow> rat \<Rightarrow> rat" where
  "mix f alpha new old = f (f (alpha * new) + f (f (1 - alpha) * old))"

definition observe :: "risk_env \<Rightarrow> SessionRiskMemory \<Rightarrow> gotime \<Rightarrow> sessionRiskState \<Rightarrow> sessionRiskSignal \<Rightarrow> sessionRiskState" where
  "observe rk m now st sg =
     (let f = rk_fl rk;
          adjusted = clampRisk (f (sig_risk sg - rm_baseline m));
          (c1, c2, c3) = rs_centroid st;
          centroid = (if rs_count st = 0 then (sig_exfiltration sg, sig_privilege sg, sig_compliance sg)
            else (mix f (rm_alpha m) (sig_exfiltration sg) c1, mix f (rm_alpha m) (sig_privilege sg) c2, mix f (rm_alpha m) (sig_compliance sg) c3));
          score = (if rs_count st = 0 then adjusted else mix f (rm_alpha m) adjusted (rs_score st));
          count = rs_count st + 1
      in \<lparr>rs_centroid = centroid, rs_score = roundRisk f score, rs_count = (if count > rm_window m then rm_window m else count), rs_updated = now\<rparr>)"

definition trimSessionRiskHistory :: "'a list \<Rightarrow> int \<Rightarrow> 'a list" where
  "trimSessionRiskHistory hist mx =
     (if mx \<le> 0 \<or> int (length hist) \<le> mx then hist else drop (length hist - nat mx) hist)"

definition hashSessionCentroid :: "risk_env \<Rightarrow> string \<Rightarrow> rat \<times> rat \<times> rat \<Rightarrow> int \<Rightarrow> string" where
  "hashSessionCentroid rk sid c wd =
     (case c of (c1, c2, c3) \<Rightarrow> ''sha256:'' @ hex_EncodeToString (rk_sha rk (rk_centroid_json rk sid (map (roundRisk (rk_fl rk)) [c1, c2, c3]) wd)))"

definition risk_snapshot :: "risk_env \<Rightarrow> string \<Rightarrow> int \<Rightarrow> sessionRiskState \<Rightarrow> SessionRiskSnapshot" where
  "risk_snapshot rk sid wd st =
     \<lparr>sr_SessionID = sid, sr_TrajectoryRiskScore = roundRisk (rk_fl rk) (rs_score st),
      sr_SessionCentroidHash = hashSessionCentroid rk sid (rs_centroid st) (min (rs_count st) wd),
      sr_RiskAccumulationWindow = min (rs_count st) wd, sr_UpdatedAt = rs_updated st\<rparr>"

definition risk_session :: "string \<Rightarrow> string" where
  "risk_session sid = (if blank sid then ''anonymous'' else TrimSpace sid)"

text \<open>The state an evaluation starts from: a given history replaces what is remembered.\<close>

definition risk_start :: "risk_env \<Rightarrow> SessionRiskMemory \<Rightarrow> string \<Rightarrow> SessionAction list \<Rightarrow> sessionRiskState" where
  "risk_start rk m sid hist =
     (let st = (case map_of (rm_sessions m) sid of None \<Rightarrow> zero_risk | Some st \<Rightarrow> st) in
      if hist \<noteq> [] \<or> rs_count st = 0 then
        fold (\<lambda>a st. observe rk m (rk_clk rk ''history'') st (signalFromSessionAction rk a None)) (trimSessionRiskHistory hist (rm_window m - 1)) zero_risk
      else st)"

definition unix_milli :: "gotime \<Rightarrow> int" where
  "unix_milli t = (t - 62135596800000000000) div 1000000"

definition Risk_Evaluate ::
  "risk_env \<Rightarrow> string \<Rightarrow> SessionAction list \<Rightarrow> DecisionRequest \<Rightarrow> SessionRiskMemory \<Rightarrow> SessionRiskMemory \<times> SessionRiskSnapshot" where
  "Risk_Evaluate rk sid0 hist req m =
     (let sid = risk_session sid0;
          act = \<lparr>sa_Action = r_Action req, sa_Resource = r_Resource req, sa_Verdict = ''PENDING'', sa_Timestamp = unix_milli (rk_clk rk ''stamp'')\<rparr>;
          st = observe rk m (rk_clk rk ''current'') (risk_start rk m sid hist) (signalFromSessionAction rk act (r_Context req))
      in (m\<lparr>rm_sessions := AList.update sid st (rm_sessions m)\<rparr>, risk_snapshot rk sid (rm_window m) st))"

definition ShouldDeny :: "SessionRiskMemory \<Rightarrow> SessionRiskSnapshot \<Rightarrow> bool" where
  "ShouldDeny m sn = (sr_RiskAccumulationWindow sn \<ge> 2 \<and> sr_TrajectoryRiskScore sn \<ge> rm_threshold m)"

definition sessionRiskSessionID :: "DecisionRequest \<Rightarrow> string" where
  "sessionRiskSessionID req =
     (case first_some (\<lambda>k. case ctx_str (r_Context req) k of Some sid \<Rightarrow> if blank sid then None else Some sid | None \<Rightarrow> None)
        [''session_id'', ''delegation_session_id''] of
        Some sid \<Rightarrow> sid | None \<Rightarrow> r_Principal req)"

definition attachSessionRiskContext :: "gctx \<Rightarrow> SessionRiskSnapshot \<Rightarrow> gctx" where
  "attachSessionRiskContext ctx sn =
     ctx_put (ctx_put (ctx_put ctx ''trajectory_risk_score'' (GFloat (sr_TrajectoryRiskScore sn)))
       ''session_centroid_hash'' (GStr (sr_SessionCentroidHash sn))) ''risk_accumulation_window'' (GInt (sr_RiskAccumulationWindow sn))"

section \<open>Rounding\<close>

text \<open>
  What is used of rounding to nearest in binary64: it is monotone, keeps the integers up to 10000, and moves a
  number of \<open>[0, 2]\<close> by at most \<open>2\<^sup>-\<^sup>5\<^sup>3\<close> and one of \<open>[0, 16384]\<close> by at most \<open>2\<^sup>-\<^sup>4\<^sup>0\<close>.
\<close>

definition rounding :: "(rat \<Rightarrow> rat) \<Rightarrow> bool" where
  "rounding f \<longleftrightarrow> (\<forall>x y. x \<le> y \<longrightarrow> f x \<le> f y) \<and> (\<forall>n. 0 \<le> n \<and> n \<le> 10000 \<longrightarrow> f (of_int n) = of_int n) \<and>
     (\<forall>x. 0 \<le> x \<and> x \<le> 2 \<longrightarrow> \<bar>f x - x\<bar> \<le> 1 / 2 ^ 53) \<and> (\<forall>x. 0 \<le> x \<and> x \<le> 16384 \<longrightarrow> \<bar>f x - x\<bar> \<le> 1 / 2 ^ 40)"

lemma clamp_range [simp]: "0 \<le> clampRisk v" "clampRisk v \<le> 1"
  by (simp_all add: clampRisk_def)

lemma rounding_mono: "rounding f \<Longrightarrow> x \<le> y \<Longrightarrow> f x \<le> f y"
  by (simp add: rounding_def)

lemma rounding_unit: "rounding f \<Longrightarrow> 0 \<le> x \<Longrightarrow> x \<le> 2 \<Longrightarrow> x - 1 / 2 ^ 53 \<le> f x \<and> f x \<le> x + 1 / 2 ^ 53"
  unfolding rounding_def by (metis abs_diff_le_iff add.commute diff_le_eq)

lemma rounding_large: "rounding f \<Longrightarrow> 0 \<le> x \<Longrightarrow> x \<le> 16384 \<Longrightarrow> x - 1 / 2 ^ 40 \<le> f x \<and> f x \<le> x + 1 / 2 ^ 40"
  unfolding rounding_def by (metis abs_diff_le_iff add.commute diff_le_eq)

lemma rounding_01 [simp]: assumes "rounding f" shows "f 0 = 0" "f 1 = 1"
proof -
  have "f (of_int n) = of_int n" if "0 \<le> n" "n \<le> 10000" for n using assms that by (simp add: rounding_def)
  from this [of 0] this [of 1] show "f 0 = 0" "f 1 = 1" by simp_all
qed

lemma rounding_nonneg: "rounding f \<Longrightarrow> 0 \<le> x \<Longrightarrow> 0 \<le> f x"
  using rounding_mono [of f 0 x] by simp

text \<open>Rounding to four decimals stays on or above a grid point it starts slightly below, and on or below one.\<close>

lemma roundRisk_grid:
  assumes f: "rounding f" and k: "0 \<le> k" "k \<le> (10000::int)" and v: "0 \<le> v" "of_int k / 10000 - 1 / 2 ^ 45 \<le> v" "v \<le> 1 + 1 / 2 ^ 45"
  shows "\<exists>j. k \<le> j \<and> j \<le> 10000 \<and> roundRisk f v = f (of_int j / 10000)"
proof -
  have "v * 10000 \<le> 16384" using v(3) by simp
  then have y: "v * 10000 - 1 / 2 ^ 40 \<le> f (v * 10000)" "f (v * 10000) \<le> v * 10000 + 1 / 2 ^ 40" "0 \<le> f (v * 10000)"
    using rounding_large [OF f, of "v * 10000"] rounding_nonneg [OF f, of "v * 10000"] v(1) by simp_all
  have "of_int k \<le> f (v * 10000) + 1 / 2" using y(1) v(2) by simp
  then have lo: "k \<le> \<lfloor>f (v * 10000) + 1 / 2\<rfloor>" by (simp add: le_floor_iff)
  have "f (v * 10000) + 1 / 2 < of_int (10000 + 1)" using y(2) v(3) by simp
  then have "\<lfloor>f (v * 10000) + 1 / 2\<rfloor> \<le> 10000" by linarith
  then show ?thesis using lo y(3) unfolding roundRisk_def go_round_def by auto
qed

lemma grid_range: "rounding f \<Longrightarrow> 0 \<le> j \<Longrightarrow> j \<le> 10000 \<Longrightarrow> 0 \<le> f (of_int j / 10000) \<and> f (of_int j / 10000) \<le> 1"
  using rounding_mono [of f "of_int j / 10000" 1] rounding_nonneg [of f "of_int j / 10000"] by simp

lemma mix_range:
  assumes f: "rounding f" and al: "0 \<le> al" "al \<le> 1" and a: "k \<le> a" "0 \<le> a" "a \<le> 1" and s: "k - 1 / 2 ^ 53 \<le> s" "0 \<le> s" "s \<le> 1" and k: "0 \<le> k"
  shows "0 \<le> mix f al a s \<and> k - 1 / 2 ^ 45 \<le> mix f al a s \<and> mix f al a s \<le> 1 + 1 / 2 ^ 45"
proof -
  let ?e = "1 / 2 ^ 53 :: rat"
  have p: "0 \<le> al * a" "al * a \<le> al" "al * k \<le> al * a"
    using al a k by (simp_all add: mult_left_le mult_left_mono)
  have fa: "al * k - ?e \<le> f (al * a)" "f (al * a) \<le> al + ?e" "0 \<le> f (al * a)"
    using rounding_unit [OF f, of "al * a"] rounding_nonneg [OF f p(1)] p al by linarith+
  have b: "1 - al - ?e \<le> f (1 - al)" "f (1 - al) \<le> 1 - al + ?e" "0 \<le> f (1 - al)"
    using rounding_unit [OF f, of "1 - al"] rounding_nonneg [OF f, of "1 - al"] al by linarith+
  have q: "0 \<le> f (1 - al) * s" "f (1 - al) * s \<le> f (1 - al)"
    using b(3) s by (simp_all add: mult_left_le)
  have "(1 - al) * (k - ?e) \<le> (1 - al) * s" "(1 - al - ?e) * s \<le> f (1 - al) * s"
    using al s b(1) by (simp_all add: mult_left_mono mult_right_mono)
  moreover have "(1 - al) * (k - ?e) \<ge> k - al * k - ?e" "(1 - al - ?e) * s \<ge> (1 - al) * s - ?e"
    using al s by (simp_all add: algebra_simps)
  ultimately have q': "k - al * k - 2 * ?e \<le> f (1 - al) * s" by linarith
  have two: "f (1 - al) * s \<le> 2" using q(2) b(2) al(1) by simp
  have fs: "k - al * k - 3 * ?e \<le> f (f (1 - al) * s)" "f (f (1 - al) * s) \<le> 1 - al + 2 * ?e" "0 \<le> f (f (1 - al) * s)"
    using rounding_unit [OF f q(1) two] rounding_nonneg [OF f q(1)] q q' b(2) al by linarith+
  show ?thesis unfolding mix_def
    using rounding_unit [OF f, of "f (al * a) + f (f (1 - al) * s)"] rounding_nonneg [OF f, of "f (al * a) + f (f (1 - al) * s)"] fa fs by simp
qed

section \<open>Scores stay in range\<close>

text \<open>The risk of a signal above the baseline.\<close>

definition adjusted_risk :: "(rat \<Rightarrow> rat) \<Rightarrow> SessionRiskMemory \<Rightarrow> sessionRiskSignal \<Rightarrow> rat" where
  "adjusted_risk f m sg = clampRisk (f (sig_risk sg - rm_baseline m))"

definition risk_config :: "SessionRiskMemory \<Rightarrow> bool" where
  "risk_config m \<longleftrightarrow> 0 \<le> rm_alpha m \<and> rm_alpha m \<le> 1 \<and> 1 \<le> rm_window m"

text \<open>The state after an observation, with a score on the grid at or above \<open>k\<close>.\<close>

lemma observe_grid:
  assumes "rounding (rk_fl rk)" "risk_config m" "0 \<le> k" "k \<le> 10000" "of_int k / 10000 \<le> adjusted_risk (rk_fl rk) m sg"
    "rs_count st = 0 \<or> of_int k / 10000 - 1 / 2 ^ 53 \<le> rs_score st \<and> 0 \<le> rs_score st \<and> rs_score st \<le> 1" "0 \<le> rs_count st"
  shows "\<exists>j. k \<le> j \<and> j \<le> 10000 \<and> rs_score (observe rk m now st sg) = rk_fl rk (of_int j / 10000)"
    "rs_count (observe rk m now st sg) = min (rs_count st + 1) (rm_window m)"
proof -
  let ?f = "rk_fl rk" and ?a = "adjusted_risk (rk_fl rk) m sg"
  let ?s = "if rs_count st = 0 then ?a else mix ?f (rm_alpha m) ?a (rs_score st)"
  have a: "0 \<le> ?a" "?a \<le> 1" by (simp_all add: adjusted_risk_def)
  have "0 \<le> ?s \<and> of_int k / 10000 - 1 / 2 ^ 45 \<le> ?s \<and> ?s \<le> 1 + 1 / 2 ^ 45"
    using mix_range [OF assms(1), of "rm_alpha m" "of_int k / 10000" ?a "rs_score st"] assms(2-6) a by (auto simp: risk_config_def)
  moreover have "rs_score (observe rk m now st sg) = roundRisk ?f ?s"
    by (simp add: observe_def adjusted_risk_def Let_def split: prod.split)
  ultimately show "\<exists>j. k \<le> j \<and> j \<le> 10000 \<and> rs_score (observe rk m now st sg) = ?f (of_int j / 10000)"
    using roundRisk_grid [OF assms(1,3,4)] by auto
  show "rs_count (observe rk m now st sg) = min (rs_count st + 1) (rm_window m)"
    by (auto simp: observe_def Let_def split: prod.split)
qed

definition risk_state_ok :: "SessionRiskMemory \<Rightarrow> sessionRiskState \<Rightarrow> bool" where
  "risk_state_ok m st \<longleftrightarrow> 0 \<le> rs_score st \<and> rs_score st \<le> 1 \<and> 0 \<le> rs_count st \<and> rs_count st \<le> rm_window m"

definition risk_memory_ok :: "SessionRiskMemory \<Rightarrow> bool" where
  "risk_memory_ok m \<longleftrightarrow> risk_config m \<and> (\<forall>sid st. map_of (rm_sessions m) sid = Some st \<longrightarrow> risk_state_ok m st)"

lemma observe_ok:
  assumes "rounding (rk_fl rk)" "risk_config m" "risk_state_ok m st"
  shows "risk_state_ok m (observe rk m now st sg) \<and> 1 \<le> rs_count (observe rk m now st sg)"
proof -
  have "0 \<le> adjusted_risk (rk_fl rk) m sg" by (simp add: adjusted_risk_def)
  then have "\<exists>j. 0 \<le> j \<and> j \<le> 10000 \<and> rs_score (observe rk m now st sg) = rk_fl rk (of_int j / 10000)"
    "rs_count (observe rk m now st sg) = min (rs_count st + 1) (rm_window m)"
    using observe_grid [OF assms(1,2), of 0 sg st] assms(3) by (simp_all add: risk_state_ok_def)
  then show ?thesis using grid_range [OF assms(1)] assms(2,3) by (auto simp: risk_state_ok_def risk_config_def min_def)
qed

lemma risk_start_ok:
  assumes "rounding (rk_fl rk)" "risk_memory_ok m"
  shows "risk_state_ok m (risk_start rk m sid hist)"
proof -
  have c: "risk_config m" using assms(2) by (simp add: risk_memory_ok_def)
  have z: "risk_state_ok m zero_risk" using c by (simp add: risk_state_ok_def zero_risk_def risk_config_def)
  have "risk_state_ok m st \<Longrightarrow> risk_state_ok m (fold (\<lambda>a st. observe rk m t st (g a)) as st)" for as st g t
    by (induction as arbitrary: st) (simp_all add: observe_ok [OF assms(1) c])
  then show ?thesis using z assms(2) by (auto simp: risk_start_def risk_memory_ok_def Let_def split: option.splits)
qed

lemma evaluate_ok:
  assumes "rounding (rk_fl rk)" "risk_memory_ok m" "Risk_Evaluate rk sid hist req m = (m', sn)"
  shows "risk_memory_ok m' \<and> rm_window m' = rm_window m \<and> 0 \<le> sr_TrajectoryRiskScore sn \<and> sr_TrajectoryRiskScore sn \<le> 1 \<and>
    1 \<le> sr_RiskAccumulationWindow sn \<and> sr_RiskAccumulationWindow sn \<le> rm_window m"
proof -
  have c: "risk_config m" using assms(2) by (simp add: risk_memory_ok_def)
  define st where "st = observe rk m (rk_clk rk ''current'') (risk_start rk m (risk_session sid) hist) (signalFromSessionAction rk
      \<lparr>sa_Action = r_Action req, sa_Resource = r_Resource req, sa_Verdict = ''PENDING'', sa_Timestamp = unix_milli (rk_clk rk ''stamp'')\<rparr> (r_Context req))"
  have st: "risk_state_ok m st" "1 \<le> rs_count st" "m' = m\<lparr>rm_sessions := AList.update (risk_session sid) st (rm_sessions m)\<rparr>"
    "sn = risk_snapshot rk (risk_session sid) (rm_window m) st"
    using assms(3) observe_ok [OF assms(1) c risk_start_ok [OF assms(1,2)]] by (auto simp: Risk_Evaluate_def Let_def st_def)
  obtain j where "0 \<le> j" "j \<le> 10000" "roundRisk (rk_fl rk) (rs_score st) = rk_fl rk (of_int j / 10000)"
    using roundRisk_grid [OF assms(1), of 0 "rs_score st"] st(1) by (auto simp: risk_state_ok_def)
  then have "0 \<le> sr_TrajectoryRiskScore sn \<and> sr_TrajectoryRiskScore sn \<le> 1" using grid_range [OF assms(1)] by (simp add: st(4) risk_snapshot_def)
  moreover have "1 \<le> sr_RiskAccumulationWindow sn \<and> sr_RiskAccumulationWindow sn \<le> rm_window m"
    using st(1,2) c by (auto simp: st(4) risk_snapshot_def risk_state_ok_def risk_config_def)
  moreover have "risk_memory_ok m'" using assms(2) st(1) by (auto simp: st(3) risk_memory_ok_def risk_config_def risk_state_ok_def split: if_splits)
  ultimately show ?thesis by (simp add: st(3))
qed

section \<open>Histories of evaluations\<close>

record risk_call =
  cl_env :: risk_env
  cl_session :: string
  cl_history :: "SessionAction list"
  cl_request :: DecisionRequest

fun risk_run :: "risk_call list \<Rightarrow> SessionRiskMemory \<Rightarrow> SessionRiskMemory \<times> SessionRiskSnapshot list" where
  "risk_run [] m = (m, [])"
| "risk_run (c # cs) m =
     (case Risk_Evaluate (cl_env c) (cl_session c) (cl_history c) (cl_request c) m of
        (m1, sn) \<Rightarrow> (case risk_run cs m1 of (m2, sns) \<Rightarrow> (m2, sn # sns)))"

lemma risk_run_ok:
  "risk_memory_ok m \<Longrightarrow> list_all (\<lambda>c. rounding (rk_fl (cl_env c))) cs \<Longrightarrow> risk_run cs m = (m', sns) \<Longrightarrow>
     list_all (\<lambda>sn. 0 \<le> sr_TrajectoryRiskScore sn \<and> sr_TrajectoryRiskScore sn \<le> 1 \<and>
       1 \<le> sr_RiskAccumulationWindow sn \<and> sr_RiskAccumulationWindow sn \<le> rm_window m) sns"
proof (induction cs arbitrary: m sns)
  case (Cons c cs)
  obtain m1 sn where e: "Risk_Evaluate (cl_env c) (cl_session c) (cl_history c) (cl_request c) m = (m1, sn)" by fastforce
  obtain sns1 where r: "risk_run cs m1 = (m', sns1)" "sns = sn # sns1" using Cons.prems(3) by (auto simp: e split: prod.splits)
  have "rounding (rk_fl (cl_env c))" using Cons.prems(2) by simp
  note ok = evaluate_ok [OF this Cons.prems(1) e]
  show ?case using Cons.IH [of m1 sns1] Cons.prems(2) r ok by simp
qed simp

text \<open>The memory's configuration does not change, and the session's state is the one last written.\<close>

lemma evaluate_writes:
  assumes "Risk_Evaluate rk sid hist req m = (m', sn)"
  shows "\<exists>st sg. st = observe rk m (rk_clk rk ''current'') (risk_start rk m (risk_session sid) hist) sg \<and>
    (\<exists>t. sg = signalFromSessionAction rk \<lparr>sa_Action = r_Action req, sa_Resource = r_Resource req, sa_Verdict = ''PENDING'', sa_Timestamp = t\<rparr> (r_Context req)) \<and>
    m' = m\<lparr>rm_sessions := AList.update (risk_session sid) st (rm_sessions m)\<rparr> \<and> sn = risk_snapshot rk (risk_session sid) (rm_window m) st"
  using assms by (auto simp: Risk_Evaluate_def Let_def)

text \<open>A call whose action is risky at level \<open>k\<close> (in units of 1/10000 above the baseline).\<close>

definition risky_call :: "(rat \<Rightarrow> rat) \<Rightarrow> SessionRiskMemory \<Rightarrow> int \<Rightarrow> string \<Rightarrow> risk_call \<Rightarrow> bool" where
  "risky_call f m k sid c \<longleftrightarrow> rk_fl (cl_env c) = f \<and> cl_session c = sid \<and> cl_history c = [] \<and>
     (\<forall>t. of_int k / 10000 \<le> adjusted_risk f m (signalFromSessionAction (cl_env c)
        \<lparr>sa_Action = r_Action (cl_request c), sa_Resource = r_Resource (cl_request c), sa_Verdict = ''PENDING'', sa_Timestamp = t\<rparr> (r_Context (cl_request c))))"

definition at_risk :: "(rat \<Rightarrow> rat) \<Rightarrow> int \<Rightarrow> sessionRiskState \<Rightarrow> bool" where
  "at_risk f k st \<longleftrightarrow> (\<exists>j. k \<le> j \<and> j \<le> 10000 \<and> rs_score st = f (of_int j / 10000))"

lemma at_risk_score:
  assumes "rounding f" "0 \<le> k" "at_risk f k st"
  shows "of_int k / 10000 - 1 / 2 ^ 53 \<le> rs_score st \<and> 0 \<le> rs_score st \<and> rs_score st \<le> 1"
proof -
  obtain j where j: "k \<le> j" "j \<le> 10000" "rs_score st = f (of_int j / 10000)" using assms(3) by (auto simp: at_risk_def)
  have "of_int k \<le> (of_int j :: rat)" using j(1) by simp
  then show ?thesis using rounding_unit [OF assms(1), of "of_int j / 10000"] grid_range [OF assms(1), of j] j assms(2) by auto
qed

lemma risky_step:
  assumes f: "rounding f" and c: "risky_call f m k sid c" "risk_config m" "0 \<le> k" "k \<le> 10000"
    and e: "Risk_Evaluate (cl_env c) (cl_session c) (cl_history c) (cl_request c) m = (m', sn)"
    and st: "map_of (rm_sessions m) (risk_session sid) = None \<and> n = 0 \<or>
      (\<exists>st. map_of (rm_sessions m) (risk_session sid) = Some st \<and> at_risk f k st \<and> rs_count st = n \<and> 1 \<le> n)"
  shows "\<exists>st'. map_of (rm_sessions m') (risk_session sid) = Some st' \<and> at_risk f k st' \<and> rs_count st' = min (n + 1) (rm_window m) \<and>
    m' = m\<lparr>rm_sessions := rm_sessions m'\<rparr> \<and> sn = risk_snapshot (cl_env c) (risk_session sid) (rm_window m) st'"
proof -
  have fe: "rk_fl (cl_env c) = f" "cl_session c = sid" "cl_history c = []" using c(1) by (simp_all add: risky_call_def)
  obtain st' sg where s: "st' = observe (cl_env c) m (rk_clk (cl_env c) ''current'') (risk_start (cl_env c) m (risk_session sid) []) sg"
    "of_int k / 10000 \<le> adjusted_risk f m sg" "m' = m\<lparr>rm_sessions := AList.update (risk_session sid) st' (rm_sessions m)\<rparr>"
    "sn = risk_snapshot (cl_env c) (risk_session sid) (rm_window m) st'"
    using evaluate_writes [OF e] c(1) unfolding fe by (auto simp: risky_call_def)
  have start: "rs_count (risk_start (cl_env c) m (risk_session sid) []) = n \<and>
      (n = 0 \<or> at_risk f k (risk_start (cl_env c) m (risk_session sid) [])) \<and> 0 \<le> n"
    using st by (auto simp: risk_start_def zero_risk_def trimSessionRiskHistory_def)
  have r: "rounding (rk_fl (cl_env c))" "of_int k / 10000 \<le> adjusted_risk (rk_fl (cl_env c)) m sg" using f s(2) fe(1) by simp_all
  have "rs_count (risk_start (cl_env c) m (risk_session sid) []) = 0 \<or> of_int k / 10000 - 1 / 2 ^ 53 \<le> rs_score (risk_start (cl_env c) m (risk_session sid) []) \<and>
      0 \<le> rs_score (risk_start (cl_env c) m (risk_session sid) []) \<and> rs_score (risk_start (cl_env c) m (risk_session sid) []) \<le> 1"
    using start at_risk_score [OF f c(3)] by blast
  note g = observe_grid [OF r(1) c(2,3,4) r(2) this]
  have "at_risk f k st'" "rs_count st' = min (n + 1) (rm_window m)" using g start by (simp_all add: s(1) at_risk_def fe(1))
  then show ?thesis using s(3,4) by simp
qed

lemma at_risk_denied:
  assumes "rounding f" "0 \<le> k" "k \<le> 10000" "at_risk f k st" "rm_threshold m \<le> f (of_int k / 10000)" "2 \<le> rs_count st" "rs_count st \<le> rm_window m" "rk_fl rk = f"
  shows "ShouldDeny m (risk_snapshot rk sid (rm_window m) st)"
proof -
  obtain j where "k \<le> j" "j \<le> 10000" "roundRisk f (rs_score st) = f (of_int j / 10000)"
    using roundRisk_grid [OF assms(1-3), of "rs_score st"] at_risk_score [OF assms(1,2,4)] by auto
  moreover have "f (of_int k / 10000) \<le> f (of_int j / 10000)" if "k \<le> j" for j using rounding_mono [OF assms(1)] that by simp
  ultimately show ?thesis using assms(5-8) by (auto simp: ShouldDeny_def risk_snapshot_def intro: order_trans)
qed

lemma risky_run:
  assumes "rounding f" "0 \<le> k" "k \<le> 10000"
  shows "risk_config m \<Longrightarrow> 2 \<le> rm_window m \<Longrightarrow> rm_threshold m \<le> f (of_int k / 10000) \<Longrightarrow> list_all (risky_call f m k sid) cs \<Longrightarrow> risk_run cs m = (m', sns) \<Longrightarrow>
     \<exists>st. map_of (rm_sessions m) (risk_session sid) = Some st \<and> at_risk f k st \<and> rs_count st = n \<and> 1 \<le> n \<and> n \<le> rm_window m \<Longrightarrow>
     list_all (ShouldDeny m) sns"
proof (induction cs arbitrary: m n sns)
  case (Cons c cs)
  obtain m1 sn where e: "Risk_Evaluate (cl_env c) (cl_session c) (cl_history c) (cl_request c) m = (m1, sn)" by fastforce
  obtain sns1 where r: "risk_run cs m1 = (m', sns1)" "sns = sn # sns1" using Cons.prems(5) by (auto simp: e split: prod.splits)
  have c: "risky_call f m k sid c" using Cons.prems(4) by simp
  have "map_of (rm_sessions m) (risk_session sid) = None \<and> n = 0 \<or>
      (\<exists>st. map_of (rm_sessions m) (risk_session sid) = Some st \<and> at_risk f k st \<and> rs_count st = n \<and> 1 \<le> n)"
    using Cons.prems(6) by blast
  from risky_step [OF assms(1) c Cons.prems(1) assms(2,3) e this] obtain st' where st':
    "map_of (rm_sessions m1) (risk_session sid) = Some st'" "at_risk f k st'" "rs_count st' = min (n + 1) (rm_window m)"
    "m1 = m\<lparr>rm_sessions := rm_sessions m1\<rparr>" "sn = risk_snapshot (cl_env c) (risk_session sid) (rm_window m) st'" by blast
  obtain ss where m1: "m1 = m\<lparr>rm_sessions := ss\<rparr>" using st'(4) by blast
  have fe: "rk_fl (cl_env c) = f" using c by (simp add: risky_call_def)
  have n: "2 \<le> rs_count st'" "rs_count st' \<le> rm_window m" using st'(3) Cons.prems(2,6) by auto
  have d: "ShouldDeny m sn" using at_risk_denied [OF assms(1-3) st'(2) Cons.prems(3) n fe] st'(5) by simp
  have "list_all (risky_call f m1 k sid) cs" "ShouldDeny m1 = ShouldDeny m"
    using Cons.prems(4) by (simp_all add: m1 risky_call_def adjusted_risk_def fun_eq_iff ShouldDeny_def list_all_iff)
  moreover have "risk_config m1" "2 \<le> rm_window m1" "rm_threshold m1 \<le> f (of_int k / 10000)"
    using Cons.prems(1-3) by (simp_all add: m1 risk_config_def)
  ultimately have "list_all (ShouldDeny m) sns1"
    using Cons.IH [of m1 sns1 "rs_count st'"] r(1) st'(1,2) n by (auto simp: m1)
  then show ?case using d r(2) by simp
qed simp

lemma new_memory:
  assumes "rounding f"
  shows "risk_memory_ok (NewSessionRiskMemory f al th wd)"
  by (auto simp: risk_memory_ok_def NewSessionRiskMemory_def risk_config_def default_window_def)

text \<open>
  Risk scores stay in range. On binary64 arithmetic, over any sequence of evaluations of a new memory, whatever the
  smoothing factor, the threshold and the window it was given, every snapshot has a score between 0 and 1 and
  counts between one action and the window.
\<close>
theorem session_risk_in_range:
  assumes "rounding f" "list_all (\<lambda>c. rounding (rk_fl (cl_env c))) cs" "risk_run cs (NewSessionRiskMemory f al th wd) = (m', sns)" "sn \<in> set sns"
  shows "0 \<le> sr_TrajectoryRiskScore sn \<and> sr_TrajectoryRiskScore sn \<le> 1 \<and>
    1 \<le> sr_RiskAccumulationWindow sn \<and> sr_RiskAccumulationWindow sn \<le> (if wd < 1 then 8 else wd)"
  using risk_run_ok [OF new_memory [OF assms(1)] assms(2,3)] assms(4)
  by (auto simp: list_all_iff NewSessionRiskMemory_def default_window_def)

text \<open>
  Sustained risk is denied. Take a new memory with window at least two and a threshold of \<open>k\<close>/10000. In a session
  whose actions, without a supplied history, all carry a risk of at least \<open>k\<close>/10000 above the baseline, every
  evaluation from the second on is denied, however long the session, rounding included.
\<close>
theorem sustained_risk_denied:
  assumes "rounding f" "0 \<le> k" "k \<le> 10000" "2 \<le> wd"
    "m = NewSessionRiskMemory f al (f (of_int k / 10000)) wd" "list_all (risky_call f m k sid) cs" "risk_run cs m = (m', sn # sns)"
  shows "\<forall>x \<in> set sns. ShouldDeny m x"
proof -
  obtain c cs' where cs: "cs = c # cs'" using assms(7) by (cases cs) auto
  obtain m1 sn1 where e: "Risk_Evaluate (cl_env c) (cl_session c) (cl_history c) (cl_request c) m = (m1, sn1)" by fastforce
  have r: "risk_run cs' m1 = (m', sns)" using assms(7) by (auto simp: cs e split: prod.splits)
  have cfg: "risk_config m" "2 \<le> rm_window m" "rm_threshold m \<le> f (of_int k / 10000)" "rm_sessions m = []"
    using new_memory [OF assms(1), of al "f (of_int k / 10000)" wd] grid_range [OF assms(1-3)] assms(4)
    by (auto simp: assms(5) risk_memory_ok_def NewSessionRiskMemory_def clampRisk_def)
  have c: "risky_call f m k sid c" using assms(6) cs by simp
  from risky_step [OF assms(1) c cfg(1) assms(2,3) e, of 0] cfg(4) obtain st' ss where st':
    "map_of (rm_sessions m1) (risk_session sid) = Some st'" "at_risk f k st'" "rs_count st' = 1" and m1: "m1 = m\<lparr>rm_sessions := ss\<rparr>"
    using cfg(2) by auto
  have "list_all (ShouldDeny m1) sns"
    by (rule risky_run [OF assms(1-3) _ _ _ _ r, where n = 1])
      (use cfg assms(6) cs st' in \<open>auto simp: m1 risk_config_def risky_call_def adjusted_risk_def list_all_iff\<close>)
  then show ?thesis by (simp add: m1 ShouldDeny_def list_all_iff)
qed

section \<open>An example\<close>

definition w_risk :: risk_env where
  "w_risk = \<lparr>rk_fl = (\<lambda>x. x), rk_ul = (\<lambda>s. s), rk_uu = (\<lambda>s. s), rk_json = (\<lambda>m. None), rk_centroid_json = (\<lambda>a b c. []), rk_sha = (\<lambda>b. b), rk_clk = (\<lambda>p. 0)\<rparr>"

definition w_risk_call :: risk_call where
  "w_risk_call = \<lparr>cl_env = w_risk, cl_session = ''s'', cl_history = [],
     cl_request = \<lparr>r_Principal = ''a'', r_Action = ''export'', r_Resource = ''secret'', r_Context = None, r_SessionHistory = []\<rparr>\<rparr>"

definition w_risk_memory :: SessionRiskMemory where
  "w_risk_memory = NewSessionRiskMemory (\<lambda>x. x) (1 / 2) (of_int 2000 / 10000) 8"

lemma w_rounding: "rounding (\<lambda>x. x)"
  by (simp add: rounding_def)

lemma w_risky: "risky_call (\<lambda>x. x) w_risk_memory 2000 ''s'' w_risk_call"
proof -
  have t: "ToLower ul ''export secret '' = ''export secret ''" for ul
  proof -
    have "is_ascii ''export secret ''" "map ascii_lower ''export secret '' = ''export secret ''" by code_simp+
    then show ?thesis by (simp only: ToLower_def if_True)
  qed
  have k: "keywordScore (\<lambda>x. x) ''export secret '' exfiltration_words = 44 / 100" "keywordScore (\<lambda>x. x) ''export secret '' privilege_words = 0"
    "keywordScore (\<lambda>x. x) ''export secret '' compliance_words = 0"
    by code_simp+
  have u: "ToUpper u ''PENDING'' = ''PENDING''" "ToUpper u ''export'' = ''EXPORT''" for u
  proof -
    have "is_ascii ''PENDING''" "map ascii_upper ''PENDING'' = ''PENDING''" "is_ascii ''export''" "map ascii_upper ''export'' = ''EXPORT''" by code_simp+
    then show "ToUpper u ''PENDING'' = ''PENDING''" "ToUpper u ''export'' = ''EXPORT''" by (simp_all only: ToUpper_def if_True)
  qed
  have "signalFromSessionAction w_risk \<lparr>sa_Action = ''export'', sa_Resource = ''secret'', sa_Verdict = ''PENDING'', sa_Timestamp = ts\<rparr> None =
      \<lparr>sig_exfiltration = 44 / 100, sig_privilege = 0, sig_compliance = 0, sig_risk = 344 / 1000\<rparr>" for ts
    by (simp add: signalFromSessionAction_def stableRiskContextText_def w_risk_def t k u clampRisk_def Let_def)
  then show ?thesis by (simp add: risky_call_def w_risk_call_def adjusted_risk_def w_risk_memory_def NewSessionRiskMemory_def clampRisk_def) (simp add: w_risk_def)
qed

lemma w_risk_run: "\<exists>m' a b. risk_run [w_risk_call, w_risk_call] m = (m', [a, b])"
  by (simp split: prod.split)

theorem session_risk_in_range_witness:
  "\<exists>m' a b. risk_run [w_risk_call, w_risk_call] w_risk_memory = (m', [a, b]) \<and>
     0 \<le> sr_TrajectoryRiskScore b \<and> sr_TrajectoryRiskScore b \<le> 1"
proof -
  obtain m' a b where r: "risk_run [w_risk_call, w_risk_call] w_risk_memory = (m', [a, b])" using w_risk_run by blast
  have "list_all (\<lambda>c. rounding (rk_fl (cl_env c))) [w_risk_call, w_risk_call]" by (simp add: w_risk_call_def w_risk_def w_rounding)
  then show ?thesis using r session_risk_in_range [OF w_rounding _ r [unfolded w_risk_memory_def], of b] by simp
qed

theorem sustained_risk_denied_witness:
  "\<exists>m' a b. risk_run [w_risk_call, w_risk_call] w_risk_memory = (m', [a, b]) \<and>
     ShouldDeny w_risk_memory b"
proof -
  obtain m' a b where r: "risk_run [w_risk_call, w_risk_call] w_risk_memory = (m', [a, b])" using w_risk_run by blast
  have "\<forall>x \<in> set [b]. ShouldDeny w_risk_memory x"
    by (rule sustained_risk_denied [OF w_rounding _ _ _ w_risk_memory_def _ r, where sid = "''s''"]) (simp_all add: w_risky)
  then show ?thesis using r by simp
qed

section \<open>A supplied history replaces the memory\<close>

text \<open>With a history in the request, what was remembered of the session does not matter: a short harmless history clears it.\<close>

lemma observe_config: "observe rk (m\<lparr>rm_sessions := ss\<rparr>) = observe rk m"
  by (intro ext) (simp add: observe_def Let_def split: prod.split)

lemma history_replaces_memory:
  assumes "hist \<noteq> []"
  shows "snd (Risk_Evaluate rk sid hist req m) = snd (Risk_Evaluate rk sid hist req (m\<lparr>rm_sessions := ss\<rparr>))"
  using assms by (simp add: Risk_Evaluate_def risk_start_def observe_config Let_def)

end
