(* ===== verification/Guardian_Decide.thy ===== *)
theory Guardian_Decide
  imports Guardian_Chain Capability_Token Safe_Dep_Controller Session_Risk
begin

text \<open>
  A whole evaluation, \<^verbatim>\<open>Guardian.EvaluateDecision\<close> of \<^verbatim>\<open>core/pkg/guardian/guardian.go\<close>: the choice of the policy
  snapshot, the safe-deprecation block, the capability gate of \<^verbatim>\<open>capability.go\<close>, session history and session
  risk, and then the boundary chain. Telemetry is left out. A guardian has a signer; the request's
  context is the caller's map, so a step returns it as later steps see it.
\<close>

section \<open>Configuration and state\<close>

record ('b, 'ip, 'net) DecideGuardian = "('b, 'ip, 'net) GateGuardian" +
  gd_prg :: "rule_graph option"
  gd_pdp :: "PolicyDecisionPoint option"
  gd_registry :: "Registry option"
  gd_verifier :: "TokenVerifier option"
  gd_tenv :: token_env
  gd_decode :: "string \<Rightarrow> (string, Token) res"
  gd_encode :: "(string \<times> gval) list \<Rightarrow> (string, string) res"
  gd_token_error :: "token_error \<Rightarrow> string"
  gd_plans :: "RollbackPlanRegistry option"
  gd_encodes :: "DecisionRecord \<Rightarrow> bool"
  gd_safedep :: "sd_env option"
  gd_risk :: risk_env
  gd_fmt4 :: "rat \<Rightarrow> string"

record ('b, 'net) decide_state = "('b, 'net) gate_state" +
  dc_tokens :: InMemoryTokenStore
  dc_risk :: "SessionRiskMemory option"
  dc_safedep :: sd_state

text \<open>A step before the chain ends the evaluation or lets it go on with the request.\<close>

datatype pre_result = PreStop "(guardian_error, DecisionRecord) res" | PreGo DecisionRequest

abbreviation put_str :: "string \<Rightarrow> string \<Rightarrow> gctx \<Rightarrow> gctx" where
  "put_str k v c \<equiv> ctx_put c k (GStr v)"

section \<open>The policy snapshot\<close>

definition PolicyScope_Key :: "PolicyScope \<Rightarrow> string" where
  "PolicyScope_Key sc = (case PolicyScope_Normalize sc of (t, w) \<Rightarrow> t @ ''/'' @ w)"

definition static_version :: "('b, 'ip, 'net, 'x) DecideGuardian_scheme \<Rightarrow> string" where
  "static_version g =
     (case gd_prg g of
        None \<Rightarrow> ''v1.0.0''
      | Some graph \<Rightarrow> (let h = ContentHash (g_sha g) graph in if h = [] then ''v1.0.0'' else ''sha256:'' @ h))"

datatype snapshot_choice = NotReady "(guardian_error, DecisionRecord) res" | Active "PolicySnapshot option" string

definition select_snapshot :: "('b, 'ip, 'net, 'x) DecideGuardian_scheme \<Rightarrow> DecisionRequest \<Rightarrow> snapshot_choice" where
  "select_snapshot g req =
     (case g_snapshots g of
        None \<Rightarrow> Active None (static_version g)
      | Some store \<Rightarrow>
          (let scope = policyScopeFromContext g (r_Context req) in
           case store scope of
             None \<Rightarrow>
               NotReady (signDecisionForRequest g req None ''unavailable''
                 ((new_decision g ''policy'' VerdictDeny ''POLICY_NOT_READY'' (''POLICY_NOT_READY: no active policy snapshot for '' @ PolicyScope_Key scope))
                    \<lparr>d_InputContext := r_Context req, d_PolicyVersion := ''unavailable''\<rparr>))
           | Some snapshot \<Rightarrow>
               if ps_Status snapshot \<noteq> ''active'' then
                 NotReady (signDecisionForRequest g req (Some snapshot) (ps_PolicyHash snapshot)
                   ((new_decision g ''policy'' VerdictDeny ''POLICY_NOT_READY''
                       (''POLICY_NOT_READY: policy snapshot for '' @ PolicyScope_Key scope @ '' is '' @ ps_Status snapshot))
                      \<lparr>d_InputContext := r_Context req, d_PolicyVersion := ps_PolicyHash snapshot\<rparr>))
               else Active (Some snapshot) (ps_PolicyHash snapshot)))"

definition active_graph :: "('b, 'ip, 'net, 'x) DecideGuardian_scheme \<Rightarrow> PolicySnapshot option \<Rightarrow> rule_graph option" where
  "active_graph g snapshot = (case snapshot of Some sn \<Rightarrow> (case ps_Graph sn of Some gr \<Rightarrow> Some gr | None \<Rightarrow> gd_prg g) | None \<Rightarrow> gd_prg g)"

definition active_pdp :: "('b, 'ip, 'net, 'x) DecideGuardian_scheme \<Rightarrow> PolicySnapshot option \<Rightarrow> PolicyDecisionPoint option" where
  "active_pdp g snapshot = (case snapshot of Some sn \<Rightarrow> (case ps_PDP sn of Some p \<Rightarrow> Some p | None \<Rightarrow> gd_pdp g) | None \<Rightarrow> gd_pdp g)"

section \<open>Safe deprecation\<close>

definition context_signal :: "sd_env \<Rightarrow> gctx \<Rightarrow> Signal" where
  "context_signal sv ctx = (case ctx of None \<Rightarrow> zero_signal | Some m \<Rightarrow> SignalFromContext (sd_fold sv) m)"

definition safedep_blocks :: "sd_env \<Rightarrow> HazardClassification \<Rightarrow> DecisionRequest \<Rightarrow> bool" where
  "safedep_blocks sv cl req =
     (hc_State cl = SafeDepTerminalFreeze \<or>
      hc_State cl = SafeDepDeprecatedReadonly \<and> \<not> IsInspectionAction (sd_ul sv) (r_Action req) (r_Resource req))"

definition safedep_step ::
  "('b, 'ip, 'net, 'x) DecideGuardian_scheme \<Rightarrow> PolicySnapshot option \<Rightarrow> string \<Rightarrow> DecisionRequest \<Rightarrow> ('b, 'net, 'y) decide_state_scheme \<Rightarrow>
   ('b, 'net, 'y) decide_state_scheme \<times> pre_result" where
  "safedep_step g snapshot version req s =
     (case gd_safedep g of
        None \<Rightarrow> (s, PreGo req)
      | Some sv \<Rightarrow>
          (let signal = context_signal sv (r_Context req) in
           if Signal_Empty signal then (s, PreGo req)
           else case Classify sv signal (dc_safedep s) of (sd, cl) \<Rightarrow>
             (let s = s\<lparr>dc_safedep := sd\<rparr>;
                  req = req\<lparr>r_Context := put_str ''safe_deprecation_reason_code'' (hc_ReasonCode cl)
                              (put_str ''safe_deprecation_state'' (hc_State cl) (r_Context req))\<rparr>
              in if safedep_blocks sv cl req then
                   (s, PreStop (signDecisionForRequest g req snapshot version
                      ((new_decision g ''safedep'' VerdictDeny (hc_ReasonCode cl)
                          (hc_ReasonCode cl @ '': safe deprecation state '' @ hc_State cl @ '' blocks '' @ r_Action req))
                         \<lparr>d_InputContext := r_Context req, d_PolicyVersion := version\<rparr>)))
                 else (s, PreGo req))))"

section \<open>The capability gate (capability.go)\<close>

definition appendCapabilityAudit ::
  "('b, 'ip, 'net, 'x) DecideGuardian_scheme \<Rightarrow> string \<Rightarrow> DecisionRecord \<Rightarrow> ('b, 'net, 'y) gate_state_scheme \<Rightarrow> ('b, 'net, 'y) gate_state_scheme" where
  "appendCapabilityAudit g action d s = (if gd_encodes g d then fst (append_audit g action d s) else s)"

definition capabilityShortCircuit ::
  "('b, 'ip, 'net, 'x) DecideGuardian_scheme \<Rightarrow> DecisionRequest \<Rightarrow> PolicySnapshot option \<Rightarrow> string \<Rightarrow> string \<Rightarrow> string \<Rightarrow> string \<Rightarrow> string \<Rightarrow>
   ('b, 'net, 'y) gate_state_scheme \<Rightarrow> ('b, 'net, 'y) gate_state_scheme \<times> pre_result" where
  "capabilityShortCircuit g req snapshot version verdict code why auditAction s =
     (case bindDecisionRequest req ((new_decision g ''capability'' verdict code why)\<lparr>d_InputContext := r_Context req, d_GateRosterHash := g_rosterHash g\<rparr>) of
        Inl e \<Rightarrow> (s, PreStop (Err e))
      | Inr d \<Rightarrow>
          (case SignDecision_with g (bindRuntimePolicyDecision snapshot version d) of
             Inl e \<Rightarrow> (s, PreStop (Err e))
           | Inr d \<Rightarrow> (appendCapabilityAudit g auditAction d s, PreStop (Ok d))))"

definition applyReversibilityPolicy ::
  "('b, 'ip, 'net, 'x) DecideGuardian_scheme \<Rightarrow> DecisionRequest \<Rightarrow> Entry \<Rightarrow> PolicySnapshot option \<Rightarrow> string \<Rightarrow>
   ('b, 'net, 'y) gate_state_scheme \<Rightarrow> ('b, 'net, 'y) gate_state_scheme \<times> pre_result" where
  "applyReversibilityPolicy g req entry snapshot version s =
     (let m = en_Manifest entry; q = ge_quote g; rollback = ''CAPABILITY_ROLLBACK_PLAN_INVALID'' in
      if m_EffectClass m = ''read_only'' then (s, PreGo req)
      else if m_EffectClass m = ''irreversible'' then
        capabilityShortCircuit g req snapshot version VerdictDeny ''CAPABILITY_IRREVERSIBLE''
          ''CAPABILITY_IRREVERSIBLE: irreversible effect class cannot dispatch without an authoritative approval integration''
          ''CAPABILITY_IRREVERSIBLE_DENY'' s
      else if m_Reversibility m = ''none'' then
        capabilityShortCircuit g req snapshot version VerdictEscalate ''APPROVAL_REQUIRED''
          (''APPROVAL_REQUIRED: non-reversible capability '' @ q (m_CapabilityID m) @ '' requires the permit flow'') ''CAPABILITY_NON_REVERSIBLE_ESCALATE'' s
      else if \<not> rr_Required (m_Rollback m) \<or> rr_PlanRef (m_Rollback m) = [] then
        capabilityShortCircuit g req snapshot version VerdictDeny rollback
          (rollback @ '': reversible capability '' @ q (m_CapabilityID m) @ '' has no required rollback plan'') ''CAPABILITY_ROLLBACK_PLAN_INVALID_DENY'' s
      else if gd_plans g = None then
        capabilityShortCircuit g req snapshot version VerdictDeny rollback
          (rollback @ '': rollback-plan store is not configured (no plan, no dispatch)'') ''CAPABILITY_ROLLBACK_PLAN_INVALID_DENY'' s
      else case ResolvePlan (gd_plans g) (rr_PlanRef (m_Rollback m)) of
        None \<Rightarrow>
          capabilityShortCircuit g req snapshot version VerdictDeny rollback
            (rollback @ '': rollback plan '' @ q (rr_PlanRef (m_Rollback m)) @ '' does not bind capability '' @ q (m_CapabilityID m))
            ''CAPABILITY_ROLLBACK_PLAN_INVALID_DENY'' s
      | Some plan \<Rightarrow>
          if \<not> AppliesToCapability (Some (pe_Plan plan)) (m_CapabilityID m) then
            capabilityShortCircuit g req snapshot version VerdictDeny rollback
              (rollback @ '': rollback plan '' @ q (rr_PlanRef (m_Rollback m)) @ '' does not bind capability '' @ q (m_CapabilityID m))
              ''CAPABILITY_ROLLBACK_PLAN_INVALID_DENY'' s
          else if Plan_Expired (pe_Plan plan) (g_clk g ''rollback plan'') then
            capabilityShortCircuit g req snapshot version VerdictDeny rollback
              (rollback @ '': rollback plan '' @ q (p_PlanID (pe_Plan plan)) @ '' guarantee expired'') ''CAPABILITY_ROLLBACK_PLAN_EXPIRED_DENY'' s
          else
            (let req = req\<lparr>r_Context := put_str ''capability_rollback_plan_hash'' (pe_Hash plan)
                              (put_str ''capability_rollback_plan_id'' (p_PlanID (pe_Plan plan)) (r_Context req))\<rparr>
             in if m_DataBoundary m \<in> {''org_boundary'', ''external''} then
                  capabilityShortCircuit g req snapshot version VerdictEscalate ''APPROVAL_REQUIRED''
                    (''APPROVAL_REQUIRED: reversible external capability '' @ q (m_CapabilityID m) @ '' requires the permit flow'')
                    ''CAPABILITY_REVERSIBLE_EXTERNAL_ESCALATE'' s
                else (s, PreGo req)))"

definition enrich_capability :: "Entry \<Rightarrow> gctx \<Rightarrow> gctx" where
  "enrich_capability entry c =
     (let m = en_Manifest entry;
          c = put_str ''capability_manifest_hash'' (en_Hash entry) c;
          c = put_str ''capability_effect_class'' (m_EffectClass m) c;
          c = put_str ''capability_reversibility'' (m_Reversibility m) c;
          c = put_str ''capability_data_boundary'' (m_DataBoundary m) c;
          c = ctx_put c ''capability_risk_score'' (GInt (m_RiskScore m));
          c = put_str ''capability_required_permit_level'' (m_RequiredPermitLevel m) c
      in if m_MinModelTier m \<noteq> [] then put_str ''capability_min_model_tier'' (m_MinModelTier m) c else c)"

text \<open>A presented token: decoded, verified against the entry and one use consumed.\<close>

definition check_token ::
  "('b, 'ip, 'net, 'x) DecideGuardian_scheme \<Rightarrow> DecisionRequest \<Rightarrow> Entry \<Rightarrow> gval \<Rightarrow> PolicySnapshot option \<Rightarrow> string \<Rightarrow>
   ('b, 'net, 'y) decide_state_scheme \<Rightarrow> ('b, 'net, 'y) decide_state_scheme \<times> pre_result" where
  "check_token g req entry rawToken snapshot version s =
     (let code = ''CAPABILITY_TOKEN_INVALID'';
          deny = (\<lambda>why s. capabilityShortCircuit g req snapshot version VerdictDeny code (code @ '': '' @ why) ''CAPABILITY_TOKEN_INVALID_DENY'' s) in
      case gd_verifier g of
        None \<Rightarrow> deny ''a capability token was presented but no verifier is configured'' s
      | Some v \<Rightarrow>
          (case DecodeToken (gd_decode g) (gd_encode g) rawToken of
             Inl _ \<Rightarrow> deny ''malformed token'' s
           | Inr presented \<Rightarrow>
               (case Verify (gd_tenv g) v
                       \<lparr>vr_Presented = Some presented, vr_TaskID = or_empty (ctx_str (r_Context req) ''task_id''),
                        vr_CapabilityID = m_CapabilityID (en_Manifest entry), vr_ManifestHash = en_Hash entry,
                        vr_Args = (case ctx_get (r_Context req) ''arguments'' of Some (GMap a) \<Rightarrow> Some a | _ \<Rightarrow> None)\<rparr> (dc_tokens s) of
                  (tokens, Inl e) \<Rightarrow> deny (gd_token_error g e) (s\<lparr>dc_tokens := tokens\<rparr>)
                | (tokens, Inr token) \<Rightarrow>
                    (s\<lparr>dc_tokens := tokens\<rparr>, PreGo (req\<lparr>r_Context := put_str ''capability_token_id'' (tk_TokenID token) (r_Context req)\<rparr>)))))"

definition pin_ok :: "gctx \<Rightarrow> Entry \<Rightarrow> bool" where
  "pin_ok c entry =
     (case ctx_get c ''capability_manifest_hash'' of
        None \<Rightarrow> True | Some (GStr pin) \<Rightarrow> pin = [] \<or> pin = en_Hash entry | Some _ \<Rightarrow> False)"

definition resolveCapabilityGate ::
  "('b, 'ip, 'net, 'x) DecideGuardian_scheme \<Rightarrow> PolicySnapshot option \<Rightarrow> string \<Rightarrow> DecisionRequest \<Rightarrow> ('b, 'net, 'y) decide_state_scheme \<Rightarrow>
   ('b, 'net, 'y) decide_state_scheme \<times> pre_result" where
  "resolveCapabilityGate g snapshot version req0 s =
     (if r_Context req0 = None then (s, PreGo req0)
      else
        (let rawToken = ctx_get (r_Context req0) ''capability_token'';
             req = (if rawToken = None then req0 else req0\<lparr>r_Context := ctx_del (r_Context req0) ''capability_token''\<rparr>) in
         if gd_registry g = None then (s, PreGo req)
         else case ctx_get (r_Context req) ''capability_id'' of
           None \<Rightarrow> (s, PreGo req)
         | Some rawID \<Rightarrow>
             (let capabilityID = (case rawID of GStr i \<Rightarrow> i | _ \<Rightarrow> []) in
              if capabilityID = [] then
                capabilityShortCircuit g req snapshot version VerdictEscalate ''CAPABILITY_UNKNOWN''
                  ''CAPABILITY_UNKNOWN: capability_id must be a non-empty string'' ''CAPABILITY_UNKNOWN_QUARANTINE'' s
              else case Resolve (gd_registry g) capabilityID of
                None \<Rightarrow>
                  capabilityShortCircuit g req snapshot version VerdictEscalate ''CAPABILITY_UNKNOWN''
                    (''CAPABILITY_UNKNOWN: capability '' @ ge_quote g capabilityID @ '' is not registered; quarantined for review'')
                    ''CAPABILITY_UNKNOWN_QUARANTINE'' s
              | Some entry \<Rightarrow>
                  if \<not> pin_ok (r_Context req) entry then
                    capabilityShortCircuit g req snapshot version VerdictDeny ''CAPABILITY_MANIFEST_DRIFT''
                      (''CAPABILITY_MANIFEST_DRIFT: capability '' @ ge_quote g capabilityID @ '' is not pinned to the registry manifest revision'')
                      ''CAPABILITY_MANIFEST_DRIFT_DENY'' s
                  else
                    (case applyReversibilityPolicy g (req\<lparr>r_Context := enrich_capability entry (r_Context req)\<rparr>) entry snapshot version s of
                       (s, PreStop r) \<Rightarrow> (s, PreStop r)
                     | (s, PreGo req) \<Rightarrow>
                         (case rawToken of None \<Rightarrow> (s, PreGo req) | Some t \<Rightarrow> check_token g req entry t snapshot version s)))))"

section \<open>Session history and session risk\<close>

definition session_action_value :: "SessionAction \<Rightarrow> gval" where
  "session_action_value a = GMap [(''action'', GStr (sa_Action a)), (''resource'', GStr (sa_Resource a)), (''verdict'', GStr (sa_Verdict a)),
     (''timestamp'', GInt (sa_Timestamp a))]"

definition enrich_history :: "DecisionRequest \<Rightarrow> DecisionRequest" where
  "enrich_history req =
     (let h = r_SessionHistory req in
      if h = [] then req
      else req\<lparr>r_Context := ctx_put (ctx_put (ctx_put (r_Context req) ''session_history'' (GList (map session_action_value h)))
             ''session_action_count'' (GInt (int (length h)))) ''session_deny_count'' (GInt (int (length (filter (\<lambda>a. sa_Verdict a = ''DENY'') h))))\<rparr>)"

definition session_risk_step ::
  "('b, 'ip, 'net, 'x) DecideGuardian_scheme \<Rightarrow> PolicySnapshot option \<Rightarrow> string \<Rightarrow> DecisionRequest \<Rightarrow> ('b, 'net, 'y) decide_state_scheme \<Rightarrow>
   ('b, 'net, 'y) decide_state_scheme \<times> SessionRiskSnapshot option \<times> pre_result" where
  "session_risk_step g snapshot version req s =
     (case dc_risk s of
        None \<Rightarrow> (s, None, PreGo req)
      | Some m \<Rightarrow>
          (case Risk_Evaluate (gd_risk g) (sessionRiskSessionID req) (r_SessionHistory req) req m of (m', sn) \<Rightarrow>
             (let s = s\<lparr>dc_risk := Some m'\<rparr>;
                  req = req\<lparr>r_Context := attachSessionRiskContext (r_Context req) sn\<rparr>
              in if ShouldDeny m' sn then
                   (case signDecisionForRequest g req snapshot version
                      ((new_decision g ''session risk'' VerdictDeny ''SESSION_RISK_MEMORY_DENY''
                          (''SESSION_RISK_MEMORY_DENY: trajectory risk '' @ gd_fmt4 g (sr_TrajectoryRiskScore sn) @ '' over ''
                             @ dec_of_int (sr_RiskAccumulationWindow sn) @ '' actions''))
                         \<lparr>d_InputContext := r_Context req, d_TrajectoryRiskScore := sr_TrajectoryRiskScore sn,
                          d_SessionCentroidHash := sr_SessionCentroidHash sn, d_RiskAccumulationWindow := sr_RiskAccumulationWindow sn\<rparr>) of
                      Inl e \<Rightarrow> (s, Some sn, PreStop (Err e))
                    | Inr d \<Rightarrow>
                        (recordBehavioralEvent g (r_Principal req) ''POLICY_VIOLATE'' ''session risk memory denied'' (fst (append_audit g ''SESSION_RISK_DENY'' d s)),
                         Some sn, PreStop (Ok d)))
                 else (s, Some sn, PreGo req))))"

section \<open>The evaluation\<close>

definition initial_context ::
  "('b, 'ip, 'net, 'x) DecideGuardian_scheme \<Rightarrow> PolicySnapshot option \<Rightarrow> string \<Rightarrow> SessionRiskSnapshot option \<Rightarrow> DecisionRequest \<Rightarrow> EvaluationContext" where
  "initial_context g snapshot version sn req =
     \<lparr>ec_Request = req, ec_ActiveSnapshot = snapshot, ec_PolicyVersion = version, ec_ActiveGraph = active_graph g snapshot,
      ec_ActivePDP = active_pdp g snapshot, ec_Tainted = False, ec_Intervention = None, ec_ThreatScanResult = None,
      ec_SessionRiskSnapshot = sn, ec_PDPBackend = [], ec_PDPHash = [], ec_PDPDecisionHash = [], ec_PDPAuthoritativeAllow = False\<rparr>"

definition EvaluateDecision ::
  "('b, 'ip, 'net, 'x) DecideGuardian_scheme \<Rightarrow> DecisionRequest \<Rightarrow> ('b, 'net, 'y) decide_state_scheme \<Rightarrow>
   ('b, 'net, 'y) decide_state_scheme \<times> (guardian_error, DecisionRecord) res" where
  "EvaluateDecision g req s =
     (case select_snapshot g req of
        NotReady r \<Rightarrow> (s, r)
      | Active snapshot version \<Rightarrow>
          (case safedep_step g snapshot version req s of
             (s, PreStop r) \<Rightarrow> (s, r)
           | (s, PreGo req) \<Rightarrow>
               (case resolveCapabilityGate g snapshot version req s of
                  (s, PreStop r) \<Rightarrow> (s, r)
                | (s, PreGo req) \<Rightarrow>
                    (case session_risk_step g snapshot version (enrich_history req) s of
                       (s, _, PreStop r) \<Rightarrow> (s, r)
                     | (s, sn, PreGo req) \<Rightarrow> run_chain g (initial_context g snapshot version sn req) s))))"

end
