(* ===== verification/Guardian_Decide_Correct.thy ===== *)
theory Guardian_Decide_Correct
  imports Guardian_Decide Guardian_Allow Safe_Dep_Correct
begin

text \<open>
  What an ALLOW of a whole evaluation means: the steps before the boundary chain, and the chain.
\<close>

section \<open>Short circuits\<close>

lemma bind_keeps: "bindDecisionRequest q d = Ok d' \<Longrightarrow> d_Verdict d' = d_Verdict d \<and> d_InputContext d' = d_InputContext d"
  by (auto simp: bind_ok)

lemma runtime_keeps [simp]:
  "d_Verdict (bindRuntimePolicyDecision sn v d) = d_Verdict d" "d_InputContext (bindRuntimePolicyDecision sn v d) = d_InputContext d"
  by (simp_all add: bindRuntimePolicyDecision_def Let_def split: option.split)

lemma new_decision_fields [simp]: "d_Verdict (new_decision g site v c w) = v"
  by (simp add: new_decision_def)

lemma signed_for_request:
  assumes "signDecisionForRequest g q sn v d = Ok d'"
  shows "d_Verdict d' = d_Verdict d \<and> d_InputContext d' = d_InputContext d"
proof -
  obtain d1 where d1: "bindDecisionRequest q d = Ok d1" "SignDecision_with g (bindRuntimePolicyDecision sn v d1) = Ok d'"
    using assms by (auto simp: signDecisionForRequest_def split: sum.splits)
  then show ?thesis using bind_keeps [OF d1(1)] sign_with_keeps [OF d1(2)] by simp
qed

lemma short_circuit_stops [simp]: "capabilityShortCircuit g q sn v vd code why a s \<noteq> (s', PreGo q')"
  by (simp add: capabilityShortCircuit_def split: sum.split)

lemma short_circuit_record:
  assumes "capabilityShortCircuit g q sn v vd code why a s = (s', PreStop (Ok d))"
  shows "d_Verdict d = vd \<and> d_InputContext d = r_Context q"
proof -
  obtain d1 where d1: "bindDecisionRequest q ((new_decision g ''capability'' vd code why)\<lparr>d_InputContext := r_Context q, d_GateRosterHash := g_rosterHash g\<rparr>) = Ok d1"
    "SignDecision_with g (bindRuntimePolicyDecision sn v d1) = Ok d"
    using assms by (auto simp: capabilityShortCircuit_def split: sum.splits)
  then show ?thesis using bind_keeps [OF d1(1)] sign_with_keeps [OF d1(2)] by simp
qed

lemma verdicts_differ [simp]: "VerdictDeny \<noteq> VerdictAllow" "VerdictEscalate \<noteq> VerdictAllow"
  by (simp_all add: VerdictDeny_def VerdictEscalate_def VerdictAllow_def)

section \<open>The capability gate\<close>

text \<open>A capability that may be dispatched without a permit, and the rollback plan it needs.\<close>

definition dispatchable :: "('b, 'ip, 'net, 'x) DecideGuardian_scheme \<Rightarrow> Manifest \<Rightarrow> bool" where
  "dispatchable g m \<longleftrightarrow> m_EffectClass m = ''read_only'' \<or>
     m_EffectClass m \<noteq> ''irreversible'' \<and> m_Reversibility m \<noteq> ''none'' \<and> m_DataBoundary m \<notin> {''org_boundary'', ''external''} \<and>
     (\<exists>plan. ResolvePlan (gd_plans g) (rr_PlanRef (m_Rollback m)) = Some plan \<and> p_AppliesCapabilityID (pe_Plan plan) = m_CapabilityID m \<and>
        (\<forall>t. p_GuaranteeExpiry (pe_Plan plan) = Some t \<longrightarrow> g_clk g ''rollback plan'' < t))"

lemma reversibility_go:
  assumes "applyReversibilityPolicy g q e sn v s = (s', PreGo q')"
  shows "s' = s \<and> dispatchable g (en_Manifest e) \<and> (\<exists>c. q' = q\<lparr>r_Context := c\<rparr> \<and>
    (\<forall>k. k \<notin> {''capability_rollback_plan_hash'', ''capability_rollback_plan_id''} \<longrightarrow> ctx_get c k = ctx_get (r_Context q) k))"
proof (cases "m_EffectClass (en_Manifest e) = ''read_only''")
  case True
  then show ?thesis using assms by (auto simp: applyReversibilityPolicy_def dispatchable_def Let_def intro: exI [of _ "r_Context q"])
next
  case False
  then obtain plan where "ResolvePlan (gd_plans g) (rr_PlanRef (m_Rollback (en_Manifest e))) = Some plan"
    using assms by (auto simp: applyReversibilityPolicy_def Let_def split: if_splits option.splits)
  then show ?thesis using assms False
    by (auto simp: applyReversibilityPolicy_def dispatchable_def AppliesToCapability_def Plan_Expired_def Let_def split: if_splits option.splits)
qed

lemma reversibility_stop:
  assumes "applyReversibilityPolicy g q e sn v s = (s', PreStop (Ok d))"
  shows "d_Verdict d \<noteq> VerdictAllow \<and> ctx_get (d_InputContext d) ''capability_token'' = ctx_get (r_Context q) ''capability_token''"
  using assms by (auto simp: applyReversibilityPolicy_def Let_def split: if_splits option.splits dest!: short_circuit_record)

lemma check_token_go:
  assumes "check_token g q e t sn v s = (s', PreGo q')"
  shows "\<exists>ver presented vreq token tokens. gd_verifier g = Some ver \<and> DecodeToken (gd_decode g) (gd_encode g) t = Ok presented \<and>
    vr_Presented vreq = Some presented \<and> vr_TaskID vreq = or_empty (ctx_str (r_Context q) ''task_id'') \<and>
    vr_CapabilityID vreq = m_CapabilityID (en_Manifest e) \<and> vr_ManifestHash vreq = en_Hash e \<and>
    Verify (gd_tenv g) ver vreq (dc_tokens s) = (tokens, Ok token) \<and> s' = s\<lparr>dc_tokens := tokens\<rparr> \<and>
    q' = q\<lparr>r_Context := put_str ''capability_token_id'' (tk_TokenID token) (r_Context q)\<rparr>"
proof -
  obtain ver where ver: "gd_verifier g = Some ver" using assms by (auto simp: check_token_def Let_def split: option.splits)
  obtain presented where pr: "DecodeToken (gd_decode g) (gd_encode g) t = Ok presented"
    using assms by (auto simp: check_token_def ver Let_def split: sum.splits)
  define vreq where "vreq = \<lparr>vr_Presented = Some presented, vr_TaskID = or_empty (ctx_str (r_Context q) ''task_id''),
    vr_CapabilityID = m_CapabilityID (en_Manifest e), vr_ManifestHash = en_Hash e,
    vr_Args = (case ctx_get (r_Context q) ''arguments'' of Some (GMap a) \<Rightarrow> Some a | _ \<Rightarrow> None)\<rparr>"
  obtain tokens r where vf: "Verify (gd_tenv g) ver vreq (dc_tokens s) = (tokens, r)" by fastforce
  note run = assms [unfolded check_token_def Let_def ver option.case pr sum.case, folded vreq_def, unfolded vf prod.case]
  obtain token where r: "r = Ok token" using run by (cases r) auto
  have "s' = s\<lparr>dc_tokens := tokens\<rparr>" "q' = q\<lparr>r_Context := put_str ''capability_token_id'' (tk_TokenID token) (r_Context q)\<rparr>"
    using run by (simp_all add: r)
  then show ?thesis using ver pr vf r by (intro exI [of _ ver] exI [of _ presented] exI [of _ vreq] exI [of _ token] exI [of _ tokens]) (simp add: vreq_def)
qed

lemma check_token_stop:
  assumes "check_token g q e t sn v s = (s', PreStop (Ok d))"
  shows "d_Verdict d \<noteq> VerdictAllow \<and> d_InputContext d = r_Context q"
  using assms by (auto simp: check_token_def Let_def split: option.splits sum.splits prod.splits dest!: short_circuit_record)

lemma enrich_capability_get:
  "k \<notin> {''capability_manifest_hash'', ''capability_effect_class'', ''capability_reversibility'', ''capability_data_boundary'', ''capability_risk_score'',
     ''capability_required_permit_level'', ''capability_min_model_tier''} \<Longrightarrow> ctx_get (enrich_capability e c) k = ctx_get c k"
  by (simp add: enrich_capability_def Let_def)

text \<open>The request after the raw token was taken out.\<close>

definition without_token :: "DecisionRequest \<Rightarrow> DecisionRequest" where
  "without_token q = (if ctx_get (r_Context q) ''capability_token'' = None then q else q\<lparr>r_Context := ctx_del (r_Context q) ''capability_token''\<rparr>)"

lemma without_token_get: "ctx_get (r_Context (without_token q)) k = (if k = ''capability_token'' then None else ctx_get (r_Context q) k)"
  by (simp add: without_token_def)

text \<open>A result that refuses, with a record free of the raw token.\<close>

definition refuses :: "pre_result \<Rightarrow> bool" where
  "refuses r \<longleftrightarrow> (\<exists>x. r = PreStop x \<and> (\<forall>d. x = Ok d \<longrightarrow> d_Verdict d \<noteq> VerdictAllow \<and> ctx_get (d_InputContext d) ''capability_token'' = None))"

lemma short_circuit_refuses:
  assumes "capabilityShortCircuit g (without_token q) sn v vd code why a s = (s', r)" "vd \<noteq> VerdictAllow"
  shows "refuses r"
proof (cases r)
  case (PreStop x)
  have "d_Verdict d \<noteq> VerdictAllow \<and> ctx_get (d_InputContext d) ''capability_token'' = None" if "x = Ok d" for d
    using short_circuit_record [OF assms(1) [unfolded PreStop that]] assms(2) by (simp add: without_token_get)
  then show ?thesis by (simp add: refuses_def PreStop)
next
  case (PreGo q')
  then show ?thesis using assms(1) by simp
qed

abbreviation gated_request :: "Entry \<Rightarrow> DecisionRequest \<Rightarrow> DecisionRequest" where
  "gated_request e q \<equiv> (without_token q)\<lparr>r_Context := enrich_capability e (r_Context (without_token q))\<rparr>"

lemma reversibility_refuses:
  assumes "applyReversibilityPolicy g (gated_request e q) e sn v s = (s', PreStop x)"
  shows "refuses (PreStop x)"
proof -
  have "d_Verdict d \<noteq> VerdictAllow \<and> ctx_get (d_InputContext d) ''capability_token'' = None" if "x = Ok d" for d
    using reversibility_stop [OF assms [unfolded that]] by (simp add: enrich_capability_get without_token_get)
  then show ?thesis by (simp add: refuses_def)
qed

text \<open>A capability named in the request is refused, or is a registered one that passes the reversibility policy.\<close>

lemma named_capability:
  assumes run: "resolveCapabilityGate g sn v q s = (s', r)" and raw: "ctx_get (r_Context q) ''capability_id'' = Some raw" and reg: "gd_registry g \<noteq> None"
  obtains (stopped) "refuses r"
  | (entry) i e q1 s1 where "raw = GStr i" "Resolve (gd_registry g) i = Some e" "pin_ok (r_Context q) e"
      "applyReversibilityPolicy g (gated_request e q) e sn v s = (s1, PreGo q1)"
      "(case ctx_get (r_Context q) ''capability_token'' of None \<Rightarrow> (s1, PreGo q1) | Some t \<Rightarrow> check_token g q1 e t sn v s1) = (s', r)"
proof -
  have c: "r_Context q \<noteq> None" using raw by (auto simp: ctx_get_def split: option.splits)
  have raw': "ctx_get (r_Context (without_token q)) ''capability_id'' = Some raw" by (simp add: raw without_token_get)
  have pin: "pin_ok (r_Context (without_token q)) e = pin_ok (r_Context q) e" for e by (simp add: pin_ok_def without_token_get)
  define i where "i = (case raw of GStr i \<Rightarrow> i | _ \<Rightarrow> [])"
  note gate = run [unfolded resolveCapabilityGate_def Let_def, folded without_token_def, unfolded raw' option.case pin, folded i_def]
  consider "i = []" | "i \<noteq> []" "Resolve (gd_registry g) i = None" | e where "i \<noteq> []" "Resolve (gd_registry g) i = Some e" by fastforce
  then show ?thesis
  proof cases
    case 1
    then show ?thesis using gate c reg by (auto intro: stopped dest!: short_circuit_refuses)
  next
    case 2
    then show ?thesis using gate c reg by (auto intro: stopped dest!: short_circuit_refuses)
  next
    case (3 e)
    have rs: "raw = GStr i" using 3(1) by (cases raw) (auto simp: i_def)
    obtain s1 r1 where ap: "applyReversibilityPolicy g (gated_request e q) e sn v s = (s1, r1)" by fastforce
    show ?thesis
    proof (cases "pin_ok (r_Context q) e")
      case False
      then show ?thesis using gate c reg 3 by (auto intro: stopped dest!: short_circuit_refuses)
    next
      case True
      show ?thesis
      proof (cases r1)
        case (PreStop x)
        then show ?thesis using gate c reg 3 True ap reversibility_refuses [OF ap [unfolded PreStop]] by (auto intro: stopped)
      next
        case (PreGo q1)
        show ?thesis by (rule entry [OF rs 3(2) True ap [unfolded PreGo]]) (use gate c reg 3 True ap PreGo in simp)
      qed
    qed
  qed
qed

lemma unnamed_capability:
  assumes "resolveCapabilityGate g sn v q s = (s', r)" "gd_registry g = None \<or> ctx_get (r_Context q) ''capability_id'' = None"
  shows "s' = s \<and> r = PreGo (without_token q)"
proof (cases "r_Context q = None")
  case True
  then show ?thesis using assms(1) by (simp add: resolveCapabilityGate_def without_token_def ctx_get_def)
next
  case False
  note gate = assms(1) [unfolded resolveCapabilityGate_def Let_def, folded without_token_def]
  show ?thesis
  proof (cases "gd_registry g")
    case None
    then show ?thesis using gate False by auto
  next
    case (Some reg)
    then have "ctx_get (r_Context (without_token q)) ''capability_id'' = None" using assms(2) by (simp add: without_token_get)
    then show ?thesis using gate False Some by auto
  qed
qed

text \<open>
  What the gate lets through. A capability the request names is registered, its pinned revision is the registered one,
  it may be dispatched, and a token presented with it was verified for it.
\<close>

definition token_accepted :: "('b, 'ip, 'net, 'x) DecideGuardian_scheme \<Rightarrow> gctx \<Rightarrow> Entry \<Rightarrow> InMemoryTokenStore \<Rightarrow> gval \<Rightarrow> bool" where
  "token_accepted g c e tokens t \<longleftrightarrow> (\<exists>ver presented vreq token tokens'. gd_verifier g = Some ver \<and> DecodeToken (gd_decode g) (gd_encode g) t = Ok presented \<and>
     vr_Presented vreq = Some presented \<and> vr_TaskID vreq = or_empty (ctx_str c ''task_id'') \<and>
     vr_CapabilityID vreq = m_CapabilityID (en_Manifest e) \<and> vr_ManifestHash vreq = en_Hash e \<and> Verify (gd_tenv g) ver vreq tokens = (tokens', Ok token))"

definition capability_ok :: "('b, 'ip, 'net, 'x) DecideGuardian_scheme \<Rightarrow> gctx \<Rightarrow> InMemoryTokenStore \<Rightarrow> bool" where
  "capability_ok g c tokens \<longleftrightarrow> (\<forall>raw. gd_registry g \<noteq> None \<longrightarrow> ctx_get c ''capability_id'' = Some raw \<longrightarrow>
     (\<exists>i e. raw = GStr i \<and> Resolve (gd_registry g) i = Some e \<and> pin_ok c e \<and> dispatchable g (en_Manifest e) \<and>
        (\<forall>t. ctx_get c ''capability_token'' = Some t \<longrightarrow> token_accepted g c e tokens t)))"

lemma reversibility_request:
  assumes "applyReversibilityPolicy g (gated_request e q) e sn v s = (s1, PreGo q1)"
  obtains c where "s1 = s" "dispatchable g (en_Manifest e)" "q1 = q\<lparr>r_Context := c\<rparr>" "ctx_get c ''capability_token'' = None"
    "ctx_str c ''task_id'' = ctx_str (r_Context q) ''task_id''"
proof -
  obtain c where c: "s1 = s" "dispatchable g (en_Manifest e)" "q1 = (gated_request e q)\<lparr>r_Context := c\<rparr>"
    "\<forall>k. k \<notin> {''capability_rollback_plan_hash'', ''capability_rollback_plan_id''} \<longrightarrow> ctx_get c k = ctx_get (r_Context (gated_request e q)) k"
    using reversibility_go [OF assms] by blast
  show thesis
  proof (rule that [OF c(1,2)])
    show "q1 = q\<lparr>r_Context := c\<rparr>" by (simp add: c(3) without_token_def)
    show "ctx_get c ''capability_token'' = None"
      using c(4) [rule_format, of "''capability_token''"] by (simp add: enrich_capability_get without_token_get)
    show "ctx_str c ''task_id'' = ctx_str (r_Context q) ''task_id''"
      using c(4) [rule_format, of "''task_id''"] by (simp add: ctx_str_def enrich_capability_get without_token_get)
  qed
qed

lemma capability_gate:
  assumes "resolveCapabilityGate g sn v q s = (s', r)"
  obtains (refused) "refuses r"
  | (passed) c tokens where "r = PreGo (q\<lparr>r_Context := c\<rparr>)" "ctx_get c ''capability_token'' = None" "s' = s\<lparr>dc_tokens := tokens\<rparr>"
      "capability_ok g (r_Context q) (dc_tokens s)"
proof (cases "gd_registry g = None \<or> ctx_get (r_Context q) ''capability_id'' = None")
  case True
  have "capability_ok g (r_Context q) (dc_tokens s)" using True by (auto simp: capability_ok_def)
  moreover have "without_token q = q\<lparr>r_Context := r_Context (without_token q)\<rparr>" by (simp add: without_token_def)
  ultimately show ?thesis
    using unnamed_capability [OF assms True] by (intro passed [of "r_Context (without_token q)" "dc_tokens s"]) (simp_all add: without_token_get)
next
  case False
  then obtain raw where raw: "ctx_get (r_Context q) ''capability_id'' = Some raw" and reg: "gd_registry g \<noteq> None" by auto
  from assms raw reg show ?thesis
  proof (cases rule: named_capability)
    case stopped
    then show ?thesis by (rule refused)
  next
    case (entry i e q1 s1)
    obtain c where c: "s1 = s" "dispatchable g (en_Manifest e)" "q1 = q\<lparr>r_Context := c\<rparr>" "ctx_get c ''capability_token'' = None"
      "ctx_str c ''task_id'' = ctx_str (r_Context q) ''task_id''"
      using reversibility_request [OF entry(4)] by blast
    have ok: "capability_ok g (r_Context q) (dc_tokens s)"
      if "\<forall>t. ctx_get (r_Context q) ''capability_token'' = Some t \<longrightarrow> token_accepted g (r_Context q) e (dc_tokens s) t"
      using that entry(1-3) c(2) raw by (simp add: capability_ok_def)
    show ?thesis
    proof (cases "ctx_get (r_Context q) ''capability_token''")
      case None
      then show ?thesis using entry(5) c ok by (intro passed [of c "dc_tokens s"]) simp_all
    next
      case (Some t)
      then have ct: "check_token g q1 e t sn v s = (s', r)" using entry(5) c(1) by simp
      show ?thesis
      proof (cases r)
        case (PreStop x)
        have "d_Verdict d \<noteq> VerdictAllow \<and> d_InputContext d = r_Context q1" if "x = Ok d" for d
          by (rule check_token_stop [OF ct [unfolded PreStop that]])
        then show ?thesis using c(3,4) by (intro refused) (simp add: refuses_def PreStop)
      next
        case (PreGo q')
        obtain tokens j where go: "s' = s\<lparr>dc_tokens := tokens\<rparr>" "q' = q1\<lparr>r_Context := put_str ''capability_token_id'' j (r_Context q1)\<rparr>"
          "token_accepted g (r_Context q) e (dc_tokens s) t"
          using check_token_go [OF ct [unfolded PreGo]] c(3,5) unfolding token_accepted_def by fastforce
        show ?thesis using go c ok Some by (intro passed [of "r_Context q'" tokens]) (simp_all add: PreGo)
      qed
    qed
  qed
qed

text \<open>
  A bearer token never reaches a record through the capability gate. Whatever the request, the gate's own refusals
  are not ALLOW and carry no raw token in their context, and the request it lets through does not carry it either.
\<close>
theorem raw_token_removed:
  assumes "resolveCapabilityGate g sn v q s = (s', r)"
  shows "(\<forall>q'. r = PreGo q' \<longrightarrow> ctx_get (r_Context q') ''capability_token'' = None) \<and>
    (\<forall>d. r = PreStop (Ok d) \<longrightarrow> d_Verdict d \<noteq> VerdictAllow \<and> ctx_get (d_InputContext d) ''capability_token'' = None)"
  using assms by (cases rule: capability_gate) (auto simp: refuses_def)

section \<open>The other steps before the chain\<close>

text \<open>The hazard a request reports leaves it admissible: none, one that only narrows, or a read-only one and an inspection.\<close>

definition hazard_ok :: "('b, 'ip, 'net, 'x) DecideGuardian_scheme \<Rightarrow> DecisionRequest \<Rightarrow> bool" where
  "hazard_ok g q \<longleftrightarrow> (\<forall>sv. gd_safedep g = Some sv \<longrightarrow> (let sg = context_signal sv (r_Context q) in
     Signal_Empty sg \<or> sg_HazardCode sg \<in> set narrowing_hazards \<or>
     sg_HazardCode sg \<in> set readonly_hazards \<and> IsInspectionAction (sd_ul sv) (r_Action q) (r_Resource q)))"

abbreviation not_allowed :: "(guardian_error, DecisionRecord) res \<Rightarrow> bool" where
  "not_allowed x \<equiv> \<forall>d. x = Ok d \<longrightarrow> d_Verdict d \<noteq> VerdictAllow"

lemma states_differ: "SafeDepDegradedNarrowing \<noteq> SafeDepTerminalFreeze" "SafeDepDeprecatedReadonly \<noteq> SafeDepTerminalFreeze"
  "SafeDepDegradedNarrowing \<noteq> SafeDepDeprecatedReadonly"
  by (simp_all add: SafeDepDegradedNarrowing_def SafeDepTerminalFreeze_def SafeDepDeprecatedReadonly_def)

lemma unblocked:
  "\<not> safedep_blocks sv (snd (Classify sv sg sd)) q \<Longrightarrow> sg_HazardCode sg \<in> set narrowing_hazards \<or>
     sg_HazardCode sg \<in> set readonly_hazards \<and> IsInspectionAction (sd_ul sv) (r_Action q) (r_Resource q)"
  using states_differ by (auto simp: safedep_blocks_def classify_class split: if_splits)

lemma snapshot_not_ready: "select_snapshot g q = NotReady x \<Longrightarrow> not_allowed x"
  by (auto simp: select_snapshot_def Let_def split: option.splits if_splits dest!: signed_for_request)

lemma snapshot_active:
  assumes "select_snapshot g q = Active sn v" "g_snapshots g = Some store"
  obtains snapshot where "sn = Some snapshot" "store (policyScopeFromContext g (r_Context q)) = Some snapshot" "ps_Status snapshot = ''active''"
    "v = ps_PolicyHash snapshot"
proof (cases "store (policyScopeFromContext g (r_Context q))")
  case None
  then show ?thesis using assms by (simp add: select_snapshot_def)
next
  case (Some snapshot)
  then have "ps_Status snapshot = ''active''" "sn = Some snapshot" "v = ps_PolicyHash snapshot"
    using assms by (simp_all add: select_snapshot_def Let_def split: if_splits)
  then show ?thesis using Some that by blast
qed

lemma safedep_outcome:
  assumes "safedep_step g sn v q s = (s1, r)"
  obtains (refused) x where "r = PreStop x" "not_allowed x"
  | (passed) sd c where "r = PreGo (q\<lparr>r_Context := c\<rparr>)" "s1 = s\<lparr>dc_safedep := sd\<rparr>" "hazard_ok g q"
      "ctx_kept {''safe_deprecation_state'', ''safe_deprecation_reason_code''} (r_Context q) c"
proof (cases "gd_safedep g")
  case None
  then show ?thesis using assms by (intro passed [of "r_Context q" "dc_safedep s"]) (auto simp: safedep_step_def hazard_ok_def)
next
  case (Some sv)
  define sg where "sg = context_signal sv (r_Context q)"
  show ?thesis
  proof (cases "Signal_Empty sg")
    case True
    then show ?thesis using assms Some
      by (intro passed [of "r_Context q" "dc_safedep s"]) (auto simp: safedep_step_def hazard_ok_def sg_def Let_def)
  next
    case False
    obtain sd cl where cl: "Classify sv sg (dc_safedep s) = (sd, cl)" by fastforce
    define c where "c = put_str ''safe_deprecation_reason_code'' (hc_ReasonCode cl) (put_str ''safe_deprecation_state'' (hc_State cl) (r_Context q))"
    note run = assms [unfolded safedep_step_def Some option.case Let_def, folded sg_def, unfolded cl prod.case, folded c_def]
    have b: "safedep_blocks sv cl (q\<lparr>r_Context := c\<rparr>) = safedep_blocks sv cl q" by (simp add: safedep_blocks_def)
    show ?thesis
    proof (cases "safedep_blocks sv cl q")
      case True
      then show ?thesis using run False b by (intro refused) (auto dest!: signed_for_request)
    next
      case blocks: False
      have "hazard_ok g q" using unblocked [of sv sg "dc_safedep s" q, unfolded cl snd_conv] blocks Some by (simp add: hazard_ok_def Let_def sg_def)
      then show ?thesis using run False b blocks by (intro passed [of c sd]) (auto simp: c_def ctx_kept_def)
    qed
  qed
qed

lemma risk_outcome:
  assumes "session_risk_step g sn v q s = (s1, rs, r)"
  obtains (refused) x where "r = PreStop x" "not_allowed x"
  | (passed) m c where "r = PreGo (q\<lparr>r_Context := c\<rparr>)" "s1 = s\<lparr>dc_risk := m\<rparr>"
      "\<forall>old. dc_risk s = Some old \<longrightarrow> (\<exists>new x. Risk_Evaluate (gd_risk g) (sessionRiskSessionID q) (r_SessionHistory q) q old = (new, x) \<and>
         m = Some new \<and> rs = Some x \<and> \<not> ShouldDeny new x)"
proof (cases "dc_risk s")
  case None
  then show ?thesis using assms by (intro passed [of "r_Context q" "dc_risk s"]) (auto simp: session_risk_step_def)
next
  case (Some old)
  obtain new x where ev: "Risk_Evaluate (gd_risk g) (sessionRiskSessionID q) (r_SessionHistory q) q old = (new, x)" by fastforce
  note run = assms [unfolded session_risk_step_def Some option.case ev prod.case Let_def]
  show ?thesis
  proof (cases "ShouldDeny new x")
    case True
    then have "\<exists>x. r = PreStop x \<and> not_allowed x" using run by (auto split: sum.splits dest!: signed_for_request)
    then show ?thesis using refused by blast
  next
    case False
    then show ?thesis using run Some ev by (intro passed [of "attachSessionRiskContext (r_Context q) x" "Some new"]) auto
  qed
qed

section \<open>What an ALLOW means\<close>

text \<open>Every ALLOW of an evaluation comes from the chain; the steps before it only add to the request's context and to their own state.\<close>

lemma allowed_evaluation:
  assumes "EvaluateDecision g req s = (s', Ok d)" "d_Verdict d = VerdictAllow"
  obtains sn v sd q tokens q2 m rs c where "select_snapshot g req = Active sn v" "hazard_ok g req"
    "ctx_kept {''safe_deprecation_state'', ''safe_deprecation_reason_code''} (r_Context req) (r_Context q)"
    "r_Principal q = r_Principal req" "r_Action q = r_Action req" "r_Resource q = r_Resource req"
    "capability_ok g (r_Context q) (dc_tokens s)" "q2 = q\<lparr>r_Context := c\<rparr>"
    "\<forall>old. dc_risk s = Some old \<longrightarrow> (\<exists>new x. m = Some new \<and> rs = Some x \<and> \<not> ShouldDeny new x)"
    "run_chain g (initial_context g sn v rs q2) (s\<lparr>dc_safedep := sd, dc_tokens := tokens, dc_risk := m\<rparr>) = (s', Ok d)"
proof -
  have al: "\<not> not_allowed (Ok d)" using assms(2) by simp
  obtain sn v where sel: "select_snapshot g req = Active sn v"
    using assms(1) al by (cases "select_snapshot g req") (auto simp: EvaluateDecision_def dest!: snapshot_not_ready)
  obtain s1 r1 where st1: "safedep_step g sn v req s = (s1, r1)" by fastforce
  note run1 = assms(1) [unfolded EvaluateDecision_def sel snapshot_choice.case st1 prod.case]
  from st1 obtain sd c1 where p1: "r1 = PreGo (req\<lparr>r_Context := c1\<rparr>)" "s1 = s\<lparr>dc_safedep := sd\<rparr>" "hazard_ok g req"
    "ctx_kept {''safe_deprecation_state'', ''safe_deprecation_reason_code''} (r_Context req) c1"
    using run1 al by (cases rule: safedep_outcome) auto
  define q where "q = req\<lparr>r_Context := c1\<rparr>"
  obtain s2 r2 where st2: "resolveCapabilityGate g sn v q s1 = (s2, r2)" by fastforce
  note run2 = run1 [unfolded p1(1) pre_result.case, folded q_def, unfolded st2 prod.case]
  from st2 obtain c2 tokens where p2: "r2 = PreGo (q\<lparr>r_Context := c2\<rparr>)" "s2 = s1\<lparr>dc_tokens := tokens\<rparr>" "capability_ok g (r_Context q) (dc_tokens s1)"
    using run2 al by (cases rule: capability_gate) (auto simp: refuses_def)
  define q1 where "q1 = enrich_history (q\<lparr>r_Context := c2\<rparr>)"
  obtain s3 rs r3 where st3: "session_risk_step g sn v q1 s2 = (s3, rs, r3)" by (metis prod_cases3)
  note run3 = run2 [unfolded p2(1) pre_result.case, folded q1_def, unfolded st3 prod.case]
  from st3 obtain m c3 where p3: "r3 = PreGo (q1\<lparr>r_Context := c3\<rparr>)" "s3 = s2\<lparr>dc_risk := m\<rparr>"
      "\<forall>old. dc_risk s2 = Some old \<longrightarrow> (\<exists>new x. m = Some new \<and> rs = Some x \<and> \<not> ShouldDeny new x)"
  proof (cases rule: risk_outcome)
    case (refused x)
    then show ?thesis using run3 al by auto
  next
    case (passed m c)
    then show ?thesis by (intro that [of c m]) blast+
  qed
  have q: "r_Context q = c1" "r_Principal q = r_Principal req" "r_Action q = r_Action req" "r_Resource q = r_Resource req" by (simp_all add: q_def)
  have q1: "q1\<lparr>r_Context := c3\<rparr> = q\<lparr>r_Context := c3\<rparr>" by (simp add: q1_def enrich_history_def Let_def)
  have run4: "run_chain g (initial_context g sn v rs (q\<lparr>r_Context := c3\<rparr>)) s3 = (s', Ok d)" using run3 by (simp add: p3(1) q1)
  show thesis
  proof (rule that [OF sel p1(3) _ q(2-4) _ refl])
    show "ctx_kept {''safe_deprecation_state'', ''safe_deprecation_reason_code''} (r_Context req) (r_Context q)" using p1(4) by (simp add: q)
    show "capability_ok g (r_Context q) (dc_tokens s)" using p2(3) by (simp add: p1(2))
    show "\<forall>old. dc_risk s = Some old \<longrightarrow> (\<exists>new x. m = Some new \<and> rs = Some x \<and> \<not> ShouldDeny new x)" using p3(3) by (simp add: p2(2) p1(2))
    show "run_chain g (initial_context g sn v rs (q\<lparr>r_Context := c3\<rparr>)) (s\<lparr>dc_safedep := sd, dc_tokens := tokens, dc_risk := m\<rparr>) = (s', Ok d)"
      using run4 by (simp add: p3(2) p2(2) p1(2))
  qed
qed

lemma capability_kept:
  assumes "capability_ok g c' tokens" "ctx_kept K c c'" "{''capability_id'', ''capability_token'', ''capability_manifest_hash'', ''task_id''} \<inter> K = {}"
  shows "capability_ok g c tokens"
proof -
  have k: "ctx_get c' k = ctx_get c k" if "k \<in> {''capability_id'', ''capability_token'', ''capability_manifest_hash'', ''task_id''}" for k
    using assms(2,3) that unfolding ctx_kept_def by blast
  have "pin_ok c' e = pin_ok c e" for e by (simp add: pin_ok_def k)
  moreover have "token_accepted g c' e tokens t = token_accepted g c e tokens t" for e t by (simp add: token_accepted_def ctx_str_def k)
  ultimately show ?thesis using assms(1) by (simp add: capability_ok_def k)
qed


text \<open>
  An allowed capability is registered, pinned and reversible, and its token is good. When an evaluation with a
  capability registry allows a request that names a capability, the name is that of a registered manifest, the
  revision the request pins is the registered one, the capability is read-only or reversible inside the device with a
  rollback plan that is bound to it and not expired, and a token the request carries was decoded and verified for its
  task, for that capability and for that revision.
\<close>
theorem allowed_capability:
  assumes "EvaluateDecision g req s = (s', Ok d)" "d_Verdict d = VerdictAllow" "gd_registry g = Some reg"
    "ctx_get (r_Context req) ''capability_id'' = Some raw"
  shows "\<exists>i e. raw = GStr i \<and> Resolve (Some reg) i = Some e \<and> pin_ok (r_Context req) e \<and>
    (m_EffectClass (en_Manifest e) = ''read_only'' \<or>
     m_EffectClass (en_Manifest e) \<noteq> ''irreversible'' \<and> m_Reversibility (en_Manifest e) \<noteq> ''none'' \<and>
       m_DataBoundary (en_Manifest e) \<notin> {''org_boundary'', ''external''} \<and>
       (\<exists>plan. ResolvePlan (gd_plans g) (rr_PlanRef (m_Rollback (en_Manifest e))) = Some plan \<and>
          p_AppliesCapabilityID (pe_Plan plan) = m_CapabilityID (en_Manifest e) \<and> \<not> Plan_Expired (pe_Plan plan) (g_clk g ''rollback plan''))) \<and>
    (\<forall>t. ctx_get (r_Context req) ''capability_token'' = Some t \<longrightarrow>
       (\<exists>ver presented vreq token tokens'. gd_verifier g = Some ver \<and> DecodeToken (gd_decode g) (gd_encode g) t = Ok presented \<and>
          vr_Presented vreq = Some presented \<and> vr_TaskID vreq = or_empty (ctx_str (r_Context req) ''task_id'') \<and>
          vr_CapabilityID vreq = m_CapabilityID (en_Manifest e) \<and> vr_ManifestHash vreq = en_Hash e \<and>
          Verify (gd_tenv g) ver vreq (dc_tokens s) = (tokens', Ok token)))"
proof -
  obtain q :: DecisionRequest where k: "ctx_kept {''safe_deprecation_state'', ''safe_deprecation_reason_code''} (r_Context req) (r_Context q)"
    "capability_ok g (r_Context q) (dc_tokens s)"
    by (rule allowed_evaluation [OF assms(1,2)], rule that) assumption+
  have "capability_ok g (r_Context req) (dc_tokens s)" by (rule capability_kept [OF k(2,1)]) simp
  then obtain i e where e: "raw = GStr i" "Resolve (Some reg) i = Some e" "pin_ok (r_Context req) e" "dispatchable g (en_Manifest e)"
    "\<forall>t. ctx_get (r_Context req) ''capability_token'' = Some t \<longrightarrow> token_accepted g (r_Context req) e (dc_tokens s) t"
    using assms(3,4) by (auto simp: capability_ok_def)
  have p: "\<not> Plan_Expired plan now \<longleftrightarrow> (\<forall>t. p_GuaranteeExpiry plan = Some t \<longrightarrow> now < t)" for plan now
    by (auto simp: Plan_Expired_def split: option.split)
  show ?thesis
    using e(4,5) unfolding dispatchable_def token_accepted_def p by (intro exI [of _ i] exI [of _ e] conjI e(1-3)) simp_all
qed

section \<open>An evaluation that allows\<close>

text \<open>The configuration of the chain's example, with a policy store, a capability registry, a verifier of tokens and a rollback plan.\<close>

definition w_plan :: RollbackPlanEntry where
  "w_plan = \<lparr>pe_Plan = \<lparr>p_SchemaVersion = ''rollback-plan/v1'', p_PlanID = ''undo'', p_Strategy = ''exact_undo'', p_AppliesCapabilityID = ''helm.cap.fs.write'',
     p_AppliesEffectReceiptRef = [], p_Steps = [], p_VerificationMethod = [], p_EvidenceRefs = [], p_GuaranteeExpiry = None\<rparr>, pe_Hash = ''h'', pe_SourcePath = []\<rparr>"

definition w_decide :: "(int, string, string) DecideGuardian" where
  "w_decide = w_gates_with (DecideGuardian.fields None (Some w_pdp) (Some w_registry) (Some w_verifier) w_tenv (\<lambda>s. Ok w_token) (\<lambda>m. Err [])
     (\<lambda>e. []) (Some \<lparr>plans = [(''undo-write'', w_plan)]\<rparr>) (\<lambda>d. True) (Some w_sd) w_risk (\<lambda>r. []))"

definition w_decide_state :: "(int, string) decide_state" where
  "w_decide_state = w_state_with (decide_state.fields w_token_store None w_sd_state) w_store"

definition w_capability_request :: DecisionRequest where
  "w_capability_request = \<lparr>r_Principal = ''alice'', r_Action = ''WRITE'', r_Resource = ''file'',
     r_Context = Some ([(''capability_id'', GStr ''helm.cap.fs.write''), (''capability_token'', GStr ''t''), (''task_id'', GStr ''task'')] @ the w_ctx),
     r_SessionHistory = []\<rparr>"

lemma w_decide_fields [simp]:
  "gd_prg w_decide = None" "gd_pdp w_decide = Some w_pdp" "gd_registry w_decide = Some w_registry" "gd_verifier w_decide = Some w_verifier"
  "gd_tenv w_decide = w_tenv" "gd_decode w_decide = (\<lambda>s. Ok w_token)" "gd_plans w_decide = Some \<lparr>plans = [(''undo-write'', w_plan)]\<rparr>"
  "gd_safedep w_decide = Some w_sd" "g_snapshots w_decide = Some (\<lambda>sc. Some w_snapshot)"
  by (simp_all add: w_decide_def w_gates_with_def Guardian.defs GateGuardian.defs DecideGuardian.defs w_guardian_def)

lemma w_capability_context:
  "ctx_get (r_Context w_capability_request) k = (if k = ''capability_id'' then Some (GStr ''helm.cap.fs.write'')
     else if k = ''capability_token'' then Some (GStr ''t'') else if k = ''task_id'' then Some (GStr ''task'') else ctx_get w_ctx k)"
  by (simp add: w_capability_request_def ctx_get_def w_ctx_def)

lemma w_no_hazard: "Signal_Empty (context_signal w_sd (r_Context w_capability_request))"
proof -
  have "blank []" by code_simp
  then show ?thesis
    by (simp add: w_capability_request_def ctx_get_w SignalFromContext.simps context_signal_def firstString_def or_empty_def zero_signal_def Signal_Empty_def)
qed

lemma w_capability_gate:
  "\<exists>q tokens. resolveCapabilityGate w_decide (Some w_snapshot) ''p'' w_capability_request w_decide_state = (w_decide_state\<lparr>dc_tokens := tokens\<rparr>, PreGo q) \<and>
     r_Principal q = ''alice'' \<and> r_Action q = ''WRITE'' \<and> r_Resource q = ''file'' \<and> r_SessionHistory q = [] \<and> ctx_kept w_free w_ctx (r_Context q)"
proof -
  let ?q = "w_capability_request"
  have m: "m_EffectClass w_manifest = ''write_local''" "m_Reversibility w_manifest = ''exact_undo''" "m_DataBoundary w_manifest = ''local_only''"
    "rr_Required (m_Rollback w_manifest)" "rr_PlanRef (m_Rollback w_manifest) = ''undo-write''" "m_CapabilityID w_manifest = ''helm.cap.fs.write''"
    "m_MinModelTier w_manifest = []" "en_Manifest w_entry = w_manifest" "en_Hash w_entry = ''sha256:'' @ replicate 64 (CHR ''0'')"
    by (simp_all add: w_manifest_def w_entry_def)
  define c where "c = put_str ''capability_rollback_plan_hash'' ''h'' (put_str ''capability_rollback_plan_id'' ''undo''
     (enrich_capability w_entry (r_Context (without_token ?q))))"
  define q1 where "q1 = ?q\<lparr>r_Context := c\<rparr>"
  have g: "gated_request w_entry ?q = ?q\<lparr>r_Context := enrich_capability w_entry (r_Context (without_token ?q))\<rparr>" by (simp add: without_token_def)
  have ap: "applyReversibilityPolicy w_decide (gated_request w_entry ?q) w_entry (Some w_snapshot) ''p'' w_decide_state = (w_decide_state, PreGo q1)"
    by (simp add: applyReversibilityPolicy_def m ResolvePlan_def AppliesToCapability_def Plan_Expired_def w_plan_def q1_def c_def g)
  have gc0: "ctx_get c k = (if take 11 k = ''capability_'' then ctx_get c k else if k = ''task_id'' then Some (GStr ''task'') else ctx_get w_ctx k)" for k
    by (auto simp: c_def enrich_capability_def Let_def without_token_get w_capability_context m)
  have gc: "ctx_get c k = (if k = ''task_id'' then Some (GStr ''task'') else ctx_get w_ctx k)" if "take 11 k \<noteq> ''capability_''" for k
    by (rule trans [OF gc0]) (simp add: that)
  have args: "ctx_get c ''arguments'' = None" "ctx_str c ''task_id'' = Some ''task''"
    using gc [of "''arguments''"] gc [of "''task_id''"] by (simp_all add: ctx_get_w ctx_str_def)
  obtain tokens where v: "Verify w_tenv w_verifier w_verify_request w_token_store = (tokens, Ok w_token)" using w_verified_token by blast
  have st: "dc_tokens w_decide_state = w_token_store" by (simp add: w_decide_state_def w_state_with_def decide_state.defs)
  define q2 where "q2 = q1\<lparr>r_Context := put_str ''capability_token_id'' (tk_TokenID w_token) c\<rparr>"
  have ct: "check_token w_decide q1 w_entry (GStr ''t'') (Some w_snapshot) ''p'' w_decide_state = (w_decide_state\<lparr>dc_tokens := tokens\<rparr>, PreGo q2)"
    using v by (simp add: check_token_def DecodeToken_def q1_def q2_def st args m w_verify_request_def or_empty_def)
  have r: "Resolve (Some w_registry) ''helm.cap.fs.write'' = Some w_entry" "pin_ok (r_Context (without_token ?q)) w_entry"
    "ctx_get (r_Context ?q) ''capability_token'' = Some (GStr ''t'')" "r_Context ?q \<noteq> None"
    "ctx_get (r_Context (without_token ?q)) ''capability_id'' = Some (GStr ''helm.cap.fs.write'')"
    by (simp_all add: w_resolve pin_ok_def without_token_get w_capability_context ctx_get_w) (simp add: w_capability_request_def)
  have "resolveCapabilityGate w_decide (Some w_snapshot) ''p'' ?q w_decide_state = (w_decide_state\<lparr>dc_tokens := tokens\<rparr>, PreGo q2)"
    unfolding resolveCapabilityGate_def Let_def without_token_def [symmetric] by (simp add: r ap ct)
  moreover have "ctx_kept w_free w_ctx (r_Context q2)"
    unfolding ctx_kept_def w_free_def using gc by (auto simp: q2_def)
  moreover have "r_Principal q2 = ''alice''" "r_Action q2 = ''WRITE''" "r_Resource q2 = ''file''" "r_SessionHistory q2 = []"
    by (simp_all add: q2_def q1_def w_capability_request_def)
  ultimately show ?thesis by blast
qed

lemma w_evaluation:
  "\<exists>s' d. EvaluateDecision w_decide w_capability_request w_decide_state = (s', Ok d) \<and> d_Verdict d = VerdictAllow"
proof -
  obtain q tokens where cg: "resolveCapabilityGate w_decide (Some w_snapshot) ''p'' w_capability_request w_decide_state = (w_decide_state\<lparr>dc_tokens := tokens\<rparr>, PreGo q)"
    and q: "r_Principal q = ''alice''" "r_Action q = ''WRITE''" "r_Resource q = ''file''" "r_SessionHistory q = []" "ctx_kept w_free w_ctx (r_Context q)"
    using w_capability_gate by blast
  have sn: "select_snapshot w_decide w_capability_request = Active (Some w_snapshot) ''p''"
    by (simp add: select_snapshot_def w_snapshot_def Let_def)
  have sd: "safedep_step w_decide (Some w_snapshot) ''p'' w_capability_request w_decide_state = (w_decide_state, PreGo w_capability_request)"
    by (simp add: safedep_step_def w_no_hazard Let_def)
  have rk: "session_risk_step w_decide (Some w_snapshot) ''p'' q (w_decide_state\<lparr>dc_tokens := tokens\<rparr>) = (w_decide_state\<lparr>dc_tokens := tokens\<rparr>, None, PreGo q)"
    by (simp add: session_risk_step_def w_decide_state_def w_state_with_def decide_state.defs)
  define ec where "ec = initial_context w_decide (Some w_snapshot) ''p'' None q"
  have l: "w_like ec" "ec_ThreatScanResult ec = None"
    using q by (simp_all add: w_like_def same_request_def ec_def initial_context_def active_graph_def active_pdp_def w_ec_def)
      (simp_all add: w_snapshot_def)
  have st: "w_decide_state\<lparr>dc_tokens := tokens\<rparr> = w_state_with (decide_state.fields tokens None w_sd_state) w_store"
    by (simp add: w_decide_state_def w_state_with_def decide_state.defs)
  have "\<exists>s' d. run_chain w_decide ec (w_decide_state\<lparr>dc_tokens := tokens\<rparr>) = (s', Ok d) \<and> d_Verdict d = VerdictAllow"
    unfolding st w_decide_def by (rule w_chain_run_from [OF l])
  then show ?thesis
    by (simp add: EvaluateDecision_def sn sd cg enrich_history_def q(4) rk ec_def [symmetric])
qed

theorem raw_token_removed_witness:
  "\<exists>q tokens. resolveCapabilityGate w_decide (Some w_snapshot) ''p'' w_capability_request w_decide_state = (w_decide_state\<lparr>dc_tokens := tokens\<rparr>, PreGo q) \<and>
     ctx_get (r_Context w_capability_request) ''capability_token'' = Some (GStr ''t'') \<and> ctx_get (r_Context q) ''capability_token'' = None"
proof -
  obtain q tokens where cg: "resolveCapabilityGate w_decide (Some w_snapshot) ''p'' w_capability_request w_decide_state = (w_decide_state\<lparr>dc_tokens := tokens\<rparr>, PreGo q)"
    using w_capability_gate by blast
  show ?thesis using raw_token_removed [OF cg] by (intro exI [of _ q] exI [of _ tokens] conjI cg) (simp_all add: w_capability_context)
qed


theorem allowed_capability_witness:
  "\<exists>s' d. EvaluateDecision w_decide w_capability_request w_decide_state = (s', Ok d) \<and> d_Verdict d = VerdictAllow \<and>
     (\<exists>plan. ResolvePlan (gd_plans w_decide) ''undo-write'' = Some plan \<and> p_AppliesCapabilityID (pe_Plan plan) = ''helm.cap.fs.write'')"
proof -
  obtain s' d where e: "EvaluateDecision w_decide w_capability_request w_decide_state = (s', Ok d)" "d_Verdict d = VerdictAllow" using w_evaluation by blast
  have "ctx_get (r_Context w_capability_request) ''capability_id'' = Some (GStr ''helm.cap.fs.write'')" by (simp add: w_capability_context)
  then show ?thesis
    using e allowed_capability [OF e w_decide_fields(3)] by (fastforce simp: w_resolve w_entry_def w_manifest_def)
qed

section \<open>Denials before the capability gate\<close>

text \<open>
  The records of the earlier denials carry the context as the caller sent it, a bearer token included: only the
  capability gate takes it out.
\<close>

lemma token_in_early_denial:
  assumes "select_snapshot g req = NotReady (Ok d)"
  shows "ctx_get (d_InputContext d) ''capability_token'' = ctx_get (r_Context req) ''capability_token''"
  using assms by (auto simp: select_snapshot_def Let_def split: option.splits if_splits dest!: signed_for_request)

end
