(* ===== verification/Receipt_Store.thy ===== *)
theory Receipt_Store
  imports Safe_Dep "HOL-Library.List_Lexorder" "HOL-Library.Product_Lexorder" "HOL-Library.Char_ord"
begin

text \<open>
  Execution receipts (\<^verbatim>\<open>core/pkg/contracts/receipt.go\<close>, \<^verbatim>\<open>receipt_hash.go\<close>) and the SQLite receipt store
  (\<^verbatim>\<open>core/pkg/store/receipt_store_sqlite.go\<close>, with the parts of \<^verbatim>\<open>receipt_store.go\<close> it shares with PostgreSQL).
  The table is the list of its rows in the order of insertion; nothing deletes or updates a row. A statement can fail
  at any call: \<open>se_fail\<close> names the error of the statement at a site. JSON and time formats and the canonical hash are
  parameters. Where SQL leaves the order of rows open, the first inserted one comes first.
\<close>

section \<open>Receipts\<close>

record Receipt =
  rp_ReceiptID :: string
  rp_DecisionID :: string
  rp_CorrelationID :: string
  rp_EffectID :: string
  rp_ExternalReferenceID :: string
  rp_Status :: string
  rp_BlobHash :: string
  rp_OutputHash :: string
  rp_Timestamp :: gotime
  rp_ExecutorID :: string
  rp_Metadata :: gctx
  rp_Signature :: string
  rp_SignatureProfile :: string
  rp_SignatureAlgorithm :: string
  rp_KeyID :: string
  rp_PublicKeySet :: "(string, string) gomap"
  rp_MerkleRoot :: string
  rp_PrevHash :: string
  rp_LamportClock :: "64 word"
  rp_ArgsHash :: string
  rp_SignatureVersion :: string
  rp_DecisionHash :: string
  rp_Verdict :: string
  rp_ReasonCode :: string
  rp_PolicyHash :: string
  rp_SessionID :: string
  rp_EmergencyActivationID :: string
  rp_EmergencyDelegationSessionID :: string
  rp_EmergencyScopeHash :: string
  rp_SafeDepState :: string
  rp_SafeDepReasonCode :: string
  rp_Transparency :: "TransparencyAnchor option"
  rp_LogID :: string
  rp_LeafIndex :: "64 word"

definition ReceiptSignatureV5 :: string where "ReceiptSignatureV5 = ''receipt.v5''"

record store_env =
  se_fail :: "string \<Rightarrow> string option"
  se_hash :: "Receipt \<Rightarrow> (string, string) res"
  se_envelope :: "Receipt \<Rightarrow> (string, string) res"
  se_unenvelope :: "string \<Rightarrow> (string, Receipt) res"
  se_meta :: "gctx \<Rightarrow> (string, string) res"
  se_unmeta :: "string \<Rightarrow> (string, gctx) res"
  se_keys :: "(string, string) gomap \<Rightarrow> (string, string) res"
  se_unkeys :: "string \<Rightarrow> (string, (string, string) gomap) res"
  se_anchor :: "TransparencyAnchor \<Rightarrow> (string, string) res"
  se_unanchor :: "string \<Rightarrow> (string, TransparencyAnchor) res"
  se_time :: "gotime \<Rightarrow> string"
  se_untime :: "string \<Rightarrow> gotime"
  se_quote :: "string \<Rightarrow> string"

definition ReceiptChainHash :: "(Receipt \<Rightarrow> (string, string) res) \<Rightarrow> Receipt option \<Rightarrow> (string, string) res" where
  "ReceiptChainHash hash receipt =
     (case receipt of
        None \<Rightarrow> Err ''receipt is nil''
      | Some r \<Rightarrow>
          (case hash (r\<lparr>rp_Transparency := None, rp_LogID := [], rp_LeafIndex := 0\<rparr>) of
             Inl e \<Rightarrow> Err (''canonical receipt hash: '' @ e) | Inr h \<Rightarrow> Ok h))"

definition durableReceiptChainHash :: "store_env \<Rightarrow> Receipt \<Rightarrow> (string, string) res" where
  "durableReceiptChainHash ev r =
     (case ReceiptChainHash (se_hash ev) (Some r) of Inl e \<Rightarrow> Err (''canonical receipt chain hash: '' @ e) | Inr h \<Rightarrow> Ok h)"

section \<open>Scopes\<close>

definition causalReceiptSessionID :: "Receipt \<Rightarrow> string" where
  "causalReceiptSessionID r = (if rp_SignatureVersion r = ReceiptSignatureV5 then rp_SessionID r else rp_ExecutorID r)"

definition causalReceiptTenantScopePrefix :: "string \<Rightarrow> string" where
  "causalReceiptTenantScopePrefix tenantID = ''tenant:'' @ dec_of_nat (length tenantID) @ '':'' @ tenantID @ '':session:''"

definition causalReceiptScopeKey :: "string \<Rightarrow> string \<Rightarrow> string" where
  "causalReceiptScopeKey tenantID sessionID =
     ''tenant:'' @ dec_of_nat (length tenantID) @ '':'' @ tenantID @ '':session:'' @ dec_of_nat (length sessionID) @ '':'' @ sessionID"

section \<open>Rows\<close>

text \<open>
  The columns of a row: plain text and numbers are kept in \<open>c_plain\<close> (whose other fields are zero), the rest as the
  text the code writes.
\<close>

record receipt_row =
  c_plain :: Receipt
  c_timestamp :: string
  c_metadata :: string
  c_transparency :: "string option"
  c_public_key_set :: "string option"
  c_causal_session_id :: string
  c_receipt_envelope :: string
  c_chain_hash :: string

type_synonym receipt_table = "receipt_row list"

definition plain_columns :: "Receipt \<Rightarrow> Receipt" where
  "plain_columns r = r\<lparr>rp_Timestamp := 0, rp_Metadata := None, rp_PublicKeySet := [], rp_Transparency := None,
     rp_EmergencyActivationID := [], rp_EmergencyDelegationSessionID := [], rp_EmergencyScopeHash := [], rp_SafeDepState := [],
     rp_SafeDepReasonCode := []\<rparr>"

definition restoreOrRejectV5DecisionHash :: "store_env \<Rightarrow> Receipt \<Rightarrow> (string, Receipt) res" where
  "restoreOrRejectV5DecisionHash ev r =
     (if rp_SignatureVersion r \<noteq> ReceiptSignatureV5 then Ok r
      else
        (let h = TrimSpace (rp_DecisionHash r) in
         if h \<noteq> [] then Ok (r\<lparr>rp_DecisionHash := h\<rparr>)
         else case ctx_str (rp_Metadata r) ''decision_hash'' of
           Some v \<Rightarrow>
             if TrimSpace v \<noteq> [] then Ok (r\<lparr>rp_DecisionHash := TrimSpace v\<rparr>)
             else Err (''receipt '' @ se_quote ev (rp_ReceiptID r) @ '' declares '' @ ReceiptSignatureV5 @ '' but has no durable decision_hash; apply 004_add_receipt_decision_hash.sql and restore it from a trusted decision record'')
         | None \<Rightarrow> Err (''receipt '' @ se_quote ev (rp_ReceiptID r) @ '' declares '' @ ReceiptSignatureV5 @ '' but has no durable decision_hash; apply 004_add_receipt_decision_hash.sql and restore it from a trusted decision record'')))"

definition encodePublicKeySet :: "store_env \<Rightarrow> Receipt \<Rightarrow> (string, string) res" where
  "encodePublicKeySet ev r =
     (if rp_PublicKeySet r = [] then Ok []
      else case se_keys ev (rp_PublicKeySet r) of Inl e \<Rightarrow> Err (''marshal receipt public_key_set: '' @ e) | Inr t \<Rightarrow> Ok t)"

definition encodeTransparencyAnchor :: "store_env \<Rightarrow> Receipt \<Rightarrow> (string, string) res" where
  "encodeTransparencyAnchor ev r =
     (case rp_Transparency r of
        None \<Rightarrow> Ok []
      | Some a \<Rightarrow> (case se_anchor ev a of Inl e \<Rightarrow> Err (''marshal receipt transparency: '' @ e) | Inr t \<Rightarrow> Ok t))"

definition nullableJSON :: "string \<Rightarrow> string option" where
  "nullableJSON raw = (if raw = [] then None else Some raw)"

text \<open>
  The insert statement: \<^verbatim>\<open>database/sql\<close> refuses a uint64 with the high bit set, and \<^verbatim>\<open>receipt_id\<close> is the primary key.
\<close>

definition exec_insert :: "store_env \<Rightarrow> receipt_row \<Rightarrow> receipt_table \<Rightarrow> (string, receipt_table) res" where
  "exec_insert ev row t =
     (if 2 ^ 63 \<le> unat (rp_LamportClock (c_plain row)) \<or> 2 ^ 63 \<le> unat (rp_LeafIndex (c_plain row)) then
        Err ''failed to insert receipt: uint64 values with high bit set are not supported''
      else if list_ex (\<lambda>x. rp_ReceiptID (c_plain x) = rp_ReceiptID (c_plain row)) t then
        Err ''failed to insert receipt: UNIQUE constraint failed: receipts.receipt_id''
      else case se_fail ev ''insert'' of Some e \<Rightarrow> Err (''failed to insert receipt: '' @ e) | None \<Rightarrow> Ok (t @ [row]))"

definition insertSQLiteReceiptWithCausalSession :: "store_env \<Rightarrow> Receipt \<Rightarrow> string \<Rightarrow> receipt_table \<Rightarrow> (string, receipt_table \<times> Receipt) res" where
  "insertSQLiteReceiptWithCausalSession ev r0 causalSessionID t =
     (case restoreOrRejectV5DecisionHash ev r0 of
        Inl e \<Rightarrow> Err e
      | Inr r \<Rightarrow>
          (case se_meta ev (rp_Metadata r) of
             Inl e \<Rightarrow> Err (''marshal receipt metadata: '' @ e)
           | Inr metaJSON \<Rightarrow>
               (case durableReceiptChainHash ev r of
                  Inl e \<Rightarrow> Err e
                | Inr chainHash \<Rightarrow>
                    (case se_envelope ev r of
                       Inl e \<Rightarrow> Err (''marshal canonical receipt envelope: '' @ e)
                     | Inr receiptEnvelope \<Rightarrow>
                         (case encodeTransparencyAnchor ev r of
                            Inl e \<Rightarrow> Err e
                          | Inr transparencyJSON \<Rightarrow>
                              (case encodePublicKeySet ev r of
                                 Inl e \<Rightarrow> Err e
                               | Inr publicKeySetJSON \<Rightarrow>
                                   (case exec_insert ev
                                           \<lparr>c_plain = plain_columns r, c_timestamp = se_time ev (rp_Timestamp r), c_metadata = metaJSON,
                                            c_transparency = nullableJSON transparencyJSON, c_public_key_set = nullableJSON publicKeySetJSON,
                                            c_causal_session_id = causalSessionID, c_receipt_envelope = receiptEnvelope, c_chain_hash = chainHash\<rparr> t of
                                      Inl e \<Rightarrow> Err e | Inr t' \<Rightarrow> Ok (t', r))))))))"

section \<open>Reading rows\<close>

definition decodeTransparencyAnchor :: "store_env \<Rightarrow> string \<Rightarrow> Receipt \<Rightarrow> (string, Receipt) res" where
  "decodeTransparencyAnchor ev raw r =
     (if raw = [] \<or> raw = ''null'' then Ok r
      else case se_unanchor ev raw of Inl e \<Rightarrow> Err (''decode receipt transparency: '' @ e) | Inr a \<Rightarrow> Ok (r\<lparr>rp_Transparency := Some a\<rparr>))"

definition decode_keys :: "store_env \<Rightarrow> string option \<Rightarrow> Receipt \<Rightarrow> (string, Receipt) res" where
  "decode_keys ev raw r =
     (case raw of
        None \<Rightarrow> Ok r
      | Some k \<Rightarrow>
          if k = [] \<or> k = ''null'' then Ok r
          else case se_unkeys ev k of Inl e \<Rightarrow> Err (''decode receipt public_key_set: '' @ e) | Inr ks \<Rightarrow> Ok (r\<lparr>rp_PublicKeySet := ks\<rparr>))"

definition decode_meta :: "store_env \<Rightarrow> string \<Rightarrow> (string, gctx) res" where
  "decode_meta ev m = (if m = [] \<or> m = ''null'' then Ok None
     else case se_unmeta ev m of Inl e \<Rightarrow> Err (''decode receipt metadata: '' @ e) | Inr c \<Rightarrow> Ok c)"

definition receiptFromSQLiteFields :: "store_env \<Rightarrow> receipt_row \<Rightarrow> (string, Receipt) res" where
  "receiptFromSQLiteFields ev row =
     (case decode_meta ev (c_metadata row) of
        Inl e \<Rightarrow> Err e
      | Inr meta \<Rightarrow>
          (case decode_keys ev (c_public_key_set row) ((c_plain row)\<lparr>rp_Timestamp := se_untime ev (c_timestamp row), rp_Metadata := meta\<rparr>) of
             Inl e \<Rightarrow> Err e
           | Inr r \<Rightarrow>
               (case (case c_transparency row of None \<Rightarrow> Ok r | Some a \<Rightarrow> decodeTransparencyAnchor ev a r) of
                  Inl e \<Rightarrow> Err e
                | Inr r \<Rightarrow> restoreOrRejectV5DecisionHash ev r)))"

text \<open>The receipt of a row and whether its envelope reproduced the stored hash.\<close>

definition restoreReceiptEnvelopeWithIntegrity :: "store_env \<Rightarrow> Receipt \<Rightarrow> string \<Rightarrow> string \<Rightarrow> (string, Receipt \<times> bool) res" where
  "restoreReceiptEnvelopeWithIntegrity ev projected raw stored0 =
     (let stored = TrimSpace stored0; q = (\<lambda>r. se_quote ev (rp_ReceiptID r)) in
      if \<not> blank raw \<and> TrimSpace raw \<noteq> ''null'' then
        (case se_unenvelope ev raw of
           Inl e \<Rightarrow> Err (''decode canonical receipt envelope: '' @ e)
         | Inr receipt \<Rightarrow>
             if rp_ReceiptID receipt \<noteq> rp_ReceiptID projected then
               Err (''receipt envelope id '' @ q receipt @ '' does not match stored receipt '' @ q projected)
             else case restoreOrRejectV5DecisionHash ev receipt of
               Inl e \<Rightarrow> Err e
             | Inr receipt \<Rightarrow>
                 if stored = [] then Err (''receipt '' @ q receipt @ '' has a canonical envelope but no persisted chain hash'')
                 else case durableReceiptChainHash ev receipt of
                   Inl e \<Rightarrow> Err e
                 | Inr hash \<Rightarrow>
                     if hash \<noteq> stored then
                       Err (''receipt '' @ q receipt @ '' canonical envelope hash '' @ se_quote ev hash @ '' does not match stored chain hash '' @ se_quote ev stored)
                     else if rp_Verdict receipt \<noteq> rp_Verdict projected then Err (''receipt '' @ q receipt @ '' canonical envelope verdict does not match indexed projection'')
                     else if rp_ReasonCode receipt \<noteq> rp_ReasonCode projected then Err (''receipt '' @ q receipt @ '' canonical envelope reason_code does not match indexed projection'')
                     else if rp_ExecutorID receipt \<noteq> rp_ExecutorID projected then Err (''receipt '' @ q receipt @ '' canonical envelope executor_id does not match indexed projection'')
                     else if rp_EffectID receipt \<noteq> rp_EffectID projected then Err (''receipt '' @ q receipt @ '' canonical envelope effect_id does not match indexed projection'')
                     else if rp_Timestamp receipt \<noteq> rp_Timestamp projected then Err (''receipt '' @ q receipt @ '' canonical envelope timestamp does not match indexed projection'')
                     else Ok (receipt, True))
      else if stored = [] then Ok (projected, False)
      else case durableReceiptChainHash ev projected of
        Inl e \<Rightarrow> Err e
      | Inr hash \<Rightarrow> Ok (projected, hash = stored))"

definition scanSQLiteReceiptWithChainHashMode :: "store_env \<Rightarrow> bool \<Rightarrow> receipt_row \<Rightarrow> (string, Receipt \<times> string) res" where
  "scanSQLiteReceiptWithChainHashMode ev requireCanonicalEnvelope row =
     (case receiptFromSQLiteFields ev row of
        Inl e \<Rightarrow> Err e
      | Inr receipt \<Rightarrow>
          (case restoreReceiptEnvelopeWithIntegrity ev receipt (c_receipt_envelope row) (c_chain_hash row) of
             Inl e \<Rightarrow> Err e
           | Inr (restored, verified) \<Rightarrow>
               if requireCanonicalEnvelope \<and> \<not> verified then
                 Err (''receipt '' @ se_quote ev (rp_ReceiptID receipt) @ '' has no canonical envelope matching its persisted chain hash and cannot be used as verified evidence'')
               else Ok (restored, TrimSpace (c_chain_hash row))))"

section \<open>Queries\<close>

definition query_row :: "store_env \<Rightarrow> string \<Rightarrow> (receipt_row \<Rightarrow> bool) \<Rightarrow> receipt_table \<Rightarrow> (string, receipt_row option) res" where
  "query_row ev site p t = (case se_fail ev site of Some e \<Rightarrow> Err e | None \<Rightarrow> Ok (find p t))"

definition scan_one :: "store_env \<Rightarrow> bool \<Rightarrow> receipt_row \<Rightarrow> (string, Receipt) res" where
  "scan_one ev canonical row = (case scanSQLiteReceiptWithChainHashMode ev canonical row of Inl e \<Rightarrow> Err e | Inr (r, _) \<Rightarrow> Ok r)"

definition query_one :: "store_env \<Rightarrow> bool \<Rightarrow> string \<Rightarrow> (receipt_row \<Rightarrow> bool) \<Rightarrow> receipt_table \<Rightarrow> (string, Receipt) res" where
  "query_one ev canonical site p t =
     (case query_row ev site p t of
        Inl e \<Rightarrow> Err e | Inr None \<Rightarrow> Err ''receipt not found'' | Inr (Some row) \<Rightarrow> scan_one ev canonical row)"

definition tenant_row :: "string \<Rightarrow> receipt_row \<Rightarrow> bool" where
  "tenant_row tenantID row \<longleftrightarrow> rp_SignatureVersion (c_plain row) = ReceiptSignatureV5 \<and> rp_SessionID (c_plain row) \<noteq> [] \<and>
     take (length (causalReceiptTenantScopePrefix tenantID)) (c_causal_session_id row) = causalReceiptTenantScopePrefix tenantID"

definition Receipt_Get :: "store_env \<Rightarrow> string \<Rightarrow> receipt_table \<Rightarrow> (string, Receipt) res" where
  "Receipt_Get ev decisionID t = query_one ev False ''get'' (\<lambda>row. rp_DecisionID (c_plain row) = decisionID) t"

definition GetByDecisionIDForTenant :: "store_env \<Rightarrow> string \<Rightarrow> string \<Rightarrow> receipt_table \<Rightarrow> (string, Receipt option) res" where
  "GetByDecisionIDForTenant ev tenantID0 decisionID t =
     (let tenantID = TrimSpace tenantID0 in
      if tenantID = [] then Err ''tenant id is required''
      else case query_row ev ''get for tenant'' (\<lambda>row. rp_DecisionID (c_plain row) = decisionID \<and> tenant_row tenantID row) t of
        Inl e \<Rightarrow> Err e
      | Inr None \<Rightarrow> Ok None
      | Inr (Some row) \<Rightarrow> (case scan_one ev False row of Inl e \<Rightarrow> Err e | Inr r \<Rightarrow> Ok (Some r)))"

definition GetByReceiptID :: "store_env \<Rightarrow> string \<Rightarrow> receipt_table \<Rightarrow> (string, Receipt) res" where
  "GetByReceiptID ev receiptID t = query_one ev False ''get'' (\<lambda>row. rp_ReceiptID (c_plain row) = receiptID) t"

definition GetCanonicalReceiptByID :: "store_env \<Rightarrow> string \<Rightarrow> receipt_table \<Rightarrow> (string, Receipt) res" where
  "GetCanonicalReceiptByID ev receiptID t = query_one ev True ''get'' (\<lambda>row. rp_ReceiptID (c_plain row) = receiptID) t"

definition GetByReceiptIDForTenant :: "store_env \<Rightarrow> string \<Rightarrow> string \<Rightarrow> receipt_table \<Rightarrow> (string, Receipt) res" where
  "GetByReceiptIDForTenant ev tenantID0 receiptID t =
     (let tenantID = TrimSpace tenantID0 in
      if tenantID = [] then Err ''tenant id is required''
      else query_one ev False ''get'' (\<lambda>row. rp_ReceiptID (c_plain row) = receiptID \<and> tenant_row tenantID row) t)"

definition GetCanonicalReceiptByIDForTenant :: "store_env \<Rightarrow> string \<Rightarrow> string \<Rightarrow> receipt_table \<Rightarrow> (string, Receipt) res" where
  "GetCanonicalReceiptByIDForTenant ev tenantID0 receiptID t =
     (let tenantID = TrimSpace tenantID0 in
      if tenantID = [] then Err ''tenant id is required''
      else query_one ev True ''get'' (\<lambda>row. rp_ReceiptID (c_plain row) = receiptID \<and> tenant_row tenantID row) t)"

definition CountReceipts :: "store_env \<Rightarrow> receipt_table \<Rightarrow> (string, int) res" where
  "CountReceipts ev t = (case se_fail ev ''count'' of Some e \<Rightarrow> Err e | None \<Rightarrow> Ok (int (length t)))"

text \<open>Lists come in the order of the Lamport clock and then of the timestamp text; a negative limit is none.\<close>

fun scan_rows :: "store_env \<Rightarrow> receipt_row list \<Rightarrow> (string, Receipt list) res" where
  "scan_rows ev [] = Ok []"
| "scan_rows ev (row # rows) =
     (case scan_one ev False row of
        Inl e \<Rightarrow> Err e | Inr r \<Rightarrow> (case scan_rows ev rows of Inl e \<Rightarrow> Err e | Inr rs \<Rightarrow> Ok (r # rs)))"

definition limit_rows :: "int \<Rightarrow> 'a list \<Rightarrow> 'a list" where
  "limit_rows n xs = (if n < 0 then xs else take (nat n) xs)"

definition queryReceipts :: "store_env \<Rightarrow> (receipt_row \<Rightarrow> bool) \<Rightarrow> int \<Rightarrow> receipt_table \<Rightarrow> (string, Receipt list) res" where
  "queryReceipts ev p n t =
     (case se_fail ev ''list'' of
        Some e \<Rightarrow> Err e
      | None \<Rightarrow> scan_rows ev (limit_rows n (sort_key (\<lambda>row. (unat (rp_LamportClock (c_plain row)), c_timestamp row)) (filter p t))))"

definition ListByAgent :: "store_env \<Rightarrow> string \<Rightarrow> 64 word \<Rightarrow> int \<Rightarrow> receipt_table \<Rightarrow> (string, Receipt list) res" where
  "ListByAgent ev agentID since n t =
     queryReceipts ev (\<lambda>row. rp_ExecutorID (c_plain row) = agentID \<and> since < rp_LamportClock (c_plain row)) n t"

definition ListByTenant :: "store_env \<Rightarrow> string \<Rightarrow> 64 word \<Rightarrow> int \<Rightarrow> receipt_table \<Rightarrow> (string, Receipt list) res" where
  "ListByTenant ev tenantID0 since n t =
     (let tenantID = TrimSpace tenantID0 in
      if tenantID = [] then Err ''tenant id is required''
      else queryReceipts ev (\<lambda>row. tenant_row tenantID row \<and> since < rp_LamportClock (c_plain row)) n t)"

definition ListByTenantSession :: "store_env \<Rightarrow> string \<Rightarrow> string \<Rightarrow> 64 word \<Rightarrow> int \<Rightarrow> receipt_table \<Rightarrow> (string, Receipt list) res" where
  "ListByTenantSession ev tenantID0 sessionID0 since n t =
     (let tenantID = TrimSpace tenantID0; sessionID = TrimSpace sessionID0 in
      if tenantID = [] then Err ''tenant id is required''
      else if sessionID = [] then Err ''session id is required''
      else queryReceipts ev (\<lambda>row. c_causal_session_id row = causalReceiptScopeKey tenantID sessionID \<and> rp_SessionID (c_plain row) = sessionID \<and>
             rp_SignatureVersion (c_plain row) = ReceiptSignatureV5 \<and> since < rp_LamportClock (c_plain row)) n t)"

definition ListSince :: "store_env \<Rightarrow> 64 word \<Rightarrow> int \<Rightarrow> receipt_table \<Rightarrow> (string, Receipt list) res" where
  "ListSince ev since n t = queryReceipts ev (\<lambda>row. since < rp_LamportClock (c_plain row)) n t"

text \<open>The row of a scope with the highest Lamport clock.\<close>

fun max_row :: "receipt_row \<Rightarrow> receipt_row list \<Rightarrow> receipt_row" where
  "max_row m [] = m"
| "max_row m (row # rows) = max_row (if rp_LamportClock (c_plain m) < rp_LamportClock (c_plain row) then row else m) rows"

definition last_row :: "string \<Rightarrow> receipt_table \<Rightarrow> receipt_row option" where
  "last_row k t = (case filter (\<lambda>row. c_causal_session_id row = k) t of [] \<Rightarrow> None | row # rows \<Rightarrow> Some (max_row row rows))"

definition queryLastSQLiteReceiptWithChainHash :: "store_env \<Rightarrow> string \<Rightarrow> receipt_table \<Rightarrow> (string, (Receipt \<times> string) option) res" where
  "queryLastSQLiteReceiptWithChainHash ev sessionID t =
     (case se_fail ev ''last'' of
        Some e \<Rightarrow> Err e
      | None \<Rightarrow>
          (case last_row sessionID t of
             None \<Rightarrow> Ok None
           | Some row \<Rightarrow> (case scanSQLiteReceiptWithChainHashMode ev False row of Inl e \<Rightarrow> Err e | Inr x \<Rightarrow> Ok (Some x))))"

definition GetLastForSession :: "store_env \<Rightarrow> string \<Rightarrow> receipt_table \<Rightarrow> (string, Receipt option) res" where
  "GetLastForSession ev sessionID t =
     (case queryLastSQLiteReceiptWithChainHash ev sessionID t of Inl e \<Rightarrow> Err e | Inr x \<Rightarrow> Ok (map_option fst x))"

section \<open>Appending\<close>

definition Store_receipt :: "store_env \<Rightarrow> Receipt \<Rightarrow> receipt_table \<Rightarrow> receipt_table \<times> (string, Receipt) res" where
  "Store_receipt ev r t =
     (case insertSQLiteReceiptWithCausalSession ev r (causalReceiptSessionID r) t of Inl e \<Rightarrow> (t, Err e) | Inr (t', r') \<Rightarrow> (t', Ok r'))"

type_synonym CausalReceiptBuilder = "Receipt option \<Rightarrow> 64 word \<Rightarrow> string \<Rightarrow> (string, Receipt option) res"

definition requirePersistedCausalPredecessor :: "string \<Rightarrow> Receipt option \<Rightarrow> string \<Rightarrow> (string, unit) res" where
  "requirePersistedCausalPredecessor causalSessionID previous previousChainHash =
     (case previous of
        Some p \<Rightarrow>
          if blank previousChainHash then
            Err (''cannot append causal receipt for '' @ causalSessionID @ '': predecessor '' @ rp_ReceiptID p @ '' has no persisted chain hash; start a new signed session'')
          else Ok ()
      | None \<Rightarrow> Ok ())"

definition buildNextCausalReceiptScoped ::
  "store_env \<Rightarrow> string \<Rightarrow> string \<Rightarrow> (Receipt \<times> string) option \<Rightarrow> CausalReceiptBuilder \<Rightarrow> (string, Receipt) res" where
  "buildNextCausalReceiptScoped ev causalSessionID externalSessionID previous build =
     (let lamport = (case previous of None \<Rightarrow> 1 | Some (p, _) \<Rightarrow> rp_LamportClock p + 1);
          prevHash = (case previous of None \<Rightarrow> [] | Some (_, h) \<Rightarrow> TrimSpace h) in
      case requirePersistedCausalPredecessor causalSessionID (map_option fst previous) prevHash of
        Inl e \<Rightarrow> Err e
      | Inr _ \<Rightarrow>
          (case build (map_option fst previous) lamport prevHash of
             Inl e \<Rightarrow> Err e
           | Inr None \<Rightarrow> Err ''causal receipt builder returned nil''
           | Inr (Some receipt) \<Rightarrow>
               (let receiptSession = causalReceiptSessionID receipt in
                if receiptSession = [] then Err (''causal receipt builder returned no causal session id for session '' @ se_quote ev causalSessionID)
                else if receiptSession \<noteq> externalSessionID then
                  Err (''receipt causal session '' @ se_quote ev receiptSession @ '' does not match signed session '' @ se_quote ev externalSessionID)
                else if rp_LamportClock receipt \<noteq> lamport then
                  Err (''receipt lamport '' @ dec_of_nat (unat (rp_LamportClock receipt)) @ '' does not match assigned lamport '' @ dec_of_nat (unat lamport))
                else if rp_PrevHash receipt \<noteq> prevHash then
                  Err (''receipt prev_hash '' @ se_quote ev (rp_PrevHash receipt) @ '' does not match assigned prev_hash '' @ se_quote ev prevHash)
                else Ok receipt)))"

text \<open>A transaction that ends before its commit leaves the table as it was.\<close>

definition appendCausal :: "store_env \<Rightarrow> string \<Rightarrow> string \<Rightarrow> CausalReceiptBuilder \<Rightarrow> receipt_table \<Rightarrow> receipt_table \<times> (string, Receipt) res" where
  "appendCausal ev causalSessionID externalSessionID build t =
     (if blank externalSessionID then (t, Err ''session id is required'')
      else case se_fail ev ''connect'' of
        Some e \<Rightarrow> (t, Err (''open receipt connection: '' @ e))
      | None \<Rightarrow>
          (case se_fail ev ''begin'' of
             Some e \<Rightarrow> (t, Err (''begin receipt transaction: '' @ e))
           | None \<Rightarrow>
               (case queryLastSQLiteReceiptWithChainHash ev causalSessionID t of
                  Inl e \<Rightarrow> (t, Err e)
                | Inr previous \<Rightarrow>
                    (case buildNextCausalReceiptScoped ev causalSessionID externalSessionID previous build of
                       Inl e \<Rightarrow> (t, Err e)
                     | Inr receipt \<Rightarrow>
                         (case insertSQLiteReceiptWithCausalSession ev receipt causalSessionID t of
                            Inl e \<Rightarrow> (t, Err e)
                          | Inr (t', r) \<Rightarrow>
                              (case se_fail ev ''commit'' of
                                 Some e \<Rightarrow> (t, Err (''commit receipt transaction: '' @ e))
                               | None \<Rightarrow> (t', Ok r)))))))"

definition AppendCausal :: "store_env \<Rightarrow> string \<Rightarrow> CausalReceiptBuilder \<Rightarrow> receipt_table \<Rightarrow> receipt_table \<times> (string, Receipt) res" where
  "AppendCausal ev sessionID build t = appendCausal ev sessionID sessionID build t"

definition AppendCausalScoped ::
  "store_env \<Rightarrow> string \<Rightarrow> string \<Rightarrow> CausalReceiptBuilder \<Rightarrow> receipt_table \<Rightarrow> receipt_table \<times> (string, Receipt) res" where
  "AppendCausalScoped ev tenantID0 sessionID build t =
     (let tenantID = TrimSpace tenantID0 in
      if tenantID = [] then (t, Err ''tenant id is required'')
      else if blank sessionID then (t, Err ''session id is required'')
      else appendCausal ev (causalReceiptScopeKey tenantID sessionID) sessionID build t)"

definition preflightCausalAppend :: "store_env \<Rightarrow> string \<Rightarrow> receipt_table \<Rightarrow> (string, unit) res" where
  "preflightCausalAppend ev causalSessionID t =
     (case se_fail ev ''connect'' of
        Some e \<Rightarrow> Err (''open receipt connection: '' @ e)
      | None \<Rightarrow>
          (case se_fail ev ''begin'' of
             Some e \<Rightarrow> Err (''begin receipt preflight transaction: '' @ e)
           | None \<Rightarrow>
               (case queryLastSQLiteReceiptWithChainHash ev causalSessionID t of
                  Inl e \<Rightarrow> Err e
                | Inr previous \<Rightarrow> requirePersistedCausalPredecessor causalSessionID (map_option fst previous) (case previous of None \<Rightarrow> [] | Some (_, h) \<Rightarrow> h))))"

definition PreflightCausalAppend :: "store_env \<Rightarrow> string \<Rightarrow> receipt_table \<Rightarrow> (string, unit) res" where
  "PreflightCausalAppend ev sessionID t = (if blank sessionID then Err ''session id is required'' else preflightCausalAppend ev sessionID t)"

definition PreflightCausalAppendScoped :: "store_env \<Rightarrow> string \<Rightarrow> string \<Rightarrow> receipt_table \<Rightarrow> (string, unit) res" where
  "PreflightCausalAppendScoped ev tenantID0 sessionID t =
     (let tenantID = TrimSpace tenantID0 in
      if tenantID = [] then Err ''tenant id is required''
      else if blank sessionID then Err ''session id is required''
      else preflightCausalAppend ev (causalReceiptScopeKey tenantID sessionID) t)"

end
