(* ===== verification/Receipt_Chain.thy ===== *)
theory Receipt_Chain
  imports Receipt_Store
begin

text \<open>
  What the receipt store promises: a scope is an unbroken hash chain, a tenant's lookups see only its own receipts,
  and an appended receipt stays found.
\<close>

section \<open>Inserting and appending\<close>

lemma restore_keeps:
  assumes "restoreOrRejectV5DecisionHash ev r = Ok r'"
  shows "\<exists>h. r' = r\<lparr>rp_DecisionHash := h\<rparr>"
proof (cases "rp_SignatureVersion r = ReceiptSignatureV5")
  case True
  then show ?thesis using assms by (auto simp: restoreOrRejectV5DecisionHash_def Let_def split: if_splits option.splits)
next
  case False
  then have "r' = r\<lparr>rp_DecisionHash := rp_DecisionHash r\<rparr>" using assms by (simp add: restoreOrRejectV5DecisionHash_def)
  then show ?thesis by blast
qed

text \<open>A row as the code writes it.\<close>

definition row_of :: "store_env \<Rightarrow> Receipt \<Rightarrow> string \<Rightarrow> receipt_row \<Rightarrow> bool" where
  "row_of ev r k row \<longleftrightarrow> c_plain row = plain_columns r \<and> c_causal_session_id row = k \<and> se_envelope ev r = Ok (c_receipt_envelope row) \<and>
     durableReceiptChainHash ev r = Ok (c_chain_hash row) \<and> c_timestamp row = se_time ev (rp_Timestamp r) \<and>
     se_meta ev (rp_Metadata r) = Ok (c_metadata row) \<and>
     (\<exists>a. encodeTransparencyAnchor ev r = Ok a \<and> c_transparency row = nullableJSON a) \<and>
     (\<exists>ks. encodePublicKeySet ev r = Ok ks \<and> c_public_key_set row = nullableJSON ks)"

lemma plain_fields [simp]:
  "rp_ReceiptID (plain_columns r) = rp_ReceiptID r" "rp_DecisionID (plain_columns r) = rp_DecisionID r" "rp_SessionID (plain_columns r) = rp_SessionID r"
  "rp_SignatureVersion (plain_columns r) = rp_SignatureVersion r" "rp_LamportClock (plain_columns r) = rp_LamportClock r"
  "rp_PrevHash (plain_columns r) = rp_PrevHash r" "rp_LeafIndex (plain_columns r) = rp_LeafIndex r"
  by (simp_all add: plain_columns_def)

lemma insert_ok:
  assumes "insertSQLiteReceiptWithCausalSession ev r0 k t = Ok (t', r)"
  obtains row where "t' = t @ [row]" "restoreOrRejectV5DecisionHash ev r0 = Ok r" "row_of ev r k row" "unat (rp_LamportClock r) < 2 ^ 63"
    "\<forall>x \<in> set t. rp_ReceiptID (c_plain x) \<noteq> rp_ReceiptID r"
proof -
  have "\<exists>row. t' = t @ [row] \<and> restoreOrRejectV5DecisionHash ev r0 = Ok r \<and> row_of ev r k row \<and> unat (rp_LamportClock r) < 2 ^ 63 \<and>
      (\<forall>x \<in> set t. rp_ReceiptID (c_plain x) \<noteq> rp_ReceiptID r)"
    using assms by (auto simp: insertSQLiteReceiptWithCausalSession_def exec_insert_def row_of_def list_ex_iff not_le
      split: sum.splits option.splits if_splits)
  then show thesis using that by blast
qed

lemma build_ok:
  assumes "buildNextCausalReceiptScoped ev k s previous build = Ok r"
  shows "build (map_option fst previous) (rp_LamportClock r) (rp_PrevHash r) = Ok (Some r) \<and> causalReceiptSessionID r = s \<and> s \<noteq> [] \<and>
    rp_LamportClock r = (case previous of None \<Rightarrow> 1 | Some (p, _) \<Rightarrow> rp_LamportClock p + 1) \<and>
    rp_PrevHash r = (case previous of None \<Rightarrow> [] | Some (_, h) \<Rightarrow> TrimSpace h)"
  using assms by (auto simp: buildNextCausalReceiptScoped_def Let_def split: sum.splits option.splits if_splits)

lemma append_ok:
  assumes "appendCausal ev k s build t = (t', Ok r)"
  obtains previous r0 row where "queryLastSQLiteReceiptWithChainHash ev k t = Ok previous" "buildNextCausalReceiptScoped ev k s previous build = Ok r0"
    "t' = t @ [row]" "restoreOrRejectV5DecisionHash ev r0 = Ok r" "row_of ev r k row" "unat (rp_LamportClock r) < 2 ^ 63"
    "\<forall>x \<in> set t. rp_ReceiptID (c_plain x) \<noteq> rp_ReceiptID r"
proof -
  obtain previous r0 where p: "queryLastSQLiteReceiptWithChainHash ev k t = Ok previous" "buildNextCausalReceiptScoped ev k s previous build = Ok r0"
    "insertSQLiteReceiptWithCausalSession ev r0 k t = Ok (t', r)"
    using assms by (auto simp: appendCausal_def split: if_splits option.splits sum.splits)
  from p(3) show thesis by (rule insert_ok) (rule that [OF p(1,2)])
qed

lemma append_err: "snd (appendCausal ev k s build t) = Err e \<Longrightarrow> fst (appendCausal ev k s build t) = t"
  by (auto simp: appendCausal_def split: if_splits option.splits sum.splits)

lemma append_err_eq: "appendCausal ev k s build t = (t', Err e) \<Longrightarrow> t' = t"
  using append_err [of ev k s build t e] by simp

section \<open>Histories of appends\<close>

text \<open>Calls on one store: the failing statements, the tenant if there is one, the session and the builder of a call.\<close>

record append_call =
  ac_fail :: "string \<Rightarrow> string option"
  ac_tenant :: "string option"
  ac_session :: string
  ac_build :: CausalReceiptBuilder

definition do_append :: "store_env \<Rightarrow> append_call \<Rightarrow> receipt_table \<Rightarrow> receipt_table \<times> (string, Receipt) res" where
  "do_append ev c t =
     (case ac_tenant c of
        None \<Rightarrow> AppendCausal (ev\<lparr>se_fail := ac_fail c\<rparr>) (ac_session c) (ac_build c) t
      | Some a \<Rightarrow> AppendCausalScoped (ev\<lparr>se_fail := ac_fail c\<rparr>) a (ac_session c) (ac_build c) t)"

fun run_appends :: "store_env \<Rightarrow> append_call list \<Rightarrow> receipt_table \<Rightarrow> receipt_table" where
  "run_appends ev [] t = t"
| "run_appends ev (c # cs) t = run_appends ev cs (fst (do_append ev c t))"

definition call_scope :: "append_call \<Rightarrow> string" where
  "call_scope c = (case ac_tenant c of None \<Rightarrow> ac_session c | Some a \<Rightarrow> causalReceiptScopeKey (TrimSpace a) (ac_session c))"

lemma fail_fields:
  "se_hash (ev\<lparr>se_fail := f\<rparr>) = se_hash ev"
  "se_envelope (ev\<lparr>se_fail := f\<rparr>) = se_envelope ev"
  "se_unenvelope (ev\<lparr>se_fail := f\<rparr>) = se_unenvelope ev"
  "se_meta (ev\<lparr>se_fail := f\<rparr>) = se_meta ev"
  "se_unmeta (ev\<lparr>se_fail := f\<rparr>) = se_unmeta ev"
  "se_keys (ev\<lparr>se_fail := f\<rparr>) = se_keys ev"
  "se_unkeys (ev\<lparr>se_fail := f\<rparr>) = se_unkeys ev"
  "se_anchor (ev\<lparr>se_fail := f\<rparr>) = se_anchor ev"
  "se_unanchor (ev\<lparr>se_fail := f\<rparr>) = se_unanchor ev"
  "se_time (ev\<lparr>se_fail := f\<rparr>) = se_time ev"
  "se_untime (ev\<lparr>se_fail := f\<rparr>) = se_untime ev"
  "se_quote (ev\<lparr>se_fail := f\<rparr>) = se_quote ev"
  by simp_all

lemma encode_fail [simp]:
  "durableReceiptChainHash (ev\<lparr>se_fail := f\<rparr>) = durableReceiptChainHash ev"
  "encodeTransparencyAnchor (ev\<lparr>se_fail := f\<rparr>) = encodeTransparencyAnchor ev"
  "encodePublicKeySet (ev\<lparr>se_fail := f\<rparr>) = encodePublicKeySet ev"
  "restoreOrRejectV5DecisionHash (ev\<lparr>se_fail := f\<rparr>) = restoreOrRejectV5DecisionHash ev"
  unfolding durableReceiptChainHash_def encodeTransparencyAnchor_def encodePublicKeySet_def restoreOrRejectV5DecisionHash_def fail_fields
  by (rule refl)+

lemma decode_fail [simp]:
  "decodeTransparencyAnchor (ev\<lparr>se_fail := f\<rparr>) = decodeTransparencyAnchor ev" "decode_keys (ev\<lparr>se_fail := f\<rparr>) = decode_keys ev"
  "decode_meta (ev\<lparr>se_fail := f\<rparr>) = decode_meta ev"
  unfolding decodeTransparencyAnchor_def decode_keys_def decode_meta_def fail_fields by (rule refl)+

lemma scan_fail [simp]:
  "row_of (ev\<lparr>se_fail := f\<rparr>) = row_of ev"
  "restoreReceiptEnvelopeWithIntegrity (ev\<lparr>se_fail := f\<rparr>) = restoreReceiptEnvelopeWithIntegrity ev"
  "receiptFromSQLiteFields (ev\<lparr>se_fail := f\<rparr>) = receiptFromSQLiteFields ev"
  "scanSQLiteReceiptWithChainHashMode (ev\<lparr>se_fail := f\<rparr>) = scanSQLiteReceiptWithChainHashMode ev"
proof -
  show r: "row_of (ev\<lparr>se_fail := f\<rparr>) = row_of ev" by (simp add: row_of_def fun_eq_iff)
  show i: "restoreReceiptEnvelopeWithIntegrity (ev\<lparr>se_fail := f\<rparr>) = restoreReceiptEnvelopeWithIntegrity ev"
    unfolding restoreReceiptEnvelopeWithIntegrity_def fail_fields encode_fail by (rule refl)
  show "receiptFromSQLiteFields (ev\<lparr>se_fail := f\<rparr>) = receiptFromSQLiteFields ev" unfolding receiptFromSQLiteFields_def fail_fields encode_fail decode_fail by (rule refl)
  note f = this
  show "scanSQLiteReceiptWithChainHashMode (ev\<lparr>se_fail := f\<rparr>) = scanSQLiteReceiptWithChainHashMode ev"
    unfolding scanSQLiteReceiptWithChainHashMode_def i f fail_fields by (rule refl)
qed

lemma do_append_cases:
  obtains (failed) "fst (do_append ev c t) = t" "\<not> is_ok (snd (do_append ev c t))"
  | (appended) r where "do_append ev c t = (fst (do_append ev c t), Ok r)"
      "appendCausal (ev\<lparr>se_fail := ac_fail c\<rparr>) (call_scope c) (ac_session c) (ac_build c) t = (fst (do_append ev c t), Ok r)"
proof (cases "snd (do_append ev c t)")
  case (Inl e)
  then have "fst (do_append ev c t) = t"
    by (auto simp: do_append_def AppendCausal_def AppendCausalScoped_def Let_def split: option.splits if_splits dest: append_err)
  then show ?thesis using Inl failed by simp
next
  case (Inr r)
  then have "do_append ev c t = (fst (do_append ev c t), Ok r)" by (simp add: prod_eq_iff)
  moreover from this have "appendCausal (ev\<lparr>se_fail := ac_fail c\<rparr>) (call_scope c) (ac_session c) (ac_build c) t = (fst (do_append ev c t), Ok r)"
    by (auto simp: do_append_def call_scope_def AppendCausal_def AppendCausalScoped_def Let_def split: option.splits if_splits)
  ultimately show ?thesis using appended by blast
qed

text \<open>Every row stands for the receipt some call built for its scope.\<close>

definition from_call :: "store_env \<Rightarrow> append_call list \<Rightarrow> receipt_row \<Rightarrow> bool" where
  "from_call ev cs row \<longleftrightarrow> (\<exists>c \<in> set cs. \<exists>previous l h r0 r. ac_build c previous l h = Ok (Some r0) \<and> rp_LamportClock r0 = l \<and> rp_PrevHash r0 = h \<and>
     restoreOrRejectV5DecisionHash ev r0 = Ok r \<and> row_of ev r (call_scope c) row \<and> (\<forall>a. ac_tenant c = Some a \<longrightarrow> TrimSpace a \<noteq> []))"

lemma appended_row:
  assumes "appendCausal (ev\<lparr>se_fail := f\<rparr>) (call_scope c) (ac_session c) (ac_build c) t = (t', Ok r)"
    "\<forall>a. ac_tenant c = Some a \<longrightarrow> TrimSpace a \<noteq> []"
  shows "\<exists>row. t' = t @ [row] \<and> from_call ev [c] row"
proof -
  obtain previous r0 row where a: "buildNextCausalReceiptScoped (ev\<lparr>se_fail := f\<rparr>) (call_scope c) (ac_session c) previous (ac_build c) = Ok r0"
    "t' = t @ [row]" "restoreOrRejectV5DecisionHash ev r0 = Ok r" "row_of ev r (call_scope c) row"
    using append_ok [OF assms(1)] by (metis encode_fail(4) scan_fail(1))
  then show ?thesis using build_ok [OF a(1)] assms(2) unfolding from_call_def by fastforce
qed

lemma from_call_mono: "from_call ev cs row \<Longrightarrow> set cs \<subseteq> set cs' \<Longrightarrow> from_call ev cs' row"
  unfolding from_call_def by blast

lemma scoped_tenant: "do_append ev c t = (t', Ok r) \<Longrightarrow> ac_tenant c = Some a \<Longrightarrow> TrimSpace a \<noteq> []"
  by (auto simp: do_append_def AppendCausalScoped_def Let_def split: if_splits)

lemma run_rows_gen:
  assumes "\<forall>row \<in> set t. from_call ev (before @ cs) row"
  shows "\<forall>row \<in> set (run_appends ev cs t). from_call ev (before @ cs) row"
  using assms
proof (induction cs arbitrary: t before)
  case (Cons c cs)
  have "\<forall>row \<in> set (fst (do_append ev c t)). from_call ev ((before @ [c]) @ cs) row"
  proof (cases rule: do_append_cases [of ev c t])
    case failed
    then show ?thesis using Cons.prems by simp
  next
    case (appended r)
    obtain row where "fst (do_append ev c t) = t @ [row]" "from_call ev [c] row"
      using appended_row [OF appended(2)] scoped_tenant [OF appended(1)] by blast
    then show ?thesis using Cons.prems from_call_mono [of ev "[c]" row "(before @ [c]) @ cs"] by auto
  qed
  from Cons.IH [OF this] show ?case by simp
qed simp

lemmas run_rows = run_rows_gen [of "[]" _ "[]", simplified]

section \<open>The chain of a scope\<close>

fun chained :: "nat \<Rightarrow> string \<Rightarrow> receipt_row list \<Rightarrow> bool" where
  "chained n h [] = True"
| "chained n h (row # rows) = (unat (rp_LamportClock (c_plain row)) = Suc n \<and> rp_PrevHash (c_plain row) = h \<and>
     chained (Suc n) (TrimSpace (c_chain_hash row)) rows)"

definition scope_rows :: "string \<Rightarrow> receipt_table \<Rightarrow> receipt_row list" where
  "scope_rows k t = filter (\<lambda>row. c_causal_session_id row = k) t"

lemma chained_snoc:
  "chained n h (rows @ [row]) \<longleftrightarrow> chained n h rows \<and> unat (rp_LamportClock (c_plain row)) = Suc (n + length rows) \<and>
     rp_PrevHash (c_plain row) = (if rows = [] then h else TrimSpace (c_chain_hash (last rows)))"
  by (induction n h rows rule: chained.induct) auto

lemma chained_max: "chained (unat (rp_LamportClock (c_plain m))) h rows \<Longrightarrow> max_row m rows = last (m # rows)"
proof (induction rows arbitrary: m h)
  case (Cons row rows)
  then have u: "unat (rp_LamportClock (c_plain row)) = Suc (unat (rp_LamportClock (c_plain m)))" by simp
  then have "rp_LamportClock (c_plain m) < rp_LamportClock (c_plain row)" by (simp add: word_less_nat_alt)
  moreover have "max_row row rows = last (row # rows)" by (rule Cons.IH [of _ "TrimSpace (c_chain_hash row)"]) (use Cons.prems u in simp)
  ultimately show ?case by simp
qed simp

lemma chained_last:
  assumes "chained 0 [] (scope_rows k t)"
  shows "last_row k t = (if scope_rows k t = [] then None else Some (last (scope_rows k t)))"
proof (cases "scope_rows k t")
  case (Cons row rows)
  have "max_row row rows = last (row # rows)" by (rule chained_max [of row "TrimSpace (c_chain_hash row)"]) (use assms Cons in simp)
  then show ?thesis using Cons by (simp add: last_row_def scope_rows_def)
qed (simp add: last_row_def scope_rows_def)

lemma chained_clock: "chained n h rows \<Longrightarrow> rows \<noteq> [] \<Longrightarrow> unat (rp_LamportClock (c_plain (last rows))) = n + length rows"
  by (induction n h rows rule: chained.induct) auto

text \<open>
  What the chain needs of the JSON codec: the clock of a decoded envelope is the encoded one. It is an unsigned 64-bit
  field, which \<^verbatim>\<open>encoding/json\<close> writes and reads exactly.
\<close>

definition clock_codec :: "store_env \<Rightarrow> bool" where
  "clock_codec ev \<longleftrightarrow> (\<forall>r e r'. se_envelope ev r = Ok e \<longrightarrow> se_unenvelope ev e = Ok r' \<longrightarrow> rp_LamportClock r' = rp_LamportClock r)"

lemma fields_keep:
  assumes "receiptFromSQLiteFields ev row = Ok r"
  shows "rp_LamportClock r = rp_LamportClock (c_plain row) \<and> rp_ReceiptID r = rp_ReceiptID (c_plain row)"
proof -
  obtain r1 where "restoreOrRejectV5DecisionHash ev r1 = Ok r" "rp_LamportClock r1 = rp_LamportClock (c_plain row)" "rp_ReceiptID r1 = rp_ReceiptID (c_plain row)"
    using assms by (auto simp: receiptFromSQLiteFields_def decode_keys_def decodeTransparencyAnchor_def split: sum.splits option.splits if_splits)
  then show ?thesis using restore_keeps by fastforce
qed

lemma integrity_keeps:
  assumes "restoreReceiptEnvelopeWithIntegrity ev projected raw stored = Ok (r, b)"
  shows "rp_ReceiptID r = rp_ReceiptID projected \<and> (r = projected \<or> (\<exists>x. se_unenvelope ev raw = Ok x \<and> restoreOrRejectV5DecisionHash ev x = Ok r))"
proof (cases "\<not> blank raw \<and> TrimSpace raw \<noteq> ''null''")
  case True
  obtain x where x: "se_unenvelope ev raw = Ok x" "rp_ReceiptID x = rp_ReceiptID projected" "restoreOrRejectV5DecisionHash ev x = Ok r"
    using assms True unfolding restoreReceiptEnvelopeWithIntegrity_def Let_def by (auto split: sum.splits if_splits)
  then show ?thesis using restore_keeps [OF x(3)] by auto
next
  case False
  then show ?thesis using assms unfolding restoreReceiptEnvelopeWithIntegrity_def Let_def by (auto split: sum.splits if_splits)
qed

lemma scan_keeps:
  assumes "scanSQLiteReceiptWithChainHashMode ev c row = Ok (r, h)"
  shows "h = TrimSpace (c_chain_hash row) \<and> rp_ReceiptID r = rp_ReceiptID (c_plain row) \<and>
    (clock_codec ev \<longrightarrow> row_of ev r0 k row \<longrightarrow> rp_LamportClock r = rp_LamportClock (c_plain row))"
proof -
  obtain p b where p: "receiptFromSQLiteFields ev row = Ok p" "restoreReceiptEnvelopeWithIntegrity ev p (c_receipt_envelope row) (c_chain_hash row) = Ok (r, b)"
    "h = TrimSpace (c_chain_hash row)"
    using assms by (auto simp: scanSQLiteReceiptWithChainHashMode_def split: sum.splits if_splits)
  have "rp_LamportClock r = rp_LamportClock (c_plain row)" if "clock_codec ev" "row_of ev r0 k row"
  proof (cases "r = p")
    case True
    then show ?thesis using fields_keep [OF p(1)] by simp
  next
    case False
    then obtain x where x: "se_unenvelope ev (c_receipt_envelope row) = Ok x" "restoreOrRejectV5DecisionHash ev x = Ok r" using integrity_keeps [OF p(2)] by blast
    have "rp_LamportClock x = rp_LamportClock r0" using that x(1) by (auto simp: clock_codec_def row_of_def)
    then show ?thesis using that(2) restore_keeps [OF x(2)] by (auto simp: row_of_def)
  qed
  then show ?thesis using p fields_keep [OF p(1)] integrity_keeps [OF p(2)] by simp
qed

definition written :: "store_env \<Rightarrow> receipt_table \<Rightarrow> bool" where
  "written ev t \<longleftrightarrow> (\<forall>row \<in> set t. (\<exists>r. row_of ev r (c_causal_session_id row) row) \<and>
     unat (rp_LamportClock (c_plain row)) < 2 ^ 63) \<and> (\<forall>k. chained 0 [] (scope_rows k t))"

lemma append_written:
  assumes "clock_codec ev" "written ev t" "appendCausal (ev\<lparr>se_fail := f\<rparr>) k s build t = (t', Ok r)"
  shows "written ev t'"
proof -
  obtain previous r0 row where a: "queryLastSQLiteReceiptWithChainHash (ev\<lparr>se_fail := f\<rparr>) k t = Ok previous"
    "buildNextCausalReceiptScoped (ev\<lparr>se_fail := f\<rparr>) k s previous build = Ok r0" "t' = t @ [row]" "restoreOrRejectV5DecisionHash ev r0 = Ok r"
    "row_of ev r k row" "unat (rp_LamportClock r) < 2 ^ 63"
    using append_ok [OF assms(3)] by (metis encode_fail(4) scan_fail(1))
  have keep: "rp_LamportClock r = rp_LamportClock r0" "rp_PrevHash r = rp_PrevHash r0" using restore_keeps [OF a(4)] by auto
  have row: "c_causal_session_id row = k" "rp_LamportClock (c_plain row) = rp_LamportClock r" "rp_PrevHash (c_plain row) = rp_PrevHash r"
    using a(5) by (simp_all add: row_of_def)
  note b = build_ok [OF a(2)]
  have ch: "chained 0 [] (scope_rows k t)" using assms(2) by (simp add: written_def)
  have "unat (rp_LamportClock r) = Suc (length (scope_rows k t)) \<and> rp_PrevHash r = (if scope_rows k t = [] then [] else TrimSpace (c_chain_hash (last (scope_rows k t))))"
  proof (cases "scope_rows k t = []")
    case True
    then have "previous = None" using a(1) chained_last [OF ch] by (simp add: queryLastSQLiteReceiptWithChainHash_def split: option.splits)
    then show ?thesis using b keep True by simp
  next
    case False
    define l where "l = last (scope_rows k t)"
    have l: "l \<in> set t" "c_causal_session_id l = k" "last_row k t = Some l" "unat (rp_LamportClock (c_plain l)) = length (scope_rows k t)"
      using False last_in_set [OF False] chained_last [OF ch] chained_clock [OF ch False] by (simp_all add: l_def scope_rows_def)
    obtain p h where p: "previous = Some (p, h)" "scanSQLiteReceiptWithChainHashMode ev False l = Ok (p, h)"
      using a(1) l(3) by (auto simp: queryLastSQLiteReceiptWithChainHash_def split: option.splits sum.splits)
    obtain rl where "row_of ev rl k l" using assms(2) l(1,2) by (auto simp: written_def)
    then have pl: "rp_LamportClock p = rp_LamportClock (c_plain l)" "h = TrimSpace (c_chain_hash l)"
      using scan_keeps [OF p(2)] assms(1) by blast+
    have lam: "rp_LamportClock r = rp_LamportClock (c_plain l) + 1" "rp_PrevHash r = TrimSpace h" using b keep p(1) pl(1) by simp_all
    have "unat (rp_LamportClock (c_plain l)) < 2 ^ 63" using assms(2) l(1) by (simp add: written_def)
    then have "unat (rp_LamportClock (c_plain l)) + unat (1 :: 64 word) < 2 ^ LENGTH(64)" by simp
    then have "unat (rp_LamportClock r) = Suc (length (scope_rows k t))" unfolding lam(1) by (simp only: unat_add_lem) (simp add: l(4))
    then show ?thesis using False lam(2) pl(2) by (simp add: l_def)
  qed
  then have "chained 0 [] (scope_rows k' t')" for k'
    using assms(2) row by (auto simp: written_def a(3) scope_rows_def chained_snoc)
  then show ?thesis using assms(2) a(3,5,6) row(1,2) by (auto simp: written_def)
qed

lemma run_written:
  assumes "clock_codec ev" "written ev t"
  shows "written ev (run_appends ev cs t)"
  using assms(2)
proof (induction cs arbitrary: t)
  case (Cons c cs)
  have "written ev (fst (do_append ev c t))"
  proof (cases rule: do_append_cases [of ev c t])
    case failed
    then show ?thesis using Cons.prems by simp
  next
    case (appended r)
    show ?thesis by (rule append_written [OF assms(1) Cons.prems appended(2)])
  qed
  then show ?case using Cons.IH by simp
qed simp

lemma new_written: "written ev []"
  by (simp add: written_def scope_rows_def)

lemma chained_nth:
  "chained n h rows \<Longrightarrow> i < length rows \<Longrightarrow> unat (rp_LamportClock (c_plain (rows ! i))) = Suc (n + i) \<and>
     rp_PrevHash (c_plain (rows ! i)) = (if i = 0 then h else TrimSpace (c_chain_hash (rows ! (i - 1))))"
proof (induction n h rows arbitrary: i rule: chained.induct)
  case (2 n h row rows)
  then show ?case by (cases i) auto
qed simp

section \<open>Tenants\<close>

lemma dec_no_colon: "CHR '':'' \<notin> set (dec_of_nat n)"
proof (induction n rule: dec_of_nat.induct)
  case (1 n)
  have d: "CHR '':'' \<noteq> digit_char m" if "m < 10" for m
  proof
    assume "CHR '':'' = digit_char m"
    then have "of_char CHR '':'' = (of_char (digit_char m) :: nat)" by simp
    then show False using that by (simp add: digit_char_def)
  qed
  show ?case
  proof (cases "n < 10")
    case True
    then show ?thesis using d by (subst dec_of_nat.simps) simp
  next
    case False
    then show ?thesis using 1 d [of "n mod 10"] by (subst dec_of_nat.simps) simp
  qed
qed

lemma framed_inj:
  assumes "dec_of_nat (length a) @ CHR '':'' # a @ x = dec_of_nat (length b) @ CHR '':'' # b @ y"
  shows "a = b \<and> x = y"
proof -
  have tw: "takeWhile (\<lambda>c. c \<noteq> CHR '':'') (dec_of_nat n @ CHR '':'' # z) = dec_of_nat n" for n z
    using dec_no_colon [of n] by (subst takeWhile_append2) auto
  have "dec_of_nat (length a) = dec_of_nat (length b)" using assms tw by metis
  then have "length a = length b" by (rule dec_of_nat_inj)
  then show ?thesis using assms by simp
qed

lemma scope_prefix: "causalReceiptScopeKey b s = causalReceiptTenantScopePrefix b @ dec_of_nat (length s) @ '':'' @ s"
  by (simp add: causalReceiptScopeKey_def causalReceiptTenantScopePrefix_def)

text \<open>Scopes of different tenants have different prefixes, and different sessions different scopes.\<close>

lemma tenant_prefix_inj:
  assumes "take (length (causalReceiptTenantScopePrefix a)) (causalReceiptScopeKey b s) = causalReceiptTenantScopePrefix a"
  shows "a = b"
proof -
  obtain z where "causalReceiptScopeKey b s = causalReceiptTenantScopePrefix a @ z"
    using assms append_take_drop_id [of "length (causalReceiptTenantScopePrefix a)" "causalReceiptScopeKey b s"] by metis
  then have "dec_of_nat (length a) @ CHR '':'' # a @ '':session:'' @ z = dec_of_nat (length b) @ CHR '':'' # b @ '':session:'' @ dec_of_nat (length s) @ '':'' @ s"
    by (simp add: causalReceiptScopeKey_def causalReceiptTenantScopePrefix_def)
  from framed_inj [OF this] show ?thesis by simp
qed

lemma scope_key_inj: "causalReceiptScopeKey a s = causalReceiptScopeKey b u \<Longrightarrow> a = b \<and> s = u"
  using framed_inj [of a "'':session:'' @ dec_of_nat (length s) @ '':'' @ s" b "'':session:'' @ dec_of_nat (length u) @ '':'' @ u"]
    framed_inj [of s "[]" u "[]"]
  by (simp add: causalReceiptScopeKey_def)

lemma tenant_row_origin:
  assumes "from_call ev cs row" "tenant_row a row" "\<forall>c \<in> set cs. ac_tenant c = None \<longrightarrow> take 7 (ac_session c) \<noteq> ''tenant:''"
  shows "\<exists>c \<in> set cs. \<exists>b previous l h r0. ac_tenant c = Some b \<and> TrimSpace b = a \<and> ac_build c previous l h = Ok (Some r0) \<and>
    rp_ReceiptID r0 = rp_ReceiptID (c_plain row) \<and> rp_DecisionID r0 = rp_DecisionID (c_plain row)"
proof -
  obtain c previous l h r0 r where c: "c \<in> set cs" "ac_build c previous l h = Ok (Some r0)" "restoreOrRejectV5DecisionHash ev r0 = Ok r" "row_of ev r (call_scope c) row"
    using assms(1) by (auto simp: from_call_def)
  have ids: "rp_ReceiptID r0 = rp_ReceiptID (c_plain row)" "rp_DecisionID r0 = rp_DecisionID (c_plain row)"
    using c(3,4) restore_keeps [OF c(3)] by (auto simp: row_of_def)
  have pre: "take (length (causalReceiptTenantScopePrefix a)) (call_scope c) = causalReceiptTenantScopePrefix a"
    using assms(2) c(4) by (simp add: tenant_row_def row_of_def)
  show ?thesis
  proof (cases "ac_tenant c")
    case None
    have "7 \<le> length (causalReceiptTenantScopePrefix a)" by (simp add: causalReceiptTenantScopePrefix_def)
    then have "take 7 (call_scope c) = take 7 (take (length (causalReceiptTenantScopePrefix a)) (call_scope c))"
      by (simp only: take_take min.absorb1)
    also have "\<dots> = ''tenant:''" unfolding pre by (simp add: causalReceiptTenantScopePrefix_def)
    finally show ?thesis using assms(3) c(1) None by (simp add: call_scope_def)
  next
    case (Some b)
    then have "call_scope c = causalReceiptScopeKey (TrimSpace b) (ac_session c)" by (simp add: call_scope_def)
    from pre [unfolded this] have "a = TrimSpace b" by (rule tenant_prefix_inj)
    then show ?thesis using c(1,2) Some ids by blast
  qed
qed

lemma tenant_lookup:
  assumes "GetByDecisionIDForTenant ev a d t = Ok (Some r)"
  obtains row where "row \<in> set t" "rp_DecisionID (c_plain row) = d" "tenant_row (TrimSpace a) row" "rp_ReceiptID r = rp_ReceiptID (c_plain row)"
proof -
  obtain row where f: "find (\<lambda>row. rp_DecisionID (c_plain row) = d \<and> tenant_row (TrimSpace a) row) t = Some row" "scan_one ev False row = Ok r"
    using assms by (auto simp: GetByDecisionIDForTenant_def query_row_def Let_def split: if_splits sum.splits option.splits)
  obtain h where "scanSQLiteReceiptWithChainHashMode ev False row = Ok (r, h)" using f(2) by (auto simp: scan_one_def split: sum.splits)
  then show thesis using f(1) scan_keeps [of ev False row r h] that [of row] by (auto simp: find_Some_iff in_set_conv_nth)
qed

text \<open>Later calls only add rows, so what a lookup can find it keeps finding.\<close>

lemma run_prefix: "\<exists>new. run_appends ev cs t = t @ new"
proof (induction cs arbitrary: t)
  case (Cons c cs)
  have "\<exists>new. fst (do_append ev c t) = t @ new"
  proof (cases rule: do_append_cases [of ev c t])
    case (appended r)
    then show ?thesis using append_ok [OF appended(2)] by metis
  qed simp
  then show ?case using Cons.IH [of "fst (do_append ev c t)"] by auto
qed simp

lemma find_append_some: "find p xs \<noteq> None \<Longrightarrow> find p (xs @ ys) \<noteq> None"
  by (auto simp: find_None_iff)

lemma tenant_found_stays:
  assumes "row \<in> set t" "rp_DecisionID (c_plain row) = d" "tenant_row (TrimSpace a) row"
  shows "GetByDecisionIDForTenant ev a d (t @ new) \<noteq> Ok None"
proof -
  have "find (\<lambda>row. rp_DecisionID (c_plain row) = d \<and> tenant_row (TrimSpace a) row) (t @ new) \<noteq> None"
    using assms by (auto simp: find_None_iff)
  then show ?thesis by (auto simp: GetByDecisionIDForTenant_def query_row_def Let_def split: option.splits sum.splits)
qed

lemma scoped_row:
  assumes "AppendCausalScoped ev a s build t = (t', Ok r)" "rp_SignatureVersion r = ReceiptSignatureV5"
  shows "\<exists>row. t' = t @ [row] \<and> tenant_row (TrimSpace a) row \<and> rp_DecisionID (c_plain row) = rp_DecisionID r"
proof -
  have a: "appendCausal ev (causalReceiptScopeKey (TrimSpace a) s) s build t = (t', Ok r)"
    using assms(1) by (auto simp: AppendCausalScoped_def Let_def split: if_splits)
  obtain previous r0 row where b: "buildNextCausalReceiptScoped ev (causalReceiptScopeKey (TrimSpace a) s) s previous build = Ok r0"
    "t' = t @ [row]" "restoreOrRejectV5DecisionHash ev r0 = Ok r" "row_of ev r (causalReceiptScopeKey (TrimSpace a) s) row"
    using append_ok [OF a] by metis
  have "causalReceiptSessionID r0 = s" "s \<noteq> []" using build_ok [OF b(1)] by simp_all
  then have "rp_SessionID r \<noteq> []" using restore_keeps [OF b(3)] assms(2) by (auto simp: causalReceiptSessionID_def)
  then show ?thesis using b(2,4) assms(2) by (auto simp: tenant_row_def row_of_def scope_prefix)
qed

text \<open>An unscoped session whose name is a scope key enters the tenant's receipts.\<close>

lemma unscoped_enters_tenant:
  assumes "AppendCausal ev (causalReceiptScopeKey a s) build t = (t', Ok r)" "rp_SignatureVersion r = ReceiptSignatureV5"
  shows "\<exists>row. t' = t @ [row] \<and> tenant_row a row"
proof -
  obtain previous r0 row where b: "buildNextCausalReceiptScoped ev (causalReceiptScopeKey a s) (causalReceiptScopeKey a s) previous build = Ok r0"
    "t' = t @ [row]" "restoreOrRejectV5DecisionHash ev r0 = Ok r" "row_of ev r (causalReceiptScopeKey a s) row"
    using append_ok [OF assms(1) [unfolded AppendCausal_def]] by metis
  have "rp_SessionID r \<noteq> []" using build_ok [OF b(1)] restore_keeps [OF b(3)] assms(2) by (auto simp: causalReceiptSessionID_def)
  then show ?thesis using b(2,4) assms(2) by (auto simp: tenant_row_def row_of_def scope_prefix)
qed

section \<open>Reading back\<close>

text \<open>
  What reading a row needs of the codecs, for one receipt: its envelope decodes to it, its other columns decode, and a
  canonical hash is not blank and has no blank ends.
\<close>

definition codec_ok :: "store_env \<Rightarrow> Receipt \<Rightarrow> bool" where
  "codec_ok ev r \<longleftrightarrow>
     (\<forall>e. se_envelope ev r = Ok e \<longrightarrow> se_unenvelope ev e = Ok r \<and> \<not> blank e \<and> TrimSpace e \<noteq> ''null'') \<and>
     (\<forall>e. se_meta ev (rp_Metadata r) = Ok e \<longrightarrow> is_ok (se_unmeta ev e)) \<and>
     (\<forall>e. se_keys ev (rp_PublicKeySet r) = Ok e \<longrightarrow> is_ok (se_unkeys ev e)) \<and>
     (\<forall>a e. rp_Transparency r = Some a \<longrightarrow> se_anchor ev a = Ok e \<longrightarrow> is_ok (se_unanchor ev e)) \<and>
     se_untime ev (se_time ev (rp_Timestamp r)) = rp_Timestamp r \<and>
     (\<forall>h. durableReceiptChainHash ev r = Ok h \<longrightarrow> h \<noteq> [] \<and> TrimSpace h = h)"

lemma restore_hash:
  assumes "restoreOrRejectV5DecisionHash ev r0 = Ok r" "rp_SignatureVersion r0 = ReceiptSignatureV5"
  shows "rp_DecisionHash r \<noteq> [] \<and> TrimSpace (rp_DecisionHash r) = rp_DecisionHash r"
proof (cases "TrimSpace (rp_DecisionHash r0) = []")
  case True
  then obtain v where "TrimSpace v \<noteq> []" "r = r0\<lparr>rp_DecisionHash := TrimSpace v\<rparr>"
    using assms by (simp add: restoreOrRejectV5DecisionHash_def split: option.splits if_splits)
  then show ?thesis by simp
next
  case False
  then have "r = r0\<lparr>rp_DecisionHash := TrimSpace (rp_DecisionHash r0)\<rparr>" using assms by (simp add: restoreOrRejectV5DecisionHash_def)
  then show ?thesis using False by simp
qed

lemma restore_settled: "rp_DecisionHash r \<noteq> [] \<Longrightarrow> TrimSpace (rp_DecisionHash r) = rp_DecisionHash r \<Longrightarrow> restoreOrRejectV5DecisionHash ev r = Ok r"
  by (simp add: restoreOrRejectV5DecisionHash_def)

lemma restore_legacy: "rp_SignatureVersion r \<noteq> ReceiptSignatureV5 \<Longrightarrow> restoreOrRejectV5DecisionHash ev r = Ok r"
  by (simp add: restoreOrRejectV5DecisionHash_def)

lemma restore_same:
  assumes "restoreOrRejectV5DecisionHash ev r0 = Ok r" "rp_SignatureVersion r' = rp_SignatureVersion r" "rp_DecisionHash r' = rp_DecisionHash r"
  shows "restoreOrRejectV5DecisionHash ev r' = Ok r'"
proof (cases "rp_SignatureVersion r0 = ReceiptSignatureV5")
  case True
  then show ?thesis using restore_hash [OF assms(1)] assms(3) by (simp add: restore_settled)
next
  case False
  then have "rp_SignatureVersion r' \<noteq> ReceiptSignatureV5" using restore_keeps [OF assms(1)] assms(2) by auto
  then show ?thesis by (rule restore_legacy)
qed

lemma keys_decode:
  assumes "row_of ev r k row" "codec_ok ev r"
  shows "\<exists>ks. decode_keys ev (c_public_key_set row) q = Ok (q\<lparr>rp_PublicKeySet := ks\<rparr>)"
proof -
  obtain e where e: "encodePublicKeySet ev r = Ok e" "c_public_key_set row = nullableJSON e" using assms(1) by (auto simp: row_of_def)
  have same: "q = q\<lparr>rp_PublicKeySet := rp_PublicKeySet q\<rparr>" by simp
  show ?thesis
  proof (cases "e = [] \<or> e = ''null''")
    case True
    then have "decode_keys ev (c_public_key_set row) q = Ok q" using e(2) by (auto simp: decode_keys_def nullableJSON_def)
    then show ?thesis using same by metis
  next
    case False
    then have "se_keys ev (rp_PublicKeySet r) = Ok e" using e(1) by (auto simp: encodePublicKeySet_def split: if_splits sum.splits)
    then obtain ks where "se_unkeys ev e = Ok ks" using assms(2) by (auto simp: codec_ok_def is_ok_iff)
    then show ?thesis using False e(2) by (auto simp: decode_keys_def nullableJSON_def)
  qed
qed

lemma anchor_decodes:
  assumes "row_of ev r k row" "codec_ok ev r"
  shows "\<exists>a. (case c_transparency row of None \<Rightarrow> Ok q | Some a \<Rightarrow> decodeTransparencyAnchor ev a q) = Ok (q\<lparr>rp_Transparency := a\<rparr>)"
proof -
  obtain e where e: "encodeTransparencyAnchor ev r = Ok e" "c_transparency row = nullableJSON e" using assms(1) by (auto simp: row_of_def)
  have same: "q = q\<lparr>rp_Transparency := rp_Transparency q\<rparr>" by simp
  show ?thesis
  proof (cases "e = [] \<or> e = ''null''")
    case True
    then have "(case c_transparency row of None \<Rightarrow> Ok q | Some a \<Rightarrow> decodeTransparencyAnchor ev a q) = Ok q"
      using e(2) by (auto simp: decodeTransparencyAnchor_def nullableJSON_def)
    then show ?thesis using same by metis
  next
    case False
    then obtain a where "rp_Transparency r = Some a" "se_anchor ev a = Ok e" using e(1) by (auto simp: encodeTransparencyAnchor_def split: option.splits sum.splits)
    then obtain a' where "se_unanchor ev e = Ok a'" using assms(2) by (auto simp: codec_ok_def is_ok_iff)
    then show ?thesis using False e(2) by (auto simp: decodeTransparencyAnchor_def nullableJSON_def)
  qed
qed

text \<open>The columns of a written row decode to a receipt that agrees with the written one on what the envelope is compared with.\<close>

lemma row_decodes:
  assumes "row_of ev r k row" "codec_ok ev r" "restoreOrRejectV5DecisionHash ev r0 = Ok r"
  shows "\<exists>p. receiptFromSQLiteFields ev row = Ok p \<and> rp_ReceiptID p = rp_ReceiptID r \<and> rp_Verdict p = rp_Verdict r \<and> rp_ReasonCode p = rp_ReasonCode r \<and>
    rp_ExecutorID p = rp_ExecutorID r \<and> rp_EffectID p = rp_EffectID r \<and> rp_Timestamp p = rp_Timestamp r"
proof -
  obtain meta where m: "decode_meta ev (c_metadata row) = Ok meta" using assms(1,2)
    by (cases "c_metadata row = [] \<or> c_metadata row = ''null''") (auto simp: decode_meta_def row_of_def codec_ok_def is_ok_iff)
  define q where "q = (c_plain row)\<lparr>rp_Timestamp := se_untime ev (c_timestamp row), rp_Metadata := meta\<rparr>"
  have q: "rp_ReceiptID q = rp_ReceiptID r" "rp_Verdict q = rp_Verdict r" "rp_ReasonCode q = rp_ReasonCode r" "rp_ExecutorID q = rp_ExecutorID r"
    "rp_EffectID q = rp_EffectID r" "rp_Timestamp q = rp_Timestamp r" "rp_SignatureVersion q = rp_SignatureVersion r" "rp_DecisionHash q = rp_DecisionHash r"
    using assms(1,2) by (simp_all add: q_def row_of_def codec_ok_def plain_columns_def)
  obtain ks where ks: "decode_keys ev (c_public_key_set row) q = Ok (q\<lparr>rp_PublicKeySet := ks\<rparr>)" using keys_decode [OF assms(1,2)] by blast
  define q' where "q' = q\<lparr>rp_PublicKeySet := ks\<rparr>"
  obtain a where a: "(case c_transparency row of None \<Rightarrow> Ok q' | Some a \<Rightarrow> decodeTransparencyAnchor ev a q') = Ok (q'\<lparr>rp_Transparency := a\<rparr>)"
    using anchor_decodes [OF assms(1,2)] by blast
  have "restoreOrRejectV5DecisionHash ev (q'\<lparr>rp_Transparency := a\<rparr>) = Ok (q'\<lparr>rp_Transparency := a\<rparr>)"
    by (rule restore_same [OF assms(3)]) (simp_all add: q'_def q)
  then have "receiptFromSQLiteFields ev row = Ok (q'\<lparr>rp_Transparency := a\<rparr>)"
    using m ks a unfolding receiptFromSQLiteFields_def q_def [symmetric] q'_def [symmetric] by (simp add: q_def [symmetric] q'_def [symmetric])
  then show ?thesis using q by (simp add: q'_def)
qed

lemma row_reads_back:
  assumes "row_of ev r k row" "codec_ok ev r" "restoreOrRejectV5DecisionHash ev r0 = Ok r"
  shows "scanSQLiteReceiptWithChainHashMode ev c row = Ok (r, c_chain_hash row)"
proof -
  obtain p where p: "receiptFromSQLiteFields ev row = Ok p" "rp_ReceiptID p = rp_ReceiptID r" "rp_Verdict p = rp_Verdict r" "rp_ReasonCode p = rp_ReasonCode r"
    "rp_ExecutorID p = rp_ExecutorID r" "rp_EffectID p = rp_EffectID r" "rp_Timestamp p = rp_Timestamp r"
    using row_decodes [OF assms] by blast
  have e: "se_unenvelope ev (c_receipt_envelope row) = Ok r" "\<not> blank (c_receipt_envelope row)" "TrimSpace (c_receipt_envelope row) \<noteq> ''null''"
    "durableReceiptChainHash ev r = Ok (c_chain_hash row)" "c_chain_hash row \<noteq> []" "TrimSpace (c_chain_hash row) = c_chain_hash row"
    using assms(1,2) by (auto simp: row_of_def codec_ok_def)
  have "restoreOrRejectV5DecisionHash ev r = Ok r" by (rule restore_same [OF assms(3)]) simp_all
  then have "restoreReceiptEnvelopeWithIntegrity ev p (c_receipt_envelope row) (c_chain_hash row) = Ok (r, True)"
    using e p(2-) by (simp add: restoreReceiptEnvelopeWithIntegrity_def)
  then show ?thesis using p(1) e(6) by (simp add: scanSQLiteReceiptWithChainHashMode_def)
qed

section \<open>An example\<close>

definition w_rcpt :: "64 word \<Rightarrow> Receipt" where
  "w_rcpt n = \<lparr>rp_ReceiptID = replicate (unat n) CHR ''r'', rp_DecisionID = ''d'', rp_CorrelationID = [], rp_EffectID = ''e'', rp_ExternalReferenceID = [],
     rp_Status = ''SUCCESS'', rp_BlobHash = [], rp_OutputHash = ''o'', rp_Timestamp = 7, rp_ExecutorID = [], rp_Metadata = None, rp_Signature = ''sig'',
     rp_SignatureProfile = [], rp_SignatureAlgorithm = [], rp_KeyID = [], rp_PublicKeySet = [], rp_MerkleRoot = [],
     rp_PrevHash = (if n = 1 then [] else ''h''), rp_LamportClock = n, rp_ArgsHash = [], rp_SignatureVersion = ReceiptSignatureV5, rp_DecisionHash = ''dh'',
     rp_Verdict = ''ALLOW'', rp_ReasonCode = [], rp_PolicyHash = [], rp_SessionID = ''s'', rp_EmergencyActivationID = [],
     rp_EmergencyDelegationSessionID = [], rp_EmergencyScopeHash = [], rp_SafeDepState = [], rp_SafeDepReasonCode = [], rp_Transparency = None,
     rp_LogID = [], rp_LeafIndex = 0\<rparr>"

definition w_store :: store_env where
  "w_store = \<lparr>se_fail = (\<lambda>_. None), se_hash = (\<lambda>r. Ok ''h''), se_envelope = (\<lambda>r. Ok (replicate (unat (rp_LamportClock r)) CHR ''x'')),
     se_unenvelope = (\<lambda>e. Ok (w_rcpt (of_nat (length e)))), se_meta = (\<lambda>m. Ok ''null''), se_unmeta = (\<lambda>m. Ok None),
     se_keys = (\<lambda>m. Ok ''{}''), se_unkeys = (\<lambda>m. Ok []), se_anchor = (\<lambda>a. Err ''no anchor''), se_unanchor = (\<lambda>a. Err ''no anchor''),
     se_time = (\<lambda>t. replicate (nat t) CHR ''t''), se_untime = (\<lambda>t. int (length t)), se_quote = id\<rparr>"

definition w_call :: append_call where
  "w_call = \<lparr>ac_fail = (\<lambda>_. None), ac_tenant = Some ''acme'', ac_session = ''s'', ac_build = (\<lambda>_ l _. Ok (Some (w_rcpt l)))\<rparr>"

definition w_row :: "64 word \<Rightarrow> receipt_row" where
  "w_row n = \<lparr>c_plain = plain_columns (w_rcpt n), c_timestamp = replicate 7 CHR ''t'', c_metadata = ''null'', c_transparency = None, c_public_key_set = None,
     c_causal_session_id = ''tenant:4:acme:session:1:s'', c_receipt_envelope = replicate (unat n) CHR ''x'', c_chain_hash = ''h''\<rparr>"

lemma w_store_fields [simp]:
  "se_fail w_store = (\<lambda>_. None)" "se_hash w_store = (\<lambda>r. Ok ''h'')" "se_envelope w_store = (\<lambda>r. Ok (replicate (unat (rp_LamportClock r)) CHR ''x''))"
  "se_unenvelope w_store = (\<lambda>e. Ok (w_rcpt (of_nat (length e))))" "se_meta w_store = (\<lambda>m. Ok ''null'')" "se_time w_store = (\<lambda>t. replicate (nat t) CHR ''t'')"
  "se_untime w_store = (\<lambda>t. int (length t))" "se_unkeys w_store = (\<lambda>m. Ok [])" "se_unmeta w_store = (\<lambda>m. Ok None)"
  by (simp_all add: w_store_def)

lemma w_rcpt_fields [simp]:
  "rp_ReceiptID (w_rcpt n) = replicate (unat n) CHR ''r''" "rp_DecisionID (w_rcpt n) = ''d''" "rp_LamportClock (w_rcpt n) = n"
  "rp_PrevHash (w_rcpt n) = (if n = 1 then [] else ''h'')" "rp_SignatureVersion (w_rcpt n) = ReceiptSignatureV5" "rp_SessionID (w_rcpt n) = ''s''"
  "rp_DecisionHash (w_rcpt n) = ''dh''" "rp_Timestamp (w_rcpt n) = 7" "rp_Metadata (w_rcpt n) = None" "rp_PublicKeySet (w_rcpt n) = []"
  "rp_Transparency (w_rcpt n) = None" "rp_LeafIndex (w_rcpt n) = 0"
  by (simp_all add: w_rcpt_def)

lemma w_visible [simp]: "TrimSpace ''h'' = ''h''" "TrimSpace ''dh'' = ''dh''" "TrimSpace ''acme'' = ''acme''" "\<not> blank ''s''" "\<not> blank ''h''"
  by (rule TrimSpace_visible; code_simp)+ (rule visible_not_blank; code_simp)+

lemma w_same [simp]: "w_store\<lparr>se_fail := \<lambda>_. None\<rparr> = w_store"
  by (simp add: w_store_def)

lemma w_restore [simp]: "restoreOrRejectV5DecisionHash w_store (w_rcpt n) = Ok (w_rcpt n)"
  by (rule restore_settled) simp_all

lemma w_hash [simp]: "durableReceiptChainHash w_store r = Ok ''h''"
  by (simp add: durableReceiptChainHash_def ReceiptChainHash_def)

lemma w_xs: "0 < n \<Longrightarrow> \<not> blank (replicate n CHR ''x'') \<and> TrimSpace (replicate n CHR ''x'') = replicate n CHR ''x''"
proof -
  assume n: "0 < n"
  have v: "visible CHR ''x''" by code_simp
  obtain m where "n = Suc m" using n by (cases n) auto
  then show ?thesis using visible_not_blank [OF v, of "replicate m CHR ''x''"] TrimSpace_visible [of "replicate n CHR ''x''"] v by simp
qed

lemma w_codec: "0 < unat n \<Longrightarrow> codec_ok w_store (w_rcpt n)"
proof -
  assume n: "0 < unat n"
  then have "replicate (unat n) CHR ''x'' \<noteq> ''null''" by (cases "unat n") auto
  then show ?thesis using w_xs [OF n] by (simp add: codec_ok_def)
qed

lemma w_clock_codec: "clock_codec w_store"
  by (simp add: clock_codec_def)

lemma w_row_of: "row_of w_store (w_rcpt n) ''tenant:4:acme:session:1:s'' (w_row n)"
  by (simp add: row_of_def w_row_def encodeTransparencyAnchor_def encodePublicKeySet_def nullableJSON_def)

lemma w_scan: "0 < unat n \<Longrightarrow> scanSQLiteReceiptWithChainHashMode w_store c (w_row n) = Ok (w_rcpt n, ''h'')"
  using row_reads_back [OF w_row_of w_codec w_restore] by (simp add: w_row_def)

lemma w_insert:
  assumes "unat n < 2 ^ 63" "\<forall>x \<in> set t. rp_ReceiptID (c_plain x) \<noteq> replicate (unat n) CHR ''r''"
  shows "insertSQLiteReceiptWithCausalSession w_store (w_rcpt n) ''tenant:4:acme:session:1:s'' t = Ok (t @ [w_row n], w_rcpt n)"
  using assms by (simp add: insertSQLiteReceiptWithCausalSession_def encodeTransparencyAnchor_def encodePublicKeySet_def nullableJSON_def exec_insert_def
    list_ex_iff w_row_def)

lemma w_scope: "causalReceiptScopeKey ''acme'' ''s'' = ''tenant:4:acme:session:1:s''"
  by code_simp

lemma w_append:
  assumes "queryLastSQLiteReceiptWithChainHash w_store ''tenant:4:acme:session:1:s'' t = Ok previous"
    "n = (case previous of None \<Rightarrow> 1 | Some (p, _) \<Rightarrow> rp_LamportClock p + 1)" "previous = None \<longleftrightarrow> n = 1" "\<forall>p h. previous = Some (p, h) \<longrightarrow> h = ''h''"
    "unat n < 2 ^ 63" "\<forall>x \<in> set t. rp_ReceiptID (c_plain x) \<noteq> replicate (unat n) CHR ''r''"
  shows "do_append w_store w_call t = (t @ [w_row n], Ok (w_rcpt n))"
proof -
  have "buildNextCausalReceiptScoped w_store ''tenant:4:acme:session:1:s'' ''s'' previous (\<lambda>_ l _. Ok (Some (w_rcpt l))) = Ok (w_rcpt n)"
    using assms(2-4) by (cases previous) (auto simp: buildNextCausalReceiptScoped_def requirePersistedCausalPredecessor_def causalReceiptSessionID_def)
  then show ?thesis using assms(1) w_insert [OF assms(5,6)] by (simp add: do_append_def w_call_def AppendCausalScoped_def appendCausal_def w_scope)
qed

lemma w_first: "do_append w_store w_call [] = ([w_row 1], Ok (w_rcpt 1))"
  using w_append [of "[]" None 1] by (simp add: queryLastSQLiteReceiptWithChainHash_def last_row_def)

lemma w_second_id: "rp_ReceiptID (w_rcpt 2) = ''rr''"
  by (simp, simp add: numeral_2_eq_2)

lemma w_second: "do_append w_store w_call [w_row 1] = ([w_row 1, w_row 2], Ok (w_rcpt 2))"
proof -
  have "last_row ''tenant:4:acme:session:1:s'' [w_row 1] = Some (w_row 1)" by (simp add: last_row_def w_row_def)
  then have "queryLastSQLiteReceiptWithChainHash w_store ''tenant:4:acme:session:1:s'' [w_row 1] = Ok (Some (w_rcpt 1, ''h''))"
    using w_scan [of 1 False] by (simp add: queryLastSQLiteReceiptWithChainHash_def)
  moreover have "rp_ReceiptID (c_plain (w_row 1)) \<noteq> replicate (unat (2 :: 64 word)) CHR ''r''" by (simp add: w_row_def) (simp add: numeral_2_eq_2)
  ultimately show ?thesis using w_append [of "[w_row 1]" "Some (w_rcpt 1, ''h'')" 2] by simp
qed

lemma w_run_receipts: "run_appends w_store [w_call, w_call] [] = [w_row 1, w_row 2]"
  by (simp add: w_first w_second)

lemma w_scope_rows: "scope_rows ''tenant:4:acme:session:1:s'' [w_row 1, w_row 2] = [w_row 1, w_row 2]"
  by (simp add: scope_rows_def w_row_def)

section \<open>Properties\<close>

text \<open>
  C14: Whatever calls are made, of whichever tenants and sessions and with whichever failing statements, the receipts of one scope
  are an unbroken hash chain: the i-th carries Lamport clock i+1, its \<^verbatim>\<open>prev_hash\<close> is empty for the first and the stored
  chain hash of its predecessor after that, and its stored hash is the canonical hash of the stored receipt.
\<close>

theorem receipts_chained:
  assumes "clock_codec ev" "t = run_appends ev cs []" "i < length (scope_rows k t)" "row = scope_rows k t ! i"
  shows "unat (rp_LamportClock (c_plain row)) = Suc i \<and>
    rp_PrevHash (c_plain row) = (if i = 0 then [] else TrimSpace (c_chain_hash (scope_rows k t ! (i - 1)))) \<and>
    (\<exists>r. c_plain row = plain_columns r \<and> durableReceiptChainHash ev r = Ok (c_chain_hash row))"
proof -
  have w: "written ev t" unfolding assms(2) by (rule run_written [OF assms(1) new_written])
  have "row \<in> set t" using nth_mem [OF assms(3)] assms(4) by (simp add: scope_rows_def)
  then obtain r where "row_of ev r (c_causal_session_id row) row" using w by (auto simp: written_def)
  then show ?thesis using w chained_nth [of 0 "[]" "scope_rows k t" i] assms(3,4) by (auto simp: written_def row_of_def)
qed

theorem receipts_chained_witness:
  "clock_codec w_store \<and> scope_rows ''tenant:4:acme:session:1:s'' (run_appends w_store [w_call, w_call] []) = [w_row 1, w_row 2] \<and>
   unat (rp_LamportClock (c_plain (w_row 2))) = 2 \<and> rp_PrevHash (c_plain (w_row 2)) = ''h''"
  using w_clock_codec receipts_chained [OF w_clock_codec refl, of 1 "''tenant:4:acme:session:1:s''" "[w_call, w_call]" "w_row 2"]
  unfolding w_run_receipts w_scope_rows by (simp add: w_row_def)



text \<open>
  C16: A receipt that was appended is read back as it was built, by its id and also where verified evidence is required, whatever
  is appended later.
\<close>

theorem appended_receipt_reads_back:
  assumes "t = run_appends ev before []" "do_append ev c t = (t', Ok r)" "codec_ok ev r" "se_fail ev ''get'' = None"
  shows "GetCanonicalReceiptByID ev (rp_ReceiptID r) (run_appends ev after t') = Ok r \<and> GetByReceiptID ev (rp_ReceiptID r) (run_appends ev after t') = Ok r"
proof -
  have "appendCausal (ev\<lparr>se_fail := ac_fail c\<rparr>) (call_scope c) (ac_session c) (ac_build c) t = (t', Ok r)"
    by (cases rule: do_append_cases [of ev c t]) (use assms(2) in auto)
  then obtain r0 row where a: "t' = t @ [row]" "restoreOrRejectV5DecisionHash ev r0 = Ok r" "row_of ev r (call_scope c) row"
    "\<forall>x \<in> set t. rp_ReceiptID (c_plain x) \<noteq> rp_ReceiptID r"
    using append_ok by (metis encode_fail(4) scan_fail(1))
  obtain new where new: "run_appends ev after t' = t @ row # new" using run_prefix [of ev "after" t'] a(1) by auto
  have id: "rp_ReceiptID (c_plain row) = rp_ReceiptID r" using a(3) by (simp add: row_of_def)
  have "find (\<lambda>x. rp_ReceiptID (c_plain x) = rp_ReceiptID r) (t @ row # new) = Some row" using a(4) id by (induction t) auto
  then show ?thesis using row_reads_back [OF a(3) assms(3) a(2)] assms(4)
    by (simp add: GetCanonicalReceiptByID_def GetByReceiptID_def query_one_def query_row_def scan_one_def new)
qed

theorem appended_receipt_reads_back_witness:
  "do_append w_store w_call [w_row 1] = ([w_row 1, w_row 2], Ok (w_rcpt 2)) \<and>
   GetCanonicalReceiptByID w_store ''rr'' (run_appends w_store [w_call] [w_row 1, w_row 2]) = Ok (w_rcpt 2)"
  using appended_receipt_reads_back [of "[w_row 1]" w_store "[w_call]" w_call "[w_row 1, w_row 2]" "w_rcpt 2" "[w_call]"] w_codec [of 2]
    w_second_id by (simp add: w_first w_second)

end
