(* ===== verification/Executor.thy ===== *)
theory Executor
  imports Receipt_Chain Safe_Dep_Controller
begin

text \<open>
  The executor, \<^verbatim>\<open>core/pkg/executor/executor.go\<close>: gating of a decision and its intent, idempotency, the
  safe-deprecation gate, the dispatch of the effect to its driver, and the signed receipt. The collaborators (verifier,
  signer, driver, stores, meter) are interfaces and thus functions of the executor record; an absent one is \<open>None\<close>, which
  for the verifier includes the typed nil. A receipt store has operations over a state of its own, the optional ones of
  \<^verbatim>\<open>types.go\<close> included. What a call does to the rest of the world is the list of its events, in order. A request
  context is never nil.
\<close>

section \<open>Artifacts (interfaces/artifact.go, canonicalize/artifact\_impl.go)\<close>

record Artifact =
  af_SchemaID :: string
  af_ContentType :: string
  af_CanonicalBytes :: string
  af_Digest :: string
  af_Preview :: string
  af_Metadata :: "(string, string) gomap"

record exec_env =
  en_clk :: "string \<Rightarrow> gotime"
  en_tenant :: "(string, string) res"
  en_correlation :: "string option"
  en_fold :: "string \<Rightarrow> string \<Rightarrow> bool"
  en_typed :: typed_values
  en_digest :: digest_env
  en_decision_hash :: "DecisionRecord \<Rightarrow> (string, string) res"
  en_receipt_hash :: "Receipt \<Rightarrow> (string, string) res"
  en_sha_hex :: "string \<Rightarrow> string"
  en_utf8 :: "string \<Rightarrow> bool"
  en_jcs :: "gval \<Rightarrow> (string, string) res"
  en_quote :: "string \<Rightarrow> string"

definition ComputeArtifactHash :: "exec_env \<Rightarrow> string \<Rightarrow> string" where
  "ComputeArtifactHash en data = ''sha256:'' @ en_sha_hex en data"

definition generatePreview :: "string \<Rightarrow> string" where
  "generatePreview data = (if length data \<le> 50 then data else take 50 data @ ''...'')"

definition Canonicalize_artifact :: "exec_env \<Rightarrow> string \<Rightarrow> gval \<Rightarrow> (string, Artifact) res" where
  "Canonicalize_artifact en schemaID raw =
     (let artifact = (\<lambda>contentType bytes. \<lparr>af_SchemaID = schemaID, af_ContentType = contentType, af_CanonicalBytes = bytes,
            af_Digest = ComputeArtifactHash en bytes, af_Preview = generatePreview bytes, af_Metadata = []\<rparr>) in
      case raw of
        GStr v \<Rightarrow> if en_utf8 en v then Ok (artifact ''text/plain'' v) else Err ''invalid UTF-8 string''
      | _ \<Rightarrow>
          (case en_jcs en raw of
             Inl e \<Rightarrow> Err (''failed to canonicalize as JSON: '' @ e)
           | Inr bytes \<Rightarrow> Ok (artifact ''application/json'' bytes)))"

section \<open>Collaborators (types.go, driver.go)\<close>

text \<open>
  An appender calls the builder with the position it assigned; \<open>Ok (Some r)\<close> is the receipt that was built and stored,
  \<open>Ok None\<close> a store that reports success without having called the builder.
\<close>

record 's receipt_ops =
  ro_Get :: "string \<Rightarrow> 's \<Rightarrow> (string, Receipt option) res"
  ro_Store :: "Receipt \<Rightarrow> 's \<Rightarrow> 's \<times> (string, Receipt) res"
  ro_GetLastForSession :: "string \<Rightarrow> 's \<Rightarrow> (string, Receipt option) res"
  ro_AppendCausal :: "(string \<Rightarrow> CausalReceiptBuilder \<Rightarrow> 's \<Rightarrow> 's \<times> (string, Receipt option) res) option"
  ro_AppendCausalScoped :: "(string \<Rightarrow> string \<Rightarrow> CausalReceiptBuilder \<Rightarrow> 's \<Rightarrow> 's \<times> (string, Receipt option) res) option"
  ro_PreflightCausalAppend :: "(string \<Rightarrow> 's \<Rightarrow> (string, unit) res) option"
  ro_PreflightCausalAppendScoped :: "(string \<Rightarrow> string \<Rightarrow> 's \<Rightarrow> (string, unit) res) option"
  ro_GetByDecisionIDForTenant :: "(string \<Rightarrow> string \<Rightarrow> 's \<Rightarrow> (string, Receipt option) res) option"
  ro_NormalizeReceiptTimestamp :: "(gotime \<Rightarrow> gotime) option"

record outbox_ops =
  ob_Schedule :: "Effect \<Rightarrow> AuthorizedExecutionIntent \<Rightarrow> string option"
  ob_MarkDone :: "string \<Rightarrow> string option"

record UsageEvent =
  us_TenantID :: string
  us_EventType :: string
  us_Quantity :: int
  us_Timestamp :: gotime
  us_Metadata :: "(string \<times> gval) list"

record exec_verifier =
  VerifyDecision :: "DecisionRecord \<Rightarrow> (string, bool) res"
  VerifyIntent :: "AuthorizedExecutionIntent \<Rightarrow> (string, bool) res"

record ('s, 'g) SafeExecutor =
  x_verifier :: "exec_verifier option"
  x_signer :: "(Receipt \<Rightarrow> (string, Receipt) res) option"
  x_driver :: "string \<Rightarrow> gctx \<Rightarrow> (string, gval) res"
  x_receiptStore :: "'s receipt_ops option"
  x_artifactStore :: "(string \<Rightarrow> (string, string) res) option"
  x_outboxStore :: "outbox_ops option"
  x_currentPhenotypeHash :: string
  x_AuditLog :: bool
  x_prohibitedTools :: "string list"
  x_meter :: "(UsageEvent \<Rightarrow> string option) option"
  x_outputSchemaRegistry :: "(string \<Rightarrow> (gval \<Rightarrow> (string, string) res) option) option"
  x_safeDepGate :: "(GateRequest \<Rightarrow> 'g \<Rightarrow> 'g \<times> (string, GateResult) res) option"

datatype exec_event =
    StoredArtifact string | Scheduled Effect AuthorizedExecutionIntent | Dispatched string string gctx | OutputHashBound string
  | MarkedDone string | Audited string "(string \<times> gval) list" | Metered UsageEvent

record ('s, 'g) exec_state =
  xs_receipts :: 's
  xs_gate :: 'g
  xs_events :: "exec_event list"

definition log_event :: "exec_event \<Rightarrow> ('s, 'g) exec_state \<Rightarrow> ('s, 'g) exec_state" where
  "log_event ev s = s\<lparr>xs_events := xs_events s @ [ev]\<rparr>"

datatype exec_error = ExecError string | AuthorityRefused authority_error | WindowRefused intent_error | DispatchBlocked string

text \<open>The tool policy of \<^verbatim>\<open>receipts/policies/enforcer.go\<close>.\<close>

definition Enforcer_IsToolAllowed :: "string list \<Rightarrow> string \<Rightarrow> bool" where
  "Enforcer_IsToolAllowed prohibited toolName = (toolName \<notin> set prohibited)"

definition ApplyCompilerPolicy :: "string list option \<Rightarrow> ('s, 'g) SafeExecutor \<Rightarrow> ('s, 'g) SafeExecutor" where
  "ApplyCompilerPolicy policy x = (case policy of None \<Rightarrow> x | Some tools \<Rightarrow> x\<lparr>x_prohibitedTools := tools\<rparr>)"

text \<open>The controller as the gate of an executor.\<close>

definition controller_gate :: "sd_env \<Rightarrow> string option \<Rightarrow> Controller \<Rightarrow> GateRequest \<Rightarrow> sd_state \<Rightarrow> sd_state \<times> (string, GateResult) res" where
  "controller_gate sv cancelled c req s = (case Gate sv cancelled c req s of (s', Inl e) \<Rightarrow> (s', Err (err_text e)) | (s', Inr r) \<Rightarrow> (s', Ok r))"

text \<open>A new executor has a strict tool policy with nothing prohibited and a safe-deprecation controller with the default settings as its gate.\<close>

definition NewSafeExecutor ::
  "sd_env \<Rightarrow> string option \<Rightarrow> exec_verifier option \<Rightarrow> (Receipt \<Rightarrow> (string, Receipt) res) option \<Rightarrow> (string \<Rightarrow> gctx \<Rightarrow> (string, gval) res) \<Rightarrow> 's receipt_ops option \<Rightarrow>
     (string \<Rightarrow> (string, string) res) option \<Rightarrow> outbox_ops option \<Rightarrow> string \<Rightarrow> bool \<Rightarrow> (UsageEvent \<Rightarrow> string option) option \<Rightarrow>
     (string \<Rightarrow> (gval \<Rightarrow> (string, string) res) option) option \<Rightarrow> ('s, sd_state) SafeExecutor" where
  "NewSafeExecutor sv cancelled verifier signer driver store artStore outbox phenotypeHash auditLog meter outputRegistry =
     \<lparr>x_verifier = verifier, x_signer = signer, x_driver = driver, x_receiptStore = store, x_artifactStore = artStore, x_outboxStore = outbox,
      x_currentPhenotypeHash = phenotypeHash, x_AuditLog = auditLog, x_prohibitedTools = [], x_meter = meter,
      x_outputSchemaRegistry = outputRegistry, x_safeDepGate = Some (controller_gate sv cancelled (NewController None 0 0 False False False False 0))\<rparr>"

section \<open>Gating\<close>

definition validateGating ::
  "exec_env \<Rightarrow> ('s, 'g) SafeExecutor \<Rightarrow> DecisionRecord option \<Rightarrow> AuthorizedExecutionIntent option \<Rightarrow> Effect option \<Rightarrow> (exec_error, unit) res" where
  "validateGating en x decision intent effect =
     (case decision of
        None \<Rightarrow> Err (ExecError ''execution blocked: missing decision'')
      | Some d \<Rightarrow>
          if blank (d_ID d) then Err (ExecError ''execution blocked: missing decision id'')
          else case effect of
            None \<Rightarrow> Err (ExecError ''execution blocked: missing effect'')
          | Some e \<Rightarrow>
              (case intent of
                 None \<Rightarrow> Err (ExecError ''execution blocked: missing execution intent'')
               | Some i \<Rightarrow>
                   if ai_DecisionID i \<noteq> d_ID d then
                     Err (ExecError (''intent mismatch: intent.decision_id '' @ ai_DecisionID i @ '' != decision.id '' @ d_ID d))
                   else case CanonicalEffectDigest (en_digest en) (Some e) of
                     Inl err \<Rightarrow> Err (ExecError (''execution blocked: canonical effect digest: '' @ err))
                   | Inr effectDigest \<Rightarrow>
                       if d_EffectDigest d = [] then Err (ExecError ''execution blocked: decision missing effect digest'')
                       else if d_EffectDigest d \<noteq> effectDigest then
                         Err (ExecError (''execution blocked: effect digest mismatch (decision='' @ d_EffectDigest d @ '', runtime='' @ effectDigest @ '')''))
                       else if ai_EffectDigestHash i = [] then Err (ExecError ''execution blocked: intent missing effect digest hash'')
                       else if ai_EffectDigestHash i \<noteq> effectDigest then
                         Err (ExecError (''execution blocked: intent effect digest mismatch (intent='' @ ai_EffectDigestHash i @ '', runtime='' @ effectDigest @ '')''))
                       else case x_verifier x of
                         None \<Rightarrow> Err (ExecError ''execution blocked: no signature verifier configured'')
                       | Some v \<Rightarrow>
                           (case VerifyDecision v d of
                              Inl err \<Rightarrow> Err (ExecError (''execution blocked: decision signature verification failed: '' @ err))
                            | Inr valid \<Rightarrow>
                                if \<not> valid then Err (ExecError ''execution blocked: invalid decision signature'')
                                else case ValidateDecisionAuthorityForUse d of
                                  Inl err \<Rightarrow> Err (AuthorityRefused err)
                                | Inr _ \<Rightarrow>
                                    (case VerifyIntent v i of
                                       Inl err \<Rightarrow> Err (ExecError (''execution blocked: intent signature verification failed: '' @ err))
                                     | Inr valid \<Rightarrow>
                                         if \<not> valid then Err (ExecError ''execution blocked: invalid intent signature'')
                                         else if d_Verdict d \<noteq> VerdictAllow then
                                           Err (ExecError (''execution blocked: decision verdict is '' @ d_Verdict d @ '' (reason: '' @ d_Reason d @ '')''))
                                         else case ValidateAt (Some i) (en_clk en ''gating'') of
                                           Inl err \<Rightarrow> Err (WindowRefused err)
                                         | Inr _ \<Rightarrow> Ok ()))))"

definition cloneAuthorizedExecutionIntent :: "digest_env \<Rightarrow> AuthorizedExecutionIntent \<Rightarrow> (string, AuthorizedExecutionIntent) res" where
  "cloneAuthorizedExecutionIntent de i =
     (case ai_EffectBinding i of
        None \<Rightarrow> Ok i
      | Some b \<Rightarrow>
          (case NormalizeEffectDigestBinding de (Some b) of
             Inl e \<Rightarrow> Err (''clone effect binding: '' @ e)
           | Inr b' \<Rightarrow> Ok (i\<lparr>ai_EffectBinding := Some b'\<rparr>)))"

text \<open>The classification of a result that has none is the zero struct.\<close>

definition result_state :: "GateResult \<Rightarrow> string" where
  "result_state r = (case gt_Classification r of None \<Rightarrow> [] | Some c \<Rightarrow> hc_State c)"

definition result_hazard :: "GateResult \<Rightarrow> string" where
  "result_hazard r = (case gt_Classification r of None \<Rightarrow> [] | Some c \<Rightarrow> hc_HazardCode c)"

definition validateSafeDepIntentBinding :: "exec_env \<Rightarrow> AuthorizedExecutionIntent \<Rightarrow> GateResult \<Rightarrow> (string, unit) res" where
  "validateSafeDepIntentBinding en i r =
     (let hasSignedBinding = (ai_EmergencyActivationID i \<noteq> [] \<or> ai_EmergencyDelegationSessionID i \<noteq> [] \<or> ai_EmergencyScopeHash i \<noteq> []);
          hasRuntimeActivation = (gt_ActivationReceipt r \<noteq> None \<or> result_state r = SafeDepDegradedNarrowing) in
      if \<not> hasSignedBinding \<and> \<not> hasRuntimeActivation then Ok ()
      else if \<not> hasSignedBinding then Err ''safe dep activation evidence has no signed emergency binding''
      else if blank (ai_EmergencyActivationID i) \<or> blank (ai_EmergencyDelegationSessionID i) \<or> blank (ai_EmergencyScopeHash i) then
        Err ''safe dep signed emergency binding is incomplete''
      else if result_state r \<noteq> SafeDepDegradedNarrowing then
        Err (''safe dep signed emergency binding requires degraded narrowing, got '' @ en_quote en (result_state r))
      else case gt_ActivationReceipt r of
        None \<Rightarrow> Err ''safe dep degraded narrowing allowed without activation evidence''
      | Some a \<Rightarrow>
          if blank (rc_ActivationID a) \<or> blank (rc_DelegationSessionID a) \<or> blank (gt_EmergencyScopeHash r) then
            Err ''safe dep activation evidence is incomplete''
          else if ai_EmergencyActivationID i \<noteq> rc_ActivationID a then
            Err (''safe dep activation '' @ en_quote en (rc_ActivationID a) @ '' does not match signed intent binding '' @ en_quote en (ai_EmergencyActivationID i))
          else if ai_EmergencyDelegationSessionID i \<noteq> rc_DelegationSessionID a then
            Err (''safe dep delegation session '' @ en_quote en (rc_DelegationSessionID a) @ '' does not match signed intent binding '' @
              en_quote en (ai_EmergencyDelegationSessionID i))
          else if ai_EmergencyScopeHash i \<noteq> gt_EmergencyScopeHash r then
            Err (''safe dep scope '' @ en_quote en (gt_EmergencyScopeHash r) @ '' does not match signed intent binding '' @ en_quote en (ai_EmergencyScopeHash i))
          else Ok ())"

section \<open>Identities\<close>

definition ReceiptIDForDecision :: "exec_env \<Rightarrow> string \<Rightarrow> string \<Rightarrow> string" where
  "ReceiptIDForDecision en tenantID0 decisionID =
     (let tenantID = TrimSpace tenantID0 in
      if tenantID = [] then ''rcpt-'' @ decisionID
      else ''rcpt-'' @ en_sha_hex en (dec_of_nat (length tenantID) @ '':'' @ tenantID @ dec_of_nat (length decisionID) @ '':'' @ decisionID))"

definition receiptSessionID :: "DecisionRecord \<Rightarrow> (string, string) res" where
  "receiptSessionID d =
     (case ctx_str (d_InputContext d) ''session_id'' of
        Some v \<Rightarrow>
          if \<not> blank v then Ok v
          else if blank (d_ID d) then Err ''missing decision id for standalone receipt session''
          else Ok (''standalone:decision:'' @ d_ID d)
      | None \<Rightarrow>
          if blank (d_ID d) then Err ''missing decision id for standalone receipt session'' else Ok (''standalone:decision:'' @ d_ID d))"

definition authenticatedTenantID :: "exec_env \<Rightarrow> (string, string) res" where
  "authenticatedTenantID en =
     (case en_tenant en of
        Inl e \<Rightarrow> Err (''authenticated tenant required: '' @ e)
      | Inr t \<Rightarrow> if blank t then Err ''authenticated tenant required'' else Ok (TrimSpace t))"

section \<open>Before the dispatch\<close>

definition checkIdempotency :: "('s, 'g) SafeExecutor \<Rightarrow> string \<Rightarrow> string \<Rightarrow> 's \<Rightarrow> (string, Receipt option) res" where
  "checkIdempotency x tenantID decisionID st =
     (case x_receiptStore x of
        None \<Rightarrow> Ok None
      | Some ops \<Rightarrow>
          if tenantID \<noteq> [] then
            (case ro_GetByDecisionIDForTenant ops of
               None \<Rightarrow> Err ''fail-closed: receipt store lacks tenant-scoped idempotency lookup''
             | Some lookup \<Rightarrow>
                 (case lookup tenantID decisionID st of Inl e \<Rightarrow> Err (''tenant-scoped idempotency lookup: '' @ e) | Inr r \<Rightarrow> Ok r))
          else (case ro_Get ops decisionID st of Inl e \<Rightarrow> Ok None | Inr r \<Rightarrow> Ok r))"

definition preflightCausalReceiptAppend :: "('s, 'g) SafeExecutor \<Rightarrow> string \<Rightarrow> DecisionRecord \<Rightarrow> 's \<Rightarrow> (string, unit) res" where
  "preflightCausalReceiptAppend x tenantID d st =
     (case x_receiptStore x of
        None \<Rightarrow> Ok ()
      | Some ops \<Rightarrow>
          (case receiptSessionID d of
             Inl e \<Rightarrow> Err e
           | Inr sessionID \<Rightarrow>
               if tenantID \<noteq> [] then
                 (if ro_AppendCausalScoped ops = None then Err ''fail-closed: receipt store lacks tenant-scoped causal append''
                  else case ro_PreflightCausalAppendScoped ops of
                    None \<Rightarrow> Err ''fail-closed: receipt store lacks tenant-scoped causal append preflight''
                  | Some preflight \<Rightarrow>
                      (case preflight tenantID sessionID st of Inl e \<Rightarrow> Err (''receipt causal append preflight failed: '' @ e) | Inr _ \<Rightarrow> Ok ()))
               else if ro_AppendCausal ops \<noteq> None then
                 (case ro_PreflightCausalAppend ops of
                    None \<Rightarrow> Err ''fail-closed: receipt store lacks causal append preflight''
                  | Some preflight \<Rightarrow>
                      (case preflight sessionID st of Inl e \<Rightarrow> Err (''receipt causal append preflight failed: '' @ e) | Inr _ \<Rightarrow> Ok ()))
               else Ok ()))"

definition check_phenotype :: "('s, 'g) SafeExecutor \<Rightarrow> DecisionRecord \<Rightarrow> string \<Rightarrow> (string, string) res" where
  "check_phenotype x d blobHash =
     (if x_currentPhenotypeHash x \<noteq> [] \<and> d_PhenotypeHash d \<noteq> [] \<and> d_PhenotypeHash d \<noteq> x_currentPhenotypeHash x then
        Err (''execution blocked: phenotype mismatch (decision='' @ d_PhenotypeHash d @ '', current='' @ x_currentPhenotypeHash x @ '')'')
      else Ok blobHash)"

definition verifySnapshot :: "('s, 'g) SafeExecutor \<Rightarrow> DecisionRecord \<Rightarrow> ('s, 'g) exec_state \<Rightarrow> ('s, 'g) exec_state \<times> (string, string) res" where
  "verifySnapshot x d s =
     (if d_Snapshot d = [] then (s, check_phenotype x d [])
      else case x_artifactStore x of
        None \<Rightarrow> (s, check_phenotype x d [])
      | Some put \<Rightarrow>
          (case put (d_Snapshot d) of
             Inl e \<Rightarrow> (s, Err (''failed to store snapshot artifact: '' @ e))
           | Inr h \<Rightarrow>
               (log_event (StoredArtifact (d_Snapshot d)) s,
                if h \<noteq> d_PhenotypeHash d then Err (''phenotype mismatch: snapshot hash '' @ h @ '' != decision hash '' @ d_PhenotypeHash d)
                else check_phenotype x d h)))"

definition choose_tool :: "AuthorizedExecutionIntent \<Rightarrow> Effect \<Rightarrow> (string, string) res" where
  "choose_tool i e =
     (case (case ctx_str (Params e) ''tool_name'' of
              Some t \<Rightarrow> Ok t
            | None \<Rightarrow> if ai_AllowedTool i \<noteq> [] then Ok (ai_AllowedTool i) else Err ''tool_name missing in params'') of
        Inl err \<Rightarrow> Err err
      | Inr toolName \<Rightarrow>
          if ai_AllowedTool i \<noteq> [] \<and> ai_AllowedTool i \<noteq> toolName then
            Err (''intent violation: allowed_tool '' @ ai_AllowedTool i @ '' does not match requested '' @ toolName)
          else Ok toolName)"

definition gate_request :: "exec_env \<Rightarrow> DecisionRecord \<Rightarrow> AuthorizedExecutionIntent \<Rightarrow> Effect \<Rightarrow> string \<Rightarrow> GateRequest" where
  "gate_request en d gateIntent e toolName =
     (let req = (GateRequestFromContext (en_fold en) (en_typed en) (d_InputContext d))
            \<lparr>gq_Intent := Some gateIntent, gq_DecisionID := d_ID d, gq_EffectID := EffectID e, gq_EffectType := EffectType e,
             gq_Action := d_Action d, gq_ToolName := toolName\<rparr> in
      if gq_ConnectorID req = [] then req\<lparr>gq_ConnectorID := toolName\<rparr> else req)"

definition safedep_stage ::
  "exec_env \<Rightarrow> ('s, 'g) SafeExecutor \<Rightarrow> DecisionRecord \<Rightarrow> AuthorizedExecutionIntent \<Rightarrow> Effect \<Rightarrow> string \<Rightarrow> ('s, 'g) exec_state \<Rightarrow>
     ('s, 'g) exec_state \<times> (exec_error, GateResult) res" where
  "safedep_stage en x d i e toolName s =
     (case x_safeDepGate x of
        None \<Rightarrow> (s, Err (DispatchBlocked ''ERR_ATTESTATION_RESULT_REQUIRED: safe deprecation gate unavailable''))
      | Some gate \<Rightarrow>
          (case cloneAuthorizedExecutionIntent (en_digest en) i of
             Inl err \<Rightarrow> (s, Err (ExecError (''execution blocked: snapshot SafeDep gate intent: '' @ err)))
           | Inr gateIntent \<Rightarrow>
               (case gate (gate_request en d gateIntent e toolName) (xs_gate s) of
                  (g, Inl err) \<Rightarrow> (s\<lparr>xs_gate := g\<rparr>, Err (DispatchBlocked err))
                | (g, Inr r) \<Rightarrow>
                    (s\<lparr>xs_gate := g\<rparr>,
                     if \<not> gt_DispatchAllowed r then Err (DispatchBlocked (if gt_Reason r = [] then gt_ReasonCode r else gt_Reason r))
                     else case validateSafeDepIntentBinding en i r of Inl err \<Rightarrow> Err (DispatchBlocked err) | Inr _ \<Rightarrow> Ok r))))"

record prepared =
  pr_tenant :: string
  pr_intent :: AuthorizedExecutionIntent
  pr_blob :: string
  pr_tool :: string
  pr_gate :: GateResult

datatype admission = Replay Receipt | Admit string AuthorizedExecutionIntent

text \<open>Gating, the snapshot of the intent, the tenant, idempotency and the preflight of the receipt.\<close>

definition admit ::
  "exec_env \<Rightarrow> ('s, 'g) SafeExecutor \<Rightarrow> Effect option \<Rightarrow> DecisionRecord \<Rightarrow> AuthorizedExecutionIntent option \<Rightarrow> 's \<Rightarrow> (exec_error, admission) res" where
  "admit en x effect d intent st =
     (case validateGating en x (Some d) intent effect of
        Inl err \<Rightarrow> Err err
      | Inr _ \<Rightarrow>
          (case cloneAuthorizedExecutionIntent (en_digest en) (the intent) of
             Inl err \<Rightarrow> Err (ExecError (''execution blocked: snapshot verified execution intent: '' @ err))
           | Inr i \<Rightarrow>
               (let scoped = (case x_receiptStore x of None \<Rightarrow> False | Some ops \<Rightarrow> ro_AppendCausalScoped ops \<noteq> None) in
                case (case authenticatedTenantID en of
                        Inl err \<Rightarrow> if scoped then Err (''execution blocked: '' @ err) else Ok []
                      | Inr t \<Rightarrow> Ok t) of
                  Inl err \<Rightarrow> Err (ExecError err)
                | Inr tenantID \<Rightarrow>
                    (case checkIdempotency x tenantID (d_ID d) st of
                       Inl err \<Rightarrow> Err (ExecError (''execution blocked: '' @ err))
                     | Inr (Some r) \<Rightarrow> Ok (Replay r)
                     | Inr None \<Rightarrow>
                         (case preflightCausalReceiptAppend x tenantID d st of
                            Inl err \<Rightarrow> Err (ExecError (''execution blocked: '' @ err))
                          | Inr _ \<Rightarrow> Ok (Admit tenantID i))))))"

text \<open>The snapshot, the tool, the safe-deprecation gate, the tool policy and the outbox.\<close>

definition prepare ::
  "exec_env \<Rightarrow> ('s, 'g) SafeExecutor \<Rightarrow> Effect \<Rightarrow> DecisionRecord \<Rightarrow> string \<Rightarrow> AuthorizedExecutionIntent \<Rightarrow> ('s, 'g) exec_state \<Rightarrow>
     ('s, 'g) exec_state \<times> (exec_error, prepared) res" where
  "prepare en x e d tenantID i s =
     (case verifySnapshot x d s of
        (s, Inl err) \<Rightarrow> (s, Err (ExecError err))
      | (s, Inr blobHash) \<Rightarrow>
          (case choose_tool i e of
             Inl err \<Rightarrow> (s, Err (ExecError err))
           | Inr toolName \<Rightarrow>
               (case safedep_stage en x d i e toolName s of
                  (s, Inl err) \<Rightarrow> (s, Err err)
                | (s, Inr result) \<Rightarrow>
                    if \<not> Enforcer_IsToolAllowed (x_prohibitedTools x) toolName then
                      (s, Err (ExecError (''policy violation: tool '' @ toolName @ '' is prohibited by active regulation'')))
                    else
                      (let p = \<lparr>pr_tenant = tenantID, pr_intent = i, pr_blob = blobHash, pr_tool = toolName, pr_gate = result\<rparr> in
                       case x_outboxStore x of
                         None \<Rightarrow> (s, Ok p)
                       | Some ob \<Rightarrow>
                           (case ob_Schedule ob e i of
                              Some err \<Rightarrow> (s, Err (ExecError (''failed to schedule effect in outbox: '' @ err)))
                            | None \<Rightarrow> (log_event (Scheduled e i) s, Ok p))))))"

section \<open>The receipt\<close>

definition receipt_body ::
  "exec_env \<Rightarrow> DecisionRecord \<Rightarrow> Effect \<Rightarrow> prepared \<Rightarrow> string \<Rightarrow> string \<Rightarrow> string \<Rightarrow> gotime \<Rightarrow> 64 word \<Rightarrow> string \<Rightarrow> bool \<Rightarrow> Receipt" where
  "receipt_body en d e p outputHash sessionID decisionHash timestamp lamportClock prevHash causal =
     (let hazard = result_hazard (pr_gate p) \<noteq> [] in
      \<lparr>rp_ReceiptID = ReceiptIDForDecision en (pr_tenant p) (d_ID d), rp_DecisionID = d_ID d,
       rp_CorrelationID = (if d_CorrelationID d = [] then (case en_correlation en of Some c \<Rightarrow> c | None \<Rightarrow> []) else d_CorrelationID d),
       rp_EffectID = EffectID e, rp_ExternalReferenceID = [], rp_Status = ''SUCCESS'', rp_BlobHash = pr_blob p, rp_OutputHash = outputHash,
       rp_Timestamp = timestamp, rp_ExecutorID = [], rp_Metadata = None, rp_Signature = [], rp_SignatureProfile = [],
       rp_SignatureAlgorithm = [], rp_KeyID = [], rp_PublicKeySet = [], rp_MerkleRoot = [], rp_PrevHash = prevHash,
       rp_LamportClock = lamportClock, rp_ArgsHash = ArgsHash e, rp_SignatureVersion = (if causal then ReceiptSignatureV5 else []),
       rp_DecisionHash = decisionHash, rp_Verdict = d_Verdict d, rp_ReasonCode = d_ReasonCode d, rp_PolicyHash = d_PolicyContentHash d,
       rp_SessionID = sessionID, rp_EmergencyActivationID = ai_EmergencyActivationID (pr_intent p),
       rp_EmergencyDelegationSessionID = ai_EmergencyDelegationSessionID (pr_intent p),
       rp_EmergencyScopeHash = ai_EmergencyScopeHash (pr_intent p),
       rp_SafeDepState = (if hazard then result_state (pr_gate p) else []),
       rp_SafeDepReasonCode = (if hazard then gt_ReasonCode (pr_gate p) else []), rp_Transparency = None, rp_LogID = [], rp_LeafIndex = 0\<rparr>)"

definition buildReceipt ::
  "exec_env \<Rightarrow> ('s, 'g) SafeExecutor \<Rightarrow> DecisionRecord \<Rightarrow> Effect \<Rightarrow> prepared \<Rightarrow> string \<Rightarrow> string \<Rightarrow> string \<Rightarrow> gotime \<Rightarrow>
     64 word \<Rightarrow> string \<Rightarrow> bool \<Rightarrow> (string, Receipt) res" where
  "buildReceipt en x d e p outputHash sessionID decisionHash timestamp lamportClock prevHash causal =
     (let receipt = receipt_body en d e p outputHash sessionID decisionHash timestamp lamportClock prevHash causal in
      case x_signer x of
        None \<Rightarrow> Ok receipt
      | Some sign \<Rightarrow> (case sign receipt of Inl err \<Rightarrow> Err (''fail-closed: receipt signing failed: '' @ err) | Inr r \<Rightarrow> Ok r))"

definition persisted :: "'s \<times> (string, Receipt option) res \<Rightarrow> 's \<times> (string, Receipt) res" where
  "persisted q =
     (case q of
        (st, Inl err) \<Rightarrow> (st, Err (''fail-closed: receipt persistence failed: '' @ err))
      | (st, Inr None) \<Rightarrow> (st, Err ''fail-closed: causal receipt store completed without building a receipt'')
      | (st, Inr (Some r)) \<Rightarrow> (st, Ok r))"

definition next_position :: "exec_env \<Rightarrow> string \<Rightarrow> (string, Receipt option) res \<Rightarrow> (string, 64 word \<times> string) res" where
  "next_position en sessionID previous =
     (case previous of
        Inl err \<Rightarrow> Err (''load previous receipt for session '' @ en_quote en sessionID @ '': '' @ err)
      | Inr None \<Rightarrow> Ok (1, [])
      | Inr (Some prev) \<Rightarrow>
          (case ReceiptChainHash (en_receipt_hash en) (Some prev) of
             Inl err \<Rightarrow> Err (''hash previous receipt for session '' @ en_quote en sessionID @ '': '' @ err)
           | Inr h \<Rightarrow> Ok (rp_LamportClock prev + 1, h)))"

definition Exec_createReceipt ::
  "exec_env \<Rightarrow> ('s, 'g) SafeExecutor \<Rightarrow> DecisionRecord \<Rightarrow> Effect \<Rightarrow> prepared \<Rightarrow> string \<Rightarrow> 's \<Rightarrow> 's \<times> (string, Receipt) res" where
  "Exec_createReceipt en x d e p outputHash st =
     (case receiptSessionID d of
        Inl err \<Rightarrow> (st, Err err)
      | Inr sessionID \<Rightarrow>
          (case en_decision_hash en d of
             Inl err \<Rightarrow> (st, Err (''derive semantic decision hash: '' @ err))
           | Inr decisionHash \<Rightarrow>
               (let normal = (case x_receiptStore x of
                        None \<Rightarrow> id | Some ops \<Rightarrow> (case ro_NormalizeReceiptTimestamp ops of None \<Rightarrow> id | Some f \<Rightarrow> f));
                    build = buildReceipt en x d e p outputHash sessionID decisionHash (normal (en_clk en ''receipt''));
                    causal = (\<lambda>_ lamport prevHash. case build lamport prevHash True of Inl err \<Rightarrow> Err err | Inr r \<Rightarrow> Ok (Some r)) in
                case x_receiptStore x of
                  None \<Rightarrow> (st, build 1 [] False)
                | Some ops \<Rightarrow>
                    if pr_tenant p \<noteq> [] then
                      (case ro_AppendCausalScoped ops of
                         None \<Rightarrow> (st, Err ''fail-closed: receipt store lacks tenant-scoped causal append'')
                       | Some appender \<Rightarrow> persisted (appender (pr_tenant p) sessionID causal st))
                    else case ro_AppendCausal ops of
                      Some appender \<Rightarrow> persisted (appender sessionID causal st)
                    | None \<Rightarrow>
                        (case next_position en sessionID (ro_GetLastForSession ops sessionID st) of
                           Inl err \<Rightarrow> (st, Err err)
                         | Inr (lamport, prevHash) \<Rightarrow>
                             (case build lamport prevHash False of
                                Inl err \<Rightarrow> (st, Err err)
                              | Inr r \<Rightarrow>
                                  (case ro_Store ops r st of
                                     (st', Inl err) \<Rightarrow> (st', Err (''fail-closed: receipt persistence failed: '' @ err))
                                   | (st', Inr r') \<Rightarrow> (st', Ok r')))))))"

section \<open>Dispatch and completion\<close>

definition finalizeExecution ::
  "('s, 'g) SafeExecutor \<Rightarrow> DecisionRecord \<Rightarrow> string \<Rightarrow> ('s, 'g) exec_state \<Rightarrow> ('s, 'g) exec_state \<times> (string, unit) res" where
  "finalizeExecution x d toolName s =
     (case (case x_outboxStore x of
              None \<Rightarrow> (s, Ok ())
            | Some ob \<Rightarrow>
                (case ob_MarkDone ob (d_ID d) of
                   Some err \<Rightarrow> (s, Err (''fail-closed: outbox mark-done failed: '' @ err))
                 | None \<Rightarrow> (log_event (MarkedDone (d_ID d)) s, Ok ()))) of
        (s, Inl err) \<Rightarrow> (s, Err err)
      | (s, Inr _) \<Rightarrow>
          (if x_AuditLog x then
             log_event (Audited ''execute_effect'' [(''decision_id'', GStr (d_ID d)), (''tool'', GStr toolName), (''status'', GStr ''SUCCESS'')]) s
           else s, Ok ()))"

definition record_usage :: "exec_env \<Rightarrow> ('s, 'g) SafeExecutor \<Rightarrow> DecisionRecord \<Rightarrow> prepared \<Rightarrow> ('s, 'g) exec_state \<Rightarrow> ('s, 'g) exec_state" where
  "record_usage en x d p s =
     (case x_meter x of
        None \<Rightarrow> s
      | Some meter \<Rightarrow>
          (let u = \<lparr>us_TenantID = (if pr_tenant p = [] then ''system'' else pr_tenant p), us_EventType = ''execution'', us_Quantity = 1,
                 us_Timestamp = en_clk en ''meter'', us_Metadata = [(''tool'', GStr (pr_tool p)), (''decision_id'', GStr (d_ID d))]\<rparr> in
           case meter u of
             None \<Rightarrow> log_event (Metered u) s
           | Some err \<Rightarrow>
               if x_AuditLog x then log_event (Audited ''metering_error'' [(''decision_id'', GStr (d_ID d)), (''error'', GStr err)]) s else s))"

definition check_output :: "('s, 'g) SafeExecutor \<Rightarrow> string \<Rightarrow> gval \<Rightarrow> ('s, 'g) exec_state \<Rightarrow> ('s, 'g) exec_state \<times> (string, unit) res" where
  "check_output x toolName result s =
     (case (case x_outputSchemaRegistry x of None \<Rightarrow> None | Some reg \<Rightarrow> reg toolName) of
        None \<Rightarrow> (s, Ok ())
      | Some validate \<Rightarrow>
          (case validate result of
             Inl err \<Rightarrow> (s, Err (''ERR_CONNECTOR_CONTRACT_DRIFT: '' @ err))
           | Inr h \<Rightarrow> (log_event (OutputHashBound h) s, Ok ())))"

definition store_output :: "('s, 'g) SafeExecutor \<Rightarrow> Artifact \<Rightarrow> ('s, 'g) exec_state \<Rightarrow> ('s, 'g) exec_state \<times> (string, unit) res" where
  "store_output x artifact s =
     (case x_artifactStore x of
        None \<Rightarrow> (s, Ok ())
      | Some put \<Rightarrow>
          (case put (af_CanonicalBytes artifact) of
             Inl err \<Rightarrow> (s, Err (''failed to persist output artifact: '' @ err))
           | Inr h \<Rightarrow>
               (log_event (StoredArtifact (af_CanonicalBytes artifact)) s,
                if h \<noteq> af_Digest artifact then Err (''store integrity violation: calculated '' @ af_Digest artifact @ '' != stored '' @ h) else Ok ())))"

definition complete ::
  "exec_env \<Rightarrow> ('s, 'g) SafeExecutor \<Rightarrow> Effect \<Rightarrow> DecisionRecord \<Rightarrow> prepared \<Rightarrow> ('s, 'g) exec_state \<Rightarrow>
     ('s, 'g) exec_state \<times> (exec_error, Receipt \<times> Artifact) res" where
  "complete en x e d p s0 =
     (let s = log_event (Dispatched (d_ID d) (pr_tool p) (Params e)) s0 in
      case x_driver x (pr_tool p) (Params e) of
        Inl err \<Rightarrow> (s, Err (ExecError err))
      | Inr result \<Rightarrow>
          (case check_output x (pr_tool p) result s of
             (s, Inl err) \<Rightarrow> (s, Err (ExecError err))
           | (s, Inr _) \<Rightarrow>
               (case Canonicalize_artifact en (case result of GStr _ \<Rightarrow> ''text/plain'' | _ \<Rightarrow> ''application/json'') result of
                  Inl err \<Rightarrow> (s, Err (ExecError (''output canonicalization failed: '' @ err)))
                | Inr artifact \<Rightarrow>
                    (case store_output x artifact s of
                       (s, Inl err) \<Rightarrow> (s, Err (ExecError err))
                     | (s, Inr _) \<Rightarrow>
                         (case Exec_createReceipt en x d e p (af_Digest artifact) (xs_receipts s) of
                            (st, Inl err) \<Rightarrow> (s\<lparr>xs_receipts := st\<rparr>, Err (ExecError (''receipt creation failed: '' @ err)))
                          | (st, Inr receipt) \<Rightarrow>
                              (case finalizeExecution x d (pr_tool p) (s\<lparr>xs_receipts := st\<rparr>) of
                                 (s, Inl err) \<Rightarrow> (s, Err (ExecError err))
                               | (s, Inr _) \<Rightarrow> (record_usage en x d p s, Ok (receipt, artifact))))))))"

definition replay_artifact :: "Receipt \<Rightarrow> Artifact" where
  "replay_artifact r = \<lparr>af_SchemaID = ''system/execution-status'', af_ContentType = ''application/json'', af_CanonicalBytes = [],
     af_Digest = rp_OutputHash r, af_Preview = ''Already executed. Receipt: '' @ rp_ReceiptID r, af_Metadata = []\<rparr>"

definition Execute ::
  "exec_env \<Rightarrow> ('s, 'g) SafeExecutor \<Rightarrow> Effect option \<Rightarrow> DecisionRecord option \<Rightarrow> AuthorizedExecutionIntent option \<Rightarrow> ('s, 'g) exec_state \<Rightarrow>
     ('s, 'g) exec_state \<times> (exec_error, Receipt \<times> Artifact) res" where
  "Execute en x effect decision intent s =
     (case decision of
        None \<Rightarrow> (s, Err (ExecError ''execution blocked: missing decision''))
      | Some d \<Rightarrow>
          (case admit en x effect d intent (xs_receipts s) of
             Inl err \<Rightarrow> (s, Err err)
           | Inr (Replay r) \<Rightarrow> (s, Ok (r, replay_artifact r))
           | Inr (Admit tenantID i) \<Rightarrow>
               (case prepare en x (the effect) d tenantID i s of
                  (s, Inl err) \<Rightarrow> (s, Err err)
                | (s, Inr p) \<Rightarrow> complete en x (the effect) d p s)))"

section \<open>The SQLite store as a collaborator\<close>

text \<open>Its \<^verbatim>\<open>Get\<close> reports a missing receipt as an error; it has no timestamp normaliser.\<close>

definition some_receipt :: "'s \<times> (string, Receipt) res \<Rightarrow> 's \<times> (string, Receipt option) res" where
  "some_receipt q = (case q of (st, Inl e) \<Rightarrow> (st, Err e) | (st, Inr r) \<Rightarrow> (st, Ok (Some r)))"

definition sqlite_ops :: "store_env \<Rightarrow> receipt_table receipt_ops" where
  "sqlite_ops ev =
     \<lparr>ro_Get = (\<lambda>d t. case Receipt_Get ev d t of Inl e \<Rightarrow> Err e | Inr r \<Rightarrow> Ok (Some r)),
      ro_Store = Store_receipt ev, ro_GetLastForSession = GetLastForSession ev,
      ro_AppendCausal = Some (\<lambda>s b t. some_receipt (AppendCausal ev s b t)),
      ro_AppendCausalScoped = Some (\<lambda>a s b t. some_receipt (AppendCausalScoped ev a s b t)),
      ro_PreflightCausalAppend = Some (PreflightCausalAppend ev),
      ro_PreflightCausalAppendScoped = Some (PreflightCausalAppendScoped ev),
      ro_GetByDecisionIDForTenant = Some (GetByDecisionIDForTenant ev),
      ro_NormalizeReceiptTimestamp = None\<rparr>"

end
