(* ===== verification/Executor_Correct.thy ===== *)
theory Executor_Correct
  imports Executor Safe_Dep_Correct Guardian_Sign
begin

text \<open>
  What the executor promises: nothing is dispatched without a verified decision and intent over the same effect, a
  permitted tool and the consent of the safe-deprecation gate; with the SQLite store a decision that has its receipt is
  never dispatched again for its tenant; and the receipt tells what was decided and what came out.
\<close>

section \<open>Gating\<close>

lemma gating_iff:
  "validateGating en x (Some d) intent effect = Ok () \<longleftrightarrow>
   (\<exists>i e v. intent = Some i \<and> effect = Some e \<and> \<not> blank (d_ID d) \<and> ai_DecisionID i = d_ID d \<and>
     CanonicalEffectDigest (en_digest en) (Some e) = Ok (d_EffectDigest d) \<and> d_EffectDigest d \<noteq> [] \<and> ai_EffectDigestHash i = d_EffectDigest d \<and>
     x_verifier x = Some v \<and> VerifyDecision v d = Ok True \<and> ValidateDecisionAuthorityForUse d = Ok () \<and> VerifyIntent v i = Ok True \<and>
     d_Verdict d = VerdictAllow \<and> ValidateAt (Some i) (en_clk en ''gating'') = Ok ())"
  by (auto simp: validateGating_def split: if_splits option.splits sum.splits)

lemma clone_fields:
  assumes "cloneAuthorizedExecutionIntent de i = Ok i'"
  shows "\<exists>b. i' = i\<lparr>ai_EffectBinding := b\<rparr>"
proof (cases "ai_EffectBinding i")
  case None
  then have "i' = i\<lparr>ai_EffectBinding := ai_EffectBinding i\<rparr>" using assms by (simp add: cloneAuthorizedExecutionIntent_def)
  then show ?thesis by blast
next
  case (Some b)
  then show ?thesis using assms by (auto simp: cloneAuthorizedExecutionIntent_def split: sum.splits)
qed

section \<open>Dispatches\<close>

definition dispatches :: "exec_event list \<Rightarrow> (string \<times> string \<times> gctx) list" where
  "dispatches evs = List.map_filter (\<lambda>e. case e of Dispatched d t p \<Rightarrow> Some (d, t, p) | _ \<Rightarrow> None) evs"

lemma dispatches_simps [simp]:
  "dispatches [] = []" "dispatches (xs @ ys) = dispatches xs @ dispatches ys"
  "dispatches (StoredArtifact b # xs) = dispatches xs" "dispatches (Scheduled e i # xs) = dispatches xs"
  "dispatches (Dispatched d t p # xs) = (d, t, p) # dispatches xs" "dispatches (OutputHashBound h # xs) = dispatches xs"
  "dispatches (MarkedDone h # xs) = dispatches xs" "dispatches (Audited k m # xs) = dispatches xs" "dispatches (Metered u # xs) = dispatches xs"
  by (simp_all add: dispatches_def map_filter_def)

lemma log_event_fields [simp]:
  "xs_receipts (log_event ev s) = xs_receipts s" "xs_gate (log_event ev s) = xs_gate s" "xs_events (log_event ev s) = xs_events s @ [ev]"
  by (simp_all add: log_event_def)

lemma snapshot_frame:
  "verifySnapshot x d s = (s', r) \<Longrightarrow>
   xs_receipts s' = xs_receipts s \<and> xs_gate s' = xs_gate s \<and> dispatches (xs_events s') = dispatches (xs_events s)"
  by (auto simp: verifySnapshot_def split: if_splits option.splits sum.splits)

lemma safedep_frame:
  "safedep_stage en x d i e tool s = (s', r) \<Longrightarrow> xs_receipts s' = xs_receipts s \<and> xs_events s' = xs_events s"
  by (auto simp: safedep_stage_def split: if_splits option.splits sum.splits prod.splits)

lemma safedep_ok:
  assumes "safedep_stage en x d i e tool s = (s', Ok r)"
  obtains gate gi where "x_safeDepGate x = Some gate" "cloneAuthorizedExecutionIntent (en_digest en) i = Ok gi"
    "gate (gate_request en d gi e tool) (xs_gate s) = (xs_gate s', Ok r)" "gt_DispatchAllowed r" "validateSafeDepIntentBinding en i r = Ok ()"
  using assms that by (auto simp: safedep_stage_def split: if_splits option.splits sum.splits prod.splits)

lemma prepare_frame:
  assumes "prepare en x e d t i s = (s', r)"
  shows "xs_receipts s' = xs_receipts s \<and> dispatches (xs_events s') = dispatches (xs_events s)"
proof -
  obtain s1 q where q: "verifySnapshot x d s = (s1, q)" by fastforce
  note f = snapshot_frame [OF q]
  show ?thesis
  proof (cases q)
    case (Inr blob)
    then show ?thesis using assms q f
      by (auto simp: prepare_def Let_def split: sum.splits prod.splits if_splits option.splits dest!: safedep_frame)
  qed (use assms q f in \<open>auto simp: prepare_def\<close>)
qed

lemma prepare_ok:
  assumes "prepare en x e d t i s = (s', Ok p)"
  obtains s1 s2 where "xs_gate s1 = xs_gate s" "safedep_stage en x d i e (pr_tool p) s1 = (s2, Ok (pr_gate p))" "xs_gate s' = xs_gate s2"
    "choose_tool i e = Ok (pr_tool p)" "pr_tool p \<notin> set (x_prohibitedTools x)" "pr_intent p = i" "pr_tenant p = t"
proof -
  obtain s1 blob where q: "verifySnapshot x d s = (s1, Ok blob)" using assms by (auto simp: prepare_def split: prod.splits sum.splits)
  obtain tool where t: "choose_tool i e = Ok tool" using assms q by (auto simp: prepare_def split: sum.splits)
  obtain s2 r where r: "safedep_stage en x d i e tool s1 = (s2, Ok r)" using assms q t by (auto simp: prepare_def split: prod.splits sum.splits)
  have "xs_gate s' = xs_gate s2 \<and> p = \<lparr>pr_tenant = pr_tenant p, pr_intent = i, pr_blob = blob, pr_tool = tool, pr_gate = r\<rparr> \<and> pr_tenant p = t \<and> tool \<notin> set (x_prohibitedTools x)"
    using assms q t r by (auto simp: prepare_def Enforcer_IsToolAllowed_def Let_def split: if_splits option.splits)
  then show thesis using that [of s1 s2] snapshot_frame [OF q] r t by (metis prepared.select_convs(2,4,5))
qed

lemma finalize_frame:
  "finalizeExecution x d tool s = (s', r) \<Longrightarrow>
   xs_receipts s' = xs_receipts s \<and> xs_gate s' = xs_gate s \<and> dispatches (xs_events s') = dispatches (xs_events s)"
  by (auto simp: finalizeExecution_def split: option.splits sum.splits prod.splits if_splits)

lemma usage_frame [simp]:
  "xs_receipts (record_usage en x d p s) = xs_receipts s" "xs_gate (record_usage en x d p s) = xs_gate s"
  "dispatches (xs_events (record_usage en x d p s)) = dispatches (xs_events s)"
  by (simp_all add: record_usage_def Let_def split: option.splits)

lemma output_frame:
  "check_output x tool v s = (s', r) \<Longrightarrow>
   xs_receipts s' = xs_receipts s \<and> xs_gate s' = xs_gate s \<and> dispatches (xs_events s') = dispatches (xs_events s)"
  "store_output x a s = (s', r) \<Longrightarrow>
   xs_receipts s' = xs_receipts s \<and> xs_gate s' = xs_gate s \<and> dispatches (xs_events s') = dispatches (xs_events s)"
  by (auto simp: check_output_def store_output_def split: option.splits sum.splits)

text \<open>A completion dispatches once, and touches the receipts only through \<^term>\<open>Exec_createReceipt\<close>.\<close>

lemma complete_cases:
  assumes "complete en x e d p s = (s', r)"
  obtains (failed) err where "r = Err err" "xs_receipts s' = xs_receipts s"
  | (unrecorded) err h q where "r = Err err" "Exec_createReceipt en x d e p h (xs_receipts s) = (xs_receipts s', q)"
  | (completed) a rcpt v where "r = Ok (rcpt, a)" "Exec_createReceipt en x d e p (af_Digest a) (xs_receipts s) = (xs_receipts s', Ok rcpt)"
      "x_driver x (pr_tool p) (Params e) = Ok v"
      "Canonicalize_artifact en (case v of GStr _ \<Rightarrow> ''text/plain'' | _ \<Rightarrow> ''application/json'') v = Ok a"
proof (cases "x_driver x (pr_tool p) (Params e)")
  case (Inl err)
  then show ?thesis using assms failed by (auto simp: complete_def)
next
  case v: (Inr v)
  define s0 where "s0 = log_event (Dispatched (d_ID d) (pr_tool p) (Params e)) s"
  obtain s1 q where q: "check_output x (pr_tool p) v s0 = (s1, q)" by fastforce
  have f1: "xs_receipts s1 = xs_receipts s" using output_frame(1) [OF q] by (simp add: s0_def)
  show ?thesis
  proof (cases q)
    case (Inl err)
    then show ?thesis using assms v q f1 failed by (auto simp: complete_def s0_def [symmetric])
  next
    case ok1: (Inr u)
    show ?thesis
    proof (cases "Canonicalize_artifact en (case v of GStr _ \<Rightarrow> ''text/plain'' | _ \<Rightarrow> ''application/json'') v")
      case (Inl err)
      then show ?thesis using assms v q f1 ok1 failed by (auto simp: complete_def s0_def [symmetric])
    next
      case a: (Inr a)
      obtain s2 q2 where q2: "store_output x a s1 = (s2, q2)" by fastforce
      have f2: "xs_receipts s2 = xs_receipts s" using output_frame(2) [OF q2] f1 by simp
      show ?thesis
      proof (cases q2)
        case (Inl err)
        then show ?thesis using assms v q a q2 f2 ok1 failed by (auto simp: complete_def s0_def [symmetric])
      next
        case ok2: (Inr u2)
        obtain st q3 where q3: "Exec_createReceipt en x d e p (af_Digest a) (xs_receipts s) = (st, q3)" by fastforce
        show ?thesis
        proof (cases q3)
          case (Inl err)
          then have "xs_receipts s' = st" "\<exists>m. r = Err m" using assms v q a q2 q3 f2 ok1 ok2 by (auto simp: complete_def s0_def [symmetric])
          then show ?thesis using unrecorded q3 by blast
        next
          case (Inr rcpt)
          obtain s4 q4 where q4: "finalizeExecution x d (pr_tool p) (s2\<lparr>xs_receipts := st\<rparr>) = (s4, q4)" by fastforce
          have "xs_receipts s' = st \<and> (r = Ok (rcpt, a) \<or> (\<exists>m. r = Err m))"
            using assms v q a q2 q3 q4 f2 ok1 ok2 Inr finalize_frame [OF q4] by (auto simp: complete_def s0_def [symmetric] split: sum.splits)
          then show ?thesis using unrecorded completed q3 Inr v a by blast
        qed
      qed
    qed
  qed
qed

lemma complete_frame:
  assumes "complete en x e d p s = (s', r)"
  shows "xs_gate s' = xs_gate s \<and> dispatches (xs_events s') = dispatches (xs_events s) @ [(d_ID d, pr_tool p, Params e)]"
  using assms
  by (auto simp: complete_def Let_def split: sum.splits prod.splits dest!: output_frame finalize_frame)

section \<open>A whole call\<close>

lemma admit_ok:
  assumes "admit en x effect d intent st = Ok (Admit t i')"
  obtains e i where "effect = Some e" "intent = Some i" "validateGating en x (Some d) (Some i) (Some e) = Ok ()"
    "cloneAuthorizedExecutionIntent (en_digest en) i = Ok i'" "checkIdempotency x t (d_ID d) st = Ok None"
    "t \<noteq> [] \<Longrightarrow> authenticatedTenantID en = Ok t"
proof -
  have g: "validateGating en x (Some d) intent effect = Ok ()" using assms by (auto simp: admit_def split: sum.splits)
  then obtain i e where "intent = Some i" "effect = Some e" using gating_iff by blast
  then show thesis using that [of e i] g assms
    by (auto simp: admit_def Let_def split: sum.splits option.splits if_splits)
qed

lemma execute_cases:
  assumes "Execute en x effect decision intent s = (s', r)"
  obtains (refused) err where "r = Err err" "xs_receipts s' = xs_receipts s" "dispatches (xs_events s') = dispatches (xs_events s)"
  | (replayed) d rcpt where "decision = Some d" "admit en x effect d intent (xs_receipts s) = Ok (Replay rcpt)" "s' = s" "r = Ok (rcpt, replay_artifact rcpt)"
  | (dispatched) d t i' s1 p where "decision = Some d" "admit en x effect d intent (xs_receipts s) = Ok (Admit t i')"
      "prepare en x (the effect) d t i' s = (s1, Ok p)" "complete en x (the effect) d p s1 = (s', r)"
proof (cases decision)
  case None
  then show ?thesis using assms refused by (auto simp: Execute_def)
next
  case d: (Some d)
  show ?thesis
  proof (cases "admit en x effect d intent (xs_receipts s)")
    case (Inl err)
    then show ?thesis using assms d refused by (auto simp: Execute_def)
  next
    case a: (Inr a)
    show ?thesis
    proof (cases a)
      case (Replay rcpt)
      then have "s' = s" "r = Ok (rcpt, replay_artifact rcpt)" using assms d a by (simp_all add: Execute_def)
      then show ?thesis using replayed d a Replay by blast
    next
      case (Admit t i')
      obtain s1 q where q: "prepare en x (the effect) d t i' s = (s1, q)" by fastforce
      show ?thesis
      proof (cases q)
        case (Inl err)
        then have "s' = s1" "r = Err err" using assms d a Admit q by (auto simp: Execute_def)
        then show ?thesis using refused prepare_frame [OF q] by simp
      next
        case (Inr p)
        then have "complete en x (the effect) d p s1 = (s', r)" using assms d a Admit q by (simp add: Execute_def)
        then show ?thesis using dispatched d a Admit q Inr by blast
      qed
    qed
  qed
qed

lemma tool_chosen: "choose_tool i e = Ok tool \<Longrightarrow> (ai_AllowedTool i \<noteq> [] \<longrightarrow> tool = ai_AllowedTool i) \<and> (\<forall>t. ctx_str (Params e) ''tool_name'' = Some t \<longrightarrow> tool = t)"
  by (auto simp: choose_tool_def split: option.splits if_splits sum.splits)

lemma dispatched_facts:
  fixes s :: "('a, 'b) exec_state"
  assumes "Execute en x effect decision intent s = (s', r)" "dispatches (xs_events s') \<noteq> dispatches (xs_events s)"
  obtains d e i i' t s1 s2 and p :: prepared where "decision = Some d" "effect = Some e" "intent = Some i" "validateGating en x (Some d) (Some i) (Some e) = Ok ()"
    "cloneAuthorizedExecutionIntent (en_digest en) i = Ok i'" "checkIdempotency x t (d_ID d) (xs_receipts s) = Ok None"
    "xs_gate s1 = xs_gate s" "safedep_stage en x d i' e (pr_tool p) s1 = (s2, Ok (pr_gate p))" "choose_tool i' e = Ok (pr_tool p)"
    "pr_tool p \<notin> set (x_prohibitedTools x)" "xs_gate s' = xs_gate s2" "dispatches (xs_events s') = dispatches (xs_events s) @ [(d_ID d, pr_tool p, Params e)]"
  using assms(1)
proof (cases rule: execute_cases)
  case (refused err)
  then show ?thesis using assms(2) by simp
next
  case (replayed d rcpt)
  then show ?thesis using assms(2) by simp
next
  case (dispatched d t i' s3 p)
  obtain e i where a: "effect = Some e" "intent = Some i" "validateGating en x (Some d) (Some i) (Some e) = Ok ()"
    "cloneAuthorizedExecutionIntent (en_digest en) i = Ok i'" "checkIdempotency x t (d_ID d) (xs_receipts s) = Ok None"
    using admit_ok [OF dispatched(2)] by metis
  obtain s1 s2 :: "('a, 'b) exec_state" where b: "xs_gate s1 = xs_gate s" "safedep_stage en x d i' e (pr_tool p) s1 = (s2, Ok (pr_gate p))" "xs_gate s3 = xs_gate s2"
    "choose_tool i' e = Ok (pr_tool p)" "pr_tool p \<notin> set (x_prohibitedTools x)"
    using prepare_ok [OF dispatched(3)] a(1) by (metis option.sel)
  show ?thesis using that [OF dispatched(1) a b(1,2,4,5)] b(3) complete_frame [OF dispatched(4)] prepare_frame [OF dispatched(3)] a(1) by simp
qed

section \<open>The receipt\<close>

text \<open>
  What the executor relies on of a signer (\<^verbatim>\<open>SignReceipt\<close> of \<^verbatim>\<open>core/pkg/crypto\<close>): it fills the signature, its profile,
  algorithm, key id and key set, and no other field of a receipt that declares its version.
\<close>

definition signer_keeps :: "('s, 'g) SafeExecutor \<Rightarrow> bool" where
  "signer_keeps x \<longleftrightarrow> (\<forall>sign r r'. x_signer x = Some sign \<longrightarrow> rp_SignatureVersion r = ReceiptSignatureV5 \<longrightarrow> sign r = Ok r' \<longrightarrow>
     (\<exists>sg pf al k ks. r' = r\<lparr>rp_Signature := sg, rp_SignatureProfile := pf, rp_SignatureAlgorithm := al, rp_KeyID := k, rp_PublicKeySet := ks\<rparr>))"

lemma built_fields:
  assumes "signer_keeps x" "buildReceipt en x d e p out sess dh ts l ph True = Ok r"
  shows "rp_ReceiptID r = ReceiptIDForDecision en (pr_tenant p) (d_ID d)" "rp_DecisionID r = d_ID d" "rp_SignatureVersion r = ReceiptSignatureV5"
    "rp_EffectID r = EffectID e" "rp_OutputHash r = out" "rp_ArgsHash r = ArgsHash e" "rp_Verdict r = d_Verdict d" "rp_PolicyHash r = d_PolicyContentHash d"
    "rp_SessionID r = sess" "rp_EmergencyActivationID r = ai_EmergencyActivationID (pr_intent p)"
    "rp_EmergencyScopeHash r = ai_EmergencyScopeHash (pr_intent p)" "rp_Status r = ''SUCCESS''" "rp_BlobHash r = pr_blob p"
proof -
  define body where "body = receipt_body en d e p out sess dh ts l ph True"
  have v: "rp_SignatureVersion body = ReceiptSignatureV5" by (simp add: body_def receipt_body_def Let_def)
  have "\<exists>sg pf al k ks. r = body\<lparr>rp_Signature := sg, rp_SignatureProfile := pf, rp_SignatureAlgorithm := al, rp_KeyID := k, rp_PublicKeySet := ks\<rparr>"
  proof (cases "x_signer x")
    case None
    then have "r = body\<lparr>rp_Signature := rp_Signature body, rp_SignatureProfile := rp_SignatureProfile body,
        rp_SignatureAlgorithm := rp_SignatureAlgorithm body, rp_KeyID := rp_KeyID body, rp_PublicKeySet := rp_PublicKeySet body\<rparr>"
      using assms(2) by (simp add: buildReceipt_def body_def)
    then show ?thesis by blast
  next
    case (Some sign)
    then have "sign body = Ok r" using assms(2) by (auto simp: buildReceipt_def body_def split: sum.splits)
    then show ?thesis using assms(1) Some v by (simp add: signer_keeps_def)
  qed
  then show "rp_ReceiptID r = ReceiptIDForDecision en (pr_tenant p) (d_ID d)" "rp_DecisionID r = d_ID d" "rp_SignatureVersion r = ReceiptSignatureV5"
    "rp_EffectID r = EffectID e" "rp_OutputHash r = out" "rp_ArgsHash r = ArgsHash e" "rp_Verdict r = d_Verdict d" "rp_PolicyHash r = d_PolicyContentHash d"
    "rp_SessionID r = sess" "rp_EmergencyActivationID r = ai_EmergencyActivationID (pr_intent p)"
    "rp_EmergencyScopeHash r = ai_EmergencyScopeHash (pr_intent p)" "rp_Status r = ''SUCCESS''" "rp_BlobHash r = pr_blob p"
    using v by (auto simp: body_def receipt_body_def Let_def)
qed

section \<open>Tenants' receipts as an interface\<close>

text \<open>
  What the executor relies on for idempotency: a successful scoped append makes the decision known for its tenant, a
  known decision stays known, and its lookup never reports it as missing (it may fail). The first argument of an operation
  is what may differ between two calls of it, such as the statements that fail.
\<close>

locale tenant_receipts =
  fixes lookup :: "'e \<Rightarrow> string \<Rightarrow> string \<Rightarrow> 's \<Rightarrow> (string, Receipt option) res"
    and append_scoped :: "'e \<Rightarrow> string \<Rightarrow> string \<Rightarrow> CausalReceiptBuilder \<Rightarrow> 's \<Rightarrow> 's \<times> (string, Receipt option) res"
    and known :: "string \<Rightarrow> string \<Rightarrow> 's \<Rightarrow> bool"
  assumes appended_known: "append_scoped f a s b st = (st', Ok (Some r)) \<Longrightarrow> rp_SignatureVersion r = ReceiptSignatureV5 \<Longrightarrow> known a (rp_DecisionID r) st'"
    and appended_built: "append_scoped f a s b st = (st', Ok (Some r)) \<Longrightarrow> \<exists>previous l h r0 dh. b previous l h = Ok (Some r0) \<and> r = r0\<lparr>rp_DecisionHash := dh\<rparr>"
    and known_kept: "known a d st \<Longrightarrow> known a d (fst (append_scoped f a' s b st))"
    and known_found: "known a d st \<Longrightarrow> lookup f a d st \<noteq> Ok None"
    and found_known: "lookup f a d st = Ok (Some r) \<Longrightarrow> known a d st"
begin

definition serves :: "('s, 'g) SafeExecutor \<Rightarrow> 'e \<Rightarrow> bool" where
  "serves x f \<longleftrightarrow> (\<exists>ops. x_receiptStore x = Some ops \<and> ro_AppendCausalScoped ops = Some (append_scoped f) \<and> ro_GetByDecisionIDForTenant ops = Some (lookup f))"

lemma admit_tenant:
  assumes "serves x f" "admit en x effect d intent st = Ok a"
  obtains t where "authenticatedTenantID en = Ok t" "t \<noteq> []" "\<And>r. a = Replay r \<Longrightarrow> lookup f t (d_ID d) st = Ok (Some r)"
    "\<And>u i. a = Admit u i \<Longrightarrow> u = t \<and> lookup f t (d_ID d) st = Ok None"
proof -
  obtain t where t: "authenticatedTenantID en = Ok t" using assms by (auto simp: admit_def serves_def Let_def split: sum.splits)
  then have "t \<noteq> []" by (auto simp: authenticatedTenantID_def blank_def split: sum.splits if_splits)
  then show thesis using assms t that [of t]
    by (auto simp: admit_def serves_def Let_def checkIdempotency_def split: sum.splits option.splits)
qed

lemma create_cases:
  assumes "serves x f" "pr_tenant p \<noteq> []" "Exec_createReceipt en x d e p h st = (st', r)"
  obtains (early) "st' = st" "\<not> is_ok r"
  | (appended) sess dh ts where "receiptSessionID d = Ok sess" "en_decision_hash en d = Ok dh"
      "persisted (append_scoped f (pr_tenant p) sess (\<lambda>_ l ph. case buildReceipt en x d e p h sess dh ts l ph True of Inl err \<Rightarrow> Err err | Inr r \<Rightarrow> Ok (Some r)) st) = (st', r)"
  using assms by (fastforce simp: Exec_createReceipt_def serves_def Let_def split: sum.splits)

lemma create_kept:
  assumes "serves x f" "pr_tenant p \<noteq> []" "known a d' st" "Exec_createReceipt en x d e p h st = (st', r)"
  shows "known a d' st'"
  using assms(1,2,4)
proof (cases rule: create_cases)
  case (appended sess dh ts)
  then show ?thesis using known_kept [OF assms(3)] by (auto simp: persisted_def split: prod.splits sum.splits option.splits) (metis fst_conv)+
qed (use assms(3) in simp)

lemma create_built:
  assumes "serves x f" "pr_tenant p \<noteq> []" "Exec_createReceipt en x d e p h st = (st', Ok r)"
  obtains sess dh dh' ts l ph r0 where "receiptSessionID d = Ok sess" "en_decision_hash en d = Ok dh"
    "buildReceipt en x d e p h sess dh ts l ph True = Ok r0" "r = r0\<lparr>rp_DecisionHash := dh'\<rparr>"
    "rp_SignatureVersion r = ReceiptSignatureV5 \<longrightarrow> known (pr_tenant p) (rp_DecisionID r) st'"
  using assms
proof (cases rule: create_cases)
  case (appended sess dh ts)
  have a: "append_scoped f (pr_tenant p) sess (\<lambda>_ l ph. case buildReceipt en x d e p h sess dh ts l ph True of Inl err \<Rightarrow> Err err | Inr r \<Rightarrow> Ok (Some r)) st = (st', Ok (Some r))"
    using appended(3) by (auto simp: persisted_def split: prod.splits sum.splits option.splits)
  obtain l ph r0 dh' where b: "(case buildReceipt en x d e p h sess dh ts l ph True of Inl err \<Rightarrow> Err err | Inr r \<Rightarrow> Ok (Some r)) = Ok (Some r0)"
    "r = r0\<lparr>rp_DecisionHash := dh'\<rparr>"
    using appended_built [OF a] by blast
  then have "buildReceipt en x d e p h sess dh ts l ph True = Ok r0" by (simp split: sum.splits)
  then show ?thesis using that appended(1,2) appended_known [OF a] b(2) by blast
qed simp

lemma execute_kept:
  assumes "serves x f" "known a d0 (xs_receipts s)" "Execute en x effect decision intent s = (s', r)"
  shows "known a d0 (xs_receipts s')"
  using assms(3)
proof (cases rule: execute_cases)
  case (dispatched d t i' s1 p)
  obtain u where u: "u \<noteq> []" "t = u" using admit_tenant [OF assms(1) dispatched(2)] by metis
  have p: "pr_tenant p \<noteq> []" using prepare_ok [OF dispatched(3)] u by metis
  have k: "known a d0 (xs_receipts s1)" using prepare_frame [OF dispatched(3)] assms(2) by simp
  from dispatched(4) show ?thesis by (cases rule: complete_cases) (use k create_kept [OF assms(1) p k] in auto)
qed (use assms(2) in simp_all)

lemma execute_known:
  assumes "serves x f" "signer_keeps x" "authenticatedTenantID en = Ok t" "Execute en x effect (Some d) intent s = (s', Ok (rcpt, art))"
  shows "known t (d_ID d) (xs_receipts s')"
  using assms(4)
proof (cases rule: execute_cases)
  case (refused err)
  then show ?thesis by simp
next
  case (replayed d' rcpt')
  obtain u where "authenticatedTenantID en = Ok u" "lookup f u (d_ID d') (xs_receipts s) = Ok (Some rcpt')"
    using admit_tenant [OF assms(1) replayed(2)] by metis
  then show ?thesis using found_known replayed(1,3) assms(3) by auto
next
  case (dispatched d' u i' s1 p)
  have u: "u = t" "t \<noteq> []" using admit_tenant [OF assms(1) dispatched(2)] assms(3) by auto
  have p: "pr_tenant p = t" using prepare_ok [OF dispatched(3)] u by metis
  from dispatched(4) show ?thesis
  proof (cases rule: complete_cases)
    case (completed a rcpt' v)
    have pt: "pr_tenant p \<noteq> []" using p u by simp
    obtain sess dh dh' ts l ph r0 where c: "buildReceipt en x d' (the effect) p (af_Digest a) sess dh ts l ph True = Ok r0" "rcpt' = r0\<lparr>rp_DecisionHash := dh'\<rparr>"
      "rp_SignatureVersion rcpt' = ReceiptSignatureV5 \<longrightarrow> known (pr_tenant p) (rp_DecisionID rcpt') (xs_receipts s')"
      using create_built [OF assms(1) pt completed(2)] by metis
    show ?thesis using c(2,3) built_fields(2,3) [OF assms(2) c(1)] p dispatched(1) by simp
  qed simp_all
qed

lemma known_not_dispatched:
  assumes "serves x f" "known t (d_ID d) (xs_receipts s)" "authenticatedTenantID en = Ok t" "Execute en x effect (Some d) intent s = (s', r)"
  shows "dispatches (xs_events s') = dispatches (xs_events s)"
  using assms(4)
proof (cases rule: execute_cases)
  case (dispatched d' u i' s1 p)
  have "lookup f t (d_ID d') (xs_receipts s) = Ok None" using admit_tenant [OF assms(1) dispatched(2)] assms(3) by auto
  then show ?thesis using known_found assms(2) dispatched(1) by auto
qed simp_all

end

section \<open>The SQLite store provides it\<close>

definition tenant_known :: "string \<Rightarrow> string \<Rightarrow> receipt_table \<Rightarrow> bool" where
  "tenant_known a d t \<longleftrightarrow> (\<exists>row \<in> set t. rp_DecisionID (c_plain row) = d \<and> tenant_row (TrimSpace a) row)"

lemma scoped_appends: "\<exists>new. fst (AppendCausalScoped ev a s b t) = t @ new"
proof (cases "snd (AppendCausalScoped ev a s b t)")
  case (Inl e)
  then show ?thesis by (auto simp: AppendCausalScoped_def Let_def split: if_splits dest: append_err)
next
  case (Inr r)
  then have "appendCausal ev (causalReceiptScopeKey (TrimSpace a) s) s b t = (fst (AppendCausalScoped ev a s b t), Ok r)"
    by (auto simp: AppendCausalScoped_def Let_def prod_eq_iff split: if_splits)
  from append_ok [OF this] show ?thesis by metis
qed

interpretation sq: tenant_receipts "\<lambda>f. GetByDecisionIDForTenant (ev\<lparr>se_fail := f\<rparr>)"
  "\<lambda>f a s b t. some_receipt (AppendCausalScoped (ev\<lparr>se_fail := f\<rparr>) a s b t)" tenant_known
  for ev :: store_env
proof unfold_locales
  fix f a s b and st st' :: receipt_table and r
  assume a: "some_receipt (AppendCausalScoped (ev\<lparr>se_fail := f\<rparr>) a s b st) = (st', Ok (Some r))"
  then have ap: "AppendCausalScoped (ev\<lparr>se_fail := f\<rparr>) a s b st = (st', Ok r)" by (auto simp: some_receipt_def split: prod.splits sum.splits)
  show "tenant_known a (rp_DecisionID r) st'" if "rp_SignatureVersion r = ReceiptSignatureV5"
    using scoped_row [OF ap that] by (auto simp: tenant_known_def)
  have "appendCausal (ev\<lparr>se_fail := f\<rparr>) (causalReceiptScopeKey (TrimSpace a) s) s b st = (st', Ok r)"
    using ap by (auto simp: AppendCausalScoped_def Let_def split: if_splits)
  then obtain previous r0 where "buildNextCausalReceiptScoped (ev\<lparr>se_fail := f\<rparr>) (causalReceiptScopeKey (TrimSpace a) s) s previous b = Ok r0"
    "restoreOrRejectV5DecisionHash (ev\<lparr>se_fail := f\<rparr>) r0 = Ok r" using append_ok by metis
  then show "\<exists>previous l h r0 dh. b previous l h = Ok (Some r0) \<and> r = r0\<lparr>rp_DecisionHash := dh\<rparr>" using build_ok restore_keeps by blast
next
  fix a d a' s f b and st :: receipt_table
  assume "tenant_known a d st"
  moreover obtain new where "fst (AppendCausalScoped (ev\<lparr>se_fail := f\<rparr>) a' s b st) = st @ new" using scoped_appends by blast
  ultimately show "tenant_known a d (fst (some_receipt (AppendCausalScoped (ev\<lparr>se_fail := f\<rparr>) a' s b st)))"
    by (auto simp: tenant_known_def some_receipt_def split: prod.splits sum.splits)
next
  fix a d f and st :: receipt_table
  assume "tenant_known a d st"
  then show "GetByDecisionIDForTenant (ev\<lparr>se_fail := f\<rparr>) a d st \<noteq> Ok None"
    using tenant_found_stays [where new = "[]"] by (auto simp: tenant_known_def)
next
  fix f a d r and st :: receipt_table
  assume "GetByDecisionIDForTenant (ev\<lparr>se_fail := f\<rparr>) a d st = Ok (Some r)"
  then show "tenant_known a d st" by (rule tenant_lookup) (auto simp: tenant_known_def)
qed

lemma sqlite_serves: "x_receiptStore x = Some (sqlite_ops (ev\<lparr>se_fail := f\<rparr>)) \<Longrightarrow> sq.serves ev x f"
  by (simp add: sq.serves_def sqlite_ops_def)

section \<open>Histories of calls\<close>

text \<open>Calls of executors on one SQLite store: each with its own environment, configuration and failing statements.\<close>

record 'g exec_call =
  cl_env :: exec_env
  cl_exec :: "(receipt_table, 'g) SafeExecutor"
  cl_fail :: "string \<Rightarrow> string option"
  cl_effect :: "Effect option"
  cl_decision :: "DecisionRecord option"
  cl_intent :: "AuthorizedExecutionIntent option"

definition cl_on :: "store_env \<Rightarrow> 'g exec_call \<Rightarrow> (receipt_table, 'g) SafeExecutor" where
  "cl_on ev c = (cl_exec c)\<lparr>x_receiptStore := Some (sqlite_ops (ev\<lparr>se_fail := cl_fail c\<rparr>))\<rparr>"

definition do_execute ::
  "store_env \<Rightarrow> 'g exec_call \<Rightarrow> (receipt_table, 'g) exec_state \<Rightarrow> (receipt_table, 'g) exec_state \<times> (exec_error, Receipt \<times> Artifact) res" where
  "do_execute ev c s = Execute (cl_env c) (cl_on ev c) (cl_effect c) (cl_decision c) (cl_intent c) s"

fun run_executes :: "store_env \<Rightarrow> 'g exec_call list \<Rightarrow> (receipt_table, 'g) exec_state \<Rightarrow> (receipt_table, 'g) exec_state" where
  "run_executes ev [] s = s"
| "run_executes ev (c # cs) s = run_executes ev cs (fst (do_execute ev c s))"

lemma on_fields [simp]:
  "x_safeDepGate (cl_on ev c) = x_safeDepGate (cl_exec c)" "x_driver (cl_on ev c) = x_driver (cl_exec c)" "signer_keeps (cl_on ev c) = signer_keeps (cl_exec c)"
  by (simp_all add: cl_on_def signer_keeps_def)

lemma on_serves: "sq.serves ev (cl_on ev c) (cl_fail c)"
  by (rule sqlite_serves) (simp add: cl_on_def)

lemma run_known: "tenant_known t d (xs_receipts s) \<Longrightarrow> tenant_known t d (xs_receipts (run_executes ev cs s))"
proof (induction cs arbitrary: s)
  case (Cons c cs)
  have "Execute (cl_env c) (cl_on ev c) (cl_effect c) (cl_decision c) (cl_intent c) s = (fst (do_execute ev c s), snd (do_execute ev c s))"
    by (simp add: do_execute_def)
  then have "tenant_known t d (xs_receipts (fst (do_execute ev c s)))" by (rule sq.execute_kept [OF on_serves Cons.prems])
  then show ?case using Cons.IH by simp
qed simp

section \<open>An example\<close>

definition w_xenv :: exec_env where
  "w_xenv = \<lparr>en_clk = (\<lambda>_. 50), en_tenant = Ok ''acme'', en_correlation = None, en_fold = (=), en_typed = no_typed,
     en_digest = \<lparr>de_ul = id, de_clone = Ok, de_hash = (\<lambda>_. Ok ''digest'')\<rparr>, en_decision_hash = (\<lambda>_. Ok ''dh''), en_receipt_hash = (\<lambda>_. Ok ''h''),
     en_sha_hex = (\<lambda>_. ''sha''), en_utf8 = (\<lambda>_. True), en_jcs = (\<lambda>_. Ok ''{}''), en_quote = id\<rparr>"

definition w_xdecision :: "gctx \<Rightarrow> DecisionRecord" where
  "w_xdecision ctx = zero_decision\<lparr>d_ID := ''d'', d_EffectDigest := ''digest'', d_Verdict := VerdictAllow, d_SignatureVersion := DecisionRecordSignatureV4,
     d_SubjectID := ''s'', d_Action := ''read'', d_Resource := ''s'', d_SignatureType := ''s'', d_Signature := ''sig'', d_InputContext := ctx\<rparr>"

definition w_xintent :: AuthorizedExecutionIntent where
  "w_xintent = \<lparr>ai_ID = ''i'', ai_DecisionID = ''d'', ai_EffectDigestHash = ''digest'', ai_EffectBinding = None, ai_IdempotencyKey = [], ai_IssuedAt = 0,
     ai_ExpiresAt = 100, ai_Signer = ''kernel'', ai_Signature = ''sig'', ai_SignatureType = [], ai_SignatureVersion = [], ai_AllowedTool = ''files'', ai_Taint = [],
     ai_EmergencyActivationID = [], ai_EmergencyDelegationSessionID = [], ai_EmergencyScopeHash = []\<rparr>"

definition w_xeffect :: Effect where
  "w_xeffect = Effect ''e'' ''READ'' (Some [(''tool_name'', GStr ''files'')]) [] [] [] None False ''args'' [] []"

definition w_exec :: "(receipt_table, sd_state) SafeExecutor" where
  "w_exec = \<lparr>x_verifier = Some \<lparr>VerifyDecision = (\<lambda>d. Ok (d_Signature d = ''sig'')), VerifyIntent = (\<lambda>i. Ok (ai_Signature i = ''sig''))\<rparr>,
     x_signer = Some (\<lambda>r. Ok (r\<lparr>rp_Signature := ''sig'', rp_KeyID := ''k''\<rparr>)), x_driver = (\<lambda>t p. Ok (GStr ''out'')), x_receiptStore = None,
     x_artifactStore = None, x_outboxStore = Some \<lparr>ob_Schedule = (\<lambda>e i. None), ob_MarkDone = (\<lambda>i. None)\<rparr>, x_currentPhenotypeHash = [],
     x_AuditLog = True, x_prohibitedTools = [''shell''], x_meter = None, x_outputSchemaRegistry = None,
     x_safeDepGate = Some (controller_gate w_sd None w_controller)\<rparr>"

definition w_xcall :: "gctx \<Rightarrow> sd_state exec_call" where
  "w_xcall ctx = \<lparr>cl_env = w_xenv, cl_exec = w_exec, cl_fail = (\<lambda>_. None), cl_effect = Some w_xeffect, cl_decision = Some (w_xdecision ctx), cl_intent = Some w_xintent\<rparr>"

definition w_xstate :: "(receipt_table, sd_state) exec_state" where
  "w_xstate = \<lparr>xs_receipts = [], xs_gate = w_sd_state, xs_events = []\<rparr>"

lemma w_names [simp]: "TrimSpace ''d'' = ''d''" "TrimSpace ''s'' = ''s''" "TrimSpace ''read'' = ''read''" "TrimSpace ''standalone:decision:d'' = ''standalone:decision:d''"
  by (simp_all add: TrimSpace_visible visible_def)

lemma w_signer: "signer_keeps w_exec"
proof -
  have "\<exists>sg pf al k ks. r\<lparr>rp_Signature := ''sig'', rp_KeyID := ''k''\<rparr> =
      r\<lparr>rp_Signature := sg, rp_SignatureProfile := pf, rp_SignatureAlgorithm := al, rp_KeyID := k, rp_PublicKeySet := ks\<rparr>" for r :: Receipt
    by (rule exI [of _ "''sig''"], rule exI [of _ "rp_SignatureProfile r"], rule exI [of _ "rp_SignatureAlgorithm r"], rule exI [of _ "''k''"], rule exI [of _ "rp_PublicKeySet r"]) simp
  then show ?thesis by (auto simp: signer_keeps_def w_exec_def)
qed

lemma w_on: "cl_on w_store (w_xcall ctx) = w_exec\<lparr>x_receiptStore := Some (sqlite_ops w_store)\<rparr>"
  by (simp add: cl_on_def w_xcall_def)

lemma w_call_fields:
  "cl_env (w_xcall ctx) = w_xenv" "cl_exec (w_xcall ctx) = w_exec" "cl_effect (w_xcall ctx) = Some w_xeffect" "cl_decision (w_xcall ctx) = Some (w_xdecision ctx)"
  "cl_intent (w_xcall ctx) = Some w_xintent" "xs_receipts w_xstate = []" "xs_events w_xstate = []" "xs_gate w_xstate = w_sd_state"
  by (simp_all add: w_xcall_def w_xstate_def)

lemma w_gated: "validateGating w_xenv (w_exec\<lparr>x_receiptStore := rs\<rparr>) (Some (w_xdecision ctx)) (Some w_xintent) (Some w_xeffect) = Ok ()"
  by (simp add: validateGating_def w_xdecision_def w_xintent_def w_xeffect_def w_exec_def w_xenv_def CanonicalEffectDigest_def blank_def
    ValidateDecisionAuthorityForUse_def ValidateAt_def zero_decision_def)

lemma w_cloned: "cloneAuthorizedExecutionIntent de w_xintent = Ok w_xintent"
  by (simp add: cloneAuthorizedExecutionIntent_def w_xintent_def)

definition w_hazard :: gctx where
  "w_hazard = Some [(''hazard_code'', GStr ''ATTESTATION_FAILURE'')]"

lemma w_signal: "GateRequestFromContext (en_fold w_xenv) (en_typed w_xenv) w_hazard = zero_request\<lparr>gq_Signal := zero_signal\<lparr>sg_HazardCode := ''ATTESTATION_FAILURE''\<rparr>\<rparr>"
proof -
  have t: "TrimSpace ''ATTESTATION_FAILURE'' = ''ATTESTATION_FAILURE''" by (simp add: TrimSpace_visible visible_def)
  show ?thesis by (subst GateRequestFromContext_def, subst SignalFromContext.simps)
    (simp add: w_hazard_def w_xenv_def no_typed_def firstString_def firstBool_def blank_def t or_empty_def zero_signal_def zero_request_def ctx_bool_def ctx_get_def Let_def)
qed

lemma w_inspection: "IsInspectionAction ul ''read'' tool"
proof -
  have "map ascii_lower ''read'' = ''read''" "is_ascii ''read''" by code_simp+
  moreover have "Contains_str ''read'' ''read''" by simp
  ultimately show ?thesis by (simp add: IsInspectionAction_def inspection_words_def ToLower_def)
qed

lemma w_gate_allows:
  "\<exists>g r. controller_gate w_sd None w_controller (gate_request w_xenv (w_xdecision w_hazard) w_xintent w_xeffect ''files'') w_sd_state = (g, Ok r) \<and>
     gt_DispatchAllowed r \<and> validateSafeDepIntentBinding w_xenv w_xintent r = Ok ()"
proof -
  define q where "q = gate_request w_xenv (w_xdecision w_hazard) w_xintent w_xeffect ''files''"
  have q: "sg_HazardCode (gq_Signal q) = ''ATTESTATION_FAILURE''" "gq_Action q = ''read''"
    by (simp_all add: q_def gate_request_def w_xdecision_def w_signal Let_def)
  have ne: "\<not> Signal_Empty (gq_Signal q)" by (simp add: Signal_Empty_def q blank_def TrimSpace_visible visible_def)
  obtain s1 cl where cl: "Classify w_sd (gq_Signal (fill_connector q)) w_sd_state = (s1, cl)" by fastforce
  have "hc_State cl = SafeDepDeprecatedReadonly"
    using classify_class [of w_sd "gq_Signal (fill_connector q)" w_sd_state] q by (simp add: cl readonly_hazards_def)
  moreover have "gq_Action (fill_connector q) = ''read''" "sd_sink w_sd e = Ok \<lparr>er_ProofGraphRef = ''p'', er_EvidencePackRef = ''e''\<rparr>" for e
    using q by (simp_all add: fill_connector_def w_sd_def)
  ultimately show ?thesis using ne unfolding q_def [symmetric]
    by (simp add: controller_gate_def Gate_def cl Let_def safedep_states ok_fst_def attachEvidence_def record_event_def w_inspection
      validateSafeDepIntentBinding_def w_xintent_def result_state_def zero_result_def)
qed

abbreviation w_xd :: DecisionRecord where "w_xd \<equiv> w_xdecision w_hazard"
abbreviation w_on_store :: "(receipt_table, sd_state) SafeExecutor" where "w_on_store \<equiv> w_exec\<lparr>x_receiptStore := Some (sqlite_ops w_store)\<rparr>"

lemma w_tenant: "authenticatedTenantID w_xenv = Ok ''acme''"
  by (simp add: authenticatedTenantID_def w_xenv_def blank_def)

lemma w_session: "receiptSessionID w_xd = Ok ''standalone:decision:d''" "d_ID w_xd = ''d''"
  by (simp_all add: receiptSessionID_def w_xdecision_def w_hazard_def ctx_str_def ctx_get_def blank_def)

lemma w_admitted: "admit w_xenv w_on_store (Some w_xeffect) w_xd (Some w_xintent) [] = Ok (Admit ''acme'' w_xintent)"
proof -
  have "checkIdempotency w_on_store ''acme'' ''d'' [] = Ok None"
    by (simp add: checkIdempotency_def sqlite_ops_def GetByDecisionIDForTenant_def query_row_def)
  moreover have "preflightCausalReceiptAppend w_on_store ''acme'' w_xd [] = Ok ()"
    by (simp add: preflightCausalReceiptAppend_def w_session sqlite_ops_def PreflightCausalAppendScoped_def preflightCausalAppend_def blank_def
      queryLastSQLiteReceiptWithChainHash_def last_row_def requirePersistedCausalPredecessor_def)
  ultimately show ?thesis by (simp add: admit_def w_gated w_cloned w_tenant w_session)
qed

lemma w_prepared: "\<exists>s1 p. prepare w_xenv w_on_store w_xeffect w_xd ''acme'' w_xintent w_xstate = (s1, Ok p) \<and> pr_tenant p = ''acme'' \<and> pr_tool p = ''files'' \<and> xs_receipts s1 = []"
proof -
  obtain g r where g: "controller_gate w_sd None w_controller (gate_request w_xenv w_xd w_xintent w_xeffect ''files'') w_sd_state = (g, Ok r)"
    "gt_DispatchAllowed r" "validateSafeDepIntentBinding w_xenv w_xintent r = Ok ()" using w_gate_allows by blast
  have "verifySnapshot w_on_store w_xd w_xstate = (w_xstate, Ok [])"
    by (simp add: verifySnapshot_def w_xdecision_def zero_decision_def check_phenotype_def w_exec_def)
  moreover have "choose_tool w_xintent w_xeffect = Ok ''files''" by (simp add: choose_tool_def w_xintent_def w_xeffect_def ctx_str_def ctx_get_def)
  moreover have "safedep_stage w_xenv w_on_store w_xd w_xintent w_xeffect ''files'' w_xstate = (w_xstate\<lparr>xs_gate := g\<rparr>, Ok r)"
    using g by (simp add: safedep_stage_def w_exec_def w_cloned w_xstate_def)
  ultimately show ?thesis by (simp add: prepare_def Enforcer_IsToolAllowed_def w_exec_def Let_def log_event_def w_xstate_def)
qed

lemma w_created:
  assumes "pr_tenant p = ''acme''"
  shows "\<exists>t r. Exec_createReceipt w_xenv w_on_store w_xd w_xeffect p h [] = (t, Ok r)"
proof -
  define b where "b = receipt_body w_xenv w_xd w_xeffect p h ''standalone:decision:d'' ''dh'' 50 1 [] True"
  have b: "rp_SignatureVersion b = ReceiptSignatureV5" "rp_SessionID b = ''standalone:decision:d''" "rp_LamportClock b = 1" "rp_PrevHash b = []" "rp_DecisionHash b = ''dh''"
    "rp_Transparency b = None" "rp_LeafIndex b = 0"
    by (simp_all add: b_def receipt_body_def Let_def)
  define r where "r = b\<lparr>rp_Signature := ''sig'', rp_KeyID := ''k''\<rparr>"
  have build: "buildReceipt w_xenv w_on_store w_xd w_xeffect p h ''standalone:decision:d'' ''dh'' 50 1 [] True = Ok r"
    by (simp add: buildReceipt_def r_def b_def w_exec_def)
  have rs: "restoreOrRejectV5DecisionHash w_store r = Ok r" by (rule restore_settled) (simp_all add: r_def b)
  have sk: "se_keys w_store m = Ok ''{}''" for m by (simp add: w_store_def)
  have rf: "rp_LamportClock r = 1" "rp_LeafIndex r = 0" "rp_Transparency r = None" by (simp_all add: r_def b)
  obtain ks where ks: "encodePublicKeySet w_store r = Ok ks" by (cases "rp_PublicKeySet r = []") (simp_all add: encodePublicKeySet_def sk)
  have ins: "\<exists>t. insertSQLiteReceiptWithCausalSession w_store r k [] = Ok (t, r)" for k
    by (simp add: insertSQLiteReceiptWithCausalSession_def rs encodeTransparencyAnchor_def ks rf exec_insert_def)
  have app: "\<exists>t. AppendCausalScoped w_store ''acme'' ''standalone:decision:d'' f [] = (t, Ok r)" if "f None 1 [] = Ok (Some r)" for f
    using that ins [of "causalReceiptScopeKey ''acme'' ''standalone:decision:d''"]
    by (auto simp: AppendCausalScoped_def appendCausal_def blank_def queryLastSQLiteReceiptWithChainHash_def last_row_def buildNextCausalReceiptScoped_def
      requirePersistedCausalPredecessor_def causalReceiptSessionID_def r_def b)
  have env: "en_decision_hash w_xenv w_xd = Ok ''dh''" "en_clk w_xenv m = 50" for m by (simp_all add: w_xenv_def)
  show ?thesis using app [of "\<lambda>_ l ph. case buildReceipt w_xenv w_on_store w_xd w_xeffect p h ''standalone:decision:d'' ''dh'' 50 l ph True of Inl err \<Rightarrow> Err err | Inr r \<Rightarrow> Ok (Some r)"]
      build assms by (auto simp: Exec_createReceipt_def w_session env sqlite_ops_def Let_def persisted_def some_receipt_def)
qed

lemma w_executed:
  "\<exists>s' rcpt art. do_execute w_store (w_xcall w_hazard) w_xstate = (s', Ok (rcpt, art)) \<and> dispatches (xs_events s') = [(''d'', ''files'', Params w_xeffect)]"
proof -
  obtain s1 and p :: prepared where p: "prepare w_xenv w_on_store w_xeffect w_xd ''acme'' w_xintent w_xstate = (s1, Ok p)" "pr_tenant p = ''acme''"
    "pr_tool p = ''files''" "xs_receipts s1 = []" using w_prepared by blast
  obtain s' r where c: "complete w_xenv w_on_store w_xeffect w_xd p s1 = (s', r)" by fastforce
  have "\<exists>rcpt art. r = Ok (rcpt, art)" using c w_created [OF p(2), of "ComputeArtifactHash w_xenv ''out''"] p(4)
    by (auto simp: complete_def w_exec_def check_output_def Canonicalize_artifact_def store_output_def finalizeExecution_def w_xenv_def Let_def split: prod.splits)
  moreover have "do_execute w_store (w_xcall w_hazard) w_xstate = (s', r)"
    using p(1) c w_admitted by (simp add: do_execute_def w_on Execute_def w_call_fields)
  moreover have "dispatches (xs_events s') = [(''d'', ''files'', Params w_xeffect)]"
    using complete_frame [OF c] prepare_frame [OF p(1)] p(3) by (simp add: w_session w_xstate_def)
  ultimately show ?thesis by blast
qed

section \<open>Properties\<close>

text \<open>
  C1: The executor dispatches an effect only with a decision whose signature verified, that says ALLOW and is complete, and an
  intent whose signature verified, that names this decision and is inside its window; both carry the canonical digest of the very
  effect that is dispatched. The tool is the one the intent allows and the effect names and is not prohibited, the
  safe-deprecation gate consented to this decision and tool, and no receipt of the decision was found. One call dispatches at
  most once.
\<close>

theorem executor_dispatch_sound:
  assumes "Execute en x effect decision intent s = (s', r)" "dispatches (xs_events s') \<noteq> dispatches (xs_events s)"
  shows "\<exists>d e i v tool t gate q result. decision = Some d \<and> effect = Some e \<and> intent = Some i \<and>
    dispatches (xs_events s') = dispatches (xs_events s) @ [(d_ID d, tool, Params e)] \<and>
    x_verifier x = Some v \<and> VerifyDecision v d = Ok True \<and> VerifyIntent v i = Ok True \<and>
    d_Verdict d = VerdictAllow \<and> d_SignatureVersion d = DecisionRecordSignatureV4 \<and> \<not> blank (d_ID d) \<and> ai_DecisionID i = d_ID d \<and>
    CanonicalEffectDigest (en_digest en) (Some e) = Ok (d_EffectDigest d) \<and> ai_EffectDigestHash i = d_EffectDigest d \<and>
    ai_IssuedAt i \<le> en_clk en ''gating'' \<and> en_clk en ''gating'' < ai_ExpiresAt i \<and>
    (ai_AllowedTool i \<noteq> [] \<longrightarrow> tool = ai_AllowedTool i) \<and> (\<forall>n. ctx_str (Params e) ''tool_name'' = Some n \<longrightarrow> tool = n) \<and>
    tool \<notin> set (x_prohibitedTools x) \<and>
    x_safeDepGate x = Some gate \<and> gate q (xs_gate s) = (xs_gate s', Ok result) \<and> gt_DispatchAllowed result \<and> gq_DecisionID q = d_ID d \<and> gq_ToolName q = tool \<and>
    checkIdempotency x t (d_ID d) (xs_receipts s) = Ok None"
proof -
  obtain d e i i' t s1 s2 and p :: prepared where f: "decision = Some d" "effect = Some e" "intent = Some i" "validateGating en x (Some d) (Some i) (Some e) = Ok ()"
    "cloneAuthorizedExecutionIntent (en_digest en) i = Ok i'" "checkIdempotency x t (d_ID d) (xs_receipts s) = Ok None"
    "xs_gate s1 = xs_gate s" "safedep_stage en x d i' e (pr_tool p) s1 = (s2, Ok (pr_gate p))" "choose_tool i' e = Ok (pr_tool p)"
    "pr_tool p \<notin> set (x_prohibitedTools x)" "xs_gate s' = xs_gate s2" "dispatches (xs_events s') = dispatches (xs_events s) @ [(d_ID d, pr_tool p, Params e)]"
    by (rule dispatched_facts [OF assms])
  obtain gate gi where g: "x_safeDepGate x = Some gate" "gate (gate_request en d gi e (pr_tool p)) (xs_gate s1) = (xs_gate s2, Ok (pr_gate p))" "gt_DispatchAllowed (pr_gate p)"
    by (rule safedep_ok [OF f(8)])
  have q: "gq_DecisionID (gate_request en d gi e (pr_tool p)) = d_ID d" "gq_ToolName (gate_request en d gi e (pr_tool p)) = pr_tool p"
    by (simp_all add: gate_request_def Let_def)
  have w: "ai_IssuedAt i \<le> en_clk en ''gating''" "en_clk en ''gating'' < ai_ExpiresAt i" "d_SignatureVersion d = DecisionRecordSignatureV4"
    using f(4) by (auto simp: gating_iff ValidateAt_def ValidateDecisionAuthorityForUse_def split: if_splits)
  have "ai_AllowedTool i' = ai_AllowedTool i" using clone_fields [OF f(5)] by auto
  then show ?thesis using f g q w tool_chosen [OF f(9)] f(4) [unfolded gating_iff] by auto
qed

theorem executor_dispatch_sound_witness:
  "\<exists>s' r. Execute w_xenv w_on_store (Some w_xeffect) (Some w_xd) (Some w_xintent) w_xstate = (s', r) \<and>
     dispatches (xs_events s') = [(''d'', ''files'', Params w_xeffect)] \<and> CanonicalEffectDigest (en_digest w_xenv) (Some w_xeffect) = Ok (d_EffectDigest w_xd)"
proof -
  obtain s' q where e: "Execute w_xenv w_on_store (Some w_xeffect) (Some w_xd) (Some w_xintent) w_xstate = (s', q)"
    "dispatches (xs_events s') = [(''d'', ''files'', Params w_xeffect)]"
    using w_executed by (auto simp: do_execute_def w_on w_call_fields)
  then show ?thesis using executor_dispatch_sound [OF e(1)] by (auto simp: w_call_fields)
qed

text \<open>
  C2: With the SQLite store a decision is executed once for its tenant: after a call for it returned its receipt, no later call of the tenant
  for the same decision dispatches anything, whatever other calls run in between, on whichever executors, and whichever statements fail.
\<close>

theorem executed_once:
  assumes "do_execute ev c s = (s1, Ok (rcpt, art))" "signer_keeps (cl_exec c)" "cl_decision c = Some d" "authenticatedTenantID (cl_env c) = Ok t"
    "s2 = run_executes ev cs s1" "cl_decision c' = Some d'" "d_ID d' = d_ID d" "authenticatedTenantID (cl_env c') = Ok t"
  shows "dispatches (xs_events (fst (do_execute ev c' s2))) = dispatches (xs_events s2)"
proof -
  have "tenant_known t (d_ID d) (xs_receipts s1)"
    by (rule sq.execute_known [OF on_serves _ assms(4)]) (use assms(1-3) in \<open>simp_all add: do_execute_def\<close>)
  then have k: "tenant_known t (d_ID d') (xs_receipts s2)" unfolding assms(5,7) by (rule run_known)
  have "Execute (cl_env c') (cl_on ev c') (cl_effect c') (Some d') (cl_intent c') s2 = (fst (do_execute ev c' s2), snd (do_execute ev c' s2))"
    using assms(6) by (simp add: do_execute_def)
  from sq.known_not_dispatched [OF on_serves k assms(8) this] show ?thesis .
qed

theorem executed_once_witness:
  "\<exists>s1 rcpt art. do_execute w_store (w_xcall w_hazard) w_xstate = (s1, Ok (rcpt, art)) \<and>
     dispatches (xs_events (fst (do_execute w_store (w_xcall w_hazard) s1))) = [(''d'', ''files'', Params w_xeffect)]"
proof -
  obtain s1 rcpt art where e: "do_execute w_store (w_xcall w_hazard) w_xstate = (s1, Ok (rcpt, art))" "dispatches (xs_events s1) = [(''d'', ''files'', Params w_xeffect)]"
    using w_executed by blast
  have "dispatches (xs_events (fst (do_execute w_store (w_xcall w_hazard) s1))) = dispatches (xs_events s1)"
    by (rule executed_once [OF e(1), where cs = "[]" and d = w_xd and d' = w_xd and t = "''acme''"]) (simp_all add: w_signer w_tenant w_call_fields)
  then show ?thesis using e by auto
qed





section \<open>From the guardian to the executor\<close>

text \<open>
  C5: What the guardian authorises the executor accepts: an intent issued for a decision passes the executor's gating for the same
  effect at any time of its window, when the executor's verifier is the guardian's and accepts the signed intent.
\<close>

theorem issued_intent_passes_gating:
  assumes "IssueExecutionIntent g (Some d) (Some e) = Ok i" "en_digest en = g_digest g" "x_verifier x = Some v" "g_verify g = Some (VerifyDecision v)" "VerifyIntent v i = Ok True"
    "\<not> blank (d_ID d)" "ai_IssuedAt i \<le> en_clk en ''gating''" "en_clk en ''gating'' < ai_ExpiresAt i" "ai_ExpiresAt i \<noteq> 0"
  shows "validateGating en x (Some d) (Some i) (Some e) = Ok ()"
  using issue_ok [OF assms(1)] verify_for_use_ok [OF issue_ok(1) [OF assms(1)]] assms(2-)
  by (auto simp: gating_iff ValidateAt_def)

theorem issued_intent_passes_gating_witness:
  "\<exists>i. IssueExecutionIntent w_guardian (Some w_signed) (Some w_effect) = Ok i \<and>
     validateGating (w_xenv\<lparr>en_clk := \<lambda>_. 62135596800000000000, en_digest := g_digest w_guardian\<rparr>)
       (w_exec\<lparr>x_verifier := Some \<lparr>VerifyDecision = (\<lambda>d. Ok (d_Signature d = ''sig'')), VerifyIntent = (\<lambda>i. Ok (ai_Signature i = ''isig''))\<rparr>\<rparr>)
       (Some w_signed) (Some i) (Some w_effect) = Ok ()"
proof -
  obtain i where i: "IssueExecutionIntent w_guardian (Some w_signed) (Some w_effect) = Ok i" using w_issued by (auto simp: is_ok_iff)
  have c: "ai_IssuedAt i = 62135596800000000000" "ai_ExpiresAt i = 62135596800000000000 + 5 * minute"
    using issue_ok(8,9) [OF i] by (simp_all add: w_guardian_def executionIntentExpiresAt_def w_effect_def)
  have sg: "ai_Signature i = ''isig''" using i unfolding IssueExecutionIntent_def
    by (auto simp: w_guardian_def Let_def split: sum.splits if_splits)
  have n: "\<not> blank (d_ID w_signed)" by (simp add: w_signed_def w_decision_def visible_not_blank visible_def)
  show ?thesis
    using i issued_intent_passes_gating [OF i, of "w_xenv\<lparr>en_clk := \<lambda>_. 62135596800000000000, en_digest := g_digest w_guardian\<rparr>"
        "w_exec\<lparr>x_verifier := Some \<lparr>VerifyDecision = (\<lambda>d. Ok (d_Signature d = ''sig'')), VerifyIntent = (\<lambda>i. Ok (ai_Signature i = ''isig''))\<rparr>\<rparr>"] n
    by (auto simp: c sg minute_def w_guardian_def)
qed

section \<open>Two observations\<close>

text \<open>
  An execution whose receipt could not be stored leaves no trace in the store: the effect took place, and the same call is
  admitted once more.
\<close>

lemma failed_receipt_forgets:
  assumes "pr_tenant p \<noteq> []" "Exec_createReceipt en (cl_on ev c) d e p h t = (t', Err err)"
  shows "t' = t \<and> admit en (cl_on ev c) effect d intent t' = admit en (cl_on ev c) effect d intent t"
proof -
  from on_serves assms(1,2) have "t' = t"
  proof (cases rule: sq.create_cases)
    case (appended sess dh ts)
    obtain u q where q: "AppendCausalScoped (ev\<lparr>se_fail := cl_fail c\<rparr>) (pr_tenant p) sess
        (\<lambda>_ l ph. case buildReceipt en (cl_on ev c) d e p h sess dh ts l ph True of Inl err \<Rightarrow> Err err | Inr r \<Rightarrow> Ok (Some r)) t = (u, q)" by fastforce
    have "u = t" "t' = u" if "q = Err m" for m
      using q that appended(3) by (auto simp: persisted_def some_receipt_def AppendCausalScoped_def Let_def split: if_splits dest: append_err_eq)
    then show ?thesis using appended(3) q by (cases q) (auto simp: persisted_def some_receipt_def)
  qed simp
  then show ?thesis by simp
qed

text \<open>Without a tenant a lookup that fails counts as a decision not yet executed.\<close>

lemma failed_lookup_counts_as_new:
  assumes "x_receiptStore x = Some ops" "ro_Get ops d st = Err m"
  shows "checkIdempotency x [] d st = Ok None"
  using assms by (simp add: checkIdempotency_def)

end
