(* ===== verification/Kernel_Scheduler.thy ===== *)
theory Kernel_Scheduler
  imports Contracts "HOL-Library.Multiset" "HOL-Library.List_Lexorder" "HOL-Library.Product_Lexorder" "HOL-Library.Char_ord"
begin

text \<open>
  The deterministic scheduler, \<^verbatim>\<open>core/pkg/kernel/scheduler.go\<close>, over the binary heap of Go's \<^verbatim>\<open>container/heap\<close>, whose \<^verbatim>\<open>Push\<close>, \<^verbatim>\<open>Pop\<close>,
  \<^verbatim>\<open>up\<close> and \<^verbatim>\<open>down\<close> are modelled as they walk the array. The heap refines a queue sorted by time, priority, sort key and
  sequence number. Keys of events and the snapshot digest are parameters.
\<close>

section \<open>Binary heaps (container/heap)\<close>

definition swap :: "'a list \<Rightarrow> nat \<Rightarrow> nat \<Rightarrow> 'a list" where
  "swap h i j = h[i := h ! j, j := h ! i]"

function heap_up :: "('a \<Rightarrow> 'a \<Rightarrow> bool) \<Rightarrow> 'a list \<Rightarrow> nat \<Rightarrow> 'a list" where
  "heap_up lt h j =
     (let i = (j - 1) div 2 in
      if i = j \<or> \<not> lt (h ! j) (h ! i) then h else heap_up lt (swap h i j) i)"
  by pat_completeness auto
termination
  by (relation "measure (\<lambda>(lt, h, j). j)") (auto simp: less_eq_div_iff_mult_less_eq)

function heap_down :: "('a \<Rightarrow> 'a \<Rightarrow> bool) \<Rightarrow> 'a list \<Rightarrow> nat \<Rightarrow> nat \<Rightarrow> 'a list" where
  "heap_down lt h i n =
     (let j1 = 2 * i + 1 in
      if n \<le> j1 then h
      else let j = (if j1 + 1 < n \<and> lt (h ! (j1 + 1)) (h ! j1) then j1 + 1 else j1) in
        if \<not> lt (h ! j) (h ! i) then h else heap_down lt (swap h i j) j n)"
  by pat_completeness auto
termination
  by (relation "measure (\<lambda>(lt, h, i, n). n - i)") auto

declare heap_up.simps [simp del] heap_down.simps [simp del]

definition heap_push :: "('a \<Rightarrow> 'a \<Rightarrow> bool) \<Rightarrow> 'a list \<Rightarrow> 'a \<Rightarrow> 'a list" where
  "heap_push lt h x = heap_up lt (h @ [x]) (length h)"

definition heap_pop :: "('a \<Rightarrow> 'a \<Rightarrow> bool) \<Rightarrow> 'a list \<Rightarrow> 'a list \<times> 'a" where
  "heap_pop lt h =
     (let n = length h - 1; h = heap_down lt (swap h 0 n) 0 n in (take n h, h ! n))"

section \<open>The scheduler\<close>

record SchedulerEvent =
  sv_EventID :: string
  sv_EventType :: string
  sv_ScheduledAt :: gotime
  sv_Priority :: int
  sv_SequenceNum :: "64 word"
  sv_Payload :: gctx
  sv_LoopID :: string
  sv_SortKey :: string

definition schedulerHeap_Less :: "SchedulerEvent \<Rightarrow> SchedulerEvent \<Rightarrow> bool" where
  "schedulerHeap_Less a b =
     (if sv_ScheduledAt a \<noteq> sv_ScheduledAt b then sv_ScheduledAt a < sv_ScheduledAt b
      else if sv_Priority a \<noteq> sv_Priority b then sv_Priority a < sv_Priority b
      else if sv_SortKey a \<noteq> sv_SortKey b then sv_SortKey a < sv_SortKey b
      else sv_SequenceNum a < sv_SequenceNum b)"

definition compareEvents :: "SchedulerEvent \<Rightarrow> SchedulerEvent \<Rightarrow> int" where
  "compareEvents a b =
     (if sv_ScheduledAt a < sv_ScheduledAt b then - 1
      else if sv_ScheduledAt a > sv_ScheduledAt b then 1
      else if sv_Priority a < sv_Priority b then - 1
      else if sv_Priority a > sv_Priority b then 1
      else if sv_SortKey a < sv_SortKey b then - 1
      else if sv_SortKey a > sv_SortKey b then 1
      else if sv_SequenceNum a < sv_SequenceNum b then - 1
      else if sv_SequenceNum a > sv_SequenceNum b then 1
      else 0)"

record InMemoryScheduler =
  im_events :: "SchedulerEvent list"
  im_nextSeq :: "64 word"
  im_closed :: bool

definition NewInMemoryScheduler :: InMemoryScheduler where
  "NewInMemoryScheduler = \<lparr>im_events = [], im_nextSeq = 1, im_closed = False\<rparr>"

datatype sched_error = SchedulerClosed

text \<open>The digest of the three identifying fields is the parameter; it has the first 16 bytes of a SHA-256 of their JSON in the code.\<close>

definition generateSortKey :: "(string \<Rightarrow> string \<Rightarrow> string \<Rightarrow> string) \<Rightarrow> SchedulerEvent \<Rightarrow> string" where
  "generateSortKey sortkey e = sortkey (sv_EventID e) (sv_EventType e) (sv_LoopID e)"

definition numbered :: "(string \<Rightarrow> string \<Rightarrow> string \<Rightarrow> string) \<Rightarrow> 64 word \<Rightarrow> SchedulerEvent \<Rightarrow> SchedulerEvent" where
  "numbered sortkey n e =
     (let e = e\<lparr>sv_SequenceNum := n\<rparr> in if sv_SortKey e = [] then e\<lparr>sv_SortKey := generateSortKey sortkey e\<rparr> else e)"

definition Schedule :: "(string \<Rightarrow> string \<Rightarrow> string \<Rightarrow> string) \<Rightarrow> SchedulerEvent \<Rightarrow> InMemoryScheduler \<Rightarrow> InMemoryScheduler \<times> (sched_error, SchedulerEvent) res" where
  "Schedule sortkey event s =
     (if im_closed s then (s, Err SchedulerClosed)
      else let e = numbered sortkey (im_nextSeq s) event in
        (s\<lparr>im_nextSeq := im_nextSeq s + 1, im_events := heap_push schedulerHeap_Less (im_events s) e\<rparr>, Ok e))"

text \<open>\<open>None\<close>: the call waits for an event.\<close>

definition Next :: "InMemoryScheduler \<Rightarrow> InMemoryScheduler \<times> (sched_error, SchedulerEvent) res option" where
  "Next s =
     (if im_events s = [] then (s, if im_closed s then Some (Err SchedulerClosed) else None)
      else case heap_pop schedulerHeap_Less (im_events s) of (h, e) \<Rightarrow> (s\<lparr>im_events := h\<rparr>, Some (Ok e)))"

definition Peek :: "InMemoryScheduler \<Rightarrow> SchedulerEvent option" where
  "Peek s = (case im_events s of [] \<Rightarrow> None | e # _ \<Rightarrow> Some e)"

definition Scheduler_Len :: "InMemoryScheduler \<Rightarrow> nat" where
  "Scheduler_Len s = length (im_events s)"

definition Scheduler_Close :: "InMemoryScheduler \<Rightarrow> InMemoryScheduler" where
  "Scheduler_Close s = s\<lparr>im_closed := True\<rparr>"

section \<open>Heaps over a linear order\<close>

abbreviation parent :: "nat \<Rightarrow> nat" where "parent j \<equiv> (j - 1) div 2"

lemma swap_length [simp]: "length (swap h i j) = length h"
  by (simp add: swap_def)

lemma swap_mset: "i < length h \<Longrightarrow> j < length h \<Longrightarrow> mset (swap h i j) = mset h"
  unfolding swap_def by (rule mset_swap)

lemma swap_nth: "i < length h \<Longrightarrow> j < length h \<Longrightarrow> k < length h \<Longrightarrow> swap h i j ! k = (if k = j then h ! i else if k = i then h ! j else h ! k)"
  by (auto simp: swap_def nth_list_update)

text \<open>
  An interface for the order of a heap. \<open>heap\<close> says that no element is below its parent; while an element moves, only its own
  place may be wrong.
\<close>

locale heap_order =
  fixes lt :: "'a \<Rightarrow> 'a \<Rightarrow> bool" and key :: "'a \<Rightarrow> 'k :: linorder"
  assumes lt_key: "lt a b \<longleftrightarrow> key a < key b"
begin

definition heap :: "'a list \<Rightarrow> nat \<Rightarrow> bool" where
  "heap h n \<longleftrightarrow> (\<forall>k. 0 < k \<longrightarrow> k < n \<longrightarrow> key (h ! parent k) \<le> key (h ! k))"

definition up_from :: "'a list \<Rightarrow> nat \<Rightarrow> bool" where
  "up_from h j \<longleftrightarrow> (\<forall>k. 0 < k \<longrightarrow> k < length h \<longrightarrow> k \<noteq> j \<longrightarrow> key (h ! parent k) \<le> key (h ! k)) \<and>
     (\<forall>k. 0 < k \<longrightarrow> k < length h \<longrightarrow> parent k = j \<longrightarrow> 0 < j \<longrightarrow> key (h ! parent j) \<le> key (h ! k))"

lemma up_step:
  assumes "j < length h" "0 < j" "up_from h j" "key (h ! j) < key (h ! parent j)"
  shows "up_from (swap h (parent j) j) (parent j)"
proof -
  define i where "i = parent j"
  have i: "i < j" "i < length h" using assms(1,2) by (auto simp: i_def)
  have up: "\<And>k. 0 < k \<Longrightarrow> k < length h \<Longrightarrow> k \<noteq> j \<Longrightarrow> key (h ! parent k) \<le> key (h ! k)"
    "\<And>k. 0 < k \<Longrightarrow> k < length h \<Longrightarrow> parent k = j \<Longrightarrow> key (h ! i) \<le> key (h ! k)"
    using assms(2,3) by (auto simp: up_from_def i_def)
  have sw: "k < length h \<Longrightarrow> swap h i j ! k = (if k = j then h ! i else if k = i then h ! j else h ! k)" for k
    using i assms(1) by (simp add: swap_nth)
  have lt: "key (h ! j) < key (h ! i)" using assms(4) by (simp add: i_def)
  have "key (swap h i j ! parent k) \<le> key (swap h i j ! k)" if k: "0 < k" "k < length h" "k \<noteq> i" for k
  proof -
    have pk: "parent k < k" "parent k < length h" using k by auto
    consider "k = j" | "k \<noteq> j" "parent k = j" | "k \<noteq> j" "parent k = i" | "k \<noteq> j" "parent k \<noteq> j" "parent k \<noteq> i" by blast
    then show ?thesis
    proof cases
      case 1
      then show ?thesis using lt i k sw [of k] sw [OF pk(2)] by (auto simp: i_def)
    next
      case 2
      then show ?thesis using up(2) [of k] k sw [of k] sw [OF pk(2)] by simp
    next
      case 3
      then show ?thesis using up(1) [of k] k lt i sw [of k] sw [OF pk(2)] by simp
    next
      case 4
      then show ?thesis using up(1) [of k] k sw [of k] sw [OF pk(2)] by simp
    qed
  qed
  moreover have "key (swap h i j ! parent i) \<le> key (swap h i j ! k)" if k: "0 < k" "k < length h" "parent k = i" "0 < i" for k
  proof -
    have pi: "parent i < i" "parent i < length h" using k i by auto
    have "key (h ! parent i) \<le> key (h ! i)" using up(1) [of i] i k(4) by simp
    moreover have "k \<noteq> j \<Longrightarrow> key (h ! i) \<le> key (h ! k)" using up(1) [of k] k by simp
    moreover have "k \<noteq> i" using k(1,3) by auto
    ultimately show ?thesis using sw [of k] sw [OF pi(2)] pi i k(2) by auto
  qed
  ultimately show ?thesis by (auto simp: up_from_def i_def)
qed

lemma heap_up_heap: "j < length h \<Longrightarrow> up_from h j \<Longrightarrow> heap (heap_up lt h j) (length h) \<and> mset (heap_up lt h j) = mset h"
proof (induction j arbitrary: h rule: less_induct)
  case (less j)
  show ?case
  proof (cases "parent j = j \<or> \<not> lt (h ! j) (h ! parent j)")
    case True
    have "key (h ! parent k) \<le> key (h ! k)" if "0 < k" "k < length h" for k
      using less.prems(2) that True by (cases "k = j") (auto simp: up_from_def lt_key not_less)
    then show ?thesis using True by (subst (1 2) heap_up.simps) (auto simp: Let_def heap_def)
  next
    case False
    then have j: "0 < j" "parent j < j" "parent j < length h" using less.prems(1) by (auto simp: not_le)
    have "up_from (swap h (parent j) j) (parent j)" using up_step less.prems j(1) False by (simp add: lt_key)
    then have "heap (heap_up lt (swap h (parent j) j) (parent j)) (length h) \<and> mset (heap_up lt (swap h (parent j) j) (parent j)) = mset (swap h (parent j) j)"
      using less.IH [OF j(2), of "swap h (parent j) j"] j(3) by simp
    then show ?thesis using False swap_mset [OF j(3) less.prems(1)] by (subst (1 2) heap_up.simps) (simp add: Let_def)
  qed
qed

definition down_from :: "'a list \<Rightarrow> nat \<Rightarrow> nat \<Rightarrow> bool" where
  "down_from h i n \<longleftrightarrow> (\<forall>k. 0 < k \<longrightarrow> k < n \<longrightarrow> parent k \<noteq> i \<longrightarrow> key (h ! parent k) \<le> key (h ! k)) \<and>
     (\<forall>k. 0 < k \<longrightarrow> k < n \<longrightarrow> parent k = i \<longrightarrow> 0 < i \<longrightarrow> key (h ! parent i) \<le> key (h ! k))"

lemma parent_iff: "0 < k \<Longrightarrow> parent k = i \<longleftrightarrow> k = 2 * i + 1 \<or> k = 2 * i + 2"
  by auto

lemma down_step:
  assumes "n \<le> length h" "j < n" "0 < j" "parent j = i" "down_from h i n" "key (h ! j) < key (h ! i)"
    "\<And>k. 0 < k \<Longrightarrow> k < n \<Longrightarrow> parent k = i \<Longrightarrow> key (h ! j) \<le> key (h ! k)"
  shows "down_from (swap h i j) j n"
proof -
  have i: "i < j" "i < length h" "j < length h" using assms(1-4) by auto
  have dn: "\<And>k. 0 < k \<Longrightarrow> k < n \<Longrightarrow> parent k \<noteq> i \<Longrightarrow> key (h ! parent k) \<le> key (h ! k)"
    "\<And>k. 0 < k \<Longrightarrow> k < n \<Longrightarrow> parent k = i \<Longrightarrow> 0 < i \<Longrightarrow> key (h ! parent i) \<le> key (h ! k)"
    using assms(5) by (auto simp: down_from_def)
  have sw: "k < n \<Longrightarrow> swap h i j ! k = (if k = j then h ! i else if k = i then h ! j else h ! k)" for k
    using i assms(1) by (simp add: swap_nth)
  have "key (swap h i j ! parent k) \<le> key (swap h i j ! k)" if k: "0 < k" "k < n" "parent k \<noteq> j" for k
  proof -
    have pk: "parent k < k" "parent k < n" using k by auto
    consider "k = j" | "k \<noteq> j" "parent k = i" | "k = i" "parent k \<noteq> i" | "k \<noteq> j" "k \<noteq> i" "parent k \<noteq> i" by blast
    then show ?thesis
    proof cases
      case 1
      then show ?thesis using assms(4,6) i k sw [of k] sw [OF pk(2)] by auto
    next
      case 2
      then show ?thesis using assms(7) [of k] k i sw [of k] sw [OF pk(2)] by auto
    next
      case 3
      then show ?thesis using dn(2) [of j] assms(2-4) k i pk sw [of k] sw [OF pk(2)] by auto
    next
      case 4
      then show ?thesis using dn(1) [of k] k sw [of k] sw [OF pk(2)] by auto
    qed
  qed
  moreover have "key (swap h i j ! parent j) \<le> key (swap h i j ! k)" if k: "0 < k" "k < n" "parent k = j" for k
  proof -
    have "k \<noteq> j" "k \<noteq> i" "i < n" using k i assms(2) by auto
    then show ?thesis using dn(1) [of k] k i assms(4) sw [of k] sw [of i] by auto
  qed
  ultimately show ?thesis by (auto simp: down_from_def)
qed

lemma heap_down_heap:
  "n \<le> length h \<Longrightarrow> down_from h i n \<Longrightarrow>
   heap (heap_down lt h i n) n \<and> mset (heap_down lt h i n) = mset h \<and> length (heap_down lt h i n) = length h \<and>
   (\<forall>m. n \<le> m \<longrightarrow> heap_down lt h i n ! m = h ! m)"
proof (induction "n - i" arbitrary: h i rule: less_induct)
  case less
  define j where "j = (if 2 * i + 2 < n \<and> lt (h ! (2 * i + 2)) (h ! (2 * i + 1)) then 2 * i + 2 else 2 * i + 1)"
  show ?case
  proof (cases "n \<le> 2 * i + 1 \<or> \<not> lt (h ! j) (h ! i)")
    case True
    have "key (h ! parent k) \<le> key (h ! k)" if k: "0 < k" "k < n" for k
    proof (cases "parent k = i")
      case False
      then show ?thesis using less.prems(2) k by (simp add: down_from_def)
    next
      case p: True
      then have "k = 2 * i + 1 \<or> k = 2 * i + 2" using parent_iff k(1) by blast
      then have "key (h ! i) \<le> key (h ! j)" "key (h ! j) \<le> key (h ! k)"
        using True k(2) by (auto simp: j_def lt_key not_less split: if_splits)
      then show ?thesis using p by auto
    qed
    moreover have "heap_down lt h i n = h" using True by (subst heap_down.simps) (auto simp: Let_def j_def)
    ultimately show ?thesis by (simp add: heap_def)
  next
    case False
    then have j: "j < n" "0 < j" "parent j = i" "i < j" by (auto simp: j_def)
    have l: "key (h ! j) < key (h ! i)" using False by (simp add: lt_key)
    have m: "key (h ! j) \<le> key (h ! k)" if "0 < k" "k < n" "parent k = i" for k
    proof -
      have "k = 2 * i + 1 \<or> k = 2 * i + 2" using that parent_iff by blast
      then show ?thesis using that(2) by (auto simp: j_def lt_key not_less)
    qed
    have d: "down_from (swap h i j) j n" by (rule down_step [OF less.prems(1) j(1,2,3) less.prems(2) l m])
    have eq: "heap_down lt h i n = heap_down lt (swap h i j) j n"
      using False by (subst heap_down.simps) (auto simp: Let_def j_def split: if_splits)
    have "i < length h" "j < length h" using j(1,4) less.prems(1) by auto
    then have "mset (swap h i j) = mset h" "\<forall>m. n \<le> m \<longrightarrow> swap h i j ! m = h ! m" using j(1,4) by (auto simp: swap_mset) (simp add: swap_def)
    then show ?thesis using less.hyps [of j "swap h i j"] less.prems(1) d j(1,4) by (simp add: eq)
  qed
qed

text \<open>The root of a heap is least; a push keeps the heap, a pop takes the least element out.\<close>

lemma heap_root: "heap h n \<Longrightarrow> k < n \<Longrightarrow> key (h ! 0) \<le> key (h ! k)"
proof (induction k rule: less_induct)
  case (less k)
  show ?case
  proof (cases "k = 0")
    case False
    then have "key (h ! 0) \<le> key (h ! parent k)" using less by (intro less.IH) auto
    also have "\<dots> \<le> key (h ! k)" using less.prems False by (simp add: heap_def)
    finally show ?thesis .
  qed simp
qed

lemma push_heap:
  assumes "heap h (length h)"
  shows "heap (heap_push lt h x) (Suc (length h)) \<and> mset (heap_push lt h x) = add_mset x (mset h)"
proof -
  have "key ((h @ [x]) ! parent k) \<le> key ((h @ [x]) ! k)" if "0 < k" "k < length h" for k
    using assms that by (auto simp: heap_def nth_append)
  moreover have "\<not> (0 < k \<and> k < Suc (length h) \<and> parent k = length h)" for k by auto
  ultimately have "up_from (h @ [x]) (length h)" by (auto simp: up_from_def less_Suc_eq)
  then show ?thesis using heap_up_heap [of "length h" "h @ [x]"] by (simp add: heap_push_def)
qed

lemma pop_heap:
  assumes "heap h (length h)" "h \<noteq> []" "heap_pop lt h = (h', e)"
  shows "heap h' (length h') \<and> mset h = add_mset e (mset h') \<and> e = h ! 0"
proof -
  define n where "n = length h - 1"
  define d where "d = heap_down lt (swap h 0 n) 0 n"
  have n: "n < length h" "length h = Suc n" using assms(2) by (auto simp: n_def)
  have r: "h' = take n d" "e = d ! n" using assms(3) by (auto simp: heap_pop_def Let_def n_def d_def)
  have "down_from (swap h 0 n) 0 n"
  proof -
    have "swap h 0 n ! k = h ! k" if "0 < k" "k < n" for k using that n swap_nth [of 0 h n k] by simp
    then have "key (swap h 0 n ! parent k) \<le> key (swap h 0 n ! k)" if "0 < k" "k < n" "parent k \<noteq> 0" for k
      using that assms(1) n by (auto simp: heap_def)
    then show ?thesis by (auto simp: down_from_def)
  qed
  then have d: "heap d n" "mset d = mset h" "length d = length h" "d ! n = swap h 0 n ! n"
    using heap_down_heap [of n "swap h 0 n" 0] n swap_mset [of 0 h n] by (auto simp: d_def)
  have "swap h 0 n ! n = h ! 0" using n swap_nth [of 0 h n n] by simp
  moreover have "d = take n d @ [d ! n]" using d(3) n by (metis lessI take_Suc_conv_app_nth take_all_iff order_refl)
  then have "mset d = add_mset (d ! n) (mset (take n d))" by (metis mset_append mset.simps union_commute add_mset_add_single)
  ultimately show ?thesis using d r n by (auto simp: heap_def)
qed

end

section \<open>The scheduler's order\<close>

definition event_key :: "SchedulerEvent \<Rightarrow> int \<times> int \<times> string \<times> 64 word" where
  "event_key e = (sv_ScheduledAt e, sv_Priority e, sv_SortKey e, sv_SequenceNum e)"

interpretation sched: heap_order schedulerHeap_Less event_key
  by unfold_locales (auto simp: schedulerHeap_Less_def event_key_def less_prod_def)

lemma compare_key: "compareEvents a b < 0 \<longleftrightarrow> event_key a < event_key b"
  by (auto simp: compareEvents_def event_key_def less_prod_def)

text \<open>
  \<^verbatim>\<open>SnapshotHash\<close> sorts a copy with \<^verbatim>\<open>sort.Slice\<close>; keys are distinct, so every sorting of the events is this one.
\<close>

definition SnapshotHash :: "(SchedulerEvent list \<Rightarrow> string) \<Rightarrow> InMemoryScheduler \<Rightarrow> string" where
  "SnapshotHash digest s = digest (sort_key event_key (im_events s))"

section \<open>Refinement\<close>

text \<open>The specification: the pending events in the order in which they will be delivered.\<close>

record sched_spec =
  sp_pending :: "SchedulerEvent list"
  sp_nextSeq :: "64 word"
  sp_closed :: bool

datatype sched_op = OpSchedule SchedulerEvent | OpNext | OpPeek | OpClose

datatype sched_out = Accepted "(sched_error, SchedulerEvent) res" | Delivered "(sched_error, SchedulerEvent) res option" | Seen "SchedulerEvent option" | Closed

fun spec_step :: "(string \<Rightarrow> string \<Rightarrow> string \<Rightarrow> string) \<Rightarrow> sched_op \<Rightarrow> sched_spec \<Rightarrow> sched_spec \<times> sched_out" where
  "spec_step sortkey (OpSchedule e) s =
     (if sp_closed s then (s, Accepted (Err SchedulerClosed))
      else let e = numbered sortkey (sp_nextSeq s) e in
        (s\<lparr>sp_nextSeq := sp_nextSeq s + 1, sp_pending := insort_key event_key e (sp_pending s)\<rparr>, Accepted (Ok e)))"
| "spec_step sortkey OpNext s =
     (case sp_pending s of
        [] \<Rightarrow> (s, Delivered (if sp_closed s then Some (Err SchedulerClosed) else None))
      | e # es \<Rightarrow> (s\<lparr>sp_pending := es\<rparr>, Delivered (Some (Ok e))))"
| "spec_step sortkey OpPeek s = (s, Seen (case sp_pending s of [] \<Rightarrow> None | e # _ \<Rightarrow> Some e))"
| "spec_step sortkey OpClose s = (s\<lparr>sp_closed := True\<rparr>, Closed)"

fun sched_step :: "(string \<Rightarrow> string \<Rightarrow> string \<Rightarrow> string) \<Rightarrow> sched_op \<Rightarrow> InMemoryScheduler \<Rightarrow> InMemoryScheduler \<times> sched_out" where
  "sched_step sortkey (OpSchedule e) s = (case Schedule sortkey e s of (s', r) \<Rightarrow> (s', Accepted r))"
| "sched_step sortkey OpNext s = (case Next s of (s', r) \<Rightarrow> (s', Delivered r))"
| "sched_step sortkey OpPeek s = (s, Seen (Peek s))"
| "sched_step sortkey OpClose s = (Scheduler_Close s, Closed)"

fun run_ops :: "(sched_op \<Rightarrow> 's \<Rightarrow> 's \<times> 'o) \<Rightarrow> sched_op list \<Rightarrow> 's \<Rightarrow> 's \<times> 'o list" where
  "run_ops step [] s = (s, [])"
| "run_ops step (c # cs) s = (case step c s of (s', r) \<Rightarrow> (case run_ops step cs s' of (s'', rs) \<Rightarrow> (s'', r # rs)))"

definition abs_sched :: "InMemoryScheduler \<Rightarrow> sched_spec" where
  "abs_sched s = \<lparr>sp_pending = sort_key event_key (im_events s), sp_nextSeq = im_nextSeq s, sp_closed = im_closed s\<rparr>"

text \<open>The invariant: the events are a heap and their sequence numbers are distinct and below the next one.\<close>

definition sched_inv :: "InMemoryScheduler \<Rightarrow> bool" where
  "sched_inv s \<longleftrightarrow> sched.heap (im_events s) (length (im_events s)) \<and> distinct (map sv_SequenceNum (im_events s)) \<and>
     (\<forall>e \<in> set (im_events s). unat (sv_SequenceNum e) < unat (im_nextSeq s))"

lemma inv_inj: "distinct (map sv_SequenceNum es) \<Longrightarrow> inj_on event_key (set es)"
  by (auto simp: inj_on_def event_key_def distinct_map)

lemma sort_unique:
  assumes "mset es = mset fs" "distinct (map sv_SequenceNum es)"
  shows "sort_key event_key es = sort_key event_key fs"
proof (rule sort_key_inj_key_eq)
  show "mset es = mset (sort_key event_key fs)" using assms(1) by simp
  show "inj_on event_key (set es)" using inv_inj [OF assms(2)] .
qed simp

lemma distinct_seqs_mset: "mset es = mset fs \<Longrightarrow> distinct (map sv_SequenceNum es) \<Longrightarrow> distinct (map sv_SequenceNum fs)"
  by (metis mset_map mset_eq_imp_distinct_iff)

lemma heap_front:
  assumes "sched.heap h (length h)" "h \<noteq> []" "distinct (map sv_SequenceNum h)"
  shows "sort_key event_key h = h ! 0 # sort_key event_key (tl h)"
proof (rule sort_key_inj_key_eq)
  show "mset h = mset (h ! 0 # sort_key event_key (tl h))" using assms(2) by (cases h) auto
  show "inj_on event_key (set h)" using inv_inj [OF assms(3)] .
  have "event_key (h ! 0) \<le> event_key e" if "e \<in> set h" for e
    using that sched.heap_root [OF assms(1)] by (auto simp: in_set_conv_nth)
  moreover have "set (tl h) \<subseteq> set h" using assms(2) by (cases h) auto
  ultimately show "sorted (map event_key (h ! 0 # sort_key event_key (tl h)))" by auto
qed

lemma numbered_seq [simp]: "sv_SequenceNum (numbered sortkey n e) = n"
  by (simp add: numbered_def Let_def)

lemma schedule_refines:
  assumes "sched_inv s" "unat (im_nextSeq s) + 1 < 2 ^ 64" "Schedule sortkey ev s = (s', r)"
  shows "sched_inv s' \<and> spec_step sortkey (OpSchedule ev) (abs_sched s) = (abs_sched s', Accepted r) \<and> unat (im_nextSeq s') \<le> unat (im_nextSeq s) + 1"
proof (cases "im_closed s")
  case True
  then show ?thesis using assms by (auto simp: Schedule_def abs_sched_def)
next
  case False
  define e where "e = numbered sortkey (im_nextSeq s) ev"
  define h where "h = heap_push schedulerHeap_Less (im_events s) e"
  have s': "s' = s\<lparr>im_nextSeq := im_nextSeq s + 1, im_events := h\<rparr>" "r = Ok e"
    using assms(3) False by (auto simp: Schedule_def Let_def e_def h_def)
  have h: "sched.heap h (Suc (length (im_events s)))" "mset h = add_mset e (mset (im_events s))"
    using assms(1) sched.push_heap [of "im_events s" e] by (auto simp: sched_inv_def h_def)
  have len: "length h = Suc (length (im_events s))" using h(2) by (metis mset_eq_length length_Cons mset.simps(2))
  have seq: "sv_SequenceNum e = im_nextSeq s" by (simp add: e_def)
  have new: "im_nextSeq s \<notin> set (map sv_SequenceNum (im_events s))" using assms(1) by (auto simp: sched_inv_def)
  have dis: "distinct (map sv_SequenceNum (e # im_events s))" using assms(1) new by (simp add: sched_inv_def seq)
  have nxt: "unat (im_nextSeq s + 1) = unat (im_nextSeq s) + 1"
    using assms(2) unat_add_lem [of "im_nextSeq s" 1] by simp
  have "distinct (map sv_SequenceNum h)" by (rule distinct_seqs_mset [OF _ dis]) (simp add: h(2))
  moreover have "set h = insert e (set (im_events s))" using h(2) by (metis set_mset_mset set_mset_add_mset_insert)
  ultimately have "sched_inv s'" using assms(1) h(1) len by (auto simp: sched_inv_def s' seq nxt)
  moreover have "sort_key event_key h = insort_key event_key e (sort_key event_key (im_events s))"
  proof (rule sort_key_inj_key_eq)
    show "inj_on event_key (set h)" by (rule inv_inj) (use \<open>distinct (map sv_SequenceNum h)\<close> in simp)
  qed (simp_all add: h(2) sorted_insort_key)
  ultimately show ?thesis using False by (simp add: abs_sched_def s' nxt Let_def flip: e_def)
qed

lemma next_refines:
  assumes "sched_inv s" "Next s = (s', r)"
  shows "sched_inv s' \<and> spec_step sortkey OpNext (abs_sched s) = (abs_sched s', Delivered r) \<and> im_nextSeq s' = im_nextSeq s"
proof (cases "im_events s = []")
  case True
  then show ?thesis using assms by (auto simp: Next_def abs_sched_def)
next
  case False
  obtain h e where p: "heap_pop schedulerHeap_Less (im_events s) = (h, e)" by fastforce
  then have s': "s' = s\<lparr>im_events := h\<rparr>" "r = Some (Ok e)" using assms(2) False by (auto simp: Next_def)
  have inv: "sched.heap (im_events s) (length (im_events s))" "distinct (map sv_SequenceNum (im_events s))" using assms(1) by (auto simp: sched_inv_def)
  have h: "sched.heap h (length h)" "mset (im_events s) = add_mset e (mset h)" "e = im_events s ! 0"
    using sched.pop_heap [OF inv(1) False p] by auto
  have "distinct (map sv_SequenceNum (e # h))" by (rule distinct_seqs_mset [OF _ inv(2)]) (simp add: h(2))
  then have dis: "distinct (map sv_SequenceNum h)" by simp
  obtain x xs where x: "im_events s = x # xs" using False by (cases "im_events s") auto
  then have "mset (tl (im_events s)) = mset h" using h(2) unfolding h(3) x by simp
  then have "sort_key event_key (tl (im_events s)) = sort_key event_key h" by (metis sort_unique [OF _ dis])
  then have "sort_key event_key (im_events s) = e # sort_key event_key h" unfolding heap_front [OF inv(1) False inv(2)] h(3) [symmetric] by simp
  moreover have "set h \<subseteq> set (im_events s)" using arg_cong [where f = set_mset, OF h(2)] by auto
  then have "sched_inv s'" using h(1) dis assms(1) by (auto simp: sched_inv_def s')
  ultimately show ?thesis by (simp add: abs_sched_def s')
qed

lemma peek_front: "sched_inv s \<Longrightarrow> Peek s = (case sort_key event_key (im_events s) of [] \<Rightarrow> None | e # _ \<Rightarrow> Some e)"
proof (cases "im_events s = []")
  case False
  assume "sched_inv s"
  then have "sort_key event_key (im_events s) = im_events s ! 0 # sort_key event_key (tl (im_events s))"
    using heap_front [OF _ False] by (simp add: sched_inv_def)
  then show ?thesis using False by (simp add: Peek_def split: list.split)
qed (simp add: Peek_def)

lemma step_refines:
  assumes "sched_inv s" "unat (im_nextSeq s) + 1 < 2 ^ 64" "sched_step sortkey c s = (s', r)"
  shows "sched_inv s' \<and> spec_step sortkey c (abs_sched s) = (abs_sched s', r) \<and> unat (im_nextSeq s') \<le> unat (im_nextSeq s) + 1"
proof (cases c)
  case (OpSchedule e)
  then show ?thesis using assms schedule_refines [OF assms(1,2)] by (auto split: prod.splits)
next
  case OpNext
  obtain s1 q where q: "Next s = (s1, q)" by fastforce
  then show ?thesis using assms(3) OpNext next_refines [OF assms(1) q] by auto
next
  case OpPeek
  then show ?thesis using assms peek_front [OF assms(1)] by (auto simp: abs_sched_def)
next
  case OpClose
  then show ?thesis using assms by (auto simp: abs_sched_def Scheduler_Close_def sched_inv_def)
qed

lemma run_refines:
  "sched_inv s \<Longrightarrow> unat (im_nextSeq s) + length ops < 2 ^ 64 \<Longrightarrow> run_ops (sched_step sortkey) ops s = (s', out) \<Longrightarrow>
   sched_inv s' \<and> run_ops (spec_step sortkey) ops (abs_sched s) = (abs_sched s', out)"
proof (induction ops arbitrary: s out)
  case (Cons c ops)
  obtain s1 r where st: "sched_step sortkey c s = (s1, r)" by fastforce
  obtain rs where rs: "run_ops (sched_step sortkey) ops s1 = (s', rs)" "out = r # rs" using Cons.prems(3) st by (auto split: prod.splits)
  have "unat (im_nextSeq s) + 1 < 2 ^ 64" using Cons.prems(2) by simp
  note step = step_refines [OF Cons.prems(1) this st]
  then have "unat (im_nextSeq s1) + length ops < 2 ^ 64" using Cons.prems(2) by simp
  then show ?case using Cons.IH [OF _ _ rs(1)] step rs(2) by auto
qed simp

section \<open>Properties\<close>

text \<open>
  C19: Over any sequence of calls the scheduler answers like a queue kept sorted by time, priority, sort key and sequence number: the
  array heap is an implementation of it, so the events come out in an order that depends on their keys alone.
\<close>

theorem scheduler_refines:
  assumes "run_ops (sched_step sortkey) ops NewInMemoryScheduler = (s, out)" "length ops < 2 ^ 64 - 1"
  shows "run_ops (spec_step sortkey) ops \<lparr>sp_pending = [], sp_nextSeq = 1, sp_closed = False\<rparr> = (abs_sched s, out)"
proof -
  have "sched_inv NewInMemoryScheduler" by (simp add: sched_inv_def NewInMemoryScheduler_def sched.heap_def)
  moreover have "unat (im_nextSeq NewInMemoryScheduler) + length ops < 2 ^ 64" using assms(2) by (simp add: NewInMemoryScheduler_def)
  ultimately show ?thesis using run_refines [OF _ _ assms(1)] by (simp add: abs_sched_def NewInMemoryScheduler_def)
qed

definition w_event :: "string \<Rightarrow> gotime \<Rightarrow> int \<Rightarrow> SchedulerEvent" where
  "w_event i t p = \<lparr>sv_EventID = i, sv_EventType = ''tick'', sv_ScheduledAt = t, sv_Priority = p, sv_SequenceNum = 0, sv_Payload = None, sv_LoopID = [], sv_SortKey = i\<rparr>"

theorem scheduler_refines_witness:
  "\<exists>s out. run_ops (sched_step (\<lambda>_ _ _. ''k'')) [OpSchedule (w_event ''a'' 9 1), OpSchedule (w_event ''b'' 5 2), OpSchedule (w_event ''c'' 5 1), OpNext, OpNext] NewInMemoryScheduler = (s, out) \<and>
     map (\<lambda>r. case r of Delivered (Some (Inr e)) \<Rightarrow> sv_EventID e | _ \<Rightarrow> []) (drop 3 out) = [''c'', ''b'']"
proof -
  let ?ops = "[OpSchedule (w_event ''a'' 9 1), OpSchedule (w_event ''b'' 5 2), OpSchedule (w_event ''c'' 5 1), OpNext, OpNext]"
  obtain s out where r: "run_ops (sched_step (\<lambda>_ _ _. ''k'')) ?ops NewInMemoryScheduler = (s, out)" by fastforce
  have "run_ops (spec_step (\<lambda>_ _ _. ''k'')) ?ops \<lparr>sp_pending = [], sp_nextSeq = 1, sp_closed = False\<rparr> = (abs_sched s, out)"
    by (rule scheduler_refines [OF r]) simp
  then have "map (\<lambda>r. case r of Delivered (Some (Inr e)) \<Rightarrow> sv_EventID e | _ \<Rightarrow> []) (drop 3 out) = [''c'', ''b'']"
    by (auto simp: w_event_def numbered_def event_key_def less_eq_prod_def Let_def)
  with r show ?thesis by (intro exI conjI)
qed

end
