(* ===== verification/Kernel_Reducer.thy ===== *)
theory Kernel_Reducer
  imports Contracts "HOL-Library.Multiset" "HOL-Library.List_Lexorder" "HOL-Library.Product_Lexorder" "HOL-Library.Char_ord"
begin

text \<open>
  The deterministic reducer, \<^verbatim>\<open>core/pkg/kernel/reducer.go\<close>: a batch of writes is sorted and applied under a conflict policy. The sort
  (\<^verbatim>\<open>sort.Slice\<close>, not stable), the hash and the \<^verbatim>\<open>%v\<close> rendering of values are parameters. The lemmas say which write of a key
  survives under each policy and when the result is independent of the order in which the batch arrives.
\<close>

section \<open>Data\<close>

type_synonym ConflictPolicy = string

definition ConflictPolicyVerifierWins :: ConflictPolicy where "ConflictPolicyVerifierWins = ''verifier_wins''"
definition ConflictPolicyFirstSuccess :: ConflictPolicy where "ConflictPolicyFirstSuccess = ''first_success''"
definition ConflictPolicyQuorum :: ConflictPolicy where "ConflictPolicyQuorum = ''quorum''"
definition ConflictPolicyLastWriteWins :: ConflictPolicy where "ConflictPolicyLastWriteWins = ''last_write_wins''"

lemmas policy_names = ConflictPolicyVerifierWins_def ConflictPolicyFirstSuccess_def ConflictPolicyQuorum_def ConflictPolicyLastWriteWins_def

record ReducerInput =
  ri_SequenceNumber :: "64 word"
  ri_Key :: string
  ri_Value :: gval
  ri_SortKey :: string
  ri_Metadata :: gctx

record ReducerConflict =
  rc_Key :: string
  rc_WinnerSeq :: "64 word"
  rc_LoserSeq :: "64 word"
  rc_WinnerValue :: "gval option"
  rc_LoserValue :: "gval option"
  rc_ResolutionBy :: string

record ReducerOutput =
  ro_StateHash :: string
  ro_State :: "(string, gval) gomap"
  ro_Applied :: "64 word list"
  ro_Conflicts :: "ReducerConflict list"

record DeterministicReducer =
  dr_policy :: ConflictPolicy
  dr_stateMap :: "(string, gval) gomap"

definition NewDeterministicReducer :: "ConflictPolicy \<Rightarrow> DeterministicReducer" where
  "NewDeterministicReducer p = \<lparr>dr_policy = p, dr_stateMap = []\<rparr>"

definition Reducer_Policy :: "DeterministicReducer \<Rightarrow> ConflictPolicy" where
  "Reducer_Policy r = dr_policy r"

section \<open>Reduction\<close>

text \<open>The variables of the loop of \<^verbatim>\<open>Reduce\<close>; the state map belongs to the reducer and outlives the call.\<close>

record reduction =
  rd_state :: "(string, gval) gomap"
  rd_keyOwner :: "(string, 64 word) gomap"
  rd_applied :: "64 word list"
  rd_conflicts :: "ReducerConflict list"

definition take_over :: "ReducerInput \<Rightarrow> reduction \<Rightarrow> reduction" where
  "take_over x d =
     d\<lparr>rd_state := AList.update (ri_Key x) (ri_Value x) (rd_state d),
       rd_keyOwner := AList.update (ri_Key x) (ri_SequenceNumber x) (rd_keyOwner d),
       rd_applied := rd_applied d @ [ri_SequenceNumber x]\<rparr>"

definition note_conflict :: "ConflictPolicy \<Rightarrow> string \<Rightarrow> 64 word \<times> gval option \<Rightarrow> 64 word \<times> gval option \<Rightarrow> reduction \<Rightarrow> reduction" where
  "note_conflict p k w l d =
     d\<lparr>rd_conflicts := rd_conflicts d @
         [\<lparr>rc_Key = k, rc_WinnerSeq = fst w, rc_LoserSeq = fst l, rc_WinnerValue = snd w, rc_LoserValue = snd l, rc_ResolutionBy = p\<rparr>]\<rparr>"

definition apply_input :: "ConflictPolicy \<Rightarrow> ReducerInput \<Rightarrow> reduction \<Rightarrow> reduction" where
  "apply_input p x d =
     (case map_of (rd_keyOwner d) (ri_Key x) of
        None \<Rightarrow> take_over x d
      | Some existingSeq \<Rightarrow>
          let old = (existingSeq, map_of (rd_state d) (ri_Key x)); new = (ri_SequenceNumber x, Some (ri_Value x)) in
          if p = ConflictPolicyFirstSuccess then note_conflict p (ri_Key x) old new d
          else if p = ConflictPolicyLastWriteWins then note_conflict p (ri_Key x) new old (take_over x d)
          else if p = ConflictPolicyVerifierWins then
            if ri_SequenceNumber x > existingSeq then note_conflict p (ri_Key x) new old (take_over x d)
            else note_conflict p (ri_Key x) old new d
          else note_conflict p (ri_Key x) old new d)"

definition computeStateHash :: "(string \<Rightarrow> string) \<Rightarrow> (gval \<Rightarrow> string) \<Rightarrow> (string, gval) gomap \<Rightarrow> string" where
  "computeStateHash sha256 render m =
     ''sha256:'' @ sha256 (concat (map (\<lambda>k. k @ '':'' @ (case map_of m k of Some v \<Rightarrow> render v | None \<Rightarrow> ''<nil>'') @ '';'') (sort (map fst m))))"

definition Reduce :: "(string \<Rightarrow> string) \<Rightarrow> (gval \<Rightarrow> string) \<Rightarrow> (ReducerInput list \<Rightarrow> ReducerInput list) \<Rightarrow> ReducerInput list \<Rightarrow>
    DeterministicReducer \<Rightarrow> DeterministicReducer \<times> ReducerOutput" where
  "Reduce sha256 render sortSlice xs r =
     (let d = fold (apply_input (dr_policy r)) (sortSlice xs) \<lparr>rd_state = dr_stateMap r, rd_keyOwner = [], rd_applied = [], rd_conflicts = []\<rparr>
      in (r\<lparr>dr_stateMap := rd_state d\<rparr>,
          \<lparr>ro_StateHash = computeStateHash sha256 render (rd_state d), ro_State = rd_state d, ro_Applied = rd_applied d, ro_Conflicts = rd_conflicts d\<rparr>))"

section \<open>What a sort promises\<close>

definition input_key :: "ReducerInput \<Rightarrow> string \<times> 64 word" where
  "input_key x = (ri_SortKey x, ri_SequenceNumber x)"

text \<open>The result of \<^verbatim>\<open>sort.Slice\<close> with the comparison of \<^verbatim>\<open>Reduce\<close>; equal keys may come in any order.\<close>

definition sorts :: "(ReducerInput list \<Rightarrow> ReducerInput list) \<Rightarrow> bool" where
  "sorts f \<longleftrightarrow> (\<forall>xs. mset (f xs) = mset xs \<and> sorted (map input_key (f xs)))"

lemma sort_key_sorts: "sorts (sort_key input_key)"
  by (simp add: sorts_def)

lemma sorts_unique:
  assumes "sorts f" "mset xs = mset ys" "distinct (map input_key xs)"
  shows "f ys = sort_key input_key xs"
proof (rule sort_key_inj_key_eq [symmetric])
  show "mset xs = mset (f ys)" "sorted (map input_key (f ys))" using assms by (simp_all add: sorts_def)
  show "inj_on input_key (set xs)" using assms(3) by (simp add: distinct_map)
qed

section \<open>Which write survives\<close>

text \<open>The policies on the writes of one key, in the order in which they are applied.\<close>

definition preferred :: "ConflictPolicy \<Rightarrow> ReducerInput \<Rightarrow> ReducerInput \<Rightarrow> ReducerInput" where
  "preferred p w x =
     (if p = ConflictPolicyLastWriteWins \<or> p = ConflictPolicyVerifierWins \<and> ri_SequenceNumber x > ri_SequenceNumber w then x else w)"

definition survivor :: "ConflictPolicy \<Rightarrow> ReducerInput list \<Rightarrow> ReducerInput option" where
  "survivor p xs = (case xs of [] \<Rightarrow> None | w # ys \<Rightarrow> Some (foldl (preferred p) w ys))"

lemma survivor_snoc: "survivor p (xs @ [x]) = Some (case survivor p xs of None \<Rightarrow> x | Some w \<Rightarrow> preferred p w x)"
  by (cases xs) (simp_all add: survivor_def)

lemma survivor_last_write: "xs \<noteq> [] \<Longrightarrow> survivor ConflictPolicyLastWriteWins xs = Some (last xs)"
  by (induction xs rule: rev_induct) (auto simp: survivor_snoc preferred_def split: option.split)

lemma survivor_first:
  assumes "p \<noteq> ConflictPolicyLastWriteWins" "p \<noteq> ConflictPolicyVerifierWins" "xs \<noteq> []"
  shows "survivor p xs = Some (hd xs)"
  using assms(3)
proof (induction xs rule: rev_induct)
  case (snoc x xs)
  then show ?case using assms(1,2) by (cases xs) (auto simp: survivor_snoc preferred_def survivor_def)
qed simp

lemma survivor_verifier:
  "survivor ConflictPolicyVerifierWins xs = Some w \<Longrightarrow> w \<in> set xs \<and> (\<forall>x \<in> set xs. ri_SequenceNumber x \<le> ri_SequenceNumber w)"
proof (induction xs arbitrary: w rule: rev_induct)
  case (snoc x xs)
  show ?case
  proof (cases "survivor ConflictPolicyVerifierWins xs")
    case None
    then have "xs = []" by (cases xs) (simp_all add: survivor_def)
    then show ?thesis using snoc.prems by (simp add: survivor_def)
  next
    case (Some v)
    then show ?thesis using snoc.prems snoc.IH [OF Some]
      by (auto simp: survivor_snoc preferred_def policy_names split: if_splits)
  qed
qed (simp add: survivor_def)

text \<open>The loop holds, for every key, the surviving write of the inputs so far.\<close>

abbreviation writes :: "string \<Rightarrow> ReducerInput list \<Rightarrow> ReducerInput list" where
  "writes k xs \<equiv> filter (\<lambda>x. ri_Key x = k) xs"

lemma apply_input_cases:
  "map_of (rd_keyOwner (apply_input p x d)) k =
     (if k = ri_Key x then Some (case map_of (rd_keyOwner d) k of None \<Rightarrow> ri_SequenceNumber x
        | Some q \<Rightarrow> if p = ConflictPolicyLastWriteWins \<or> p = ConflictPolicyVerifierWins \<and> ri_SequenceNumber x > q then ri_SequenceNumber x else q)
      else map_of (rd_keyOwner d) k)"
  "map_of (rd_state (apply_input p x d)) k =
     (if k = ri_Key x \<and> (case map_of (rd_keyOwner d) k of None \<Rightarrow> True
        | Some q \<Rightarrow> p = ConflictPolicyLastWriteWins \<or> p = ConflictPolicyVerifierWins \<and> ri_SequenceNumber x > q) then Some (ri_Value x)
      else map_of (rd_state d) k)"
  by (auto simp: apply_input_def take_over_def note_conflict_def policy_names Let_def split: option.split)

lemma fold_owner:
  "map_of (rd_keyOwner (fold (apply_input p) xs \<lparr>rd_state = m, rd_keyOwner = [], rd_applied = a, rd_conflicts = c\<rparr>)) k =
     map_option ri_SequenceNumber (survivor p (writes k xs))"
proof (induction xs rule: rev_induct)
  case (snoc x xs)
  then show ?case by (auto simp: apply_input_cases survivor_snoc preferred_def split: option.split)
qed (simp add: survivor_def)

lemma fold_state:
  "map_of (rd_state (fold (apply_input p) xs \<lparr>rd_state = m, rd_keyOwner = [], rd_applied = a, rd_conflicts = c\<rparr>)) k =
     (case survivor p (writes k xs) of None \<Rightarrow> map_of m k | Some w \<Rightarrow> Some (ri_Value w))"
proof (induction xs rule: rev_induct)
  case (snoc x xs)
  then show ?case by (auto simp: apply_input_cases fold_owner survivor_snoc preferred_def split: option.split)
qed (simp add: survivor_def)

text \<open>
  A winner among the writes of a key, said without reference to the order of the list: the greatest or the least in the order of the
  sort, or a greatest sequence number.
\<close>

definition wins :: "ConflictPolicy \<Rightarrow> ReducerInput \<Rightarrow> ReducerInput list \<Rightarrow> bool" where
  "wins p w xs \<longleftrightarrow> w \<in> set xs \<and>
     (if p = ConflictPolicyLastWriteWins then \<forall>x \<in> set xs. input_key x \<le> input_key w
      else if p = ConflictPolicyVerifierWins then \<forall>x \<in> set xs. ri_SequenceNumber x \<le> ri_SequenceNumber w
      else \<forall>x \<in> set xs. input_key w \<le> input_key x)"

lemma sorted_hd_last:
  assumes "sorted (map f xs)" "x \<in> set xs"
  shows "f (hd xs) \<le> f x" "f x \<le> f (last xs)"
proof -
  show "f (hd xs) \<le> f x" using assms by (cases xs) auto
  show "f x \<le> f (last xs)" using assms by (cases xs rule: rev_cases) (auto simp: sorted_append)
qed

lemma survivor_wins:
  assumes "sorted (map input_key xs)" "survivor p xs = Some w"
  shows "wins p w xs"
proof -
  have ne: "xs \<noteq> []" using assms(2) by (auto simp: survivor_def)
  consider "p = ConflictPolicyLastWriteWins" | "p = ConflictPolicyVerifierWins" | "p \<noteq> ConflictPolicyLastWriteWins" "p \<noteq> ConflictPolicyVerifierWins" by blast
  then show ?thesis
  proof cases
    case 1
    then show ?thesis using assms(2) survivor_last_write [OF ne] sorted_hd_last(2) [OF assms(1)] last_in_set [OF ne] by (auto simp: wins_def)
  next
    case 2
    then show ?thesis using assms(2) survivor_verifier by (simp add: wins_def policy_names)
  next
    case 3
    then show ?thesis using assms(2) survivor_first [OF 3 ne] sorted_hd_last(1) [OF assms(1)] hd_in_set [OF ne] by (auto simp: wins_def)
  qed
qed

lemma wins_set: "set xs = set ys \<Longrightarrow> wins p w xs = wins p w ys"
  by (simp add: wins_def)

lemma sorted_writes: "sorted (map f xs) \<Longrightarrow> sorted (map f (writes k xs))"
  by (induction xs) auto

lemma apply_input_dom: "dom (map_of (rd_keyOwner (apply_input p x d))) = insert (ri_Key x) (dom (map_of (rd_keyOwner d)))"
  by (auto simp: apply_input_cases dom_def split: if_splits)

lemma conflicts_counted:
  "finite (dom (map_of (rd_keyOwner d))) \<Longrightarrow>
   length (rd_conflicts (fold (apply_input p) xs d)) + card (dom (map_of (rd_keyOwner d)) \<union> ri_Key ` set xs) =
     length (rd_conflicts d) + card (dom (map_of (rd_keyOwner d))) + length xs"
proof (induction xs arbitrary: d)
  case (Cons x xs)
  have one: "length (rd_conflicts (apply_input p x d)) + card (insert (ri_Key x) (dom (map_of (rd_keyOwner d)))) =
      length (rd_conflicts d) + card (dom (map_of (rd_keyOwner d))) + 1"
    using Cons.prems by (auto simp: apply_input_def take_over_def note_conflict_def card_insert_if Let_def domIff split: option.split)
  have "finite (dom (map_of (rd_keyOwner (apply_input p x d))))" using Cons.prems by (simp add: apply_input_dom)
  from Cons.IH [OF this] show ?case using one by (simp add: apply_input_dom)
qed simp

section \<open>Properties\<close>


definition w_input :: "64 word \<Rightarrow> string \<Rightarrow> string \<Rightarrow> ReducerInput" where
  "w_input n k v = \<lparr>ri_SequenceNumber = n, ri_Key = ''balance'', ri_Value = GStr v, ri_SortKey = k, ri_Metadata = None\<rparr>"


section \<open>Divergences from the documented behaviour\<close>

text \<open>``Last write wins (by sequence number)'': the order that decides is the sort key first, so an older write can win.\<close>

lemma last_write_by_sort_key:
  "map_of (ro_State (snd (Reduce id (\<lambda>_. []) (sort_key input_key) [w_input 1 ''z'' ''older'', w_input 2 ''a'' ''newer'']
     (NewDeterministicReducer ConflictPolicyLastWriteWins)))) ''balance'' = Some (GStr ''older'')"
  by (simp add: Reduce_def w_input_def input_key_def NewDeterministicReducer_def apply_input_def take_over_def note_conflict_def policy_names)

text \<open>The policy that ``requires quorum agreement'' is the default branch: the first write of a key is kept, whatever the others say.\<close>

lemma quorum_is_first_success:
  "apply_input ConflictPolicyQuorum x d =
     (let e = apply_input ConflictPolicyFirstSuccess x d in
      if map_of (rd_keyOwner d) (ri_Key x) = None then e
      else e\<lparr>rd_conflicts := butlast (rd_conflicts e) @ [(last (rd_conflicts e))\<lparr>rc_ResolutionBy := ConflictPolicyQuorum\<rparr>]\<rparr>)"
  by (auto simp: apply_input_def note_conflict_def policy_names Let_def split: option.split)

text \<open>
  The state survives the call, so the same batch gives another state on a reducer that has been used: the output is a function of the
  history, not of the inputs.
\<close>

lemma reducer_remembers:
  "ro_State (snd (Reduce id (\<lambda>_. []) (sort_key input_key) [] r)) = dr_stateMap r"
  by (simp add: Reduce_def)

end
