(* ===== verification/Effect_Catalog.thy ===== *)
theory Effect_Catalog
  imports Contracts
begin

text \<open>
  The catalogue of effect types, \<^verbatim>\<open>core/pkg/contracts/effect_types.go\<close> and \<^verbatim>\<open>effect_catalog.go\<close>, the preview catalogue of
  \<^verbatim>\<open>launch_effect_types.go\<close>, risk classes, and which types the effect boundary admits (\<^verbatim>\<open>kernel/effect_boundary.go\<close>). One definition per
  entry of a table.
\<close>

section \<open>Data\<close>

record idempotency_ref =
  id_Strategy :: string
  id_KeyComposition :: "string list"
  id_DedupWindowSeconds :: int
  id_OnDuplicate :: string

record classification =
  cl_Reversibility :: string
  cl_BlastRadius :: string
  cl_Urgency :: string

record effect_type =
  et_TypeID :: string
  et_Name :: string
  et_Description :: string
  et_Status :: string
  et_Taxon :: string
  et_BaseEffectTypes :: "string list"
  et_Idempotency :: idempotency_ref
  et_Classification :: classification
  et_DefaultApprovalLevel :: string
  et_RequiresEvidence :: bool
  et_CompensationRequired :: bool
  et_CompensationEffectType :: string
  et_CompensationAuthorization :: string
  et_InputSchema :: string
  et_AuthorizationEnvelopeSchema :: string
  et_ReceiptSchema :: string
  et_ConnectorID :: string
  et_ActionURN :: string
  et_PreflightRequired :: bool
  et_TwoPhaseCommitRequired :: bool
  et_MinEvidenceGrade :: string
  et_PolicyHooks :: "string list"

record effect_type_catalog =
  ct_CatalogVersion :: string
  ct_EffectTypes :: "effect_type list"

text \<open>Fields a table does not mention have Go's zero value.\<close>

definition zero_effect_type :: effect_type where
  "zero_effect_type =
    \<lparr>et_TypeID = [], et_Name = [], et_Description = [], et_Status = [], et_Taxon = [], et_BaseEffectTypes = [],
     et_Idempotency = \<lparr>id_Strategy = [], id_KeyComposition = [], id_DedupWindowSeconds = 0, id_OnDuplicate = []\<rparr>,
     et_Classification = \<lparr>cl_Reversibility = [], cl_BlastRadius = [], cl_Urgency = []\<rparr>,
     et_DefaultApprovalLevel = [], et_RequiresEvidence = False, et_CompensationRequired = False, et_CompensationEffectType = [],
     et_CompensationAuthorization = [], et_InputSchema = [], et_AuthorizationEnvelopeSchema = [], et_ReceiptSchema = [],
     et_ConnectorID = [], et_ActionURN = [], et_PreflightRequired = False, et_TwoPhaseCommitRequired = False,
     et_MinEvidenceGrade = [], et_PolicyHooks = []\<rparr>"

section \<open>Identifiers\<close>

definition EffectTypeInfraDestroy :: string where "EffectTypeInfraDestroy = ''INFRA_DESTROY''"
definition EffectTypeEnvRecreate :: string where "EffectTypeEnvRecreate = ''ENV_RECREATE''"
definition EffectTypeProtectedInfraWrite :: string where "EffectTypeProtectedInfraWrite = ''PROTECTED_INFRA_STRUCTURE''"
definition EffectTypeCICredentialAccess :: string where "EffectTypeCICredentialAccess = ''CI_CREDENTIAL_ACCESS''"
definition EffectTypeSoftwarePublish :: string where "EffectTypeSoftwarePublish = ''SOFTWARE_PUBLISH''"
definition EffectTypeAgentInvokePrivileged :: string where "EffectTypeAgentInvokePrivileged = ''AGENT_INVOKE_PRIVILEGED''"
definition EffectTypeAgentIdentityIsolation :: string where "EffectTypeAgentIdentityIsolation = ''AGENT_IDENTITY_ISOLATION''"
definition EffectTypeDataEgress :: string where "EffectTypeDataEgress = ''DATA_EGRESS''"
definition EffectTypeTunnelStart :: string where "EffectTypeTunnelStart = ''TUNNEL_START''"
definition EffectTypeCloudComputeBudget :: string where "EffectTypeCloudComputeBudget = ''CLOUD_COMPUTE_BUDGET''"
definition EffectTypeProviderProvision :: string where "EffectTypeProviderProvision = ''PROVIDER_PROVISION''"
definition EffectTypeDeployProductionActivate :: string where "EffectTypeDeployProductionActivate = ''DEPLOY_PRODUCTION_ACTIVATE''"
definition EffectTypeSpendAuthorize :: string where "EffectTypeSpendAuthorize = ''SPEND_AUTHORIZE''"
definition EffectTypeProviderRollback :: string where "EffectTypeProviderRollback = ''PROVIDER_ROLLBACK''"
definition EffectTypeProviderTeardown :: string where "EffectTypeProviderTeardown = ''PROVIDER_TEARDOWN''"
definition EffectTypeCompanyArtifactUpdate :: string where "EffectTypeCompanyArtifactUpdate = ''COMPANY_ARTIFACT_UPDATE''"
definition EffectTypeSendEmail :: string where "EffectTypeSendEmail = ''SEND_EMAIL''"
definition EffectTypeSendChatMessage :: string where "EffectTypeSendChatMessage = ''SEND_CHAT_MESSAGE''"
definition EffectTypeCreateCalEvent :: string where "EffectTypeCreateCalEvent = ''CREATE_CAL_EVENT''"
definition EffectTypeUpdateDoc :: string where "EffectTypeUpdateDoc = ''UPDATE_DOC''"
definition EffectTypeCreateTask :: string where "EffectTypeCreateTask = ''CREATE_TASK''"
definition EffectTypeCommentTicket :: string where "EffectTypeCommentTicket = ''COMMENT_TICKET''"
definition EffectTypeScreenCandidate :: string where "EffectTypeScreenCandidate = ''SCREEN_CANDIDATE''"
definition EffectTypeRequestPurchase :: string where "EffectTypeRequestPurchase = ''REQUEST_PURCHASE''"
definition EffectTypeExecutePayment :: string where "EffectTypeExecutePayment = ''EXECUTE_PAYMENT''"
definition EffectTypeCallWebhook :: string where "EffectTypeCallWebhook = ''CALL_WEBHOOK''"
definition EffectTypeRunSandboxedCode :: string where "EffectTypeRunSandboxedCode = ''RUN_SANDBOXED_CODE''"
definition LaunchEffectCatalogVersion :: string where "LaunchEffectCatalogVersion = ''1.1.0-alpha.1''"
definition LaunchEffectStatusPreview :: string where "LaunchEffectStatusPreview = ''preview''"
definition launchAuthorizationEnvelopeSchema :: string where "launchAuthorizationEnvelopeSchema = ''effects/launch/launch_effect_envelope.v1.json''"
definition launchReceiptSchema :: string where "launchReceiptSchema = ''effects/launch/launch_effect_receipt.v1.json''"
definition LaunchActionProviderProvision :: string where "LaunchActionProviderProvision = ''urn:helm:provider-route:provision''"
definition LaunchActionDeployProductionActivate :: string where "LaunchActionDeployProductionActivate = ''urn:helm:provider-route:activate''"
definition LaunchActionSpendAuthorize :: string where "LaunchActionSpendAuthorize = ''urn:helm:spend:authorize''"
definition LaunchActionProviderRollback :: string where "LaunchActionProviderRollback = ''urn:helm:provider-route:rollback''"
definition LaunchActionProviderTeardown :: string where "LaunchActionProviderTeardown = ''urn:helm:provider-route:teardown''"
definition LaunchActionCompanyArtifactUpdate :: string where "LaunchActionCompanyArtifactUpdate = ''urn:helm:company-artifact:update''"
definition LaunchConnectorProviderRoute :: string where "LaunchConnectorProviderRoute = ''helm-provider-route''"
definition LaunchConnectorSpendAuthority :: string where "LaunchConnectorSpendAuthority = ''helm-spend-authority''"
definition LaunchConnectorCompanyState :: string where "LaunchConnectorCompanyState = ''helm-company-state''"

lemmas effect_ids =
  EffectTypeInfraDestroy_def EffectTypeEnvRecreate_def EffectTypeProtectedInfraWrite_def
  EffectTypeCICredentialAccess_def EffectTypeSoftwarePublish_def EffectTypeAgentInvokePrivileged_def
  EffectTypeAgentIdentityIsolation_def EffectTypeDataEgress_def EffectTypeTunnelStart_def
  EffectTypeCloudComputeBudget_def EffectTypeProviderProvision_def EffectTypeDeployProductionActivate_def
  EffectTypeSpendAuthorize_def EffectTypeProviderRollback_def EffectTypeProviderTeardown_def
  EffectTypeCompanyArtifactUpdate_def EffectTypeSendEmail_def EffectTypeSendChatMessage_def
  EffectTypeCreateCalEvent_def EffectTypeUpdateDoc_def EffectTypeCreateTask_def
  EffectTypeCommentTicket_def EffectTypeScreenCandidate_def EffectTypeRequestPurchase_def
  EffectTypeExecutePayment_def EffectTypeCallWebhook_def EffectTypeRunSandboxedCode_def

section \<open>The default catalogue\<close>

definition cat_InfraDestroy :: effect_type where
  "cat_InfraDestroy = zero_effect_type
    \<lparr>et_TypeID := EffectTypeInfraDestroy,
     et_Name := ''Infrastructure Destroy'',
     et_Description := ''Destroys infrastructure resources (e.g., terraform destroy, droplet deletion). Irreversible without backup.'',
     et_Idempotency := \<lparr>id_Strategy = ''none'', id_KeyComposition = [], id_DedupWindowSeconds = 0, id_OnDuplicate = []\<rparr>,
     et_Classification := \<lparr>cl_Reversibility = ''irreversible'', cl_BlastRadius = ''system_wide'', cl_Urgency = ''immediate''\<rparr>,
     et_DefaultApprovalLevel := ''dual_control'',
     et_RequiresEvidence := True,
     et_CompensationRequired := False,
     et_ReceiptSchema := ''effects/threat/infra_destroy.json''\<rparr>"

definition cat_EnvRecreate :: effect_type where
  "cat_EnvRecreate = zero_effect_type
    \<lparr>et_TypeID := EffectTypeEnvRecreate,
     et_Name := ''Environment Recreate'',
     et_Description := ''Recreates or replaces an execution environment. May invalidate context fingerprints and running state.'',
     et_Idempotency := \<lparr>id_Strategy = ''content_hash'', id_KeyComposition = [], id_DedupWindowSeconds = 0, id_OnDuplicate = []\<rparr>,
     et_Classification := \<lparr>cl_Reversibility = ''compensatable'', cl_BlastRadius = ''system_wide'', cl_Urgency = ''time_sensitive''\<rparr>,
     et_DefaultApprovalLevel := ''single_human'',
     et_RequiresEvidence := True,
     et_CompensationRequired := True,
     et_ReceiptSchema := ''effects/threat/env_recreate.json''\<rparr>"

definition cat_ProtectedInfraWrite :: effect_type where
  "cat_ProtectedInfraWrite = zero_effect_type
    \<lparr>et_TypeID := EffectTypeProtectedInfraWrite,
     et_Name := ''Protected Infrastructure Mutation'',
     et_Description := ''Mutates protected infrastructure such as production database schemas, load balancer configs, or DNS records.'',
     et_Idempotency := \<lparr>id_Strategy = ''content_hash'', id_KeyComposition = [], id_DedupWindowSeconds = 0, id_OnDuplicate = []\<rparr>,
     et_Classification := \<lparr>cl_Reversibility = ''compensatable'', cl_BlastRadius = ''system_wide'', cl_Urgency = ''time_sensitive''\<rparr>,
     et_DefaultApprovalLevel := ''dual_control'',
     et_RequiresEvidence := True,
     et_CompensationRequired := True,
     et_ReceiptSchema := ''effects/threat/protected_infra_structure.json''\<rparr>"

definition cat_CICredentialAccess :: effect_type where
  "cat_CICredentialAccess = zero_effect_type
    \<lparr>et_TypeID := EffectTypeCICredentialAccess,
     et_Name := ''CI Credential Access'',
     et_Description := ''Accesses CI/CD credentials, signing keys, or deployment secrets. Supply-chain attack vector.'',
     et_Idempotency := \<lparr>id_Strategy = ''none'', id_KeyComposition = [], id_DedupWindowSeconds = 0, id_OnDuplicate = []\<rparr>,
     et_Classification := \<lparr>cl_Reversibility = ''irreversible'', cl_BlastRadius = ''system_wide'', cl_Urgency = ''immediate''\<rparr>,
     et_DefaultApprovalLevel := ''dual_control'',
     et_RequiresEvidence := True,
     et_CompensationRequired := False,
     et_ReceiptSchema := ''effects/threat/ci_credential_access.json''\<rparr>"

definition cat_SoftwarePublish :: effect_type where
  "cat_SoftwarePublish = zero_effect_type
    \<lparr>et_TypeID := EffectTypeSoftwarePublish,
     et_Name := ''Software Publish'',
     et_Description := ''Publishes a software artifact to a registry (npm, Docker Hub, PyPI, etc.). Irreversible in public registries.'',
     et_Idempotency := \<lparr>id_Strategy = ''content_hash'', id_KeyComposition = [''registry'', ''package'', ''version''], id_DedupWindowSeconds = 0, id_OnDuplicate = []\<rparr>,
     et_Classification := \<lparr>cl_Reversibility = ''irreversible'', cl_BlastRadius = ''system_wide'', cl_Urgency = ''time_sensitive''\<rparr>,
     et_DefaultApprovalLevel := ''dual_control'',
     et_RequiresEvidence := True,
     et_CompensationRequired := False,
     et_ReceiptSchema := ''effects/threat/software_publish.json''\<rparr>"

definition cat_AgentInvokePrivileged :: effect_type where
  "cat_AgentInvokePrivileged = zero_effect_type
    \<lparr>et_TypeID := EffectTypeAgentInvokePrivileged,
     et_Name := ''Agent Invoke Privileged'',
     et_Description := ''Agent invokes a privileged operation requiring elevated principal strength or explicit delegation.'',
     et_Idempotency := \<lparr>id_Strategy = ''effect_id'', id_KeyComposition = [], id_DedupWindowSeconds = 0, id_OnDuplicate = []\<rparr>,
     et_Classification := \<lparr>cl_Reversibility = ''compensatable'', cl_BlastRadius = ''dataset'', cl_Urgency = ''immediate''\<rparr>,
     et_DefaultApprovalLevel := ''single_human'',
     et_RequiresEvidence := True,
     et_CompensationRequired := False,
     et_ReceiptSchema := ''effects/threat/agent_invoke_privileged.json''\<rparr>"

definition cat_AgentIdentityIsolation :: effect_type where
  "cat_AgentIdentityIsolation = zero_effect_type
    \<lparr>et_TypeID := EffectTypeAgentIdentityIsolation,
     et_Name := ''Agent Identity Isolation Check'',
     et_Description := ''Validates that agent instances maintain credential isolation. Detects shared-secret or impersonation attempts.'',
     et_Idempotency := \<lparr>id_Strategy = ''none'', id_KeyComposition = [], id_DedupWindowSeconds = 0, id_OnDuplicate = []\<rparr>,
     et_Classification := \<lparr>cl_Reversibility = ''reversible'', cl_BlastRadius = ''single_record'', cl_Urgency = ''immediate''\<rparr>,
     et_DefaultApprovalLevel := ''none'',
     et_RequiresEvidence := True,
     et_CompensationRequired := False,
     et_ReceiptSchema := ''effects/threat/agent_identity_isolation.json''\<rparr>"

definition cat_DataEgress :: effect_type where
  "cat_DataEgress = zero_effect_type
    \<lparr>et_TypeID := EffectTypeDataEgress,
     et_Name := ''Data Egress'',
     et_Description := ''Transmits data to an external endpoint. Primary exfiltration vector.'',
     et_Idempotency := \<lparr>id_Strategy = ''none'', id_KeyComposition = [], id_DedupWindowSeconds = 0, id_OnDuplicate = []\<rparr>,
     et_Classification := \<lparr>cl_Reversibility = ''irreversible'', cl_BlastRadius = ''system_wide'', cl_Urgency = ''immediate''\<rparr>,
     et_DefaultApprovalLevel := ''dual_control'',
     et_RequiresEvidence := True,
     et_CompensationRequired := False,
     et_ReceiptSchema := ''effects/threat/data_egress.json''\<rparr>"

definition cat_TunnelStart :: effect_type where
  "cat_TunnelStart = zero_effect_type
    \<lparr>et_TypeID := EffectTypeTunnelStart,
     et_Name := ''Tunnel Start'',
     et_Description := ''Establishes a network tunnel (SSH, VPN, reverse proxy). Enables persistent covert channels.'',
     et_Idempotency := \<lparr>id_Strategy = ''content_hash'', id_KeyComposition = [''destination'', ''protocol''], id_DedupWindowSeconds = 0, id_OnDuplicate = []\<rparr>,
     et_Classification := \<lparr>cl_Reversibility = ''reversible'', cl_BlastRadius = ''system_wide'', cl_Urgency = ''immediate''\<rparr>,
     et_DefaultApprovalLevel := ''single_human'',
     et_RequiresEvidence := True,
     et_CompensationRequired := False,
     et_ReceiptSchema := ''effects/threat/tunnel_start.json''\<rparr>"

definition cat_CloudComputeBudget :: effect_type where
  "cat_CloudComputeBudget = zero_effect_type
    \<lparr>et_TypeID := EffectTypeCloudComputeBudget,
     et_Name := ''Cloud Compute Budget'',
     et_Description := ''Consumes cloud compute resources against a tenant budget. Crypto-mining and resource-hijack vector.'',
     et_Idempotency := \<lparr>id_Strategy = ''effect_id'', id_KeyComposition = [], id_DedupWindowSeconds = 0, id_OnDuplicate = []\<rparr>,
     et_Classification := \<lparr>cl_Reversibility = ''compensatable'', cl_BlastRadius = ''dataset'', cl_Urgency = ''time_sensitive''\<rparr>,
     et_DefaultApprovalLevel := ''none'',
     et_RequiresEvidence := True,
     et_CompensationRequired := True,
     et_ReceiptSchema := ''effects/threat/cloud_compute_budget.json''\<rparr>"

definition cat_SendEmail :: effect_type where
  "cat_SendEmail = zero_effect_type
    \<lparr>et_TypeID := EffectTypeSendEmail,
     et_Name := ''Send Email'',
     et_Description := ''Sends an email through a governed connector. External-facing, compensatable via recall.'',
     et_Idempotency := \<lparr>id_Strategy = ''content_hash'', id_KeyComposition = [''to'', ''subject'', ''body_hash''], id_DedupWindowSeconds = 0, id_OnDuplicate = []\<rparr>,
     et_Classification := \<lparr>cl_Reversibility = ''compensatable'', cl_BlastRadius = ''dataset'', cl_Urgency = ''time_sensitive''\<rparr>,
     et_DefaultApprovalLevel := ''single_human'',
     et_RequiresEvidence := True,
     et_ReceiptSchema := ''effects/send_email_effect.v1.json''\<rparr>"

definition cat_SendChatMessage :: effect_type where
  "cat_SendChatMessage = zero_effect_type
    \<lparr>et_TypeID := EffectTypeSendChatMessage,
     et_Name := ''Send Chat Message'',
     et_Description := ''Sends a chat message (Slack, Teams, etc.). Reversible via deletion.'',
     et_Idempotency := \<lparr>id_Strategy = ''content_hash'', id_KeyComposition = [''channel_id'', ''body_hash''], id_DedupWindowSeconds = 0, id_OnDuplicate = []\<rparr>,
     et_Classification := \<lparr>cl_Reversibility = ''reversible'', cl_BlastRadius = ''single_record'', cl_Urgency = ''time_sensitive''\<rparr>,
     et_ReceiptSchema := ''effects/send_chat_message_effect.v1.json''\<rparr>"

definition cat_CreateCalEvent :: effect_type where
  "cat_CreateCalEvent = zero_effect_type
    \<lparr>et_TypeID := EffectTypeCreateCalEvent,
     et_Name := ''Create Calendar Event'',
     et_Description := ''Creates a calendar event. Reversible via cancellation.'',
     et_Idempotency := \<lparr>id_Strategy = ''content_hash'', id_KeyComposition = [''title'', ''start_time'', ''end_time''], id_DedupWindowSeconds = 0, id_OnDuplicate = []\<rparr>,
     et_Classification := \<lparr>cl_Reversibility = ''reversible'', cl_BlastRadius = ''single_record'', cl_Urgency = ''time_sensitive''\<rparr>,
     et_ReceiptSchema := ''effects/create_calendar_event_effect.v1.json''\<rparr>"

definition cat_UpdateDoc :: effect_type where
  "cat_UpdateDoc = zero_effect_type
    \<lparr>et_TypeID := EffectTypeUpdateDoc,
     et_Name := ''Update Document'',
     et_Description := ''Updates a document in a connected document store. Compensatable via version history.'',
     et_Idempotency := \<lparr>id_Strategy = ''content_hash'', id_KeyComposition = [], id_DedupWindowSeconds = 0, id_OnDuplicate = []\<rparr>,
     et_Classification := \<lparr>cl_Reversibility = ''compensatable'', cl_BlastRadius = ''single_record'', cl_Urgency = ''time_sensitive''\<rparr>,
     et_ReceiptSchema := ''effects/update_doc_effect.v1.json''\<rparr>"

definition cat_CreateTask :: effect_type where
  "cat_CreateTask = zero_effect_type
    \<lparr>et_TypeID := EffectTypeCreateTask,
     et_Name := ''Create Task'',
     et_Description := ''Creates a task or issue in a project management tool. Reversible via deletion.'',
     et_Idempotency := \<lparr>id_Strategy = ''content_hash'', id_KeyComposition = [], id_DedupWindowSeconds = 0, id_OnDuplicate = []\<rparr>,
     et_Classification := \<lparr>cl_Reversibility = ''reversible'', cl_BlastRadius = ''single_record'', cl_Urgency = ''time_sensitive''\<rparr>,
     et_ReceiptSchema := ''effects/create_task_effect.v1.json''\<rparr>"

definition cat_CommentTicket :: effect_type where
  "cat_CommentTicket = zero_effect_type
    \<lparr>et_TypeID := EffectTypeCommentTicket,
     et_Name := ''Comment on Ticket'',
     et_Description := ''Adds a comment to a ticket or issue. May be customer-visible.'',
     et_Idempotency := \<lparr>id_Strategy = ''content_hash'', id_KeyComposition = [], id_DedupWindowSeconds = 0, id_OnDuplicate = []\<rparr>,
     et_Classification := \<lparr>cl_Reversibility = ''reversible'', cl_BlastRadius = ''single_record'', cl_Urgency = ''time_sensitive''\<rparr>,
     et_ReceiptSchema := ''effects/comment_ticket_effect.v1.json''\<rparr>"

definition cat_ScreenCandidate :: effect_type where
  "cat_ScreenCandidate = zero_effect_type
    \<lparr>et_TypeID := EffectTypeScreenCandidate,
     et_Name := ''Screen Candidate'',
     et_Description := ''Screens a recruiting candidate. External-facing HR action.'',
     et_Idempotency := \<lparr>id_Strategy = ''content_hash'', id_KeyComposition = [''candidate_id'', ''job_id'', ''screen_type''], id_DedupWindowSeconds = 0, id_OnDuplicate = []\<rparr>,
     et_Classification := \<lparr>cl_Reversibility = ''compensatable'', cl_BlastRadius = ''dataset'', cl_Urgency = ''time_sensitive''\<rparr>,
     et_DefaultApprovalLevel := ''single_human'',
     et_RequiresEvidence := True,
     et_ReceiptSchema := ''effects/screen_candidate_effect.v1.json''\<rparr>"

definition cat_RequestPurchase :: effect_type where
  "cat_RequestPurchase = zero_effect_type
    \<lparr>et_TypeID := EffectTypeRequestPurchase,
     et_Name := ''Request Purchase'',
     et_Description := ''Generates a procurement purchase request. Financial effect requiring dual control.'',
     et_Idempotency := \<lparr>id_Strategy = ''client_provided'', id_KeyComposition = [], id_DedupWindowSeconds = 0, id_OnDuplicate = []\<rparr>,
     et_Classification := \<lparr>cl_Reversibility = ''compensatable'', cl_BlastRadius = ''system_wide'', cl_Urgency = ''time_sensitive''\<rparr>,
     et_DefaultApprovalLevel := ''dual_control'',
     et_RequiresEvidence := True,
     et_CompensationRequired := True,
     et_ReceiptSchema := ''effects/request_purchase_effect.v1.json''\<rparr>"

definition cat_ExecutePayment :: effect_type where
  "cat_ExecutePayment = zero_effect_type
    \<lparr>et_TypeID := EffectTypeExecutePayment,
     et_Name := ''Execute Payment'',
     et_Description := ''Executes a financial payment. Irreversible. Requires dual control approval.'',
     et_Idempotency := \<lparr>id_Strategy = ''client_provided'', id_KeyComposition = [], id_DedupWindowSeconds = 0, id_OnDuplicate = []\<rparr>,
     et_Classification := \<lparr>cl_Reversibility = ''irreversible'', cl_BlastRadius = ''system_wide'', cl_Urgency = ''immediate''\<rparr>,
     et_DefaultApprovalLevel := ''dual_control'',
     et_RequiresEvidence := True,
     et_ReceiptSchema := ''effects/execute_payment_effect.v1.json''\<rparr>"

definition cat_CallWebhook :: effect_type where
  "cat_CallWebhook = zero_effect_type
    \<lparr>et_TypeID := EffectTypeCallWebhook,
     et_Name := ''Call Webhook'',
     et_Description := ''Calls an external webhook endpoint. External-facing integration.'',
     et_Idempotency := \<lparr>id_Strategy = ''content_hash'', id_KeyComposition = [], id_DedupWindowSeconds = 0, id_OnDuplicate = []\<rparr>,
     et_Classification := \<lparr>cl_Reversibility = ''irreversible'', cl_BlastRadius = ''dataset'', cl_Urgency = ''time_sensitive''\<rparr>,
     et_DefaultApprovalLevel := ''single_human'',
     et_RequiresEvidence := True,
     et_ReceiptSchema := ''effects/call_webhook_effect.v1.json''\<rparr>"

definition cat_RunSandboxedCode :: effect_type where
  "cat_RunSandboxedCode = zero_effect_type
    \<lparr>et_TypeID := EffectTypeRunSandboxedCode,
     et_Name := ''Run Sandboxed Code'',
     et_Description := ''Executes code in a governed sandbox. Compensatable via sandbox reset.'',
     et_Idempotency := \<lparr>id_Strategy = ''content_hash'', id_KeyComposition = [], id_DedupWindowSeconds = 0, id_OnDuplicate = []\<rparr>,
     et_Classification := \<lparr>cl_Reversibility = ''compensatable'', cl_BlastRadius = ''single_record'', cl_Urgency = ''time_sensitive''\<rparr>,
     et_ReceiptSchema := ''effects/run_sandboxed_code_effect.v1.json''\<rparr>"

definition DefaultEffectCatalog :: effect_type_catalog where
  "DefaultEffectCatalog = \<lparr>ct_CatalogVersion = ''1.0.0'', ct_EffectTypes =
    [cat_InfraDestroy, cat_EnvRecreate, cat_ProtectedInfraWrite, cat_CICredentialAccess, cat_SoftwarePublish,
     cat_AgentInvokePrivileged, cat_AgentIdentityIsolation, cat_DataEgress, cat_TunnelStart,
     cat_CloudComputeBudget, cat_SendEmail, cat_SendChatMessage, cat_CreateCalEvent, cat_UpdateDoc,
     cat_CreateTask, cat_CommentTicket, cat_ScreenCandidate, cat_RequestPurchase, cat_ExecutePayment,
     cat_CallWebhook, cat_RunSandboxedCode]\<rparr>"

lemmas catalog_defs = DefaultEffectCatalog_def zero_effect_type_def
  cat_InfraDestroy_def cat_EnvRecreate_def cat_ProtectedInfraWrite_def cat_CICredentialAccess_def
  cat_SoftwarePublish_def cat_AgentInvokePrivileged_def cat_AgentIdentityIsolation_def cat_DataEgress_def
  cat_TunnelStart_def cat_CloudComputeBudget_def cat_SendEmail_def cat_SendChatMessage_def
  cat_CreateCalEvent_def cat_UpdateDoc_def cat_CreateTask_def cat_CommentTicket_def
  cat_ScreenCandidate_def cat_RequestPurchase_def cat_ExecutePayment_def cat_CallWebhook_def
  cat_RunSandboxedCode_def

fun find_type :: "string \<Rightarrow> effect_type list \<Rightarrow> effect_type option" where
  "find_type typeID [] = None"
| "find_type typeID (t # ts) = (if et_TypeID t = typeID then Some t else find_type typeID ts)"

definition LookupEffectType :: "string \<Rightarrow> effect_type option" where
  "LookupEffectType typeID = find_type typeID (ct_EffectTypes DefaultEffectCatalog)"

definition EffectRiskClass :: "string \<Rightarrow> string" where
  "EffectRiskClass t =
     (if t \<in> {EffectTypeInfraDestroy, EffectTypeCICredentialAccess, EffectTypeSoftwarePublish, EffectTypeDataEgress, EffectTypeProviderTeardown} then ''E4''
      else if t \<in> {EffectTypeProtectedInfraWrite, EffectTypeEnvRecreate, EffectTypeAgentInvokePrivileged, EffectTypeTunnelStart,
        EffectTypeProviderProvision, EffectTypeDeployProductionActivate, EffectTypeSpendAuthorize, EffectTypeProviderRollback} then ''E3''
      else if t \<in> {EffectTypeCloudComputeBudget, EffectTypeCompanyArtifactUpdate} then ''E2''
      else if t = EffectTypeAgentIdentityIsolation then ''E1''
      else if t \<in> {EffectTypeSendEmail, EffectTypeScreenCandidate, EffectTypeCallWebhook} then ''E2''
      else if t \<in> {EffectTypeExecutePayment, EffectTypeRequestPurchase} then ''E4''
      else if t \<in> {EffectTypeSendChatMessage, EffectTypeCreateCalEvent, EffectTypeUpdateDoc, EffectTypeCreateTask, EffectTypeCommentTicket,
        EffectTypeRunSandboxedCode} then ''E1''
      else ''E3'')"

section \<open>The preview catalogue\<close>

definition launchIdempotency :: "string \<Rightarrow> idempotency_ref" where
  "launchIdempotency onDuplicate =
     \<lparr>id_Strategy = ''content_hash'', id_KeyComposition = [''$canonical_input''], id_DedupWindowSeconds = 0, id_OnDuplicate = onDuplicate\<rparr>"

definition commonHooks :: "string list" where
  "commonHooks = [''base_effect_expansion'', ''authority_court'', ''single_use_effect_permit'', ''emergency_dispatch_fence'']"

definition preview_ProviderProvision :: effect_type where
  "preview_ProviderProvision = zero_effect_type
    \<lparr>et_TypeID := EffectTypeProviderProvision,
     et_Name := ''Provider Provision'',
     et_Description := ''Creates the exact provider resource set bound to a launch plan, canonical spend authority, and a fresh single-use permit.'',
     et_Status := LaunchEffectStatusPreview,
     et_Taxon := ''E3'',
     et_BaseEffectTypes := [''INFRA_CHANGE'', ''BILLING_CHANGE'', ''EXTERNAL_API_CALL''],
     et_Idempotency := launchIdempotency ''reconcile_then_return_existing'',
     et_Classification := \<lparr>cl_Reversibility = ''compensatable'', cl_BlastRadius = ''system_wide'', cl_Urgency = ''time_sensitive''\<rparr>,
     et_DefaultApprovalLevel := ''single_human'',
     et_RequiresEvidence := True,
     et_CompensationRequired := False,
     et_CompensationEffectType := EffectTypeProviderTeardown,
     et_CompensationAuthorization := ''fresh_dual_control_only_no_preauthorization'',
     et_InputSchema := ''effects/launch/provider_provision.v1.json'',
     et_AuthorizationEnvelopeSchema := launchAuthorizationEnvelopeSchema,
     et_ReceiptSchema := launchReceiptSchema,
     et_ConnectorID := LaunchConnectorProviderRoute,
     et_ActionURN := LaunchActionProviderProvision,
     et_PreflightRequired := True,
     et_TwoPhaseCommitRequired := True,
     et_MinEvidenceGrade := ''E3'',
     et_PolicyHooks := (commonHooks @ [''spend_authority'', ''provider_reconciliation'', ''failure_freeze_until_fresh_teardown''])\<rparr>"

definition preview_DeployProductionActivate :: effect_type where
  "preview_DeployProductionActivate = zero_effect_type
    \<lparr>et_TypeID := EffectTypeDeployProductionActivate,
     et_Name := ''Production Deployment Activate'',
     et_Description := ''Cuts over one immutable, verified deployment; it grants no standing or deployment-on-push authority.'',
     et_Status := LaunchEffectStatusPreview,
     et_Taxon := ''E3'',
     et_BaseEffectTypes := [''DEPLOY_RELEASE'', ''CONFIG_CHANGE''],
     et_Idempotency := launchIdempotency ''reconcile_then_return_existing'',
     et_Classification := \<lparr>cl_Reversibility = ''compensatable'', cl_BlastRadius = ''system_wide'', cl_Urgency = ''time_sensitive''\<rparr>,
     et_DefaultApprovalLevel := ''single_human'',
     et_RequiresEvidence := True,
     et_CompensationRequired := True,
     et_CompensationEffectType := EffectTypeProviderRollback,
     et_CompensationAuthorization := ''preauthorized_exact_target_or_fresh_single_human'',
     et_InputSchema := ''effects/launch/deploy_production_activate.v1.json'',
     et_AuthorizationEnvelopeSchema := launchAuthorizationEnvelopeSchema,
     et_ReceiptSchema := launchReceiptSchema,
     et_ConnectorID := LaunchConnectorProviderRoute,
     et_ActionURN := LaunchActionDeployProductionActivate,
     et_PreflightRequired := True,
     et_TwoPhaseCommitRequired := True,
     et_MinEvidenceGrade := ''E3'',
     et_PolicyHooks := (commonHooks @ [''release_authority'', ''provider_reconciliation'', ''rollback_target_binding''])\<rparr>"

definition preview_SpendAuthorize :: effect_type where
  "preview_SpendAuthorize = zero_effect_type
    \<lparr>et_TypeID := EffectTypeSpendAuthorize,
     et_Name := ''Spend Authorize'',
     et_Description := ''Records a bounded, expiring monthly spend authorization for customer-owned billing; it never moves, holds, or commits customer funds.'',
     et_Status := LaunchEffectStatusPreview,
     et_Taxon := ''E3'',
     et_BaseEffectTypes := [''BILLING_CHANGE''],
     et_Idempotency := launchIdempotency ''return_existing'',
     et_Classification := \<lparr>cl_Reversibility = ''reversible'', cl_BlastRadius = ''system_wide'', cl_Urgency = ''time_sensitive''\<rparr>,
     et_DefaultApprovalLevel := ''single_human'',
     et_RequiresEvidence := True,
     et_CompensationRequired := False,
     et_CompensationAuthorization := ''expiry_or_explicit_revoke'',
     et_InputSchema := ''effects/launch/spend_authorize.v1.json'',
     et_AuthorizationEnvelopeSchema := launchAuthorizationEnvelopeSchema,
     et_ReceiptSchema := launchReceiptSchema,
     et_ConnectorID := LaunchConnectorSpendAuthority,
     et_ActionURN := LaunchActionSpendAuthorize,
     et_PreflightRequired := True,
     et_TwoPhaseCommitRequired := True,
     et_MinEvidenceGrade := ''E3'',
     et_PolicyHooks := (commonHooks @ [''spend_authority'', ''provider_terms'', ''monthly_gross_cap''])\<rparr>"

definition preview_ProviderRollback :: effect_type where
  "preview_ProviderRollback = zero_effect_type
    \<lparr>et_TypeID := EffectTypeProviderRollback,
     et_Name := ''Provider Rollback'',
     et_Description := ''Restores one exact immutable deployment using compare-and-set source and target state bindings.'',
     et_Status := LaunchEffectStatusPreview,
     et_Taxon := ''E3'',
     et_BaseEffectTypes := [''DEPLOY_RELEASE'', ''INFRA_CHANGE''],
     et_Idempotency := launchIdempotency ''reconcile_then_return_existing'',
     et_Classification := \<lparr>cl_Reversibility = ''compensatable'', cl_BlastRadius = ''system_wide'', cl_Urgency = ''immediate''\<rparr>,
     et_DefaultApprovalLevel := ''single_human'',
     et_RequiresEvidence := True,
     et_CompensationRequired := False,
     et_CompensationAuthorization := ''compensation_terminal_or_fresh_activation'',
     et_InputSchema := ''effects/launch/provider_rollback.v1.json'',
     et_AuthorizationEnvelopeSchema := launchAuthorizationEnvelopeSchema,
     et_ReceiptSchema := launchReceiptSchema,
     et_ConnectorID := LaunchConnectorProviderRoute,
     et_ActionURN := LaunchActionProviderRollback,
     et_PreflightRequired := True,
     et_TwoPhaseCommitRequired := True,
     et_MinEvidenceGrade := ''E3'',
     et_PolicyHooks := (commonHooks @ [''release_authority'', ''provider_reconciliation'', ''compare_and_set_state''])\<rparr>"

definition preview_ProviderTeardown :: effect_type where
  "preview_ProviderTeardown = zero_effect_type
    \<lparr>et_TypeID := EffectTypeProviderTeardown,
     et_Name := ''Provider Teardown'',
     et_Description := ''Deletes only the exact mission-owned resource after fresh dual-control approval and destructive-state clearance.'',
     et_Status := LaunchEffectStatusPreview,
     et_Taxon := ''E4'',
     et_BaseEffectTypes := [''DATA_DELETE'', ''INFRA_CHANGE'', ''BILLING_CHANGE''],
     et_Idempotency := launchIdempotency ''reconcile_then_return_existing'',
     et_Classification := \<lparr>cl_Reversibility = ''irreversible'', cl_BlastRadius = ''system_wide'', cl_Urgency = ''time_sensitive''\<rparr>,
     et_DefaultApprovalLevel := ''dual_control'',
     et_RequiresEvidence := True,
     et_CompensationRequired := False,
     et_CompensationAuthorization := ''none_irreversible'',
     et_InputSchema := ''effects/launch/provider_teardown.v1.json'',
     et_AuthorizationEnvelopeSchema := launchAuthorizationEnvelopeSchema,
     et_ReceiptSchema := launchReceiptSchema,
     et_ConnectorID := LaunchConnectorProviderRoute,
     et_ActionURN := LaunchActionProviderTeardown,
     et_PreflightRequired := True,
     et_TwoPhaseCommitRequired := True,
     et_MinEvidenceGrade := ''E3'',
     et_PolicyHooks := (commonHooks @ [''fresh_dual_control'', ''ownership_proof'', ''retention_clearance'', ''provider_reconciliation''])\<rparr>"

definition preview_CompanyArtifactUpdate :: effect_type where
  "preview_CompanyArtifactUpdate = zero_effect_type
    \<lparr>et_TypeID := EffectTypeCompanyArtifactUpdate,
     et_Name := ''Company Artifact Update'',
     et_Description := ''Promotes a reconciled mission result into company state using an exact compare-and-set revision.'',
     et_Status := LaunchEffectStatusPreview,
     et_Taxon := ''E2'',
     et_BaseEffectTypes := [''DATA_WRITE''],
     et_Idempotency := launchIdempotency ''return_existing'',
     et_Classification := \<lparr>cl_Reversibility = ''reversible'', cl_BlastRadius = ''dataset'', cl_Urgency = ''deferrable''\<rparr>,
     et_DefaultApprovalLevel := ''single_human'',
     et_RequiresEvidence := True,
     et_CompensationRequired := True,
     et_CompensationEffectType := EffectTypeCompanyArtifactUpdate,
     et_CompensationAuthorization := ''fresh_single_human_compare_and_set'',
     et_InputSchema := ''effects/launch/company_artifact_update.v1.json'',
     et_AuthorizationEnvelopeSchema := launchAuthorizationEnvelopeSchema,
     et_ReceiptSchema := launchReceiptSchema,
     et_ConnectorID := LaunchConnectorCompanyState,
     et_ActionURN := LaunchActionCompanyArtifactUpdate,
     et_PreflightRequired := True,
     et_TwoPhaseCommitRequired := True,
     et_MinEvidenceGrade := ''E2'',
     et_PolicyHooks := (commonHooks @ [''mission_reconciliation'', ''artifact_compare_and_set'', ''evidence_pack_finalized''])\<rparr>"

definition LaunchMissionEffectCatalogPreview :: effect_type_catalog where
  "LaunchMissionEffectCatalogPreview = \<lparr>ct_CatalogVersion = LaunchEffectCatalogVersion, ct_EffectTypes =
    [preview_ProviderProvision, preview_DeployProductionActivate, preview_SpendAuthorize,
     preview_ProviderRollback, preview_ProviderTeardown, preview_CompanyArtifactUpdate]\<rparr>"

lemmas preview_defs = LaunchMissionEffectCatalogPreview_def zero_effect_type_def
  preview_ProviderProvision_def preview_DeployProductionActivate_def preview_SpendAuthorize_def
  preview_ProviderRollback_def preview_ProviderTeardown_def preview_CompanyArtifactUpdate_def

definition LookupLaunchMissionEffectPreview :: "string \<Rightarrow> effect_type option" where
  "LookupLaunchMissionEffectPreview typeID = find_type typeID (ct_EffectTypes LaunchMissionEffectCatalogPreview)"

definition IsLaunchMissionEffectPreview :: "string \<Rightarrow> bool" where
  "IsLaunchMissionEffectPreview typeID \<longleftrightarrow> LookupLaunchMissionEffectPreview typeID \<noteq> None"

section \<open>What the effect boundary admits\<close>

definition boundary_types :: "string list" where
  "boundary_types = [''DATA_WRITE'', ''FUNDS_TRANSFER'', ''PERMISSION_CHANGE'', ''DEPLOY'', ''NOTIFY'', ''MODULE_INSTALL'', ''CONFIG_CHANGE'',
     ''AUDIT_LOG'', ''EXTERNAL_API_CALL'']"

definition IsExecutableEffectType :: "string \<Rightarrow> bool" where
  "IsExecutableEffectType effectType =
     (if IsLaunchMissionEffectPreview effectType then False
      else if LookupEffectType effectType \<noteq> None then True
      else effectType \<in> set boundary_types)"

section \<open>Lemmas\<close>

lemma find_type_Some: "find_type i ts = Some t \<Longrightarrow> t \<in> set ts \<and> et_TypeID t = i"
  by (induction ts) (auto split: if_splits)

lemma find_type_None: "find_type i ts = None \<longleftrightarrow> i \<notin> et_TypeID ` set ts"
  by (induction ts) auto

lemma find_type_entry: "distinct (map et_TypeID ts) \<Longrightarrow> t \<in> set ts \<Longrightarrow> find_type (et_TypeID t) ts = Some t"
  by (induction ts) auto

lemma catalog_ids:
  "map et_TypeID (ct_EffectTypes DefaultEffectCatalog) =
    [EffectTypeInfraDestroy, EffectTypeEnvRecreate, EffectTypeProtectedInfraWrite,
     EffectTypeCICredentialAccess, EffectTypeSoftwarePublish, EffectTypeAgentInvokePrivileged,
     EffectTypeAgentIdentityIsolation, EffectTypeDataEgress, EffectTypeTunnelStart,
     EffectTypeCloudComputeBudget, EffectTypeSendEmail, EffectTypeSendChatMessage, EffectTypeCreateCalEvent,
     EffectTypeUpdateDoc, EffectTypeCreateTask, EffectTypeCommentTicket, EffectTypeScreenCandidate,
     EffectTypeRequestPurchase, EffectTypeExecutePayment, EffectTypeCallWebhook, EffectTypeRunSandboxedCode]"
  by (simp add: catalog_defs)

lemma preview_ids:
  "map et_TypeID (ct_EffectTypes LaunchMissionEffectCatalogPreview) =
    [EffectTypeProviderProvision, EffectTypeDeployProductionActivate, EffectTypeSpendAuthorize,
     EffectTypeProviderRollback, EffectTypeProviderTeardown, EffectTypeCompanyArtifactUpdate]"
  by (simp add: preview_defs)

lemma catalog_ids_distinct:
  "distinct (map et_TypeID (ct_EffectTypes DefaultEffectCatalog @ ct_EffectTypes LaunchMissionEffectCatalogPreview))"
  unfolding map_append catalog_ids preview_ids effect_ids by code_simp

lemma irreversible_types:
  "\<forall>t \<in> set (ct_EffectTypes DefaultEffectCatalog). cl_Reversibility (et_Classification t) = ''irreversible'' \<longrightarrow>
     et_RequiresEvidence t \<and> et_DefaultApprovalLevel t \<in> {''single_human'', ''dual_control''}"
  by (simp add: catalog_defs)

lemma critical_types:
  "\<forall>t \<in> set (ct_EffectTypes DefaultEffectCatalog). EffectRiskClass (et_TypeID t) = ''E4'' \<longrightarrow>
     et_RequiresEvidence t \<and> et_DefaultApprovalLevel t = ''dual_control''"
  by (simp add: catalog_defs EffectRiskClass_def effect_ids)

lemma preview_taxon:
  "\<forall>t \<in> set (ct_EffectTypes LaunchMissionEffectCatalogPreview). et_Taxon t = EffectRiskClass (et_TypeID t)"
  by (simp add: preview_defs EffectRiskClass_def effect_ids)

lemma preview_iff: "IsLaunchMissionEffectPreview i \<longleftrightarrow> i \<in> et_TypeID ` set (ct_EffectTypes LaunchMissionEffectCatalogPreview)"
  by (simp add: IsLaunchMissionEffectPreview_def LookupLaunchMissionEffectPreview_def find_type_None)

lemma lookup_iff: "LookupEffectType i \<noteq> None \<longleftrightarrow> i \<in> et_TypeID ` set (ct_EffectTypes DefaultEffectCatalog)"
  by (simp add: LookupEffectType_def find_type_None)

lemma boundary_types_not_preview: "i \<in> set boundary_types \<Longrightarrow> \<not> IsLaunchMissionEffectPreview i"
  unfolding preview_iff set_map [symmetric] preview_ids by (auto simp: boundary_types_def effect_ids)

lemma catalogue_not_preview: "i \<in> et_TypeID ` set (ct_EffectTypes DefaultEffectCatalog) \<Longrightarrow> \<not> IsLaunchMissionEffectPreview i"
  using catalog_ids_distinct unfolding preview_iff by auto

section \<open>Properties\<close>

text \<open>
  The boundary admits exactly the types of the default catalogue and its own nine, and no preview type. A catalogued type is found under
  its identifier; when it is irreversible or of the critical class it asks for evidence and a human approval. A preview type is
  absent from the default catalogue and its taxon is its risk class.
\<close>

theorem effect_types_admitted:
  "(IsExecutableEffectType i \<longleftrightarrow> i \<in> et_TypeID ` set (ct_EffectTypes DefaultEffectCatalog) \<or> i \<in> set boundary_types) \<and>
   (\<forall>t \<in> set (ct_EffectTypes DefaultEffectCatalog). LookupEffectType (et_TypeID t) = Some t \<and>
      (cl_Reversibility (et_Classification t) = ''irreversible'' \<or> EffectRiskClass (et_TypeID t) = ''E4'' \<longrightarrow>
         et_RequiresEvidence t \<and> et_DefaultApprovalLevel t \<in> {''single_human'', ''dual_control''})) \<and>
   (\<forall>t \<in> set (ct_EffectTypes LaunchMissionEffectCatalogPreview).
      \<not> IsExecutableEffectType (et_TypeID t) \<and> LookupEffectType (et_TypeID t) = None \<and> et_Taxon t = EffectRiskClass (et_TypeID t))"
proof (intro conjI ballI)
  show "IsExecutableEffectType i \<longleftrightarrow> i \<in> et_TypeID ` set (ct_EffectTypes DefaultEffectCatalog) \<or> i \<in> set boundary_types"
    using catalogue_not_preview [of i] boundary_types_not_preview [of i] lookup_iff [of i] by (auto simp: IsExecutableEffectType_def)
next
  fix t
  assume t: "t \<in> set (ct_EffectTypes DefaultEffectCatalog)"
  show "LookupEffectType (et_TypeID t) = Some t"
    unfolding LookupEffectType_def by (rule find_type_entry [OF _ t]) (use catalog_ids_distinct in simp)
  show "cl_Reversibility (et_Classification t) = ''irreversible'' \<or> EffectRiskClass (et_TypeID t) = ''E4'' \<longrightarrow>
      et_RequiresEvidence t \<and> et_DefaultApprovalLevel t \<in> {''single_human'', ''dual_control''}"
    using irreversible_types [THEN bspec, OF t] critical_types [THEN bspec, OF t] by blast
next
  fix t
  assume t: "t \<in> set (ct_EffectTypes LaunchMissionEffectCatalogPreview)"
  then have "IsLaunchMissionEffectPreview (et_TypeID t)" by (auto simp: preview_iff)
  then show "\<not> IsExecutableEffectType (et_TypeID t)" by (simp add: IsExecutableEffectType_def)
  show "LookupEffectType (et_TypeID t) = None" using t catalogue_not_preview [of "et_TypeID t"] lookup_iff [of "et_TypeID t"] by (auto simp: preview_iff)
  show "et_Taxon t = EffectRiskClass (et_TypeID t)" using preview_taxon t by blast
qed

theorem effect_types_admitted_witness:
  "LookupEffectType ''INFRA_DESTROY'' = Some cat_InfraDestroy \<and> \<not> IsExecutableEffectType ''PROVIDER_TEARDOWN''"
proof -
  have "cat_InfraDestroy \<in> set (ct_EffectTypes DefaultEffectCatalog)" by (simp add: DefaultEffectCatalog_def)
  moreover have "preview_ProviderTeardown \<in> set (ct_EffectTypes LaunchMissionEffectCatalogPreview)" by (simp add: LaunchMissionEffectCatalogPreview_def)
  ultimately have "LookupEffectType (et_TypeID cat_InfraDestroy) = Some cat_InfraDestroy" "\<not> IsExecutableEffectType (et_TypeID preview_ProviderTeardown)"
    using effect_types_admitted by blast+
  then show ?thesis by (simp add: cat_InfraDestroy_def preview_ProviderTeardown_def effect_ids)
qed

section \<open>A divergence\<close>

text \<open>Class E4 is documented as ``critical / irreversible'', but a catalogued irreversible type is in class E2.\<close>

lemma webhook_irreversible_but_medium:
  "cl_Reversibility (et_Classification cat_CallWebhook) = ''irreversible'' \<and> EffectRiskClass (et_TypeID cat_CallWebhook) = ''E2''"
  by (simp add: cat_CallWebhook_def EffectRiskClass_def effect_ids)

end
