(* ===== verification/Event_Log.thy ===== *)
theory Event_Log
  imports Contracts
begin

text \<open>
  The authoritative event log, \<^verbatim>\<open>core/pkg/kernel/event_log.go\<close>. The canonical hash of a value (\<^verbatim>\<open>canonicalize.CanonicalHash\<close>) is a
  parameter. The lemmas give the numbering of the log, what the readers return and what the cumulative hash binds.
\<close>

section \<open>Data\<close>

record CausationContext =
  cx_ParentEventID :: string
  cx_CorrelationID :: string
  cx_CausationChain :: "string list"

record EntropyContext =
  nx_Seed :: string
  nx_PRNGAlgorithm :: string
  nx_LoopID :: string

record EventEnvelope =
  en_EventID :: string
  en_EventType :: string
  en_SequenceNumber :: "64 word"
  en_ObservedAt :: gotime
  en_ReceivedAt :: gotime
  en_CommittedAt :: gotime
  en_PayloadHash :: string
  en_Payload :: gctx
  en_Causation :: "CausationContext option"
  en_Entropy :: "EntropyContext option"

record InMemoryEventLog =
  lg_events :: "EventEnvelope list"
  lg_sequenceNumber :: "64 word"
  lg_cumulativeHash :: string

type_synonym canonical_hash = "gval \<Rightarrow> (string, string) res"

definition NewInMemoryEventLog :: InMemoryEventLog where
  "NewInMemoryEventLog = \<lparr>lg_events = [], lg_sequenceNumber = 0, lg_cumulativeHash = []\<rparr>"

datatype event_log_error = PayloadHashFailed string | EventHashFailed string | EventNotFound "64 word" | InvalidRange "64 word" "64 word"

section \<open>Operations\<close>

definition payload_value :: "gctx \<Rightarrow> gval" where
  "payload_value c = (case c of None \<Rightarrow> GNil | Some m \<Rightarrow> GMap m)"

text \<open>The value whose hash becomes the next cumulative hash.\<close>

definition link_value :: "string \<Rightarrow> 64 word \<Rightarrow> string \<Rightarrow> string \<Rightarrow> gval" where
  "link_value eventID seq payloadHash previous =
     GMap [(''event_id'', GStr eventID), (''sequence_number'', GInt (uint seq)), (''payload_hash'', GStr payloadHash), (''previous_hash'', GStr previous)]"

definition Log_Append :: "canonical_hash \<Rightarrow> gotime \<Rightarrow> EventEnvelope \<Rightarrow> InMemoryEventLog \<Rightarrow> InMemoryEventLog \<times> (event_log_error, 64 word) res" where
  "Log_Append canonicalHash now event l =
     (let l = l\<lparr>lg_sequenceNumber := lg_sequenceNumber l + 1\<rparr>;
          event = event\<lparr>en_SequenceNumber := lg_sequenceNumber l, en_CommittedAt := now\<rparr> in
      case canonicalHash (payload_value (en_Payload event)) of
        Inl e \<Rightarrow> (l, Err (PayloadHashFailed e))
      | Inr payloadHash \<Rightarrow>
          let event = event\<lparr>en_PayloadHash := payloadHash\<rparr> in
          case canonicalHash (link_value (en_EventID event) (en_SequenceNumber event) payloadHash (lg_cumulativeHash l)) of
            Inl e \<Rightarrow> (l, Err (EventHashFailed e))
          | Inr eventHash \<Rightarrow> (l\<lparr>lg_cumulativeHash := eventHash, lg_events := lg_events l @ [event]\<rparr>, Ok (en_SequenceNumber event)))"

definition Log_Get :: "64 word \<Rightarrow> InMemoryEventLog \<Rightarrow> (event_log_error, EventEnvelope) res" where
  "Log_Get seq l =
     (if seq = 0 \<or> seq > of_nat (length (lg_events l)) then Err (EventNotFound seq) else Ok (lg_events l ! (unat seq - 1)))"

definition Log_Range :: "64 word \<Rightarrow> 64 word \<Rightarrow> InMemoryEventLog \<Rightarrow> (event_log_error, EventEnvelope list) res" where
  "Log_Range start stop l =
     (if start = 0 \<or> start > stop then Err (InvalidRange start stop)
      else let maxSeq = of_nat (length (lg_events l)) in
        if start > maxSeq then Ok []
        else let stop = (if stop > maxSeq then maxSeq else stop) in
          Ok (drop (unat start - 1) (take (unat stop) (lg_events l))))"

definition LastSequence :: "InMemoryEventLog \<Rightarrow> 64 word" where
  "LastSequence l = lg_sequenceNumber l"

definition Log_Hash :: "InMemoryEventLog \<Rightarrow> string" where
  "Log_Hash l = lg_cumulativeHash l"

section \<open>Numbering\<close>

text \<open>
  A history of calls: the events with their commit times, in order. Calls whose hash fails are in it as well.
\<close>

fun append_events :: "canonical_hash \<Rightarrow> (gotime \<times> EventEnvelope) list \<Rightarrow> InMemoryEventLog \<Rightarrow> InMemoryEventLog" where
  "append_events h [] l = l"
| "append_events h ((now, e) # es) l = append_events h es (fst (Log_Append h now e l))"

lemma append_events_append [simp]: "append_events h (es @ fs) l = append_events h fs (append_events h es l)"
  by (induction h es l rule: append_events.induct) auto

definition committed :: "canonical_hash \<Rightarrow> 64 word \<Rightarrow> gotime \<times> EventEnvelope \<Rightarrow> EventEnvelope" where
  "committed h n x = (case x of (now, e) \<Rightarrow>
     e\<lparr>en_SequenceNumber := n, en_CommittedAt := now,
       en_PayloadHash := (case h (payload_value (en_Payload e)) of Inl _ \<Rightarrow> en_PayloadHash e | Inr d \<Rightarrow> d)\<rparr>)"

definition total_hash :: "canonical_hash \<Rightarrow> bool" where
  "total_hash h \<longleftrightarrow> (\<forall>v. is_ok (h v))"

lemma append_total:
  assumes "total_hash h"
  obtains d where
    "h (link_value (en_EventID e) (lg_sequenceNumber l + 1) (en_PayloadHash (committed h (lg_sequenceNumber l + 1) (now, e))) (lg_cumulativeHash l)) = Ok d"
    "Log_Append h now e l =
       (l\<lparr>lg_sequenceNumber := lg_sequenceNumber l + 1, lg_cumulativeHash := d,
          lg_events := lg_events l @ [committed h (lg_sequenceNumber l + 1) (now, e)]\<rparr>, Ok (lg_sequenceNumber l + 1))"
proof -
  obtain p where p: "h (payload_value (en_Payload e)) = Ok p" using assms by (auto simp: total_hash_def is_ok_iff)
  obtain d where d: "h (link_value (en_EventID e) (lg_sequenceNumber l + 1) p (lg_cumulativeHash l)) = Ok d" using assms by (auto simp: total_hash_def is_ok_iff)
  show ?thesis by (rule that [of d]) (simp_all add: committed_def Log_Append_def p d Let_def)
qed

lemma append_events_events:
  assumes "total_hash h"
  shows "lg_events (append_events h es NewInMemoryEventLog) = map (\<lambda>i. committed h (of_nat (Suc i)) (es ! i)) [0..<length es] \<and>
    lg_sequenceNumber (append_events h es NewInMemoryEventLog) = of_nat (length es)"
proof (induction es rule: rev_induct)
  case Nil
  then show ?case by (simp add: NewInMemoryEventLog_def)
next
  case (snoc x es)
  obtain now e where x: "x = (now, e)" by fastforce
  let ?l = "append_events h es NewInMemoryEventLog"
  obtain d where "Log_Append h now e ?l = (?l\<lparr>lg_sequenceNumber := lg_sequenceNumber ?l + 1, lg_cumulativeHash := d,
      lg_events := lg_events ?l @ [committed h (lg_sequenceNumber ?l + 1) (now, e)]\<rparr>, Ok (lg_sequenceNumber ?l + 1))"
    using append_total [OF assms] by metis
  then show ?case using snoc by (simp add: x nth_append add.commute)
qed

lemma unat_small: "n < 2 ^ 64 \<Longrightarrow> unat (of_nat n :: 64 word) = n"
  by (simp add: unat_of_nat)

section \<open>What the cumulative hash binds\<close>

text \<open>The identities and payload hashes of a log, and the hash a list of them gives.\<close>

definition marks :: "EventEnvelope list \<Rightarrow> (string \<times> 64 word \<times> string) list" where
  "marks = map (\<lambda>e. (en_EventID e, en_SequenceNumber e, en_PayloadHash e))"

definition links :: "(string \<times> 64 word \<times> string) \<Rightarrow> string \<Rightarrow> gval" where
  "links m prev = (case m of (i, n, p) \<Rightarrow> link_value i n p prev)"

definition chain_hash :: "canonical_hash \<Rightarrow> (string \<times> 64 word \<times> string) list \<Rightarrow> string" where
  "chain_hash h ms = fold (\<lambda>m prev. case h (links m prev) of Inl _ \<Rightarrow> prev | Inr d \<Rightarrow> d) ms []"

lemma chain_hash_snoc: "chain_hash h (ms @ [m]) = (case h (links m (chain_hash h ms)) of Inl _ \<Rightarrow> chain_hash h ms | Inr d \<Rightarrow> d)"
  by (simp add: chain_hash_def split: sum.split)

lemma append_events_hash:
  assumes "total_hash h"
  shows "lg_cumulativeHash (append_events h es NewInMemoryEventLog) = chain_hash h (marks (lg_events (append_events h es NewInMemoryEventLog)))"
proof (induction es rule: rev_induct)
  case Nil
  then show ?case by (simp add: NewInMemoryEventLog_def chain_hash_def marks_def)
next
  case (snoc x es)
  obtain now e where x: "x = (now, e)" by fastforce
  let ?l = "append_events h es NewInMemoryEventLog" and ?c = "committed h (lg_sequenceNumber (append_events h es NewInMemoryEventLog) + 1) (now, e)"
  obtain d where d: "h (link_value (en_EventID e) (lg_sequenceNumber ?l + 1) (en_PayloadHash ?c) (lg_cumulativeHash ?l)) = Ok d"
    and ap: "Log_Append h now e ?l = (?l\<lparr>lg_sequenceNumber := lg_sequenceNumber ?l + 1, lg_cumulativeHash := d, lg_events := lg_events ?l @ [?c]\<rparr>, Ok (lg_sequenceNumber ?l + 1))"
    by (rule append_total [OF assms])
  have "links (en_EventID ?c, en_SequenceNumber ?c, en_PayloadHash ?c) (lg_cumulativeHash ?l) =
      link_value (en_EventID e) (lg_sequenceNumber ?l + 1) (en_PayloadHash ?c) (lg_cumulativeHash ?l)"
    by (simp add: links_def committed_def)
  then show ?case using d snoc by (simp add: x ap marks_def chain_hash_snoc)
qed

text \<open>The values hashed on the way.\<close>

fun link_inputs :: "canonical_hash \<Rightarrow> (string \<times> 64 word \<times> string) list \<Rightarrow> gval set" where
  "link_inputs h ms = (\<lambda>i. links (ms ! i) (chain_hash h (take i ms))) ` {..< length ms}"

lemma link_inputs_snoc: "link_inputs h (ms @ [m]) = insert (links m (chain_hash h ms)) (link_inputs h ms)"
  by (auto simp: nth_append lessThan_Suc intro!: image_eqI)

declare link_inputs.simps [simp del]

lemma links_inj: "links m a = links n b \<Longrightarrow> m = n \<and> a = b"
  by (auto simp: links_def link_value_def word_uint_eq_iff split: prod.splits)

lemma chain_hash_binds:
  assumes "total_hash h" "inj_on h (link_inputs h ms \<union> link_inputs h ns)" "length ms = length ns" "chain_hash h ms = chain_hash h ns"
  shows "ms = ns"
  using assms(2-4)
proof (induction ms ns rule: rev_induct2)
  case (4 m ms n ns)
  obtain c d where c: "h (links m (chain_hash h ms)) = Ok c" and d: "h (links n (chain_hash h ns)) = Ok d"
    using assms(1) by (metis is_ok_iff total_hash_def)
  then have "c = d" using "4.prems"(3) by (simp add: chain_hash_snoc)
  then have "links m (chain_hash h ms) = links n (chain_hash h ns)" by (intro inj_onD [OF "4.prems"(1)]) (use c d in \<open>auto simp: link_inputs_snoc\<close>)
  then have "m = n" "chain_hash h ms = chain_hash h ns" using links_inj by blast+
  moreover have "inj_on h (link_inputs h ms \<union> link_inputs h ns)" using "4.prems"(1) by (rule inj_on_subset) (auto simp: link_inputs_snoc)
  ultimately show ?case using "4.IH" "4.prems"(2) by simp
qed simp_all

section \<open>Properties\<close>

text \<open>
  While payloads can be hashed, the log numbers events 1, 2, 3, ... in the order of the calls, every number up to the last one reads
  back the event committed under it, and numbers beyond it are not found.
\<close>

theorem event_log_reads_back:
  assumes "total_hash h" "length es < 2 ^ 64" "l = append_events h es NewInMemoryEventLog"
  shows "LastSequence l = of_nat (length es) \<and>
    (\<forall>n. Log_Get n l = (if n = 0 \<or> length es < unat n then Err (EventNotFound n) else Ok (committed h n (es ! (unat n - 1)))))"
proof -
  note ev = append_events_events [OF assms(1), of es, folded assms(3)]
  have len: "length (lg_events l) = length es" using ev by simp
  have gt: "n > of_nat (length es) \<longleftrightarrow> length es < unat n" for n :: "64 word"
    using unat_small [OF assms(2)] by (simp add: word_less_nat_alt)
  have "committed h (of_nat (Suc (unat n - 1))) (es ! (unat n - 1)) = committed h n (es ! (unat n - 1))" if "n \<noteq> 0" for n :: "64 word"
    using that by (simp add: unat_gt_0 del: of_nat_Suc)
  moreover have "unat n - 1 < length es" if "n \<noteq> 0" "\<not> length es < unat n" for n :: "64 word"
    using that unat_gt_0 [of n] by linarith
  ultimately show ?thesis using ev by (auto simp: Log_Get_def LastSequence_def len gt simp del: of_nat_Suc)
qed

text \<open>
  Two logs of the same length with the same cumulative hash hold events with the same identifiers, numbers and payload
  hashes, unless two of the values hashed for their chains collide.
\<close>

theorem event_log_hash_binds:
  assumes "total_hash h" "length es = length fs" "l = append_events h es NewInMemoryEventLog" "l' = append_events h fs NewInMemoryEventLog"
    "Log_Hash l = Log_Hash l'" "inj_on h (link_inputs h (marks (lg_events l)) \<union> link_inputs h (marks (lg_events l')))"
  shows "marks (lg_events l) = marks (lg_events l')"
proof (rule chain_hash_binds [OF assms(1,6)])
  show "chain_hash h (marks (lg_events l)) = chain_hash h (marks (lg_events l'))" using assms(3-5) append_events_hash [OF assms(1)] by (simp add: Log_Hash_def)
  show "length (marks (lg_events l)) = length (marks (lg_events l'))" using append_events_events [OF assms(1)] assms(2-4) by (simp add: marks_def)
qed

definition w_ev :: "string \<Rightarrow> EventEnvelope" where
  "w_ev i = \<lparr>en_EventID = i, en_EventType = ''t'', en_SequenceNumber = 0, en_ObservedAt = 1, en_ReceivedAt = 2, en_CommittedAt = 0, en_PayloadHash = [],
     en_Payload = None, en_Causation = None, en_Entropy = None\<rparr>"

theorem event_log_reads_back_witness:
  "en_EventID (projr (Log_Get 2 (append_events (\<lambda>_. Ok ''h'') [(5, w_ev ''a''), (6, w_ev ''b'')] NewInMemoryEventLog))) = ''b''"
  using event_log_reads_back [of "\<lambda>_. Ok ''h''" "[(5, w_ev ''a''), (6, w_ev ''b'')]", OF _ _ refl]
  by (simp add: total_hash_def committed_def w_ev_def)

section \<open>A divergence\<close>

text \<open>
  A payload that cannot be hashed uses up a sequence number without an event, so every later event is found under a number one below its
  own, and the last sequence number is not found.
\<close>

lemma failed_append_shifts_numbers:
  assumes "h (GMap []) = Err e" "h GNil = Ok p" "\<forall>n. h (link_value ''b'' n p []) = Ok d"
    "l = append_events h [(5, w_ev ''a''\<lparr>en_Payload := Some []\<rparr>), (6, w_ev ''b'')] NewInMemoryEventLog"
  shows "LastSequence l = 2 \<and> Log_Get 2 l = Err (EventNotFound 2) \<and> en_SequenceNumber (projr (Log_Get 1 l)) = 2"
  using assms by (simp add: Log_Append_def NewInMemoryEventLog_def w_ev_def payload_value_def LastSequence_def Log_Get_def)

end
