(* ===== verification/Effect_Boundary.thy ===== *)
theory Effect_Boundary
  imports Effect_Catalog Event_Log
begin

text \<open>
  The effect boundary of the kernel, \<^verbatim>\<open>core/pkg/kernel/effect_boundary.go\<close>, with the adapter that asks the governance policy decision point
  (\<^verbatim>\<open>pdp_adapter.go\<close>). The policy decision point, hashes, fresh identifiers and clocks are parameters. The lemmas give the life cycle of an
  effect over sequences of calls and what an idempotency key promises.
\<close>

section \<open>Data\<close>

record EffectSubject =
  bs_SubjectID :: string
  bs_SubjectType :: string
  bs_SessionID :: string
  bs_AttestationRef :: string

record EffectPayload =
  bp_PayloadHash :: string
  bp_Data :: gctx

record IdempotencyConfig =
  bk_Key :: string
  bk_KeyDerivation :: string
  bk_WindowSeconds :: int

record EffectContext =
  bx_ModeID :: string
  bx_LoopID :: string
  bx_PhenotypeHash :: string
  bx_EnvironmentID :: string

record EffectRequest =
  br_EffectID :: string
  br_EffectType :: string
  br_SubmittedAt :: gotime
  br_Subject :: EffectSubject
  br_Payload :: EffectPayload
  br_Idempotency :: "IdempotencyConfig option"
  br_Context :: "EffectContext option"

record EffectLifecycle =
  lc_State :: string
  lc_PDPDecisionID :: string
  lc_ExecutedAt :: gotime
  lc_CompletedAt :: gotime
  lc_EvidencePackID :: string

text \<open>An evaluator returns decision and decision id, or an error.\<close>

type_synonym PDPEvaluator = "EffectRequest \<Rightarrow> (string, string \<times> string) res"

record InMemoryEffectBoundary =
  eb_effects :: "(string, EffectRequest) gomap"
  eb_lifecycles :: "(string, EffectLifecycle) gomap"
  eb_idempotencyLog :: "(string, string) gomap"
  eb_eventLog :: "InMemoryEventLog option"

definition NewInMemoryEffectBoundary :: "InMemoryEventLog option \<Rightarrow> InMemoryEffectBoundary" where
  "NewInMemoryEffectBoundary eventLog = \<lparr>eb_effects = [], eb_lifecycles = [], eb_idempotencyLog = [], eb_eventLog = eventLog\<rparr>"

datatype boundary_error =
    EffectTypeRequired | NotExecutable string | SubjectRequired | HashFailed string | PDPFailed string
  | EffectNotFound string | CannotExecute string

text \<open>What a call of \<^verbatim>\<open>Submit\<close> finds outside: fresh identifiers, clock readings, the two hashes and the evaluator (\<open>None\<close>: nil).\<close>

record submit_env =
  sx_newID :: string
  sx_now :: gotime
  sx_eventID :: string
  sx_receivedAt :: gotime
  sx_committedAt :: gotime
  sx_payloadHash :: "(string, gval) gomap \<Rightarrow> (string, string) res"
  sx_canonicalHash :: canonical_hash
  sx_pdp :: "PDPEvaluator option"

section \<open>Submission\<close>

text \<open>\<^verbatim>\<open>Submit\<close> completes the request in place: identifier, time, payload hash.\<close>

definition complete_request :: "submit_env \<Rightarrow> EffectRequest \<Rightarrow> (boundary_error, EffectRequest) res" where
  "complete_request env req =
     (let req = (if br_EffectID req = [] then req\<lparr>br_EffectID := sx_newID env\<rparr> else req);
          req = (if br_SubmittedAt req = 0 then req\<lparr>br_SubmittedAt := sx_now env\<rparr> else req) in
      case bp_Data (br_Payload req) of
        Some data \<Rightarrow>
          if bp_PayloadHash (br_Payload req) = [] then
            (case sx_payloadHash env data of
               Inl e \<Rightarrow> Err (HashFailed e)
             | Inr hash \<Rightarrow> Ok (req\<lparr>br_Payload := (br_Payload req)\<lparr>bp_PayloadHash := hash\<rparr>\<rparr>))
          else Ok req
      | None \<Rightarrow> Ok req)"

definition request_key :: "EffectRequest \<Rightarrow> string option" where
  "request_key req = (case br_Idempotency req of Some c \<Rightarrow> (if bk_Key c \<noteq> [] then Some (bk_Key c) else None) | None \<Rightarrow> None)"

definition pending :: EffectLifecycle where
  "pending = \<lparr>lc_State = ''pending'', lc_PDPDecisionID = [], lc_ExecutedAt = 0, lc_CompletedAt = 0, lc_EvidencePackID = []\<rparr>"

definition store_effect :: "EffectRequest \<Rightarrow> InMemoryEffectBoundary \<Rightarrow> InMemoryEffectBoundary" where
  "store_effect req b =
     b\<lparr>eb_effects := AList.update (br_EffectID req) req (eb_effects b),
       eb_lifecycles := AList.update (br_EffectID req) pending (eb_lifecycles b),
       eb_idempotencyLog := (case request_key req of Some k \<Rightarrow> AList.update k (br_EffectID req) (eb_idempotencyLog b) | None \<Rightarrow> eb_idempotencyLog b)\<rparr>"

text \<open>The result of the append is ignored.\<close>

definition log_submission :: "submit_env \<Rightarrow> EffectRequest \<Rightarrow> InMemoryEffectBoundary \<Rightarrow> InMemoryEffectBoundary" where
  "log_submission env req b =
     (case eb_eventLog b of
        None \<Rightarrow> b
      | Some l \<Rightarrow>
          let event = \<lparr>en_EventID = sx_eventID env, en_EventType = ''effect.submitted'', en_SequenceNumber = 0, en_ObservedAt = br_SubmittedAt req,
              en_ReceivedAt = sx_receivedAt env, en_CommittedAt = 0, en_PayloadHash = [],
              en_Payload = Some [(''effect_id'', GStr (br_EffectID req)), (''effect_type'', GStr (br_EffectType req)),
                (''subject_id'', GStr (bs_SubjectID (br_Subject req))), (''payload_hash'', GStr (bp_PayloadHash (br_Payload req)))],
              en_Causation = None, en_Entropy = None\<rparr>
          in b\<lparr>eb_eventLog := Some (fst (Log_Append (sx_canonicalHash env) (sx_committedAt env) event l))\<rparr>)"

definition set_lifecycle :: "string \<Rightarrow> EffectLifecycle \<Rightarrow> InMemoryEffectBoundary \<Rightarrow> InMemoryEffectBoundary" where
  "set_lifecycle i lc b = b\<lparr>eb_lifecycles := AList.update i lc (eb_lifecycles b)\<rparr>"

definition ask_pdp :: "PDPEvaluator option \<Rightarrow> EffectRequest \<Rightarrow> EffectLifecycle \<times> boundary_error option" where
  "ask_pdp pdp req =
     (case pdp of
        None \<Rightarrow> (pending, None)
      | Some evaluate \<Rightarrow>
          (case evaluate req of
             Inl e \<Rightarrow> (pending\<lparr>lc_State := ''denied''\<rparr>, Some (PDPFailed e))
           | Inr (decision, decisionID) \<Rightarrow>
               (pending\<lparr>lc_PDPDecisionID := decisionID, lc_State := (if decision = ''ALLOW'' then ''approved'' else ''denied'')\<rparr>, None)))"

text \<open>The result has the lifecycle and the error the call returns; after a failed evaluation it has both.\<close>

definition Submit :: "submit_env \<Rightarrow> EffectRequest \<Rightarrow> InMemoryEffectBoundary \<Rightarrow> InMemoryEffectBoundary \<times> EffectLifecycle option \<times> boundary_error option" where
  "Submit env req b =
     (if br_EffectType req = [] then (b, None, Some EffectTypeRequired)
      else if \<not> IsExecutableEffectType (br_EffectType req) then (b, None, Some (NotExecutable (br_EffectType req)))
      else if bs_SubjectID (br_Subject req) = [] then (b, None, Some SubjectRequired)
      else case complete_request env req of
        Inl e \<Rightarrow> (b, None, Some e)
      | Inr req \<Rightarrow>
          (case (case request_key req of Some k \<Rightarrow> map_of (eb_idempotencyLog b) k | None \<Rightarrow> None) of
             Some existingID \<Rightarrow> (b, map_of (eb_lifecycles b) existingID, None)
           | None \<Rightarrow>
               let b = log_submission env req (store_effect req b) in
               (case ask_pdp (sx_pdp env) req of (lc, err) \<Rightarrow> (set_lifecycle (br_EffectID req) lc b, Some lc, err))))"

section \<open>Transitions\<close>

definition transition :: "string \<Rightarrow> (EffectLifecycle \<Rightarrow> (boundary_error, EffectLifecycle) res) \<Rightarrow> InMemoryEffectBoundary \<Rightarrow>
    InMemoryEffectBoundary \<times> boundary_error option" where
  "transition effectID f b =
     (case map_of (eb_lifecycles b) effectID of
        None \<Rightarrow> (b, Some (EffectNotFound effectID))
      | Some lc \<Rightarrow> (case f lc of Inl e \<Rightarrow> (b, Some e) | Inr lc \<Rightarrow> (set_lifecycle effectID lc b, None)))"

definition Approve :: "string \<Rightarrow> string \<Rightarrow> InMemoryEffectBoundary \<Rightarrow> InMemoryEffectBoundary \<times> boundary_error option" where
  "Approve effectID decisionID = transition effectID (\<lambda>lc. Ok (lc\<lparr>lc_State := ''approved'', lc_PDPDecisionID := decisionID\<rparr>))"

definition Deny :: "string \<Rightarrow> string \<Rightarrow> string \<Rightarrow> InMemoryEffectBoundary \<Rightarrow> InMemoryEffectBoundary \<times> boundary_error option" where
  "Deny effectID decisionID why = transition effectID (\<lambda>lc. Ok (lc\<lparr>lc_State := ''denied'', lc_PDPDecisionID := decisionID\<rparr>))"

definition Boundary_Execute :: "gotime \<Rightarrow> string \<Rightarrow> InMemoryEffectBoundary \<Rightarrow> InMemoryEffectBoundary \<times> boundary_error option" where
  "Boundary_Execute now effectID = transition effectID (\<lambda>lc.
     if lc_State lc \<noteq> ''approved'' then Err (CannotExecute (lc_State lc)) else Ok (lc\<lparr>lc_State := ''executing'', lc_ExecutedAt := now\<rparr>))"

definition Boundary_Complete :: "gotime \<Rightarrow> string \<Rightarrow> string \<Rightarrow> InMemoryEffectBoundary \<Rightarrow> InMemoryEffectBoundary \<times> boundary_error option" where
  "Boundary_Complete now effectID evidencePackID = transition effectID (\<lambda>lc.
     Ok (lc\<lparr>lc_State := ''completed'', lc_CompletedAt := now, lc_EvidencePackID := evidencePackID\<rparr>))"

definition GetLifecycle :: "string \<Rightarrow> InMemoryEffectBoundary \<Rightarrow> (boundary_error, EffectLifecycle) res" where
  "GetLifecycle effectID b = (case map_of (eb_lifecycles b) effectID of None \<Rightarrow> Err (EffectNotFound effectID) | Some lc \<Rightarrow> Ok lc)"

definition CheckIdempotency :: "string \<Rightarrow> InMemoryEffectBoundary \<Rightarrow> bool \<times> string" where
  "CheckIdempotency key b = (case map_of (eb_idempotencyLog b) key of Some i \<Rightarrow> (True, i) | None \<Rightarrow> (False, []))"

section \<open>Sequences of calls\<close>

datatype boundary_op =
    DoSubmit submit_env EffectRequest | DoApprove string string | DoDeny string string string | DoExecute gotime string | DoComplete gotime string string

fun boundary_step :: "boundary_op \<Rightarrow> InMemoryEffectBoundary \<Rightarrow> InMemoryEffectBoundary \<times> boundary_error option" where
  "boundary_step (DoSubmit env req) b = (case Submit env req b of (b', _, err) \<Rightarrow> (b', err))"
| "boundary_step (DoApprove i d) b = Approve i d b"
| "boundary_step (DoDeny i d w) b = Deny i d w b"
| "boundary_step (DoExecute t i) b = Boundary_Execute t i b"
| "boundary_step (DoComplete t i p) b = Boundary_Complete t i p b"

definition run_boundary :: "boundary_op list \<Rightarrow> InMemoryEffectBoundary \<Rightarrow> InMemoryEffectBoundary" where
  "run_boundary ops b = fold (\<lambda>op b. fst (boundary_step op b)) ops b"

lemma run_boundary_simps [simp]:
  "run_boundary [] b = b" "run_boundary (op # ops) b = run_boundary ops (fst (boundary_step op b))" "run_boundary (xs @ ys) b = run_boundary ys (run_boundary xs b)"
  by (simp_all add: run_boundary_def)

abbreviation lifecycle_of :: "string \<Rightarrow> InMemoryEffectBoundary \<Rightarrow> EffectLifecycle option" where
  "lifecycle_of i b \<equiv> map_of (eb_lifecycles b) i"

text \<open>An operation that gives an effect leave to execute: a submission the evaluator allows, or an approval.\<close>

fun authorises :: "string \<Rightarrow> boundary_op \<Rightarrow> bool" where
  "authorises i (DoSubmit env req) \<longleftrightarrow>
     (case (complete_request env req, sx_pdp env) of
        (Inr r, Some evaluate) \<Rightarrow> br_EffectID r = i \<and> IsExecutableEffectType (br_EffectType r) \<and>
          (case evaluate r of Inr (decision, _) \<Rightarrow> decision = ''ALLOW'' | Inl _ \<Rightarrow> False)
      | _ \<Rightarrow> False)"
| "authorises i (DoApprove j d) \<longleftrightarrow> j = i"
| "authorises i _ \<longleftrightarrow> False"

lemma log_submission_frame [simp]:
  "eb_effects (log_submission env req b) = eb_effects b" "eb_lifecycles (log_submission env req b) = eb_lifecycles b"
  "eb_idempotencyLog (log_submission env req b) = eb_idempotencyLog b"
  by (simp_all add: log_submission_def Let_def split: option.split)

lemma set_lifecycle_frame [simp]:
  "eb_effects (set_lifecycle i lc b) = eb_effects b" "eb_idempotencyLog (set_lifecycle i lc b) = eb_idempotencyLog b"
  "eb_eventLog (set_lifecycle i lc b) = eb_eventLog b" "map_of (eb_lifecycles (set_lifecycle i lc b)) = (map_of (eb_lifecycles b))(i \<mapsto> lc)"
  by (simp_all add: set_lifecycle_def)

lemma store_effect_lifecycles [simp]: "map_of (eb_lifecycles (store_effect req b)) = (map_of (eb_lifecycles b))(br_EffectID req \<mapsto> pending)"
  by (simp add: store_effect_def)

lemma complete_request_keeps: "complete_request env req = Ok r \<Longrightarrow> br_EffectType r = br_EffectType req \<and> br_Idempotency r = br_Idempotency req \<and> br_Subject r = br_Subject req"
  by (auto simp: complete_request_def Let_def split: option.splits sum.splits if_splits)

lemma request_key_complete: "complete_request env req = Ok r \<Longrightarrow> request_key r = request_key req"
  using complete_request_keeps by (simp add: request_key_def)

lemma transition_lifecycle:
  "lifecycle_of i (fst (transition j f b)) \<noteq> lifecycle_of i b \<Longrightarrow> j = i \<and> (\<exists>lc lc'. lifecycle_of i b = Some lc \<and> f lc = Ok lc' \<and> lifecycle_of i (fst (transition j f b)) = Some lc')"
  by (auto simp: transition_def split: option.splits sum.splits if_splits)

text \<open>A submission either leaves the boundary alone or registers its own effect.\<close>

lemma submit_cases:
  assumes "Submit env req b = (b', lc, err)"
  obtains (unchanged) "b' = b"
  | (registered) r l where "complete_request env req = Ok r" "IsExecutableEffectType (br_EffectType r)" "ask_pdp (sx_pdp env) r = (l, err)" "lc = Some l"
      "b' = set_lifecycle (br_EffectID r) l (log_submission env r (store_effect r b))"
      "case request_key r of Some k \<Rightarrow> map_of (eb_idempotencyLog b) k = None | None \<Rightarrow> True"
proof -
  consider "b' = b" | r where "complete_request env req = Ok r" "IsExecutableEffectType (br_EffectType req)"
      "case request_key r of Some k \<Rightarrow> map_of (eb_idempotencyLog b) k = None | None \<Rightarrow> True"
      "(b', lc, err) = (case ask_pdp (sx_pdp env) r of (lc, err) \<Rightarrow> (set_lifecycle (br_EffectID r) lc (log_submission env r (store_effect r b)), Some lc, err))"
    using assms by (auto simp: Submit_def Let_def split: if_splits sum.splits option.splits)
  then show thesis
  proof cases
    case 2
    obtain l e where "ask_pdp (sx_pdp env) r = (l, e)" by fastforce
    with 2 show thesis using registered [of r l] complete_request_keeps [OF 2(1)] by simp
  qed (rule unchanged)
qed

lemma approved_by_pdp: "ask_pdp pdp r = (l, err) \<Longrightarrow> lc_State l = ''approved'' \<Longrightarrow> \<exists>evaluate d. pdp = Some evaluate \<and> evaluate r = Ok (''ALLOW'', d)"
  by (auto simp: ask_pdp_def pending_def split: option.splits sum.splits prod.splits if_splits)

lemma transition_not_approved:
  assumes "\<And>lc lc'. f lc = Ok lc' \<Longrightarrow> lc_State lc' \<noteq> ''approved''"
    "lifecycle_of i (fst (transition j f b)) = Some l" "lc_State l = ''approved''"
  shows "lifecycle_of i (fst (transition j f b)) = lifecycle_of i b"
proof (rule ccontr)
  assume "lifecycle_of i (fst (transition j f b)) \<noteq> lifecycle_of i b"
  from transition_lifecycle [OF this] show False using assms by auto
qed

text \<open>An effect becomes approved only by an operation that authorises it.\<close>

lemma approval_needs_authority:
  assumes "lifecycle_of i (fst (boundary_step op b)) = Some l" "lc_State l = ''approved''" "lifecycle_of i (fst (boundary_step op b)) \<noteq> lifecycle_of i b"
  shows "authorises i op"
proof (cases op)
  case (DoSubmit env req)
  obtain b' lc err where s: "Submit env req b = (b', lc, err)" by (metis prod_cases3)
  then have b': "fst (boundary_step op b) = b'" by (simp add: DoSubmit)
  from s show ?thesis
  proof (cases rule: submit_cases)
    case unchanged
    then show ?thesis using assms(3) b' by simp
  next
    case (registered r m)
    then have i: "br_EffectID r = i" using assms(3) b' by (auto split: if_splits)
    then have "m = l" using registered(5) assms(1) b' by simp
    then show ?thesis using approved_by_pdp [OF registered(3)] assms(2) registered(1,2) i by (auto simp: DoSubmit)
  qed
next
  case (DoApprove j d)
  then show ?thesis using assms(3) transition_lifecycle [where i = i and j = j] by (simp add: Approve_def)
next
  case (DoDeny j d w)
  have "lifecycle_of i (fst (boundary_step op b)) = lifecycle_of i b"
    using assms(1,2) unfolding DoDeny boundary_step.simps Deny_def by (rule transition_not_approved [rotated]) (auto split: if_splits)
  then show ?thesis using assms(3) by simp
next
  case (DoExecute t j)
  have "lifecycle_of i (fst (boundary_step op b)) = lifecycle_of i b"
    using assms(1,2) unfolding DoExecute boundary_step.simps Boundary_Execute_def by (rule transition_not_approved [rotated]) (auto split: if_splits)
  then show ?thesis using assms(3) by simp
next
  case (DoComplete t j p)
  have "lifecycle_of i (fst (boundary_step op b)) = lifecycle_of i b"
    using assms(1,2) unfolding DoComplete boundary_step.simps Boundary_Complete_def by (rule transition_not_approved [rotated]) (auto split: if_splits)
  then show ?thesis using assms(3) by simp
qed

lemma approved_since:
  assumes "lifecycle_of i (run_boundary ops (NewInMemoryEffectBoundary eventLog)) = Some l" "lc_State l = ''approved''"
  shows "\<exists>pre a mid. ops = pre @ a # mid \<and> authorises i a \<and>
    (\<forall>n. lifecycle_of i (run_boundary (pre @ a # take n mid) (NewInMemoryEffectBoundary eventLog)) = Some l)"
  using assms(1)
proof (induction ops rule: rev_induct)
  case Nil
  then show ?case by (simp add: NewInMemoryEffectBoundary_def)
next
  case (snoc op ops)
  let ?b = "run_boundary ops (NewInMemoryEffectBoundary eventLog)"
  have now: "lifecycle_of i (fst (boundary_step op ?b)) = Some l" using snoc.prems by simp
  show ?case
  proof (cases "lifecycle_of i ?b = Some l")
    case True
    then obtain pre a mid where ops: "ops = pre @ a # mid" and a: "authorises i a"
      and kept: "\<forall>n. lifecycle_of i (run_boundary (pre @ a # take n mid) (NewInMemoryEffectBoundary eventLog)) = Some l"
      using snoc.IH by blast
    have "lifecycle_of i (run_boundary (pre @ a # take n (mid @ [op])) (NewInMemoryEffectBoundary eventLog)) = Some l" for n
    proof (cases "n \<le> length mid")
      case True
      then show ?thesis using kept by (metis take_append append_Nil2 diff_is_0_eq take0)
    next
      case False
      then have "take n (mid @ [op]) = mid @ [op]" by simp
      then show ?thesis using snoc.prems ops by simp
    qed
    then show ?thesis using ops a by (intro exI [of _ pre] exI [of _ a] exI [of _ "mid @ [op]"]) simp
  next
    case False
    then have "authorises i op" using approval_needs_authority [OF now assms(2)] now by simp
    then show ?thesis using snoc.prems by (intro exI [of _ ops] exI [of _ op] exI [of _ "[]"]) simp
  qed
qed

text \<open>Keys stay bound, and to effects that have a life cycle.\<close>

definition keys_ok :: "InMemoryEffectBoundary \<Rightarrow> bool" where
  "keys_ok b \<longleftrightarrow> (\<forall>k i. map_of (eb_idempotencyLog b) k = Some i \<longrightarrow> lifecycle_of i b \<noteq> None)"

lemma transition_keys: "eb_idempotencyLog (fst (transition j f b)) = eb_idempotencyLog b" "lifecycle_of i b \<noteq> None \<Longrightarrow> lifecycle_of i (fst (transition j f b)) \<noteq> None"
  by (auto simp: transition_def split: option.splits sum.splits)

lemma step_keys:
  assumes "keys_ok b"
  shows "keys_ok (fst (boundary_step op b)) \<and> map_of (eb_idempotencyLog b) \<subseteq>\<^sub>m map_of (eb_idempotencyLog (fst (boundary_step op b)))"
proof (cases op)
  case (DoSubmit env req)
  obtain b' lc err where s: "Submit env req b = (b', lc, err)" by (metis prod_cases3)
  then have b': "fst (boundary_step op b) = b'" by (simp add: DoSubmit)
  from s show ?thesis
  proof (cases rule: submit_cases)
    case unchanged
    then show ?thesis using assms b' by simp
  next
    case (registered r m)
    then show ?thesis using assms unfolding b'
      by (auto simp: keys_ok_def store_effect_def map_le_def split: option.splits if_splits)
  qed
qed (use assms in \<open>auto simp: keys_ok_def Approve_def Deny_def Boundary_Execute_def Boundary_Complete_def transition_keys simp flip: not_None_eq\<close>)

lemma run_keys: "keys_ok b \<Longrightarrow> keys_ok (run_boundary ops b) \<and> map_of (eb_idempotencyLog b) \<subseteq>\<^sub>m map_of (eb_idempotencyLog (run_boundary ops b))"
proof (induction ops arbitrary: b)
  case (Cons op ops)
  then show ?case using step_keys [OF Cons.prems, of op] map_le_trans by fastforce
qed simp

section \<open>The governance adapter\<close>

record PDPRequest =
  pq_RequestID :: string
  pq_EffectID :: string
  pq_EffectType :: string
  pq_EffectPayloadHash :: string
  pq_IdempotencyKey :: string
  pq_ActorID :: string
  pq_ActorType :: string
  pq_SessionID :: string
  pq_ModeID :: string
  pq_LoopID :: string
  pq_EnvironmentSnapshotHash :: string
  pq_PhenotypeHash :: string
  pq_DecisionTimeSource :: string
  pq_Timestamp :: gotime

text \<open>The fields of the request the adapter fills, flattened; the others keep their zero values. A response is decision and decision id.\<close>

definition governance_request :: "EffectRequest \<Rightarrow> PDPRequest" where
  "governance_request req =
     \<lparr>pq_RequestID = br_EffectID req, pq_EffectID = br_EffectID req, pq_EffectType = br_EffectType req,
      pq_EffectPayloadHash = bp_PayloadHash (br_Payload req),
      pq_IdempotencyKey = (case br_Idempotency req of Some c \<Rightarrow> bk_Key c | None \<Rightarrow> []),
      pq_ActorID = bs_SubjectID (br_Subject req), pq_ActorType = bs_SubjectType (br_Subject req), pq_SessionID = bs_SessionID (br_Subject req),
      pq_ModeID = (case br_Context req of Some c \<Rightarrow> bx_ModeID c | None \<Rightarrow> []),
      pq_LoopID = (case br_Context req of Some c \<Rightarrow> bx_LoopID c | None \<Rightarrow> []),
      pq_EnvironmentSnapshotHash = (case br_Context req of Some c \<Rightarrow> bx_EnvironmentID c | None \<Rightarrow> []),
      pq_PhenotypeHash = (case br_Context req of Some c \<Rightarrow> bx_PhenotypeHash c | None \<Rightarrow> []),
      pq_DecisionTimeSource = ''observed_at'', pq_Timestamp = br_SubmittedAt req\<rparr>"

definition Adapter_Evaluate :: "(PDPRequest \<Rightarrow> (string, string \<times> string) res) \<Rightarrow> PDPEvaluator" where
  "Adapter_Evaluate governance req =
     (case governance (governance_request req) of
        Inl e \<Rightarrow> Err e
      | Inr (decision, decisionID) \<Rightarrow>
          Ok (if decision \<in> {''ALLOW'', ''DENY'', ''REQUIRE_APPROVAL'', ''REQUIRE_EVIDENCE'', ''DEFER''} then decision else ''DENY'', decisionID))"

section \<open>Properties\<close>

text \<open>
  C17: Execution of an effect begins only if some earlier call authorised it, a submission that the evaluator allowed or an explicit approval,
  and the life cycle of the effect has not changed since that call; a second execution needs a new authorisation.
\<close>

theorem boundary_execution_authorised:
  assumes "b = run_boundary ops (NewInMemoryEffectBoundary eventLog)" "Boundary_Execute now i b = (b', None)"
  shows "(\<exists>pre a mid. ops = pre @ a # mid \<and> authorises i a \<and>
      (\<forall>n. lifecycle_of i (run_boundary (pre @ a # take n mid) (NewInMemoryEffectBoundary eventLog)) = lifecycle_of i b)) \<and>
    Boundary_Execute later i b' = (b', Some (CannotExecute ''executing''))"
proof -
  obtain l where l: "lifecycle_of i b = Some l" "lc_State l = ''approved''" and b': "b' = set_lifecycle i (l\<lparr>lc_State := ''executing'', lc_ExecutedAt := now\<rparr>) b"
    using assms(2) by (auto simp: Boundary_Execute_def transition_def split: option.splits sum.splits if_splits)
  have "Boundary_Execute later i b' = (b', Some (CannotExecute ''executing''))" by (simp add: Boundary_Execute_def transition_def b')
  then show ?thesis using approved_since [OF l(1) [unfolded assms(1)] l(2)] l(1) unfolding assms(1) by simp
qed

text \<open>
  Once a submission with an idempotency key has registered an effect, every later well-formed submission with that key, whatever happened in
  between, returns the current life cycle of that effect and changes nothing: no effect is stored, no event logged, no decision asked for.
\<close>

theorem idempotent_submission:
  assumes "b = run_boundary ops (NewInMemoryEffectBoundary eventLog)" "Submit env req b = (b1, Some lc, err)" "request_key req = Some k"
    "b2 = run_boundary further b1" "IsExecutableEffectType (br_EffectType again)" "br_EffectType again \<noteq> []" "bs_SubjectID (br_Subject again) \<noteq> []"
    "is_ok (complete_request env2 again)" "request_key again = Some k"
  shows "\<exists>i l. map_of (eb_idempotencyLog b1) k = Some i \<and> lifecycle_of i b2 = Some l \<and> Submit env2 again b2 = (b2, Some l, None)"
proof -
  have "keys_ok (NewInMemoryEffectBoundary eventLog)" by (simp add: keys_ok_def NewInMemoryEffectBoundary_def)
  then have "keys_ok b" using run_keys assms(1) by blast
  then have k1: "keys_ok b1" using step_keys [of b "DoSubmit env req"] assms(2) by simp
  obtain r where r: "complete_request env req = Ok r" using assms(2) by (auto simp: Submit_def split: if_splits sum.splits)
  then have key: "request_key r = Some k" using request_key_complete assms(3) by simp
  obtain i where i: "map_of (eb_idempotencyLog b1) k = Some i"
    using assms(2) key by (auto simp: Submit_def r Let_def store_effect_def split: if_splits option.splits prod.splits)
  have "keys_ok b2" "map_of (eb_idempotencyLog b1) \<subseteq>\<^sub>m map_of (eb_idempotencyLog b2)" using run_keys [OF k1] assms(4) by simp_all
  then have i2: "map_of (eb_idempotencyLog b2) k = Some i" using i by (metis domI map_le_def)
  then obtain l where l: "lifecycle_of i b2 = Some l" using \<open>keys_ok b2\<close> by (auto simp: keys_ok_def)
  obtain r2 where r2: "complete_request env2 again = Ok r2" using assms(8) by (auto simp: is_ok_iff)
  then have "request_key r2 = Some k" using request_key_complete assms(9) by simp
  then have "Submit env2 again b2 = (b2, Some l, None)" using assms(5-7) i2 l by (simp add: Submit_def r2)
  then show ?thesis using i l by blast
qed

text \<open>
  Behind the governance adapter a submission is approved exactly when the policy decision point answered ALLOW to the translated request; any
  other answer, and an error, leaves the effect denied.
\<close>

theorem wired_submission_follows_pdp:
  assumes "sx_pdp env = Some (Adapter_Evaluate governance)" "Submit env req b = (b', Some l, err)" "complete_request env req = Ok r"
    "case request_key req of Some k \<Rightarrow> map_of (eb_idempotencyLog b) k = None | None \<Rightarrow> True"
  shows "lifecycle_of (br_EffectID r) b' = Some l \<and>
    lc_State l = (case governance (governance_request r) of Inr (decision, _) \<Rightarrow> (if decision = ''ALLOW'' then ''approved'' else ''denied'') | Inl _ \<Rightarrow> ''denied'')"
proof -
  have "ask_pdp (sx_pdp env) r = (l, err) \<and> lifecycle_of (br_EffectID r) b' = Some l"
    using assms(2,4) request_key_complete [OF assms(3)] by (auto simp: Submit_def assms(3) Let_def split: if_splits option.splits prod.splits)
  then show ?thesis by (auto simp: ask_pdp_def assms(1) Adapter_Evaluate_def pending_def split: sum.splits if_splits)
qed

section \<open>Witnesses\<close>

definition w_submit :: EffectRequest where
  "w_submit = \<lparr>br_EffectID = ''e1'', br_EffectType = ''NOTIFY'', br_SubmittedAt = 7,
     br_Subject = \<lparr>bs_SubjectID = ''agent'', bs_SubjectType = ''module'', bs_SessionID = [], bs_AttestationRef = []\<rparr>,
     br_Payload = \<lparr>bp_PayloadHash = [], bp_Data = None\<rparr>, br_Idempotency = Some \<lparr>bk_Key = ''k'', bk_KeyDerivation = [], bk_WindowSeconds = 0\<rparr>, br_Context = None\<rparr>"

definition w_senv :: submit_env where
  "w_senv = \<lparr>sx_newID = ''fresh'', sx_now = 9, sx_eventID = ''ev'', sx_receivedAt = 9, sx_committedAt = 9, sx_payloadHash = (\<lambda>_. Ok ''p''),
     sx_canonicalHash = (\<lambda>_. Ok ''h''), sx_pdp = Some (Adapter_Evaluate (\<lambda>_. Ok (''ALLOW'', ''d1'')))\<rparr>"

lemma notify_executable: "IsExecutableEffectType ''NOTIFY''"
  using boundary_types_not_preview [of "''NOTIFY''"] by (simp add: IsExecutableEffectType_def boundary_types_def)

lemma w_complete: "complete_request w_senv w_submit = Ok w_submit"
  by (simp add: complete_request_def w_submit_def)

lemma w_submitted:
  "Submit w_senv w_submit (NewInMemoryEffectBoundary None) =
     (\<lparr>eb_effects = [(''e1'', w_submit)], eb_lifecycles = [(''e1'', pending\<lparr>lc_State := ''approved'', lc_PDPDecisionID := ''d1''\<rparr>)],
       eb_idempotencyLog = [(''k'', ''e1'')], eb_eventLog = None\<rparr>, Some (pending\<lparr>lc_State := ''approved'', lc_PDPDecisionID := ''d1''\<rparr>), None)"
  unfolding Submit_def w_complete
  by (simp add: w_submit_def w_senv_def notify_executable NewInMemoryEffectBoundary_def request_key_def store_effect_def log_submission_def ask_pdp_def
      Adapter_Evaluate_def set_lifecycle_def Let_def)

theorem boundary_execution_authorised_witness:
  "\<exists>pre a mid. [DoSubmit w_senv w_submit] = pre @ a # mid \<and> authorises ''e1'' a"
proof -
  let ?b = "run_boundary [DoSubmit w_senv w_submit] (NewInMemoryEffectBoundary None)"
  obtain b' where "Boundary_Execute 11 ''e1'' ?b = (b', None)" by (simp add: w_submitted Boundary_Execute_def transition_def)
  from boundary_execution_authorised [OF refl this, of 12] show ?thesis by blast
qed

theorem idempotent_submission_witness:
  "\<exists>l. Submit w_senv w_submit (run_boundary [DoExecute 11 ''e1''] (fst (Submit w_senv w_submit (NewInMemoryEffectBoundary None)))) =
     (run_boundary [DoExecute 11 ''e1''] (fst (Submit w_senv w_submit (NewInMemoryEffectBoundary None))), Some l, None)"
proof -
  have k: "request_key w_submit = Some ''k''" by (simp add: request_key_def w_submit_def)
  have e: "IsExecutableEffectType (br_EffectType w_submit)" "br_EffectType w_submit \<noteq> []" "bs_SubjectID (br_Subject w_submit) \<noteq> []"
    by (simp_all add: w_submit_def notify_executable)
  have "is_ok (complete_request w_senv w_submit)" by (simp add: w_complete)
  from idempotent_submission [of _ "[]", OF run_boundary_simps(1) [symmetric] w_submitted k refl e this k, of "[DoExecute 11 ''e1'']"]
  show ?thesis unfolding w_submitted by auto
qed

theorem wired_submission_follows_pdp_witness:
  "lc_State (the (lifecycle_of ''e1'' (fst (Submit w_senv w_submit (NewInMemoryEffectBoundary None))))) = ''approved''"
proof -
  have pdp: "sx_pdp w_senv = Some (Adapter_Evaluate (\<lambda>_. Ok (''ALLOW'', ''d1'')))" by (simp add: w_senv_def)
  have "case request_key w_submit of Some k \<Rightarrow> map_of (eb_idempotencyLog (NewInMemoryEffectBoundary None)) k = None | None \<Rightarrow> True"
    by (simp add: request_key_def w_submit_def NewInMemoryEffectBoundary_def)
  note wired_submission_follows_pdp [OF pdp w_submitted w_complete this]
  moreover have "br_EffectID w_submit = ''e1''" by (simp add: w_submit_def)
  ultimately show ?thesis unfolding w_submitted by simp
qed

section \<open>Divergences\<close>

text \<open>Completion is not guarded: an effect the evaluator denied is marked completed, with an evidence pack.\<close>

lemma denied_effect_completes:
  "lifecycle_of i b = Some l \<Longrightarrow> lc_State l = ''denied'' \<Longrightarrow> \<exists>l'. lifecycle_of i (fst (Boundary_Complete now i p b)) = Some l' \<and> lc_State l' = ''completed''"
  by (simp add: Boundary_Complete_def transition_def)

text \<open>Approval is not guarded either: an effect that ran to completion can be approved and executed again.\<close>

lemma completed_effect_runs_again:
  "lifecycle_of i b = Some l \<Longrightarrow> lc_State l = ''completed'' \<Longrightarrow> \<exists>b'. Boundary_Execute now i (fst (Approve i d b)) = (b', None)"
  by (simp add: Approve_def Boundary_Execute_def transition_def)

text \<open>
  A submission without a key under an identifier in use starts the life cycle afresh, so the record of an executed effect is lost and it may
  run a second time.
\<close>

lemma resubmission_resets:
  assumes "complete_request env req = Ok r" "request_key req = None" "IsExecutableEffectType (br_EffectType req)" "br_EffectType req \<noteq> []"
    "bs_SubjectID (br_Subject req) \<noteq> []" "sx_pdp env = Some evaluate" "evaluate r = Ok (''ALLOW'', d)"
  shows "\<exists>b' l. Submit env req b = (b', Some l, None) \<and> (\<exists>b''. Boundary_Execute now (br_EffectID r) b' = (b'', None))"
  using assms request_key_complete [OF assms(1)] by (simp add: Submit_def ask_pdp_def Boundary_Execute_def transition_def pending_def Let_def)

end
