(* ===== verification/Kernel_Memory.thy ===== *)
theory Kernel_Memory
  imports Contracts
begin

text \<open>
  Two stores of the kernel that are to show tampering: the integrity-protected memory (\<^verbatim>\<open>core/pkg/kernel/memory_integrity.go\<close>) and the
  total order log (\<^verbatim>\<open>core/pkg/kernel/total_order_log.go\<close>). Hashes and the rendering of times are parameters. An outside change of what is
  stored is a step of its own.
\<close>

section \<open>Integrity-protected memory\<close>

record MemoryEntry =
  mm_Key :: string
  mm_Value :: "byte list"
  mm_ContentHash :: string
  mm_WrittenAt :: gotime
  mm_WrittenBy :: string
  mm_Version :: int

record MemoryWriteEvent =
  mw_Key :: string
  mw_ContentHash :: string
  mw_WrittenBy :: string
  mw_WrittenAt :: gotime
  mw_Version :: int
  mw_PreviousHash :: string

record MemoryIntegrityStore =
  ms_entries :: "(string, MemoryEntry) gomap"
  ms_history :: "MemoryWriteEvent list"

datatype memory_error = EmptyKey | KeyNotFound string | MemoryTampered string string string

definition NewMemoryIntegrityStore :: MemoryIntegrityStore where
  "NewMemoryIntegrityStore = \<lparr>ms_entries = [], ms_history = []\<rparr>"

definition Memory_Write :: "(byte list \<Rightarrow> string) \<Rightarrow> gotime \<Rightarrow> string \<Rightarrow> byte list \<Rightarrow> string \<Rightarrow> MemoryIntegrityStore \<Rightarrow>
    MemoryIntegrityStore \<times> (memory_error, MemoryEntry) res" where
  "Memory_Write computeHash now key val principalID s =
     (if key = [] then (s, Err EmptyKey)
      else let contentHash = computeHash val;
          (previousHash, version) = (case map_of (ms_entries s) key of Some e \<Rightarrow> (mm_ContentHash e, wrap64 (mm_Version e + 1)) | None \<Rightarrow> ([], 1));
          entry = \<lparr>mm_Key = key, mm_Value = val, mm_ContentHash = contentHash, mm_WrittenAt = now, mm_WrittenBy = principalID, mm_Version = version\<rparr>;
          event = \<lparr>mw_Key = key, mw_ContentHash = contentHash, mw_WrittenBy = principalID, mw_WrittenAt = now, mw_Version = version,
            mw_PreviousHash = previousHash\<rparr>
        in (s\<lparr>ms_entries := AList.update key entry (ms_entries s), ms_history := ms_history s @ [event]\<rparr>, Ok entry))"

definition Memory_Read :: "(byte list \<Rightarrow> string) \<Rightarrow> string \<Rightarrow> MemoryIntegrityStore \<Rightarrow> (memory_error, MemoryEntry) res" where
  "Memory_Read computeHash key s =
     (case map_of (ms_entries s) key of
        None \<Rightarrow> Err (KeyNotFound key)
      | Some e \<Rightarrow>
          let actualHash = computeHash (mm_Value e) in
          if actualHash \<noteq> mm_ContentHash e then Err (MemoryTampered key (mm_ContentHash e) actualHash) else Ok e)"

definition Memory_Delete :: "string \<Rightarrow> MemoryIntegrityStore \<Rightarrow> MemoryIntegrityStore \<times> memory_error option" where
  "Memory_Delete key s =
     (case map_of (ms_entries s) key of
        None \<Rightarrow> (s, Some (KeyNotFound key))
      | Some _ \<Rightarrow> (s\<lparr>ms_entries := AList.delete key (ms_entries s)\<rparr>, None))"

definition Memory_History :: "string \<Rightarrow> MemoryIntegrityStore \<Rightarrow> MemoryWriteEvent list" where
  "Memory_History key s = filter (\<lambda>e. mw_Key e = key) (ms_history s)"

definition AllHistory :: "MemoryIntegrityStore \<Rightarrow> MemoryWriteEvent list" where
  "AllHistory s = ms_history s"

definition Memory_Verify :: "(byte list \<Rightarrow> string) \<Rightarrow> string \<Rightarrow> MemoryIntegrityStore \<Rightarrow> memory_error option" where
  "Memory_Verify computeHash key s =
     (case map_of (ms_entries s) key of
        None \<Rightarrow> Some (KeyNotFound key)
      | Some e \<Rightarrow>
          let actualHash = computeHash (mm_Value e) in
          if actualHash \<noteq> mm_ContentHash e then Some (MemoryTampered key (mm_ContentHash e) actualHash) else None)"

text \<open>
  A history of the store: calls, and changes of stored bytes from outside (\<open>Tamper\<close>). The specification remembers what was
  last written under each key.
\<close>

datatype memory_op = MWrite gotime string "byte list" string | MDelete string | Tamper string "byte list"

fun memory_step :: "(byte list \<Rightarrow> string) \<Rightarrow> memory_op \<Rightarrow> MemoryIntegrityStore \<Rightarrow> MemoryIntegrityStore" where
  "memory_step h (MWrite now k v p) s = fst (Memory_Write h now k v p s)"
| "memory_step h (MDelete k) s = fst (Memory_Delete k s)"
| "memory_step h (Tamper k v) s =
     (case map_of (ms_entries s) k of None \<Rightarrow> s | Some e \<Rightarrow> s\<lparr>ms_entries := AList.update k (e\<lparr>mm_Value := v\<rparr>) (ms_entries s)\<rparr>)"

fun last_write :: "memory_op \<Rightarrow> (string \<rightharpoonup> gotime \<times> byte list \<times> string) \<Rightarrow> (string \<rightharpoonup> gotime \<times> byte list \<times> string)" where
  "last_write (MWrite now k v p) m = (if k = [] then m else m(k \<mapsto> (now, v, p)))"
| "last_write (MDelete k) m = m(k := None)"
| "last_write (Tamper k v) m = m"

definition run_memory :: "(byte list \<Rightarrow> string) \<Rightarrow> memory_op list \<Rightarrow> MemoryIntegrityStore" where
  "run_memory h ops = fold (memory_step h) ops NewMemoryIntegrityStore"

definition last_written :: "memory_op list \<Rightarrow> (string \<rightharpoonup> gotime \<times> byte list \<times> string)" where
  "last_written ops = fold last_write ops Map.empty"

text \<open>Everything but the bytes agrees with what was last written.\<close>

definition agrees :: "(byte list \<Rightarrow> string) \<Rightarrow> string \<Rightarrow> MemoryEntry option \<Rightarrow> (gotime \<times> byte list \<times> string) option \<Rightarrow> bool" where
  "agrees h k e w \<longleftrightarrow> (case (e, w) of
     (None, None) \<Rightarrow> True
   | (Some e, Some (t, v, p)) \<Rightarrow> mm_WrittenAt e = t \<and> mm_WrittenBy e = p \<and> mm_ContentHash e = h v \<and> mm_Key e = k
   | _ \<Rightarrow> False)"

definition records :: "(byte list \<Rightarrow> string) \<Rightarrow> MemoryIntegrityStore \<Rightarrow> (string \<rightharpoonup> gotime \<times> byte list \<times> string) \<Rightarrow> bool" where
  "records h s m \<longleftrightarrow> (\<forall>k. agrees h k (map_of (ms_entries s) k) (m k))"

lemma records_update:
  "records h s m \<Longrightarrow> agrees h k e w \<Longrightarrow> map_of (ms_entries s') = (map_of (ms_entries s))(k := e) \<Longrightarrow> records h s' (m(k := w))"
  by (simp add: records_def)

lemma step_records:
  assumes "records h s m"
  shows "records h (memory_step h op s) (last_write op m)"
proof (cases op)
  case (MWrite now k v p)
  show ?thesis
  proof (cases "k = []")
    case False
    define e where "e = projr (snd (Memory_Write h now k v p s))"
    have "agrees h k (Some e) (Some (now, v, p))" using False by (simp add: e_def agrees_def Memory_Write_def Let_def split: option.split prod.split)
    moreover have "map_of (ms_entries (memory_step h op s)) = (map_of (ms_entries s))(k := Some e)"
      using False by (simp add: MWrite e_def Memory_Write_def Let_def split: option.split prod.split)
    ultimately show ?thesis using records_update [OF assms] False by (simp add: MWrite)
  qed (use assms in \<open>simp add: MWrite Memory_Write_def\<close>)
next
  case (MDelete k)
  have "map_of (ms_entries (memory_step h op s)) = (map_of (ms_entries s))(k := None)"
    by (auto simp: MDelete Memory_Delete_def split: option.splits)
  then show ?thesis using records_update [OF assms, of k None None] by (simp add: MDelete agrees_def)
next
  case (Tamper k v)
  show ?thesis
  proof (cases "map_of (ms_entries s) k")
    case (Some e)
    have "agrees h k (Some e) (m k)" using assms Some by (metis records_def)
    then have "agrees h k (Some (e\<lparr>mm_Value := v\<rparr>)) (m k)" by (auto simp: agrees_def split: option.splits)
    then show ?thesis using records_update [OF assms, of k _ "m k"] by (simp add: Tamper Some)
  qed (use assms in \<open>simp add: Tamper\<close>)
qed

lemma run_records: "records h (run_memory h ops) (last_written ops)"
proof -
  have "records h s m \<Longrightarrow> records h (fold (memory_step h) ops s) (fold last_write ops m)" for s m
    by (induction ops arbitrary: s m) (auto dest: step_records)
  moreover have "records h NewMemoryIntegrityStore Map.empty" by (simp add: records_def agrees_def NewMemoryIntegrityStore_def)
  ultimately show ?thesis by (simp add: run_memory_def last_written_def)
qed

section \<open>Total order log\<close>

record TotalOrderEvent =
  to_OrderPosition :: "64 word"
  to_EventEnvelope :: string
  to_CommitHash :: string
  to_PreviousHash :: string
  to_CommittedAt :: gotime
  to_LoopID :: string

type_synonym InMemoryTotalOrderLog = "TotalOrderEvent list"

text \<open>The two renderings the commit hash uses: SHA-256 in hexadecimal and \<^verbatim>\<open>time.RFC3339Nano\<close>.\<close>

record commit_codec =
  cc_sha256 :: "string \<Rightarrow> string"
  cc_format :: "gotime \<Rightarrow> string"

datatype order_error = OrderEventNotFound | PreviousHashMismatch | CommitHashMismatch

definition PutUint64 :: "64 word \<Rightarrow> string" where
  "PutUint64 n = map (\<lambda>i. char_of (unat (drop_bit (8 * i) n) mod 256)) [7, 6, 5, 4, 3, 2, 1, 0]"

definition commit_bytes :: "commit_codec \<Rightarrow> 64 word \<Rightarrow> string \<Rightarrow> string \<Rightarrow> gotime \<Rightarrow> string \<Rightarrow> string" where
  "commit_bytes cc position event prevHash commitTime loopID = PutUint64 position @ prevHash @ event @ cc_format cc commitTime @ loopID"

definition computeCommitHash :: "commit_codec \<Rightarrow> 64 word \<Rightarrow> string \<Rightarrow> string \<Rightarrow> gotime \<Rightarrow> string \<Rightarrow> string" where
  "computeCommitHash cc position event prevHash commitTime loopID = cc_sha256 cc (commit_bytes cc position event prevHash commitTime loopID)"

definition prev_commit :: "InMemoryTotalOrderLog \<Rightarrow> nat \<Rightarrow> string" where
  "prev_commit l i = (if i = 0 then ''genesis'' else to_CommitHash (l ! (i - 1)))"

definition Commit :: "commit_codec \<Rightarrow> gotime \<Rightarrow> string \<Rightarrow> string \<Rightarrow> InMemoryTotalOrderLog \<Rightarrow> InMemoryTotalOrderLog \<times> TotalOrderEvent" where
  "Commit cc now event loopID l =
     (let position = of_nat (length l); previousHash = prev_commit l (length l);
          toe = \<lparr>to_OrderPosition = position, to_EventEnvelope = event, to_CommitHash = computeCommitHash cc position event previousHash now loopID,
            to_PreviousHash = previousHash, to_CommittedAt = now, to_LoopID = loopID\<rparr>
      in (l @ [toe], toe))"

definition Order_Get :: "nat \<Rightarrow> InMemoryTotalOrderLog \<Rightarrow> (order_error, TotalOrderEvent) res" where
  "Order_Get position l = (if position \<ge> length l then Err OrderEventNotFound else Ok (l ! position))"

definition Order_Range :: "nat \<Rightarrow> nat \<Rightarrow> InMemoryTotalOrderLog \<Rightarrow> TotalOrderEvent list" where
  "Order_Range start stop l =
     (if start \<ge> length l then [] else let stop = min stop (length l) in if start \<ge> stop then [] else take (stop - start) (drop start l))"

definition Order_Head :: "InMemoryTotalOrderLog \<Rightarrow> (order_error, TotalOrderEvent) res" where
  "Order_Head l = (if l = [] then Err OrderEventNotFound else Ok (l ! (length l - 1)))"

definition check_event :: "commit_codec \<Rightarrow> InMemoryTotalOrderLog \<Rightarrow> nat \<Rightarrow> order_error option" where
  "check_event cc l i =
     (let event = l ! i in
      if to_PreviousHash event \<noteq> prev_commit l i then Some PreviousHashMismatch
      else if to_CommitHash event \<noteq> computeCommitHash cc (to_OrderPosition event) (to_EventEnvelope event) (to_PreviousHash event) (to_CommittedAt event) (to_LoopID event)
      then Some CommitHashMismatch else None)"

fun order_verify_loop :: "commit_codec \<Rightarrow> InMemoryTotalOrderLog \<Rightarrow> nat list \<Rightarrow> order_error option" where
  "order_verify_loop cc l [] = None"
| "order_verify_loop cc l (i # is) = (case check_event cc l i of Some e \<Rightarrow> Some e | None \<Rightarrow> order_verify_loop cc l is)"

text \<open>\<open>None\<close>: the range is valid.\<close>

definition Order_Verify :: "commit_codec \<Rightarrow> nat \<Rightarrow> nat \<Rightarrow> InMemoryTotalOrderLog \<Rightarrow> order_error option" where
  "Order_Verify cc start stop l =
     (if start \<ge> length l then None else order_verify_loop cc l [start ..< min stop (length l)])"

lemma order_verify_loop_None: "order_verify_loop cc l is = None \<longleftrightarrow> (\<forall>i \<in> set is. check_event cc l i = None)"
  by (induction "is") (auto split: option.splits)

lemma verify_all: "Order_Verify cc 0 (length l) l = None \<longleftrightarrow> (\<forall>i < length l. check_event cc l i = None)"
  by (auto simp: Order_Verify_def order_verify_loop_None)

fun commit_all :: "commit_codec \<Rightarrow> (gotime \<times> string \<times> string) list \<Rightarrow> InMemoryTotalOrderLog \<Rightarrow> InMemoryTotalOrderLog" where
  "commit_all cc [] l = l"
| "commit_all cc ((now, event, loopID) # xs) l = commit_all cc xs (fst (Commit cc now event loopID l))"

lemma commit_keeps_valid:
  assumes "\<forall>i < length l. check_event cc l i = None" "l' = fst (Commit cc now event loopID l)"
  shows "\<forall>i < length l'. check_event cc l' i = None"
proof (intro allI impI)
  fix i
  assume i: "i < length l'"
  have prev: "prev_commit l' j = prev_commit l j" if "j \<le> length l" for j
    using that by (auto simp: prev_commit_def assms(2) Commit_def Let_def nth_append)
  show "check_event cc l' i = None"
  proof (cases "i < length l")
    case True
    then have "check_event cc l' i = check_event cc l i" using prev [of i] by (simp add: check_event_def assms(2) Commit_def Let_def nth_append)
    then show ?thesis using assms(1) True by simp
  next
    case False
    then have "i = length l" using i by (simp add: assms(2) Commit_def Let_def)
    then show ?thesis using prev [of i] by (simp add: check_event_def) (simp add: assms(2) Commit_def Let_def nth_append)
  qed
qed

lemma commit_all_valid: "\<forall>i < length l. check_event cc l i = None \<Longrightarrow> \<forall>i < length (commit_all cc xs l). check_event cc (commit_all cc xs l) i = None"
proof (induction xs arbitrary: l)
  case (Cons x xs)
  obtain now event loopID where x: "x = (now, event, loopID)" by (metis prod_cases3)
  show ?case unfolding x commit_all.simps by (rule Cons.IH [OF commit_keeps_valid [OF Cons.prems refl]])
qed simp

lemma PutUint64_length [simp]: "length (PutUint64 n) = 8"
  by (simp add: PutUint64_def)

text \<open>What the commit hash of an event is taken of, after its position and the previous hash.\<close>

definition body_bytes :: "commit_codec \<Rightarrow> TotalOrderEvent \<Rightarrow> string" where
  "body_bytes cc e = to_EventEnvelope e @ cc_format cc (to_CommittedAt e) @ to_LoopID e"

text \<open>What the commit hashes of a log are taken of.\<close>

definition commit_inputs :: "commit_codec \<Rightarrow> InMemoryTotalOrderLog \<Rightarrow> string set" where
  "commit_inputs cc l = (\<lambda>i. PutUint64 (to_OrderPosition (l ! i)) @ prev_commit l i @ body_bytes cc (l ! i)) ` {..< length l}"

definition fixed_length :: "commit_codec \<Rightarrow> bool" where
  "fixed_length cc \<longleftrightarrow> (\<exists>n. \<forall>x. length (cc_sha256 cc x) = n)"

lemma checked_event:
  "check_event cc l i = None \<longleftrightarrow> to_PreviousHash (l ! i) = prev_commit l i \<and>
     to_CommitHash (l ! i) = cc_sha256 cc (PutUint64 (to_OrderPosition (l ! i)) @ prev_commit l i @ body_bytes cc (l ! i))"
  by (auto simp: check_event_def computeCommitHash_def commit_bytes_def body_bytes_def Let_def)

lemma prev_commit_length:
  assumes "\<forall>i < length l. check_event cc l i = None" "\<forall>x. length (cc_sha256 cc x) = n" "i \<le> length l"
  shows "length (prev_commit l i) = (if i = 0 then 7 else n)"
  using assms by (cases i) (auto simp: prev_commit_def checked_event)

lemma heads_bind:
  assumes "\<forall>i < length l. check_event cc l i = None" "\<forall>i < length l'. check_event cc l' i = None" "inj_on (cc_sha256 cc) (commit_inputs cc l \<union> commit_inputs cc l')" "\<forall>x. length (cc_sha256 cc x) = n"
    and "i < length l" "i < length l'" "to_CommitHash (l ! i) = to_CommitHash (l' ! i)"
  shows "\<forall>j \<le> i. to_PreviousHash (l ! j) = to_PreviousHash (l' ! j) \<and> body_bytes cc (l ! j) = body_bytes cc (l' ! j) \<and> to_CommitHash (l ! j) = to_CommitHash (l' ! j)"
  using assms(5-7)
proof (induction i)
  case (Suc i)
  let ?i = "Suc i"
  have c: "check_event cc l ?i = None" "check_event cc l' ?i = None" using assms(1,2) Suc.prems by blast+
  have "PutUint64 (to_OrderPosition (l ! ?i)) @ prev_commit l ?i @ body_bytes cc (l ! ?i) =
      PutUint64 (to_OrderPosition (l' ! ?i)) @ prev_commit l' ?i @ body_bytes cc (l' ! ?i)"
    by (rule inj_onD [OF assms(3)]) (use c Suc.prems in \<open>auto simp: checked_event commit_inputs_def\<close>)
  then have eq: "prev_commit l ?i = prev_commit l' ?i" "body_bytes cc (l ! ?i) = body_bytes cc (l' ! ?i)"
    using prev_commit_length [OF assms(1,4), of ?i] prev_commit_length [OF assms(2,4), of ?i] Suc.prems(1,2) by (simp_all add: append_eq_append_conv)
  then have "to_CommitHash (l ! i) = to_CommitHash (l' ! i)" by (simp add: prev_commit_def)
  note Suc.IH [OF _ _ this]
  then show ?case using eq c Suc.prems by (auto simp: checked_event le_Suc_eq)
next
  case 0
  have c: "check_event cc l 0 = None" "check_event cc l' 0 = None" using assms(1,2) "0.prems" by blast+
  have "PutUint64 (to_OrderPosition (l ! 0)) @ prev_commit l 0 @ body_bytes cc (l ! 0) = PutUint64 (to_OrderPosition (l' ! 0)) @ prev_commit l' 0 @ body_bytes cc (l' ! 0)"
    by (rule inj_onD [OF assms(3)]) (use c "0.prems" in \<open>auto simp: checked_event commit_inputs_def\<close>)
  then have "body_bytes cc (l ! 0) = body_bytes cc (l' ! 0)" by (simp add: append_eq_append_conv prev_commit_def)
  then show ?case using c "0.prems"(3) by (simp add: checked_event prev_commit_def)
qed

section \<open>Properties\<close>

text \<open>
  C33: Whatever is done to the stored bytes from outside, a read returns what was last written under the key by its writer, or an error;
  the exception is a collision of the hash. Untouched memory is always returned.
\<close>

theorem memory_read_genuine:
  assumes "s = run_memory h ops" "Memory_Read h k s = r"
  shows "(case last_written ops k of
      None \<Rightarrow> r = Err (KeyNotFound k)
    | Some (t, v, p) \<Rightarrow>
        (\<exists>e. r = Ok e \<and> mm_Key e = k \<and> mm_WrittenAt e = t \<and> mm_WrittenBy e = p \<and> (mm_Value e = v \<or> h (mm_Value e) = h v \<and> mm_Value e \<noteq> v)) \<or>
        (\<exists>actual. r = Err (MemoryTampered k (h v) actual) \<and> actual \<noteq> h v \<and> map_option mm_Value (map_of (ms_entries s) k) \<noteq> Some v))"
proof -
  have "agrees h k (map_of (ms_entries s) k) (last_written ops k)" using run_records assms(1) by (simp add: records_def)
  then show ?thesis unfolding assms(2) [symmetric]
    by (auto simp: agrees_def Memory_Read_def Let_def split: option.splits)
qed

theorem memory_read_genuine_witness:
  "\<exists>actual. Memory_Read (\<lambda>v. if v = [1] then ''a'' else ''b'') ''k'' (run_memory (\<lambda>v. if v = [1] then ''a'' else ''b'') [MWrite 5 ''k'' [1] ''me'', Tamper ''k'' [2]]) =
     Err (MemoryTampered ''k'' ''a'' actual)"
proof -
  let ?h = "\<lambda>v :: byte list. if v = [1] then ''a'' else ''b''"
  have w: "last_written [MWrite 5 ''k'' [1] ''me'', Tamper ''k'' [2]] ''k'' = Some (5, [1], ''me'')" by (simp add: last_written_def)
  have t: "map_option mm_Value (map_of (ms_entries (run_memory ?h [MWrite 5 ''k'' [1] ''me'', Tamper ''k'' [2]])) ''k'') = Some [2]"
    by (simp add: run_memory_def NewMemoryIntegrityStore_def Memory_Write_def Let_def)
  have "mm_Value e = [2]" if "Memory_Read ?h ''k'' (run_memory ?h [MWrite 5 ''k'' [1] ''me'', Tamper ''k'' [2]]) = Ok e" for e
    using that t by (auto simp: Memory_Read_def Let_def split: option.splits if_splits)
  then show ?thesis using memory_read_genuine [OF refl refl, of ?h "''k''" "[MWrite 5 ''k'' [1] ''me'', Tamper ''k'' [2]]"] unfolding w by auto
qed

text \<open>
  Every range of a log built by commits verifies. Two logs that verify in full and agree on one commit hash agree, up to there, on every commit
  hash, previous hash and on the bytes of content, time and loop, unless two of the inputs hashed for them collide.
\<close>

theorem total_order_tamper_evident:
  assumes "fixed_length cc" "Order_Verify cc 0 (length l) l = None" "Order_Verify cc 0 (length l') l' = None"
    "i < length l" "i < length l'" "to_CommitHash (l ! i) = to_CommitHash (l' ! i)" "inj_on (cc_sha256 cc) (commit_inputs cc l \<union> commit_inputs cc l')"
  shows "Order_Verify cc start stop (commit_all cc xs []) = None \<and>
    (\<forall>j \<le> i. to_PreviousHash (l ! j) = to_PreviousHash (l' ! j) \<and> body_bytes cc (l ! j) = body_bytes cc (l' ! j) \<and>
       to_CommitHash (l ! j) = to_CommitHash (l' ! j))"
proof -
  have "\<forall>i < length (commit_all cc xs []). check_event cc (commit_all cc xs []) i = None" by (rule commit_all_valid) simp
  then have "Order_Verify cc start stop (commit_all cc xs []) = None" by (simp add: Order_Verify_def order_verify_loop_None)
  moreover obtain n where "\<forall>x. length (cc_sha256 cc x) = n" using assms(1) by (auto simp: fixed_length_def)
  ultimately show ?thesis using heads_bind [OF assms(2,3) [unfolded verify_all] assms(7) _ assms(4-6)] by blast
qed

section \<open>Divergences\<close>

text \<open>The version of a key, documented as monotonic, starts again at 1 after a deletion.\<close>

lemma version_restarts:
  "k \<noteq> [] \<Longrightarrow> map_of (ms_entries s) k = Some e \<Longrightarrow>
   \<exists>s' e'. Memory_Write h now k v p (fst (Memory_Delete k s)) = (s', Ok e') \<and> mm_Version e' = 1"
  by (simp add: Memory_Write_def Memory_Delete_def Let_def)

text \<open>
  The fields under the commit hash are concatenated without lengths or delimiters, so a loop identifier that contains a
  rendered time can be moved into the event: different commits with the same bytes.
\<close>

lemma commit_bytes_ambiguous:
  "commit_bytes cc n event prev t (x @ cc_format cc u @ y) = commit_bytes cc n (event @ cc_format cc t @ x) prev u y"
  by (simp add: commit_bytes_def)

text \<open>The recorded position is hashed but not compared with the place in the log, so a log with other positions verifies.\<close>

lemma positions_unchecked:
  "Order_Verify cc 0 1 [\<lparr>to_OrderPosition = 7, to_EventEnvelope = e, to_CommitHash = computeCommitHash cc 7 e ''genesis'' t x, to_PreviousHash = ''genesis'',
     to_CommittedAt = t, to_LoopID = x\<rparr>] = None"
  by (simp add: Order_Verify_def check_event_def prev_commit_def Let_def)

end
