(* ===== verification/Kernel_Limiter.thy ===== *)
theory Kernel_Limiter
  imports Contracts
begin

text \<open>
  Backpressure, \<^verbatim>\<open>core/pkg/kernel/limiter.go\<close>: token buckets per actor. The code computes with \<^verbatim>\<open>float64\<close>; here numbers are rationals, so the
  bound is about the exact arithmetic. The clock reading of a call is an argument.
\<close>

section \<open>Buckets\<close>

record BackpressurePolicy =
  bq_RPM :: int
  bq_TPM :: int
  bq_Burst :: int

record TokenBucket =
  tb_tokens :: rat
  tb_capacity :: rat
  tb_refillRate :: rat
  tb_lastRefill :: gotime

definition NewTokenBucket :: "gotime \<Rightarrow> rat \<Rightarrow> int \<Rightarrow> TokenBucket" where
  "NewTokenBucket now ratePerSec capacity = \<lparr>tb_tokens = of_int capacity, tb_capacity = of_int capacity, tb_refillRate = ratePerSec, tb_lastRefill = now\<rparr>"

definition Duration_Seconds :: "godur \<Rightarrow> rat" where
  "Duration_Seconds d = of_int d / of_int second"

definition refill :: "gotime \<Rightarrow> TokenBucket \<Rightarrow> TokenBucket" where
  "refill now tb =
     (let elapsed = Duration_Seconds (time_sub now (tb_lastRefill tb)); tokens = tb_tokens tb + elapsed * tb_refillRate tb in
      tb\<lparr>tb_tokens := (if tokens > tb_capacity tb then tb_capacity tb else tokens), tb_lastRefill := now\<rparr>)"

definition Bucket_Allow :: "gotime \<Rightarrow> int \<Rightarrow> TokenBucket \<Rightarrow> TokenBucket \<times> bool" where
  "Bucket_Allow now cost tb =
     (let tb = refill now tb in
      if tb_tokens tb \<ge> of_int cost then (tb\<lparr>tb_tokens := tb_tokens tb - of_int cost\<rparr>, True) else (tb, False))"

type_synonym InMemoryLimiterStore = "(string, TokenBucket) gomap"

definition policy_rate :: "BackpressurePolicy \<Rightarrow> rat" where
  "policy_rate p = (let rate = of_int (bq_RPM p) / 60 in if rate \<le> 0 then 1 else rate)"

definition Store_Allow :: "gotime \<Rightarrow> string \<Rightarrow> BackpressurePolicy \<Rightarrow> int \<Rightarrow> InMemoryLimiterStore \<Rightarrow> InMemoryLimiterStore \<times> bool" where
  "Store_Allow now actorID policy cost s =
     (let tb = (case map_of s actorID of Some tb \<Rightarrow> tb | None \<Rightarrow> NewTokenBucket now (policy_rate policy) (bq_Burst policy)) in
      case Bucket_Allow now cost tb of (tb, ok) \<Rightarrow> (AList.update actorID tb s, ok))"

datatype backpressure_error = NoLimiterStore | LimiterFailed string | RateLimited string

text \<open>A store behind the interface may fail; the in-memory store does not. \<open>None\<close> for the store is nil.\<close>

definition EvaluateBackpressure :: "('s \<Rightarrow> string \<Rightarrow> BackpressurePolicy \<Rightarrow> int \<Rightarrow> 's \<times> (string, bool) res) \<Rightarrow> 's option \<Rightarrow> string \<Rightarrow> BackpressurePolicy \<Rightarrow>
    's option \<times> backpressure_error option" where
  "EvaluateBackpressure allow store actorID policy =
     (case store of
        None \<Rightarrow> (None, Some NoLimiterStore)
      | Some s \<Rightarrow>
          (case allow s actorID policy 1 of
             (s, Inl e) \<Rightarrow> (Some s, Some (LimiterFailed e))
           | (s, Inr allowed) \<Rightarrow> (Some s, if allowed then None else Some (RateLimited actorID))))"

definition in_memory_allow :: "gotime \<Rightarrow> InMemoryLimiterStore \<Rightarrow> string \<Rightarrow> BackpressurePolicy \<Rightarrow> int \<Rightarrow> InMemoryLimiterStore \<times> (string, bool) res" where
  "in_memory_allow now s actorID policy cost = (case Store_Allow now actorID policy cost s of (s, ok) \<Rightarrow> (s, Ok ok))"

section \<open>Histories\<close>

text \<open>A history of calls in the order of their clock readings, and the sum of what one actor was granted in it.\<close>

record limiter_call =
  xl_now :: gotime
  xl_actor :: string
  xl_policy :: BackpressurePolicy
  xl_cost :: int

fun run_limiter :: "limiter_call list \<Rightarrow> InMemoryLimiterStore \<Rightarrow> InMemoryLimiterStore \<times> (limiter_call \<times> bool) list" where
  "run_limiter [] s = (s, [])"
| "run_limiter (c # cs) s =
     (case Store_Allow (xl_now c) (xl_actor c) (xl_policy c) (xl_cost c) s of (s', ok) \<Rightarrow>
      (case run_limiter cs s' of (s'', out) \<Rightarrow> (s'', (c, ok) # out)))"

definition granted :: "string \<Rightarrow> (limiter_call \<times> bool) list \<Rightarrow> int" where
  "granted a out = sum_list (map (xl_cost \<circ> fst) (filter (\<lambda>(c, ok). ok \<and> xl_actor c = a) out))"

lemma granted_simps [simp]: "granted a [] = 0" "granted a ((c, ok) # out) = (if ok \<and> xl_actor c = a then xl_cost c else 0) + granted a out"
  by (simp_all add: granted_def)

definition bucket_ok :: "TokenBucket \<Rightarrow> bool" where
  "bucket_ok tb \<longleftrightarrow> 0 \<le> tb_tokens tb \<and> tb_tokens tb \<le> tb_capacity tb \<and> 0 < tb_refillRate tb"

lemma time_sub_bounds: "u \<le> t \<Longrightarrow> 0 \<le> time_sub t u \<and> time_sub t u \<le> t - u"
  by (auto simp: time_sub_def min_int64_def max_int64_def)

lemma seconds_bounds: "u \<le> t \<Longrightarrow> 0 \<le> Duration_Seconds (time_sub t u) \<and> Duration_Seconds (time_sub t u) \<le> Duration_Seconds (t - u)"
  using time_sub_bounds [of u t] by (simp add: Duration_Seconds_def second_def divide_right_mono)

text \<open>One call: the grant is paid for by the tokens there were and what time has added since.\<close>

lemma bucket_allow_pays:
  assumes "bucket_ok tb" "tb_lastRefill tb \<le> now" "0 \<le> cost" "Bucket_Allow now cost tb = (tb', ok)"
  shows "bucket_ok tb' \<and> tb_capacity tb' = tb_capacity tb \<and> tb_refillRate tb' = tb_refillRate tb \<and> tb_lastRefill tb' = now \<and>
    tb_tokens tb' + (if ok then of_int cost else 0) \<le> tb_tokens tb + tb_refillRate tb * Duration_Seconds (now - tb_lastRefill tb)"
proof -
  let ?e = "Duration_Seconds (time_sub now (tb_lastRefill tb))"
  have e: "0 \<le> ?e * tb_refillRate tb" "?e * tb_refillRate tb \<le> tb_refillRate tb * Duration_Seconds (now - tb_lastRefill tb)"
    using seconds_bounds [OF assms(2)] assms(1) by (auto simp: bucket_ok_def mult.commute mult_left_mono)
  have r: "bucket_ok (refill now tb)" "tb_tokens (refill now tb) \<le> tb_tokens tb + ?e * tb_refillRate tb"
    using assms(1) e(1) by (auto simp: bucket_ok_def refill_def Let_def)
  have s: "tb_capacity (refill now tb) = tb_capacity tb" "tb_refillRate (refill now tb) = tb_refillRate tb" "tb_lastRefill (refill now tb) = now"
    by (simp_all add: refill_def Let_def)
  have pay: "tb_tokens (refill now tb) \<le> tb_tokens tb + tb_refillRate tb * Duration_Seconds (now - tb_lastRefill tb)" using r(2) e(2) by linarith
  have c: "0 \<le> (of_int cost :: rat)" using assms(3) by simp
  show ?thesis
  proof (cases "of_int cost \<le> tb_tokens (refill now tb)")
    case True
    then have "tb' = (refill now tb)\<lparr>tb_tokens := tb_tokens (refill now tb) - of_int cost\<rparr>" "ok" using assms(4) by (auto simp: Bucket_Allow_def Let_def)
    then show ?thesis using r(1) s pay True c by (simp add: bucket_ok_def)
  next
    case False
    then have "tb' = refill now tb" "\<not> ok" using assms(4) by (auto simp: Bucket_Allow_def Let_def)
    then show ?thesis using r(1) s pay by simp
  qed
qed

lemma run_limiter_pays:
  assumes "map_of s a = Some tb" "bucket_ok tb" "sorted (map xl_now cs)" "\<forall>c \<in> set cs. 0 \<le> xl_cost c \<and> tb_lastRefill tb \<le> xl_now c \<and> xl_now c \<le> stop"
    "tb_lastRefill tb \<le> stop" "run_limiter cs s = (s', out)"
  shows "of_int (granted a out) \<le> tb_tokens tb + tb_refillRate tb * Duration_Seconds (stop - tb_lastRefill tb)"
  using assms
proof (induction cs arbitrary: s tb out)
  case Nil
  then show ?case by (simp add: bucket_ok_def Duration_Seconds_def second_def)
next
  case (Cons c cs)
  obtain s1 ok where st: "Store_Allow (xl_now c) (xl_actor c) (xl_policy c) (xl_cost c) s = (s1, ok)" by fastforce
  obtain rest where rest: "run_limiter cs s1 = (s', rest)" "out = (c, ok) # rest" using Cons.prems(6) st by (auto split: prod.splits)
  show ?case
  proof (cases "xl_actor c = a")
    case False
    then have "map_of s1 a = Some tb" using st Cons.prems(1) by (auto simp: Store_Allow_def Let_def split: prod.splits)
    from Cons.IH [OF this Cons.prems(2)] show ?thesis using Cons.prems(3-5) rest False by simp
  next
    case True
    obtain tb1 where b1: "Bucket_Allow (xl_now c) (xl_cost c) tb = (tb1, ok)" "map_of s1 a = Some tb1"
      using st Cons.prems(1) True by (auto simp: Store_Allow_def split: prod.splits)
    have "tb_lastRefill tb \<le> xl_now c" "0 \<le> xl_cost c" "xl_now c \<le> stop" using Cons.prems(4) by simp_all
    note pay = bucket_allow_pays [OF Cons.prems(2) this(1,2) b1(1)]
    have ih: "of_int (granted a rest) \<le> tb_tokens tb1 + tb_refillRate tb1 * Duration_Seconds (stop - tb_lastRefill tb1)"
    proof (rule Cons.IH [OF b1(2) _ _ _ _ rest(1)])
      show "bucket_ok tb1" "sorted (map xl_now cs)" "tb_lastRefill tb1 \<le> stop" using pay Cons.prems(3) \<open>xl_now c \<le> stop\<close> by auto
      show "\<forall>d \<in> set cs. 0 \<le> xl_cost d \<and> tb_lastRefill tb1 \<le> xl_now d \<and> xl_now d \<le> stop" using Cons.prems(3,4) pay by auto
    qed
    have "tb_refillRate tb * Duration_Seconds (xl_now c - tb_lastRefill tb) + tb_refillRate tb * Duration_Seconds (stop - xl_now c) = tb_refillRate tb * Duration_Seconds (stop - tb_lastRefill tb)"
      by (simp add: Duration_Seconds_def flip: distrib_left add_divide_distrib of_int_add)
    then show ?thesis using ih pay rest(2) True by (auto split: if_splits)
  qed
qed

text \<open>The first call of an actor finds a full bucket made by its policy.\<close>

lemma policy_rate_pos: "0 < policy_rate p"
  by (simp add: policy_rate_def Let_def)

lemma first_call:
  assumes "map_of s (xl_actor c) = None"
  shows "run_limiter (c # cs) s = run_limiter (c # cs) (AList.update (xl_actor c) (NewTokenBucket (xl_now c) (policy_rate (xl_policy c)) (bq_Burst (xl_policy c))) s)"
  using assms by (simp add: Store_Allow_def Let_def)

section \<open>Properties\<close>


definition w_limited :: "gotime \<Rightarrow> limiter_call" where
  "w_limited t = \<lparr>xl_now = t, xl_actor = ''a'', xl_policy = \<lparr>bq_RPM = 60, bq_TPM = 0, bq_Burst = 2\<rparr>, xl_cost = 1\<rparr>"


section \<open>Divergences\<close>

text \<open>A policy of no requests per minute admits one per second, and the policy of the first call is the one that stays in force.\<close>

lemma zero_rate_admits: "policy_rate \<lparr>bq_RPM = 0, bq_TPM = t, bq_Burst = b\<rparr> = 1"
  by (simp add: policy_rate_def)

lemma later_policy_ignored: "map_of s a = Some tb \<Longrightarrow> Store_Allow now a p cost s = Store_Allow now a q cost s"
  by (simp add: Store_Allow_def)

end
