(* ===== verification/Csnf_Decimal.thy ===== *)
theory Csnf_Decimal
  imports Complex_Main Helm_Prelude
begin

text \<open>
  Decimal and money values of the canonical semantic form, \<^verbatim>\<open>core/pkg/kernel/csnf_decimal.go\<close>. \<^verbatim>\<open>big.Rat\<close> and \<^verbatim>\<open>big.Int\<close> are rationals
  (in lowest terms, \<open>quotient_of\<close>) and integers. The lemmas: what normalisation does to the value, that it is idempotent, and that
  money survives the way through its decimal text.
\<close>

section \<open>Decimal text\<close>

definition decimal_digit :: "char \<Rightarrow> bool" where
  "decimal_digit c \<longleftrightarrow> 48 \<le> (of_char c :: nat) \<and> (of_char c :: nat) \<le> 57"

definition strip_sign :: "string \<Rightarrow> string" where
  "strip_sign s = (case s of [] \<Rightarrow> [] | c # t \<Rightarrow> if c = CHR ''+'' \<or> c = CHR ''-'' then t else s)"

definition int_digits :: "string \<Rightarrow> string" where
  "int_digits s = takeWhile decimal_digit (strip_sign s)"

definition frac_digits :: "string \<Rightarrow> string" where
  "frac_digits s = drop 1 (dropWhile decimal_digit (strip_sign s))"

text \<open>The expression \<^verbatim>\<open>^[+-]?[0-9]+(\.[0-9]+)?$\<close>.\<close>

definition decimalPattern :: "string \<Rightarrow> bool" where
  "decimalPattern s \<longleftrightarrow> int_digits s \<noteq> [] \<and>
     (case dropWhile decimal_digit (strip_sign s) of [] \<Rightarrow> True | c # f \<Rightarrow> c = CHR ''.'' \<and> f \<noteq> [] \<and> list_all decimal_digit f)"

definition digits_value :: "string \<Rightarrow> nat" where
  "digits_value s = foldl (\<lambda>n c. 10 * n + (of_char c - 48)) 0 s"

text \<open>The number a text of the pattern denotes, which \<^verbatim>\<open>Rat.SetString\<close> reads; what it makes of other texts is a parameter.\<close>

definition decimal_value :: "string \<Rightarrow> rat" where
  "decimal_value s =
     (let q = of_nat (digits_value (int_digits s @ frac_digits s)) / 10 ^ length (frac_digits s) in
      if s \<noteq> [] \<and> hd s = CHR ''-'' then - q else q)"

definition Rat_SetString :: "(string \<Rightarrow> rat option) \<Rightarrow> string \<Rightarrow> rat option" where
  "Rat_SetString other s = (if decimalPattern s then Some (decimal_value s) else other s)"

section \<open>Decimals\<close>

datatype csnf_error =
    InvalidFormat string | NotRational string | BelowMinimum string string | AboveMaximum string string | BadCurrency string
  | CustomNeedsID | TooPrecise string string

record DecimalSchema =
  dm_Scale :: int
  dm_Rounding :: string
  dm_MinValue :: string
  dm_MaxValue :: string

definition isAllZeros :: "string \<Rightarrow> bool" where
  "isAllZeros s = list_all (\<lambda>c. c = CHR ''0'') s"

definition has_prefix :: "string \<Rightarrow> string \<Rightarrow> bool" where
  "has_prefix p s \<longleftrightarrow> take (length p) s = p"

definition normalizeNegativeZero :: "string \<Rightarrow> string" where
  "normalizeNegativeZero s =
     (if has_prefix ''-'' s then
        let rest = drop 1 s in
        if rest = ''0'' then ''0'' else if has_prefix ''0.'' rest \<and> isAllZeros (drop 2 rest) then rest else s
      else s)"

definition ParseDecimal :: "string \<Rightarrow> (csnf_error, string) res" where
  "ParseDecimal s =
     (if \<not> decimalPattern s then Err (InvalidFormat s)
      else if s = ''-0'' \<or> s = ''-0.0'' \<or> has_prefix ''-0.'' s \<and> isAllZeros (drop 3 s) then Ok (normalizeNegativeZero s)
      else Ok s)"

text \<open>The rounding switch, on the quotient and remainder of the scaled value.\<close>

definition round_scaled :: "string \<Rightarrow> rat \<Rightarrow> int" where
  "round_scaled rounding scaled =
     (case quotient_of scaled of (n, d) \<Rightarrow>
        let intPart = n div d; remainder = n mod d; halfDenom = d div 2 in
        if remainder = 0 then intPart
        else if rounding = ''DOWN'' then intPart
        else if rounding = ''HALF_UP'' then (if remainder \<ge> halfDenom then intPart + 1 else intPart)
        else if rounding = ''HALF_EVEN'' then
          (if remainder > halfDenom then intPart + 1 else if remainder = halfDenom \<and> odd intPart then intPart + 1 else intPart)
        else intPart)"

text \<open>A string of digits with the point before its last \<open>scale\<close> digits; the loop pads it with zeros.\<close>

definition with_point :: "nat \<Rightarrow> string \<Rightarrow> string" where
  "with_point scale digits =
     (let s = replicate (Suc scale - length digits) (CHR ''0'') @ digits in take (length s - scale) s @ ''.'' @ drop (length s - scale) s)"

text \<open>\<open>None\<close>: with a negative scale the slice is out of range and the code panics.\<close>

definition formatDecimal :: "rat \<Rightarrow> int \<Rightarrow> string \<Rightarrow> string option" where
  "formatDecimal q scale rounding =
     (let scaleFactor = (if scale \<le> 0 then 1 else 10 ^ nat scale); intPart = round_scaled rounding (q * scaleFactor) in
      if scale = 0 then Some (dec_of_int intPart)
      else if scale < 0 then None
      else Some ((if intPart < 0 then ''-'' else []) @ with_point (nat scale) (dec_of_nat (nat \<bar>intPart\<bar>))))"

definition NormalizeDecimal :: "(string \<Rightarrow> rat option) \<Rightarrow> string \<Rightarrow> DecimalSchema \<Rightarrow> (csnf_error, string option) res" where
  "NormalizeDecimal other s schema =
     (case ParseDecimal s of
        Inl e \<Rightarrow> Err e
      | Inr v \<Rightarrow>
          (case Rat_SetString other v of
             None \<Rightarrow> Err (NotRational v)
           | Some q \<Rightarrow>
               if dm_MinValue schema \<noteq> [] \<and> (case Rat_SetString other (dm_MinValue schema) of Some m \<Rightarrow> q < m | None \<Rightarrow> False)
               then Err (BelowMinimum s (dm_MinValue schema))
               else if dm_MaxValue schema \<noteq> [] \<and> (case Rat_SetString other (dm_MaxValue schema) of Some m \<Rightarrow> q > m | None \<Rightarrow> False)
               then Err (AboveMaximum s (dm_MaxValue schema))
               else Ok (formatDecimal q (dm_Scale schema) (dm_Rounding schema))))"

section \<open>Money\<close>

record MoneyPeriod =
  mp_Kind :: string
  mp_ID :: string

record CSNFMoney =
  my_AmountMinorUnits :: int
  my_Currency :: string
  my_Period :: MoneyPeriod

definition NewMoney :: "(string \<Rightarrow> string) \<Rightarrow> int \<Rightarrow> string \<Rightarrow> MoneyPeriod \<Rightarrow> (csnf_error, CSNFMoney) res" where
  "NewMoney uu amount currency period =
     (if length currency \<noteq> 3 then Err (BadCurrency currency)
      else if mp_Kind period = ''CUSTOM'' \<and> mp_ID period = [] then Err CustomNeedsID
      else Ok \<lparr>my_AmountMinorUnits = amount, my_Currency = ToUpper uu currency, my_Period = period\<rparr>)"

definition CurrencyMinorUnits :: "(string \<Rightarrow> string) \<Rightarrow> string \<Rightarrow> nat" where
  "CurrencyMinorUnits uu currency =
     (let c = ToUpper uu currency in if c \<in> {''JPY'', ''KRW'', ''VND''} then 0 else if c \<in> {''BHD'', ''KWD'', ''OMR''} then 3 else 2)"

text \<open>\<^verbatim>\<open>Int64\<close> of a big integer keeps the low 64 bits.\<close>

definition MoneyFromDecimal :: "(string \<Rightarrow> string) \<Rightarrow> (string \<Rightarrow> rat option) \<Rightarrow> string \<Rightarrow> string \<Rightarrow> MoneyPeriod \<Rightarrow> (csnf_error, CSNFMoney) res" where
  "MoneyFromDecimal uu other decimalAmount currency period =
     (let scale = CurrencyMinorUnits uu currency in
      case ParseDecimal decimalAmount of
        Inl e \<Rightarrow> Err e
      | Inr v \<Rightarrow>
          (case Rat_SetString other v of
             None \<Rightarrow> Err (NotRational decimalAmount)
           | Some q \<Rightarrow>
               (case quotient_of (q * 10 ^ scale) of (n, d) \<Rightarrow>
                  if d \<noteq> 1 then Err (TooPrecise decimalAmount currency) else NewMoney uu (wrap64 n) currency period)))"

definition ToDecimal :: "(string \<Rightarrow> string) \<Rightarrow> CSNFMoney \<Rightarrow> string" where
  "ToDecimal uu m =
     (let scale = CurrencyMinorUnits uu (my_Currency m); amount = my_AmountMinorUnits m in
      if scale = 0 then dec_of_int amount
      else (if amount < 0 then ''-'' else []) @ with_point scale (dec_of_int (if amount < 0 then wrap64 (- amount) else amount)))"

definition ValidateMoney :: "CSNFMoney \<Rightarrow> string list" where
  "ValidateMoney m =
     (if length (my_Currency m) \<noteq> 3 then [''currency must be 3-letter ISO 4217 code''] else []) @
     (if mp_Kind (my_Period m) \<notin> {''INSTANT'', ''DAY'', ''MONTH'', ''INVOICE'', ''CONTRACT'', ''CUSTOM''} then [''invalid period kind: '' @ mp_Kind (my_Period m)] else []) @
     (if mp_Kind (my_Period m) = ''CUSTOM'' \<and> mp_ID (my_Period m) = [] then [''CUSTOM period requires id''] else [])"

section \<open>Digits\<close>

lemma decimal_digit_char [simp]: "d < 10 \<Longrightarrow> decimal_digit (digit_char d)"
  by (simp add: decimal_digit_def digit_char_def)

lemma dec_digits [simp]: "list_all decimal_digit (dec_of_nat n)"
proof (induction n rule: dec_of_nat.induct)
  case (1 n)
  then show ?case by (subst dec_of_nat.simps) simp
qed

lemma digits_value_snoc: "digits_value (s @ [c]) = 10 * digits_value s + (of_char c - 48)"
  by (simp add: digits_value_def)

lemma dec_value [simp]: "digits_value (dec_of_nat n) = n"
proof (induction n rule: dec_of_nat.induct)
  case (1 n)
  show ?case
  proof (cases "n < 10")
    case True
    then show ?thesis by (subst dec_of_nat.simps) (simp add: digits_value_def digit_char_def)
  next
    case False
    then show ?thesis using 1 by (subst dec_of_nat.simps) (simp add: digits_value_snoc digit_char_def)
  qed
qed

lemma digits_value_zeros [simp]: "digits_value (replicate n (CHR ''0'') @ s) = digits_value s"
  by (induction n) (simp_all add: digits_value_def)

lemma not_digits [simp]: "\<not> decimal_digit (CHR ''.'')" "\<not> decimal_digit (CHR ''-'')" "\<not> decimal_digit (CHR ''+'')" "decimal_digit (CHR ''0'')"
  by (simp_all add: decimal_digit_def)

lemma takeWhile_digits: "list_all decimal_digit a \<Longrightarrow> takeWhile decimal_digit (a @ CHR ''.'' # f) = a" "list_all decimal_digit a \<Longrightarrow> dropWhile decimal_digit (a @ CHR ''.'' # f) = CHR ''.'' # f"
  by (induction a) auto

lemma strip_digits: "list_all decimal_digit a \<Longrightarrow> a \<noteq> [] \<Longrightarrow> strip_sign (a @ x) = a @ x"
  by (cases a) (auto simp: strip_sign_def)

lemma strip_minus [simp]: "strip_sign (CHR ''-'' # x) = x"
  by (simp add: strip_sign_def)

text \<open>The parts of a signed text.\<close>

lemma pointed_parts:
  assumes "list_all decimal_digit a" "a \<noteq> []" "list_all decimal_digit f" "f \<noteq> []" "sg = [] \<or> sg = ''-''"
  shows "decimalPattern (sg @ a @ ''.'' @ f)" "int_digits (sg @ a @ ''.'' @ f) = a" "frac_digits (sg @ a @ ''.'' @ f) = f"
proof -
  have s: "strip_sign (sg @ a @ ''.'' @ f) = a @ CHR ''.'' # f" using assms(5) strip_digits [OF assms(1,2)] by auto
  show "int_digits (sg @ a @ ''.'' @ f) = a" "frac_digits (sg @ a @ ''.'' @ f) = f"
    unfolding int_digits_def frac_digits_def s by (simp_all add: takeWhile_digits [OF assms(1)])
  then show "decimalPattern (sg @ a @ ''.'' @ f)" unfolding decimalPattern_def s using assms by (simp add: takeWhile_digits)
qed

lemma plain_parts:
  assumes "list_all decimal_digit a" "a \<noteq> []" "sg = [] \<or> sg = ''-''"
  shows "decimalPattern (sg @ a)" "int_digits (sg @ a) = a" "frac_digits (sg @ a) = []"
proof -
  have s: "strip_sign (sg @ a) = a" using assms(3) strip_digits [OF assms(1,2), of "[]"] by auto
  have t: "takeWhile decimal_digit a = a" "dropWhile decimal_digit a = []" using assms(1) by (simp_all add: list_all_iff takeWhile_eq_all_conv dropWhile_eq_Nil_conv)
  show "decimalPattern (sg @ a)" "int_digits (sg @ a) = a" "frac_digits (sg @ a) = []"
    unfolding decimalPattern_def int_digits_def frac_digits_def s t using assms(2) by simp_all
qed

section \<open>Formatted numbers\<close>

lemma all_digits_split: "list_all decimal_digit s \<Longrightarrow> list_all decimal_digit (take n s) \<and> list_all decimal_digit (drop n s)"
  by (auto simp: list_all_iff dest: in_set_takeD in_set_dropD)

lemma with_point_parts:
  assumes "list_all decimal_digit digits" "0 < scale"
  obtains a f where "with_point scale digits = a @ ''.'' @ f" "list_all decimal_digit a" "a \<noteq> []" "list_all decimal_digit f" "f \<noteq> []" "length f = scale"
    "digits_value (a @ f) = digits_value digits"
proof -
  define s where "s = replicate (Suc scale - length digits) (CHR ''0'') @ digits"
  have d: "list_all decimal_digit s" using assms(1) by (auto simp: s_def list_all_iff in_set_replicate)
  have len: "scale < length s" by (auto simp: s_def)
  have v: "digits_value s = digits_value digits" by (simp add: s_def)
  show ?thesis
  proof (rule that [of "take (length s - scale) s" "drop (length s - scale) s"])
    show "with_point scale digits = take (length s - scale) s @ ''.'' @ drop (length s - scale) s" by (simp add: with_point_def Let_def s_def)
  qed (use all_digits_split [OF d] len assms(2) v in auto)
qed

text \<open>The text of an integer with a point in it, signed.\<close>

definition scaled_text :: "int \<Rightarrow> nat \<Rightarrow> string" where
  "scaled_text i scale = (if scale = 0 then dec_of_int i else (if i < 0 then ''-'' else []) @ with_point scale (dec_of_nat (nat \<bar>i\<bar>)))"

lemma digit_not_minus: "list_all decimal_digit a \<Longrightarrow> a \<noteq> [] \<Longrightarrow> hd (a @ x) \<noteq> CHR ''-''"
  by (cases a) auto

lemma scaled_text_value:
  "decimalPattern (scaled_text i scale)" "decimal_value (scaled_text i scale) = of_int i / 10 ^ scale" "length (frac_digits (scaled_text i scale)) = scale"
proof -
  let ?sg = "if i < 0 then ''-'' else []"
  have sg: "?sg = [] \<or> ?sg = ''-''" by simp
  have "decimalPattern (scaled_text i scale) \<and> decimal_value (scaled_text i scale) = of_int i / 10 ^ scale \<and> length (frac_digits (scaled_text i scale)) = scale"
  proof (cases "scale = 0")
    case True
    have t: "scaled_text i scale = ?sg @ dec_of_nat (nat \<bar>i\<bar>)" using True by (simp add: scaled_text_def dec_of_int_def)
    note p = plain_parts [OF dec_digits dec_of_nat_nonempty(1) sg, of "nat \<bar>i\<bar>"]
    have "hd (scaled_text i scale) = CHR ''-'' \<longleftrightarrow> i < 0" using digit_not_minus [OF dec_digits dec_of_nat_nonempty(1), of "nat \<bar>i\<bar>" "[]"] by (auto simp: t)
    moreover have "scaled_text i scale \<noteq> []" by (simp add: t)
    ultimately show ?thesis using p True unfolding decimal_value_def t by (auto simp: Let_def of_nat_nat)
  next
    case False
    then obtain a f where w: "with_point scale (dec_of_nat (nat \<bar>i\<bar>)) = a @ ''.'' @ f" and d: "list_all decimal_digit a" "a \<noteq> []" "list_all decimal_digit f" "f \<noteq> []"
      and l: "length f = scale" "digits_value (a @ f) = nat \<bar>i\<bar>"
      using with_point_parts [OF dec_digits, of scale] by (metis dec_value neq0_conv)
    have t: "scaled_text i scale = ?sg @ a @ ''.'' @ f" using False w by (simp add: scaled_text_def)
    note p = pointed_parts [OF d sg]
    have "hd (scaled_text i scale) = CHR ''-'' \<longleftrightarrow> i < 0" using digit_not_minus [OF d(1,2)] by (auto simp: t)
    moreover have "scaled_text i scale \<noteq> []" by (simp add: t)
    ultimately show ?thesis using p l unfolding decimal_value_def t by (auto simp: Let_def of_nat_nat)
  qed
  then show "decimalPattern (scaled_text i scale)" "decimal_value (scaled_text i scale) = of_int i / 10 ^ scale" "length (frac_digits (scaled_text i scale)) = scale" by auto
qed

lemma formatDecimal_text: "formatDecimal q (int scale) r = Some (scaled_text (round_scaled r (q * 10 ^ scale)) scale)"
  by (simp add: formatDecimal_def scaled_text_def Let_def)

section \<open>Rounding\<close>

lemma round_int [simp]: "round_scaled r (of_int i) = i"
  by (simp add: round_scaled_def quotient_of_int)

lemma round_close: "\<bar>of_int (round_scaled r q) - q\<bar> < 1"
proof -
  obtain n d where nd: "quotient_of q = (n, d)" by fastforce
  then have q: "q = of_int n / of_int d" and d: "0 < d" using quotient_of_div quotient_of_denom_pos by blast+
  have fl: "n div d = floor q" by (simp add: q floor_divide_of_int_eq)
  have int: "of_int (floor q) = q" if "n mod d = 0"
    using that d by (simp add: q floor_divide_of_int_eq) (metis mod_0_imp_dvd of_int_div dvd_imp_mod_0)
  have ne: "of_int (floor q) \<noteq> q" if "n mod d \<noteq> 0"
  proof
    assume f: "of_int (floor q) = q"
    have "(of_int (floor q * d) :: rat) = q * of_int d" by (simp add: f)
    also have "\<dots> = of_int n" using d unfolding q by simp
    finally have "floor q * d = n" by (simp only: of_int_eq_iff)
    then show False using that by (metis mod_mult_self2_is_0)
  qed
  have "round_scaled r q \<in> {floor q, floor q + 1} \<and> (n mod d = 0 \<longrightarrow> round_scaled r q = floor q)"
    by (simp add: round_scaled_def nd fl Let_def)
  moreover have "of_int (floor q) \<le> q" "q < of_int (floor q) + 1" using floor_correct [of q] by auto
  moreover have "of_int (floor q) < q" if "n mod d \<noteq> 0" using ne [OF that] of_int_floor_le [of q] by (simp add: order_less_le)
  ultimately show ?thesis using int by (cases "n mod d = 0") auto
qed

text \<open>Parsing keeps the value; all it changes is the sign of some zeros.\<close>

lemma zeros_value: "isAllZeros z \<Longrightarrow> digits_value z = 0 \<and> list_all decimal_digit z"
  by (induction z rule: rev_induct) (auto simp: isAllZeros_def digits_value_snoc, simp_all add: digits_value_def)

lemma has_prefixD: "has_prefix p s \<Longrightarrow> s = p @ drop (length p) s"
  by (metis append_take_drop_id has_prefix_def)

lemma normalizeNegativeZero_cases:
  assumes "normalizeNegativeZero s \<noteq> s"
  obtains "s = ''-0''" "normalizeNegativeZero s = ''0''"
  | z where "s = ''-'' @ ''0'' @ ''.'' @ z" "normalizeNegativeZero s = [] @ ''0'' @ ''.'' @ z" "isAllZeros z"
proof -
  have p: "has_prefix ''-'' s" using assms by (auto simp: normalizeNegativeZero_def split: if_splits)
  then have s: "s = CHR ''-'' # drop 1 s" using has_prefixD [OF p] by simp
  show thesis
  proof (cases "drop 1 s = ''0''")
    case True
    then show thesis using that(1) s p by (simp add: normalizeNegativeZero_def)
  next
    case False
    then have z: "has_prefix ''0.'' (drop 1 s)" "isAllZeros (drop 2 (drop 1 s))" using assms p by (auto simp: normalizeNegativeZero_def Let_def split: if_splits)
    have "drop 1 s = ''0.'' @ drop 2 (drop 1 s)" using has_prefixD [OF z(1)] by simp
    moreover have "normalizeNegativeZero s = drop 1 s" using False z p by (simp add: normalizeNegativeZero_def Let_def)
    ultimately show thesis using that(2) [of "drop 2 (drop 1 s)"] z(2) s by simp
  qed
qed

lemma parse_value:
  assumes "ParseDecimal s = Ok v"
  shows "decimalPattern v \<and> decimal_value v = decimal_value s"
proof (cases "v = s")
  case True
  then show ?thesis using assms by (auto simp: ParseDecimal_def split: if_splits)
next
  case False
  then have v: "v = normalizeNegativeZero s" "decimalPattern s" using assms by (auto simp: ParseDecimal_def split: if_splits)
  then have "normalizeNegativeZero s \<noteq> s" using False by simp
  then consider "s = ''-0''" "v = ''0''" | z where "s = ''-'' @ ''0'' @ ''.'' @ z" "v = [] @ ''0'' @ ''.'' @ z" "isAllZeros z" "decimalPattern s"
    by (cases rule: normalizeNegativeZero_cases) (use v in auto)
  then show ?thesis
  proof cases
    case 1
    then show ?thesis by (auto simp: decimalPattern_def decimal_value_def int_digits_def frac_digits_def strip_sign_def digits_value_def)
  next
    case 2
    have z: "z \<noteq> []" using 2(4) by (auto simp: 2(1) decimalPattern_def strip_sign_def int_digits_def)
    have d: "list_all decimal_digit ''0''" by simp
    note zs = zeros_value [OF 2(3)]
    have "digits_value (''0'' @ z) = 0" using zs digits_value_zeros [of 1 z] by simp
    then show ?thesis using pointed_parts [OF d _ _ z, of "''-''"] pointed_parts [OF d _ _ z, of "[]"] zs unfolding 2(1,2) decimal_value_def by (auto simp: Let_def)
  qed
qed

lemma parse_pattern: "decimalPattern s \<Longrightarrow> \<exists>v. ParseDecimal s = Ok v"
  by (simp add: ParseDecimal_def)

lemma exact_scaled: "length (frac_digits s) \<le> scale \<Longrightarrow> \<exists>i. decimal_value s * 10 ^ scale = of_int i"
proof -
  let ?n = "length (frac_digits s)" and ?v = "int (digits_value (int_digits s @ frac_digits s))"
  assume "?n \<le> scale"
  then obtain k where k: "scale = ?n + k" by (metis le_iff_add)
  have "decimal_value s * 10 ^ scale = of_int ((if s \<noteq> [] \<and> hd s = CHR ''-'' then - ?v else ?v) * 10 ^ k)"
    unfolding k by (simp add: decimal_value_def Let_def power_add)
  then show ?thesis by blast
qed

lemma normalize_unbounded:
  assumes "ParseDecimal s = Ok v" "dm_MinValue schema = []" "dm_MaxValue schema = []" "dm_Scale schema = int scale"
  shows "NormalizeDecimal other s schema = Ok (Some (scaled_text (round_scaled (dm_Rounding schema) (decimal_value s * 10 ^ scale)) scale))"
  using assms parse_value [OF assms(1)] by (simp add: NormalizeDecimal_def Rat_SetString_def formatDecimal_text)

section \<open>Properties\<close>


text \<open>
  A valid amount of money, other than the least 64-bit amount, survives the way through its decimal text.
\<close>

theorem money_roundtrip:
  assumes "NewMoney uu (my_AmountMinorUnits m) (my_Currency m) (my_Period m) = Ok m" "int64 (my_AmountMinorUnits m)" "my_AmountMinorUnits m \<noteq> min_int64"
  shows "MoneyFromDecimal uu other (ToDecimal uu m) (my_Currency m) (my_Period m) = Ok m"
proof -
  let ?a = "my_AmountMinorUnits m" and ?n = "CurrencyMinorUnits uu (my_Currency m)"
  have "int64 (- ?a)" using assms(2,3) by (simp add: int64_def min_int64_def max_int64_def)
  then have "dec_of_int (if ?a < 0 then wrap64 (- ?a) else ?a) = dec_of_nat (nat \<bar>?a\<bar>)" by (auto simp: dec_of_int_def)
  then have t: "ToDecimal uu m = scaled_text ?a ?n" by (simp add: ToDecimal_def scaled_text_def Let_def)
  obtain v where v: "ParseDecimal (scaled_text ?a ?n) = Ok v" using parse_pattern [OF scaled_text_value(1)] by blast
  have "quotient_of (decimal_value v * 10 ^ ?n) = (?a, 1)" using parse_value [OF v] by (simp add: scaled_text_value(2) quotient_of_int)
  then show ?thesis using parse_value [OF v] assms(1,2) by (simp add: MoneyFromDecimal_def t v Rat_SetString_def)
qed

section \<open>Witnesses\<close>

definition w_schema :: "string \<Rightarrow> int \<Rightarrow> DecimalSchema" where
  "w_schema r n = \<lparr>dm_Scale = n, dm_Rounding = r, dm_MinValue = [], dm_MaxValue = []\<rparr>"


definition w_money :: CSNFMoney where
  "w_money = \<lparr>my_AmountMinorUnits = - 7, my_Currency = ''USD'', my_Period = \<lparr>mp_Kind = ''DAY'', mp_ID = []\<rparr>\<rparr>"

theorem money_roundtrip_witness:
  "MoneyFromDecimal id (\<lambda>_. None) (ToDecimal id w_money) ''USD'' \<lparr>mp_Kind = ''DAY'', mp_ID = []\<rparr> = Ok w_money"
proof -
  have "ToUpper id ''USD'' = ''USD''" by code_simp
  then have "NewMoney id (my_AmountMinorUnits w_money) (my_Currency w_money) (my_Period w_money) = Ok w_money" by (simp add: NewMoney_def w_money_def)
  from money_roundtrip [OF this, of "\<lambda>_. None"] show ?thesis by (simp add: w_money_def int64_def min_int64_def max_int64_def)
qed

section \<open>Divergences\<close>

text \<open>
  Half the denominator is rounded down when it is odd, so values below the middle count as the middle or above: 0.4 rounds half up to 1, and
  1.4 is a tie that goes to 2.
\<close>

lemma half_up_of_four_tenths: "round_scaled ''HALF_UP'' (2 / 5) = 1" "round_scaled ''HALF_EVEN'' (7 / 5) = 2"
  by code_simp+

text \<open>The mode that is to truncate takes the floor: minus one half goes down to minus one.\<close>

lemma down_of_negative: "round_scaled ''DOWN'' (- 1 / 2) = - 1"
  by code_simp

text \<open>Bounds are tested before rounding, so a normalised value can exceed the declared maximum.\<close>

lemma rounding_exceeds_maximum:
  "NormalizeDecimal (\<lambda>_. None) ''0.9'' ((w_schema ''HALF_UP'' 0)\<lparr>dm_MaxValue := ''0.9''\<rparr>) = Ok (Some ''1'')"
  by code_simp

text \<open>An amount beyond 64 bits is accepted with its low bits: \<open>2 ^ 63\<close> minor units become the least negative amount.\<close>

lemma money_wraps: "MoneyFromDecimal uu other (scaled_text i (CurrencyMinorUnits uu c)) c period = NewMoney uu (wrap64 i) c period"
proof -
  let ?n = "CurrencyMinorUnits uu c"
  obtain v where v: "ParseDecimal (scaled_text i ?n) = Ok v" using parse_pattern [OF scaled_text_value(1)] by blast
  have "quotient_of (decimal_value v * 10 ^ ?n) = (i, 1)" using parse_value [OF v] by (simp add: scaled_text_value(2) quotient_of_int)
  then show ?thesis using parse_value [OF v] by (simp add: MoneyFromDecimal_def v Rat_SetString_def)
qed

lemma money_wraps_sign: "wrap64 (2 ^ 63) = min_int64"
  by (simp add: wrap64_def min_int64_def)

text \<open>The text of the least amount has two signs and is not a decimal.\<close>

lemma least_money_malformed:
  assumes "CurrencyMinorUnits uu (my_Currency m) = 2" "my_AmountMinorUnits m = min_int64"
  shows "\<not> decimalPattern (ToDecimal uu m)"
proof -
  let ?d = "dec_of_nat 9223372036854775808"
  have "?d = dec_of_nat 922337203685477580 @ [digit_char 8]" by (subst dec_of_nat.simps) simp
  then obtain k where k: "length ?d = Suc (Suc k)" by (cases "dec_of_nat 922337203685477580") simp_all
  have w: "with_point 2 (CHR ''-'' # ?d) = CHR ''-'' # take (length ?d - 2) ?d @ ''.'' @ drop (length ?d - 2) ?d"
    by (simp add: with_point_def Let_def k)
  have "ToDecimal uu m = CHR ''-'' # with_point 2 (CHR ''-'' # ?d)"
    using assms by (simp add: ToDecimal_def dec_of_int_def wrap64_def min_int64_def Let_def)
  then show ?thesis unfolding w decimalPattern_def int_digits_def by simp
qed

end
