(* ===== verification/Evidence_Merkle.thy ===== *)
theory Evidence_Merkle
  imports Contracts "HOL-Library.List_Lexorder" "HOL-Library.Char_ord"
begin

text \<open>
  Merkle trees over evidence packs and views with selective disclosure, \<^verbatim>\<open>core/pkg/kernel/merkle.go\<close>. The hash (into 32 bytes) and the canonical
  bytes of a value are parameters. The lemmas: generated proofs verify, a verified proof of recomputed leaf bytes is about a leaf of the tree, and
  what a derived view discloses.
\<close>

section \<open>Hashes\<close>

text \<open>\<^verbatim>\<open>hex.DecodeString\<close> with its error ignored: the bytes before the first fault.\<close>

fun hex_partial :: "string \<Rightarrow> byte list" where
  "hex_partial (a # b # s) =
     (case (from_hex_char a, from_hex_char b) of (Some x, Some y) \<Rightarrow> of_nat (16 * x + y) # hex_partial s | _ \<Rightarrow> [])"
| "hex_partial _ = []"

definition TrimPrefix :: "string \<Rightarrow> string \<Rightarrow> string" where
  "TrimPrefix p s = (case strip_prefix p s of Some t \<Rightarrow> t | None \<Rightarrow> s)"

definition bytes_string :: "byte list \<Rightarrow> string" where
  "bytes_string = map (\<lambda>b. char_of (unat b))"

definition sha256Hex :: "(string \<Rightarrow> byte list) \<Rightarrow> string \<Rightarrow> string" where
  "sha256Hex sha data = ''sha256:'' @ hex_EncodeToString (sha data)"

definition hexToBytes :: "string \<Rightarrow> byte list" where
  "hexToBytes s = hex_partial (TrimPrefix ''sha256:'' s)"

definition LeafPrefix :: string where "LeafPrefix = ''helm:evidence:leaf:v1''"
definition NodePrefix :: string where "NodePrefix = ''helm:evidence:node:v1''"

definition buildLeafBytes :: "string \<Rightarrow> string \<Rightarrow> string" where
  "buildLeafBytes path canonicalValue = LeafPrefix @ [CHR 0x00] @ path @ [CHR 0x00] @ canonicalValue"

definition node_bytes :: "string \<Rightarrow> string \<Rightarrow> string" where
  "node_bytes left right = NodePrefix @ [CHR 0x00] @ bytes_string (hexToBytes left) @ bytes_string (hexToBytes right)"

definition buildNodeHash :: "(string \<Rightarrow> byte list) \<Rightarrow> string \<Rightarrow> string \<Rightarrow> string" where
  "buildNodeHash sha left right = sha256Hex sha (node_bytes left right)"

section \<open>Trees\<close>

record MerkleLeaf =
  ml_Path :: string
  ml_LeafBytes :: string
  ml_LeafHash :: string

record MerkleTree =
  mt_Leaves :: "MerkleLeaf list"
  mt_Root :: string
  mt_Levels :: "string list list"

record ProofStep =
  px_Side :: string
  px_SiblingHash :: string

record EvidenceProof =
  ip_ProofID :: string
  ip_LeafPath :: string
  ip_LeafHash :: string
  ip_MerkleRoot :: string
  ip_ProofPath :: "ProofStep list"

text \<open>
  \<^verbatim>\<open>extractPathValues\<close>, with the nested calls on maps, array elements and single values. The order in which a Go map is walked is
  open; here it is the order of the list.
\<close>

definition put_all :: "(string, gval) gomap \<Rightarrow> (string, gval) gomap \<Rightarrow> (string, gval) gomap" where
  "put_all new m = fold (\<lambda>(k, v). AList.update k v) new m"

fun extract_map :: "string \<Rightarrow> (string \<times> gval) list \<Rightarrow> (string, gval) gomap"
  and extract_child :: "string \<Rightarrow> gval \<Rightarrow> (string, gval) gomap"
  and extract_array :: "string \<Rightarrow> nat \<Rightarrow> gval list \<Rightarrow> (string, gval) gomap"
  and extract_elem :: "string \<Rightarrow> gval \<Rightarrow> (string, gval) gomap" where
  "extract_map prefix [] = []"
| "extract_map prefix ((key, val) # m) = put_all (extract_map prefix m) (extract_child (prefix @ ''/'' @ key) val)"
| "extract_child path (GMap m) = extract_map path m"
| "extract_child path (GList xs) = extract_array path 0 xs"
| "extract_child path v = [(path, v)]"
| "extract_array path i [] = []"
| "extract_array path i (x # xs) = put_all (extract_array path (Suc i) xs) (extract_elem (path @ ''/'' @ dec_of_nat i) x)"
| "extract_elem path (GMap m) = extract_map path m"
| "extract_elem path v = [(path, v)]"

definition extractPathValues :: "(string \<times> gval) list \<Rightarrow> (string, gval) gomap" where
  "extractPathValues obj = extract_map [] obj"

definition pad_level :: "string list \<Rightarrow> string list" where
  "pad_level level = (if odd (length level) then level @ [last level] else level)"

fun pair_up :: "(string \<Rightarrow> byte list) \<Rightarrow> string list \<Rightarrow> string list" where
  "pair_up sha (l # r # xs) = buildNodeHash sha l r # pair_up sha xs"
| "pair_up sha _ = []"

definition buildNextLevel :: "(string \<Rightarrow> byte list) \<Rightarrow> string list \<Rightarrow> string list" where
  "buildNextLevel sha level = pair_up sha (pad_level level)"

lemma pair_up_length [simp]: "length (pair_up sha xs) = length xs div 2"
  by (induction sha xs rule: pair_up.induct) auto

lemma next_level_length: "length (buildNextLevel sha level) = (length level + 1) div 2"
  by (auto simp: buildNextLevel_def pad_level_def elim!: evenE oddE)

function build_levels :: "(string \<Rightarrow> byte list) \<Rightarrow> string list \<Rightarrow> string list list" where
  "build_levels sha level = (if length level > 1 then level # build_levels sha (buildNextLevel sha level) else [level])"
  by pat_completeness auto
termination
  by (relation "measure (\<lambda>(sha, level). length level)") (auto simp: next_level_length)

declare build_levels.simps [simp del]

fun build_leaves :: "(string \<Rightarrow> byte list) \<Rightarrow> (gval \<Rightarrow> (string, string) res) \<Rightarrow> (string, gval) gomap \<Rightarrow> string list \<Rightarrow> (string, MerkleLeaf list) res" where
  "build_leaves sha canonical m [] = Ok []"
| "build_leaves sha canonical m (path # paths) =
     (case canonical (case map_of m path of Some v \<Rightarrow> v | None \<Rightarrow> GNil) of
        Inl e \<Rightarrow> Err (''failed to canonicalize value at '' @ path @ '': '' @ e)
      | Inr c \<Rightarrow>
          let leafBytes = buildLeafBytes path c in
          (case build_leaves sha canonical m paths of
             Inl e \<Rightarrow> Err e
           | Inr ls \<Rightarrow> Ok (\<lparr>ml_Path = path, ml_LeafBytes = leafBytes, ml_LeafHash = sha256Hex sha leafBytes\<rparr> # ls)))"

definition BuildTree :: "(string \<Rightarrow> byte list) \<Rightarrow> (gval \<Rightarrow> (string, string) res) \<Rightarrow> (string \<times> gval) list \<Rightarrow> (string, MerkleTree) res" where
  "BuildTree sha canonical obj =
     (let m = extractPathValues obj in
      case build_leaves sha canonical m (sort (map fst m)) of
        Inl e \<Rightarrow> Err e
      | Inr leaves \<Rightarrow>
          if leaves = [] then Ok \<lparr>mt_Leaves = [], mt_Root = sha256Hex sha [], mt_Levels = []\<rparr>
          else let levels = build_levels sha (map ml_LeafHash leaves) in
            Ok \<lparr>mt_Leaves = leaves, mt_Root = hd (last levels), mt_Levels = levels\<rparr>)"

section \<open>Proofs\<close>

fun find_leaf :: "string \<Rightarrow> MerkleLeaf list \<Rightarrow> nat \<Rightarrow> nat option" where
  "find_leaf path [] i = None"
| "find_leaf path (l # ls) i = (if ml_Path l = path then Some i else find_leaf path ls (Suc i))"

fun sibling_path :: "string list list \<Rightarrow> nat \<Rightarrow> ProofStep list" where
  "sibling_path (level # upper # levels) i =
     (let step = (if even i then \<lparr>px_Side = ''R'', px_SiblingHash = level ! (if i + 1 \<ge> length level then i else i + 1)\<rparr>
                  else \<lparr>px_Side = ''L'', px_SiblingHash = level ! (i - 1)\<rparr>)
      in step # sibling_path (upper # levels) (i div 2))"
| "sibling_path _ i = []"

definition generateProofID :: "(string \<Rightarrow> byte list) \<Rightarrow> string \<Rightarrow> string \<Rightarrow> string" where
  "generateProofID sha path merkleRoot = ''proof_'' @ hex_EncodeToString (take 8 (sha (path @ '':'' @ merkleRoot)))"

definition GenerateProof :: "(string \<Rightarrow> byte list) \<Rightarrow> MerkleTree \<Rightarrow> string \<Rightarrow> (string, EvidenceProof) res" where
  "GenerateProof sha tree path =
     (case find_leaf path (mt_Leaves tree) 0 of
        None \<Rightarrow> Err (''path not found in tree: '' @ path)
      | Some i \<Rightarrow> Ok \<lparr>ip_ProofID = generateProofID sha path (mt_Root tree), ip_LeafPath = path, ip_LeafHash = ml_LeafHash (mt_Leaves tree ! i),
          ip_MerkleRoot = mt_Root tree, ip_ProofPath = sibling_path (mt_Levels tree) i\<rparr>)"

fun walk_proof :: "(string \<Rightarrow> byte list) \<Rightarrow> string \<Rightarrow> ProofStep list \<Rightarrow> string" where
  "walk_proof sha current [] = current"
| "walk_proof sha current (s # steps) =
     walk_proof sha (if px_Side s = ''L'' then buildNodeHash sha (px_SiblingHash s) current else buildNodeHash sha current (px_SiblingHash s)) steps"

definition VerifyProof :: "(string \<Rightarrow> byte list) \<Rightarrow> EvidenceProof \<Rightarrow> string \<Rightarrow> bool" where
  "VerifyProof sha p expectedRoot \<longleftrightarrow> walk_proof sha (ip_LeafHash p) (ip_ProofPath p) = expectedRoot"

section \<open>Views\<close>

record SealedField =
  sf_Path :: string
  sf_Commitment :: string
  sf_Reason :: string

record DisclosureRule =
  dl_PathPattern :: string
  dl_Action :: string
  dl_Reason :: string

record ViewPolicy =
  vp_PolicyID :: string
  vp_Name :: string
  vp_DisclosureRules :: "DisclosureRule list"

record EvidenceView =
  vw_ViewID :: string
  vw_EvidencePackHash :: string
  vw_ViewPolicyID :: string
  vw_Disclosed :: "(string, gval option) gomap"
  vw_Sealed :: "SealedField list"
  vw_Proofs :: "EvidenceProof list"
  vw_ViewHash :: string
  vw_CreatedAt :: string

definition matchPath :: "string \<Rightarrow> string \<Rightarrow> bool" where
  "matchPath path pattern =
     (if pattern = ''*'' then True
      else case strip_prefix (rev ''/*'') (rev pattern) of
        Some t \<Rightarrow> strip_prefix (rev t @ ''/'') path \<noteq> None
      | None \<Rightarrow> path = pattern)"

fun match_rules :: "string \<Rightarrow> DisclosureRule list \<Rightarrow> string \<times> string" where
  "match_rules path [] = (''SEAL'', ''no matching policy rule'')"
| "match_rules path (r # rs) = (if matchPath path (dl_PathPattern r) then (dl_Action r, dl_Reason r) else match_rules path rs)"

definition matchPolicy :: "string \<Rightarrow> ViewPolicy \<Rightarrow> string \<times> string" where
  "matchPolicy path policy = match_rules path (vp_DisclosureRules policy)"

text \<open>\<open>None\<close> is the nil interface value.\<close>

fun descend :: "gval option \<Rightarrow> string list \<Rightarrow> gval option" where
  "descend v [] = v"
| "descend v (part # parts) =
     (if part = [] then descend v parts
      else case v of Some (GMap m) \<Rightarrow> descend (map_of m part) parts | _ \<Rightarrow> None)"

definition getValueAtPath :: "(string \<times> gval) list \<Rightarrow> string \<Rightarrow> gval option" where
  "getValueAtPath obj path = descend (Some (GMap obj)) (split_on (CHR ''/'') (TrimPrefix ''/'' path))"

definition deriveViewID :: "(string \<Rightarrow> byte list) \<Rightarrow> string \<Rightarrow> string \<Rightarrow> string" where
  "deriveViewID sha packHash policyID = ''view_'' @ hex_EncodeToString (take 8 (sha (packHash @ '':'' @ policyID)))"

fun disclose :: "(string \<Rightarrow> byte list) \<Rightarrow> (string \<times> gval) list \<Rightarrow> MerkleTree \<Rightarrow> ViewPolicy \<Rightarrow> MerkleLeaf list \<Rightarrow> EvidenceView \<Rightarrow> (string, EvidenceView) res" where
  "disclose sha pack tree policy [] view = Ok view"
| "disclose sha pack tree policy (leaf # leaves) view =
     (case matchPolicy (ml_Path leaf) policy of (action, why) \<Rightarrow>
        if action = ''DISCLOSE'' then
          (case GenerateProof sha tree (ml_Path leaf) of
             Inl e \<Rightarrow> Err e
           | Inr pf \<Rightarrow> disclose sha pack tree policy leaves
               (view\<lparr>vw_Disclosed := AList.update (ml_Path leaf) (getValueAtPath pack (ml_Path leaf)) (vw_Disclosed view), vw_Proofs := vw_Proofs view @ [pf]\<rparr>))
        else if action = ''SEAL'' then
          disclose sha pack tree policy leaves
            (view\<lparr>vw_Sealed := vw_Sealed view @ [\<lparr>sf_Path = ml_Path leaf, sf_Commitment = ml_LeafHash leaf, sf_Reason = why\<rparr>]\<rparr>)
        else disclose sha pack tree policy leaves view)"

text \<open>\<open>encode\<close> is the JSON of the view; leaves come in the order of their paths, so the two sorts change nothing.\<close>

definition DeriveEvidenceView :: "(string \<Rightarrow> byte list) \<Rightarrow> (EvidenceView \<Rightarrow> (string, string) res) \<Rightarrow> (string \<times> gval) list \<Rightarrow> MerkleTree \<Rightarrow> ViewPolicy \<Rightarrow> string \<Rightarrow>
    (string, EvidenceView) res" where
  "DeriveEvidenceView sha encode pack tree policy timestamp =
     (case disclose sha pack tree policy (mt_Leaves tree)
         \<lparr>vw_ViewID = deriveViewID sha (mt_Root tree) (vp_PolicyID policy), vw_EvidencePackHash = mt_Root tree, vw_ViewPolicyID = vp_PolicyID policy,
          vw_Disclosed = [], vw_Sealed = [], vw_Proofs = [], vw_ViewHash = [], vw_CreatedAt = timestamp\<rparr> of
        Inl e \<Rightarrow> Err e
      | Inr view \<Rightarrow>
          let view = view\<lparr>vw_Sealed := sort_key sf_Path (vw_Sealed view), vw_Proofs := sort_key ip_LeafPath (vw_Proofs view)\<rparr> in
          (case encode view of Inl e \<Rightarrow> Err e | Inr bytes \<Rightarrow> Ok (view\<lparr>vw_ViewHash := sha256Hex sha bytes\<rparr>)))"

section \<open>Generated proofs verify\<close>

lemma pair_up_nth: "i < length xs div 2 \<Longrightarrow> pair_up sha xs ! i = buildNodeHash sha (xs ! (2 * i)) (xs ! (2 * i + 1))"
proof (induction sha xs arbitrary: i rule: pair_up.induct)
  case (1 sha l r xs)
  then show ?case by (cases i) simp_all
qed simp_all

lemma next_level_nth:
  assumes "i < length level"
  shows "buildNextLevel sha level ! (i div 2) =
    (if even i then buildNodeHash sha (level ! i) (level ! (if i + 1 \<ge> length level then i else i + 1)) else buildNodeHash sha (level ! (i - 1)) (level ! i))"
proof -
  let ?p = "pad_level level"
  have len: "i div 2 < length ?p div 2" using assms by (auto simp: pad_level_def elim!: oddE evenE)
  have same: "?p ! j = level ! j" if "j < length level" for j using that by (simp add: pad_level_def nth_append)
  have node: "buildNextLevel sha level ! (i div 2) = buildNodeHash sha (?p ! (2 * (i div 2))) (?p ! (2 * (i div 2) + 1))"
    using pair_up_nth [OF len] by (simp add: buildNextLevel_def)
  show ?thesis
  proof (cases "even i")
    case True
    then have i: "2 * (i div 2) = i" by simp
    have "?p ! (i + 1) = level ! (if i + 1 \<ge> length level then i else i + 1)"
    proof (cases "i + 1 \<ge> length level")
      case out: True
      then have l: "length level = i + 1" using assms by simp
      then have "odd (length level)" using True by simp
      moreover have "last level = level ! i" using l by (simp add: last_conv_nth flip: length_0_conv)
      ultimately show ?thesis using l by (simp add: pad_level_def nth_append)
    qed (use same in simp)
    then show ?thesis using node same [OF assms] True unfolding i by simp
  next
    case False
    then have i: "2 * (i div 2) + 1 = i" "2 * (i div 2) = i - 1" by (simp_all add: odd_two_times_div_two_succ)
    then show ?thesis using node same [of "i - 1"] same [OF assms] False assms unfolding i by simp
  qed
qed

lemma build_levels_hd: "\<exists>rest. build_levels sha level = level # rest"
  by (subst build_levels.simps) simp

lemma sibling_path_verifies:
  "i < length level \<Longrightarrow> walk_proof sha (level ! i) (sibling_path (build_levels sha level) i) = hd (last (build_levels sha level))"
proof (induction sha level arbitrary: i rule: build_levels.induct)
  case (1 sha level)
  show ?case
  proof (cases "length level > 1")
    case False
    then obtain x where "level = [x]" "i = 0" using "1.prems" by (cases level) auto
    moreover have "build_levels sha level = [level]" using False by (subst build_levels.simps) simp
    ultimately show ?thesis by simp
  next
    case True
    let ?n = "buildNextLevel sha level"
    obtain rest where r: "build_levels sha ?n = ?n # rest" using build_levels_hd by blast
    have b: "build_levels sha level = level # ?n # rest" using True r by (subst build_levels.simps) simp
    have "i div 2 < length ?n" using "1.prems" by (simp add: next_level_length less_mult_imp_div_less)
    from "1.IH" [OF True this] have ih: "walk_proof sha (?n ! (i div 2)) (sibling_path (?n # rest) (i div 2)) = hd (last (?n # rest))" unfolding r .
    show ?thesis unfolding b using ih next_level_nth [OF "1.prems", of sha] by (simp add: Let_def split: if_splits)
  qed
qed

section \<open>What a verified proof shows\<close>

lemma byte_bound: "unat (b :: byte) < 256"
  using unsigned_less [of b, where 'a = nat] by simp

lemma hex_partial_encode [simp]: "hex_partial (hex_EncodeToString bs) = bs"
proof (induction bs)
  case (Cons b bs)
  have "unat b div 16 < 16" "unat b mod 16 < 16" using byte_bound [of b] by auto
  then show ?case using Cons by (simp add: hex_EncodeToString_def hex_byte_def)
qed (simp add: hex_EncodeToString_def)

lemma hexToBytes_sha [simp]: "hexToBytes (sha256Hex sha x) = sha x"
  by (simp add: hexToBytes_def sha256Hex_def TrimPrefix_def strip_prefix_def)

lemma bytes_string_inj: "bytes_string a = bytes_string b \<Longrightarrow> a = b"
proof (induction a arbitrary: b)
  case (Cons x a)
  then obtain y c where b: "b = y # c" by (auto simp: bytes_string_def)
  have "unat x < 256" "unat y < 256" by (rule byte_bound)+
  then have "x = y" using Cons.prems b arg_cong [where f = "of_char :: char \<Rightarrow> nat", of "char_of (unat x)" "char_of (unat y)"] by (auto simp: bytes_string_def unsigned_word_eqI)
  then show ?case using Cons.IH [of c] Cons.prems b by (simp add: bytes_string_def)
qed (simp add: bytes_string_def)

lemma bytes_string_length [simp]: "length (bytes_string a) = length a"
  by (simp add: bytes_string_def)

lemma leaf_not_node: "buildLeafBytes p c \<noteq> node_bytes l r" "[] \<noteq> node_bytes l r" "buildLeafBytes p c \<noteq> []"
  by (simp_all add: buildLeafBytes_def node_bytes_def LeafPrefix_def NodePrefix_def)

text \<open>What is hashed for a level above a level, for a tree, and by the verifier of a proof.\<close>

fun pair_bytes :: "string list \<Rightarrow> string list" where
  "pair_bytes (l # r # xs) = node_bytes l r # pair_bytes xs"
| "pair_bytes _ = []"

definition level_bytes :: "string list \<Rightarrow> string list" where
  "level_bytes level = pair_bytes (pad_level level)"

definition tree_inputs :: "MerkleTree \<Rightarrow> string set" where
  "tree_inputs tree = {[]} \<union> ml_LeafBytes ` set (mt_Leaves tree) \<union> (\<Union>level \<in> set (butlast (mt_Levels tree)). set (level_bytes level))"

fun walk_bytes :: "(string \<Rightarrow> byte list) \<Rightarrow> string \<Rightarrow> ProofStep list \<Rightarrow> string list" where
  "walk_bytes sha current [] = []"
| "walk_bytes sha current (s # steps) =
     (let b = (if px_Side s = ''L'' then node_bytes (px_SiblingHash s) current else node_bytes current (px_SiblingHash s))
      in b # walk_bytes sha (sha256Hex sha b) steps)"

lemma next_level_bytes: "buildNextLevel sha level = map (sha256Hex sha) (level_bytes level)"
proof -
  have "pair_up sha xs = map (sha256Hex sha) (pair_bytes xs)" for xs
    by (induction xs rule: pair_bytes.induct) (simp_all add: buildNodeHash_def)
  then show ?thesis by (simp add: buildNextLevel_def level_bytes_def)
qed

lemma pair_bytes_members: "b \<in> set (pair_bytes xs) \<Longrightarrow> \<exists>l \<in> set xs. \<exists>r \<in> set xs. b = node_bytes l r"
  by (induction xs rule: pair_bytes.induct) auto

lemma level_bytes_members: "b \<in> set (level_bytes level) \<Longrightarrow> \<exists>l \<in> set level. \<exists>r \<in> set level. b = node_bytes l r"
proof (cases "level = []")
  case False
  then have "set (pad_level level) = set level" by (auto simp: pad_level_def)
  then show "b \<in> set (level_bytes level) \<Longrightarrow> ?thesis" using pair_bytes_members [of b "pad_level level"] by (simp add: level_bytes_def)
qed (simp add: level_bytes_def pad_level_def)

text \<open>A walk with a last step ends in the hash of the last bytes.\<close>

lemma walk_bytes_snoc:
  "walk_bytes sha cur (steps @ [s]) = walk_bytes sha cur steps @
     [if px_Side s = ''L'' then node_bytes (px_SiblingHash s) (walk_proof sha cur steps) else node_bytes (walk_proof sha cur steps) (px_SiblingHash s)]"
  by (induction steps arbitrary: cur) (simp_all add: Let_def buildNodeHash_def)

lemma walk_proof_snoc:
  "walk_proof sha cur (steps @ [s]) = sha256Hex sha
     (if px_Side s = ''L'' then node_bytes (px_SiblingHash s) (walk_proof sha cur steps) else node_bytes (walk_proof sha cur steps) (px_SiblingHash s))"
  by (induction steps arbitrary: cur) (simp_all add: buildNodeHash_def)

lemma walk_proof_last: "walk_proof sha cur (steps @ [s]) = sha256Hex sha (last (walk_bytes sha cur (steps @ [s])))"
  by (simp only: walk_proof_snoc walk_bytes_snoc last_snoc)

lemmas walk_snoc = walk_bytes_snoc walk_proof_last

lemma sha256Hex_eq: "sha256Hex sha x = sha256Hex sha y \<longleftrightarrow> sha x = sha y"
  by (metis hexToBytes_sha sha256Hex_def)

definition is_sha :: "(string \<Rightarrow> byte list) \<Rightarrow> string \<Rightarrow> bool" where
  "is_sha sha h \<longleftrightarrow> (\<exists>x. h = sha256Hex sha x)"

definition sha_32 :: "(string \<Rightarrow> byte list) \<Rightarrow> bool" where
  "sha_32 sha \<longleftrightarrow> (\<forall>x. length (sha x) = 32)"

lemma is_sha_bytes: "sha_32 sha \<Longrightarrow> is_sha sha h \<Longrightarrow> length (hexToBytes h) = 32"
  by (auto simp: is_sha_def sha_32_def)

lemma is_sha_eq: "is_sha sha h \<Longrightarrow> is_sha sha k \<Longrightarrow> hexToBytes h = hexToBytes k \<Longrightarrow> h = k"
  by (auto simp: is_sha_def) (simp add: sha256Hex_def)

lemma node_bytes_inj:
  assumes "sha_32 sha" "node_bytes l r = node_bytes l' r'" "is_sha sha l" "is_sha sha r"
  shows "is_sha sha r' \<Longrightarrow> r' = r" "is_sha sha l' \<Longrightarrow> l' = l"
proof -
  have eq: "bytes_string (hexToBytes l) @ bytes_string (hexToBytes r) = bytes_string (hexToBytes l') @ bytes_string (hexToBytes r')"
    using assms(2) by (simp add: node_bytes_def)
  note size = is_sha_bytes [OF assms(1)]
  show "r' = r" if "is_sha sha r'"
  proof (rule is_sha_eq [OF that assms(4)])
    have "bytes_string (hexToBytes r') = bytes_string (hexToBytes r)" using eq size [OF assms(4)] size [OF that] by (simp add: append_eq_append_conv)
    then show "hexToBytes r' = hexToBytes r" by (rule bytes_string_inj)
  qed
  show "l' = l" if "is_sha sha l'"
  proof (rule is_sha_eq [OF that assms(3)])
    have "bytes_string (hexToBytes l') = bytes_string (hexToBytes l)" using eq size [OF assms(3)] size [OF that] by (simp add: append_eq_append_conv)
    then show "hexToBytes l' = hexToBytes l" by (rule bytes_string_inj)
  qed
qed

lemma walk_is_sha: "is_sha sha cur \<Longrightarrow> is_sha sha (walk_proof sha cur steps)"
  by (cases steps rule: rev_cases) (auto simp: walk_snoc(2) is_sha_def)

text \<open>A walk that ends in the level above a level came through the level, when nothing hashed collides.\<close>

lemma walk_one_level:
  assumes "sha_32 sha" "inj_on sha A" "set (level_bytes level) \<subseteq> A" "set (walk_bytes sha (sha256Hex sha leaf) steps) \<subseteq> A" "leaf \<in> A"
    and "\<And>l r. leaf \<noteq> node_bytes l r" "\<forall>h \<in> set level. is_sha sha h" "walk_proof sha (sha256Hex sha leaf) steps \<in> set (buildNextLevel sha level)"
  shows "\<exists>init s. steps = init @ [s] \<and> walk_proof sha (sha256Hex sha leaf) init \<in> set level"
proof -
  obtain b where b: "b \<in> set (level_bytes level)" "walk_proof sha (sha256Hex sha leaf) steps = sha256Hex sha b" using assms(8) by (auto simp: next_level_bytes)
  obtain l r where lr: "l \<in> set level" "r \<in> set level" "b = node_bytes l r" using level_bytes_members [OF b(1)] by blast
  have steps: "steps \<noteq> []"
  proof
    assume "steps = []"
    then have "leaf = b" using b assms(3,5) inj_onD [OF assms(2), of leaf b] by (auto simp: sha256Hex_eq)
    then show False using assms(6) lr(3) by blast
  qed
  then obtain init s where s: "steps = init @ [s]" by (cases steps rule: rev_cases) auto
  let ?c = "walk_proof sha (sha256Hex sha leaf) init"
  have "last (walk_bytes sha (sha256Hex sha leaf) steps) \<in> A" using assms(4) s by (auto simp: walk_snoc(1))
  then have "last (walk_bytes sha (sha256Hex sha leaf) steps) = b"
    using b assms(3) inj_onD [OF assms(2)] walk_snoc(2) [of sha "sha256Hex sha leaf" init s] s by (metis sha256Hex_eq subsetD)
  then have nb: "(if px_Side s = ''L'' then node_bytes (px_SiblingHash s) ?c else node_bytes ?c (px_SiblingHash s)) = node_bytes l r" unfolding s walk_snoc(1) lr(3) by simp
  have c: "is_sha sha ?c" by (rule walk_is_sha) (auto simp: is_sha_def)
  have sha: "is_sha sha l" "is_sha sha r" using assms(7) lr by blast+
  have "?c = l \<or> ?c = r"
    using nb node_bytes_inj [OF assms(1) _ sha] c by (metis (full_types))
  then show ?thesis using s lr by blast
qed

lemma walk_to_root:
  assumes "sha_32 sha" "inj_on sha A" "leaf \<in> A" "\<And>l r. leaf \<noteq> node_bytes l r"
  shows "\<forall>h \<in> set level. is_sha sha h \<Longrightarrow> level \<noteq> [] \<Longrightarrow> (\<Union>v \<in> set (butlast (build_levels sha level)). set (level_bytes v)) \<subseteq> A \<Longrightarrow>
    set (walk_bytes sha (sha256Hex sha leaf) steps) \<subseteq> A \<Longrightarrow> walk_proof sha (sha256Hex sha leaf) steps = hd (last (build_levels sha level)) \<Longrightarrow>
    \<exists>init rest. steps = init @ rest \<and> walk_proof sha (sha256Hex sha leaf) init \<in> set level"
proof (induction "length level" arbitrary: level steps rule: less_induct)
  case less
  show ?case
  proof (cases "length level > 1")
    case False
    then have "build_levels sha level = [level]" by (subst build_levels.simps) simp
    then have "walk_proof sha (sha256Hex sha leaf) steps \<in> set level" using less.prems(2,5) by simp
    then show ?thesis by (metis append_Nil2)
  next
    case True
    let ?n = "buildNextLevel sha level"
    obtain rest where r: "build_levels sha ?n = ?n # rest" using build_levels_hd by blast
    have b: "build_levels sha level = level # build_levels sha ?n" using True by (subst build_levels.simps) simp
    have len: "length ?n < length level" "?n \<noteq> []" using True next_level_length [of sha level] by (auto simp flip: length_0_conv)
    have sh: "\<forall>h \<in> set ?n. is_sha sha h" by (auto simp: next_level_bytes is_sha_def)
    have sub: "(\<Union>v \<in> set (butlast (build_levels sha ?n)). set (level_bytes v)) \<subseteq> A" "set (level_bytes level) \<subseteq> A" using less.prems(3) unfolding b r by auto
    have "walk_proof sha (sha256Hex sha leaf) steps = hd (last (build_levels sha ?n))" using less.prems(5) unfolding b r by simp
    from less.hyps [OF len(1) sh len(2) sub(1) less.prems(4) this] obtain init more where i: "steps = init @ more" "walk_proof sha (sha256Hex sha leaf) init \<in> set ?n" by blast
    have "set (walk_bytes sha (sha256Hex sha leaf) init) \<subseteq> set (walk_bytes sha (sha256Hex sha leaf) steps)" unfolding i(1)
    proof (induction more rule: rev_induct)
      case (snoc x xs)
      then show ?case using walk_snoc(1) [of sha "sha256Hex sha leaf" "init @ xs" x] by auto
    qed simp
    then have "set (walk_bytes sha (sha256Hex sha leaf) init) \<subseteq> A" using less.prems(4) by blast
    from walk_one_level [OF assms(1,2) sub(2) this assms(3,4) less.prems(1) i(2)] show ?thesis using i(1) by force
  qed
qed

section \<open>Built trees\<close>

lemma build_leaves_members:
  "build_leaves sha canonical m paths = Ok ls \<Longrightarrow> leaf \<in> set ls \<Longrightarrow>
   ml_Path leaf \<in> set paths \<and> ml_LeafHash leaf = sha256Hex sha (ml_LeafBytes leaf) \<and>
   (\<exists>c. canonical (case map_of m (ml_Path leaf) of Some v \<Rightarrow> v | None \<Rightarrow> GNil) = Ok c \<and> ml_LeafBytes leaf = buildLeafBytes (ml_Path leaf) c)"
proof (induction paths arbitrary: ls)
  case (Cons path paths)
  obtain c rest where c: "canonical (case map_of m path of Some v \<Rightarrow> v | None \<Rightarrow> GNil) = Ok c" and r: "build_leaves sha canonical m paths = Ok rest"
    and ls: "ls = \<lparr>ml_Path = path, ml_LeafBytes = buildLeafBytes path c, ml_LeafHash = sha256Hex sha (buildLeafBytes path c)\<rparr> # rest"
    using Cons.prems(1) by (auto simp: Let_def split: sum.splits)
  show ?case
  proof (cases "leaf \<in> set rest")
    case True
    then show ?thesis using Cons.IH [OF r] by simp
  next
    case False
    then have "leaf = \<lparr>ml_Path = path, ml_LeafBytes = buildLeafBytes path c, ml_LeafHash = sha256Hex sha (buildLeafBytes path c)\<rparr>" using Cons.prems(2) ls by simp
    then show ?thesis using c by simp
  qed
qed simp

lemma built_tree:
  assumes "BuildTree sha canonical obj = Ok tree"
  shows "mt_Leaves tree = [] \<and> mt_Root tree = sha256Hex sha [] \<or>
    mt_Leaves tree \<noteq> [] \<and> mt_Levels tree = build_levels sha (map ml_LeafHash (mt_Leaves tree)) \<and> mt_Root tree = hd (last (mt_Levels tree))"
    "leaf \<in> set (mt_Leaves tree) \<Longrightarrow> \<exists>v c. map_of (extractPathValues obj) (ml_Path leaf) = Some v \<and> canonical v = Ok c \<and>
       ml_LeafBytes leaf = buildLeafBytes (ml_Path leaf) c \<and> ml_LeafHash leaf = sha256Hex sha (ml_LeafBytes leaf)"
proof -
  let ?m = "extractPathValues obj"
  obtain ls where ls: "build_leaves sha canonical ?m (sort (map fst ?m)) = Ok ls" using assms by (auto simp: BuildTree_def Let_def split: sum.splits)
  then have t: "mt_Leaves tree = ls" and "ls = [] \<and> mt_Root tree = sha256Hex sha [] \<or>
      ls \<noteq> [] \<and> mt_Levels tree = build_levels sha (map ml_LeafHash ls) \<and> mt_Root tree = hd (last (mt_Levels tree))"
    using assms by (auto simp: BuildTree_def Let_def split: if_splits)
  then show "mt_Leaves tree = [] \<and> mt_Root tree = sha256Hex sha [] \<or>
    mt_Leaves tree \<noteq> [] \<and> mt_Levels tree = build_levels sha (map ml_LeafHash (mt_Leaves tree)) \<and> mt_Root tree = hd (last (mt_Levels tree))" by simp
  assume "leaf \<in> set (mt_Leaves tree)"
  note b = build_leaves_members [OF ls this [unfolded t]]
  then obtain v where "map_of ?m (ml_Path leaf) = Some v" by (metis map_of_eq_None_iff not_None_eq set_map set_sort)
  then show "\<exists>v c. map_of ?m (ml_Path leaf) = Some v \<and> canonical v = Ok c \<and> ml_LeafBytes leaf = buildLeafBytes (ml_Path leaf) c \<and>
      ml_LeafHash leaf = sha256Hex sha (ml_LeafBytes leaf)" using b by auto
qed

lemma find_leaf_Some: "find_leaf path ls n = Some i \<Longrightarrow> n \<le> i \<and> i < n + length ls \<and> ml_Path (ls ! (i - n)) = path"
proof (induction ls arbitrary: n)
  case (Cons l ls)
  show ?case
  proof (cases "ml_Path l = path")
    case False
    then have "Suc n \<le> i \<and> i < Suc n + length ls \<and> ml_Path (ls ! (i - Suc n)) = path" using Cons.IH [of "Suc n"] Cons.prems False by auto
    then show ?thesis by (auto simp: nth_Cons' Suc_diff_Suc)
  qed (use Cons.prems in auto)
qed simp

lemma find_leaf_None: "find_leaf path ls n = None \<longleftrightarrow> path \<notin> ml_Path ` set ls"
  by (induction path ls n rule: find_leaf.induct) auto

lemma generated_proof:
  assumes "BuildTree sha canonical obj = Ok tree" "path \<in> ml_Path ` set (mt_Leaves tree)"
  obtains p leaf where "GenerateProof sha tree path = Ok p" "VerifyProof sha p (mt_Root tree)" "ip_LeafPath p = path"
    "leaf \<in> set (mt_Leaves tree)" "ml_Path leaf = path" "ip_LeafHash p = ml_LeafHash leaf"
proof -
  obtain i where i: "find_leaf path (mt_Leaves tree) 0 = Some i" using find_leaf_None [of path "mt_Leaves tree" 0] assms(2) by auto
  have l: "i < length (mt_Leaves tree)" "ml_Path (mt_Leaves tree ! i) = path" using find_leaf_Some [OF i] by simp_all
  then have t: "mt_Levels tree = build_levels sha (map ml_LeafHash (mt_Leaves tree))" "mt_Root tree = hd (last (mt_Levels tree))" using built_tree(1) [OF assms(1)] by auto
  have "walk_proof sha (map ml_LeafHash (mt_Leaves tree) ! i) (sibling_path (mt_Levels tree) i) = mt_Root tree"
    using sibling_path_verifies [of i "map ml_LeafHash (mt_Leaves tree)" sha] l(1) unfolding t by simp
  then show thesis using that [OF _ _ _ nth_mem [OF l(1)] l(2)] l(1) by (simp add: GenerateProof_def i VerifyProof_def)
qed

section \<open>Properties\<close>

text \<open>
  C18: A proof that verifies against the root of a tree, and whose leaf hash was recomputed from a path and a value, is about a leaf of that tree with
  exactly these bytes, whatever its steps are; no two of the inputs hashed by the tree and the verifier may collide.
\<close>

theorem evidence_proof_sound:
  assumes "sha_32 sha" "BuildTree sha canonical obj = Ok tree" "VerifyProof sha p (mt_Root tree)" "ip_LeafHash p = sha256Hex sha (buildLeafBytes path v)"
    and inj: "inj_on sha (tree_inputs tree \<union> {buildLeafBytes path v} \<union> set (walk_bytes sha (ip_LeafHash p) (ip_ProofPath p)))"
  shows "\<exists>leaf \<in> set (mt_Leaves tree). ml_LeafBytes leaf = buildLeafBytes path v"
proof -
  let ?x = "buildLeafBytes path v" and ?A = "tree_inputs tree \<union> {buildLeafBytes path v} \<union> set (walk_bytes sha (ip_LeafHash p) (ip_ProofPath p))"
  have w: "walk_proof sha (sha256Hex sha ?x) (ip_ProofPath p) = mt_Root tree" using assms(3,4) by (simp add: VerifyProof_def)
  have at_leaf: "x = ?x" if "walk_proof sha (sha256Hex sha ?x) init = sha256Hex sha x" "ip_ProofPath p = init @ rest" "x \<in> tree_inputs tree" "\<And>l r. x \<noteq> node_bytes l r" for init rest x
  proof (cases init rule: rev_cases)
    case Nil
    then show ?thesis using that(1,3) inj_onD [OF inj, of x ?x] by (simp add: sha256Hex_eq)
  next
    case (snoc ys s)
    have b: "\<exists>l r. last (walk_bytes sha (sha256Hex sha ?x) init) = node_bytes l r" unfolding snoc walk_bytes_snoc by auto
    have sub: "set (walk_bytes sha (sha256Hex sha ?x) init) \<subseteq> set (walk_bytes sha (ip_LeafHash p) (ip_ProofPath p))" unfolding that(2) assms(4)
    proof (induction rest rule: rev_induct)
      case (snoc z zs)
      then show ?case using walk_bytes_snoc [of sha "sha256Hex sha ?x" "init @ zs" z] by auto
    qed simp
    have "last (walk_bytes sha (sha256Hex sha ?x) init) \<in> ?A" using sub snoc by (auto simp: walk_bytes_snoc)
    moreover have "sha (last (walk_bytes sha (sha256Hex sha ?x) init)) = sha x" using that(1) unfolding snoc walk_proof_last by (simp add: sha256Hex_eq)
    ultimately have "last (walk_bytes sha (sha256Hex sha ?x) init) = x" using inj_onD [OF inj] that(3) by blast
    then show ?thesis using b that(4) by blast
  qed
  show ?thesis
  proof (cases "mt_Leaves tree = []")
    case True
    then have "walk_proof sha (sha256Hex sha ?x) (ip_ProofPath p) = sha256Hex sha []" using w built_tree(1) [OF assms(2)] by simp
    then have "[] = ?x" by (rule at_leaf [where rest = "[]"]) (use leaf_not_node(2) in \<open>auto simp: tree_inputs_def\<close>)
    then show ?thesis using leaf_not_node(3) [of path v] by simp
  next
    case False
    have lv: "\<forall>h \<in> set (map ml_LeafHash (mt_Leaves tree)). is_sha sha h" using built_tree(2) [OF assms(2)] by (fastforce simp: is_sha_def)
    have t: "mt_Levels tree = build_levels sha (map ml_LeafHash (mt_Leaves tree))" "mt_Root tree = hd (last (mt_Levels tree))"
      using built_tree(1) [OF assms(2)] False by auto
    have "\<exists>init rest. ip_ProofPath p = init @ rest \<and> walk_proof sha (sha256Hex sha ?x) init \<in> set (map ml_LeafHash (mt_Leaves tree))"
      by (rule walk_to_root [OF assms(1) inj]) (use lv False w t leaf_not_node(1) assms(4) in \<open>auto simp: tree_inputs_def\<close>)
    then obtain init rest leaf where i: "ip_ProofPath p = init @ rest" "leaf \<in> set (mt_Leaves tree)" "walk_proof sha (sha256Hex sha ?x) init = ml_LeafHash leaf" by auto
    obtain c where c: "ml_LeafBytes leaf = buildLeafBytes (ml_Path leaf) c" "ml_LeafHash leaf = sha256Hex sha (ml_LeafBytes leaf)" using built_tree(2) [OF assms(2) i(2)] by auto
    have "ml_LeafBytes leaf \<in> tree_inputs tree" using i(2) by (simp add: tree_inputs_def)
    moreover have "walk_proof sha (sha256Hex sha ?x) init = sha256Hex sha (ml_LeafBytes leaf)" using i(3) c(2) by simp
    ultimately have "ml_LeafBytes leaf = ?x" using at_leaf [OF _ i(1)] c(1) leaf_not_node(1) by metis
    then show ?thesis using i(2) by blast
  qed
qed

text \<open>What the loop over the leaves adds to a view.\<close>

abbreviation chosen :: "string \<Rightarrow> ViewPolicy \<Rightarrow> MerkleLeaf list \<Rightarrow> string set" where
  "chosen action policy ls \<equiv> ml_Path ` {l \<in> set ls. fst (matchPolicy (ml_Path l) policy) = action}"

lemma disclose_adds:
  assumes "BuildTree sha canonical obj = Ok tree" "set ls \<subseteq> set (mt_Leaves tree)" "disclose sha pack tree policy ls view = Ok view'"
  shows "vw_EvidencePackHash view' = vw_EvidencePackHash view \<and>
    dom (map_of (vw_Disclosed view')) = dom (map_of (vw_Disclosed view)) \<union> chosen ''DISCLOSE'' policy ls \<and>
    sf_Path ` set (vw_Sealed view') = sf_Path ` set (vw_Sealed view) \<union> chosen ''SEAL'' policy ls \<and>
    ip_LeafPath ` set (vw_Proofs view') = ip_LeafPath ` set (vw_Proofs view) \<union> chosen ''DISCLOSE'' policy ls \<and>
    ((\<forall>p \<in> set (vw_Proofs view). VerifyProof sha p (mt_Root tree)) \<longrightarrow> (\<forall>p \<in> set (vw_Proofs view'). VerifyProof sha p (mt_Root tree)))"
  using assms(2,3)
proof (induction ls arbitrary: view)
  case (Cons l ls)
  obtain action why where m: "matchPolicy (ml_Path l) policy = (action, why)" by fastforce
  have sub: "set ls \<subseteq> set (mt_Leaves tree)" using Cons.prems(1) by simp
  have pick: "chosen x policy (l # ls) = (if action = x then insert (ml_Path l) (chosen x policy ls) else chosen x policy ls)" for x
    using m by (auto simp: image_iff)
  consider "action = ''DISCLOSE''" | "action = ''SEAL''" | "action \<noteq> ''DISCLOSE''" "action \<noteq> ''SEAL''" by blast
  then show ?case
  proof cases
    case 1
    have "ml_Path l \<in> ml_Path ` set (mt_Leaves tree)" using Cons.prems(1) by simp
    then obtain p leaf where p: "GenerateProof sha tree (ml_Path l) = Ok p" "VerifyProof sha p (mt_Root tree)" "ip_LeafPath p = ml_Path l"
      by (rule generated_proof [OF assms(1)])
    let ?v = "view\<lparr>vw_Disclosed := AList.update (ml_Path l) (getValueAtPath pack (ml_Path l)) (vw_Disclosed view), vw_Proofs := vw_Proofs view @ [p]\<rparr>"
    have "disclose sha pack tree policy ls ?v = Ok view'" using Cons.prems(2) m p(1) 1 by simp
    note ih = Cons.IH [OF sub this]
    have dom: "dom (map_of (vw_Disclosed ?v)) = insert (ml_Path l) (dom (map_of (vw_Disclosed view)))" by simp
    show ?thesis using ih [unfolded dom] p(2,3) 1 unfolding pick by auto
  next
    case 2
    let ?v = "view\<lparr>vw_Sealed := vw_Sealed view @ [\<lparr>sf_Path = ml_Path l, sf_Commitment = ml_LeafHash l, sf_Reason = why\<rparr>]\<rparr>"
    have "disclose sha pack tree policy ls ?v = Ok view'" using Cons.prems(2) m 2 by simp
    from Cons.IH [OF sub this] show ?thesis using 2 unfolding pick by auto
  next
    case 3
    then have "disclose sha pack tree policy ls view = Ok view'" using Cons.prems(2) m by simp
    from Cons.IH [OF sub this] show ?thesis using 3 unfolding pick by simp
  qed
qed simp

text \<open>
  A view derived from a pack discloses exactly the leaves for which the first matching rule says so, each with a proof that verifies against
  the root of the pack, and seals exactly those a rule seals or no rule mentions.
\<close>

theorem evidence_view_follows_policy:
  assumes "BuildTree sha canonical pack = Ok tree" "DeriveEvidenceView sha encode pack tree policy timestamp = Ok view"
  shows "vw_EvidencePackHash view = mt_Root tree \<and> (\<forall>p \<in> set (vw_Proofs view). VerifyProof sha p (vw_EvidencePackHash view)) \<and>
    dom (map_of (vw_Disclosed view)) = chosen ''DISCLOSE'' policy (mt_Leaves tree) \<and> ip_LeafPath ` set (vw_Proofs view) = chosen ''DISCLOSE'' policy (mt_Leaves tree) \<and>
    sf_Path ` set (vw_Sealed view) = chosen ''SEAL'' policy (mt_Leaves tree) \<and>
    (\<forall>l \<in> set (mt_Leaves tree). (\<forall>r \<in> set (vp_DisclosureRules policy). \<not> matchPath (ml_Path l) (dl_PathPattern r)) \<longrightarrow> ml_Path l \<in> sf_Path ` set (vw_Sealed view))"
proof -
  obtain v where v: "disclose sha pack tree policy (mt_Leaves tree)
      \<lparr>vw_ViewID = deriveViewID sha (mt_Root tree) (vp_PolicyID policy), vw_EvidencePackHash = mt_Root tree, vw_ViewPolicyID = vp_PolicyID policy,
       vw_Disclosed = [], vw_Sealed = [], vw_Proofs = [], vw_ViewHash = [], vw_CreatedAt = timestamp\<rparr> = Ok v"
    and e: "vw_EvidencePackHash view = vw_EvidencePackHash v" "vw_Disclosed view = vw_Disclosed v" "set (vw_Sealed view) = set (vw_Sealed v)" "set (vw_Proofs view) = set (vw_Proofs v)"
    using assms(2) by (auto simp: DeriveEvidenceView_def Let_def split: sum.splits)
  have "match_rules x rs = (''SEAL'', ''no matching policy rule'')" if "\<forall>r \<in> set rs. \<not> matchPath x (dl_PathPattern r)" for x rs
    using that by (induction rs) auto
  then have "fst (matchPolicy (ml_Path l) policy) = ''SEAL''" if "\<forall>r \<in> set (vp_DisclosureRules policy). \<not> matchPath (ml_Path l) (dl_PathPattern r)" for l :: MerkleLeaf
    using that by (simp add: matchPolicy_def)
  then show ?thesis using disclose_adds [OF assms(1) order_refl v] unfolding e by auto
qed

section \<open>Witnesses\<close>

text \<open>A pack with one field, under a hash that tells apart inputs of different length.\<close>

definition w_sha :: "string \<Rightarrow> byte list" where
  "w_sha x = replicate 32 (of_nat (length x))"

definition w_pack :: "(string \<times> gval) list" where
  "w_pack = [(''a'', GStr ''x'')]"

definition w_leaf :: MerkleLeaf where
  "w_leaf = \<lparr>ml_Path = ''/a'', ml_LeafBytes = buildLeafBytes ''/a'' ''x'', ml_LeafHash = sha256Hex w_sha (buildLeafBytes ''/a'' ''x'')\<rparr>"

lemma w_tree: "BuildTree w_sha (\<lambda>_. Ok ''x'') w_pack = Ok \<lparr>mt_Leaves = [w_leaf], mt_Root = ml_LeafHash w_leaf, mt_Levels = [[ml_LeafHash w_leaf]]\<rparr>"
proof -
  have "extractPathValues w_pack = [(''/a'', GStr ''x'')]" by (simp add: extractPathValues_def w_pack_def put_all_def)
  moreover have "build_levels w_sha [h] = [[h]]" for h by (subst build_levels.simps) simp
  ultimately show ?thesis by (simp add: BuildTree_def w_leaf_def Let_def)
qed

theorem evidence_proof_sound_witness:
  "\<exists>leaf \<in> {w_leaf}. ml_LeafBytes leaf = buildLeafBytes ''/a'' ''x''"
proof -
  let ?p = "\<lparr>ip_ProofID = [], ip_LeafPath = ''/a'', ip_LeafHash = ml_LeafHash w_leaf, ip_MerkleRoot = [], ip_ProofPath = []\<rparr>"
  have "inj_on w_sha {[], buildLeafBytes ''/a'' ''x''}" by (simp add: w_sha_def buildLeafBytes_def LeafPrefix_def)
  then have "\<exists>leaf \<in> set (mt_Leaves \<lparr>mt_Leaves = [w_leaf], mt_Root = ml_LeafHash w_leaf, mt_Levels = [[ml_LeafHash w_leaf]]\<rparr>). ml_LeafBytes leaf = buildLeafBytes ''/a'' ''x''"
    by (intro evidence_proof_sound [OF _ w_tree, of ?p]) (simp_all add: sha_32_def w_sha_def VerifyProof_def tree_inputs_def w_leaf_def insert_commute)
  then show ?thesis by simp
qed

theorem evidence_view_follows_policy_witness:
  "\<exists>view. DeriveEvidenceView w_sha (\<lambda>_. Ok []) w_pack \<lparr>mt_Leaves = [w_leaf], mt_Root = ml_LeafHash w_leaf, mt_Levels = [[ml_LeafHash w_leaf]]\<rparr>
      \<lparr>vp_PolicyID = ''p'', vp_Name = [], vp_DisclosureRules = []\<rparr> ''now'' = Ok view \<and> ''/a'' \<in> sf_Path ` set (vw_Sealed view)"
proof -
  let ?t = "\<lparr>mt_Leaves = [w_leaf], mt_Root = ml_LeafHash w_leaf, mt_Levels = [[ml_LeafHash w_leaf]]\<rparr>" and ?p = "\<lparr>vp_PolicyID = ''p'', vp_Name = [], vp_DisclosureRules = []\<rparr>"
  obtain view where v: "DeriveEvidenceView w_sha (\<lambda>_. Ok []) w_pack ?t ?p ''now'' = Ok view" by (simp add: DeriveEvidenceView_def matchPolicy_def Let_def)
  have "ml_Path w_leaf = ''/a''" by (simp add: w_leaf_def)
  with evidence_view_follows_policy [OF w_tree v] v show ?thesis by auto
qed

section \<open>Divergences\<close>

text \<open>A disclosed array element is nil in the view: paths are followed through maps only.\<close>

lemma array_element_not_disclosed:
  "extractPathValues [(''a'', GList [GStr v])] = [(''/a/0'', GStr v)] \<and> getValueAtPath [(''a'', GList [GStr v])] ''/a/0'' = None"
proof -
  have "dec_of_nat 0 = ''0''" by code_simp
  then show ?thesis by (simp add: extractPathValues_def put_all_def getValueAtPath_def TrimPrefix_def strip_prefix_def)
qed

text \<open>Keys are not escaped, so packs of different shape have the same leaves, and empty maps and arrays have none.\<close>

lemma slash_in_key: "extractPathValues [(''a/b'', GStr v)] = extractPathValues [(''a'', GMap [(''b'', GStr v)])]"
  by (simp add: extractPathValues_def put_all_def)

lemma empty_containers_uncommitted: "extractPathValues [(k, GMap [])] = []" "extractPathValues [(k, GList [])] = []"
  by (simp_all add: extractPathValues_def put_all_def)

text \<open>The verifier does not connect the path with the hash: the root is a verified leaf for every path.\<close>

lemma root_is_a_leaf: "VerifyProof sha \<lparr>ip_ProofID = i, ip_LeafPath = anything, ip_LeafHash = r, ip_MerkleRoot = m, ip_ProofPath = []\<rparr> r"
  by (simp add: VerifyProof_def)

end
