(* ===== verification/Spec2Isabelle.thy ===== *)
theory Spec2Isabelle
  imports Translog_Correct Stop_Plane Boundary_Checks Temporal Budget Lease Proof_Graph Audit_Log Guardian_Sign
    Delegation Observation Privilege Guardian_Allow
    Capability_Token Safe_Dep_Correct Session_Risk Guardian_Decide_Correct Executor_Correct
    Kernel_Scheduler Kernel_Reducer Effect_Boundary Kernel_Memory Kernel_Limiter Csnf_Decimal Evidence_Merkle
begin

text \<open>
  The core of the HELM AI kernel (\<^verbatim>\<open>core/pkg\<close> of the repository, written in Go), an execution firewall for AI agents:
  every effect an agent asks for is judged by a guardian, authorised by a signed intent, executed by an executor and
  recorded in a signed, hash-chained receipt. Everything is meant to fail closed, and the theorems say in which sense it does.

  \<^bold>\<open>How the parts interact.\<close> A request reaches \<^verbatim>\<open>Guardian.EvaluateDecision\<close>. It picks the active policy snapshot, asks the
  safe-deprecation classification and the capability gate, accumulates the risk of the session and then runs a chain of
  boundary gates: identity envelope, temporal guardian, freeze, scoped stop, kill switch, context guard, credential isolation,
  egress, taint, threat scan, delegation, policy decision point, assumptions, sandbox and, last, privilege, budget and the proof
  requirement graph. The result is a signed decision record, appended to the audit log. For an ALLOW the
  guardian issues an execution intent over the canonical digest of the effect. The executor verifies both, looks for an
  earlier receipt, asks the safe-deprecation gate, dispatches to the tool's driver and appends a receipt to the receipt store;
  receipts, decisions and checkpoints go into a proof graph and a transparency log whose tree heads are signed.

  \<^bold>\<open>Theories, and the code they model.\<close>
  \<^item> \<open>Helm_Prelude\<close>: results of fallible functions, Go maps as association lists, the parts of the Go library in use
    (\<^verbatim>\<open>strings.TrimSpace\<close>, case folding, decimal and hexadecimal text, \<^verbatim>\<open>time\<close> and \<^verbatim>\<open>int64\<close> arithmetic with its wrap-around) and
    the lemmas all others share.
  \<^item> \<open>Merkle_Tree\<close>, \<open>Merkle_Paths\<close>, \<open>Merkle_Consistency\<close>, \<open>Translog\<close>, \<open>Translog_Correct\<close>: \<^verbatim>\<open>translog/\<close>, the RFC 6962 tree, its proofs
    and verifiers, the journalled log and signed tree heads. Built proofs verify; accepted proofs are right up to a
    collision of the hash; the log only grows and survives reopening; the 64-bit split loop agrees with the arithmetic one exactly
    up to its limit.
  \<^item> \<open>Receipted_Switch\<close>, \<open>Stop_Plane\<close>: \<^verbatim>\<open>kernel/freeze.go\<close>, \<^verbatim>\<open>agent_kill.go\<close>, \<^verbatim>\<open>context_guard.go\<close>. Receipts alternate and tell the state; an
    unreadable source freezes.
  \<^item> \<open>Boundary_Checks\<close>: \<^verbatim>\<open>identity/isolation.go\<close>, \<^verbatim>\<open>firewall/\<close>. A credential belongs to its first presenter, as a refinement.
  \<^item> \<open>Temporal\<close>, \<open>Budget\<close>, \<open>Lease\<close>: \<^verbatim>\<open>guardian/temporal.go\<close>, \<^verbatim>\<open>budget/\<close>, \<^verbatim>\<open>lease/\<close>. Escalation levels, spending limits over
    runs of checks, the life cycle of leases.
  \<^item> \<open>Proof_Graph\<close>, \<open>Audit_Log\<close>, \<open>PRG\<close>: \<^verbatim>\<open>proofgraph/\<close>, \<^verbatim>\<open>guardian/audit.go\<close>, \<^verbatim>\<open>prg/\<close>. Chain validation, tamper evidence, the two
    requirement evaluators.
  \<^item> \<open>Contracts\<close>, \<open>Observation\<close>, \<open>Privilege\<close>, \<open>Delegation\<close>, \<open>Threat_Signal\<close>: the shared types and checks of \<^verbatim>\<open>contracts/\<close>, \<^verbatim>\<open>identity/delegation.go\<close> and
    \<^verbatim>\<open>guardian/privilege.go\<close>.
  \<^item> \<open>Guardian_Sign\<close>: the final gate and signing of a decision and the issue of intents (\<^verbatim>\<open>guardian/guardian.go\<close>).
  \<^item> \<open>Gates\<close>, \<open>Gates_Policy\<close>, \<open>Guardian_Chain\<close>, \<open>Guardian_Allow\<close>: the gates of \<^verbatim>\<open>guardian/interceptor.go\<close>, \<^verbatim>\<open>zeroid.go\<close>, \<^verbatim>\<open>assumption.go\<close>, in
    the order the code installs them; what an ALLOW of the whole chain implies, gate by gate. \<open>Guardian_Example\<close> is a concrete run.
  \<^item> \<open>Capability\<close>, \<open>Capability_Token\<close>: \<^verbatim>\<open>capability/\<close>. Loaded registries are well formed; accepted tokens are genuine, in scope and
    used at most as often as granted.
  \<^item> \<open>Safe_Dep\<close>, \<open>Safe_Dep_Controller\<close>, \<open>Safe_Dep_Correct\<close>: \<^verbatim>\<open>contracts/safedep.go\<close>, \<^verbatim>\<open>safedep/\<close>. Hazard classification, ceremonies, the
    dispatch gate and its continuity store.
  \<^item> \<open>Session_Risk\<close>, \<open>Guardian_Decide\<close>, \<open>Guardian_Decide_Correct\<close>: \<^verbatim>\<open>guardian/session_risk_memory.go\<close>, \<^verbatim>\<open>capability.go\<close> and the whole
    evaluation.
  \<^item> \<open>Receipt_Store\<close>, \<open>Receipt_Chain\<close>: \<^verbatim>\<open>contracts/receipt.go\<close>, \<^verbatim>\<open>store/receipt_store_sqlite.go\<close>. Each scope is an unbroken hash chain, tenants
    are isolated, receipts read back as written.
  \<^item> \<open>Executor\<close>, \<open>Executor_Correct\<close>: \<^verbatim>\<open>executor/executor.go\<close>. Nothing is dispatched without verified authority, a decision is executed
    once per tenant, and what the guardian issues the executor accepts.
  \<^item> \<open>Kernel_Scheduler\<close>, \<open>Kernel_Reducer\<close>: \<^verbatim>\<open>kernel/scheduler.go\<close> over the heap of \<^verbatim>\<open>container/heap\<close>, and \<^verbatim>\<open>kernel/reducer.go\<close>. The heap refines a
    sorted queue; a reduction does not depend on the order of arrival, and each conflict policy keeps the write it says.
  \<^item> \<open>Effect_Catalog\<close>, \<open>Event_Log\<close>, \<open>Effect_Boundary\<close>: \<^verbatim>\<open>contracts/effect_types.go\<close>, \<^verbatim>\<open>effect_catalog.go\<close>, \<^verbatim>\<open>launch_effect_types.go\<close>, \<^verbatim>\<open>kernel/event_log.go\<close>,
    \<^verbatim>\<open>effect_boundary.go\<close>, \<^verbatim>\<open>pdp_adapter.go\<close>. Which effect types are admitted, the numbering and hash chain of the event log, and the life cycle of an
    effect: nothing executes without an authorisation still in force, and an idempotency key stands for one effect.
  \<^item> \<open>Kernel_Memory\<close>, \<open>Kernel_Limiter\<close>: \<^verbatim>\<open>kernel/memory_integrity.go\<close>, \<^verbatim>\<open>total_order_log.go\<close>, \<^verbatim>\<open>limiter.go\<close>. Reads of tampered memory fail, the total order
    log shows tampering, and the token buckets bound what an actor is granted.
  \<^item> \<open>Csnf_Decimal\<close>, \<open>Evidence_Merkle\<close>: \<^verbatim>\<open>kernel/csnf_decimal.go\<close>, \<^verbatim>\<open>merkle.go\<close>. Normalisation of decimals, money through its text, evidence
    trees, their proofs and views.

  Sections named ``Divergences'' hold lemmas on behaviour that differs from a comment or from the purpose of the code.

  \<^bold>\<open>How the code is represented.\<close> A struct is a record with the field names of the source behind a prefix; a nil pointer or map is
  \<open>None\<close>; an operation with a receiver takes and returns the state; an error return is \<open>Err\<close>, every early return a branch. Machine integers
  are words, or integers with the wrap-around written out where they can overflow; instants and durations count nanoseconds. Locks make the
  operations of one object atomic, so histories are sequences of calls. Sources of nondeterminism (clocks, random identifiers,
  failing statements, results of drivers) are arguments named after the place of the call, so one call sees independent values at
  different places.

  \<^bold>\<open>Interfaces.\<close> Where one part relies on the contract of another there is a locale, interpreted on the model of the code, and the client's lemmas
  are proved once inside it: \<open>receipted_switch\<close> (freeze and kill switch), \<open>budget_storage\<close> (a keyed store under the enforcer), \<open>token_store\<close> (grants under the
  token authority), \<open>delegation_store\<close> (sessions and nonces), \<open>boundary_gate\<close> (a stage of the guardian's chain), \<open>continuity_store\<close> (the journal of the
  safe-deprecation controller), \<open>tenant_receipts\<close> (receipts under the executor) and \<open>heap_order\<close> (the order of a heap under the scheduler).

  \<^bold>\<open>Parameters and hypotheses.\<close> Hash functions, signatures, JSON canonicalisation, Unicode tables, CEL expressions, the PDP backends, IP
  parsing and the threat scanner are functions the definitions take. Soundness of hash structures is stated as ``or two inputs
  collide''; codecs are assumed to read back what they wrote only where a theorem needs it, and then by a named predicate
  (\<open>clock_codec\<close>, \<open>codec_ok\<close>, \<open>signer_keeps\<close>). Each such theorem has a witness that instantiates them.

  \<^bold>\<open>Bounds.\<close> No loop runs on fuel: recursion is structural or has a measure (the Merkle recursions, worklists, decimal text, the heap walks, the levels
  of an evidence tree). The one loop that may not end, the 64-bit split loop of the transparency log, is a partial function into an option; it is shown to return
  for every size up to \<open>2 ^ 63\<close> and not to return above. Counters are 64-bit words and theorems over histories bound their length where a counter
  could wrap. Floating point is replaced by rationals in the session risk and the limiter, so bounds there are about exact arithmetic.

  \<^bold>\<open>Not modelled.\<close> Code whose content is I/O, a protocol or a data format rather than a decision of the kernel: the PostgreSQL and other
  SQL stores with their migrations, HTTP, MCP and command-line front ends, connectors and SDKs, telemetry, the sandbox runtimes. Code that is
  behind a parameter here: signers and canonical JSON (\<^verbatim>\<open>crypto/\<close>, \<^verbatim>\<open>canonicalize/\<close>), the policy decision points (\<^verbatim>\<open>pdp/\<close>, \<^verbatim>\<open>policy/\<close>), the threat scanner
  (\<^verbatim>\<open>threatscan/\<close>), the trust scorer and the sandbox pool. Subsystems with a purpose of their own: compliance packs, launchpad, skill packs, evidence
  packs, shell scanning, privacy redaction, conformance suites, and the packages of \<^verbatim>\<open>core/pkg\<close> off the path from request to receipt. In \<^verbatim>\<open>kernel/\<close>: Unicode
  normalisation (\<^verbatim>\<open>csnf.go\<close>), the SQL store of scoped stops, the Redis limiter, capture and replay helpers. Within modelled packages: \<^verbatim>\<open>SignalFromError\<close> (it walks an error chain), the cursor
  and filtered receipt listings, CEL compilation and caching, and the gate roster of the production profile.
\<close>

end
